(* ===== verification/Prelude.thy ===== *)
theory Prelude
  imports Main "HOL-Library.Multiset"
begin

text \<open>
  Shared vocabulary of the development: the type synonyms that name Go's basic types, the
  64-bit wrap-around of Go's \<^verbatim>\<open>int64\<close> (and of \<^verbatim>\<open>time.Duration\<close>, which is an \<^verbatim>\<open>int64\<close> of
  nanoseconds), sequencing of fallible computations, and generic facts on lists and maps.
  A Go \<^verbatim>\<open>string\<close> is a byte sequence, so it is a \<^typ>\<open>string\<close> whose characters are bytes;
  \<^verbatim>\<open>len(s)\<close> is \<^term>\<open>length s\<close>.
\<close>

named_theorems go_defs \<open>defining equations unfolded by the component proofs\<close>

type_synonym bytes = string
type_synonym duration = int  \<comment> \<open>nanoseconds\<close>
type_synonym timestamp = int \<comment> \<open>nanoseconds or seconds, as the component says\<close>

subsection \<open>Fallible computations\<close>

text \<open>\<open>(v, err)\<close> results of Go: \<open>Inl err\<close> when \<^verbatim>\<open>err != nil\<close>, \<open>Inr v\<close> otherwise.\<close>

fun and_then :: "'e + 'a \<Rightarrow> ('a \<Rightarrow> 'e + 'b) \<Rightarrow> 'e + 'b" where
  "and_then (Inl e) f = Inl e"
| "and_then (Inr x) f = f x"

lemma and_then_Inr_iff [simp]:
  "and_then r f = Inr y \<longleftrightarrow> (\<exists>x. r = Inr x \<and> f x = Inr y)"
  by (cases r) auto

lemma and_then_Inl_iff:
  "and_then r f = Inl e \<longleftrightarrow> r = Inl e \<or> (\<exists>x. r = Inr x \<and> f x = Inl e)"
  by (cases r) auto

lemma and_then_assoc: "and_then (and_then r f) g = and_then r (\<lambda>x. and_then (f x) g)"
  by (cases r) auto

definition is_ok :: "'e + 'a \<Rightarrow> bool" where
  "is_ok r = (case r of Inl _ \<Rightarrow> False | Inr _ \<Rightarrow> True)"

lemma is_ok_simps [simp]: "is_ok (Inr x)" "\<not> is_ok (Inl e)"
  by (simp_all add: is_ok_def)

lemma is_ok_iff: "is_ok r \<longleftrightarrow> (\<exists>x. r = Inr x)"
  by (cases r) (auto simp: is_ok_def)

text \<open>A call that may end in a run-time panic instead of returning.\<close>

datatype 'a run = Returns 'a | Panics string

subsection \<open>64-bit signed integers\<close>

definition wrap64 :: "int \<Rightarrow> int" where
  "wrap64 x = (x + 2 ^ 63) mod 2 ^ 64 - 2 ^ 63"

definition in_int64 :: "int \<Rightarrow> bool" where
  "in_int64 x \<longleftrightarrow> - (2 ^ 63) \<le> x \<and> x < 2 ^ 63"

lemma wrap64_in_range: "in_int64 (wrap64 x)"
  by (auto simp: wrap64_def in_int64_def)

lemma wrap64_id [simp]: "in_int64 x \<Longrightarrow> wrap64 x = x"
  by (simp add: wrap64_def in_int64_def)

text \<open>Go's integer division truncates towards zero.\<close>

definition go_div :: "int \<Rightarrow> int \<Rightarrow> int" where
  "go_div a b = (if (a < 0) = (b < 0) then \<bar>a\<bar> div \<bar>b\<bar> else - (\<bar>a\<bar> div \<bar>b\<bar>))"

lemma go_div_nonneg: "0 \<le> a \<Longrightarrow> 0 < b \<Longrightarrow> go_div a b = a div b"
  by (simp add: go_div_def)

subsection \<open>Lists\<close>

lemma list_all2_eq_iff: "list_all2 (=) xs ys \<longleftrightarrow> xs = ys"
  by (simp add: list.rel_eq)

lemma sorted_eq_iff_mset_eq:
  fixes xs ys :: "'a::linorder list"
  shows "sort xs = sort ys \<longleftrightarrow> mset xs = mset ys"
  by (metis mset_sort sorted_sort properties_for_sort)

text \<open>
  \<^verbatim>\<open>range\<close> over a Go map visits the keys in an unspecified order. A definition that iterates
  over a map takes the order as a parameter; \<open>key_order\<close> says it is some permutation.
\<close>

definition key_order :: "('a list \<Rightarrow> 'a list) \<Rightarrow> bool" where
  "key_order ord \<longleftrightarrow> (\<forall>xs. mset (ord xs) = mset xs)"

lemma key_order_set [simp]: "key_order ord \<Longrightarrow> set (ord xs) = set xs"
  by (metis key_order_def set_mset_mset)

lemma key_order_distinct [simp]: "key_order ord \<Longrightarrow> distinct (ord xs) = distinct xs"
  by (metis key_order_def mset_eq_imp_distinct_iff)

lemma key_order_id [simp]: "key_order (\<lambda>xs. xs)"
  by (simp add: key_order_def)

lemma key_order_rev [simp]: "key_order rev"
  by (simp add: key_order_def)

text \<open>Association lists keep insertion order; \<open>alist_put\<close> is Go's \<^verbatim>\<open>m[k] = v\<close>.\<close>

fun alist_put :: "'k \<Rightarrow> 'v \<Rightarrow> ('k \<times> 'v) list \<Rightarrow> ('k \<times> 'v) list" where
  "alist_put k v [] = [(k, v)]"
| "alist_put k v ((k', v') # m) = (if k = k' then (k, v) # m else (k', v') # alist_put k v m)"

lemma alist_put_map_of [simp]: "map_of (alist_put k v m) = (map_of m)(k \<mapsto> v)"
  by (induction m) auto

lemma alist_put_fst_image [simp]: "fst ` set (alist_put k v m) = insert k (fst ` set m)"
proof (induction m)
  case (Cons p m)
  then show ?case by (cases p) (simp add: insert_commute)
qed simp

lemma alist_put_distinct [simp]: "distinct (map fst m) \<Longrightarrow> distinct (map fst (alist_put k v m))"
proof (induction m)
  case (Cons p m)
  then show ?case by (cases p) auto
qed simp

end
