(* ===== verification/Models.thy ===== *)
theory Models
  imports Prelude
begin

text \<open>
  The persisted data of \<^verbatim>\<open>core/internal/model\<close> that the modelled components read and write:
  each Go struct is a record with the struct's fields in the struct's order (the field names
  carry a prefix that names the struct, since two records may not share a selector).
  \<^verbatim>\<open>time.Time\<close> columns are nanosecond timestamps, \<^verbatim>\<open>*time.Time\<close> columns are options.
\<close>

subsection \<open>Roles, assignments and routes (\<^verbatim>\<open>model/role.go\<close>)\<close>

record role_definition =
  rd_ID :: string
  rd_TenantID :: string
  rd_Name :: string
  rd_Description :: string
  rd_IsSystem :: bool
  rd_InheritedRoles :: "string list"
  rd_CreatedAt :: timestamp
  rd_UpdatedAt :: timestamp

record user_role_assignment =
  ura_ID :: string
  ura_TenantID :: string
  ura_UserID :: string
  ura_Role :: string

record role_mutual_exclusion =
  rme_ID :: string
  rme_TenantID :: string
  rme_RoleA :: string
  rme_RoleB :: string

record route_meta =
  rm_ID :: string
  rm_TenantID :: string
  rm_Method :: string
  rm_Path :: string
  rm_RuleType :: string

definition RuleTypeRBAC :: string where "RuleTypeRBAC = ''rbac''"
definition RuleTypeABAC :: string where "RuleTypeABAC = ''abac''"
definition RuleTypeReBAC :: string where "RuleTypeReBAC = ''rebac''"

end
