(* ===== verification/RoleRegistry.thy ===== *)
theory RoleRegistry
  imports Models "HOL-Library.List_Lexorder" "HOL-Library.Char_ord" "HOL-Library.Product_Lexorder"
begin

text \<open>
  \<^verbatim>\<open>core/internal/authz/rolegistry.go\<close>: the in-memory role inheritance registry. \<open>Load\<close>
  groups the role definitions by domain, expands every role's \<^verbatim>\<open>InheritedRoles\<close> to all its
  ancestors with a memo table and a cycle check, and stores one grouping rule
  \<open>[child, parent, domain]\<close> per ancestor. \<^verbatim>\<open>range\<close> over the maps is modelled by an order
  parameter; the theorems hold for every order.
\<close>

type_synonym role_graph = "(string \<times> string list) list"
type_synonym g_rule = "string list"

record role_registry =
  reg_rules :: "(string \<times> g_rule list) list"

definition NewRoleRegistry :: role_registry where
  "NewRoleRegistry = \<lparr>reg_rules = []\<rparr>"

definition wildcard_domain :: string where
  "wildcard_domain = ''*''"

subsection \<open>The direct-parent graphs\<close>

definition def_domain :: "role_definition \<Rightarrow> string" where
  "def_domain d = (if rd_TenantID d = '''' then wildcard_domain else rd_TenantID d)"

definition graph_at :: "(string \<times> role_graph) list \<Rightarrow> string \<Rightarrow> role_graph" where
  "graph_at graphs dm = (case map_of graphs dm of None \<Rightarrow> [] | Some g \<Rightarrow> g)"

lemma graph_at_Nil [simp]: "graph_at [] dm = []"
  by (simp add: graph_at_def)

lemma graph_at_put [simp]:
  "graph_at (alist_put dm g graphs) dm' = (if dm' = dm then g else graph_at graphs dm')"
  by (simp add: graph_at_def)

fun graphs_of :: "(string \<times> role_graph) list \<Rightarrow> role_definition list \<Rightarrow> (string \<times> role_graph) list" where
  "graphs_of graphs [] = graphs"
| "graphs_of graphs (d # ds) =
     (if rd_Name d = '''' then graphs_of graphs ds
      else
        (let dm = def_domain d
         in graphs_of
              (alist_put dm (alist_put (rd_Name d) (rd_InheritedRoles d) (graph_at graphs dm)) graphs) ds))"

definition parents :: "role_graph \<Rightarrow> string \<Rightarrow> string list" where
  "parents g role = (case map_of g role of None \<Rightarrow> [] | Some ps \<Rightarrow> ps)"

subsection \<open>The expansion\<close>

definition unvisited :: "role_graph \<Rightarrow> string set \<Rightarrow> nat" where
  "unvisited g visiting = card (fst ` set g - visiting)"

lemma unvisited_insert:
  assumes "role \<notin> visiting"
  shows "unvisited g (insert role visiting) < unvisited g visiting \<or>
    unvisited g (insert role visiting) = unvisited g visiting \<and> parents g role = []"
proof (cases "role \<in> fst ` set g")
  case True
  then have "fst ` set g - insert role visiting \<subset> fst ` set g - visiting"
    using assms by auto
  then show ?thesis by (simp add: unvisited_def psubset_card_mono)
next
  case False
  then have "fst ` set g - insert role visiting = fst ` set g - visiting"
    by auto
  moreover have "parents g role = []"
    using False by (force simp: parents_def split: option.splits dest!: map_of_SomeD)
  ultimately show ?thesis by (simp add: unvisited_def)
qed

fun add_grandparents :: "string list \<Rightarrow> string set \<times> string list \<Rightarrow> string set \<times> string list" where
  "add_grandparents [] acc = acc"
| "add_grandparents (gp # gps) (seen, result) =
     (if gp \<in> seen then add_grandparents gps (seen, result)
      else add_grandparents gps (insert gp seen, result @ [gp]))"

text \<open>
  \<open>Inl r\<close> is the error "cyclic inheritance detected at role r". \<^verbatim>\<open>visiting\<close> is restored by the
  deferred \<^verbatim>\<open>delete\<close> when a call returns, so it is passed down and not threaded; the memo
  table is threaded.
\<close>

function (sequential) expandInheritedRoles ::
    "role_graph \<Rightarrow> string \<Rightarrow> (string \<rightharpoonup> string list) \<Rightarrow> string set \<Rightarrow>
     string + string list \<times> (string \<rightharpoonup> string list)"
  and expandParents ::
    "role_graph \<Rightarrow> string \<Rightarrow> string list \<Rightarrow> string set \<times> string list \<Rightarrow>
     (string \<rightharpoonup> string list) \<Rightarrow> string set \<Rightarrow> string + string list \<times> (string \<rightharpoonup> string list)" where
  "expandInheritedRoles g role memo visiting =
     (if role \<in> visiting then Inl role
      else case memo role of
        Some cached \<Rightarrow> Inr (cached, memo)
      | None \<Rightarrow>
          (case expandParents g role (parents g role) ({}, []) memo (insert role visiting) of
             Inl e \<Rightarrow> Inl e
           | Inr (result, memo') \<Rightarrow> Inr (result, memo'(role \<mapsto> result))))"
| "expandParents g role [] (seen, result) memo visiting = Inr (result, memo)"
| "expandParents g role (parent # ps) (seen, result) memo visiting =
     (if parent = '''' \<or> parent = role \<or> parent \<in> seen
      then expandParents g role ps (seen, result) memo visiting
      else case expandInheritedRoles g parent memo visiting of
        Inl e \<Rightarrow> Inl e
      | Inr (grandParents, memo') \<Rightarrow>
          expandParents g role ps
            (add_grandparents grandParents (insert parent seen, result @ [parent])) memo' visiting)"
  by pat_completeness auto

termination
proof (relation "measures [
    case_sum (\<lambda>(g, role, memo, visiting). unvisited g visiting)
             (\<lambda>(g, role, ps, acc, memo, visiting). unvisited g visiting),
    case_sum (\<lambda>_. 1) (\<lambda>(g, role, ps, acc, memo, visiting). 2 * length ps)]", goal_cases)
  case (2 g role memo visiting)
  then show ?case using unvisited_insert [of role visiting g] by auto
qed auto

declare expandInheritedRoles.simps [simp del]

subsection \<open>Loading the registry\<close>

fun expandRoles ::
    "role_graph \<Rightarrow> string \<Rightarrow> string list \<Rightarrow> (string \<rightharpoonup> string list) \<Rightarrow> g_rule list \<Rightarrow> string + g_rule list" where
  "expandRoles g dm [] memo rules = Inr rules"
| "expandRoles g dm (role # roles) memo rules =
     (case expandInheritedRoles g role memo {} of
        Inl e \<Rightarrow> Inl e
      | Inr (ancestors, memo') \<Rightarrow>
          expandRoles g dm roles memo' (rules @ map (\<lambda>parent. [role, parent, dm]) ancestors))"

definition rule_key :: "g_rule \<Rightarrow> string \<times> string" where
  "rule_key r = (r ! 0, r ! 1)"

fun loadDomains ::
    "(string list \<Rightarrow> string list) \<Rightarrow> (string \<times> role_graph) list \<Rightarrow> string list \<Rightarrow>
     (string \<times> g_rule list) list \<Rightarrow> string + (string \<times> g_rule list) list" where
  "loadDomains ord graphs [] newRules = Inr newRules"
| "loadDomains ord graphs (dm # dms) newRules =
     (let g = graph_at graphs dm
      in case expandRoles g dm (ord (map fst g)) Map.empty [] of
           Inl e \<Rightarrow> Inl e
         | Inr rules \<Rightarrow>
             loadDomains ord graphs dms
               (if rules = [] then newRules
                else alist_put dm (sort_key rule_key rules) newRules))"

definition Load ::
    "(string list \<Rightarrow> string list) \<Rightarrow> role_registry \<Rightarrow> role_definition list \<Rightarrow> string + role_registry" where
  "Load ord r defs =
     (let graphs = graphs_of [] defs
      in case loadDomains ord graphs (ord (map fst graphs)) [] of
           Inl e \<Rightarrow> Inl e
         | Inr newRules \<Rightarrow> Inr (r\<lparr>reg_rules := newRules\<rparr>))"

definition rules_at :: "role_registry \<Rightarrow> string \<Rightarrow> g_rule list" where
  "rules_at r dm = (case map_of (reg_rules r) dm of None \<Rightarrow> [] | Some rs \<Rightarrow> rs)"

definition GetInheritanceRules :: "role_registry \<Rightarrow> string \<Rightarrow> g_rule list" where
  "GetInheritanceRules r dm =
     rules_at r wildcard_domain @
     (if dm \<noteq> '''' \<and> dm \<noteq> wildcard_domain then rules_at r dm else [])"

definition Reload ::
    "(string list \<Rightarrow> string list) \<Rightarrow> role_registry \<Rightarrow> role_definition list \<Rightarrow> string + role_registry" where
  "Reload ord r defs = Load ord r defs"

subsection \<open>The specification: ancestors in the inheritance relation\<close>

definition inherits :: "role_graph \<Rightarrow> string \<Rightarrow> string \<Rightarrow> bool" where
  "inherits g role p \<longleftrightarrow> p \<in> set (parents g role) \<and> p \<noteq> '''' \<and> p \<noteq> role"

definition ancestors :: "role_graph \<Rightarrow> string \<Rightarrow> string set" where
  "ancestors g role = {a. (inherits g)\<^sup>+\<^sup>+ role a}"

text \<open>No cycle is reachable from the role.\<close>

definition acyclic_from :: "role_graph \<Rightarrow> string \<Rightarrow> bool" where
  "acyclic_from g role \<longleftrightarrow> (\<forall>a. (inherits g)\<^sup>*\<^sup>* role a \<longrightarrow> \<not> (inherits g)\<^sup>+\<^sup>+ a a)"

lemma ancestors_unfold:
  "ancestors g role = (\<Union>p\<in>{p. inherits g role p}. insert p (ancestors g p))"
proof (rule set_eqI, rule iffI)
  fix a assume "a \<in> ancestors g role"
  then obtain p where "inherits g role p" "(inherits g)\<^sup>*\<^sup>* p a"
    by (auto simp: ancestors_def dest: tranclpD)
  then show "a \<in> (\<Union>p\<in>{p. inherits g role p}. insert p (ancestors g p))"
    by (auto simp: ancestors_def dest: rtranclpD)
next
  fix a assume "a \<in> (\<Union>p\<in>{p. inherits g role p}. insert p (ancestors g p))"
  then show "a \<in> ancestors g role"
    by (auto simp: ancestors_def intro: tranclp_into_tranclp2)
qed

lemma ancestors_trans: "a \<in> ancestors g r \<Longrightarrow> ancestors g a \<subseteq> ancestors g r"
  by (auto simp: ancestors_def)

lemma acyclic_from_step: "acyclic_from g r \<Longrightarrow> a \<in> ancestors g r \<Longrightarrow> acyclic_from g a"
  unfolding acyclic_from_def ancestors_def
  by (metis mem_Collect_eq rtranclp_trans tranclp_into_rtranclp)

lemma acyclic_fromI:
  assumes "\<And>p. inherits g r p \<Longrightarrow> acyclic_from g p"
  shows "acyclic_from g r"
proof -
  have no_loop: "\<not> (inherits g)\<^sup>+\<^sup>+ r r"
  proof
    assume loop: "(inherits g)\<^sup>+\<^sup>+ r r"
    then obtain p where "inherits g r p" "(inherits g)\<^sup>*\<^sup>* p r"
      by (auto dest: tranclpD)
    with assms loop show False by (auto simp: acyclic_from_def)
  qed
  show ?thesis
    unfolding acyclic_from_def
  proof (intro allI impI)
    fix a assume "(inherits g)\<^sup>*\<^sup>* r a"
    then show "\<not> (inherits g)\<^sup>+\<^sup>+ a a"
    proof (cases rule: converse_rtranclpE)
      case base
      with no_loop show ?thesis by simp
    next
      case (step p)
      with assms show ?thesis by (auto simp: acyclic_from_def)
    qed
  qed
qed

definition expansion_ok :: "role_graph \<Rightarrow> string \<Rightarrow> string list \<Rightarrow> bool" where
  "expansion_ok g r xs \<longleftrightarrow> distinct xs \<and> set xs = ancestors g r \<and> acyclic_from g r"

definition memo_ok :: "role_graph \<Rightarrow> (string \<rightharpoonup> string list) \<Rightarrow> bool" where
  "memo_ok g memo \<longleftrightarrow> (\<forall>r xs. memo r = Some xs \<longrightarrow> expansion_ok g r xs)"

lemma memo_ok_empty [simp]: "memo_ok g Map.empty"
  by (simp add: memo_ok_def)

lemma memo_okD: "memo_ok g memo \<Longrightarrow> memo r = Some xs \<Longrightarrow> expansion_ok g r xs"
  by (simp add: memo_ok_def)

lemma memo_ok_upd: "memo_ok g memo \<Longrightarrow> expansion_ok g r xs \<Longrightarrow> memo_ok g (memo(r \<mapsto> xs))"
  by (auto simp: memo_ok_def)

lemma add_grandparents_correct:
  assumes "distinct result"
  shows "\<exists>result'. add_grandparents gps (set result, result) = (set result', result') \<and>
    distinct result' \<and> set result' = set result \<union> set gps"
  using assms
proof (induction gps arbitrary: result)
  case (Cons gp gps)
  show ?case
  proof (cases "gp \<in> set result")
    case True
    with Cons show ?thesis by (simp add: insert_absorb)
  next
    case False
    with Cons.IH [of "result @ [gp]"] Cons.prems show ?thesis by simp
  qed
qed simp

text \<open>
  The accumulator of the parent loop: no duplicates, closed under ancestors, every member
  free of cycles; at the end it holds every parent with its ancestors.
\<close>

definition loop_inv :: "role_graph \<Rightarrow> string list \<Rightarrow> bool" where
  "loop_inv g result \<longleftrightarrow> distinct result \<and>
     (\<forall>x\<in>set result. ancestors g x \<subseteq> set result \<and> acyclic_from g x)"

definition loop_done :: "role_graph \<Rightarrow> string list \<Rightarrow> string \<Rightarrow> string list \<Rightarrow> string list \<Rightarrow> bool" where
  "loop_done g result role ps result' \<longleftrightarrow> loop_inv g result' \<and>
     set result' = set result \<union> (\<Union>p\<in>{p \<in> set ps. p \<noteq> '''' \<and> p \<noteq> role}. insert p (ancestors g p))"

lemma loop_done_role:
  assumes "loop_done g [] role (parents g role) result"
  shows "expansion_ok g role result"
proof -
  have set_eq: "set result = ancestors g role"
    using assms by (subst ancestors_unfold) (auto simp: loop_done_def inherits_def)
  have "acyclic_from g p" if "inherits g role p" for p
  proof -
    have "p \<in> ancestors g role"
      using that by (auto simp: ancestors_def)
    then show ?thesis using assms set_eq by (auto simp: loop_done_def loop_inv_def)
  qed
  then have "acyclic_from g role" by (rule acyclic_fromI)
  with set_eq assms show ?thesis by (auto simp: expansion_ok_def loop_done_def loop_inv_def)
qed

lemma loop_inv_step:
  assumes "loop_inv g result" "expansion_ok g p gps" "p \<notin> set result"
  shows "\<exists>result'. add_grandparents gps (insert p (set result), result @ [p]) = (set result', result') \<and>
    loop_inv g result' \<and> set result' = set result \<union> insert p (ancestors g p)"
proof -
  obtain result' where r: "add_grandparents gps (insert p (set result), result @ [p]) = (set result', result')"
    "distinct result'" "set result' = set (result @ [p]) \<union> set gps"
    using add_grandparents_correct [of "result @ [p]" gps] assms
    by (auto simp: loop_inv_def)
  have gps: "set gps = ancestors g p" "acyclic_from g p"
    using assms(2) by (auto simp: expansion_ok_def)
  have "ancestors g x \<subseteq> set result' \<and> acyclic_from g x" if x: "x \<in> set result'" for x
  proof -
    consider "x \<in> set result" | "x = p" | "x \<in> ancestors g p"
      using x r gps by auto
    then show ?thesis
    proof cases
      case 1
      then show ?thesis using assms(1) r by (auto simp: loop_inv_def)
    next
      case 2
      then show ?thesis using gps r by auto
    next
      case 3
      then show ?thesis using gps r ancestors_trans [of x g p] acyclic_from_step [of g p x] by auto
    qed
  qed
  with r gps show ?thesis by (auto simp: loop_inv_def)
qed
lemma expand_sound:
  "expandInheritedRoles g role memo visiting = Inr (xs, memo') \<Longrightarrow> memo_ok g memo \<Longrightarrow>
     expansion_ok g role xs \<and> memo_ok g memo'"
  "expandParents g role ps acc memo visiting = Inr (xs, memo') \<Longrightarrow> memo_ok g memo \<Longrightarrow>
     fst acc = set (snd acc) \<Longrightarrow> loop_inv g (snd acc) \<Longrightarrow>
     loop_done g (snd acc) role ps xs \<and> memo_ok g memo'"
proof (induction g role memo visiting and g role ps acc memo visiting
    arbitrary: xs memo' and xs memo' rule: expandInheritedRoles_expandParents.induct)
  case (1 g role memo visiting)
  from "1.prems"(1) have fresh: "role \<notin> visiting"
    by (auto simp: expandInheritedRoles.simps split: if_splits)
  show ?case
  proof (cases "memo role")
    case (Some cached)
    with "1.prems" fresh show ?thesis by (auto simp: expandInheritedRoles.simps dest: memo_okD)
  next
    case None
    with "1.prems"(1) fresh obtain memo1 where loop:
      "expandParents g role (parents g role) ({}, []) memo (insert role visiting) = Inr (xs, memo1)"
      and memo': "memo' = memo1(role \<mapsto> xs)"
      by (auto simp: expandInheritedRoles.simps split: sum.splits)
    have "loop_done g [] role (parents g role) xs \<and> memo_ok g memo1"
      using "1.IH" [OF fresh None loop "1.prems"(2)] by (simp add: loop_inv_def)
    then show ?thesis unfolding memo' by (blast intro: memo_ok_upd loop_done_role)
  qed
next
  case (2 g role seen result memo visiting)
  then show ?case by (auto simp: loop_done_def)
next
  case (3 g role p ps seen result memo visiting)
  show ?case
  proof (cases "p = '''' \<or> p = role \<or> p \<in> seen")
    case True
    with "3.prems" have "loop_done g result role ps xs \<and> memo_ok g memo'"
      using "3.IH"(1) [OF True] by auto
    moreover have "p \<in> set result \<Longrightarrow> ancestors g p \<subseteq> set result"
      using "3.prems" by (auto simp: loop_inv_def)
    ultimately show ?thesis using True "3.prems" by (auto simp: loop_done_def)
  next
    case False
    with "3.prems"(1) obtain gps memo1 where gp: "expandInheritedRoles g p memo visiting = Inr (gps, memo1)"
      and rest: "expandParents g role ps (add_grandparents gps (insert p seen, result @ [p])) memo1 visiting
        = Inr (xs, memo')"
      by (auto split: sum.splits)
    have ok: "expansion_ok g p gps \<and> memo_ok g memo1"
      using "3.IH"(2) [OF False gp "3.prems"(2)] .
    obtain result' where r: "add_grandparents gps (insert p seen, result @ [p]) = (set result', result')"
      "loop_inv g result'" "set result' = set result \<union> insert p (ancestors g p)"
      using loop_inv_step [of g result p gps] ok "3.prems" False by auto
    have "loop_done g result' role ps xs \<and> memo_ok g memo'"
      using "3.IH"(3) [OF False gp refl rest] ok r by simp
    then show ?thesis using r False by (auto simp: loop_done_def)
  qed
qed

lemma expand_error:
  "expandInheritedRoles g role memo visiting = Inl e \<Longrightarrow>
     \<forall>v\<in>visiting. (inherits g)\<^sup>+\<^sup>+ v role \<Longrightarrow>
     (inherits g)\<^sup>*\<^sup>* role e \<and> (inherits g)\<^sup>+\<^sup>+ e e"
  "expandParents g role ps acc memo visiting = Inl e \<Longrightarrow>
     \<forall>v\<in>visiting. (inherits g)\<^sup>*\<^sup>* v role \<Longrightarrow> set ps \<subseteq> set (parents g role) \<Longrightarrow>
     (inherits g)\<^sup>*\<^sup>* role e \<and> (inherits g)\<^sup>+\<^sup>+ e e"
proof (induction g role memo visiting and g role ps acc memo visiting
    rule: expandInheritedRoles_expandParents.induct)
  case (1 g role memo visiting)
  show ?case
  proof (cases "role \<in> visiting")
    case True
    with "1.prems" show ?thesis by (auto simp: expandInheritedRoles.simps)
  next
    case False
    with "1.prems"(1) have none: "memo role = None"
      and loop: "expandParents g role (parents g role) ({}, []) memo (insert role visiting) = Inl e"
      by (auto simp: expandInheritedRoles.simps split: option.splits sum.splits)
    have "\<forall>v\<in>insert role visiting. (inherits g)\<^sup>*\<^sup>* v role"
      using "1.prems"(2) by (auto intro: tranclp_into_rtranclp)
    from "1.IH" [OF False none loop this] show ?thesis by simp
  qed
next
  case (3 g role p ps seen result memo visiting)
  show ?case
  proof (cases "p = '''' \<or> p = role \<or> p \<in> seen")
    case True
    with "3.IH"(1) [OF True] "3.prems" show ?thesis by auto
  next
    case False
    then have edge: "inherits g role p"
      using "3.prems"(3) by (auto simp: inherits_def)
    have vis: "\<forall>v\<in>visiting. (inherits g)\<^sup>+\<^sup>+ v p"
      using "3.prems"(2) edge by (auto intro: rtranclp_into_tranclp1)
    show ?thesis
    proof (cases "expandInheritedRoles g p memo visiting")
      case (Inl e')
      with "3.prems"(1) False have "e' = e" by auto
      with "3.IH"(2) [OF False] Inl vis edge show ?thesis
        by (meson converse_rtranclp_into_rtranclp)
    next
      case (Inr r)
      with "3.prems" False "3.IH"(3) [OF False] show ?thesis by (cases r) auto
    qed
  qed
qed simp

lemma expand_top:
  assumes "memo_ok g memo"
  shows "(\<exists>e. expandInheritedRoles g role memo {} = Inl e) \<longleftrightarrow> \<not> acyclic_from g role"
  using assms expand_sound(1) [of g role memo "{}"] expand_error(1) [of g role memo "{}"]
  by (cases "expandInheritedRoles g role memo {}")
     (auto simp: expansion_ok_def acyclic_from_def)

subsection \<open>The loaded rules\<close>

definition domain_graph :: "role_definition list \<Rightarrow> string \<Rightarrow> role_graph" where
  "domain_graph defs dm = graph_at (graphs_of [] defs) dm"

definition graphs_wf :: "(string \<times> role_graph) list \<Rightarrow> bool" where
  "graphs_wf graphs \<longleftrightarrow> distinct (map fst graphs) \<and> (\<forall>dm. distinct (map fst (graph_at graphs dm)))"

lemma graphs_wf_of: "graphs_wf graphs \<Longrightarrow> graphs_wf (graphs_of graphs defs)"
proof (induction graphs defs rule: graphs_of.induct)
  case (2 graphs d ds)
  then show ?case by (auto simp: Let_def graphs_wf_def)
qed simp

lemma graphs_wf_domains: "graphs_wf (graphs_of [] defs)"
  by (rule graphs_wf_of) (simp add: graphs_wf_def)

lemma find_snoc: "find P (xs @ [x]) = (case find P xs of Some y \<Rightarrow> Some y | None \<Rightarrow> if P x then Some x else None)"
  by (induction xs) auto

text \<open>The last definition of a role in a domain wins.\<close>

lemma graphs_of_lookup:
  assumes "role \<noteq> ''''"
  shows "map_of (graph_at (graphs_of graphs ds) dm) role =
    (case find (\<lambda>d. def_domain d = dm \<and> rd_Name d = role) (rev ds) of
       Some d \<Rightarrow> Some (rd_InheritedRoles d)
     | None \<Rightarrow> map_of (graph_at graphs dm) role)"
  using assms
proof (induction graphs ds rule: graphs_of.induct)
  case (2 graphs d ds)
  then show ?case
    by (auto simp: Let_def find_snoc split: option.splits)
qed simp

lemma domain_graph_parents:
  "role \<noteq> '''' \<Longrightarrow> parents (domain_graph defs dm) role =
    (case find (\<lambda>d. def_domain d = dm \<and> rd_Name d = role) (rev defs) of
       Some d \<Rightarrow> rd_InheritedRoles d | None \<Rightarrow> [])"
  using graphs_of_lookup [of role "[]" defs dm]
  by (auto simp: parents_def domain_graph_def split: option.splits)

definition domain_rules :: "role_graph \<Rightarrow> string \<Rightarrow> g_rule set" where
  "domain_rules g dm = {[c, p, dm] | c p. p \<in> ancestors g c}"

lemma ancestors_key: "p \<in> ancestors g c \<Longrightarrow> c \<in> fst ` set g"
proof -
  assume "p \<in> ancestors g c"
  then obtain q where "inherits g c q"
    by (auto simp: ancestors_def dest: tranclpD)
  then have "map_of g c \<noteq> None"
    by (cases "map_of g c") (auto simp: inherits_def parents_def)
  then show ?thesis by (simp add: map_of_eq_None_iff)
qed

lemma expandRoles_sound:
  assumes "expandRoles g dm roles memo rules = Inr rules'" "memo_ok g memo"
    and "distinct roles" "distinct (map rule_key rules)"
    and "\<forall>r\<in>set rules. fst (rule_key r) \<notin> set roles"
  shows "set rules' = set rules \<union> {[c, p, dm] | c p. c \<in> set roles \<and> p \<in> ancestors g c} \<and>
    distinct (map rule_key rules') \<and> (\<forall>c\<in>set roles. acyclic_from g c)"
  using assms
proof (induction roles arbitrary: memo rules)
  case (Cons c roles)
  from Cons.prems(1) obtain as memo1 where ex: "expandInheritedRoles g c memo {} = Inr (as, memo1)"
    and rest: "expandRoles g dm roles memo1 (rules @ map (\<lambda>parent. [c, parent, dm]) as) = Inr rules'"
    by (auto split: sum.splits)
  from expand_sound(1) [OF ex Cons.prems(2)] have ok: "expansion_ok g c as" "memo_ok g memo1" by auto
  let ?new = "map (\<lambda>parent. [c, parent, dm]) as"
  have d: "distinct (map rule_key (rules @ ?new))"
    using Cons.prems ok(1)
    by (auto simp: expansion_ok_def rule_key_def distinct_map inj_on_def)
  have f: "\<forall>r\<in>set (rules @ ?new). fst (rule_key r) \<notin> set roles"
    using Cons.prems by (auto simp: rule_key_def)
  from Cons.IH [OF rest ok(2) _ d f] Cons.prems(3) ok(1) show ?case
    by (auto simp: expansion_ok_def)
qed auto

lemma expandRoles_error:
  "expandRoles g dm roles memo rules = Inl e \<Longrightarrow> memo_ok g memo \<Longrightarrow>
    \<exists>c\<in>set roles. \<not> acyclic_from g c"
proof (induction roles arbitrary: memo rules)
  case (Cons c roles)
  show ?case
  proof (cases "expandInheritedRoles g c memo {}")
    case (Inl e')
    with expand_top [OF Cons.prems(2), of c] show ?thesis by auto
  next
    case (Inr r)
    then obtain as memo1 where r: "r = (as, memo1)" by (cases r)
    with Inr expand_sound(1) [of g c memo "{}" as memo1] Cons.prems(2) have "memo_ok g memo1" by simp
    with Cons.IH Cons.prems(1) Inr r show ?thesis by auto
  qed
qed simp

definition expand_domain ::
    "(string list \<Rightarrow> string list) \<Rightarrow> (string \<times> role_graph) list \<Rightarrow> string \<Rightarrow> string + g_rule list" where
  "expand_domain ord graphs dm =
     expandRoles (graph_at graphs dm) dm (ord (map fst (graph_at graphs dm))) Map.empty []"

lemma expand_domain_sound:
  assumes "expand_domain ord graphs dm = Inr rules" "key_order ord" "graphs_wf graphs"
  shows "set rules = domain_rules (graph_at graphs dm) dm \<and> distinct (map rule_key rules) \<and>
    (\<forall>c. acyclic_from (graph_at graphs dm) c)"
proof -
  let ?g = "graph_at graphs dm"
  have "distinct (ord (map fst ?g))"
    using assms(2,3) by (simp add: graphs_wf_def)
  with expandRoles_sound [of ?g dm "ord (map fst ?g)" Map.empty "[]" rules] assms(1,2)
  have r: "set rules = {[c, p, dm] | c p. c \<in> fst ` set ?g \<and> p \<in> ancestors ?g c}"
    "distinct (map rule_key rules)" "\<forall>c\<in>fst ` set ?g. acyclic_from ?g c"
    by (auto simp: expand_domain_def)
  have "acyclic_from ?g c" for c
  proof (cases "c \<in> fst ` set ?g")
    case False
    then have "\<not> inherits ?g c p" for p
      using ancestors_key [of p ?g c] by (auto simp: ancestors_def)
    then show ?thesis by (auto intro: acyclic_fromI)
  qed (use r in auto)
  with r show ?thesis by (auto simp: domain_rules_def dest: ancestors_key)
qed

lemma expand_domain_error:
  "expand_domain ord graphs dm = Inl e \<Longrightarrow> key_order ord \<Longrightarrow>
    \<exists>c. \<not> acyclic_from (graph_at graphs dm) c"
  by (auto simp: expand_domain_def dest: expandRoles_error)

lemma loadDomains_Inr:
  "loadDomains ord graphs dms nr = Inr nr' \<Longrightarrow> distinct dms \<Longrightarrow> \<forall>dm\<in>set dms. map_of nr dm = None \<Longrightarrow>
    (\<forall>dm\<in>set dms. \<exists>rules. expand_domain ord graphs dm = Inr rules \<and>
       (case map_of nr' dm of None \<Rightarrow> [] | Some rs \<Rightarrow> rs) = sort_key rule_key rules) \<and>
    (\<forall>dm. dm \<notin> set dms \<longrightarrow> map_of nr' dm = map_of nr dm)"
proof (induction dms arbitrary: nr)
  case (Cons dm dms)
  from Cons.prems(1) obtain rules where ex: "expand_domain ord graphs dm = Inr rules"
    and rest: "loadDomains ord graphs dms
      (if rules = [] then nr else alist_put dm (sort_key rule_key rules) nr) = Inr nr'"
    by (auto simp: expand_domain_def Let_def split: sum.splits)
  have none: "\<forall>d\<in>set dms. map_of (if rules = [] then nr else alist_put dm (sort_key rule_key rules) nr) d = None"
    using Cons.prems(2,3) by auto
  from Cons.IH [OF rest _ none] Cons.prems(2) have IH:
    "\<forall>d\<in>set dms. \<exists>rules. expand_domain ord graphs d = Inr rules \<and>
       (case map_of nr' d of None \<Rightarrow> [] | Some rs \<Rightarrow> rs) = sort_key rule_key rules"
    "\<forall>d. d \<notin> set dms \<longrightarrow> map_of nr' d =
       map_of (if rules = [] then nr else alist_put dm (sort_key rule_key rules) nr) d" by auto
  have "map_of nr' dm = (if rules = [] then None else Some (sort_key rule_key rules))"
    using IH(2) Cons.prems(2,3) by simp
  with IH ex show ?case by auto
qed simp

lemma loadDomains_Inl:
  "loadDomains ord graphs dms nr = Inl e \<Longrightarrow> \<exists>dm\<in>set dms. expand_domain ord graphs dm = Inl e"
  by (induction dms arbitrary: nr) (auto simp: expand_domain_def Let_def split: sum.splits)

lemma Load_sound:
  assumes "Load ord r defs = Inr reg" "key_order ord"
  shows "set (rules_at reg dm) = domain_rules (domain_graph defs dm) dm \<and>
    distinct (map rule_key (rules_at reg dm)) \<and> sorted (map rule_key (rules_at reg dm)) \<and>
    (\<forall>c. acyclic_from (domain_graph defs dm) c)"
proof -
  let ?gs = "graphs_of [] defs"
  have wf: "graphs_wf ?gs" by (rule graphs_wf_domains)
  from assms(1) obtain nr where nr: "loadDomains ord ?gs (ord (map fst ?gs)) [] = Inr nr"
    and reg: "reg = r\<lparr>reg_rules := nr\<rparr>"
    by (auto simp: Load_def Let_def split: sum.splits)
  from loadDomains_Inr [OF nr] wf assms(2)
  have L: "\<forall>dm\<in>fst ` set ?gs. \<exists>rules. expand_domain ord ?gs dm = Inr rules \<and>
       (case map_of nr dm of None \<Rightarrow> [] | Some rs \<Rightarrow> rs) = sort_key rule_key rules"
    "\<forall>dm. dm \<notin> fst ` set ?gs \<longrightarrow> map_of nr dm = None"
    by (auto simp: graphs_wf_def)
  show ?thesis
  proof (cases "dm \<in> fst ` set ?gs")
    case True
    with L(1) obtain rules where rules: "expand_domain ord ?gs dm = Inr rules"
      "rules_at reg dm = sort_key rule_key rules"
      by (auto simp: rules_at_def reg)
    from expand_domain_sound [OF rules(1) assms(2) wf]
    have S: "set rules = domain_rules (domain_graph defs dm) dm" "distinct (map rule_key rules)"
      "\<forall>c. acyclic_from (domain_graph defs dm) c"
      by (auto simp: domain_graph_def)
    have "distinct (map rule_key (sort_key rule_key rules))"
      using S(2) by (simp add: distinct_map)
    with S(1,3) rules(2) show ?thesis by simp
  next
    case False
    then have "domain_graph defs dm = []"
      by (auto simp: domain_graph_def graph_at_def split: option.splits dest!: map_of_SomeD)
         (metis fst_conv image_eqI)
    moreover have "rules_at reg dm = []"
      using L(2) False by (simp add: rules_at_def reg)
    moreover have "\<not> inherits [] c p" for c p
      by (simp add: inherits_def parents_def)
    ultimately show ?thesis
      by (auto simp: domain_rules_def intro: acyclic_fromI dest: ancestors_key)
  qed
qed

lemma Load_error:
  assumes "Load ord r defs = Inl e" "key_order ord"
  shows "\<exists>dm c. \<not> acyclic_from (domain_graph defs dm) c"
  using assms by (auto simp: Load_def Let_def domain_graph_def split: sum.splits
    dest!: loadDomains_Inl expand_domain_error)

subsection \<open>Properties\<close>

text \<open>
  C1. After a successful \<open>Load\<close>, the rules a caller gets for a domain are exactly one
  \<open>[child, ancestor, domain]\<close> rule per pair of the transitive closure of the declared
  inheritance, for the system domain \<^verbatim>\<open>"*"\<close> and for the requested tenant; each domain's rules
  are sorted by (child, ancestor) and hold no duplicate.
\<close>

theorem registry_rules_are_transitive_closure:
  assumes "key_order ord" and "Load ord r defs = Inr reg"
  shows "set (GetInheritanceRules reg dm) =
      domain_rules (domain_graph defs wildcard_domain) wildcard_domain \<union>
      (if dm = '''' then {} else domain_rules (domain_graph defs dm) dm) \<and>
    distinct (map rule_key (rules_at reg dm)) \<and> sorted (map rule_key (rules_at reg dm))"
  using Load_sound [OF assms(2,1), of dm] Load_sound [OF assms(2,1), of wildcard_domain]
  by (auto simp: GetInheritanceRules_def)

definition example_defs :: "role_definition list" where
  "example_defs =
    [\<lparr>rd_ID = ''1'', rd_TenantID = '''', rd_Name = ''user'', rd_Description = '''', rd_IsSystem = True,
       rd_InheritedRoles = [], rd_CreatedAt = 0, rd_UpdatedAt = 0\<rparr>,
     \<lparr>rd_ID = ''2'', rd_TenantID = '''', rd_Name = ''admin'', rd_Description = '''', rd_IsSystem = True,
       rd_InheritedRoles = [''user''], rd_CreatedAt = 0, rd_UpdatedAt = 0\<rparr>,
     \<lparr>rd_ID = ''3'', rd_TenantID = '''', rd_Name = ''root'', rd_Description = '''', rd_IsSystem = True,
       rd_InheritedRoles = [''admin''], rd_CreatedAt = 0, rd_UpdatedAt = 0\<rparr>]"

definition example_registry :: role_registry where
  "example_registry = \<lparr>reg_rules = [(''*'', [[''admin'', ''user'', ''*''],
     [''root'', ''admin'', ''*''], [''root'', ''user'', ''*'']])]\<rparr>"

lemma example_load: "Load rev NewRoleRegistry example_defs = Inr example_registry"
  by code_simp

theorem registry_rules_are_transitive_closure_witness:
  "set (GetInheritanceRules example_registry ''t1'') =
      domain_rules (domain_graph example_defs wildcard_domain) wildcard_domain \<union>
      (if ''t1'' = '''' then {} else domain_rules (domain_graph example_defs ''t1'') ''t1'') \<and>
    distinct (map rule_key (rules_at example_registry ''t1'')) \<and>
    sorted (map rule_key (rules_at example_registry ''t1''))"
  by (rule registry_rules_are_transitive_closure [OF key_order_rev example_load])

text \<open>
  C2. \<open>Load\<close> fails exactly when some domain's inheritance relation has a cycle (a role listing
  itself is skipped and is not a cycle); otherwise it returns a registry.
\<close>

theorem registry_load_fails_iff_cycle:
  assumes "key_order ord"
  shows "(\<exists>e. Load ord r defs = Inl e) \<longleftrightarrow>
    (\<exists>dm role. (inherits (domain_graph defs dm))\<^sup>+\<^sup>+ role role)"
proof
  assume "\<exists>e. Load ord r defs = Inl e"
  with Load_error [OF _ assms] show "\<exists>dm role. (inherits (domain_graph defs dm))\<^sup>+\<^sup>+ role role"
    by (fastforce simp: acyclic_from_def)
next
  assume "\<exists>dm role. (inherits (domain_graph defs dm))\<^sup>+\<^sup>+ role role"
  then obtain dm role where "\<not> acyclic_from (domain_graph defs dm) role"
    by (auto simp: acyclic_from_def)
  with Load_sound [OF _ assms, of r defs _ dm] show "\<exists>e. Load ord r defs = Inl e"
    by (cases "Load ord r defs") auto
qed

theorem registry_load_fails_iff_cycle_witness:
  "(\<exists>e. Load rev NewRoleRegistry example_defs = Inl e) \<longleftrightarrow>
    (\<exists>dm role. (inherits (domain_graph example_defs dm))\<^sup>+\<^sup>+ role role)"
  by (rule registry_load_fails_iff_cycle [OF key_order_rev])

lemma domain_rules_key_inj: "inj_on rule_key (domain_rules g dm)"
  by (auto simp: inj_on_def domain_rules_def rule_key_def)

text \<open>
  The loaded registry does not depend on the order in which Go's \<^verbatim>\<open>range\<close> visits the maps:
  two loads of the same definitions answer every domain with the same rule list.
\<close>

theorem registry_load_order_independent:
  assumes "key_order ord" "key_order ord'"
    and "Load ord r defs = Inr reg" "Load ord' r' defs = Inr reg'"
  shows "GetInheritanceRules reg dm = GetInheritanceRules reg' dm"
proof -
  have eq: "rules_at reg d = rules_at reg' d" for d
    using Load_sound [OF assms(3,1), of d] Load_sound [OF assms(4,2), of d] domain_rules_key_inj
    by (intro map_sorted_distinct_set_unique [of rule_key]) auto
  show ?thesis by (simp add: GetInheritanceRules_def eq)
qed

lemma example_load_id: "Load (\<lambda>xs. xs) NewRoleRegistry example_defs = Inr example_registry"
  by code_simp

theorem registry_load_order_independent_witness:
  "GetInheritanceRules example_registry ''t1'' = GetInheritanceRules example_registry ''t1''"
  by (rule registry_load_order_independent
      [OF key_order_id key_order_rev example_load_id example_load])

end
