(* ===== verification/AbacRule.thy ===== *)
theory AbacRule
  imports GoStrings
begin

text \<open>
  \<^verbatim>\<open>core/internal/authz/abac_validator.go\<close>: the lexer and the recursive-descent parser that
  admit ABAC sub and obj rules. The lexer's position is the remaining input; \<^verbatim>\<open>text\<close> slices of
  the input are the consumed bytes. The parser recurses on a fuel argument; \<open>parse_fuel\<close> is
  shown to be enough for every input, so \<open>OutOfFuel\<close> is never an answer of the validator.
\<close>

datatype token_kind = TokEOF | TokIdent | TokString | TokNumber | TokBool | TokDot
  | TokLParen | TokRParen | TokLBracket | TokRBracket | TokComma | TokEq | TokNe | TokIn

record token =
  tkind :: token_kind
  ttext :: string

definition mk_token :: "token_kind \<Rightarrow> string \<Rightarrow> token" where
  "mk_token k t = \<lparr>tkind = k, ttext = t\<rparr>"

lemma mk_token_simps [simp]: "tkind (mk_token k t) = k" "ttext (mk_token k t) = t"
  by (simp_all add: mk_token_def)

datatype rule_error =
    ConstantTruth string
  | Expected token_kind string
  | ExpectedOperator string
  | UnexpectedIdentifier string
  | UnexpectedToken string
  | InvalidTarget string
  | InvalidAttribute string
  | OutOfFuel

subsection \<open>The constant-truth blacklist\<close>

text \<open>
  The source lower-cases the trimmed rule before comparing with \<^verbatim>\<open>strings.EqualFold\<close>. No pattern
  holds a letter whose lower case is reached from outside ASCII other than through the folding
  itself, so the lower-casing changes no answer and the fold alone is the comparison.
\<close>

definition constant_truths :: "string \<Rightarrow> string list" where
  "constant_truths prefix =
    [''true'', ''1==1'', ''1 == 1'', ''r.'' @ prefix @ '' == r.'' @ prefix]"

definition isConstantTruth :: "string \<Rightarrow> string \<Rightarrow> bool" where
  "isConstantTruth rule prefix =
    (let lower = TrimSpace rule in list_ex (\<lambda>p. EqualFold lower p) (constant_truths prefix))"

subsection \<open>Lexer\<close>

definition skipSpace :: "string \<Rightarrow> string" where
  "skipSpace s = dropWhile is_space s"

text \<open>
  \<^verbatim>\<open>match\<close> and \<^verbatim>\<open>matchWord\<close> return the input after the word, or \<open>None\<close> when they return false
  (and leave the position where it was).
\<close>

definition match_word_end :: "string \<Rightarrow> bool" where
  "match_word_end rest = (case rest of [] \<Rightarrow> True | c # _ \<Rightarrow> \<not> is_ident_char c)"

definition match_lit :: "string \<Rightarrow> string \<Rightarrow> string option" where
  "match_lit s w =
     (if HasPrefix s w \<and> (w = ''in'' \<longrightarrow> match_word_end (drop (length w) s))
      then Some (drop (length w) s) else None)"

definition matchWord :: "string \<Rightarrow> string \<Rightarrow> string option" where
  "matchWord s w = (case match_lit s w of None \<Rightarrow> None
     | Some rest \<Rightarrow> if match_word_end rest then Some rest else None)"

text \<open>
  \<open>readString quote s\<close> scans the input after the opening quote and returns the number of bytes
  the token takes there: up to and including the closing quote, or up to a newline or the end
  of the input, where the token is returned all the same.
\<close>

fun string_len :: "char \<Rightarrow> string \<Rightarrow> nat" where
  "string_len q [] = 0"
| "string_len q [c] = (if c = q then 1 else if byte c = 10 then 0 else 1)"
| "string_len q (c # d # s) =
     (if byte c = 92 then 2 + string_len q s
      else if c = q then 1
      else if byte c = 10 then 0
      else 1 + string_len q (d # s))"

definition readString :: "string \<Rightarrow> token \<times> string" where
  "readString s = (let n = Suc (string_len (hd s) (tl s)) in (mk_token TokString (take n s), drop n s))"

definition readNumber :: "string \<Rightarrow> token \<times> string" where
  "readNumber s =
     (let sign = (if hd s = CHR ''-'' then 1 else 0);
          n = sign + length (takeWhile (\<lambda>c. is_digit c \<or> c = CHR ''.'') (drop sign s))
      in (mk_token TokNumber (take n s), drop n s))"

definition readIdent :: "string \<Rightarrow> token \<times> string" where
  "readIdent s = (mk_token TokIdent (takeWhile is_ident_char s), dropWhile is_ident_char s)"

text \<open>Go's \<^verbatim>\<open>string(ch)\<close> of a byte is the UTF-8 encoding of the rune with that number.\<close>

definition string_of_byte :: "char \<Rightarrow> string" where
  "string_of_byte c = (if byte c < 128 then [c]
     else [char_of (192 + byte c div 64), char_of (128 + byte c mod 64)])"

definition lexer_next :: "string \<Rightarrow> token \<times> string" where
  "lexer_next input =
    (case skipSpace input of
       [] \<Rightarrow> (mk_token TokEOF '''', [])
     | ch # t \<Rightarrow>
       let s = ch # t in
       if ch = CHR ''('' then (mk_token TokLParen ''('', t)
       else if ch = CHR '')'' then (mk_token TokRParen '')'', t)
       else if ch = CHR ''['' then (mk_token TokLBracket ''['', t)
       else if ch = CHR '']'' then (mk_token TokRBracket '']'', t)
       else if ch = CHR '','' then (mk_token TokComma '','', t)
       else if ch = CHR ''.'' then (mk_token TokDot ''.'', t)
       else if ch = CHR ''!'' \<and> match_lit s ''!='' \<noteq> None then (mk_token TokNe ''!='', drop 2 s)
       else if ch = CHR ''='' \<and> match_lit s ''=='' \<noteq> None then (mk_token TokEq ''=='', drop 2 s)
       else if matchWord s ''in'' \<noteq> None then (mk_token TokIn ''in'', drop 2 s)
       else if matchWord s ''true'' \<noteq> None then (mk_token TokBool (take 4 s), drop 4 s)
       else if matchWord s ''false'' \<noteq> None then (mk_token TokBool (take 4 (drop 1 s)), drop 5 s)
       else if byte ch = 34 \<or> byte ch = 39 then readString s
       else if is_digit ch \<or> ch = CHR ''-'' \<and> t \<noteq> [] \<and> is_digit (hd t) then readNumber s
       else if is_letter ch \<or> ch = CHR ''_'' then readIdent s
       else (mk_token TokIdent (string_of_byte ch), t))"

subsection \<open>Parser\<close>

text \<open>
  The \<^verbatim>\<open>prefix\<close> argument ("sub" or "obj") is handed down by the source's parser functions and
  read by none of them; the model's parser functions leave it out.
\<close>

record rule_parser =
  rp_lexer :: string
  rp_cur :: token
  rp_next :: token

definition advance :: "rule_parser \<Rightarrow> rule_parser" where
  "advance p = (let (t, rest) = lexer_next (rp_lexer p)
     in \<lparr>rp_lexer = rest, rp_cur = rp_next p, rp_next = t\<rparr>)"

definition newRuleParser :: "string \<Rightarrow> rule_parser" where
  "newRuleParser input = advance (advance
     \<lparr>rp_lexer = input, rp_cur = mk_token TokEOF '''', rp_next = mk_token TokEOF ''''\<rparr>)"

definition parser_eof :: "rule_parser \<Rightarrow> bool" where
  "parser_eof p \<longleftrightarrow> tkind (rp_cur p) = TokEOF"

definition expect :: "token_kind \<Rightarrow> rule_parser \<Rightarrow> rule_error + token \<times> rule_parser" where
  "expect k p =
     (if tkind (rp_cur p) \<noteq> k then Inl (Expected k (ttext (rp_cur p)))
      else Inr (rp_cur p, advance p))"

definition allowed_fields :: "string list" where
  "allowed_fields = [''ID'', ''Owner'', ''Name'', ''Roles'', ''Attrs'']"

definition parseAttr :: "rule_parser \<Rightarrow> rule_error + rule_parser" where
  "parseAttr p =
    and_then (expect TokIdent p) (\<lambda>(_, p).
    and_then (expect TokDot p) (\<lambda>(_, p).
    and_then (expect TokIdent p) (\<lambda>(target, p).
    if ttext target \<noteq> ''sub'' \<and> ttext target \<noteq> ''obj'' then Inl (InvalidTarget (ttext target))
    else and_then (expect TokDot p) (\<lambda>(_, p).
    and_then (expect TokIdent p) (\<lambda>(field, p).
    if ttext field \<notin> set allowed_fields then Inl (InvalidAttribute (ttext field))
    else if ttext field = ''Attrs'' then
      and_then (expect TokDot p) (\<lambda>(_, p).
      and_then (expect TokIdent p) (\<lambda>(_, p). Inr p))
    else Inr p)))))"

fun parseExpr :: "nat \<Rightarrow> rule_parser \<Rightarrow> rule_error + rule_parser"
  and parsePrimary :: "nat \<Rightarrow> rule_parser \<Rightarrow> rule_error + rule_parser"
  and parseArray :: "nat \<Rightarrow> rule_parser \<Rightarrow> rule_error + rule_parser"
  and parseArrayItems :: "nat \<Rightarrow> rule_parser \<Rightarrow> rule_error + rule_parser" where
  "parseExpr 0 p = Inl OutOfFuel"
| "parseExpr (Suc n) p =
     (if tkind (rp_cur p) = TokLParen then
        and_then (parseExpr n (advance p)) (\<lambda>p.
        and_then (expect TokRParen p) (\<lambda>(_, p). Inr p))
      else
        and_then (parsePrimary n p) (\<lambda>p.
        if tkind (rp_cur p) \<in> {TokEq, TokNe, TokIn} then parsePrimary n (advance p)
        else Inl (ExpectedOperator (ttext (rp_cur p)))))"
| "parsePrimary 0 p = Inl OutOfFuel"
| "parsePrimary (Suc n) p =
     (case tkind (rp_cur p) of
        TokIdent \<Rightarrow>
          if ttext (rp_cur p) = ''r'' then parseAttr p
          else Inl (UnexpectedIdentifier (ttext (rp_cur p)))
      | TokString \<Rightarrow> Inr (advance p)
      | TokNumber \<Rightarrow> Inr (advance p)
      | TokBool \<Rightarrow> Inr (advance p)
      | TokLBracket \<Rightarrow> parseArray n p
      | TokLParen \<Rightarrow>
          and_then (parseExpr n (advance p)) (\<lambda>p.
          and_then (expect TokRParen p) (\<lambda>(_, p). Inr p))
      | _ \<Rightarrow> Inl (UnexpectedToken (ttext (rp_cur p))))"
| "parseArray 0 p = Inl OutOfFuel"
| "parseArray (Suc n) p =
     and_then (expect TokLBracket p) (\<lambda>(_, p).
     if tkind (rp_cur p) = TokRBracket then Inr (advance p) else parseArrayItems n p)"
| "parseArrayItems 0 p = Inl OutOfFuel"
| "parseArrayItems (Suc n) p =
     and_then (parsePrimary n p) (\<lambda>p.
     if tkind (rp_cur p) = TokRBracket then Inr (advance p)
     else and_then (expect TokComma p) (\<lambda>(_, p). parseArrayItems n p))"

definition parse_fuel :: "string \<Rightarrow> nat" where
  "parse_fuel s = 4 * length s + 12"

definition validateABACRule :: "string \<Rightarrow> string \<Rightarrow> rule_error option" where
  "validateABACRule rule prefix =
    (let trimmed = TrimSpace rule in
     if trimmed = '''' then None
     else if isConstantTruth trimmed prefix then Some (ConstantTruth prefix)
     else case parseExpr (parse_fuel trimmed) (newRuleParser trimmed) of
       Inl e \<Rightarrow> Some e
     | Inr p \<Rightarrow> if \<not> parser_eof p then Some (UnexpectedToken (ttext (rp_cur p))) else None)"

definition ValidateABACSubRule :: "string \<Rightarrow> rule_error option" where
  "ValidateABACSubRule rule = validateABACRule rule ''sub''"

definition ValidateABACObjRule :: "string \<Rightarrow> rule_error option" where
  "ValidateABACObjRule rule = validateABACRule rule ''obj''"

subsection \<open>The token stream\<close>

lemma skipSpace_le: "length (skipSpace s) \<le> length s"
  by (simp add: skipSpace_def length_dropWhile_le)

lemma lexer_next_Nil: "skipSpace s = [] \<Longrightarrow> lexer_next s = (mk_token TokEOF '''', [])"
  by (simp add: lexer_next_def)

lemma readNumber_progress:
  "is_digit c \<or> c = CHR ''-'' \<Longrightarrow>
    tkind (fst (readNumber (c # t))) \<noteq> TokEOF \<and> length (snd (readNumber (c # t))) \<le> length t"
  by (auto simp: readNumber_def Let_def is_digit_def)

lemma readIdent_progress:
  "is_letter c \<or> c = CHR ''_'' \<Longrightarrow>
    tkind (fst (readIdent (c # t))) \<noteq> TokEOF \<and> length (snd (readIdent (c # t))) \<le> length t"
  by (auto simp: readIdent_def is_ident_char_def length_dropWhile_le)

lemma readString_progress:
  "tkind (fst (readString (c # t))) \<noteq> TokEOF \<and> length (snd (readString (c # t))) \<le> length t"
  by (simp add: readString_def Let_def)

lemma lexer_next_Cons:
  assumes "skipSpace s = c # t"
  shows "tkind (fst (lexer_next s)) \<noteq> TokEOF \<and> length (snd (lexer_next s)) \<le> length t"
  unfolding lexer_next_def assms list.case Let_def
  by (simp add: readNumber_progress readIdent_progress readString_progress del: length_greater_0_conv)

lemma lexer_next_kind: "lexer_next s = (tok, r) \<Longrightarrow>
    (if tkind tok = TokEOF then r = [] else length r < length s)"
  using lexer_next_Nil [of s] lexer_next_Cons [of s] skipSpace_le [of s]
  by (cases "skipSpace s") auto

function lex_all :: "string \<Rightarrow> token list" where
  "lex_all s = (case lexer_next s of (t, r) \<Rightarrow> if tkind t = TokEOF then [] else t # lex_all r)"
  by pat_completeness auto
termination
  by (relation "measure length") (auto dest: lexer_next_kind [OF sym])

declare lex_all.simps [simp del]

lemma lex_all_Nil [simp]: "lex_all [] = []"
  by (simp add: lex_all.simps lexer_next_Nil skipSpace_def)

lemma lex_all_le: "length (lex_all s) \<le> length s"
proof (induction s rule: lex_all.induct)
  case (1 s)
  obtain t r where tr: "lexer_next s = (t, r)" by (cases "lexer_next s")
  with "1.IH" lexer_next_kind [OF tr] show ?case
    by (auto simp: lex_all.simps [of s] split: if_splits)
qed

text \<open>The tokens a parser state has still to consume.\<close>

definition toks :: "rule_parser \<Rightarrow> token list" where
  "toks p = (if tkind (rp_cur p) = TokEOF then []
     else rp_cur p # (if tkind (rp_next p) = TokEOF then [] else rp_next p # lex_all (rp_lexer p)))"

definition parser_wf :: "rule_parser \<Rightarrow> bool" where
  "parser_wf p \<longleftrightarrow> (tkind (rp_cur p) = TokEOF \<longrightarrow> tkind (rp_next p) = TokEOF) \<and>
     (tkind (rp_next p) = TokEOF \<longrightarrow> rp_lexer p = [])"

lemma advance_wf [simp]: "parser_wf p \<Longrightarrow> parser_wf (advance p)"
  by (cases "lexer_next (rp_lexer p)")
     (auto simp: parser_wf_def advance_def lexer_next_Nil skipSpace_def dest: lexer_next_kind split: if_splits)

lemma advance_toks: "parser_wf p \<Longrightarrow> toks (advance p) = tl (toks p)"
  by (cases "lexer_next (rp_lexer p)")
     (auto simp: parser_wf_def advance_def toks_def lexer_next_Nil skipSpace_def
        lex_all.simps [of "rp_lexer p"])

lemma toks_kind:
  "toks p = t # ts \<Longrightarrow> rp_cur p = t \<and> tkind t \<noteq> TokEOF"
  "toks p = [] \<longleftrightarrow> tkind (rp_cur p) = TokEOF"
  by (auto simp: toks_def split: if_splits)

lemma newRuleParser_state:
  "parser_wf (newRuleParser s) \<and> toks (newRuleParser s) = lex_all s"
proof -
  obtain t r where tr: "lexer_next s = (t, r)" by (cases "lexer_next s")
  obtain t' r' where tr': "lexer_next r = (t', r')" by (cases "lexer_next r")
  show ?thesis
    using lexer_next_kind [OF tr] lexer_next_kind [OF tr'] tr tr'
    by (auto simp: newRuleParser_def advance_def parser_wf_def toks_def lex_all.simps [of s]
        lex_all.simps [of r] lexer_next_Nil skipSpace_def split: if_splits)
qed

lemma expect_Inr:
  assumes "parser_wf p" "expect k p = Inr (t, p')" "k \<noteq> TokEOF"
  shows "parser_wf p' \<and> toks p = t # toks p' \<and> tkind t = k"
proof (cases "toks p")
  case Nil
  with assms show ?thesis by (auto simp: expect_def toks_kind split: if_splits)
next
  case (Cons a ts)
  with assms toks_kind(1) [OF Cons] show ?thesis by (auto simp: expect_def advance_toks split: if_splits)
qed

lemma expect_Cons:
  assumes "parser_wf p" "toks p = t # ts" "tkind t = k"
  shows "\<exists>p'. expect k p = Inr (t, p') \<and> parser_wf p' \<and> toks p' = ts"
  using assms toks_kind(1) [OF assms(2)] by (auto simp: expect_def advance_toks)

lemma advance_Cons:
  assumes "parser_wf p" "tkind (rp_cur p) = k" "k \<noteq> TokEOF"
  shows "toks p = rp_cur p # toks (advance p) \<and> parser_wf (advance p)"
  using assms by (cases "toks p") (auto dest: toks_kind(1) simp: toks_kind(2) advance_toks)

subsection \<open>The accepted grammar\<close>

definition is_op :: "token \<Rightarrow> bool" where
  "is_op t \<longleftrightarrow> tkind t \<in> {TokEq, TokNe, TokIn}"

fun g_attr :: "token list \<Rightarrow> bool" where
  "g_attr [r, d1, target, d2, field] \<longleftrightarrow>
     tkind r = TokIdent \<and> ttext r = ''r'' \<and> tkind d1 = TokDot \<and>
     tkind target = TokIdent \<and> ttext target \<in> {''sub'', ''obj''} \<and> tkind d2 = TokDot \<and>
     tkind field = TokIdent \<and> ttext field \<in> {''ID'', ''Owner'', ''Name'', ''Roles''}"
| "g_attr [r, d1, target, d2, field, d3, attr] \<longleftrightarrow>
     tkind r = TokIdent \<and> ttext r = ''r'' \<and> tkind d1 = TokDot \<and>
     tkind target = TokIdent \<and> ttext target \<in> {''sub'', ''obj''} \<and> tkind d2 = TokDot \<and>
     tkind field = TokIdent \<and> ttext field = ''Attrs'' \<and> tkind d3 = TokDot \<and> tkind attr = TokIdent"
| "g_attr _ \<longleftrightarrow> False"

text \<open>
  An expression is a parenthesised expression or two operands joined by one operator, the first
  of which does not start with a parenthesis; arrays may nest and may hold attributes.
\<close>

inductive g_expr :: "token list \<Rightarrow> bool" and g_primary :: "token list \<Rightarrow> bool"
  and g_items :: "token list \<Rightarrow> bool" where
  expr_paren: "tkind l = TokLParen \<Longrightarrow> g_expr u \<Longrightarrow> tkind r = TokRParen \<Longrightarrow> g_expr (l # u @ [r])"
| expr_op: "g_primary u \<Longrightarrow> tkind (hd u) \<noteq> TokLParen \<Longrightarrow> is_op t \<Longrightarrow> g_primary v \<Longrightarrow>
    g_expr (u @ t # v)"
| primary_attr: "g_attr u \<Longrightarrow> g_primary u"
| primary_lit: "tkind t \<in> {TokString, TokNumber, TokBool} \<Longrightarrow> g_primary [t]"
| primary_empty: "tkind l = TokLBracket \<Longrightarrow> tkind r = TokRBracket \<Longrightarrow> g_primary [l, r]"
| primary_array: "tkind l = TokLBracket \<Longrightarrow> g_items u \<Longrightarrow> g_primary (l # u)"
| primary_paren: "tkind l = TokLParen \<Longrightarrow> g_expr u \<Longrightarrow> tkind r = TokRParen \<Longrightarrow>
    g_primary (l # u @ [r])"
| items_last: "g_primary u \<Longrightarrow> tkind r = TokRBracket \<Longrightarrow> g_items (u @ [r])"
| items_more: "g_primary u \<Longrightarrow> tkind c = TokComma \<Longrightarrow> g_items v \<Longrightarrow> g_items (u @ c # v)"

text \<open>The effect of a successful parse: the consumed tokens form a word of the class.\<close>

definition consumed :: "(token list \<Rightarrow> bool) \<Rightarrow> rule_parser \<Rightarrow> rule_parser \<Rightarrow> bool" where
  "consumed G p p' \<longleftrightarrow> parser_wf p' \<and> (\<exists>u. toks p = u @ toks p' \<and> G u)"

lemma consumedI: "parser_wf p' \<Longrightarrow> toks p = u @ toks p' \<Longrightarrow> G u \<Longrightarrow> consumed G p p'"
  by (auto simp: consumed_def)

lemma parseAttr_sound:
  assumes "parser_wf p" "parseAttr p = Inr p'" "ttext (rp_cur p) = ''r''"
  shows "consumed g_primary p p'"
proof -
  from assms(2) obtain t1 p1 t2 p2 t3 p3 t4 p4 t5 p5 where e:
    "expect TokIdent p = Inr (t1, p1)" "expect TokDot p1 = Inr (t2, p2)"
    "expect TokIdent p2 = Inr (t3, p3)" "ttext t3 = ''sub'' \<or> ttext t3 = ''obj''"
    "expect TokDot p3 = Inr (t4, p4)" "expect TokIdent p4 = Inr (t5, p5)"
    "ttext t5 \<in> set allowed_fields"
    and rest: "(if ttext t5 = ''Attrs'' then
      and_then (expect TokDot p5) (\<lambda>(_, p). and_then (expect TokIdent p) (\<lambda>(_, p). Inr p))
      else Inr p5) = Inr p'"
    by (auto simp: parseAttr_def split: if_splits prod.splits)
  note s1 = expect_Inr [OF assms(1) e(1)]
  note s2 = expect_Inr [OF conjunct1 [OF s1] e(2)]
  note s3 = expect_Inr [OF conjunct1 [OF s2] e(3)]
  note s4 = expect_Inr [OF conjunct1 [OF s3] e(5)]
  note s5 = expect_Inr [OF conjunct1 [OF s4] e(6)]
  have t1: "ttext t1 = ''r''"
    using e(1) assms(3) by (auto simp: expect_def split: if_splits)
  show ?thesis
  proof (cases "ttext t5 = ''Attrs''")
    case True
    with rest obtain t6 p6 t7 where e6: "expect TokDot p5 = Inr (t6, p6)" "expect TokIdent p6 = Inr (t7, p')"
      by (auto split: prod.splits)
    note s6 = expect_Inr [OF conjunct1 [OF s5] e6(1)]
    note s7 = expect_Inr [OF conjunct1 [OF s6] e6(2)]
    have "g_attr [t1, t2, t3, t4, t5, t6, t7]"
      using s1 s2 s3 s4 s5 s6 s7 e t1 True by auto
    then show ?thesis
      using s1 s2 s3 s4 s5 s6 s7
      by (intro consumedI [of _ _ "[t1, t2, t3, t4, t5, t6, t7]"]) (auto intro: primary_attr)
  next
    case False
    with rest have "p' = p5" by simp
    moreover have "g_attr [t1, t2, t3, t4, t5]"
      using s1 s2 s3 s4 s5 e t1 False by (auto simp: allowed_fields_def)
    ultimately show ?thesis
      using s1 s2 s3 s4 s5
      by (intro consumedI [of _ _ "[t1, t2, t3, t4, t5]"]) (auto intro: primary_attr)
  qed
qed

lemma paren_sound:
  assumes "parser_wf p" "tkind (rp_cur p) = TokLParen"
    and "consumed g_expr (advance p) p1" "expect TokRParen p1 = Inr (t, p')"
  shows "consumed g_expr p p'" "consumed g_primary p p'"
proof -
  from advance_Cons [OF assms(1,2)] have a: "toks p = rp_cur p # toks (advance p)" by simp
  from assms(3) obtain u where u: "parser_wf p1" "toks (advance p) = u @ toks p1" "g_expr u"
    by (auto simp: consumed_def)
  from expect_Inr [OF u(1) assms(4)] a u assms(2)
  have w: "parser_wf p'" "toks p = (rp_cur p # u @ [t]) @ toks p'" "tkind t = TokRParen" by auto
  show "consumed g_expr p p'" "consumed g_primary p p'"
    using w u(3) assms(2) by (auto intro!: consumedI [OF w(1,2)] intro: expr_paren primary_paren)
qed

lemma parse_sound:
  "parser_wf p \<Longrightarrow> parseExpr n p = Inr p' \<Longrightarrow> consumed g_expr p p'"
  "parser_wf p \<Longrightarrow> parsePrimary n p = Inr p' \<Longrightarrow> consumed g_primary p p'"
  "parser_wf p \<Longrightarrow> parseArray n p = Inr p' \<Longrightarrow> consumed g_primary p p'"
  "parser_wf p \<Longrightarrow> parseArrayItems n p = Inr p' \<Longrightarrow> consumed g_items p p'"
proof (induction n arbitrary: p p')
  case (Suc n)
  {
    case 1
    show ?case
    proof (cases "tkind (rp_cur p) = TokLParen")
      case True
      with 1 obtain p1 t where "parseExpr n (advance p) = Inr p1" "expect TokRParen p1 = Inr (t, p')"
        by (auto split: prod.splits)
      with Suc.IH(1) True 1(1) show ?thesis by (meson advance_wf paren_sound(1))
    next
      case False
      with 1 obtain p1 where p1: "parsePrimary n p = Inr p1" "tkind (rp_cur p1) \<in> {TokEq, TokNe, TokIn}"
        "parsePrimary n (advance p1) = Inr p'" by (auto split: if_splits)
      from Suc.IH(2) [OF 1(1) p1(1)] obtain u where u: "parser_wf p1" "toks p = u @ toks p1" "g_primary u"
        by (auto simp: consumed_def)
      from advance_Cons [OF u(1) refl] p1(2)
      have a: "toks p1 = rp_cur p1 # toks (advance p1)" "parser_wf (advance p1)" by auto
      from Suc.IH(2) [OF a(2) p1(3)] obtain v where v: "parser_wf p'" "toks (advance p1) = v @ toks p'" "g_primary v"
        by (auto simp: consumed_def)
      have "u \<noteq> []" using u(3) by (cases rule: g_primary.cases) auto
      then have "hd u = rp_cur p" using u(2) toks_kind(1) [of p "hd u"] by (cases u) auto
      then have "g_expr (u @ rp_cur p1 # v)"
        using u(3) v(3) p1(2) False by (intro expr_op) (simp_all add: is_op_def)
      then show ?thesis
        using u v a by (intro consumedI [of _ _ "u @ rp_cur p1 # v"]) simp_all
    qed
  next
    case 2
    show ?case
    proof (cases "tkind (rp_cur p)")
      case TokIdent
      with 2 show ?thesis by (auto intro: parseAttr_sound split: if_splits)
    next
      case TokLBracket
      with 2 Suc.IH(3) show ?thesis by auto
    next
      case TokLParen
      with 2 obtain p1 t where "parseExpr n (advance p) = Inr p1" "expect TokRParen p1 = Inr (t, p')"
        by (auto split: prod.splits)
      with Suc.IH(1) TokLParen 2(1) show ?thesis by (meson advance_wf paren_sound(2))
    qed (use 2 advance_Cons [OF 2(1) refl] in
        \<open>auto intro!: consumedI [of _ _ "[rp_cur p]"] intro: primary_lit\<close>)
  next
    case 3
    from 3(2) obtain l p1 where l: "expect TokLBracket p = Inr (l, p1)"
      and rest: "(if tkind (rp_cur p1) = TokRBracket then Inr (advance p1) else parseArrayItems n p1) = Inr p'"
      by (auto split: prod.splits)
    note s = expect_Inr [OF 3(1) l]
    show ?case
    proof (cases "tkind (rp_cur p1) = TokRBracket")
      case True
      with rest s advance_Cons [of p1, OF _ True] show ?thesis
        by (intro consumedI [of _ _ "[l, rp_cur p1]"] primary_empty) simp_all
    next
      case False
      with rest Suc.IH(4) [of p1 p'] s show ?thesis
        by (auto simp: consumed_def intro: primary_array)
    qed
  next
    case 4
    from 4(2) obtain p1 where p1: "parsePrimary n p = Inr p1"
      and rest: "(if tkind (rp_cur p1) = TokRBracket then Inr (advance p1)
        else and_then (expect TokComma p1) (\<lambda>(_, p). parseArrayItems n p)) = Inr p'" by auto
    from Suc.IH(2) [OF 4(1) p1] obtain u where u: "parser_wf p1" "toks p = u @ toks p1" "g_primary u"
      by (auto simp: consumed_def)
    show ?case
    proof (cases "tkind (rp_cur p1) = TokRBracket")
      case True
      with rest u advance_Cons [OF u(1) True] show ?thesis
        by (intro consumedI [of _ _ "u @ [rp_cur p1]"] items_last) simp_all
    next
      case False
      with rest obtain c p2 where c: "expect TokComma p1 = Inr (c, p2)" "parseArrayItems n p2 = Inr p'"
        by (auto split: prod.splits)
      note s = expect_Inr [OF u(1) c(1)]
      from Suc.IH(4) [of p2 p'] s c(2) obtain v where "parser_wf p'" "toks p2 = v @ toks p'" "g_items v"
        by (auto simp: consumed_def)
      with s u show ?thesis
        by (intro consumedI [of _ _ "u @ c # v"] items_more) simp_all
    qed
  }
qed simp_all

subsection \<open>Every word of the grammar is accepted\<close>

definition completes :: "(nat \<Rightarrow> rule_parser \<Rightarrow> rule_error + rule_parser) \<Rightarrow> token list \<Rightarrow> bool" where
  "completes f u \<longleftrightarrow> (\<forall>p ts n. parser_wf p \<longrightarrow> toks p = u @ ts \<longrightarrow> 4 * length u \<le> n \<longrightarrow>
     (\<exists>p'. f n p = Inr p' \<and> parser_wf p' \<and> toks p' = ts))"

lemma completesI:
  assumes "\<And>p ts n. parser_wf p \<Longrightarrow> toks p = u @ ts \<Longrightarrow> 4 * length u \<le> n \<Longrightarrow>
     \<exists>p'. f n p = Inr p' \<and> parser_wf p' \<and> toks p' = ts"
  shows "completes f u"
  using assms unfolding completes_def by blast

lemma completesD:
  assumes "completes f u" "parser_wf p" "toks p = u @ ts" "4 * length u \<le> n"
  obtains p' where "f n p = Inr p'" "parser_wf p'" "toks p' = ts"
  using assms unfolding completes_def by blast

lemma tkind_cur: "toks p = t # ts \<Longrightarrow> rp_cur p = t"
  by (auto dest: toks_kind(1))

lemma toks_advance: "parser_wf p \<Longrightarrow> toks p = t # ts \<Longrightarrow> toks (advance p) = ts"
  by (simp add: advance_toks)

lemma g_primary_hd:
  "g_expr u \<Longrightarrow> u \<noteq> []"
  "g_primary u \<Longrightarrow> u \<noteq> [] \<and> tkind (hd u) \<in> {TokIdent, TokString, TokNumber, TokBool, TokLBracket, TokLParen}"
  "g_items u \<Longrightarrow> u \<noteq> [] \<and> tkind (hd u) \<noteq> TokRBracket"
proof (induction rule: g_expr_g_primary_g_items.inducts)
  case (primary_attr u)
  then show ?case by (cases u rule: g_attr.cases) auto
qed (auto simp: hd_append)

lemma expect_step:
  assumes "parser_wf p" "toks p = t # ts" "tkind t = k"
  shows "expect k p = Inr (t, advance p)"
  using assms by (simp add: expect_def tkind_cur)

lemma parseAttr_complete:
  assumes "g_attr u" "parser_wf p" "toks p = u @ ts"
  shows "\<exists>p'. parseAttr p = Inr p' \<and> parser_wf p' \<and> toks p' = ts"
  using assms
proof (induction u rule: g_attr.induct)
  case (1 r d1 target d2 field)
  let ?p1 = "advance p" let ?p2 = "advance ?p1" let ?p3 = "advance ?p2"
  let ?p4 = "advance ?p3" let ?p5 = "advance ?p4"
  have w: "parser_wf ?p1" "parser_wf ?p2" "parser_wf ?p3" "parser_wf ?p4" "parser_wf ?p5"
    using 1(2) by simp_all
  have t: "toks ?p1 = [d1, target, d2, field] @ ts" "toks ?p2 = [target, d2, field] @ ts"
    "toks ?p3 = [d2, field] @ ts" "toks ?p4 = field # ts" "toks ?p5 = ts"
    using 1 w by (simp_all add: advance_toks)
  have c: "rp_cur p = r" "rp_cur ?p1 = d1" "rp_cur ?p2 = target" "rp_cur ?p3 = d2" "rp_cur ?p4 = field"
    using t 1(3) by (auto intro: tkind_cur)
  have "ttext field \<noteq> ''Attrs''" using 1(1) by auto
  then show ?case using 1(1) c w t
    by (auto simp: parseAttr_def expect_def allowed_fields_def)
next
  case (2 r d1 target d2 field d3 attr)
  let ?p1 = "advance p" let ?p2 = "advance ?p1" let ?p3 = "advance ?p2"
  let ?p4 = "advance ?p3" let ?p5 = "advance ?p4" let ?p6 = "advance ?p5" let ?p7 = "advance ?p6"
  have w: "parser_wf ?p1" "parser_wf ?p2" "parser_wf ?p3" "parser_wf ?p4" "parser_wf ?p5"
    "parser_wf ?p6" "parser_wf ?p7"
    using 2(2) by simp_all
  have t: "toks ?p1 = [d1, target, d2, field, d3, attr] @ ts" "toks ?p2 = [target, d2, field, d3, attr] @ ts"
    "toks ?p3 = [d2, field, d3, attr] @ ts" "toks ?p4 = [field, d3, attr] @ ts"
    "toks ?p5 = [d3, attr] @ ts" "toks ?p6 = attr # ts" "toks ?p7 = ts"
    using 2 w by (simp_all add: advance_toks)
  have c: "rp_cur p = r" "rp_cur ?p1 = d1" "rp_cur ?p2 = target" "rp_cur ?p3 = d2"
    "rp_cur ?p4 = field" "rp_cur ?p5 = d3" "rp_cur ?p6 = attr"
    using t 2(3) by (auto intro: tkind_cur)
  show ?case using 2(1) c w t
    by (auto simp: parseAttr_def expect_def allowed_fields_def)
qed auto

lemma paren_complete:
  assumes "completes parseExpr u" "tkind l = TokLParen" "tkind r = TokRParen"
    and "parser_wf p" "toks p = (l # u @ [r]) @ ts" "4 * length u \<le> n"
  shows "\<exists>p'. and_then (parseExpr n (advance p)) (\<lambda>p. and_then (expect TokRParen p) (\<lambda>(_, p). Inr p)) = Inr p'
    \<and> parser_wf p' \<and> toks p' = ts"
proof -
  have "toks (advance p) = u @ r # ts" using assms(4,5) by (simp add: advance_toks)
  with assms obtain p1 where p1: "parseExpr n (advance p) = Inr p1" "parser_wf p1" "toks p1 = r # ts"
    by (meson advance_wf completesD)
  then show ?thesis
    using assms(3) expect_step [of p1 r ts TokRParen] by (simp add: advance_toks)
qed

lemma expr_op_complete:
  assumes "completes parsePrimary u" "g_primary u" "tkind (hd u) \<noteq> TokLParen" "is_op t"
    "completes parsePrimary v"
  shows "completes parseExpr (u @ t # v)"
proof (rule completesI)
  fix p ts n assume p: "parser_wf p" "toks p = (u @ t # v) @ ts" "4 * length (u @ t # v) \<le> n"
  then obtain m where n: "n = Suc m" "4 * length u \<le> m" "4 * length v \<le> m" by (cases n) auto
  have "tkind (rp_cur p) \<noteq> TokLParen"
    using p(2) assms(2,3) g_primary_hd(2) [OF assms(2)] toks_kind(1) [of p "hd u"] by (cases u) auto
  moreover from completesD [OF assms(1) p(1) _ n(2)] p(2)
  obtain p1 where p1: "parsePrimary m p = Inr p1" "parser_wf p1" "toks p1 = t # v @ ts"
    by auto
  moreover from p1 completesD [OF assms(5) _ _ n(3), of "advance p1" ts]
  obtain p2 where "parsePrimary m (advance p1) = Inr p2" "parser_wf p2" "toks p2 = ts"
    by (auto simp: advance_toks)
  ultimately show "\<exists>p'. parseExpr n p = Inr p' \<and> parser_wf p' \<and> toks p' = ts"
    using assms(4) tkind_cur [OF p1(3)] n(1) by (auto simp: is_op_def)
qed

lemma items_complete:
  assumes "completes parsePrimary u"
  shows "tkind r = TokRBracket \<Longrightarrow> completes parseArrayItems (u @ [r])"
    and "tkind c = TokComma \<Longrightarrow> completes parseArrayItems v \<Longrightarrow> completes parseArrayItems (u @ c # v)"
proof -
  assume r: "tkind r = TokRBracket"
  show "completes parseArrayItems (u @ [r])"
  proof (rule completesI)
    fix p ts n assume p: "parser_wf p" "toks p = (u @ [r]) @ ts" "4 * length (u @ [r]) \<le> n"
    then obtain m where n: "n = Suc m" "4 * length u \<le> m" by (cases n) auto
    from completesD [OF assms p(1) _ n(2)] p(2)
    obtain p1 where "parsePrimary m p = Inr p1" "parser_wf p1" "toks p1 = r # ts" by auto
    then show "\<exists>p'. parseArrayItems n p = Inr p' \<and> parser_wf p' \<and> toks p' = ts"
      using n r by (simp add: tkind_cur advance_toks)
  qed
next
  assume c: "tkind c = TokComma" and v: "completes parseArrayItems v"
  show "completes parseArrayItems (u @ c # v)"
  proof (rule completesI)
    fix p ts n assume p: "parser_wf p" "toks p = (u @ c # v) @ ts" "4 * length (u @ c # v) \<le> n"
    then obtain m where n: "n = Suc m" "4 * length u \<le> m" "4 * length v \<le> m" by (cases n) auto
    from completesD [OF assms p(1) _ n(2)] p(2)
    obtain p1 where p1: "parsePrimary m p = Inr p1" "parser_wf p1" "toks p1 = c # v @ ts" by auto
    from p1 completesD [OF v _ _ n(3), of "advance p1" ts]
    obtain p2 where "parseArrayItems m (advance p1) = Inr p2" "parser_wf p2" "toks p2 = ts"
      by (auto simp: advance_toks)
    then show "\<exists>p'. parseArrayItems n p = Inr p' \<and> parser_wf p' \<and> toks p' = ts"
      using n p1 c by (simp add: tkind_cur expect_step)
  qed
qed

lemma primary_complete:
  shows "g_attr u \<Longrightarrow> completes parsePrimary u"
    and "tkind t \<in> {TokString, TokNumber, TokBool} \<Longrightarrow> completes parsePrimary [t]"
    and "tkind l = TokLBracket \<Longrightarrow> tkind r = TokRBracket \<Longrightarrow> completes parsePrimary [l, r]"
    and "tkind l = TokLBracket \<Longrightarrow> g_items u \<Longrightarrow> completes parseArrayItems u \<Longrightarrow>
      completes parsePrimary (l # u)"
proof -
  show "g_attr u \<Longrightarrow> completes parsePrimary u"
  proof (rule completesI)
    fix p ts n assume u: "g_attr u" and p: "parser_wf p" "toks p = u @ ts" "4 * length u \<le> n"
    obtain t us where t: "u = t # us" "tkind t = TokIdent" "ttext t = ''r''"
      using u by (cases u rule: g_attr.cases) auto
    then have "rp_cur p = t" using p(2) by (simp add: tkind_cur)
    with t p(3) obtain m where "n = Suc m" "parsePrimary n p = parseAttr p" by (cases n) auto
    with parseAttr_complete [OF u p(1,2)] show "\<exists>p'. parsePrimary n p = Inr p' \<and> parser_wf p' \<and> toks p' = ts"
      by simp
  qed
  show "tkind t \<in> {TokString, TokNumber, TokBool} \<Longrightarrow> completes parsePrimary [t]"
  proof (rule completesI)
    fix p ts n assume "tkind t \<in> {TokString, TokNumber, TokBool}"
      and "parser_wf p" "toks p = [t] @ ts" "4 * length [t] \<le> n"
    then show "\<exists>p'. parsePrimary n p = Inr p' \<and> parser_wf p' \<and> toks p' = ts"
      using tkind_cur [of p t ts] by (cases n) (auto simp: advance_toks)
  qed
  show "tkind l = TokLBracket \<Longrightarrow> tkind r = TokRBracket \<Longrightarrow> completes parsePrimary [l, r]"
  proof (rule completesI)
    fix p ts n assume k: "tkind l = TokLBracket" "tkind r = TokRBracket"
      and p: "parser_wf p" "toks p = [l, r] @ ts" "4 * length [l, r] \<le> n"
    from p(3) obtain m where n: "n = Suc (Suc m)" by (cases n; cases "n - 1") auto
    have "toks (advance p) = r # ts" using p by (simp add: advance_toks)
    then show "\<exists>p'. parsePrimary n p = Inr p' \<and> parser_wf p' \<and> toks p' = ts"
      using n k p tkind_cur [of p l "r # ts"] tkind_cur [of "advance p" r ts]
      by (simp add: expect_def advance_toks)
  qed
  assume k: "tkind l = TokLBracket" "g_items u" and c: "completes parseArrayItems u"
  show "completes parsePrimary (l # u)"
  proof (rule completesI)
    fix p ts n assume p: "parser_wf p" "toks p = (l # u) @ ts" "4 * length (l # u) \<le> n"
    from p(3) obtain m where n: "n = Suc (Suc m)" "4 * length u \<le> m" by (cases n; cases "n - 1") auto
    have t: "toks (advance p) = u @ ts" using p by (simp add: advance_toks)
    then have "tkind (rp_cur (advance p)) \<noteq> TokRBracket"
      using g_primary_hd(3) [OF k(2)] tkind_cur [of "advance p" "hd u"] by (cases u) auto
    moreover from completesD [OF c _ t n(2)] p(1)
    obtain p' where "parseArrayItems m (advance p) = Inr p'" "parser_wf p'" "toks p' = ts" by auto
    ultimately show "\<exists>p'. parsePrimary n p = Inr p' \<and> parser_wf p' \<and> toks p' = ts"
      using n k p tkind_cur [of p l "u @ ts"] by (simp add: expect_def)
  qed
qed

lemma parse_complete:
  "g_expr u \<Longrightarrow> completes parseExpr u"
  "g_primary u \<Longrightarrow> completes parsePrimary u"
  "g_items u \<Longrightarrow> completes parseArrayItems u"
proof (induction rule: g_expr_g_primary_g_items.inducts)
  case (expr_paren l u r)
  show ?case
  proof (rule completesI)
    fix p ts n assume p: "parser_wf p" "toks p = (l # u @ [r]) @ ts" "4 * length (l # u @ [r]) \<le> n"
    then obtain m where n: "n = Suc m" "4 * length u \<le> m" by (cases n) auto
    then show "\<exists>p'. parseExpr n p = Inr p' \<and> parser_wf p' \<and> toks p' = ts"
      using paren_complete [OF expr_paren.IH expr_paren.hyps(1,3) p(1,2) n(2)] expr_paren.hyps(1) p(2)
      by (simp add: tkind_cur)
  qed
next
  case (primary_paren l u r)
  show ?case
  proof (rule completesI)
    fix p ts n assume p: "parser_wf p" "toks p = (l # u @ [r]) @ ts" "4 * length (l # u @ [r]) \<le> n"
    then obtain m where n: "n = Suc m" "4 * length u \<le> m" by (cases n) auto
    then show "\<exists>p'. parsePrimary n p = Inr p' \<and> parser_wf p' \<and> toks p' = ts"
      using paren_complete [OF primary_paren.IH primary_paren.hyps(1,3) p(1,2) n(2)] primary_paren.hyps(1) p(2)
      by (simp add: tkind_cur)
  qed
qed (auto intro: expr_op_complete primary_complete items_complete)

subsection \<open>The fuel suffices\<close>

lemma expect_fuel [simp]: "expect k p \<noteq> Inl OutOfFuel"
  by (simp add: expect_def)

lemma parseAttr_fuel [simp]: "parseAttr p \<noteq> Inl OutOfFuel"
  by (auto simp: parseAttr_def and_then_Inl_iff split: prod.splits if_splits)

lemma consumed_shorter:
  assumes "consumed g_primary p p'" shows "length (toks p') < length (toks p)"
  using assms g_primary_hd(2) by (auto simp: consumed_def)

lemma toks_advance_le: "parser_wf p \<Longrightarrow> length (toks (advance p)) \<le> length (toks p) - 1"
  by (simp add: advance_toks)

lemma toks_pos: "tkind (rp_cur p) \<noteq> TokEOF \<Longrightarrow> 0 < length (toks p)"
  by (simp add: toks_def)

lemma paren_fuel:
  "parseExpr n (advance p) \<noteq> Inl OutOfFuel \<Longrightarrow>
   and_then (parseExpr n (advance p)) (\<lambda>p. and_then (expect TokRParen p) (\<lambda>(_, p). Inr p)) \<noteq> Inl OutOfFuel"
  by (auto simp: and_then_Inl_iff split: prod.splits)

lemma parse_fuel_suffices:
  "parser_wf p \<Longrightarrow> 4 * length (toks p) + 3 \<le> n \<Longrightarrow> parseExpr n p \<noteq> Inl OutOfFuel"
  "parser_wf p \<Longrightarrow> 4 * length (toks p) + 2 \<le> n \<Longrightarrow> parsePrimary n p \<noteq> Inl OutOfFuel"
  "parser_wf p \<Longrightarrow> 4 * length (toks p) + 1 \<le> n \<Longrightarrow> parseArray n p \<noteq> Inl OutOfFuel"
  "parser_wf p \<Longrightarrow> 4 * length (toks p) + 3 \<le> n \<Longrightarrow> parseArrayItems n p \<noteq> Inl OutOfFuel"
proof (induction n arbitrary: p)
  case (Suc n)
  have paren: "parseExpr n (advance p) \<noteq> Inl OutOfFuel"
    if "parser_wf p" "4 * length (toks p) + 2 \<le> Suc n" "tkind (rp_cur p) = TokLParen" for p
  proof (rule Suc.IH(1))
    show "4 * length (toks (advance p)) + 3 \<le> n"
    proof -
      have "0 < length (toks p)" using that(3) by (intro toks_pos) simp
      with that(2) toks_advance_le [OF that(1)] show ?thesis by linarith
    qed
  qed (use that in simp)
  {
    case 1
    have "parsePrimary n (advance p1) \<noteq> Inl OutOfFuel"
      if "parsePrimary n p = Inr p1" for p1
      using parse_sound(2) [OF 1(1) that] consumed_shorter [of p p1] toks_advance_le [of p1] 1
      by (intro Suc.IH(2)) (auto simp: consumed_def)
    moreover have "tkind (rp_cur p) = TokLParen \<Longrightarrow> parseExpr n (advance p) \<noteq> Inl OutOfFuel"
      by (rule paren) (use 1 in simp_all)
    moreover have "parsePrimary n p \<noteq> Inl OutOfFuel"
      by (rule Suc.IH(2)) (use 1 in simp_all)
    ultimately show ?case
      using paren_fuel by (auto simp: and_then_Inl_iff split: if_splits)
  next
    case 2
    have "tkind (rp_cur p) = TokLParen \<Longrightarrow> parseExpr n (advance p) \<noteq> Inl OutOfFuel"
      by (rule paren) (use 2 in simp_all)
    moreover have "parseArray n p \<noteq> Inl OutOfFuel"
      by (rule Suc.IH(3)) (use 2 in simp_all)
    ultimately show ?case
      using paren_fuel [of n p] by (cases "tkind (rp_cur p)") auto
  next
    case 3
    have "parseArrayItems n p1 \<noteq> Inl OutOfFuel" if "expect TokLBracket p = Inr (t, p1)" for t p1
      using expect_Inr [OF 3(1) that] 3 by (intro Suc.IH(4)) auto
    then show ?case by (auto simp: and_then_Inl_iff split: prod.splits if_splits)
  next
    case 4
    have "parseArrayItems n p2 \<noteq> Inl OutOfFuel"
      if "parsePrimary n p = Inr p1" "expect TokComma p1 = Inr (t, p2)" for t p1 p2
      using parse_sound(2) [OF 4(1) that(1)] consumed_shorter [of p p1] expect_Inr [OF _ that(2)] 4
      by (intro Suc.IH(4)) (auto simp: consumed_def)
    moreover have "parsePrimary n p \<noteq> Inl OutOfFuel"
      by (rule Suc.IH(2)) (use 4 in simp_all)
    ultimately show ?case
      by (auto simp: and_then_Inl_iff split: prod.splits if_splits)
  }
qed simp_all

lemma length_toks_new: "length (toks (newRuleParser s)) \<le> length s"
  using newRuleParser_state [of s] lex_all_le [of s] by simp

subsection \<open>Properties\<close>

text \<open>
  C3. The validator admits exactly the empty rule and the rules that are not a blacklisted
  constant truth and whose token stream is a word of the grammar; it always answers, with an
  error value otherwise, the model's fuel never being the reason.
\<close>

theorem abac_rule_accepted_iff:
  "(validateABACRule rule prefix = None \<longleftrightarrow>
      TrimSpace rule = [] \<or>
      (\<not> isConstantTruth (TrimSpace rule) prefix \<and> g_expr (lex_all (TrimSpace rule))))
   \<and> validateABACRule rule prefix \<noteq> Some OutOfFuel"
proof -
  let ?s = "TrimSpace rule" let ?p = "newRuleParser ?s"
  have wf: "parser_wf ?p" "toks ?p = lex_all ?s" using newRuleParser_state by auto
  have nofuel: "parseExpr (parse_fuel ?s) ?p \<noteq> Inl OutOfFuel"
    using length_toks_new [of ?s] by (intro parse_fuel_suffices(1) [OF wf(1)]) (simp add: parse_fuel_def)
  have acc: "(\<exists>p'. parseExpr (parse_fuel ?s) ?p = Inr p' \<and> parser_eof p') \<longleftrightarrow> g_expr (lex_all ?s)"
  proof
    assume "\<exists>p'. parseExpr (parse_fuel ?s) ?p = Inr p' \<and> parser_eof p'"
    then obtain p' where p': "parseExpr (parse_fuel ?s) ?p = Inr p'" "toks p' = []"
      by (auto simp: parser_eof_def toks_kind(2))
    from parse_sound(1) [OF wf(1) p'(1)] p'(2) wf(2) show "g_expr (lex_all ?s)"
      by (auto simp: consumed_def)
  next
    assume g: "g_expr (lex_all ?s)"
    have "4 * length (lex_all ?s) \<le> parse_fuel ?s"
      using lex_all_le [of ?s] by (simp add: parse_fuel_def)
    then obtain p' where "parseExpr (parse_fuel ?s) ?p = Inr p'" "toks p' = []"
      using completesD [OF parse_complete(1) [OF g] wf(1), of "[]"] wf(2) by auto
    then show "\<exists>p'. parseExpr (parse_fuel ?s) ?p = Inr p' \<and> parser_eof p'"
      by (auto simp: parser_eof_def toks_kind(2))
  qed
  show ?thesis
    using acc nofuel by (auto simp: validateABACRule_def Let_def split: sum.splits)
qed

text \<open>
  What the grammar really admits, on concrete rules: a string literal without its closing
  quote is one token and the rule is accepted; a comparison of literals other than the
  blacklisted spellings is accepted although it is always true; a parenthesised comparison
  cannot be the left operand of another one, and a rule's trailing \<^verbatim>\<open>false\<close> is reported with its
  first letter missing.
\<close>

theorem abac_validator_edge_cases:
  "ValidateABACSubRule (''r.sub.Owner == '' @ [CHR 0x22] @ ''abc'') = None \<and>
   ValidateABACSubRule ''2 == 2'' = None \<and>
   ValidateABACSubRule ''1 == 1'' = Some (ConstantTruth ''sub'') \<and>
   ValidateABACSubRule ''(r.sub.ID == 1) == true'' = Some (UnexpectedToken ''=='') \<and>
   ValidateABACSubRule ''r.sub.ID == 1 false'' = Some (UnexpectedToken ''alse'')"
proof (intro conjI)
  show "ValidateABACSubRule (''r.sub.Owner == '' @ [CHR 0x22] @ ''abc'') = None" by code_simp
  show "ValidateABACSubRule ''2 == 2'' = None" by code_simp
  show "ValidateABACSubRule ''1 == 1'' = Some (ConstantTruth ''sub'')" by code_simp
  show "ValidateABACSubRule ''(r.sub.ID == 1) == true'' = Some (UnexpectedToken ''=='')" by code_simp
  show "ValidateABACSubRule ''r.sub.ID == 1 false'' = Some (UnexpectedToken ''alse'')" by code_simp
qed

end
