(* ===== verification/Policy.thy ===== *)
theory Policy
  imports Models
begin

text \<open>
  \<^verbatim>\<open>core/internal/authz/policy.go\<close>: the bootstrap policies and route metadata, transcribed
  entry by entry. A policy is the five-tuple (subOwner, subName, method, urlPath, objOwner).
\<close>

definition defaultPolicies :: "string list list" where
  "defaultPolicies = [
    [''*'', ''user'', ''GET'', ''/api/my-account'', ''*''],
    [''*'', ''user'', ''PUT'', ''/api/my-account'', ''*''],
    [''*'', ''user'', ''POST'', ''/api/my-account/password'', ''*''],
    [''*'', ''user'', ''POST'', ''/api/switch-tenant'', ''*''],
    [''*'', ''user'', ''GET'', ''/api/my-invitations'', ''*''],
    [''*'', ''user'', ''POST'', ''/api/my-invitations/{id}/accept'', ''*''],
    [''*'', ''user'', ''POST'', ''/api/my-invitations/{id}/reject'', ''*''],
    [''*'', ''user'', ''POST'', ''/api/tenants/{tenantId}/invite'', ''*''],
    [''*'', ''user'', ''GET'', ''/api/tokens'', ''*''],
    [''*'', ''user'', ''POST'', ''/api/tokens'', ''*''],
    [''*'', ''user'', ''GET'', ''/api/tokens/{id}'', ''*''],
    [''*'', ''user'', ''PUT'', ''/api/tokens/{id}'', ''*''],
    [''*'', ''user'', ''DELETE'', ''/api/tokens/{id}'', ''*''],
    [''*'', ''user'', ''GET'', ''/api/models'', ''*''],
    [''*'', ''user'', ''GET'', ''/api/pricing'', ''*''],
    [''*'', ''user'', ''GET'', ''/api/channels'', ''*''],
    [''*'', ''user'', ''GET'', ''/api/logs/self'', ''*''],
    [''*'', ''user'', ''GET'', ''/api/billing/self'', ''*''],
    [''*'', ''user'', ''GET'', ''/api/topup'', ''*''],
    [''*'', ''user'', ''POST'', ''/api/topup'', ''*''],
    [''*'', ''admin'', ''GET'', ''/api/users'', ''*''],
    [''*'', ''admin'', ''POST'', ''/api/users'', ''*''],
    [''*'', ''admin'', ''GET'', ''/api/users/{id}'', ''*''],
    [''*'', ''admin'', ''PUT'', ''/api/users/{id}'', ''*''],
    [''*'', ''admin'', ''DELETE'', ''/api/users/{id}'', ''*''],
    [''*'', ''admin'', ''GET'', ''/api/roles'', ''*''],
    [''*'', ''admin'', ''POST'', ''/api/roles'', ''*''],
    [''*'', ''admin'', ''PUT'', ''/api/roles/{id}'', ''*''],
    [''*'', ''admin'', ''DELETE'', ''/api/roles/{id}'', ''*''],
    [''*'', ''admin'', ''GET'', ''/api/policies'', ''*''],
    [''*'', ''admin'', ''POST'', ''/api/policies'', ''*''],
    [''*'', ''admin'', ''DELETE'', ''/api/policies/{id}'', ''*''],
    [''*'', ''admin'', ''POST'', ''/api/channels'', ''*''],
    [''*'', ''admin'', ''GET'', ''/api/channels/{id}'', ''*''],
    [''*'', ''admin'', ''PUT'', ''/api/channels/{id}'', ''*''],
    [''*'', ''admin'', ''DELETE'', ''/api/channels/{id}'', ''*''],
    [''*'', ''admin'', ''POST'', ''/api/channels/{id}/test'', ''*''],
    [''*'', ''admin'', ''POST'', ''/api/models'', ''*''],
    [''*'', ''admin'', ''PUT'', ''/api/models/{id}'', ''*''],
    [''*'', ''admin'', ''DELETE'', ''/api/models/{id}'', ''*''],
    [''*'', ''admin'', ''POST'', ''/api/pricing'', ''*''],
    [''*'', ''admin'', ''PUT'', ''/api/pricing'', ''*''],
    [''*'', ''admin'', ''GET'', ''/api/logs'', ''*''],
    [''*'', ''admin'', ''GET'', ''/api/audits'', ''*''],
    [''*'', ''admin'', ''GET'', ''/api/redemptions'', ''*''],
    [''*'', ''admin'', ''POST'', ''/api/redemptions'', ''*''],
    [''*'', ''admin'', ''DELETE'', ''/api/redemptions/{id}'', ''*''],
    [''*'', ''admin'', ''POST'', ''/api/topup/complete'', ''*''],
    [''*'', ''admin'', ''GET'', ''/api/billing'', ''*''],
    [''*'', ''admin'', ''GET'', ''/api/options'', ''*''],
    [''*'', ''admin'', ''PUT'', ''/api/options'', ''*''],
    [''*'', ''admin'', ''GET'', ''/api/system/status'', ''*''],
    [''*'', ''admin'', ''GET'', ''/api/system/performance'', ''*'']]"

definition defaultRouteMetas :: "(string \<times> string) list" where
  "defaultRouteMetas = [
    (''GET'', ''/api/my-account''),
    (''PUT'', ''/api/my-account''),
    (''POST'', ''/api/my-account/password''),
    (''GET'', ''/api/tokens''),
    (''POST'', ''/api/tokens''),
    (''GET'', ''/api/tokens/{id}''),
    (''PUT'', ''/api/tokens/{id}''),
    (''DELETE'', ''/api/tokens/{id}''),
    (''GET'', ''/api/models''),
    (''GET'', ''/api/pricing''),
    (''GET'', ''/api/channels''),
    (''GET'', ''/api/logs/self''),
    (''GET'', ''/api/billing/self''),
    (''GET'', ''/api/topup''),
    (''POST'', ''/api/topup''),
    (''GET'', ''/api/users''),
    (''POST'', ''/api/users''),
    (''GET'', ''/api/users/{id}''),
    (''PUT'', ''/api/users/{id}''),
    (''DELETE'', ''/api/users/{id}''),
    (''GET'', ''/api/roles''),
    (''POST'', ''/api/roles''),
    (''PUT'', ''/api/roles/{id}''),
    (''DELETE'', ''/api/roles/{id}''),
    (''GET'', ''/api/policies''),
    (''POST'', ''/api/policies''),
    (''DELETE'', ''/api/policies/{id}''),
    (''POST'', ''/api/channels''),
    (''GET'', ''/api/channels/{id}''),
    (''PUT'', ''/api/channels/{id}''),
    (''DELETE'', ''/api/channels/{id}''),
    (''POST'', ''/api/channels/{id}/test''),
    (''POST'', ''/api/models''),
    (''PUT'', ''/api/models/{id}''),
    (''DELETE'', ''/api/models/{id}''),
    (''POST'', ''/api/pricing''),
    (''PUT'', ''/api/pricing''),
    (''GET'', ''/api/logs''),
    (''GET'', ''/api/audits''),
    (''GET'', ''/api/redemptions''),
    (''POST'', ''/api/redemptions''),
    (''DELETE'', ''/api/redemptions/{id}''),
    (''POST'', ''/api/topup/complete''),
    (''GET'', ''/api/billing''),
    (''GET'', ''/api/options''),
    (''PUT'', ''/api/options''),
    (''GET'', ''/api/system/status''),
    (''GET'', ''/api/system/performance'')]"

definition DefaultRouteMetas :: "(string \<times> string) list" where
  "DefaultRouteMetas = defaultRouteMetas"

text \<open>Projections of a policy tuple.\<close>

definition pol_role :: "string list \<Rightarrow> string" where "pol_role p = p ! 1"

definition pol_route :: "string list \<Rightarrow> string \<times> string" where "pol_route p = (p ! 2, p ! 3)"

text \<open>The policies whose route has no bootstrap metadata.\<close>

definition routes_without_meta :: "(string \<times> string) list" where
  "routes_without_meta = filter (\<lambda>r. r \<notin> set defaultRouteMetas) (map pol_route defaultPolicies)"

text \<open>
  The bootstrap policies are well formed: each is a system-wide five-tuple granted to the
  role user or admin, no tuple occurs twice, no route is granted to both roles, and every
  bootstrap route metadata entry has exactly one policy.
\<close>

theorem bootstrap_policies_wellformed:
  "list_all (\<lambda>p. length p = 5 \<and> p ! 0 = ''*'' \<and> p ! 4 = ''*'' \<and> pol_role p \<in> {''user'', ''admin''})
     defaultPolicies \<and>
   distinct (map pol_route defaultPolicies) \<and> distinct DefaultRouteMetas \<and>
   set DefaultRouteMetas \<subseteq> set (map pol_route defaultPolicies)"
proof (intro conjI)
  show "list_all (\<lambda>p. length p = 5 \<and> p ! 0 = ''*'' \<and> p ! 4 = ''*'' \<and> pol_role p \<in> {''user'', ''admin''})
     defaultPolicies" by code_simp
  show "distinct (map pol_route defaultPolicies)" by code_simp
  show "distinct DefaultRouteMetas" by code_simp
  show "set DefaultRouteMetas \<subseteq> set (map pol_route defaultPolicies)" by code_simp
qed

text \<open>
  The bootstrap metadata does not pair every policy: the five tenant-membership routes have
  a policy and no metadata entry, and they are the only such routes.
\<close>

theorem membership_routes_have_no_meta:
  "routes_without_meta =
    [(''POST'', ''/api/switch-tenant''), (''GET'', ''/api/my-invitations''),
     (''POST'', ''/api/my-invitations/{id}/accept''), (''POST'', ''/api/my-invitations/{id}/reject''),
     (''POST'', ''/api/tenants/{tenantId}/invite'')]"
  by code_simp

end
