(* ===== verification/Events.thy ===== *)
theory Events
  imports Prelude
begin

text \<open>
  \<^verbatim>\<open>core/internal/types/event.go\<close> and \<^verbatim>\<open>core/internal/event/types.go\<close>: the event types (Go string
  constants) and the event that is published, dispatched and stored. The \<^verbatim>\<open>Data\<close> interface value is
  kept as its JSON text; the wildcard type matches every event.
\<close>

type_synonym EventType = string

definition ActionUserRegister :: EventType where "ActionUserRegister = ''user.register''"
definition ActionUserLogin :: EventType where "ActionUserLogin = ''user.login''"
definition ActionUserUpdate :: EventType where "ActionUserUpdate = ''user.update''"
definition ActionUserDelete :: EventType where "ActionUserDelete = ''user.delete''"
definition ActionUserDisable :: EventType where "ActionUserDisable = ''user.disable''"
definition ActionUserEnable :: EventType where "ActionUserEnable = ''user.enable''"
definition ActionUserLock :: EventType where "ActionUserLock = ''user.lock''"
definition ActionUserUnlock :: EventType where "ActionUserUnlock = ''user.unlock''"
definition ActionUserSuspend :: EventType where "ActionUserSuspend = ''user.suspend''"
definition ActionUserUnsuspend :: EventType where "ActionUserUnsuspend = ''user.unsuspend''"
definition ActionPasswordReset :: EventType where "ActionPasswordReset = ''user.password_reset''"
definition ActionEmailChanged :: EventType where "ActionEmailChanged = ''user.email_changed''"
definition ActionPhoneChanged :: EventType where "ActionPhoneChanged = ''user.phone_changed''"
definition ActionVerificationSent :: EventType where "ActionVerificationSent = ''user.verification_sent''"
definition ActionVerificationVerify :: EventType where "ActionVerificationVerify = ''user.verification_verify''"
definition ActionVerificationFailed :: EventType where "ActionVerificationFailed = ''user.verification_failed''"
definition ActionSessionCreate :: EventType where "ActionSessionCreate = ''session.create''"
definition ActionSessionRevoke :: EventType where "ActionSessionRevoke = ''session.revoke''"
definition ActionSessionRevokeAll :: EventType where "ActionSessionRevokeAll = ''session.revoke_all''"
definition ActionMFAEnable :: EventType where "ActionMFAEnable = ''mfa.enable''"
definition ActionMFADisable :: EventType where "ActionMFADisable = ''mfa.disable''"
definition ActionMFAVerify :: EventType where "ActionMFAVerify = ''mfa.verify''"
definition ActionIdentityLink :: EventType where "ActionIdentityLink = ''identity.link''"
definition ActionIdentityUnlink :: EventType where "ActionIdentityUnlink = ''identity.unlink''"
definition ActionOAuthClientCreate :: EventType where "ActionOAuthClientCreate = ''oauth.client.create''"
definition ActionOAuthClientUpdate :: EventType where "ActionOAuthClientUpdate = ''oauth.client.update''"
definition ActionOAuthClientDelete :: EventType where "ActionOAuthClientDelete = ''oauth.client.delete''"
definition ActionPolicyCreate :: EventType where "ActionPolicyCreate = ''policy.create''"
definition ActionPolicyDelete :: EventType where "ActionPolicyDelete = ''policy.delete''"
definition ActionRoleAssign :: EventType where "ActionRoleAssign = ''role.assign''"
definition ActionRoleRevoke :: EventType where "ActionRoleRevoke = ''role.revoke''"
definition ActionRoleChanged :: EventType where "ActionRoleChanged = ''role.changed''"
definition ActionTenantCreate :: EventType where "ActionTenantCreate = ''tenant.create''"
definition ActionTenantUpdate :: EventType where "ActionTenantUpdate = ''tenant.update''"
definition ActionTenantDelete :: EventType where "ActionTenantDelete = ''tenant.delete''"
definition EventWebhookTest :: EventType where "EventWebhookTest = ''webhook.test''"
definition ActionChannelCreate :: EventType where "ActionChannelCreate = ''channel.create''"
definition ActionChannelUpdate :: EventType where "ActionChannelUpdate = ''channel.update''"
definition ActionChannelDelete :: EventType where "ActionChannelDelete = ''channel.delete''"
definition ActionChannelEnable :: EventType where "ActionChannelEnable = ''channel.enable''"
definition ActionChannelDisable :: EventType where "ActionChannelDisable = ''channel.disable''"
definition ActionPlanCreate :: EventType where "ActionPlanCreate = ''plan.create''"
definition ActionPlanUpdate :: EventType where "ActionPlanUpdate = ''plan.update''"
definition ActionPlanDelete :: EventType where "ActionPlanDelete = ''plan.delete''"
definition ActionRefundApprove :: EventType where "ActionRefundApprove = ''billing.refund.approve''"
definition ActionRefundReject :: EventType where "ActionRefundReject = ''billing.refund.reject''"
definition ActionInvoiceIssue :: EventType where "ActionInvoiceIssue = ''billing.invoice.issue''"

definition all_event_types :: "EventType list" where
  "all_event_types = [ActionUserRegister, ActionUserLogin, ActionUserUpdate, ActionUserDelete,
    ActionUserDisable, ActionUserEnable, ActionUserLock, ActionUserUnlock,
    ActionUserSuspend, ActionUserUnsuspend, ActionPasswordReset, ActionEmailChanged,
    ActionPhoneChanged, ActionVerificationSent, ActionVerificationVerify, ActionVerificationFailed,
    ActionSessionCreate, ActionSessionRevoke, ActionSessionRevokeAll, ActionMFAEnable,
    ActionMFADisable, ActionMFAVerify, ActionIdentityLink, ActionIdentityUnlink,
    ActionOAuthClientCreate, ActionOAuthClientUpdate, ActionOAuthClientDelete, ActionPolicyCreate,
    ActionPolicyDelete, ActionRoleAssign, ActionRoleRevoke, ActionRoleChanged,
    ActionTenantCreate, ActionTenantUpdate, ActionTenantDelete, EventWebhookTest,
    ActionChannelCreate, ActionChannelUpdate, ActionChannelDelete, ActionChannelEnable,
    ActionChannelDisable, ActionPlanCreate, ActionPlanUpdate, ActionPlanDelete,
    ActionRefundApprove, ActionRefundReject, ActionInvoiceIssue]"

definition Wildcard :: EventType where "Wildcard = ''*''"

record event =
  evt_ID :: string
  evt_Type :: EventType
  evt_Source :: string
  evt_Subject :: string
  evt_Data :: string
  evt_Timestamp :: timestamp

lemma event_types_distinct: "distinct (Wildcard # all_event_types)"
  by code_simp

end
