(* ===== verification/Authz.thy ===== *)
theory Authz
  imports RoleRegistry AbacRule Policy Events
begin

text \<open>
  \<^verbatim>\<open>core/internal/authz/authz.go\<close>: the authorization manager. The Casbin enforcers are third-party
  code: a record of their operations is a parameter of every definition that calls them, and
  \<open>casbin_laws\<close> states the documented behaviour the manager relies on. Errors carry the text the
  manager wraps around the cause. A method takes the manager's state and returns the new one;
  the deferred \<^verbatim>\<open>EnableAutoSave(true)\<close> is the last state change of a method on every path.
\<close>

datatype authz_error =
    LoadError string                 \<comment> \<open>cyclic inheritance at the role\<close>
  | Casbin string
  | Wrapped string authz_error
  | InvalidABACRule rule_error
  | AbacNotEnabled
  | LoaderError string
  | DecodeError string

subsection \<open>The enforcer interface\<close>

record ('e, 'r) casbin =
  EnableAutoSave :: "bool \<Rightarrow> 'e \<Rightarrow> 'e"
  AddGroupingPolicy :: "string list \<Rightarrow> 'e \<Rightarrow> (string + bool) \<times> 'e"
  RemoveGroupingPolicy :: "string list \<Rightarrow> 'e \<Rightarrow> (string + bool) \<times> 'e"
  RemoveFilteredGroupingPolicy :: "nat \<Rightarrow> string list \<Rightarrow> 'e \<Rightarrow> (string + bool) \<times> 'e"
  LoadPolicy :: "'e \<Rightarrow> (string + unit) \<times> 'e"
  GetPolicies :: "'e \<Rightarrow> string + string list list"
  AddPolicies :: "string list list \<Rightarrow> 'e \<Rightarrow> (string + bool) \<times> 'e"
  AddPolicyRule :: "string list \<Rightarrow> 'e \<Rightarrow> (string + bool) \<times> 'e"
  RemovePolicyRule :: "string list \<Rightarrow> 'e \<Rightarrow> (string + bool) \<times> 'e"
  HasPolicyRule :: "string list \<Rightarrow> 'e \<Rightarrow> string + bool"
  Enforce :: "'r \<Rightarrow> 'e \<Rightarrow> string + bool"

text \<open>
  What the enforcer promises, in terms of the grouping rules it holds in memory (\<open>G\<close>), its
  auto-save switch (\<open>auto\<close>) and the rules its adapter has stored (\<open>DB\<close>): a grouping operation
  with auto-save off changes memory only, and reports whether it changed it.
\<close>

definition law_autosave where
  "law_autosave C G auto DB \<longleftrightarrow> (\<forall>b e. G (EnableAutoSave C b e) = G e \<and>
     auto (EnableAutoSave C b e) = b \<and> DB (EnableAutoSave C b e) = DB e)"

definition law_change where
  "law_change auto DB e e' \<longleftrightarrow> auto e' = auto e \<and> (\<not> auto e \<longrightarrow> DB e' = DB e)"

definition law_add where
  "law_add C G auto DB \<longleftrightarrow> (\<forall>r e res e'. AddGroupingPolicy C r e = (res, e') \<longrightarrow>
     law_change auto DB e e' \<and>
     ((\<exists>err. res = Inl err) \<or> (res = Inr (r \<notin> G e) \<and> G e' = insert r (G e))))"

definition law_remove where
  "law_remove C G auto DB \<longleftrightarrow> (\<forall>r e res e'. RemoveGroupingPolicy C r e = (res, e') \<longrightarrow>
     law_change auto DB e e' \<and>
     ((\<exists>err. res = Inl err) \<or> (res = Inr (r \<in> G e) \<and> G e' = G e - {r})))"

definition law_clear where
  "law_clear C G auto DB \<longleftrightarrow>
    (\<forall>e res e'. RemoveFilteredGroupingPolicy C 0 ['''', '''', ''''] e = (res, e') \<longrightarrow>
     law_change auto DB e e' \<and> ((\<exists>err. res = Inl err) \<or> G e' = {}))"

definition casbin_laws ::
    "('e, 'r) casbin \<Rightarrow> ('e \<Rightarrow> string list set) \<Rightarrow> ('e \<Rightarrow> bool) \<Rightarrow> ('e \<Rightarrow> string list set) \<Rightarrow> bool" where
  "casbin_laws C G auto DB \<longleftrightarrow> law_autosave C G auto DB \<and> law_add C G auto DB \<and>
     law_remove C G auto DB \<and> law_clear C G auto DB"

subsection \<open>State\<close>

datatype event_data =
    RoleAssignEvent string string string   \<comment> \<open>UserID, Role, TenantID\<close>
  | RoleRevokeEvent string string string
  | RoleChangedEvent string
  | DataBytes bytes
  | DataString string
  | DataMap "(string \<times> string) list"

record authz_event =
  ev_ID :: string
  ev_Type :: EventType
  ev_Source :: string
  ev_Data :: event_data
  ev_Timestamp :: timestamp

type_synonym grouping_inputs = "role_definition list option \<times> user_role_assignment list"

text \<open>
  \<open>am_lastDefs\<close> is \<open>None\<close> for the nil slice. \<open>am_bus\<close> is \<open>None\<close> without an event bus, else the
  events published so far; \<open>am_groupingLoader\<close> is the result the configured loader returns.
\<close>

record ('e, 'a) authz_manager =
  am_enforcer :: 'e
  am_abacEnforcer :: "'a option"
  am_roleRegistry :: role_registry
  am_lastDefs :: "role_definition list option"
  am_lastAssignments :: "user_role_assignment list"
  am_bus :: "authz_event list option"
  am_instanceID :: string
  am_groupingLoader :: "(string + grouping_inputs) option"
  am_cancelSubs :: "EventType list"
  am_initOnce :: bool
  am_initDone :: bool
  am_initErr :: "authz_error option"

subsection \<open>Rebuilding the grouping rules\<close>

definition registry_rules :: "(string list \<Rightarrow> string list) \<Rightarrow> role_registry \<Rightarrow> g_rule list" where
  "registry_rules ord reg = concat (map (rules_at reg) (ord (map fst (reg_rules reg))))"

definition assignment_rule :: "user_role_assignment \<Rightarrow> g_rule" where
  "assignment_rule a = [ura_UserID a, ura_Role a, ura_TenantID a]"

definition valid_assignment :: "user_role_assignment \<Rightarrow> bool" where
  "valid_assignment a \<longleftrightarrow> \<not> (ura_UserID a = '''' \<or> ura_Role a = '''')"

definition assignment_rules :: "user_role_assignment list \<Rightarrow> g_rule list" where
  "assignment_rules as = map assignment_rule (filter valid_assignment as)"

fun add_rules :: "('e, 'r) casbin \<Rightarrow> string \<Rightarrow> g_rule list \<Rightarrow> 'e \<Rightarrow> (authz_error + unit) \<times> 'e" where
  "add_rules C msg [] e = (Inr (), e)"
| "add_rules C msg (r # rs) e =
     (case AddGroupingPolicy C r e of
        (Inl err, e') \<Rightarrow> (Inl (Wrapped msg (Casbin err)), e')
      | (Inr _, e') \<Rightarrow> add_rules C msg rs e')"

definition clear_msg :: string where
  "clear_msg = ''quotagate/authz: failed to clear grouping policies''"
definition inherit_msg :: string where
  "inherit_msg = ''quotagate/authz: failed to add inheritance rule''"
definition user_role_msg :: string where
  "user_role_msg = ''quotagate/authz: failed to add user-role rule''"

definition load_groupings ::
    "('e, 'r) casbin \<Rightarrow> g_rule list \<Rightarrow> g_rule list \<Rightarrow> 'e \<Rightarrow> (authz_error + unit) \<times> 'e" where
  "load_groupings C inheritance users e0 =
     (let e1 = EnableAutoSave C False e0;
          (res, e) =
            (case RemoveFilteredGroupingPolicy C 0 ['''', '''', ''''] e1 of
               (Inl err, e2) \<Rightarrow> (Inl (Wrapped clear_msg (Casbin err)), e2)
             | (Inr _, e2) \<Rightarrow>
                 (case add_rules C inherit_msg inheritance e2 of
                    (Inl err, e3) \<Rightarrow> (Inl err, e3)
                  | (Inr _, e3) \<Rightarrow> add_rules C user_role_msg users e3))
      in (res, EnableAutoSave C True e))"

abbreviation nil_list :: "'x list option \<Rightarrow> 'x list" where
  "nil_list xs \<equiv> (case xs of None \<Rightarrow> [] | Some l \<Rightarrow> l)"

definition rebuildGroupingRelations ::
    "(string list \<Rightarrow> string list) \<Rightarrow> ('e, 'r) casbin \<Rightarrow> role_definition list option \<Rightarrow>
     user_role_assignment list \<Rightarrow> ('e, 'a) authz_manager \<Rightarrow>
     (authz_error + unit) \<times> ('e, 'a) authz_manager" where
  "rebuildGroupingRelations ord C defs assignments m =
     (case Load ord (am_roleRegistry m) (nil_list defs) of
        Inl role \<Rightarrow> (Inl (LoadError role), m)
      | Inr reg \<Rightarrow>
          (let m1 = m\<lparr>am_roleRegistry := reg, am_lastDefs := defs, am_lastAssignments := assignments\<rparr>;
               (res, e) = load_groupings C (registry_rules ord reg) (assignment_rules assignments)
                            (am_enforcer m1)
           in (res, m1\<lparr>am_enforcer := e\<rparr>)))"

definition InitGroupingRelations where
  "InitGroupingRelations = rebuildGroupingRelations"

definition ReloadGroupingRelations where
  "ReloadGroupingRelations = rebuildGroupingRelations"

definition initGroupingRelations where
  "initGroupingRelations = rebuildGroupingRelations"

text \<open>\<open>InitRoleRegistry\<close> drops the assignment cache and loads the inheritance rules only.\<close>

definition InitRoleRegistry ::
    "(string list \<Rightarrow> string list) \<Rightarrow> ('e, 'r) casbin \<Rightarrow> role_definition list option \<Rightarrow>
     ('e, 'a) authz_manager \<Rightarrow> (authz_error + unit) \<times> ('e, 'a) authz_manager" where
  "InitRoleRegistry ord C defs m =
     (case Load ord (am_roleRegistry m) (nil_list defs) of
        Inl role \<Rightarrow> (Inl (LoadError role), m)
      | Inr reg \<Rightarrow>
          (let m1 = m\<lparr>am_roleRegistry := reg, am_lastDefs := defs, am_lastAssignments := []\<rparr>;
               (res, e) = load_groupings C (registry_rules ord reg) [] (am_enforcer m1)
           in (res, m1\<lparr>am_enforcer := e\<rparr>)))"

definition ReloadRoleRegistry ::
    "(string list \<Rightarrow> string list) \<Rightarrow> ('e, 'r) casbin \<Rightarrow> role_definition list option \<Rightarrow>
     ('e, 'a) authz_manager \<Rightarrow> (authz_error + unit) \<times> ('e, 'a) authz_manager" where
  "ReloadRoleRegistry ord C defs m =
     (case Load ord (am_roleRegistry m) (nil_list defs) of
        Inl role \<Rightarrow> (Inl (LoadError role), m)
      | Inr reg \<Rightarrow>
          (let m1 = m\<lparr>am_roleRegistry := reg, am_lastDefs := defs\<rparr>;
               (res, e) = load_groupings C (registry_rules ord reg)
                            (assignment_rules (am_lastAssignments m1)) (am_enforcer m1)
           in (res, m1\<lparr>am_enforcer := e\<rparr>)))"

definition ReloadPolicy ::
    "(string list \<Rightarrow> string list) \<Rightarrow> ('e, 'r) casbin \<Rightarrow> ('e, 'a) authz_manager \<Rightarrow>
     (authz_error + unit) \<times> ('e, 'a) authz_manager" where
  "ReloadPolicy ord C m =
     (case LoadPolicy C (am_enforcer m) of
        (Inl err, e) \<Rightarrow> (Inl (Casbin err), m\<lparr>am_enforcer := e\<rparr>)
      | (Inr _, e) \<Rightarrow>
          (let m1 = m\<lparr>am_enforcer := e\<rparr>
           in if am_lastDefs m1 \<noteq> None
              then initGroupingRelations ord C (am_lastDefs m1) (am_lastAssignments m1) m1
              else (Inr (), m1)))"

subsection \<open>Single assignments\<close>

definition new_assignment :: "string \<Rightarrow> string \<Rightarrow> string \<Rightarrow> user_role_assignment" where
  "new_assignment userID role tenantID =
     \<lparr>ura_ID = '''', ura_TenantID = tenantID, ura_UserID = userID, ura_Role = role\<rparr>"

definition AssignUserRole ::
    "('e, 'r) casbin \<Rightarrow> string \<Rightarrow> string \<Rightarrow> string \<Rightarrow> ('e, 'a) authz_manager \<Rightarrow>
     (authz_error + bool) \<times> ('e, 'a) authz_manager" where
  "AssignUserRole C userID role tenantID m =
     (case AddGroupingPolicy C [userID, role, tenantID] (EnableAutoSave C False (am_enforcer m)) of
        (Inl err, e) \<Rightarrow> (Inl (Casbin err), m\<lparr>am_enforcer := EnableAutoSave C True e\<rparr>)
      | (Inr added, e) \<Rightarrow>
          (Inr added,
           m\<lparr>am_enforcer := EnableAutoSave C True e,
             am_lastAssignments :=
               (if added then am_lastAssignments m @ [new_assignment userID role tenantID]
                else am_lastAssignments m)\<rparr>))"

text \<open>
  \<^verbatim>\<open>append(assignments[:i], assignments[i+1:]...)\<close> writes into the array that backs
  \<^verbatim>\<open>assignments\<close>: the result is the returned slice together with the array's content afterwards,
  which is what every other holder of the original slice then reads.
\<close>

fun index_of :: "('x \<Rightarrow> bool) \<Rightarrow> 'x list \<Rightarrow> nat option" where
  "index_of P [] = None"
| "index_of P (x # xs) = (if P x then Some 0 else map_option Suc (index_of P xs))"

definition matches_assignment :: "string \<Rightarrow> string \<Rightarrow> string \<Rightarrow> user_role_assignment \<Rightarrow> bool" where
  "matches_assignment userID role tenantID a \<longleftrightarrow>
     ura_UserID a = userID \<and> ura_Role a = role \<and> ura_TenantID a = tenantID"

definition filterAssignment ::
    "user_role_assignment list \<Rightarrow> string \<Rightarrow> string \<Rightarrow> string \<Rightarrow>
     user_role_assignment list \<times> user_role_assignment list" where
  "filterAssignment assignments userID role tenantID =
     (case index_of (matches_assignment userID role tenantID) assignments of
        None \<Rightarrow> (assignments, assignments)
      | Some i \<Rightarrow>
          (let kept = take i assignments @ drop (Suc i) assignments
           in (kept, kept @ drop (length kept) assignments)))"

definition RevokeUserRole ::
    "('e, 'r) casbin \<Rightarrow> string \<Rightarrow> string \<Rightarrow> string \<Rightarrow> ('e, 'a) authz_manager \<Rightarrow>
     (authz_error + bool) \<times> ('e, 'a) authz_manager" where
  "RevokeUserRole C userID role tenantID m =
     (case RemoveGroupingPolicy C [userID, role, tenantID] (EnableAutoSave C False (am_enforcer m)) of
        (Inl err, e) \<Rightarrow> (Inl (Casbin err), m\<lparr>am_enforcer := EnableAutoSave C True e\<rparr>)
      | (Inr removed, e) \<Rightarrow>
          (Inr removed,
           m\<lparr>am_enforcer := EnableAutoSave C True e,
             am_lastAssignments :=
               (if removed then fst (filterAssignment (am_lastAssignments m) userID role tenantID)
                else am_lastAssignments m)\<rparr>))"

subsection \<open>Bootstrap\<close>

definition get_policy_msg :: string where
  "get_policy_msg = ''quotagate/authz: failed to get policy''"
definition add_policies_msg :: string where
  "add_policies_msg = ''quotagate/authz: failed to add default policies''"
definition init_failed_msg :: string where
  "init_failed_msg = ''quotagate/authz: initialization previously failed''"

text \<open>The body of \<^verbatim>\<open>initOnce.Do\<close>.\<close>

definition init_once_body ::
    "('e, 'r) casbin \<Rightarrow> ('e, 'a) authz_manager \<Rightarrow> ('e, 'a) authz_manager" where
  "init_once_body C m =
     (case GetPolicies C (am_enforcer m) of
        Inl err \<Rightarrow> m\<lparr>am_initErr := Some (Wrapped get_policy_msg (Casbin err))\<rparr>
      | Inr policies \<Rightarrow>
          if 0 < length policies then m\<lparr>am_initDone := True\<rparr>
          else (case AddPolicies C defaultPolicies (am_enforcer m) of
             (Inl err, e) \<Rightarrow> m\<lparr>am_enforcer := e, am_initErr := Some (Wrapped add_policies_msg (Casbin err))\<rparr>
           | (Inr _, e) \<Rightarrow> m\<lparr>am_enforcer := e, am_initDone := True\<rparr>))"

definition InitDefaultPolicies ::
    "('e, 'r) casbin \<Rightarrow> ('e, 'a) authz_manager \<Rightarrow> authz_error option option \<times> ('e, 'a) authz_manager" where
  "InitDefaultPolicies C m =
     (let m1 = (if am_initOnce m then m else (init_once_body C m)\<lparr>am_initOnce := True\<rparr>)
      in (if \<not> am_initDone m1 then Some (am_initErr m1) else None, m1))"

definition DefaultSystemRoles :: "role_definition list" where
  "DefaultSystemRoles =
     [\<lparr>rd_ID = '''', rd_TenantID = '''', rd_Name = ''user'',
       rd_Description = ''Default user with self-service permissions'', rd_IsSystem = True,
       rd_InheritedRoles = [], rd_CreatedAt = 0, rd_UpdatedAt = 0\<rparr>,
      \<lparr>rd_ID = '''', rd_TenantID = '''', rd_Name = ''admin'',
       rd_Description = ''System administrator'', rd_IsSystem = True,
       rd_InheritedRoles = [''user''], rd_CreatedAt = 0, rd_UpdatedAt = 0\<rparr>]"

subsection \<open>Decisions and policies\<close>

text \<open>The \<^verbatim>\<open>roles\<close> argument of the source is discarded, so it is one here.\<close>

definition EnforceRBAC ::
    "('e, string list) casbin \<Rightarrow> string \<Rightarrow> string \<Rightarrow> string list \<Rightarrow> string \<Rightarrow> string \<Rightarrow> string \<Rightarrow>
     ('e, 'a) authz_manager \<Rightarrow> string + bool" where
  "EnforceRBAC C subOwner userID roles method path objOwner m =
     Enforce C [subOwner, userID, method, path, objOwner] (am_enforcer m)"

record subject =
  sub_ID :: string
  sub_Owner :: string
  sub_Roles :: "string list"
  sub_Attrs :: "(string \<times> string) list"

record object =
  obj_Owner :: string
  obj_Name :: string
  obj_Attrs :: "(string \<times> string) list"

type_synonym abac_request = "subject \<times> string \<times> string \<times> string \<times> object"

definition EnforceABAC ::
    "('a, abac_request) casbin \<Rightarrow> subject \<Rightarrow> string \<Rightarrow> string \<Rightarrow> string \<Rightarrow> object \<Rightarrow>
     ('e, 'a) authz_manager \<Rightarrow> string + bool" where
  "EnforceABAC A sub dm method path obj m =
     (case am_abacEnforcer m of
        None \<Rightarrow> Inr False
      | Some e \<Rightarrow> Enforce A (sub, dm, method, path, obj) e)"

fun casbin_result :: "(string + 'v) \<Rightarrow> authz_error + 'v" where
  "casbin_result (Inl err) = Inl (Casbin err)"
| "casbin_result (Inr v) = Inr v"

definition AddPolicy where
  "AddPolicy C subOwner subName method path objOwner (m :: ('e, 'a) authz_manager) =
     (case AddPolicyRule C [subOwner, subName, method, path, objOwner] (am_enforcer m) of
        (res, e) \<Rightarrow> (casbin_result res, m\<lparr>am_enforcer := e\<rparr>))"

definition RemovePolicy where
  "RemovePolicy C subOwner subName method path objOwner (m :: ('e, 'a) authz_manager) =
     (case RemovePolicyRule C [subOwner, subName, method, path, objOwner] (am_enforcer m) of
        (res, e) \<Rightarrow> (casbin_result res, m\<lparr>am_enforcer := e\<rparr>))"

definition HasPolicy where
  "HasPolicy C subOwner subName method path objOwner (m :: ('e, 'a) authz_manager) =
     casbin_result (HasPolicyRule C [subOwner, subName, method, path, objOwner] (am_enforcer m))"

definition GetPolicy where
  "GetPolicy C (m :: ('e, 'a) authz_manager) = casbin_result (GetPolicies C (am_enforcer m))"

definition AddABACPolicy ::
    "('a, 'r) casbin \<Rightarrow> string \<Rightarrow> string \<Rightarrow> string \<Rightarrow> string \<Rightarrow> string \<Rightarrow> ('e, 'a) authz_manager \<Rightarrow>
     (authz_error + bool) \<times> ('e, 'a) authz_manager" where
  "AddABACPolicy A subRule dm method pathRule objRule m =
     (case am_abacEnforcer m of
        None \<Rightarrow> (Inl AbacNotEnabled, m)
      | Some e \<Rightarrow>
          (case ValidateABACSubRule subRule of
             Some err \<Rightarrow> (Inl (InvalidABACRule err), m)
           | None \<Rightarrow>
               (case ValidateABACObjRule objRule of
                  Some err \<Rightarrow> (Inl (InvalidABACRule err), m)
                | None \<Rightarrow>
                    (case AddPolicyRule A [subRule, dm, method, pathRule, objRule] e of
                       (res, e') \<Rightarrow> (casbin_result res, m\<lparr>am_abacEnforcer := Some e'\<rparr>)))))"

definition RemoveABACPolicy where
  "RemoveABACPolicy A subRule dm method pathRule objRule (m :: ('e, 'a) authz_manager) =
     (case am_abacEnforcer m of
        None \<Rightarrow> (Inl AbacNotEnabled, m)
      | Some e \<Rightarrow>
          (case RemovePolicyRule A [subRule, dm, method, pathRule, objRule] e of
             (res, e') \<Rightarrow> (casbin_result res, m\<lparr>am_abacEnforcer := Some e'\<rparr>)))"

definition HasABACPolicy where
  "HasABACPolicy A subRule dm method pathRule objRule (m :: ('e, 'a) authz_manager) =
     (case am_abacEnforcer m of
        None \<Rightarrow> Inl AbacNotEnabled
      | Some e \<Rightarrow> casbin_result (HasPolicyRule A [subRule, dm, method, pathRule, objRule] e))"

definition GetABACPolicy where
  "GetABACPolicy A (m :: ('e, 'a) authz_manager) =
     (case am_abacEnforcer m of None \<Rightarrow> Inr [] | Some e \<Rightarrow> casbin_result (GetPolicies A e))"

definition ReloadABACPolicy where
  "ReloadABACPolicy A (m :: ('e, 'a) authz_manager) =
     (case am_abacEnforcer m of
        None \<Rightarrow> (Inr (), m)
      | Some e \<Rightarrow> (case LoadPolicy A e of (res, e') \<Rightarrow> (casbin_result res, m\<lparr>am_abacEnforcer := Some e'\<rparr>)))"

subsection \<open>Cross-instance events\<close>

definition publishEvent ::
    "string \<Rightarrow> timestamp \<Rightarrow> EventType \<Rightarrow> event_data \<Rightarrow> ('e, 'a) authz_manager \<Rightarrow> ('e, 'a) authz_manager" where
  "publishEvent evid now et data m =
     (case am_bus m of
        None \<Rightarrow> m
      | Some published \<Rightarrow>
          m\<lparr>am_bus := Some (published @
             [\<lparr>ev_ID = evid, ev_Type = et, ev_Source = am_instanceID m, ev_Data = data, ev_Timestamp = now\<rparr>])\<rparr>)"

definition PublishRoleAssign where
  "PublishRoleAssign evid now userID role tenantID =
     publishEvent evid now ActionRoleAssign (RoleAssignEvent userID role tenantID)"

definition PublishRoleRevoke where
  "PublishRoleRevoke evid now userID role tenantID =
     publishEvent evid now ActionRoleRevoke (RoleRevokeEvent userID role tenantID)"

definition PublishRoleChanged where
  "PublishRoleChanged evid now roleName =
     publishEvent evid now ActionRoleChanged (RoleChangedEvent roleName)"

definition subscribe_msg :: string where
  "subscribe_msg = ''quotagate/authz: failed to subscribe''"

text \<open>\<open>sub\<close> is what the bus answers to a subscription of the event type.\<close>

fun subscribe_all ::
    "(EventType \<Rightarrow> string option) \<Rightarrow> EventType list \<Rightarrow> ('e, 'a) authz_manager \<Rightarrow>
     (authz_error + unit) \<times> ('e, 'a) authz_manager" where
  "subscribe_all sub [] m = (Inr (), m)"
| "subscribe_all sub (et # ets) m =
     (case sub et of
        Some err \<Rightarrow> (Inl (Wrapped subscribe_msg (Casbin err)), m)
      | None \<Rightarrow> subscribe_all sub ets (m\<lparr>am_cancelSubs := am_cancelSubs m @ [et]\<rparr>))"

definition SubscribeToEvents where
  "SubscribeToEvents sub (m :: ('e, 'a) authz_manager) =
     (if am_bus m = None then (Inr (), m)
      else subscribe_all sub [ActionRoleAssign, ActionRoleRevoke, ActionRoleChanged] m)"

definition isLocalEvent :: "authz_event \<Rightarrow> ('e, 'a) authz_manager \<Rightarrow> bool" where
  "isLocalEvent evt m \<longleftrightarrow> am_instanceID m \<noteq> '''' \<and> ev_Source evt = am_instanceID m"

text \<open>
  \<open>decodeEventData\<close> goes through JSON: \<open>unmarshal\<close> decodes a text to the (UserID, Role, TenantID)
  fields of the payload struct, \<open>marshal\<close> encodes the data of the in-memory bus.
\<close>

type_synonym role_payload = "string \<times> string \<times> string"

definition decodeEventData ::
    "(event_data \<Rightarrow> string + bytes) \<Rightarrow> (bytes \<Rightarrow> string + role_payload) \<Rightarrow> event_data \<Rightarrow>
     string + role_payload" where
  "decodeEventData marshal unmarshal data =
     (case data of
        DataBytes v \<Rightarrow> unmarshal v
      | DataString v \<Rightarrow> unmarshal v
      | _ \<Rightarrow> and_then (marshal data) unmarshal)"

definition handleRoleAssign where
  "handleRoleAssign C marshal unmarshal evt (m :: ('e, 'a) authz_manager) =
     (if isLocalEvent evt m then m
      else case decodeEventData marshal unmarshal (ev_Data evt) of
        Inl _ \<Rightarrow> m
      | Inr (userID, role, tenantID) \<Rightarrow>
          if userID = '''' \<or> role = '''' then m
          else snd (AssignUserRole C userID role tenantID m))"

definition handleRoleRevoke where
  "handleRoleRevoke C marshal unmarshal evt (m :: ('e, 'a) authz_manager) =
     (if isLocalEvent evt m then m
      else case decodeEventData marshal unmarshal (ev_Data evt) of
        Inl _ \<Rightarrow> m
      | Inr (userID, role, tenantID) \<Rightarrow>
          if userID = '''' \<or> role = '''' then m
          else snd (RevokeUserRole C userID role tenantID m))"

definition handleRoleChanged where
  "handleRoleChanged ord C evt (m :: ('e, 'a) authz_manager) =
     (if isLocalEvent evt m then m
      else case am_groupingLoader m of
        None \<Rightarrow> m
      | Some (Inl _) \<Rightarrow> m
      | Some (Inr (defs, assignments)) \<Rightarrow>
          snd (ReloadGroupingRelations ord C defs assignments m))"

text \<open>The two arguments are what closing each adapter answers.\<close>

definition Close ::
    "string option \<Rightarrow> string option \<Rightarrow> ('e, 'a) authz_manager \<Rightarrow> string option \<times> ('e, 'a) authz_manager" where
  "Close rbac_err abac_err m =
     (let m1 = m\<lparr>am_cancelSubs := []\<rparr>;
          err = rbac_err;
          err = (if abac_err \<noteq> None \<and> err = None then abac_err else err)
      in (err, m1))"

subsection \<open>Construction\<close>

definition rbacTable :: string where "rbacTable = ''casbin_rule''"
definition abacTable :: string where "abacTable = ''casbin_rule_abac''"

definition model_text :: "string list \<Rightarrow> string" where
  "model_text ls = Join [CHR 0x0A] ([''''] @ ls @ [''''])"

definition RBACWithDomainsModel :: string where
  "RBACWithDomainsModel = model_text
    [''[request_definition]'',
     ''r = subOwner, subName, method, urlPath, objOwner'', '''',
     ''[policy_definition]'',
     ''p = subOwner, subName, method, urlPath, objOwner'', '''',
     ''[role_definition]'',
     ''g = _, _, _'', '''',
     ''[policy_effect]'',
     ''e = some(where (p.eft == allow))'', '''',
     ''[matchers]'',
     ''m = g(r.subName, p.subName, r.subOwner) && keyMatch(r.subOwner, p.subOwner) && r.method == p.method && keyMatch3(r.urlPath, p.urlPath) && keyMatch(r.objOwner, p.objOwner)'']"

definition ABACWithDomainsModel :: string where
  "ABACWithDomainsModel = model_text
    [''[request_definition]'',
     ''r = sub, dom, method, path, obj'', '''',
     ''[policy_definition]'',
     ''p = subRule, dom, method, pathRule, objRule'', '''',
     ''[policy_effect]'',
     ''e = some(where (p.eft == allow))'', '''',
     ''[matchers]'',
     ''m = eval(p.subRule) && r.dom == p.dom && r.method == p.method && keyMatch3(r.path, p.pathRule) && eval(p.objRule)'']"

definition wrap_err :: "string \<Rightarrow> string + 'v \<Rightarrow> authz_error + 'v" where
  "wrap_err msg r = (case r of Inl e \<Rightarrow> Inl (Wrapped msg (Casbin e)) | Inr v \<Rightarrow> Inr v)"

fun loaded :: "(string + unit) \<times> 'e \<Rightarrow> string + 'e" where
  "loaded (Inl err, e) = Inl err"
| "loaded (Inr _, e) = Inr e"

text \<open>
  \<open>NewAdapter\<close>, \<open>NewModel\<close> and \<open>NewEnforcer\<close> are the library constructors and \<open>AddMatching\<close> the
  registration of the domain matching function; an option is a state change.
\<close>

definition WithEventBus ::
    "string \<Rightarrow> (string + grouping_inputs) option \<Rightarrow> ('e, 'a) authz_manager \<Rightarrow> ('e, 'a) authz_manager" where
  "WithEventBus instanceID loader m =
     m\<lparr>am_bus := Some [], am_instanceID := instanceID, am_groupingLoader := loader\<rparr>"

definition NewAuthzManager where
  "NewAuthzManager C A NewAdapter NewModel NewEnforcer NewAbacEnforcer AddMatching opts =
    and_then (wrap_err ''quotagate/authz: failed to create rbac adapter'' (NewAdapter rbacTable)) (\<lambda>adapter.
    and_then (wrap_err ''quotagate/authz: failed to create rbac model'' (NewModel RBACWithDomainsModel)) (\<lambda>m.
    and_then (wrap_err ''quotagate/authz: failed to create rbac enforcer'' (NewEnforcer m adapter)) (\<lambda>e0.
    and_then (wrap_err ''quotagate/authz: failed to load rbac policy''
                (loaded (LoadPolicy C (EnableAutoSave C True e0)))) (\<lambda>enforcer.
    let manager = \<lparr>am_enforcer = AddMatching enforcer, am_abacEnforcer = None,
          am_roleRegistry = NewRoleRegistry, am_lastDefs = None, am_lastAssignments = [],
          am_bus = None, am_instanceID = '''', am_groupingLoader = None, am_cancelSubs = [],
          am_initOnce = False, am_initDone = False, am_initErr = None\<rparr> in
    and_then (wrap_err ''quotagate/authz: failed to create abac adapter'' (NewAdapter abacTable)) (\<lambda>abacAdapter.
    and_then (wrap_err ''quotagate/authz: failed to create abac model'' (NewModel ABACWithDomainsModel)) (\<lambda>am.
    and_then (wrap_err ''quotagate/authz: failed to create abac enforcer'' (NewAbacEnforcer am abacAdapter)) (\<lambda>a0.
    and_then (wrap_err ''quotagate/authz: failed to load abac policy''
                (loaded (LoadPolicy A (EnableAutoSave A True a0)))) (\<lambda>abacEnforcer.
    Inr (fold (\<lambda>opt m. opt m) opts (manager\<lparr>am_abacEnforcer := Some abacEnforcer\<rparr>))))))))))"

subsection \<open>What the enforcer holds\<close>

lemma casbin_autosave:
  assumes "casbin_laws C G auto DB"
  shows "G (EnableAutoSave C b e) = G e" "auto (EnableAutoSave C b e) = b"
    "DB (EnableAutoSave C b e) = DB e"
  using assms by (simp_all add: casbin_laws_def law_autosave_def)

lemma casbin_add:
  assumes "casbin_laws C G auto DB" "AddGroupingPolicy C r e = (res, e')"
  shows "law_change auto DB e e'"
    "(\<exists>err. res = Inl err) \<or> (res = Inr (r \<notin> G e) \<and> G e' = insert r (G e))"
proof -
  from assms(1) have "law_add C G auto DB" by (simp add: casbin_laws_def)
  with assms(2) show "law_change auto DB e e'"
    "(\<exists>err. res = Inl err) \<or> (res = Inr (r \<notin> G e) \<and> G e' = insert r (G e))"
    unfolding law_add_def by blast+
qed

lemma casbin_remove:
  assumes "casbin_laws C G auto DB" "RemoveGroupingPolicy C r e = (res, e')"
  shows "law_change auto DB e e'"
    "(\<exists>err. res = Inl err) \<or> (res = Inr (r \<in> G e) \<and> G e' = G e - {r})"
proof -
  from assms(1) have "law_remove C G auto DB" by (simp add: casbin_laws_def)
  with assms(2) show "law_change auto DB e e'"
    "(\<exists>err. res = Inl err) \<or> (res = Inr (r \<in> G e) \<and> G e' = G e - {r})"
    unfolding law_remove_def by blast+
qed

lemma casbin_clear:
  assumes "casbin_laws C G auto DB"
    "RemoveFilteredGroupingPolicy C 0 ['''', '''', ''''] e = (res, e')"
  shows "law_change auto DB e e'" "(\<exists>err. res = Inl err) \<or> G e' = {}"
proof -
  from assms(1) have "law_clear C G auto DB" by (simp add: casbin_laws_def)
  with assms(2) show "law_change auto DB e e'" "(\<exists>err. res = Inl err) \<or> G e' = {}"
    unfolding law_clear_def by blast+
qed

lemma add_rules_effect:
  assumes "casbin_laws C G auto DB"
  shows "add_rules C msg rs e = (res, e') \<Longrightarrow> \<not> auto e \<Longrightarrow>
    \<not> auto e' \<and> DB e' = DB e \<and> (is_ok res \<longrightarrow> G e' = G e \<union> set rs)"
proof (induction rs arbitrary: e)
  case (Cons r rs)
  obtain x e1 where a: "AddGroupingPolicy C r e = (x, e1)" by (cases "AddGroupingPolicy C r e")
  note eff = casbin_add [OF assms a, unfolded law_change_def]
  show ?case
  proof (cases x)
    case (Inl err)
    with Cons.prems a eff show ?thesis by auto
  next
    case (Inr b)
    with Cons.prems a Cons.IH [of e1] eff show ?thesis by auto
  qed
qed simp

lemma load_groupings_effect:
  assumes L: "casbin_laws C G auto DB" and r: "load_groupings C inh users e = (res, e')"
  shows "auto e' \<and> DB e' = DB e \<and> (is_ok res \<longrightarrow> G e' = set inh \<union> set users)"
proof -
  let ?e1 = "EnableAutoSave C False e"
  obtain x e2 where c: "RemoveFilteredGroupingPolicy C 0 ['''', '''', ''''] ?e1 = (x, e2)"
    by (cases "RemoveFilteredGroupingPolicy C 0 ['''', '''', ''''] ?e1")
  note eff = casbin_clear [OF L c, unfolded law_change_def casbin_autosave [OF L]]
  obtain y e3 where i: "add_rules C inherit_msg inh e2 = (y, e3)"
    by (cases "add_rules C inherit_msg inh e2")
  obtain z e4 where s: "add_rules C user_role_msg users e3 = (z, e4)"
    by (cases "add_rules C user_role_msg users e3")
  note effi = add_rules_effect [OF L i]
  note effs = add_rules_effect [OF L s]
  show ?thesis
  proof (cases x)
    case (Inl err)
    with r c have "e' = EnableAutoSave C True e2" "\<not> is_ok res" by (auto simp: load_groupings_def)
    with eff casbin_autosave [OF L] show ?thesis by simp
  next
    case (Inr b)
    with eff have e2: "G e2 = {}" "\<not> auto e2" "DB e2 = DB e" by auto
    show ?thesis
    proof (cases y)
      case (Inl err)
      with Inr r c i have "e' = EnableAutoSave C True e3" "\<not> is_ok res" by (auto simp: load_groupings_def)
      with effi e2 casbin_autosave [OF L] show ?thesis by simp
    next
      case (Inr u)
      with \<open>x = Inr b\<close> r c i s have "e' = EnableAutoSave C True e4" "res = z"
        by (auto simp: load_groupings_def)
      with effi effs e2 Inr casbin_autosave [OF L] show ?thesis by simp
    qed
  qed
qed

lemma UN_support: "(\<And>d r. r \<in> S d \<Longrightarrow> d \<in> K) \<Longrightarrow> (\<Union>d\<in>K. S d) = (\<Union>d. S d)"
  by blast

lemma registry_rules_set:
  assumes "key_order ord"
  shows "set (registry_rules ord reg) = (\<Union>dm. set (rules_at reg dm))"
proof -
  have key: "dm \<in> fst ` set (reg_rules reg)" if "r \<in> set (rules_at reg dm)" for r dm
  proof -
    from that obtain rs where "map_of (reg_rules reg) dm = Some rs"
      by (cases "map_of (reg_rules reg) dm") (simp_all add: rules_at_def)
    from map_of_SomeD [OF this] show ?thesis by (rule image_eqI [rotated]) simp
  qed
  have "set (registry_rules ord reg) = (\<Union>dm\<in>fst ` set (reg_rules reg). set (rules_at reg dm))"
    using assms by (simp add: registry_rules_def)
  also have "\<dots> = (\<Union>dm. set (rules_at reg dm))"
    by (rule UN_support) (rule key)
  finally show ?thesis .
qed

definition inheritance_rules :: "role_definition list \<Rightarrow> g_rule set" where
  "inheritance_rules defs = (\<Union>dm. domain_rules (domain_graph defs dm) dm)"

lemma Load_registry_rules:
  assumes "Load ord r defs = Inr reg" "key_order ord" "key_order ord'"
  shows "set (registry_rules ord' reg) = inheritance_rules defs"
  using Load_sound [OF assms(1,2)] by (simp add: registry_rules_set [OF assms(3)] inheritance_rules_def)

text \<open>
  The manager's invariant: the enforcer holds the registry's rules and those of the cached
  assignments, and the cache holds no assignment twice.
\<close>

definition registry_rule_set :: "role_registry \<Rightarrow> g_rule set" where
  "registry_rule_set reg = (\<Union>dm. set (rules_at reg dm))"

definition grouping_inv :: "('e \<Rightarrow> string list set) \<Rightarrow> ('e, 'a) authz_manager \<Rightarrow> bool" where
  "grouping_inv G m \<longleftrightarrow>
     G (am_enforcer m) = registry_rule_set (am_roleRegistry m) \<union> set (assignment_rules (am_lastAssignments m)) \<and>
     distinct (assignment_rules (am_lastAssignments m))"

lemma rebuild_effect:
  assumes "key_order ord" "casbin_laws C G auto DB"
    and "rebuildGroupingRelations ord C defs assignments m = (Inr u, m')"
  shows "G (am_enforcer m') = inheritance_rules (nil_list defs) \<union> set (assignment_rules assignments)"
    and "DB (am_enforcer m') = DB (am_enforcer m)" "auto (am_enforcer m')"
    and "am_lastDefs m' = defs" "am_lastAssignments m' = assignments"
    and "registry_rule_set (am_roleRegistry m') = inheritance_rules (nil_list defs)"
proof -
  from assms(3) obtain reg where reg: "Load ord (am_roleRegistry m) (nil_list defs) = Inr reg"
    by (auto simp: rebuildGroupingRelations_def split: sum.splits)
  obtain res e where l: "load_groupings C (registry_rules ord reg) (assignment_rules assignments)
      (am_enforcer m) = (res, e)"
    by (cases "load_groupings C (registry_rules ord reg) (assignment_rules assignments) (am_enforcer m)")
  note facts = load_groupings_effect [OF assms(2) l] Load_registry_rules [OF reg assms(1,1)]
    registry_rules_set [OF assms(1), of reg]
  show "G (am_enforcer m') = inheritance_rules (nil_list defs) \<union> set (assignment_rules assignments)"
    "DB (am_enforcer m') = DB (am_enforcer m)" "auto (am_enforcer m')"
    "am_lastDefs m' = defs" "am_lastAssignments m' = assignments"
    "registry_rule_set (am_roleRegistry m') = inheritance_rules (nil_list defs)"
    using assms(3) facts reg l
    by (auto simp: rebuildGroupingRelations_def Let_def registry_rule_set_def)
qed

lemma rebuild_grouping_inv:
  assumes "key_order ord" "casbin_laws C G auto DB"
    and "rebuildGroupingRelations ord C defs assignments m = (Inr u, m')"
    and "distinct (assignment_rules assignments)"
  shows "grouping_inv G m'"
  using rebuild_effect [OF assms(1-3)] assms(4) by (simp add: grouping_inv_def)

lemma Assign_cases:
  assumes "AssignUserRole C u r t m = (res, m')" "casbin_laws C G auto DB"
  shows "auto (am_enforcer m')" "DB (am_enforcer m') = DB (am_enforcer m)"
    "am_roleRegistry m' = am_roleRegistry m"
    "(\<exists>err. res = Inl err) \<or> (res = Inr ([u, r, t] \<notin> G (am_enforcer m)) \<and>
       G (am_enforcer m') = insert [u, r, t] (G (am_enforcer m)) \<and>
       am_lastAssignments m' = am_lastAssignments m @
         (if [u, r, t] \<notin> G (am_enforcer m) then [new_assignment u r t] else []))"
proof -
  obtain x e where a: "AddGroupingPolicy C [u, r, t] (EnableAutoSave C False (am_enforcer m)) = (x, e)"
    by (cases "AddGroupingPolicy C [u, r, t] (EnableAutoSave C False (am_enforcer m))")
  note eff = casbin_add [OF assms(2) a, unfolded law_change_def casbin_autosave [OF assms(2)]]
  show "auto (am_enforcer m')" "DB (am_enforcer m') = DB (am_enforcer m)"
    "am_roleRegistry m' = am_roleRegistry m"
    "(\<exists>err. res = Inl err) \<or> (res = Inr ([u, r, t] \<notin> G (am_enforcer m)) \<and>
       G (am_enforcer m') = insert [u, r, t] (G (am_enforcer m)) \<and>
       am_lastAssignments m' = am_lastAssignments m @
         (if [u, r, t] \<notin> G (am_enforcer m) then [new_assignment u r t] else []))"
    using assms(1) a eff casbin_autosave [OF assms(2)]
    by (auto simp: AssignUserRole_def split: sum.splits)
qed

lemma Revoke_cases:
  assumes "RevokeUserRole C u r t m = (res, m')" "casbin_laws C G auto DB"
  shows "auto (am_enforcer m')" "DB (am_enforcer m') = DB (am_enforcer m)"
    "am_roleRegistry m' = am_roleRegistry m"
    "(\<exists>err. res = Inl err) \<or> (res = Inr ([u, r, t] \<in> G (am_enforcer m)) \<and>
       G (am_enforcer m') = G (am_enforcer m) - {[u, r, t]} \<and>
       am_lastAssignments m' = (if [u, r, t] \<in> G (am_enforcer m)
         then fst (filterAssignment (am_lastAssignments m) u r t) else am_lastAssignments m))"
proof -
  obtain x e where a: "RemoveGroupingPolicy C [u, r, t] (EnableAutoSave C False (am_enforcer m)) = (x, e)"
    by (cases "RemoveGroupingPolicy C [u, r, t] (EnableAutoSave C False (am_enforcer m))")
  note eff = casbin_remove [OF assms(2) a, unfolded law_change_def casbin_autosave [OF assms(2)]]
  show "auto (am_enforcer m')" "DB (am_enforcer m') = DB (am_enforcer m)"
    "am_roleRegistry m' = am_roleRegistry m"
    "(\<exists>err. res = Inl err) \<or> (res = Inr ([u, r, t] \<in> G (am_enforcer m)) \<and>
       G (am_enforcer m') = G (am_enforcer m) - {[u, r, t]} \<and>
       am_lastAssignments m' = (if [u, r, t] \<in> G (am_enforcer m)
         then fst (filterAssignment (am_lastAssignments m) u r t) else am_lastAssignments m))"
    using assms(1) a eff casbin_autosave [OF assms(2)]
    by (auto simp: RevokeUserRole_def split: sum.splits)
qed

lemma assignment_rules_new:
  "u \<noteq> '''' \<Longrightarrow> r \<noteq> '''' \<Longrightarrow> assignment_rules [new_assignment u r t] = [[u, r, t]]"
  by (simp add: assignment_rules_def valid_assignment_def assignment_rule_def new_assignment_def)

lemma assignment_rules_append [simp]:
  "assignment_rules (as @ bs) = assignment_rules as @ assignment_rules bs"
  by (simp add: assignment_rules_def)

lemma assignment_rules_Nil [simp]: "assignment_rules [] = []"
  by (simp add: assignment_rules_def)

lemma index_of_Some:
  "index_of P xs = Some i \<Longrightarrow> i < length xs \<and> P (xs ! i) \<and> (\<forall>j<i. \<not> P (xs ! j))"
proof (induction xs arbitrary: i)
  case (Cons x xs)
  then show ?case by (fastforce simp: nth_Cons less_Suc_eq_0_disj split: if_splits nat.splits)
qed simp

lemma index_of_None: "index_of P xs = None \<longleftrightarrow> (\<forall>x\<in>set xs. \<not> P x)"
  by (induction xs) auto

lemma filterAssignment_rules:
  assumes "u \<noteq> ''''" "r \<noteq> ''''" "distinct (assignment_rules as)"
  shows "set (assignment_rules (fst (filterAssignment as u r t))) = set (assignment_rules as) - {[u, r, t]}"
    "distinct (assignment_rules (fst (filterAssignment as u r t)))"
proof -
  have m: "assignment_rule a = [u, r, t] \<longleftrightarrow> matches_assignment u r t a" for a
    by (auto simp: assignment_rule_def matches_assignment_def)
  have "set (assignment_rules (fst (filterAssignment as u r t))) = set (assignment_rules as) - {[u, r, t]} \<and>
    distinct (assignment_rules (fst (filterAssignment as u r t)))"
  proof (cases "index_of (matches_assignment u r t) as")
    case None
    then have "filterAssignment as u r t = (as, as)" by (simp add: filterAssignment_def)
    with None assms(3) m show ?thesis by (auto simp: index_of_None assignment_rules_def)
  next
    case (Some i)
    from index_of_Some [OF Some] have i: "i < length as" "matches_assignment u r t (as ! i)" by auto
    from i(2) assms(1,2) have v: "assignment_rules [as ! i] = [[u, r, t]]"
      by (auto simp: assignment_rules_def valid_assignment_def matches_assignment_def assignment_rule_def)
    have "as = take i as @ [as ! i] @ drop (Suc i) as"
      using id_take_nth_drop [OF i(1)] by simp
    then have split: "assignment_rules as =
        assignment_rules (take i as) @ [[u, r, t]] @ assignment_rules (drop (Suc i) as)"
      using v by (metis assignment_rules_append)
    with assms(3) Some show ?thesis by (auto simp: filterAssignment_def Let_def)
  qed
  then show "set (assignment_rules (fst (filterAssignment as u r t))) = set (assignment_rules as) - {[u, r, t]}"
    "distinct (assignment_rules (fst (filterAssignment as u r t)))" by auto
qed

subsection \<open>A concrete enforcer for the witnesses\<close>

record ref_enforcer =
  re_auto :: bool
  re_g :: "string list list"
  re_stored :: "string list list"
  re_p :: "string list list"

definition ref_casbin :: "(ref_enforcer, string list) casbin" where
  "ref_casbin = \<lparr>
     EnableAutoSave = (\<lambda>b e. e\<lparr>re_auto := b\<rparr>),
     AddGroupingPolicy = (\<lambda>r e. (Inr (r \<notin> set (re_g e)), e\<lparr>re_g := List.insert r (re_g e),
        re_stored := (if re_auto e then List.insert r (re_stored e) else re_stored e)\<rparr>)),
     RemoveGroupingPolicy = (\<lambda>r e. (Inr (r \<in> set (re_g e)), e\<lparr>re_g := removeAll r (re_g e),
        re_stored := (if re_auto e then removeAll r (re_stored e) else re_stored e)\<rparr>)),
     RemoveFilteredGroupingPolicy = (\<lambda>n vs e. (Inr (re_g e \<noteq> []), e\<lparr>re_g := [],
        re_stored := (if re_auto e then [] else re_stored e)\<rparr>)),
     LoadPolicy = (\<lambda>e. (Inr (), e\<lparr>re_g := re_stored e\<rparr>)),
     GetPolicies = (\<lambda>e. Inr (re_p e)),
     AddPolicies = (\<lambda>ps e. (Inr True, e\<lparr>re_p := re_p e @ ps\<rparr>)),
     AddPolicyRule = (\<lambda>p e. (Inr (p \<notin> set (re_p e)), e\<lparr>re_p := List.insert p (re_p e)\<rparr>)),
     RemovePolicyRule = (\<lambda>p e. (Inr (p \<in> set (re_p e)), e\<lparr>re_p := removeAll p (re_p e)\<rparr>)),
     HasPolicyRule = (\<lambda>p e. Inr (p \<in> set (re_p e))),
     Enforce = (\<lambda>r e. Inr False)\<rparr>"

lemma ref_casbin_laws: "casbin_laws ref_casbin (\<lambda>e. set (re_g e)) re_auto (\<lambda>e. set (re_stored e))"
  by (auto simp: casbin_laws_def law_autosave_def law_add_def law_remove_def law_clear_def
      law_change_def ref_casbin_def List.insert_def)

definition ref_manager :: "(ref_enforcer, ref_enforcer) authz_manager" where
  "ref_manager = \<lparr>am_enforcer = \<lparr>re_auto = True, re_g = [], re_stored = [], re_p = []\<rparr>,
     am_abacEnforcer = Some \<lparr>re_auto = True, re_g = [], re_stored = [], re_p = []\<rparr>,
     am_roleRegistry = NewRoleRegistry, am_lastDefs = None, am_lastAssignments = [],
     am_bus = Some [], am_instanceID = ''node-1'', am_groupingLoader = None, am_cancelSubs = [],
     am_initOnce = False, am_initDone = False, am_initErr = None\<rparr>"

definition ref_assignments :: "user_role_assignment list" where
  "ref_assignments = [new_assignment ''alice'' ''admin'' ''t1'', new_assignment '''' ''user'' ''t1'',
     new_assignment ''bob'' ''user'' ''t1'']"

definition ref_rebuilt :: "(ref_enforcer, ref_enforcer) authz_manager" where
  "ref_rebuilt = snd (rebuildGroupingRelations (\<lambda>xs. xs) ref_casbin (Some DefaultSystemRoles)
     ref_assignments ref_manager)"

lemma ref_rebuild_ok: "rebuildGroupingRelations (\<lambda>xs. xs) ref_casbin (Some DefaultSystemRoles)
    ref_assignments ref_manager = (Inr (), ref_rebuilt)"
proof -
  have "fst (rebuildGroupingRelations (\<lambda>xs. xs) ref_casbin (Some DefaultSystemRoles)
    ref_assignments ref_manager) = Inr ()" by code_simp
  then show ?thesis by (metis ref_rebuilt_def prod.collapse)
qed

lemma ref_inv: "grouping_inv (\<lambda>e. set (re_g e)) ref_rebuilt"
proof (rule rebuild_grouping_inv [OF key_order_id ref_casbin_laws ref_rebuild_ok])
  show "distinct (assignment_rules ref_assignments)" by code_simp
qed

subsection \<open>Properties\<close>

text \<open>
  C4. A rebuild that returns no error leaves in the enforcer exactly the transitive closure of
  the declared role inheritance and the well-formed user assignments, caches its inputs, leaves
  the rules the adapter stores untouched and switches auto-save back on.
\<close>

theorem rebuild_installs_exact_rules:
  assumes "key_order ord" "casbin_laws C G auto DB"
    and "rebuildGroupingRelations ord C defs assignments m = (Inr (), m')"
  shows "G (am_enforcer m') = inheritance_rules (nil_list defs) \<union> set (assignment_rules assignments) \<and>
    am_lastDefs m' = defs \<and> am_lastAssignments m' = assignments \<and>
    DB (am_enforcer m') = DB (am_enforcer m) \<and> auto (am_enforcer m')"
  using rebuild_effect [OF assms] by simp

theorem rebuild_installs_exact_rules_witness:
  "set (re_g (am_enforcer ref_rebuilt)) =
      inheritance_rules DefaultSystemRoles \<union> set (assignment_rules ref_assignments) \<and>
    am_lastDefs ref_rebuilt = Some DefaultSystemRoles \<and> am_lastAssignments ref_rebuilt = ref_assignments \<and>
    set (re_stored (am_enforcer ref_rebuilt)) = set (re_stored (am_enforcer ref_manager)) \<and>
    re_auto (am_enforcer ref_rebuilt)"
  using rebuild_installs_exact_rules [OF key_order_id ref_casbin_laws ref_rebuild_ok] by simp

text \<open>
  C5. For a non-empty user and role, assigning or revoking that role keeps the enforcer equal to
  the registry's rules plus the cached assignments (which are kept free of duplicates), so a later rebuild from the cache reproduces it; the assignment is present
  after an assign and absent after a revoke, and nothing reaches the adapter. A revoke of a
  tuple that is itself an inheritance rule is excluded: it removes the inheritance rule.
\<close>

theorem assign_revoke_keep_cache_in_sync:
  assumes "casbin_laws C G auto DB" "grouping_inv G m" "u \<noteq> ''''" "r \<noteq> ''''"
  shows "(AssignUserRole C u r t m = (Inr b, m') \<longrightarrow>
      grouping_inv G m' \<and> [u, r, t] \<in> G (am_enforcer m') \<and> DB (am_enforcer m') = DB (am_enforcer m)) \<and>
    (RevokeUserRole C u r t m = (Inr b, m') \<longrightarrow> [u, r, t] \<notin> registry_rule_set (am_roleRegistry m) \<longrightarrow>
      grouping_inv G m' \<and> [u, r, t] \<notin> G (am_enforcer m') \<and> DB (am_enforcer m') = DB (am_enforcer m))"
proof (intro conjI impI)
  assume a: "AssignUserRole C u r t m = (Inr b, m')"
  note eff = Assign_cases [OF a assms(1)]
  show "grouping_inv G m'"
    using eff assms(2) assignment_rules_new [OF assms(3,4), of t] by (auto simp: grouping_inv_def)
  show "[u, r, t] \<in> G (am_enforcer m')" "DB (am_enforcer m') = DB (am_enforcer m)" using eff by auto
next
  assume a: "RevokeUserRole C u r t m = (Inr b, m')" and n: "[u, r, t] \<notin> registry_rule_set (am_roleRegistry m)"
  note eff = Revoke_cases [OF a assms(1)]
  have d: "distinct (assignment_rules (am_lastAssignments m))"
    using assms(2) by (simp add: grouping_inv_def)
  show "grouping_inv G m'"
    using eff assms(2) n filterAssignment_rules [OF assms(3,4) d, of t]
    by (auto simp: grouping_inv_def split: if_splits)
  show "[u, r, t] \<notin> G (am_enforcer m')" "DB (am_enforcer m') = DB (am_enforcer m)" using eff by auto
qed

lemma ref_revoke_ok: "RevokeUserRole ref_casbin ''bob'' ''user'' ''t1'' ref_rebuilt =
  (Inr True, snd (RevokeUserRole ref_casbin ''bob'' ''user'' ''t1'' ref_rebuilt))"
proof -
  have "fst (RevokeUserRole ref_casbin ''bob'' ''user'' ''t1'' ref_rebuilt) = Inr True" by code_simp
  then show ?thesis by (metis prod.collapse)
qed

theorem assign_revoke_keep_cache_in_sync_witness:
  "[''bob'', ''user'', ''t1''] \<notin>
     set (re_g (am_enforcer (snd (RevokeUserRole ref_casbin ''bob'' ''user'' ''t1'' ref_rebuilt))))"
proof -
  have "[''bob'', ''user'', ''t1''] \<notin> inheritance_rules DefaultSystemRoles"
  proof -
    have "set (registry_rules (\<lambda>xs. xs) (am_roleRegistry ref_rebuilt)) = {[''admin'', ''user'', ''*'']}"
      by code_simp
    with registry_rules_set [OF key_order_id, of "am_roleRegistry ref_rebuilt"]
      rebuild_effect(6) [OF key_order_id ref_casbin_laws ref_rebuild_ok]
    have "inheritance_rules DefaultSystemRoles = {[''admin'', ''user'', ''*'']}"
      by (simp add: registry_rule_set_def)
    then show ?thesis by simp
  qed
  then show ?thesis
    using assign_revoke_keep_cache_in_sync [OF ref_casbin_laws ref_inv, of "''bob''" "''user''" "''t1''"]
      ref_revoke_ok rebuild_effect(6) [OF key_order_id ref_casbin_laws ref_rebuild_ok]
    by (simp add: option.case)
qed

text \<open>
  \<open>filterAssignment\<close> is documented to return a new slice; it shifts the elements inside the
  caller's array. Whenever it removes an element, the original slice (same length, same array)
  afterwards reads as the returned elements followed by a second copy of its last element.
\<close>

theorem filterAssignment_overwrites_caller:
  "fst (filterAssignment as u r t) \<noteq> as \<longrightarrow>
    snd (filterAssignment as u r t) = fst (filterAssignment as u r t) @ [last as] \<and>
    (\<exists>i<length as. matches_assignment u r t (as ! i) \<and>
       fst (filterAssignment as u r t) = take i as @ drop (Suc i) as)"
proof (cases "index_of (matches_assignment u r t) as")
  case None
  then show ?thesis by (simp add: filterAssignment_def)
next
  case (Some i)
  from index_of_Some [OF Some] have i: "i < length as" "matches_assignment u r t (as ! i)" by auto
  have "drop (length as - 1) as = [last as]"
    using i(1) by (cases as rule: rev_cases) auto
  with Some i show ?thesis by (auto simp: filterAssignment_def Let_def min_absorb2)
qed

theorem filterAssignment_overwrites_caller_witness:
  "snd (filterAssignment ref_assignments ''alice'' ''admin'' ''t1'') =
    [new_assignment '''' ''user'' ''t1'', new_assignment ''bob'' ''user'' ''t1'',
     new_assignment ''bob'' ''user'' ''t1'']"
proof -
  have "fst (filterAssignment ref_assignments ''alice'' ''admin'' ''t1'') =
     [new_assignment '''' ''user'' ''t1'', new_assignment ''bob'' ''user'' ''t1'']" by code_simp
  then show ?thesis
    using filterAssignment_overwrites_caller [of ref_assignments "''alice''" "''admin''" "''t1''"]
    by (simp add: ref_assignments_def)
qed

text \<open>
  A role event published by an instance changes nothing when the bus delivers it back to
  that instance, and on a peer has the effect of the same assignment or revocation, provided the
  payload survives the JSON encoding of the bus.
\<close>

theorem role_event_applied_once:
  assumes "am_instanceID m \<noteq> ''''" "am_bus m = Some q"
    and "decodeEventData marshal unmarshal (RoleAssignEvent u r t) = Inr (u, r, t)"
    and "u \<noteq> ''''" "r \<noteq> ''''"
  shows "\<exists>evt. am_bus (PublishRoleAssign evid now u r t m) = Some (q @ [evt]) \<and>
    handleRoleAssign C marshal unmarshal evt m = m \<and>
    (am_instanceID peer \<noteq> am_instanceID m \<longrightarrow>
       handleRoleAssign C marshal unmarshal evt peer = snd (AssignUserRole C u r t peer))"
  using assms by (auto simp: PublishRoleAssign_def publishEvent_def handleRoleAssign_def isLocalEvent_def)

definition plain_marshal :: "event_data \<Rightarrow> string + bytes" where
  "plain_marshal d = (case d of RoleAssignEvent u r t \<Rightarrow> Inr (u @ ''|'' @ r @ ''|'' @ t) | _ \<Rightarrow> Inl ''unsupported'')"

definition plain_unmarshal :: "bytes \<Rightarrow> string + role_payload" where
  "plain_unmarshal b = (case Split CHR ''|'' b of [u, r, t] \<Rightarrow> Inr (u, r, t) | _ \<Rightarrow> Inl ''syntax'')"

theorem role_event_applied_once_witness:
  "\<exists>evt. am_bus (PublishRoleAssign ''1'' 1 ''alice'' ''admin'' ''t1'' ref_manager) = Some ([] @ [evt]) \<and>
    handleRoleAssign ref_casbin plain_marshal plain_unmarshal evt ref_manager = ref_manager \<and>
    handleRoleAssign ref_casbin plain_marshal plain_unmarshal evt (ref_manager\<lparr>am_instanceID := ''node-2''\<rparr>) =
      snd (AssignUserRole ref_casbin ''alice'' ''admin'' ''t1'' (ref_manager\<lparr>am_instanceID := ''node-2''\<rparr>))"
proof -
  have "am_instanceID ref_manager \<noteq> ''''" "am_bus ref_manager = Some []"
    "am_instanceID (ref_manager\<lparr>am_instanceID := ''node-2''\<rparr>) \<noteq> am_instanceID ref_manager"
    by (simp_all add: ref_manager_def)
  moreover have "decodeEventData plain_marshal plain_unmarshal (RoleAssignEvent ''alice'' ''admin'' ''t1'') =
    Inr (''alice'', ''admin'', ''t1'')" by code_simp
  ultimately show ?thesis
    using role_event_applied_once [of ref_manager "[]" plain_marshal plain_unmarshal "''alice''" "''admin''" "''t1''"
        "''1''" 1 ref_casbin "ref_manager\<lparr>am_instanceID := ''node-2''\<rparr>"] by auto
qed

text \<open>
  No rule outside the validated grammar reaches the ABAC enforcer: an ABAC policy is handed
  to it exactly when both rules validate, and otherwise the manager is unchanged.
\<close>

theorem abac_policy_guarded:
  "(case am_abacEnforcer m of
      None \<Rightarrow> AddABACPolicy A s d me pr obr m = (Inl AbacNotEnabled, m)
    | Some e \<Rightarrow>
        if ValidateABACSubRule s = None \<and> ValidateABACObjRule obr = None
        then AddABACPolicy A s d me pr obr m =
          (casbin_result (fst (AddPolicyRule A [s, d, me, pr, obr] e)),
           m\<lparr>am_abacEnforcer := Some (snd (AddPolicyRule A [s, d, me, pr, obr] e))\<rparr>)
        else (\<exists>err. AddABACPolicy A s d me pr obr m = (Inl (InvalidABACRule err), m)))"
  by (auto simp: AddABACPolicy_def split: option.splits prod.splits)

text \<open>
  Seeding is idempotent: the first call stores the default policies exactly when the table
  is empty, any further call changes nothing and repeats the first answer.
\<close>

theorem default_policies_seeded_once:
  assumes "am_initOnce m = False" "am_initDone m = False" "InitDefaultPolicies C m = (res, m')"
  shows "InitDefaultPolicies C m' = (res, m') \<and>
    (res = None \<longrightarrow> (\<exists>ps. GetPolicies C (am_enforcer m) = Inr ps \<and>
       am_enforcer m' = (if ps = [] then snd (AddPolicies C defaultPolicies (am_enforcer m)) else am_enforcer m)))"
proof
  let ?m1 = "(init_once_body C m)\<lparr>am_initOnce := True\<rparr>"
  have m': "m' = ?m1" "res = (if \<not> am_initDone ?m1 then Some (am_initErr ?m1) else None)"
    using assms by (auto simp: InitDefaultPolicies_def Let_def)
  then show "InitDefaultPolicies C m' = (res, m')" by (simp add: InitDefaultPolicies_def Let_def)
  show "res = None \<longrightarrow> (\<exists>ps. GetPolicies C (am_enforcer m) = Inr ps \<and>
     am_enforcer m' = (if ps = [] then snd (AddPolicies C defaultPolicies (am_enforcer m)) else am_enforcer m))"
  proof (cases "GetPolicies C (am_enforcer m)")
    case (Inl err)
    with m' assms(2) show ?thesis by (simp add: init_once_body_def)
  next
    case (Inr ps)
    then show ?thesis
      using m' assms(2)
      by (cases "AddPolicies C defaultPolicies (am_enforcer m)"; cases "fst (AddPolicies C defaultPolicies (am_enforcer m))")
         (simp_all add: init_once_body_def)
  qed
qed

theorem default_policies_seeded_once_witness:
  "InitDefaultPolicies ref_casbin (snd (InitDefaultPolicies ref_casbin ref_manager)) =
    (None, snd (InitDefaultPolicies ref_casbin ref_manager)) \<and>
   re_p (am_enforcer (snd (InitDefaultPolicies ref_casbin ref_manager))) = defaultPolicies"
proof -
  have "InitDefaultPolicies ref_casbin ref_manager =
      (None, snd (InitDefaultPolicies ref_casbin ref_manager))"
    by (simp add: InitDefaultPolicies_def init_once_body_def Let_def ref_casbin_def ref_manager_def)
  from default_policies_seeded_once [OF _ _ this] show ?thesis
    by (simp add: ref_manager_def ref_casbin_def)
qed

end
