(* ===== verification/ReqContext.thy ===== *)
theory ReqContext
  imports Prelude
begin

text \<open>
  The request context. The sources store five values in a \<^verbatim>\<open>context.Context\<close>, each under a key
  of its own unexported type, so the keys cannot collide: the user's id and roles
  (\<^verbatim>\<open>core/internal/middleware/context.go\<close>), the tenant id, the bypass mark and its reason
  (\<^verbatim>\<open>core/internal/tenant/tenant.go\<close>). An absent value is \<open>None\<close>.
\<close>

record go_ctx =
  cx_user_id :: "string option"
  cx_user_roles :: "string list option"
  cx_tenant :: "string option"
  cx_bypass :: bool
  cx_bypass_reason :: "string option"

definition Background :: go_ctx where
  "Background = \<lparr>cx_user_id = None, cx_user_roles = None, cx_tenant = None, cx_bypass = False,
     cx_bypass_reason = None\<rparr>"

subsection \<open>User id and roles\<close>

definition WithUserID :: "string \<Rightarrow> go_ctx \<Rightarrow> go_ctx" where
  "WithUserID userID ctx = ctx\<lparr>cx_user_id := Some userID\<rparr>"

definition GetUserID :: "go_ctx \<Rightarrow> string" where
  "GetUserID ctx = (case cx_user_id ctx of None \<Rightarrow> '''' | Some v \<Rightarrow> v)"

definition WithUserRoles :: "string list \<Rightarrow> go_ctx \<Rightarrow> go_ctx" where
  "WithUserRoles roles ctx = ctx\<lparr>cx_user_roles := Some roles\<rparr>"

definition GetUserRoles :: "go_ctx \<Rightarrow> string list" where
  "GetUserRoles ctx = (case cx_user_roles ctx of None \<Rightarrow> [] | Some v \<Rightarrow> v)"

definition HasRole :: "go_ctx \<Rightarrow> string \<Rightarrow> bool" where
  "HasRole ctx role = list_ex (\<lambda>r. r = role) (GetUserRoles ctx)"

subsection \<open>Tenant and bypass\<close>

definition WithTenant :: "string \<Rightarrow> go_ctx \<Rightarrow> go_ctx" where
  "WithTenant tenantID ctx = ctx\<lparr>cx_tenant := Some tenantID\<rparr>"

definition FromContext :: "go_ctx \<Rightarrow> string" where
  "FromContext ctx = (case cx_tenant ctx of None \<Rightarrow> '''' | Some v \<Rightarrow> v)"

definition Bypass :: "go_ctx \<Rightarrow> go_ctx" where
  "Bypass ctx = ctx\<lparr>cx_bypass := True\<rparr>"

definition BypassWithReason :: "string \<Rightarrow> go_ctx \<Rightarrow> go_ctx" where
  "BypassWithReason reason ctx =
     (let ctx = Bypass ctx in if reason = '''' then ctx else ctx\<lparr>cx_bypass_reason := Some reason\<rparr>)"

definition IsBypassed :: "go_ctx \<Rightarrow> bool" where
  "IsBypassed ctx = cx_bypass ctx"

definition BypassReason :: "go_ctx \<Rightarrow> string" where
  "BypassReason ctx = (case cx_bypass_reason ctx of None \<Rightarrow> '''' | Some v \<Rightarrow> v)"

definition SystemContext :: "go_ctx \<Rightarrow> go_ctx" where
  "SystemContext ctx = Bypass ctx"

lemma ctx_simps [simp]:
  "GetUserID (WithUserID u ctx) = u" "GetUserID (WithUserRoles rs ctx) = GetUserID ctx"
  "GetUserID (WithTenant t ctx) = GetUserID ctx"
  "GetUserRoles (WithUserRoles rs ctx) = rs" "GetUserRoles (WithUserID u ctx) = GetUserRoles ctx"
  "GetUserRoles (WithTenant t ctx) = GetUserRoles ctx"
  "FromContext (WithTenant t ctx) = t" "FromContext (WithUserID u ctx) = FromContext ctx"
  "FromContext (WithUserRoles rs ctx) = FromContext ctx" "FromContext (Bypass ctx) = FromContext ctx"
  "IsBypassed (Bypass ctx)" "IsBypassed (WithTenant t ctx) = IsBypassed ctx"
  "IsBypassed (WithUserID u ctx) = IsBypassed ctx" "IsBypassed (WithUserRoles rs ctx) = IsBypassed ctx"
  by (simp_all add: WithUserID_def WithUserRoles_def WithTenant_def GetUserID_def GetUserRoles_def
      FromContext_def Bypass_def IsBypassed_def)

lemma HasRole_iff: "HasRole ctx role \<longleftrightarrow> role \<in> set (GetUserRoles ctx)"
  by (auto simp: HasRole_def list_ex_iff)

end
