(* ===== verification/Boot.thy ===== *)
theory Boot
  imports Authz ReqContext
begin

text \<open>
  \<^verbatim>\<open>core/internal/boot/authz.go\<close>: how the authorization manager is brought up. The role and route
  repositories are not in the repository; their operations are parameters (a lookup of a role by
  name under a bypass context, a create, a list).
\<close>

definition mergeSystemRoles :: "role_definition list \<Rightarrow> role_definition list" where
  "mergeSystemRoles dbRoles =
     dbRoles @ filter (\<lambda>sys. rd_Name sys \<notin> set (map rd_Name dbRoles)) DefaultSystemRoles"

datatype boot_error =
    RepoError string
  | BootWrapped string boot_error
  | BootAuthz string authz_error
  | InitFailed "authz_error option"

datatype find_error = ErrRoleNotFound | FindError string

text \<open>
  \<open>findRole\<close> and \<open>create\<close> act on the store of the repository; a wrapped error names the role by the
  message only.
\<close>

fun seedRoles ::
    "(string \<Rightarrow> 's \<Rightarrow> find_error + role_definition) \<Rightarrow> (role_definition \<Rightarrow> 's \<Rightarrow> (string + unit) \<times> 's) \<Rightarrow>
     role_definition list \<Rightarrow> 's \<Rightarrow> (boot_error + unit) \<times> 's" where
  "seedRoles findRole create [] s = (Inr (), s)"
| "seedRoles findRole create (sys # rest) s =
     (case findRole (rd_Name sys) s of
        Inr _ \<Rightarrow> seedRoles findRole create rest s
      | Inl (FindError e) \<Rightarrow> (Inl (BootWrapped ''check system role'' (RepoError e)), s)
      | Inl ErrRoleNotFound \<Rightarrow>
          (case create sys s of
             (Inl e, s') \<Rightarrow> (Inl (BootWrapped ''create system role'' (RepoError e)), s')
           | (Inr _, s') \<Rightarrow> seedRoles findRole create rest s'))"

definition seedSystemRoles where
  "seedSystemRoles findRole create = seedRoles findRole create DefaultSystemRoles"

fun seedMetas ::
    "(route_meta \<Rightarrow> 's \<Rightarrow> (string + unit) \<times> 's) \<Rightarrow> (string \<times> string) list \<Rightarrow> 's \<Rightarrow>
     (boot_error + unit) \<times> 's" where
  "seedMetas createOrUpdate [] s = (Inr (), s)"
| "seedMetas createOrUpdate ((method, path) # rest) s =
     (case createOrUpdate \<lparr>rm_ID = '''', rm_TenantID = '''', rm_Method = method, rm_Path = path,
             rm_RuleType = RuleTypeRBAC\<rparr> s of
        (Inl e, s') \<Rightarrow> (Inl (BootWrapped ''seed route meta'' (RepoError e)), s')
      | (Inr _, s') \<Rightarrow> seedMetas createOrUpdate rest s')"

definition seedDefaultRouteMetas where
  "seedDefaultRouteMetas createOrUpdate loadCache s =
     (case seedMetas createOrUpdate DefaultRouteMetas s of
        (Inl e, s') \<Rightarrow> (Inl e, s')
      | (Inr _, s') \<Rightarrow>
          (case loadCache s' of
             (Inl e, s'') \<Rightarrow> (Inl (BootWrapped ''load route meta cache'' (RepoError e)), s'')
           | (Inr _, s'') \<Rightarrow> (Inr (), s'')))"

text \<open>
  \<open>InitAuthz\<close> after the manager has been constructed: seed, list, rebuild, subscribe. \<open>listRoles\<close>
  and \<open>listAssignments\<close> read the repositories.
\<close>

definition InitAuthz where
  "InitAuthz ord C sub seedRolesStep seedMetasStep listRoles listAssignments m0 s0 =
    (case InitDefaultPolicies C m0 of
       (Some err, m) \<Rightarrow> (Inl (BootWrapped ''init default policies'' (InitFailed err)), m, s0)
     | (None, m) \<Rightarrow>
    (case seedRolesStep s0 of
       (Inl e, s) \<Rightarrow> (Inl (BootWrapped ''seed system roles'' e), m, s)
     | (Inr _, s) \<Rightarrow>
    (case seedMetasStep s of
       (Inl e, s) \<Rightarrow> (Inl (BootWrapped ''seed default route metas'' e), m, s)
     | (Inr _, s) \<Rightarrow>
    (case listRoles s of
       Inl e \<Rightarrow> (Inl (BootWrapped ''list roles for registry'' (RepoError e)), m, s)
     | Inr allRoles \<Rightarrow>
    (case listAssignments s of
       Inl e \<Rightarrow> (Inl (BootWrapped ''list role assignments for registry'' (RepoError e)), m, s)
     | Inr assignments \<Rightarrow>
    (case InitGroupingRelations ord C (Some (mergeSystemRoles allRoles)) assignments m of
       (Inl e, m) \<Rightarrow> (Inl (BootAuthz ''init grouping relations'' e), m, s)
     | (Inr _, m) \<Rightarrow>
    (case SubscribeToEvents sub m of
       (Inl e, m) \<Rightarrow> (Inl (BootAuthz ''subscribe to authz events'' e), m, s)
     | (Inr _, m) \<Rightarrow> (Inr (), m, s))))))))"

subsection \<open>Properties\<close>

lemma merge_keeps: "set dbRoles \<subseteq> set (mergeSystemRoles dbRoles)"
  by (auto simp: mergeSystemRoles_def)

lemma merge_names: "{''user'', ''admin''} \<subseteq> rd_Name ` set (mergeSystemRoles dbRoles)"
proof -
  have "rd_Name d \<in> rd_Name ` set (mergeSystemRoles dbRoles)" if "d \<in> set DefaultSystemRoles" for d
  proof (cases "rd_Name d \<in> set (map rd_Name dbRoles)")
    case True
    then show ?thesis using merge_keeps [of dbRoles] by auto
  next
    case False
    with that show ?thesis by (auto simp: mergeSystemRoles_def)
  qed
  moreover have "rd_Name ` set DefaultSystemRoles = {''user'', ''admin''}"
    by (simp add: DefaultSystemRoles_def)
  ultimately show ?thesis by (metis image_subsetI)
qed

text \<open>
  The merge keeps the stored roles and guarantees a role named user and one named admin, but
  it compares names across tenants: a tenant's own role named admin suppresses the system role,
  so that the system inheritance admin to user, which a store without that tenant role gets for
  every tenant, is missing from the registry that is loaded.
\<close>

definition tenant_admin :: role_definition where
  "tenant_admin = \<lparr>rd_ID = ''9'', rd_TenantID = ''t1'', rd_Name = ''admin'', rd_Description = '''',
     rd_IsSystem = False, rd_InheritedRoles = [], rd_CreatedAt = 0, rd_UpdatedAt = 0\<rparr>"

definition merged_rules :: "role_definition list \<Rightarrow> string \<Rightarrow> g_rule list" where
  "merged_rules db dm = (case Load (\<lambda>xs. xs) NewRoleRegistry (mergeSystemRoles db) of
     Inl _ \<Rightarrow> [] | Inr reg \<Rightarrow> GetInheritanceRules reg dm)"

theorem tenant_role_hides_system_role:
  "set dbRoles \<subseteq> set (mergeSystemRoles dbRoles) \<and>
   {''user'', ''admin''} \<subseteq> rd_Name ` set (mergeSystemRoles dbRoles) \<and>
   merged_rules [] ''t2'' = [[''admin'', ''user'', ''*'']] \<and>
   merged_rules [tenant_admin] ''t2'' = []"
proof (intro conjI merge_keeps merge_names)
  show "merged_rules [] ''t2'' = [[''admin'', ''user'', ''*'']]" by code_simp
  show "merged_rules [tenant_admin] ''t2'' = []" by code_simp
qed

text \<open>
  A bring-up that succeeds leaves the enforcer with exactly the inheritance rules of the
  stored roles merged with the system roles and the valid stored assignments, and subscribed to
  the three role events when there is an event bus.
\<close>

lemma subscribe_all_ok:
  "subscribe_all sub ets m = (Inr u, m') \<Longrightarrow>
    am_enforcer m' = am_enforcer m \<and> am_cancelSubs m' = am_cancelSubs m @ ets"
proof (induction ets arbitrary: m)
  case (Cons et ets)
  then have "subscribe_all sub ets (m\<lparr>am_cancelSubs := am_cancelSubs m @ [et]\<rparr>) = (Inr u, m')"
    by (auto split: option.splits)
  from Cons.IH [OF this] show ?case by simp
qed simp

lemma Init_am_bus: "InitDefaultPolicies C m = (r, m1) \<Longrightarrow> am_bus m1 = am_bus m \<and> am_cancelSubs m1 = am_cancelSubs m"
  by (auto simp: InitDefaultPolicies_def init_once_body_def Let_def split: sum.splits prod.splits if_splits)

lemma rebuild_am_bus:
  "rebuildGroupingRelations ord C defs as m = (r, m1) \<Longrightarrow>
    am_bus m1 = am_bus m \<and> am_cancelSubs m1 = am_cancelSubs m"
  by (auto simp: rebuildGroupingRelations_def Let_def split: sum.splits prod.splits)

theorem init_authz_loads_all_roles:
  assumes "key_order ord" "casbin_laws C G auto DB"
    and "InitAuthz ord C sub seedR seedM listRoles listAssignments m0 s0 = (Inr u, m, s)"
    and "am_cancelSubs m0 = []"
  shows "\<exists>allRoles assignments. listRoles s = Inr allRoles \<and> listAssignments s = Inr assignments \<and>
    G (am_enforcer m) = inheritance_rules (mergeSystemRoles allRoles) \<union> set (assignment_rules assignments) \<and>
    am_cancelSubs m = (if am_bus m0 = None then []
      else [ActionRoleAssign, ActionRoleRevoke, ActionRoleChanged])"
proof -
  from assms(3) obtain m1 allRoles assignments m2 where
    i: "InitDefaultPolicies C m0 = (None, m1)"
    and l: "listRoles s = Inr allRoles" "listAssignments s = Inr assignments"
    and g: "InitGroupingRelations ord C (Some (mergeSystemRoles allRoles)) assignments m1 = (Inr (), m2)"
    and e: "SubscribeToEvents sub m2 = (Inr (), m)"
    by (auto simp: InitAuthz_def split: prod.splits sum.splits option.splits)
  note r = rebuild_effect(1) [OF assms(1,2) g [unfolded InitGroupingRelations_def]]
  have b: "am_bus m2 = am_bus m0" "am_cancelSubs m2 = []"
    using Init_am_bus [OF i] rebuild_am_bus [OF g [unfolded InitGroupingRelations_def]] assms(4) by auto
  have "am_enforcer m = am_enforcer m2 \<and> am_cancelSubs m = (if am_bus m0 = None then []
      else [ActionRoleAssign, ActionRoleRevoke, ActionRoleChanged])"
  proof (cases "am_bus m2 = None")
    case True
    with e b show ?thesis by (simp add: SubscribeToEvents_def)
  next
    case False
    with e have "subscribe_all sub [ActionRoleAssign, ActionRoleRevoke, ActionRoleChanged] m2 = (Inr (), m)"
      by (simp add: SubscribeToEvents_def)
    from subscribe_all_ok [OF this] b False show ?thesis by simp
  qed
  with l r show ?thesis by auto
qed

definition ok_step :: "unit \<Rightarrow> (boot_error + unit) \<times> unit" where "ok_step s = (Inr (), s)"

definition booted where
  "booted = InitAuthz (\<lambda>xs. xs) ref_casbin (\<lambda>et. None) ok_step ok_step (\<lambda>s. Inr [])
     (\<lambda>s. Inr ref_assignments) ref_manager ()"

theorem init_authz_loads_all_roles_witness:
  "set (re_g (am_enforcer (fst (snd booted)))) =
     inheritance_rules (mergeSystemRoles []) \<union> set (assignment_rules ref_assignments)"
proof -
  have "fst booted = Inr ()" by code_simp
  then have b: "booted = (Inr (), fst (snd booted), snd (snd booted))" by (metis prod.collapse)
  have "am_cancelSubs ref_manager = []" by (simp add: ref_manager_def)
  from init_authz_loads_all_roles [OF key_order_id ref_casbin_laws b [unfolded booted_def] this]
  show ?thesis by (simp add: booted_def)
qed

end
