(* ===== verification/Errors.thy ===== *)
theory Errors
  imports Prelude
begin

text \<open>
  \<^verbatim>\<open>core/internal/errors\<close>: the API error payload, its builder methods, the error codes, the
  predefined errors and the \<^verbatim>\<open>Abort\<close> family. \<^verbatim>\<open>Abort\<close> receives a pointer and stores the status in
  the shared error value, so it takes a heap of error values (\<open>error_ref\<close> is the pointer).
  The response body is JSON of the payload; it is kept as the payload.
\<close>

record error_response =
  er_Status :: int
  er_Code :: string
  er_Message :: string
  er_Detail :: "string option"
  er_RequestID :: string

definition NewErrorResponse :: "string \<Rightarrow> string \<Rightarrow> error_response" where
  "NewErrorResponse code message =
     \<lparr>er_Status = 0, er_Code = code, er_Message = message, er_Detail = None, er_RequestID = []\<rparr>"

definition WithStatus :: "int \<Rightarrow> error_response \<Rightarrow> error_response" where
  "WithStatus status e = e\<lparr>er_Status := status\<rparr>"

definition WithDetail :: "string option \<Rightarrow> error_response \<Rightarrow> error_response" where
  "WithDetail detail e = e\<lparr>er_Detail := detail\<rparr>"

definition WithRequestID :: "string \<Rightarrow> error_response \<Rightarrow> error_response" where
  "WithRequestID requestID e = e\<lparr>er_RequestID := requestID\<rparr>"

definition ErrorText :: "error_response \<Rightarrow> string" where
  "ErrorText e = er_Message e"

subsection \<open>Codes\<close>

definition CodeInvalidRequest :: string where "CodeInvalidRequest = ''INVALID_REQUEST''"
definition CodeUnauthorized :: string where "CodeUnauthorized = ''UNAUTHORIZED''"
definition CodeForbidden :: string where "CodeForbidden = ''FORBIDDEN''"
definition CodeNotFound :: string where "CodeNotFound = ''NOT_FOUND''"
definition CodeRouteNotFound :: string where "CodeRouteNotFound = ''ROUTE_NOT_FOUND''"
definition CodeMethodNotAllowed :: string where "CodeMethodNotAllowed = ''METHOD_NOT_ALLOWED''"
definition CodeConflict :: string where "CodeConflict = ''CONFLICT''"
definition CodeInternalError :: string where "CodeInternalError = ''INTERNAL_ERROR''"
definition CodeServiceUnavailable :: string where "CodeServiceUnavailable = ''SERVICE_UNAVAILABLE''"
definition CodeURITooLong :: string where "CodeURITooLong = ''URI_TOO_LONG''"
definition CodeBodyTooLarge :: string where "CodeBodyTooLarge = ''BODY_TOO_LARGE''"
definition CodeInvalidEmail :: string where "CodeInvalidEmail = ''INVALID_EMAIL''"
definition CodeInvalidUsername :: string where "CodeInvalidUsername = ''INVALID_USERNAME''"
definition CodeInvalidPassword :: string where "CodeInvalidPassword = ''INVALID_PASSWORD''"
definition CodeUserExists :: string where "CodeUserExists = ''USER_EXISTS''"
definition CodeUserNotFound :: string where "CodeUserNotFound = ''USER_NOT_FOUND''"
definition CodeUserDisabled :: string where "CodeUserDisabled = ''USER_DISABLED''"
definition CodeAuthFailed :: string where "CodeAuthFailed = ''AUTH_FAILED''"
definition CodeTokenExpired :: string where "CodeTokenExpired = ''TOKEN_EXPIRED''"
definition CodeTokenInvalid :: string where "CodeTokenInvalid = ''TOKEN_INVALID''"
definition CodeRateLimitExceeded :: string where "CodeRateLimitExceeded = ''RATE_LIMIT_EXCEEDED''"
definition CodeMissingAuthHeader :: string where "CodeMissingAuthHeader = ''MISSING_AUTH_HEADER''"
definition CodeInvalidAuthHeader :: string where "CodeInvalidAuthHeader = ''INVALID_AUTH_HEADER''"
definition CodeEmptyToken :: string where "CodeEmptyToken = ''EMPTY_TOKEN''"
definition CodeInvalidTokenType :: string where "CodeInvalidTokenType = ''INVALID_TOKEN_TYPE''"
definition CodeMissingChallenge :: string where "CodeMissingChallenge = ''MISSING_CHALLENGE''"
definition CodeInvalidChallenge :: string where "CodeInvalidChallenge = ''INVALID_CHALLENGE''"
definition CodeMissingUserID :: string where "CodeMissingUserID = ''MISSING_USER_ID''"
definition CodeSamePassword :: string where "CodeSamePassword = ''SAME_PASSWORD''"
definition CodeWebAuthnNoCredentials :: string where "CodeWebAuthnNoCredentials = ''WEBAUTHN_NO_CREDENTIALS''"
definition CodeInvalidQRCode :: string where "CodeInvalidQRCode = ''INVALID_QR_CODE''"
definition CodeMissingQRCode :: string where "CodeMissingQRCode = ''MISSING_QR_CODE''"
definition CodeQRCodeConflict :: string where "CodeQRCodeConflict = ''QRCODE_CONFLICT''"

text \<open>The codes of the API, in the order of the source.\<close>

definition all_codes :: "string list" where
  "all_codes = [CodeInvalidRequest, CodeUnauthorized, CodeForbidden, CodeNotFound,
    CodeRouteNotFound, CodeMethodNotAllowed, CodeConflict, CodeInternalError,
    CodeServiceUnavailable, CodeURITooLong, CodeBodyTooLarge, CodeInvalidEmail,
    CodeInvalidUsername, CodeInvalidPassword, CodeUserExists, CodeUserNotFound,
    CodeUserDisabled, CodeAuthFailed, CodeTokenExpired, CodeTokenInvalid,
    CodeRateLimitExceeded, CodeMissingAuthHeader, CodeInvalidAuthHeader, CodeEmptyToken,
    CodeInvalidTokenType, CodeMissingChallenge, CodeInvalidChallenge, CodeMissingUserID,
    CodeSamePassword, CodeWebAuthnNoCredentials, CodeInvalidQRCode, CodeMissingQRCode,
    CodeQRCodeConflict]"

subsection \<open>Predefined errors\<close>

definition ErrInvalidRequest :: error_response where
  "ErrInvalidRequest = NewErrorResponse CodeInvalidRequest ''invalid request body''"
definition ErrUnauthorized :: error_response where
  "ErrUnauthorized = NewErrorResponse CodeUnauthorized ''unauthorized''"
definition ErrForbidden :: error_response where
  "ErrForbidden = NewErrorResponse CodeForbidden ''permission denied''"
definition ErrNotFound :: error_response where
  "ErrNotFound = NewErrorResponse CodeNotFound ''resource not found''"
definition ErrInternalError :: error_response where
  "ErrInternalError = NewErrorResponse CodeInternalError ''internal server error''"
definition ErrConflict :: error_response where
  "ErrConflict = NewErrorResponse CodeConflict ''resource conflict''"
definition ErrServiceUnavailable :: error_response where
  "ErrServiceUnavailable = NewErrorResponse CodeServiceUnavailable ''service temporarily unavailable''"
definition InvalidEmail :: "error_response" where
  "InvalidEmail = NewErrorResponse CodeInvalidEmail ''invalid email format''"
definition InvalidUsername :: "error_response" where
  "InvalidUsername = NewErrorResponse CodeInvalidUsername ''invalid username format''"
definition InvalidPassword :: "error_response" where
  "InvalidPassword = NewErrorResponse CodeInvalidPassword ''password must be a valid SHA3-256 hash''"
definition UserExists :: "error_response" where
  "UserExists = NewErrorResponse CodeUserExists ''email or username already registered''"
definition UserNotFound :: "error_response" where
  "UserNotFound = NewErrorResponse CodeUserNotFound ''user not found''"
definition UserDisabled :: "error_response" where
  "UserDisabled = NewErrorResponse CodeUserDisabled ''user is disabled''"
definition AuthFailed :: "error_response" where
  "AuthFailed = NewErrorResponse CodeAuthFailed ''invalid credentials''"
definition TokenExpired :: "error_response" where
  "TokenExpired = NewErrorResponse CodeTokenExpired ''token expired''"
definition TokenInvalid :: "error_response" where
  "TokenInvalid = NewErrorResponse CodeTokenInvalid ''invalid token''"
definition RateLimitExceeded :: "error_response" where
  "RateLimitExceeded = NewErrorResponse CodeRateLimitExceeded ''rate limit exceeded''"
definition MissingAuthHeader :: "error_response" where
  "MissingAuthHeader = NewErrorResponse CodeMissingAuthHeader ''missing authorization header''"
definition InvalidAuthHeader :: "error_response" where
  "InvalidAuthHeader = NewErrorResponse CodeInvalidAuthHeader ''invalid authorization header format''"
definition EmptyToken :: "error_response" where
  "EmptyToken = NewErrorResponse CodeEmptyToken ''empty bearer token''"
definition InvalidTokenType :: "error_response" where
  "InvalidTokenType = NewErrorResponse CodeInvalidTokenType ''invalid token type''"
definition MissingChallenge :: "string \<Rightarrow> error_response" where
  "MissingChallenge challengeType = NewErrorResponse CodeMissingChallenge (''missing '' @ challengeType @ ''_challenge'')"
definition InvalidChallenge :: "string \<Rightarrow> error_response" where
  "InvalidChallenge challengeType = NewErrorResponse CodeInvalidChallenge (''invalid '' @ challengeType @ ''_challenge'')"
definition MissingUserID :: "error_response" where
  "MissingUserID = NewErrorResponse CodeMissingUserID ''missing user id''"
definition WebAuthnNoCredentials :: "error_response" where
  "WebAuthnNoCredentials = NewErrorResponse CodeWebAuthnNoCredentials ''no webauthn credentials registered for this user''"
definition MethodNotAllowed :: "error_response" where
  "MethodNotAllowed = NewErrorResponse CodeMethodNotAllowed ''method not allowed''"
definition RouteNotFound :: "error_response" where
  "RouteNotFound = NewErrorResponse CodeRouteNotFound ''route not found''"
definition InvalidQRCode :: "error_response" where
  "InvalidQRCode = NewErrorResponse CodeInvalidQRCode ''invalid or expired qr code''"
definition MissingQRCode :: "error_response" where
  "MissingQRCode = NewErrorResponse CodeMissingQRCode ''missing qr code parameter''"
definition QRCodeConflict :: "error_response" where
  "QRCodeConflict = NewErrorResponse CodeQRCodeConflict ''qr code state conflict''"
definition URITooLong :: "error_response" where
  "URITooLong = NewErrorResponse CodeURITooLong ''request URI exceeds maximum length''"
definition BodyTooLarge :: "error_response" where
  "BodyTooLarge = NewErrorResponse CodeBodyTooLarge ''request body exceeds maximum size''"

lemmas error_values = NewErrorResponse_def ErrInvalidRequest_def ErrUnauthorized_def ErrForbidden_def ErrNotFound_def ErrInternalError_def ErrConflict_def ErrServiceUnavailable_def InvalidEmail_def InvalidUsername_def InvalidPassword_def UserExists_def UserNotFound_def UserDisabled_def AuthFailed_def TokenExpired_def TokenInvalid_def RateLimitExceeded_def MissingAuthHeader_def InvalidAuthHeader_def EmptyToken_def InvalidTokenType_def MissingChallenge_def InvalidChallenge_def MissingUserID_def WebAuthnNoCredentials_def MethodNotAllowed_def RouteNotFound_def InvalidQRCode_def MissingQRCode_def QRCodeConflict_def URITooLong_def BodyTooLarge_def

subsection \<open>HTTP responses\<close>

datatype body = NoBody | ErrorBody error_response | TextBody string

record http_response =
  hr_status :: int
  hr_headers :: "(string \<times> string) list"
  hr_body :: body

type_synonym error_ref = nat
type_synonym error_heap = "error_ref \<Rightarrow> error_response"

definition Abort ::
    "int \<Rightarrow> error_ref \<Rightarrow> error_heap \<Rightarrow> (string \<times> string) list \<Rightarrow> error_heap \<times> http_response" where
  "Abort status err heap headers =
     (let heap' = heap(err := (heap err)\<lparr>er_Status := status\<rparr>)
      in (heap', \<lparr>hr_status = status,
                  hr_headers = alist_put ''Content-Type'' ''application/json'' headers,
                  hr_body = ErrorBody (heap' err)\<rparr>))"

definition AbortBadRequest where "AbortBadRequest = Abort 400"
definition AbortUnauthorized where "AbortUnauthorized = Abort 401"
definition AbortForbidden where "AbortForbidden = Abort 403"
definition AbortNotFound where "AbortNotFound = Abort 404"
definition AbortConflict where "AbortConflict = Abort 409"
definition AbortInternalError where "AbortInternalError = Abort 500"
definition AbortServiceUnavailable where "AbortServiceUnavailable = Abort 503"

text \<open>The response of aborting with an error value held by nobody else.\<close>

definition abort_response :: "int \<Rightarrow> error_response \<Rightarrow> (string \<times> string) list \<Rightarrow> http_response" where
  "abort_response status err headers =
     \<lparr>hr_status = status, hr_headers = alist_put ''Content-Type'' ''application/json'' headers,
      hr_body = ErrorBody (err\<lparr>er_Status := status\<rparr>)\<rparr>"

lemma Abort_response: "snd (Abort status err heap headers) = abort_response status (heap err) headers"
  by (simp add: Abort_def abort_response_def Let_def)

text \<open>
  The error codes are pairwise distinct, and aborting with a predefined error answers its
  code and message with the given status in header and body; the only memory it changes is the
  status field of that error value, which stays changed for every later user of the value.
\<close>

theorem abort_answers_and_marks_error:
  "distinct all_codes \<and>
   (let (heap', resp) = Abort status err heap headers in
      hr_status resp = status \<and>
      (\<exists>e. hr_body resp = ErrorBody e \<and> er_Status e = status \<and>
         er_Code e = er_Code (heap err) \<and> er_Message e = er_Message (heap err)) \<and>
      er_Status (heap' err) = status \<and> (\<forall>r. r \<noteq> err \<longrightarrow> heap' r = heap r))"
proof
  show "distinct all_codes" by code_simp
qed (simp add: Abort_def Let_def)

theorem abort_answers_and_marks_error_witness:
  "er_Status (fst (Abort 403 1 (\<lambda>_. ErrForbidden) []) 2) = 0"
  using abort_answers_and_marks_error [of 403 1 "\<lambda>_. ErrForbidden" "[]"]
  by (simp add: split_beta ErrForbidden_def NewErrorResponse_def Let_def)

end
