(* ===== verification/GoNet.thy ===== *)
theory GoNet
  imports GoStrings
begin

text \<open>
  The functions of Go's \<^verbatim>\<open>net\<close> package that the sources use: \<^verbatim>\<open>SplitHostPort\<close>, \<^verbatim>\<open>JoinHostPort\<close>
  and the address classes of \<^verbatim>\<open>net.IP\<close>. An IP is its byte list, of length 4 or 16; the nil IP is
  an absent option.
\<close>

subsection \<open>Host and port\<close>

definition last_index :: "char \<Rightarrow> string \<Rightarrow> nat option" where
  "last_index c s =
     (if c \<in> set s then Some (length s - Suc (length (takeWhile (\<lambda>d. d \<noteq> c) (rev s)))) else None)"

text \<open>\<open>None\<close> is an error.\<close>

definition SplitHostPort :: "string \<Rightarrow> (string \<times> string) option" where
  "SplitHostPort hp =
    (case last_index CHR '':'' hp of
       None \<Rightarrow> None
     | Some i \<Rightarrow>
       (if hd hp = CHR ''['' then
          (let pre = takeWhile (\<lambda>c. c \<noteq> CHR '']'') hp; end = length pre in
           if end = length hp then None
           else if Suc end \<noteq> i then None
           else if CHR ''['' \<in> set (drop 1 hp) \<or> CHR '']'' \<in> set (drop (Suc end) hp) then None
           else Some (drop 1 pre, drop (Suc i) hp))
        else
          (let host = take i hp in
           if CHR '':'' \<in> set host then None
           else if CHR ''['' \<in> set hp \<or> CHR '']'' \<in> set hp then None
           else Some (host, drop (Suc i) hp))))"

definition JoinHostPort :: "string \<Rightarrow> string \<Rightarrow> string" where
  "JoinHostPort host port =
     (if CHR '':'' \<in> set host then ''['' @ host @ '']:'' @ port else host @ '':'' @ port)"

lemma takeWhile_until: "c \<notin> set s \<Longrightarrow> takeWhile (\<lambda>d. d \<noteq> c) (s @ c # t) = s"
  by (induction s) auto

lemma last_index_append: "c \<notin> set t \<Longrightarrow> last_index c (s @ c # t) = Some (length s)"
  by (simp add: last_index_def takeWhile_until)

lemma last_index_Some:
  assumes "last_index c s = Some i"
  shows "\<exists>u t. s = u @ c # t \<and> c \<notin> set t \<and> i = length u"
proof -
  from assms have "c \<in> set s" by (auto simp: last_index_def split: if_splits)
  then obtain u t where s: "s = u @ c # t" "c \<notin> set t" by (meson split_list_last)
  with assms last_index_append [of c t u] show ?thesis by auto
qed

lemma last_index_bracketed:
  "CHR '':'' \<notin> set port \<Longrightarrow>
    last_index CHR '':'' (CHR ''['' # host @ CHR '']'' # CHR '':'' # port) = Some (length host + 2)"
  using last_index_append [of "CHR '':''" port "CHR ''['' # host @ [CHR '']'']"] by simp

lemma SplitHostPort_JoinHostPort:
  assumes "CHR ''['' \<notin> set host" "CHR '']'' \<notin> set host"
    and "CHR '':'' \<notin> set port" "CHR ''['' \<notin> set port" "CHR '']'' \<notin> set port"
  shows "SplitHostPort (JoinHostPort host port) = Some (host, port)"
proof (cases "CHR '':'' \<in> set host")
  case True
  have tw: "takeWhile (\<lambda>c. c \<noteq> CHR '']'') (host @ CHR '']'' # CHR '':'' # port) = host"
    using assms(2) by (rule takeWhile_until)
  from True assms show ?thesis
    by (simp add: JoinHostPort_def SplitHostPort_def last_index_bracketed tw Let_def numeral_2_eq_2)
next
  case False
  with assms last_index_append [of "CHR '':''" port host] show ?thesis
    by (cases host) (auto simp: JoinHostPort_def SplitHostPort_def Let_def)
qed

lemma SplitHostPort_port:
  assumes "SplitHostPort hp = Some (host, port)"
  shows "CHR '':'' \<notin> set port" "CHR ''['' \<notin> set port" "CHR '']'' \<notin> set port"
proof -
  from assms obtain i where i: "last_index CHR '':'' hp = Some i" and p: "port = drop (Suc i) hp"
    and b: "CHR ''['' \<notin> set (drop 1 hp)" "CHR '']'' \<notin> set hp \<or>
      (\<exists>e. Suc e = i \<and> CHR '']'' \<notin> set (drop (Suc e) hp))"
    by (auto simp: SplitHostPort_def Let_def split: option.splits if_splits dest: in_set_dropD)
  from last_index_Some [OF i] obtain u t where "hp = u @ CHR '':'' # t" "CHR '':'' \<notin> set t" "i = length u"
    by auto
  with p b show "CHR '':'' \<notin> set port" "CHR ''['' \<notin> set port" "CHR '']'' \<notin> set port"
    by (cases u; auto)+
qed

subsection \<open>IP addresses\<close>

type_synonym ip = "nat list"

definition v4_in_v6 :: "nat list" where
  "v4_in_v6 = [0, 0, 0, 0, 0, 0, 0, 0, 0, 0, 255, 255]"

definition To4 :: "ip \<Rightarrow> ip option" where
  "To4 ip = (if length ip = 4 then Some ip
     else if length ip = 16 \<and> take 12 ip = v4_in_v6 then Some (drop 12 ip) else None)"

definition IPv4zero :: ip where "IPv4zero = v4_in_v6 @ [0, 0, 0, 0]"
definition IPv6unspecified :: ip where
  "IPv6unspecified = [0, 0, 0, 0, 0, 0, 0, 0, 0, 0, 0, 0, 0, 0, 0, 0]"
definition IPv6loopback :: ip where
  "IPv6loopback = [0, 0, 0, 0, 0, 0, 0, 0, 0, 0, 0, 0, 0, 0, 0, 1]"

definition IP_Equal :: "ip \<Rightarrow> ip \<Rightarrow> bool" where
  "IP_Equal a b =
    (if length a = length b then a = b
     else if length a = 4 \<and> length b = 16 then take 12 b = v4_in_v6 \<and> a = drop 12 b
     else if length a = 16 \<and> length b = 4 then take 12 a = v4_in_v6 \<and> b = drop 12 a
     else False)"

definition IsLoopback :: "ip \<Rightarrow> bool" where
  "IsLoopback ip = (case To4 ip of Some ip4 \<Rightarrow> ip4 ! 0 = 127 | None \<Rightarrow> IP_Equal ip IPv6loopback)"

definition IsPrivate :: "ip \<Rightarrow> bool" where
  "IsPrivate ip = (case To4 ip of
      Some ip4 \<Rightarrow> ip4 ! 0 = 10 \<or> ip4 ! 0 = 172 \<and> ip4 ! 1 div 16 = 1 \<or> ip4 ! 0 = 192 \<and> ip4 ! 1 = 168
    | None \<Rightarrow> length ip = 16 \<and> ip ! 0 div 2 = 126)"

definition IsLinkLocalUnicast :: "ip \<Rightarrow> bool" where
  "IsLinkLocalUnicast ip = (case To4 ip of
      Some ip4 \<Rightarrow> ip4 ! 0 = 169 \<and> ip4 ! 1 = 254
    | None \<Rightarrow> length ip = 16 \<and> ip ! 0 = 254 \<and> ip ! 1 div 64 = 2)"

definition IsLinkLocalMulticast :: "ip \<Rightarrow> bool" where
  "IsLinkLocalMulticast ip = (case To4 ip of
      Some ip4 \<Rightarrow> ip4 ! 0 = 224 \<and> ip4 ! 1 = 0 \<and> ip4 ! 2 = 0
    | None \<Rightarrow> length ip = 16 \<and> ip ! 0 = 255 \<and> ip ! 1 mod 16 = 2)"

definition IsUnspecified :: "ip \<Rightarrow> bool" where
  "IsUnspecified ip = (IP_Equal ip IPv4zero \<or> IP_Equal ip IPv6unspecified)"

text \<open>An IPv4 address and its IPv4-mapped IPv6 form are in the same classes.\<close>

definition mapped :: "ip \<Rightarrow> ip" where "mapped ip4 = v4_in_v6 @ ip4"

lemma To4_mapped [simp]: "length ip = 4 \<Longrightarrow> To4 (mapped ip) = To4 ip"
  by (simp add: To4_def mapped_def v4_in_v6_def)

lemma classes_mapped:
  assumes "length ip = 4"
  shows "IsLoopback (mapped ip) = IsLoopback ip" "IsPrivate (mapped ip) = IsPrivate ip"
    "IsLinkLocalUnicast (mapped ip) = IsLinkLocalUnicast ip"
    "IsLinkLocalMulticast (mapped ip) = IsLinkLocalMulticast ip"
    "IP_Equal (mapped ip) IPv4zero = IP_Equal ip IPv4zero"
    "IsUnspecified (mapped ip) = IsUnspecified ip"
proof -
  have t: "To4 ip = Some ip" using assms by (simp add: To4_def)
  show "IsLoopback (mapped ip) = IsLoopback ip" "IsPrivate (mapped ip) = IsPrivate ip"
    "IsLinkLocalUnicast (mapped ip) = IsLinkLocalUnicast ip"
    "IsLinkLocalMulticast (mapped ip) = IsLinkLocalMulticast ip"
    using assms t by (simp_all add: IsLoopback_def IsPrivate_def IsLinkLocalUnicast_def IsLinkLocalMulticast_def)
  show e: "IP_Equal (mapped ip) IPv4zero = IP_Equal ip IPv4zero"
    using assms by (simp add: IP_Equal_def mapped_def IPv4zero_def v4_in_v6_def)
  show "IsUnspecified (mapped ip) = IsUnspecified ip"
    using assms unfolding IsUnspecified_def e
    by (simp add: IP_Equal_def mapped_def IPv6unspecified_def v4_in_v6_def)
qed

end
