(* ===== verification/Middleware.thy ===== *)
theory Middleware
  imports Authz Errors ReqContext GoNet
begin

text \<open>
  \<^verbatim>\<open>core/internal/middleware\<close> and the middleware chain of \<^verbatim>\<open>core/internal/router/router.go\<close>. A
  middleware either answers the request itself or hands a request (with the response headers set
  so far) to the next handler. The token issuer, the role resolver and the route metadata are
  interfaces whose implementations are not in the repository, so they are parameters.
\<close>

record http_request =
  rq_Method :: string
  rq_Path :: string
  rq_RequestURI :: string
  rq_headers :: "(string \<times> string) list"   \<comment> \<open>canonical name, first value\<close>
  rq_RemoteAddr :: string
  rq_TLS :: bool
  rq_ctx :: go_ctx
  rq_max_body :: "int option"              \<comment> \<open>limit of the body reader\<close>

type_synonym headers = "(string \<times> string) list"

datatype outcome = Next http_request headers | Respond http_response

definition header_get :: "http_request \<Rightarrow> string \<Rightarrow> string" where
  "header_get r name = (case map_of (rq_headers r) name of None \<Rightarrow> '''' | Some v \<Rightarrow> v)"

subsection \<open>Authorization (\<^verbatim>\<open>authz.go\<close>)\<close>

text \<open>\<^verbatim>\<open>DBFailureMode\<close> is an \<^verbatim>\<open>int\<close>; an operator may configure any value.\<close>

type_synonym DBFailureMode = int

definition ModeServiceUnavailable :: DBFailureMode where "ModeServiceUnavailable = 0"
definition ModeDeny :: DBFailureMode where "ModeDeny = 1"
definition ModeTrustToken :: DBFailureMode where "ModeTrustToken = 2"

definition DBFailureMode_String :: "DBFailureMode \<Rightarrow> string" where
  "DBFailureMode_String m =
     (if m = ModeServiceUnavailable then ''service_unavailable''
      else if m = ModeDeny then ''deny''
      else if m = ModeTrustToken then ''trust_token''
      else ''unknown'')"

record ('e, 'a) authzMiddleware =
  mw_manager :: "('e, 'a) authz_manager"
  mw_resolver :: "(string \<Rightarrow> string \<Rightarrow> string) option"
  mw_roleResolver :: "(go_ctx \<Rightarrow> string \<Rightarrow> string + string list) option"
  mw_dbFailureMode :: DBFailureMode

definition WithRoleResolver where
  "WithRoleResolver r (mw :: ('e, 'a) authzMiddleware) = mw\<lparr>mw_roleResolver := Some r\<rparr>"

definition WithDBFailureMode where
  "WithDBFailureMode mode (mw :: ('e, 'a) authzMiddleware) = mw\<lparr>mw_dbFailureMode := mode\<rparr>"

definition sanitizePath :: "string \<Rightarrow> string \<times> bool" where
  "sanitizePath p = (if Contains p ''..'' then ('''', False) else (p, True))"

definition roleSetsEqual :: "string list \<Rightarrow> string list \<Rightarrow> bool" where
  "roleSetsEqual a b =
     (if length a \<noteq> length b then False
      else (let x = sort a; y = sort b in list_all (\<lambda>i. x ! i = y ! i) [0..<length x]))"

definition rolesMatchDB ::
    "(go_ctx \<Rightarrow> string \<Rightarrow> string + string list) \<Rightarrow> go_ctx \<Rightarrow> string \<Rightarrow> string list \<Rightarrow> string + bool" where
  "rolesMatchDB roleResolver ctx userID tokenRoles =
     and_then (roleResolver ctx userID) (\<lambda>dbRoles. Inr (roleSetsEqual tokenRoles dbRoles))"

definition enforceABAC ::
    "('a, abac_request) casbin \<Rightarrow> ('e, 'a) authz_manager \<Rightarrow> string \<Rightarrow> string \<Rightarrow> string list \<Rightarrow>
     string \<Rightarrow> string \<Rightarrow> bool" where
  "enforceABAC A m userID tenantID roles method path =
     (let sub = \<lparr>sub_ID = userID, sub_Owner = tenantID, sub_Roles = roles, sub_Attrs = []\<rparr>;
          obj = \<lparr>obj_Owner = tenantID, obj_Name = path, obj_Attrs = []\<rparr>
      in case EnforceABAC A sub tenantID method path obj m of
           Inl _ \<Rightarrow> False
         | Inr allowed \<Rightarrow> allowed)"

text \<open>
  The handler, in the order of the source: path, strict token check, RBAC, route metadata. The
  predefined errors are read from their declared values; \<^verbatim>\<open>Abort\<close> changes only their status
  field, which it overwrites before use. \<open>Authz\<close> is \<open>None\<close> when the constructor panics.
\<close>

definition token_check ::
    "('e, 'a) authzMiddleware \<Rightarrow> http_request \<Rightarrow> headers \<Rightarrow> http_response option" where
  "token_check mw r h =
    (case mw_roleResolver mw of
       None \<Rightarrow> None
     | Some rr \<Rightarrow>
         if GetUserID (rq_ctx r) = '''' then None
         else (case rolesMatchDB rr (rq_ctx r) (GetUserID (rq_ctx r)) (GetUserRoles (rq_ctx r)) of
            Inl _ \<Rightarrow>
              if mw_dbFailureMode mw = ModeServiceUnavailable
              then Some (abort_response 503 ErrServiceUnavailable h)
              else if mw_dbFailureMode mw = ModeDeny
              then Some (abort_response 403 ErrForbidden h)
              else None
          | Inr matched \<Rightarrow>
              if \<not> matched then Some (abort_response 403 ErrForbidden h) else None))"

text \<open>The route-metadata switch, after the RBAC check has allowed the request.\<close>

definition rule_type_check ::
    "('a, abac_request) casbin \<Rightarrow> ('e, 'a) authzMiddleware \<Rightarrow> http_request \<Rightarrow> string \<Rightarrow> headers \<Rightarrow> outcome" where
  "rule_type_check A mw r path h =
    (case mw_resolver mw of
       None \<Rightarrow> Next r h
     | Some resolver \<Rightarrow>
         (let rt = resolver (rq_Method r) path in
          if rt = RuleTypeRBAC \<or> rt = '''' then Next r h
          else if rt = RuleTypeABAC then
            (if \<not> enforceABAC A (mw_manager mw) (GetUserID (rq_ctx r)) (FromContext (rq_ctx r))
                   (GetUserRoles (rq_ctx r)) (rq_Method r) path
             then Respond (abort_response 403 ErrForbidden h) else Next r h)
          else if rt = RuleTypeReBAC then Next r h
          else Respond (abort_response 403 ErrForbidden h)))"

definition authz_handler ::
    "('e, string list) casbin \<Rightarrow> ('a, abac_request) casbin \<Rightarrow> ('e, 'a) authzMiddleware \<Rightarrow>
     http_request \<Rightarrow> headers \<Rightarrow> outcome" where
  "authz_handler C A mw r h =
    (let (path, ok) = sanitizePath (rq_Path r) in
     if \<not> ok then Respond (abort_response 403 ErrForbidden h)
     else (case token_check mw r h of
         Some resp \<Rightarrow> Respond resp
       | None \<Rightarrow>
           (case EnforceRBAC C (FromContext (rq_ctx r)) (GetUserID (rq_ctx r)) (GetUserRoles (rq_ctx r))
                   (rq_Method r) path ''*'' (mw_manager mw) of
              Inl _ \<Rightarrow> Respond (abort_response 500 ErrInternalError h)
            | Inr allowed \<Rightarrow>
                if \<not> allowed then Respond (abort_response 403 ErrForbidden h)
                else rule_type_check A mw r path h)))"

definition Authz where
  "Authz C A manager resolver opts =
     (case manager of
        None \<Rightarrow> None
      | Some m \<Rightarrow>
          Some (authz_handler C A (fold (\<lambda>opt mw. opt mw) opts
            \<lparr>mw_manager = m, mw_resolver = resolver, mw_roleResolver = None,
             mw_dbFailureMode = ModeServiceUnavailable\<rparr>)))"

subsection \<open>Authentication (\<^verbatim>\<open>auth.go\<close>)\<close>

record token_claims =
  tc_UserID :: string
  tc_Roles :: "string list"
  tc_TenantID :: string

datatype token_error = ErrExpiredToken | OtherTokenError string

definition BearerAuth ::
    "(go_ctx \<Rightarrow> string \<Rightarrow> token_error + token_claims) \<Rightarrow> http_request \<Rightarrow> headers \<Rightarrow> outcome" where
  "BearerAuth parseAccessToken r h =
    (let authHeader = header_get r ''Authorization'' in
     if authHeader = '''' then Respond (abort_response 401 MissingAuthHeader h)
     else
      (let parts = SplitN2 CHR '' '' authHeader in
       if length parts \<noteq> 2 \<or> \<not> EqualFold (parts ! 0) ''Bearer''
       then Respond (abort_response 401 InvalidAuthHeader h)
       else
        (let token = parts ! 1 in
         if token = '''' then Respond (abort_response 401 EmptyToken h)
         else
          (case parseAccessToken (rq_ctx r) token of
             Inl ErrExpiredToken \<Rightarrow> Respond (abort_response 401 TokenExpired h)
           | Inl _ \<Rightarrow> Respond (abort_response 401 TokenInvalid h)
           | Inr claims \<Rightarrow>
               Next (r\<lparr>rq_ctx := WithTenant (tc_TenantID claims)
                        (WithUserRoles (tc_Roles claims) (WithUserID (tc_UserID claims) (rq_ctx r)))\<rparr>) h))))"

subsection \<open>Request limits and response headers (\<^verbatim>\<open>security.go\<close>)\<close>

definition DefaultMaxRequestURI :: int where "DefaultMaxRequestURI = 8192"
definition DefaultMaxRequestBody :: int where "DefaultMaxRequestBody = 2 ^ 20"
definition PoweredByName :: string where "PoweredByName = ''QuotaGate''"

definition LimitRequestURI :: "int \<Rightarrow> http_request \<Rightarrow> headers \<Rightarrow> outcome" where
  "LimitRequestURI maxBytes r h =
     (if int (length (rq_RequestURI r)) > maxBytes then Respond (abort_response 414 URITooLong h)
      else Next r h)"

definition LimitRequestBody :: "int \<Rightarrow> http_request \<Rightarrow> headers \<Rightarrow> outcome" where
  "LimitRequestBody maxBytes r h = Next (r\<lparr>rq_max_body := Some maxBytes\<rparr>) h"

record header_config =
  hc_Name :: string
  hc_Version :: string
  hc_XContentTypeOptions :: string
  hc_XFrameOptions :: string
  hc_XXSSProtection :: string

definition HTTPHeaders :: "header_config \<Rightarrow> http_request \<Rightarrow> headers \<Rightarrow> outcome" where
  "HTTPHeaders cfg r h =
    (let h = alist_put ''Server'' (hc_Name cfg @ ''/'' @ hc_Version cfg) h;
         h = alist_put ''X-Powered-By'' (PoweredByName @ ''/'' @ hc_Version cfg) h;
         h = alist_put ''X-Content-Type-Options'' (hc_XContentTypeOptions cfg) h;
         h = alist_put ''X-Frame-Options'' (hc_XFrameOptions cfg) h;
         h = alist_put ''X-XSS-Protection'' (hc_XXSSProtection cfg) h
     in Next r h)"

subsection \<open>Request helpers (\<^verbatim>\<open>context.go\<close>)\<close>

definition ClientIP :: "http_request \<Rightarrow> string" where
  "ClientIP r =
    (let xff = header_get r ''X-Forwarded-For'' in
     if xff \<noteq> '''' then TrimSpace (Split CHR '','' xff ! 0)
     else (let xri = header_get r ''X-Real-Ip'' in
       if xri \<noteq> '''' then xri
       else (case SplitHostPort (rq_RemoteAddr r) of None \<Rightarrow> '''' | Some (host, _) \<Rightarrow> host)))"

text \<open>
  \<^verbatim>\<open>strings.ToLower\<close> changes no non-ASCII letter into one of \<^verbatim>\<open>h t p s\<close>, so ASCII lower-casing
  decides the comparisons.
\<close>

definition ascii_lower :: "string \<Rightarrow> string" where
  "ascii_lower s = map lower_ascii s"

definition RequestScheme :: "http_request \<Rightarrow> string" where
  "RequestScheme r =
    (let p = ascii_lower (header_get r ''X-Forwarded-Proto'') in
     if p = ''http'' \<or> p = ''https'' then p
     else (let p = ascii_lower (header_get r ''X-Forwarded-Scheme'') in
       if p = ''http'' \<or> p = ''https'' then p
       else if rq_TLS r then ''https'' else ''http''))"

definition WriteJSON :: "int \<Rightarrow> string \<Rightarrow> headers \<Rightarrow> http_response" where
  "WriteJSON status v h =
     \<lparr>hr_status = status, hr_headers = alist_put ''Content-Type'' ''application/json'' h, hr_body = TextBody v\<rparr>"

subsection \<open>The chain of the protected routes (\<^verbatim>\<open>router.go\<close>)\<close>

fun then_mw ::
    "(http_request \<Rightarrow> headers \<Rightarrow> outcome) \<Rightarrow> (http_request \<Rightarrow> headers \<Rightarrow> outcome) \<Rightarrow>
     http_request \<Rightarrow> headers \<Rightarrow> outcome" where
  "then_mw f g r h = (case f r h of Respond resp \<Rightarrow> Respond resp | Next r' h' \<Rightarrow> g r' h')"

definition protected_chain where
  "protected_chain parseAccessToken authz =
     then_mw (LimitRequestURI DefaultMaxRequestURI)
       (then_mw (LimitRequestBody DefaultMaxRequestBody)
         (then_mw (BearerAuth parseAccessToken) authz))"

subsection \<open>Role comparison\<close>

lemma roleSetsEqual_iff: "roleSetsEqual a b \<longleftrightarrow> mset a = mset b"
proof (cases "length a = length b")
  case True
  then have "roleSetsEqual a b \<longleftrightarrow> sort a = sort b"
    unfolding roleSetsEqual_def Let_def
    by (simp add: list_all_iff list_eq_iff_nth_eq [of "sort a"] Ball_def)
  then show ?thesis by (simp add: sorted_eq_iff_mset_eq)
next
  case False
  then have "mset a \<noteq> mset b" by (metis mset_eq_length)
  with False show ?thesis by (simp add: roleSetsEqual_def)
qed

subsection \<open>Decision of the authorization middleware\<close>

text \<open>The strict token check passes: no answer is sent before the RBAC check.\<close>

definition token_check_passes :: "('e, 'a) authzMiddleware \<Rightarrow> http_request \<Rightarrow> bool" where
  "token_check_passes mw r = (case mw_roleResolver mw of
       None \<Rightarrow> True
     | Some rr \<Rightarrow> GetUserID (rq_ctx r) = '''' \<or>
         (case rr (rq_ctx r) (GetUserID (rq_ctx r)) of
            Inl _ \<Rightarrow> mw_dbFailureMode mw \<notin> {ModeServiceUnavailable, ModeDeny}
          | Inr dbRoles \<Rightarrow> mset (GetUserRoles (rq_ctx r)) = mset dbRoles))"

definition rule_type_passes where
  "rule_type_passes A (mw :: ('e, 'a) authzMiddleware) r = (case mw_resolver mw of
       None \<Rightarrow> True
     | Some resolver \<Rightarrow>
         resolver (rq_Method r) (rq_Path r) \<in> {'''', RuleTypeRBAC, RuleTypeReBAC} \<or>
         resolver (rq_Method r) (rq_Path r) = RuleTypeABAC \<and>
         enforceABAC A (mw_manager mw) (GetUserID (rq_ctx r)) (FromContext (rq_ctx r))
           (GetUserRoles (rq_ctx r)) (rq_Method r) (rq_Path r))"

lemma rule_types_distinct:
  "distinct ['''', RuleTypeRBAC, RuleTypeABAC, RuleTypeReBAC]"
  by (simp add: RuleTypeRBAC_def RuleTypeABAC_def RuleTypeReBAC_def)

lemma modes_distinct [simp]:
  "ModeServiceUnavailable \<noteq> ModeDeny" "ModeDeny \<noteq> ModeServiceUnavailable"
  by (simp_all add: ModeServiceUnavailable_def ModeDeny_def)

lemma token_check_None: "token_check mw r h = None \<longleftrightarrow> token_check_passes mw r"
proof (cases "mw_roleResolver mw")
  case (Some rr)
  then show ?thesis
    by (cases "rr (rq_ctx r) (GetUserID (rq_ctx r))")
       (simp_all add: token_check_def token_check_passes_def rolesMatchDB_def roleSetsEqual_iff)
qed (simp add: token_check_def token_check_passes_def)

lemma token_check_status: "token_check mw r h = Some resp \<Longrightarrow> hr_status resp \<in> {403, 503}"
  by (auto simp: token_check_def abort_response_def split: option.splits sum.splits if_splits)

lemma rule_type_check_Next:
  "rule_type_check A mw r (rq_Path r) h = Next r' h' \<longleftrightarrow> r' = r \<and> h' = h \<and> rule_type_passes A mw r"
proof (cases "mw_resolver mw")
  case (Some resolver)
  with rule_types_distinct show ?thesis
    by (auto simp: rule_type_check_def rule_type_passes_def Let_def)
qed (auto simp: rule_type_check_def rule_type_passes_def)

lemma rule_type_check_status: "rule_type_check A mw r p h = Respond resp \<Longrightarrow> hr_status resp = 403"
  by (auto simp: rule_type_check_def Let_def abort_response_def split: option.splits if_splits)

lemma authz_next_iff:
  "authz_handler C A mw r h = Next r' h' \<longleftrightarrow>
      r' = r \<and> h' = h \<and> \<not> Contains (rq_Path r) ''..'' \<and> token_check_passes mw r \<and>
      Enforce C [FromContext (rq_ctx r), GetUserID (rq_ctx r), rq_Method r, rq_Path r, ''*'']
        (am_enforcer (mw_manager mw)) = Inr True \<and>
      rule_type_passes A mw r"
proof (cases "Contains (rq_Path r) ''..''")
  case False
  let ?e = "Enforce C [FromContext (rq_ctx r), GetUserID (rq_ctx r), rq_Method r, rq_Path r, ''*'']
    (am_enforcer (mw_manager mw))"
  show ?thesis
  proof (cases "token_check mw r h")
    case (Some resp)
    then have "\<not> token_check_passes mw r" using token_check_None [of mw r h] by simp
    with False Some show ?thesis by (simp add: authz_handler_def sanitizePath_def)
  next
    case None
    then have "token_check_passes mw r" using token_check_None [of mw r h] by simp
    with False None show ?thesis
      by (cases ?e) (auto simp: authz_handler_def sanitizePath_def EnforceRBAC_def rule_type_check_Next)
  qed
qed (simp add: authz_handler_def sanitizePath_def)

lemma authz_respond_status:
  "authz_handler C A mw r h = Respond resp \<Longrightarrow> hr_status resp \<in> {403, 500, 503}"
  by (auto simp: authz_handler_def sanitizePath_def abort_response_def
      split: option.splits sum.splits if_splits dest: token_check_status rule_type_check_status)

text \<open>
  C9. Complete mediation: the authorization middleware hands a request on, unchanged, exactly
  when its path has no "..", the strict token check passes, the RBAC enforcer allows the user of
  the context in the tenant of the context, and the route's rule type lets it through; every
  other request is answered with 403, 500 or 503.
\<close>

theorem authz_complete_mediation:
  "(authz_handler C A mw r h = Next r' h' \<longleftrightarrow>
      r' = r \<and> h' = h \<and> \<not> Contains (rq_Path r) ''..'' \<and> token_check_passes mw r \<and>
      Enforce C [FromContext (rq_ctx r), GetUserID (rq_ctx r), rq_Method r, rq_Path r, ''*'']
        (am_enforcer (mw_manager mw)) = Inr True \<and>
      rule_type_passes A mw r) \<and>
   (\<nexists>resp. authz_handler C A mw r h = Respond resp \<and> hr_status resp \<notin> {403, 500, 503})"
  by (auto simp: authz_next_iff dest: authz_respond_status)

text \<open>
  With the default failure mode a request whose roles cannot be read, or whose token roles
  are not the stored roles (as multisets), is never handed on; a failure mode other than the
  first two, an unknown one included, lets a request through on a failed read.
\<close>

theorem stale_token_rejected:
  assumes "mw_roleResolver mw = Some rr" "GetUserID (rq_ctx r) \<noteq> ''''"
    and "\<not> Contains (rq_Path r) ''..''"
  shows "case rr (rq_ctx r) (GetUserID (rq_ctx r)) of
      Inr dbRoles \<Rightarrow> mset (GetUserRoles (rq_ctx r)) \<noteq> mset dbRoles \<longrightarrow>
        authz_handler C A mw r h = Respond (abort_response 403 ErrForbidden h)
    | Inl err \<Rightarrow>
        (if mw_dbFailureMode mw = ModeServiceUnavailable
         then authz_handler C A mw r h = Respond (abort_response 503 ErrServiceUnavailable h)
         else if mw_dbFailureMode mw = ModeDeny
         then authz_handler C A mw r h = Respond (abort_response 403 ErrForbidden h)
         else token_check_passes mw r)"
proof (cases "rr (rq_ctx r) (GetUserID (rq_ctx r))")
  case (Inl err)
  with assms show ?thesis
    by (simp add: authz_handler_def sanitizePath_def token_check_def token_check_passes_def rolesMatchDB_def)
next
  case (Inr dbRoles)
  with assms show ?thesis
    by (simp add: authz_handler_def sanitizePath_def token_check_def rolesMatchDB_def roleSetsEqual_iff)
qed

definition demo_request :: http_request where
  "demo_request = \<lparr>rq_Method = ''GET'', rq_Path = ''/api/users'', rq_RequestURI = ''/api/users'',
     rq_headers = [(''Authorization'', ''bearer tok''), (''X-Forwarded-For'', '' 10.0.0.9 , 1.2.3.4'')],
     rq_RemoteAddr = ''[::1]:80'', rq_TLS = False,
     rq_ctx = WithTenant ''t1'' (WithUserRoles [''admin'', ''user''] (WithUserID ''alice'' Background)),
     rq_max_body = None\<rparr>"

definition ref_abac :: "(ref_enforcer, abac_request) casbin" where
  "ref_abac = \<lparr>EnableAutoSave = EnableAutoSave ref_casbin, AddGroupingPolicy = AddGroupingPolicy ref_casbin,
     RemoveGroupingPolicy = RemoveGroupingPolicy ref_casbin,
     RemoveFilteredGroupingPolicy = RemoveFilteredGroupingPolicy ref_casbin,
     LoadPolicy = LoadPolicy ref_casbin, GetPolicies = GetPolicies ref_casbin,
     AddPolicies = AddPolicies ref_casbin, AddPolicyRule = AddPolicyRule ref_casbin,
     RemovePolicyRule = RemovePolicyRule ref_casbin, HasPolicyRule = HasPolicyRule ref_casbin,
     Enforce = (\<lambda>r e. Inr True)\<rparr>"

definition demo_mw :: "(ref_enforcer, ref_enforcer) authzMiddleware" where
  "demo_mw = \<lparr>mw_manager = ref_manager, mw_resolver = None,
     mw_roleResolver = Some (\<lambda>ctx u. Inr [''user'']), mw_dbFailureMode = ModeServiceUnavailable\<rparr>"

theorem stale_token_rejected_witness:
  "authz_handler ref_casbin ref_abac demo_mw demo_request [] = Respond (abort_response 403 ErrForbidden [])"
proof -
  have "mw_roleResolver demo_mw = Some (\<lambda>ctx u. Inr [''user''])" "GetUserID (rq_ctx demo_request) \<noteq> ''''"
    "\<not> Contains (rq_Path demo_request) ''..''"
    by (simp_all add: demo_mw_def demo_request_def HasPrefix_def)
  from stale_token_rejected [OF this, of ref_casbin ref_abac "[]"] show ?thesis
    by (simp add: demo_request_def)
qed

definition empty_claims :: token_claims where
  "empty_claims = \<lparr>tc_UserID = '''', tc_Roles = [], tc_TenantID = ''''\<rparr>"

lemma BearerAuth_split:
  assumes "header_get r ''Authorization'' = scheme @ CHR '' '' # token" "CHR '' '' \<notin> set scheme"
  shows "BearerAuth parse r h =
    (if \<not> EqualFold scheme ''Bearer'' then Respond (abort_response 401 InvalidAuthHeader h)
     else if token = '''' then Respond (abort_response 401 EmptyToken h)
     else case parse (rq_ctx r) token of
        Inl e \<Rightarrow> Respond (abort_response 401 (if e = ErrExpiredToken then TokenExpired else TokenInvalid) h)
      | Inr claims \<Rightarrow> Next (r\<lparr>rq_ctx := WithTenant (tc_TenantID claims)
            (WithUserRoles (tc_Roles claims) (WithUserID (tc_UserID claims) (rq_ctx r)))\<rparr>) h)"
  using assms by (simp add: BearerAuth_def Let_def split: sum.split token_error.split)

lemma first_blank_unique:
  assumes "s @ CHR '' '' # t = s' @ CHR '' '' # t'" "CHR '' '' \<notin> set s" "CHR '' '' \<notin> set s'"
  shows "s' = s \<and> t' = t"
proof -
  have "[s, t] = [s', t']"
    using SplitN2_append [OF assms(2), of t] SplitN2_append [OF assms(3), of t']
    unfolding assms(1) by (rule trans [OF sym])
  then show ?thesis by simp
qed

lemma BearerAuth_no_blank:
  "CHR '' '' \<notin> set (header_get r ''Authorization'') \<Longrightarrow>
    \<exists>e. BearerAuth parse r h = Respond (abort_response 401 e h)"
  by (cases "header_get r ''Authorization''") (auto simp: BearerAuth_def Let_def)

lemma bearer_next_iff:
  "BearerAuth parse r h = Next r' h' \<longleftrightarrow>
     (\<exists>scheme token claims. header_get r ''Authorization'' = scheme @ '' '' @ token \<and>
        CHR '' '' \<notin> set scheme \<and> EqualFold scheme ''Bearer'' \<and> token \<noteq> '''' \<and>
        parse (rq_ctx r) token = Inr claims \<and> h' = h \<and>
        r' = r\<lparr>rq_ctx := WithTenant (tc_TenantID claims)
                  (WithUserRoles (tc_Roles claims) (WithUserID (tc_UserID claims) (rq_ctx r)))\<rparr>)"
proof (cases "CHR '' '' \<in> set (header_get r ''Authorization'')")
  case True
  then obtain scheme token where h: "header_get r ''Authorization'' = scheme @ CHR '' '' # token"
    and s: "CHR '' '' \<notin> set scheme" by (meson split_list_first)
  have ex: "(\<exists>scheme' token' claims. header_get r ''Authorization'' = scheme' @ '' '' @ token' \<and>
      CHR '' '' \<notin> set scheme' \<and> P scheme' token' claims) \<longleftrightarrow> (\<exists>claims. P scheme token claims)" for P
    using h s first_blank_unique [of scheme token] by (metis append_Cons append_Nil)
  show ?thesis
    unfolding BearerAuth_split [OF h s] ex
    by (auto split: sum.split)
next
  case False
  then have "\<nexists>scheme token. header_get r ''Authorization'' = scheme @ '' '' @ token" by auto
  moreover from BearerAuth_no_blank [OF False, of parse h] obtain e
    where "BearerAuth parse r h = Respond (abort_response 401 e h)" by blast
  ultimately show ?thesis by auto
qed

lemma bearer_respond_status: "BearerAuth parse r h = Respond resp \<Longrightarrow> hr_status resp = 401"
  by (auto simp: BearerAuth_def Let_def abort_response_def split: sum.splits token_error.splits if_splits)

text \<open>
  Authentication: the bearer middleware hands a request on exactly when its Authorization
  header is the scheme Bearer in any letter case, a blank, and a non-empty token the issuer
  accepts, and then the context carries the token's user, roles and tenant and nothing else has
  changed; any other request is answered 401.
\<close>

theorem bearer_auth_establishes_identity:
  "(BearerAuth parse r h = Next r' h' \<longleftrightarrow>
     (\<exists>scheme token claims. header_get r ''Authorization'' = scheme @ '' '' @ token \<and>
        CHR '' '' \<notin> set scheme \<and> EqualFold scheme ''Bearer'' \<and> token \<noteq> '''' \<and>
        parse (rq_ctx r) token = Inr claims \<and> h' = h \<and>
        r' = r\<lparr>rq_ctx := WithTenant (tc_TenantID claims)
                  (WithUserRoles (tc_Roles claims) (WithUserID (tc_UserID claims) (rq_ctx r)))\<rparr>)) \<and>
   (\<nexists>resp. BearerAuth parse r h = Respond resp \<and> hr_status resp \<noteq> 401)"
  by (auto simp: bearer_next_iff dest: bearer_respond_status)

text \<open>
  C10. The chain in front of the protected routes: a request that reaches a handler has a URI of
  at most 8192 bytes, a body limited to 1 MiB, the identity of a token the issuer accepted in its
  context, and was allowed by the RBAC enforcer for that token's user in that token's tenant; in
  every other case a response with an error status was sent.
\<close>

theorem protected_routes_guarded:
  assumes "protected_chain parse (authz_handler C A mw) r h = Next r' h'"
  shows "length (rq_RequestURI r) \<le> 8192 \<and> rq_max_body r' = Some (2 ^ 20) \<and>
    rq_Method r' = rq_Method r \<and> rq_Path r' = rq_Path r \<and>
    (\<exists>token claims. parse (rq_ctx r) token = Inr claims \<and>
       GetUserID (rq_ctx r') = tc_UserID claims \<and> GetUserRoles (rq_ctx r') = tc_Roles claims \<and>
       FromContext (rq_ctx r') = tc_TenantID claims \<and>
       Enforce C [tc_TenantID claims, tc_UserID claims, rq_Method r, rq_Path r, ''*'']
         (am_enforcer (mw_manager mw)) = Inr True)"
proof -
  let ?r1 = "r\<lparr>rq_max_body := Some DefaultMaxRequestBody\<rparr>"
  from assms obtain r2 h2 where uri: "int (length (rq_RequestURI r)) \<le> DefaultMaxRequestURI"
    and b: "BearerAuth parse ?r1 h = Next r2 h2" and a: "authz_handler C A mw r2 h2 = Next r' h'"
    by (auto simp: protected_chain_def LimitRequestURI_def LimitRequestBody_def split: outcome.splits if_splits)
  from a have a': "r' = r2" "Enforce C [FromContext (rq_ctx r2), GetUserID (rq_ctx r2), rq_Method r2,
      rq_Path r2, ''*''] (am_enforcer (mw_manager mw)) = Inr True"
    by (simp_all add: authz_next_iff)
  from b obtain token claims where t: "parse (rq_ctx r) token = Inr claims"
    and r2: "r2 = ?r1\<lparr>rq_ctx := WithTenant (tc_TenantID claims)
                  (WithUserRoles (tc_Roles claims) (WithUserID (tc_UserID claims) (rq_ctx r)))\<rparr>"
    unfolding bearer_next_iff by auto
  show ?thesis
    using uri a' r2 t by (intro conjI exI [of _ token] exI [of _ claims])
      (simp_all add: DefaultMaxRequestURI_def DefaultMaxRequestBody_def)
qed

definition allow_all :: "(ref_enforcer, string list) casbin" where
  "allow_all = ref_casbin\<lparr>Enforce := (\<lambda>r e. Inr True)\<rparr>"

definition one_token :: "go_ctx \<Rightarrow> string \<Rightarrow> token_error + token_claims" where
  "one_token ctx t = (if t = ''tok'' then Inr \<lparr>tc_UserID = ''alice'', tc_Roles = [''user''], tc_TenantID = ''t1''\<rparr>
     else Inl ErrExpiredToken)"

theorem protected_routes_guarded_witness:
  "\<exists>r' h'. protected_chain one_token (authz_handler allow_all ref_abac demo_mw) demo_request [] = Next r' h' \<and>
    rq_max_body r' = Some (2 ^ 20)"
proof -
  let ?r' = "demo_request\<lparr>rq_max_body := Some DefaultMaxRequestBody,
    rq_ctx := WithTenant ''t1'' (WithUserRoles [''user''] (WithUserID ''alice'' (rq_ctx demo_request)))\<rparr>"
  have bearer: "BearerAuth one_token (demo_request\<lparr>rq_max_body := Some DefaultMaxRequestBody\<rparr>) [] = Next ?r' []"
  proof -
    have "header_get (demo_request\<lparr>rq_max_body := Some DefaultMaxRequestBody\<rparr>) ''Authorization'' =
        ''bearer'' @ CHR '' '' # ''tok''" by code_simp
    moreover have "CHR '' '' \<notin> set ''bearer''" "EqualFold ''bearer'' ''Bearer''" by code_simp+
    ultimately show ?thesis unfolding bearer_next_iff
      by (intro exI [of _ "''bearer''"] exI [of _ "''tok''"]
          exI [of _ "\<lparr>tc_UserID = ''alice'', tc_Roles = [''user''], tc_TenantID = ''t1''\<rparr>"])
         (simp add: one_token_def)
  qed
  have "authz_handler allow_all ref_abac demo_mw ?r' [] = Next ?r' []"
    by (simp add: authz_next_iff token_check_passes_def demo_mw_def allow_all_def rule_type_passes_def
        demo_request_def HasPrefix_def)
  with bearer have "protected_chain one_token (authz_handler allow_all ref_abac demo_mw) demo_request [] = Next ?r' []"
    by (simp add: protected_chain_def LimitRequestURI_def LimitRequestBody_def demo_request_def
        DefaultMaxRequestURI_def)
  with protected_routes_guarded [OF this] show ?thesis by blast
qed

end
