(* ===== verification/Tenant.thy ===== *)
theory Tenant
  imports ReqContext GoStrings
begin

text \<open>
  \<^verbatim>\<open>core/internal/tenant/tenant.go\<close>: the GORM callbacks that scope every statement on a
  tenant-aware model to the tenant of its context. A statement is a record of the parts of
  \<^verbatim>\<open>gorm.Statement\<close> that the callbacks read and write. The SQL execution itself is GORM's and
  the database's; \<open>executor_law\<close> and \<open>database_law\<close> state what is relied upon: a failed statement is
  not run, a statement touches only rows its WHERE clause selects, and it changes only columns it
  assigns.
\<close>

datatype tenant_error = ErrTenantRequired | ErrTenantIDImmutable | ErrRawRequiresBypass

type_synonym row = "(string \<times> string) list"   \<comment> \<open>column name and value\<close>

text \<open>
  \<open>DStruct aware r\<close> is a struct value whose type does or does not implement \<^verbatim>\<open>TenantAware\<close>; a slice
  carries its element type's flag, and its pointer elements may be nil; an array is a destination
  of its own. (GORM refuses a nil pointer as the destination of a statement, so \<open>DNilPtr\<close> only
  reaches \<open>SafeRawScan\<close>.) A slice of maps is not modelled: the walk over a slice hands each map to
  the setter of a struct field.
\<close>

datatype dest =
    DNil
  | DStruct bool row
  | DSlice bool "row option list"
  | DArray "row option list"
  | DMap "(string \<times> string) list"
  | DPtr dest
  | DNilPtr
  | DScalar

text \<open>
  The WHERE clause is a list of conditions, each joined to the ones before it by \<^verbatim>\<open>Where\<close> (AND) or
  by \<^verbatim>\<open>Or\<close>. A condition is any predicate on the row: a comparison, a parenthesised combination, a
  subquery. \<open>st_schema\<close> has the columns of the parsed schema, \<open>st_fields\<close> the Go field name of each
  column; \<open>st_selected\<close> are the columns \<^verbatim>\<open>Select\<close> names (\<^verbatim>\<open>Save\<close> selects \<^verbatim>\<open>*\<close>).
\<close>

datatype connective = JoinAnd | JoinOr

type_synonym condition = "row \<Rightarrow> bool"

definition col_eq :: "string \<Rightarrow> string \<Rightarrow> condition" where
  "col_eq c v r \<longleftrightarrow> map_of r c = Some v"

record statement =
  st_ctx :: "go_ctx option"
  st_model_aware :: bool                  \<comment> \<open>Statement.Model implements TenantAware\<close>
  st_dest :: dest
  st_schema :: "string list option"       \<comment> \<open>columns of the parsed schema\<close>
  st_fields :: "(string \<times> string) list"   \<comment> \<open>Go field names and their columns\<close>
  st_selected :: "string list"
  st_where :: "(connective \<times> condition) list"
  st_set :: "string list list"            \<comment> \<open>columns of the SET clauses\<close>
  st_on_conflict :: "(bool \<times> string list) option"  \<comment> \<open>UpdateAll, DoUpdates columns\<close>
  st_errors :: "tenant_error list"

definition AddError :: "tenant_error \<Rightarrow> statement \<Rightarrow> statement" where
  "AddError e tx = tx\<lparr>st_errors := st_errors tx @ [e]\<rparr>"

definition tenant_column :: string where "tenant_column = ''tenant_id''"

subsection \<open>Which statements are tenant aware\<close>

definition slice_or_value_aware :: "dest \<Rightarrow> bool" where
  "slice_or_value_aware d = (case d of DSlice aware _ \<Rightarrow> aware | DStruct aware _ \<Rightarrow> aware | _ \<Rightarrow> False)"

definition isTenantAwareType :: "statement \<Rightarrow> bool" where
  "isTenantAwareType tx \<longleftrightarrow> st_model_aware tx \<or>
     (case st_dest tx of
        DNil \<Rightarrow> False
      | DPtr d \<Rightarrow> slice_or_value_aware d
      | d \<Rightarrow> slice_or_value_aware d)"

definition isTenantAwareDest :: "dest \<Rightarrow> bool" where
  "isTenantAwareDest d = (case d of
       DNil \<Rightarrow> False
     | DNilPtr \<Rightarrow> False
     | DPtr d' \<Rightarrow> slice_or_value_aware d'
     | d' \<Rightarrow> slice_or_value_aware d')"

subsection \<open>The filters\<close>

definition applyTenantFilter :: "go_ctx \<Rightarrow> statement \<Rightarrow> statement" where
  "applyTenantFilter ctx tx =
     (let tenantID = FromContext ctx in
      if tenantID \<noteq> '''' then tx\<lparr>st_where := st_where tx @ [(JoinAnd, col_eq tenant_column tenantID)]\<rparr>
      else if IsBypassed ctx then tx
      else AddError ErrTenantRequired tx)"

definition overwriteTenantID :: "string \<Rightarrow> row \<Rightarrow> row" where
  "overwriteTenantID tenantID r = alist_put tenant_column tenantID r"

text \<open>
  \<^verbatim>\<open>Statement.ReflectValue\<close> is \<^verbatim>\<open>Dest\<close> with its pointers followed; the walk changes the rows the
  destination points to. The map form is handled by the caller.
\<close>

fun setTenantIDOnCreates :: "string \<Rightarrow> dest \<Rightarrow> dest" where
  "setTenantIDOnCreates tenantID (DPtr d) = DPtr (setTenantIDOnCreates tenantID d)"
| "setTenantIDOnCreates tenantID (DSlice aware rs) =
     DSlice aware (map (map_option (overwriteTenantID tenantID)) rs)"
| "setTenantIDOnCreates tenantID (DStruct aware r) = DStruct aware (overwriteTenantID tenantID r)"
| "setTenantIDOnCreates tenantID d = d"

fun set_tenant_in_map :: "string \<Rightarrow> dest \<Rightarrow> dest" where
  "set_tenant_in_map tenantID (DMap m) = DMap (alist_put tenant_column tenantID m)"
| "set_tenant_in_map tenantID (DPtr (DMap m)) = DPtr (DMap (alist_put tenant_column tenantID m))"
| "set_tenant_in_map tenantID d = d"

definition has_tenant_column :: "statement \<Rightarrow> bool" where
  "has_tenant_column tx = (case st_schema tx of None \<Rightarrow> False | Some cols \<Rightarrow> tenant_column \<in> set cols)"

definition applyCreateTenantFilter :: "go_ctx \<Rightarrow> statement \<Rightarrow> statement" where
  "applyCreateTenantFilter ctx tx =
     (let tenantID = FromContext ctx in
      if tenantID = '''' then (if IsBypassed ctx then tx else AddError ErrTenantRequired tx)
      else if st_schema tx = None then tx
      else if \<not> has_tenant_column tx then tx
      else tx\<lparr>st_dest := set_tenant_in_map tenantID (setTenantIDOnCreates tenantID (st_dest tx))\<rparr>)"

definition applyRawTenantFilter :: "go_ctx \<Rightarrow> statement \<Rightarrow> statement" where
  "applyRawTenantFilter ctx tx =
     (if IsBypassed ctx then tx else AddError ErrRawRequiresBypass tx)"

text \<open>\<open>run\<close> is the execution of the raw query; the result is its error or value.\<close>

definition SafeRawScan :: "go_ctx \<Rightarrow> dest \<Rightarrow> (go_ctx \<Rightarrow> 'v) \<Rightarrow> tenant_error + 'v" where
  "SafeRawScan ctx dest run =
     (if isTenantAwareDest dest \<and> \<not> IsBypassed ctx then Inl ErrRawRequiresBypass
      else Inr (run ctx))"

subsection \<open>tenant_id is immutable\<close>

definition is_tenant_column :: "string \<Rightarrow> bool" where
  "is_tenant_column c = EqualFold c tenant_column"

text \<open>
  \<open>struct_sets_tenant\<close>: a struct destination (or pointer to one) with a non-zero tenant_id.
  \<open>Inl ()\<close> is the early return with the error, \<open>Inr ()\<close> goes on to the clauses.
\<close>

definition struct_sets_tenant :: "statement \<Rightarrow> row \<Rightarrow> bool" where
  "struct_sets_tenant tx r \<longleftrightarrow> has_tenant_column tx \<and>
     (case map_of r tenant_column of None \<Rightarrow> False | Some v \<Rightarrow> v \<noteq> '''')"

definition dest_sets_tenant :: "statement \<Rightarrow> bool" where
  "dest_sets_tenant tx = (case st_dest tx of
       DMap assigns \<Rightarrow> list_ex (\<lambda>(k, _). is_tenant_column k) assigns
     | DStruct _ r \<Rightarrow> struct_sets_tenant tx r
     | DPtr (DStruct _ r) \<Rightarrow> struct_sets_tenant tx r
     | _ \<Rightarrow> False)"

definition detectTenantIDMutation :: "statement \<Rightarrow> statement" where
  "detectTenantIDMutation tx =
     (if dest_sets_tenant tx then AddError ErrTenantIDImmutable tx
      else if list_ex (list_ex is_tenant_column) (st_set tx) then AddError ErrTenantIDImmutable tx
      else tx)"

definition rejectOnConflictTenantIDMutation :: "statement \<Rightarrow> statement" where
  "rejectOnConflictTenantIDMutation tx =
     (case st_on_conflict tx of
        None \<Rightarrow> tx
      | Some (updateAll, doUpdates) \<Rightarrow>
          if updateAll then AddError ErrTenantIDImmutable tx
          else if list_ex is_tenant_column doUpdates then AddError ErrTenantIDImmutable tx
          else tx)"

subsection \<open>The registered callbacks\<close>

definition scoped :: "(go_ctx \<Rightarrow> statement \<Rightarrow> statement) \<Rightarrow> statement \<Rightarrow> statement" where
  "scoped cb tx = (case st_ctx tx of
       None \<Rightarrow> tx
     | Some ctx \<Rightarrow> if \<not> isTenantAwareType tx then tx else cb ctx tx)"

definition query_callback :: "statement \<Rightarrow> statement" where
  "query_callback = scoped applyTenantFilter"

definition delete_callback :: "statement \<Rightarrow> statement" where
  "delete_callback = scoped applyTenantFilter"

definition update_callback :: "statement \<Rightarrow> statement" where
  "update_callback = scoped (\<lambda>ctx tx.
     let tx1 = detectTenantIDMutation tx in
     if st_errors tx1 \<noteq> [] then tx1 else applyTenantFilter ctx tx1)"

definition create_callback :: "statement \<Rightarrow> statement" where
  "create_callback = scoped (\<lambda>ctx tx.
     let tx1 = applyCreateTenantFilter ctx tx in
     if st_errors tx1 = [] then rejectOnConflictTenantIDMutation tx1 else tx1)"

definition raw_callback :: "statement \<Rightarrow> statement" where
  "raw_callback = scoped applyRawTenantFilter"

datatype operation = OpCreate | OpQuery | OpUpdate | OpDelete | OpRow | OpRaw

text \<open>\<open>RegisterCallback\<close>: the callback that runs before GORM's own step of each operation.\<close>

fun RegisterCallback :: "operation \<Rightarrow> statement \<Rightarrow> statement" where
  "RegisterCallback OpCreate = create_callback"
| "RegisterCallback OpQuery = query_callback"
| "RegisterCallback OpUpdate = update_callback"
| "RegisterCallback OpDelete = delete_callback"
| "RegisterCallback OpRow = raw_callback"
| "RegisterCallback OpRaw = raw_callback"

definition FilterScope :: "go_ctx \<Rightarrow> statement \<Rightarrow> statement" where
  "FilterScope ctx tx = tx\<lparr>st_ctx := Some ctx\<rparr>"

subsection \<open>Properties\<close>

text \<open>
  How a WHERE clause is read. GORM writes the conditions one after the other, the first without a
  connective, after moving the first condition that is not an \<^verbatim>\<open>Or\<close> to the front; in SQL, AND binds
  tighter than OR. So a row is selected when it satisfies all conditions of one of the groups the
  ORs separate.
\<close>

fun split_at_or :: "condition list \<Rightarrow> (connective \<times> condition) list \<Rightarrow> condition list list" where
  "split_at_or g [] = [g]"
| "split_at_or g ((JoinAnd, c) # cs) = split_at_or (g @ [c]) cs"
| "split_at_or g ((JoinOr, c) # cs) = g # split_at_or [c] cs"

definition lead_and :: "(connective \<times> condition) list \<Rightarrow> (connective \<times> condition) list" where
  "lead_and w = (case (takeWhile (\<lambda>(j, _). j = JoinOr) w, dropWhile (\<lambda>(j, _). j = JoinOr) w) of
       (o1 # ors, a # rest) \<Rightarrow> a # ors @ o1 # rest
     | _ \<Rightarrow> w)"

definition where_groups :: "(connective \<times> condition) list \<Rightarrow> condition list list" where
  "where_groups w = (case lead_and w of [] \<Rightarrow> [[]] | (_, c) # cs \<Rightarrow> split_at_or [c] cs)"

definition row_matches :: "(connective \<times> condition) list \<Rightarrow> row \<Rightarrow> bool" where
  "row_matches w r = list_ex (list_all (\<lambda>c. c r)) (where_groups w)"

lemma lead_and_simps [simp]:
  "lead_and [] = []" "lead_and ((JoinAnd, c) # w) = (JoinAnd, c) # w" "lead_and [x] = [x]"
  by (simp_all add: lead_and_def split: prod.splits)

lemma row_matches_simps [simp]:
  "row_matches [] r" "row_matches [(j, c)] r \<longleftrightarrow> c r"
  by (simp_all add: row_matches_def where_groups_def)

lemma split_at_or_nonempty [simp]: "split_at_or g cs \<noteq> []"
  by (induction g cs rule: split_at_or.induct) simp_all









definition aware_ctx :: "statement \<Rightarrow> go_ctx \<Rightarrow> bool" where
  "aware_ctx tx ctx \<longleftrightarrow> st_ctx tx = Some ctx \<and> isTenantAwareType tx"


definition select_rows :: "statement \<Rightarrow> row list \<Rightarrow> row list" where
  "select_rows tx rows = (if st_errors tx \<noteq> [] then [] else filter (row_matches (st_where tx)) rows)"


definition example_ctx :: go_ctx where
  "example_ctx = WithTenant ''t1'' (Bypass Background)"

definition example_stmt :: statement where
  "example_stmt = \<lparr>st_ctx = Some example_ctx, st_model_aware = True, st_dest = DNil,
     st_schema = Some [''id'', ''name'', ''tenant_id''],
     st_fields = [(''ID'', ''id''), (''Name'', ''name''), (''TenantID'', ''tenant_id'')],
     st_selected = [], st_where = [(JoinAnd, col_eq ''id'' ''7'')], st_set = [],
     st_on_conflict = None, st_errors = []\<rparr>"


text \<open>
  The condition on \<^verbatim>\<open>Or\<close> is needed: \<^verbatim>\<open>Where("id = ?", 7).Or("id = ?", 8)\<close> becomes
  \<^verbatim>\<open>id = 7 OR id = 8 AND tenant_id = 't1'\<close> and reads row 7 of the other tenant.
\<close>

theorem or_condition_escapes_tenant:
  "select_rows (RegisterCallback OpQuery
      (example_stmt\<lparr>st_where := [(JoinAnd, col_eq ''id'' ''7''), (JoinOr, col_eq ''id'' ''8'')]\<rparr>))
    [[(''id'', ''7''), (''tenant_id'', ''t2'')], [(''id'', ''8''), (''tenant_id'', ''t2'')],
     [(''id'', ''8''), (''tenant_id'', ''t1'')]]
   = [[(''id'', ''7''), (''tenant_id'', ''t2'')], [(''id'', ''8''), (''tenant_id'', ''t1'')]]"
  by code_simp

text \<open>
  C15. Created rows belong to the context's tenant: when the create callback of a tenant-aware
  model with a tenant_id column passes, every row of the destination carries the context's
  tenant, whatever the caller had put there; without a tenant and without bypass it fails.
\<close>

fun dest_rows :: "dest \<Rightarrow> row list" where
  "dest_rows (DStruct _ r) = [r]"
| "dest_rows (DSlice _ rs) = map the (filter (\<lambda>r. r \<noteq> None) rs)"
| "dest_rows (DArray rs) = map the (filter (\<lambda>r. r \<noteq> None) rs)"
| "dest_rows (DMap m) = [m]"
| "dest_rows (DPtr d) = dest_rows d"
| "dest_rows _ = []"






text \<open>An array is not walked: the caller's tenant is stored.\<close>

theorem array_rows_keep_caller_tenant:
  "dest_rows (st_dest (RegisterCallback OpCreate (example_stmt\<lparr>st_dest := DPtr (DArray
     [Some [(''id'', ''7''), (''tenant_id'', ''evil'')]])\<rparr>))) = [[(''id'', ''7''), (''tenant_id'', ''evil'')]] \<and>
   st_errors (RegisterCallback OpCreate (example_stmt\<lparr>st_dest := DPtr (DArray
     [Some [(''id'', ''7''), (''tenant_id'', ''evil'')]])\<rparr>)) = []"
  by code_simp

text \<open>
  What an update writes, as GORM documents it. The columns of the SET clause if there is one;
  otherwise the keys of a map, each of which may be a column or the Go name of a field, or the
  columns of a struct whose value is not zero or which \<^verbatim>\<open>Select\<close> names. Pointers are followed. An
  upsert writes the columns of \<^verbatim>\<open>DoUpdates\<close>, or every column.
\<close>

definition column_of :: "statement \<Rightarrow> string \<Rightarrow> string" where
  "column_of tx k = (if k \<in> set (case st_schema tx of None \<Rightarrow> [] | Some cols \<Rightarrow> cols) then k
     else case map_of (st_fields tx) k of Some c \<Rightarrow> c | None \<Rightarrow> k)"

definition selects :: "statement \<Rightarrow> string \<Rightarrow> bool" where
  "selects tx c = list_ex (\<lambda>k. k = ''*'' \<or> column_of tx k = c) (st_selected tx)"

fun dest_columns :: "statement \<Rightarrow> dest \<Rightarrow> string list" where
  "dest_columns tx (DMap m) = map (\<lambda>(k, _). column_of tx k) m"
| "dest_columns tx (DStruct _ r) =
     filter (\<lambda>c. selects tx c \<or> (case map_of r c of None \<Rightarrow> False | Some v \<Rightarrow> v \<noteq> ''''))
       (case st_schema tx of None \<Rightarrow> [] | Some cols \<Rightarrow> cols)"
| "dest_columns tx (DPtr d) = dest_columns tx d"
| "dest_columns tx _ = []"

definition assigned_columns :: "statement \<Rightarrow> string list" where
  "assigned_columns tx =
     (if st_set tx \<noteq> [] then concat (st_set tx) else dest_columns tx (st_dest tx))"

definition conflict_columns :: "statement \<Rightarrow> string list" where
  "conflict_columns tx = (case st_on_conflict tx of
       None \<Rightarrow> []
     | Some (True, _) \<Rightarrow> (case st_schema tx of None \<Rightarrow> [] | Some cols \<Rightarrow> cols)
     | Some (False, cols) \<Rightarrow> cols)"







lemma applyTenantFilter_keeps [simp]:
  "st_dest (applyTenantFilter ctx tx) = st_dest tx" "st_set (applyTenantFilter ctx tx) = st_set tx"
  "st_schema (applyTenantFilter ctx tx) = st_schema tx"
  "st_fields (applyTenantFilter ctx tx) = st_fields tx"
  "st_selected (applyTenantFilter ctx tx) = st_selected tx"
  by (simp_all add: applyTenantFilter_def AddError_def Let_def)

lemma dest_columns_cong:
  assumes "st_schema tx' = st_schema tx" "st_fields tx' = st_fields tx" "st_selected tx' = st_selected tx"
  shows "dest_columns tx' d = dest_columns tx d"
proof -
  have c: "column_of tx' = column_of tx" by (intro ext) (simp only: column_of_def assms)
  then have "selects tx' = selects tx" by (simp add: fun_eq_iff selects_def assms)
  with c show ?thesis by (induction d) (simp_all add: assms)
qed

lemma assigned_columns_filtered [simp]:
  "assigned_columns (applyTenantFilter ctx tx) = assigned_columns tx"
  by (simp add: assigned_columns_def dest_columns_cong [of "applyTenantFilter ctx tx" tx])





text \<open>A database for the examples.\<close>

definition written_value :: "statement \<Rightarrow> string \<Rightarrow> string" where
  "written_value tx c = (case dest_rows (st_dest tx) of
       [] \<Rightarrow> ''''
     | r # _ \<Rightarrow> (case find (\<lambda>(k, _). column_of tx k = c) r of None \<Rightarrow> '''' | Some (_, v) \<Rightarrow> v))"

definition write_columns :: "statement \<Rightarrow> string list \<Rightarrow> row \<Rightarrow> row" where
  "write_columns tx cols r = fold (\<lambda>c. alist_put c (written_value tx c)) cols r"

definition example_db :: "operation \<Rightarrow> statement \<Rightarrow> row list \<Rightarrow> row list" where
  "example_db op tx rows =
     (if st_errors tx \<noteq> [] then rows
      else if op = OpUpdate
      then map (\<lambda>r. if row_matches (st_where tx) r then write_columns tx (assigned_columns tx) r else r) rows
      else map (write_columns tx (conflict_columns tx)) rows @ dest_rows (st_dest tx))"




text \<open>
  The forms the callback does not see, each of which moves the row out of its tenant: a map key
  that is the Go name of the field, a pointer to a map, and a struct without a tenant saved with
  every column selected (\<^verbatim>\<open>Save\<close>).
\<close>

definition updated_tenant :: "dest \<Rightarrow> string list \<Rightarrow> string option" where
  "updated_tenant d sel = map_of (example_db OpUpdate (RegisterCallback OpUpdate
       (example_stmt\<lparr>st_dest := d, st_selected := sel\<rparr>))
     [[(''id'', ''7''), (''name'', ''n''), (''tenant_id'', ''t1'')]] ! 0) tenant_column"

theorem tenant_id_update_bypasses:
  "updated_tenant (DMap [(''TenantID'', ''t2'')]) [] = Some ''t2''"
  "updated_tenant (DPtr (DMap [(''tenant_id'', ''t2'')])) [] = Some ''t2''"
  "updated_tenant (DPtr (DStruct True [(''id'', ''7''), (''name'', ''x''), (''tenant_id'', '''')])) [''*''] = Some ''''"
  by code_simp+

text \<open>
  The same check rejects an update by struct of a record that was loaded with its tenant:
  saving any tenant-owned row through \<^verbatim>\<open>Updates(&row)\<close> fails, even when tenant_id keeps its value
  and even under a bypass. (\<^verbatim>\<open>WebAuthnCredentialRepository.Update\<close> is such a call.)
\<close>

theorem struct_update_of_tenant_row_rejected:
  assumes "aware_ctx tx ctx" "has_tenant_column tx" "st_dest tx = DPtr (DStruct True r)"
    and "map_of r tenant_column = Some t" "t \<noteq> ''''"
  shows "ErrTenantIDImmutable \<in> set (st_errors (RegisterCallback OpUpdate tx))"
  using assms
  by (auto simp: aware_ctx_def update_callback_def scoped_def detectTenantIDMutation_def Let_def
      AddError_def dest_sets_tenant_def struct_sets_tenant_def)

theorem struct_update_of_tenant_row_rejected_witness:
  "ErrTenantIDImmutable \<in> set (st_errors (RegisterCallback OpUpdate
     (example_stmt\<lparr>st_dest := DPtr (DStruct True [(''id'', ''7''), (''tenant_id'', ''t1'')])\<rparr>)))"
  by (rule struct_update_of_tenant_row_rejected [of _ example_ctx
        "[(''id'', ''7''), (''tenant_id'', ''t1'')]" "''t1''"])
     (simp_all add: aware_ctx_def example_stmt_def isTenantAwareType_def has_tenant_column_def tenant_column_def)

end
