(* ===== verification/Signer.thy ===== *)
theory Signer
  imports GoStrings
begin

text \<open>
  \<^verbatim>\<open>core/internal/event/signer.go\<close>: webhook signatures. The keyed hash is the parameter
  \<open>hmac alg secret content\<close> (Go's \<^verbatim>\<open>crypto/hmac\<close> over the hash the algorithm names); its only
  assumed property is that a digest is never empty. Times are Unix seconds (\<^verbatim>\<open>int64\<close>), the
  tolerance is a duration in nanoseconds.
\<close>

definition SignatureHeader :: string where "SignatureHeader = ''X-Webhook-Signature''"
definition DefaultTolerance :: duration where "DefaultTolerance = 5 * 60 * 10 ^ 9"
definition SignatureSep :: string where "SignatureSep = ''.''"

type_synonym HashAlgorithm = string

definition HashSHA256 :: HashAlgorithm where "HashSHA256 = ''sha256''"
definition HashSHA384 :: HashAlgorithm where "HashSHA384 = ''sha384''"
definition HashSHA512 :: HashAlgorithm where "HashSHA512 = ''sha512''"
definition HashSM3 :: HashAlgorithm where "HashSM3 = ''sm3''"

text \<open>The registry maps an algorithm to its header version tag; its hash is named by the algorithm.\<close>

definition algorithmRegistry :: "(HashAlgorithm \<times> string) list" where
  "algorithmRegistry = [(HashSHA256, ''v1''), (HashSHA384, ''v384''), (HashSHA512, ''v512''), (HashSM3, ''sm3'')]"

datatype signer_error = ErrInvalidSignature | ErrEmptySecret | ErrTimestampExpired
  | ErrMalformedHeader | ErrUnknownAlgorithm HashAlgorithm

record signature_result =
  sr_Timestamp :: int
  sr_Signature :: string
  sr_Header :: string

record signer =
  sg_alg :: HashAlgorithm
  sg_version :: string

definition NewSigner :: "HashAlgorithm \<Rightarrow> signer_error + signer" where
  "NewSigner alg = (case map_of algorithmRegistry alg of
     None \<Rightarrow> Inl (ErrUnknownAlgorithm alg)
   | Some version \<Rightarrow> Inr \<lparr>sg_alg = alg, sg_version = version\<rparr>)"

definition Algorithm :: "signer \<Rightarrow> HashAlgorithm" where "Algorithm s = sg_alg s"
definition Version :: "signer \<Rightarrow> string" where "Version s = sg_version s"

type_synonym hmac_fun = "HashAlgorithm \<Rightarrow> string \<Rightarrow> bytes \<Rightarrow> bytes"

definition signature_of :: "hmac_fun \<Rightarrow> signer \<Rightarrow> string \<Rightarrow> int \<Rightarrow> bytes \<Rightarrow> string" where
  "signature_of hmac s secret ts payload =
     hex_encode (hmac (sg_alg s) secret (FormatInt ts @ SignatureSep @ payload))"

definition SignPayload ::
    "hmac_fun \<Rightarrow> signer \<Rightarrow> bytes \<Rightarrow> string \<Rightarrow> int \<Rightarrow> signer_error + signature_result" where
  "SignPayload hmac s payload secret now =
     (if secret = '''' then Inl ErrEmptySecret
      else (let ts = now;
                sig = signature_of hmac s secret ts payload;
                header = ''t='' @ FormatInt ts @ '','' @ sg_version s @ ''='' @ sig
            in Inr \<lparr>sr_Timestamp = ts, sr_Signature = sig, sr_Header = header\<rparr>))"

text \<open>The loop over the header's parts; the pair is \<^verbatim>\<open>(tsStr, sigStr)\<close>.\<close>

fun header_fields :: "string \<Rightarrow> string list \<Rightarrow> string \<times> string \<Rightarrow> (string \<times> string) option" where
  "header_fields version [] acc = Some acc"
| "header_fields version (part # parts) (tsStr, sigStr) =
     (let kv = SplitN2 CHR ''='' part in
      if length kv \<noteq> 2 then None
      else if kv ! 0 = ''t'' then header_fields version parts (kv ! 1, sigStr)
      else if kv ! 0 = version then header_fields version parts (tsStr, kv ! 1)
      else header_fields version parts (tsStr, sigStr))"

definition parseSignatureHeader :: "string \<Rightarrow> string \<Rightarrow> signer_error + int \<times> string" where
  "parseSignatureHeader header version =
     (case header_fields version (Split CHR '','' header) ('''', '''') of
        None \<Rightarrow> Inl ErrMalformedHeader
      | Some (tsStr, sigStr) \<Rightarrow>
          if tsStr = '''' \<or> sigStr = '''' then Inl ErrMalformedHeader
          else (case ParseInt tsStr of
                  None \<Rightarrow> Inl ErrMalformedHeader
                | Some ts \<Rightarrow> Inr (ts, sigStr)))"

text \<open>\<open>None\<close> is a nil error. \<open>now\<close> is \<^verbatim>\<open>time.Now().Unix()\<close>.\<close>

definition timestamp_diff :: "int \<Rightarrow> int \<Rightarrow> int" where
  "timestamp_diff now ts = (let diff = wrap64 (now - ts) in if diff < 0 then wrap64 (- diff) else diff)"

definition VerifySignature ::
    "hmac_fun \<Rightarrow> signer \<Rightarrow> int \<Rightarrow> bytes \<Rightarrow> string \<Rightarrow> string \<Rightarrow> duration \<Rightarrow> signer_error option" where
  "VerifySignature hmac s now payload secret header tolerance =
     (if secret = '''' then Some ErrEmptySecret
      else if header = '''' then Some ErrInvalidSignature
      else (case parseSignatureHeader header (sg_version s) of
         Inl err \<Rightarrow> Some err
       | Inr (ts, sig) \<Rightarrow>
           if timestamp_diff now ts > go_div tolerance (10 ^ 9) then Some ErrTimestampExpired
           else if signature_of hmac s secret ts payload \<noteq> sig then Some ErrInvalidSignature
           else None))"

definition DefaultSigner :: signer where
  "DefaultSigner = (case NewSigner HashSHA256 of Inr s \<Rightarrow> s)"

subsection \<open>Lemmas\<close>

definition digest_nonempty :: "hmac_fun \<Rightarrow> bool" where
  "digest_nonempty hmac \<longleftrightarrow> (\<forall>alg k c. hmac alg k c \<noteq> [])"

definition registered :: "signer \<Rightarrow> bool" where
  "registered s \<longleftrightarrow> NewSigner (sg_alg s) = Inr s"

lemma registered_cases:
  assumes "registered s"
  obtains "s = \<lparr>sg_alg = HashSHA256, sg_version = ''v1''\<rparr>" | "s = \<lparr>sg_alg = HashSHA384, sg_version = ''v384''\<rparr>"
    | "s = \<lparr>sg_alg = HashSHA512, sg_version = ''v512''\<rparr>" | "s = \<lparr>sg_alg = HashSM3, sg_version = ''sm3''\<rparr>"
  using assms by (auto simp: registered_def NewSigner_def algorithmRegistry_def split: if_splits)

lemma hex_char_hex: "d < 16 \<Longrightarrow> hex_val (hex_char d) \<noteq> None"
  by simp

lemma hex_encode_chars: "c \<in> set (hex_encode bs) \<Longrightarrow> hex_val c \<noteq> None"
proof (induction bs)
  case (Cons b bs)
  have "byte b div 16 < 16" using byte_bound [of b] by linarith
  with Cons show ?case by (auto simp: hex_encode_def)
qed (simp add: hex_encode_def)

lemma hex_encode_no_sep: "CHR '','' \<notin> set (hex_encode bs)" "CHR ''='' \<notin> set (hex_encode bs)"
proof -
  have "hex_val CHR '','' = None" "hex_val CHR ''='' = None" by code_simp+
  then show "CHR '','' \<notin> set (hex_encode bs)" "CHR ''='' \<notin> set (hex_encode bs)"
    using hex_encode_chars by fastforce+
qed

lemma FormatInt_no_sep: "CHR '','' \<notin> set (FormatInt i)" "CHR ''='' \<notin> set (FormatInt i)" "CHR ''.'' \<notin> set (FormatInt i)"
proof -
  have "\<not> is_digit CHR '',''" "\<not> is_digit CHR ''=''" "\<not> is_digit CHR ''.''" by code_simp+
  then show "CHR '','' \<notin> set (FormatInt i)" "CHR ''='' \<notin> set (FormatInt i)" "CHR ''.'' \<notin> set (FormatInt i)"
    using FormatInt_chars by fastforce+
qed

lemma parse_signed_header:
  assumes "registered s" "in_int64 ts" "sig \<noteq> ''''" "CHR '','' \<notin> set sig"
  shows "parseSignatureHeader (''t='' @ FormatInt ts @ '','' @ sg_version s @ ''='' @ sig) (sg_version s) = Inr (ts, sig)"
proof -
  have v: "CHR '','' \<notin> set (sg_version s)" "CHR ''='' \<notin> set (sg_version s)" "sg_version s \<noteq> ''t''"
    using assms(1) by (auto elim: registered_cases)
  have split: "Split CHR '','' (''t='' @ FormatInt ts @ '','' @ sg_version s @ ''='' @ sig) =
      [''t='' @ FormatInt ts, sg_version s @ ''='' @ sig]"
    using Split_append [of "CHR '',''" "''t='' @ FormatInt ts" "sg_version s @ ''='' @ sig"]
      Split_no_sep [of "CHR '',''" "sg_version s @ ''='' @ sig"] FormatInt_no_sep(1) v assms(4) by simp
  have kv: "SplitN2 CHR ''='' (''t='' @ FormatInt ts) = [''t'', FormatInt ts]"
    "SplitN2 CHR ''='' (sg_version s @ ''='' @ sig) = [sg_version s, sig]"
    using SplitN2_append [of "CHR ''=''" "''t''" "FormatInt ts"] SplitN2_append [OF v(2), of sig] by simp_all
  show ?thesis
    unfolding parseSignatureHeader_def split using kv v(3) assms(2,3) by (simp add: Let_def)
qed

lemma timestamp_diff_abs: "in_int64 (now - ts) \<Longrightarrow> now - ts \<noteq> - (2 ^ 63) \<Longrightarrow> timestamp_diff now ts = \<bar>now - ts\<bar>"
proof -
  assume "in_int64 (now - ts)" "now - ts \<noteq> - (2 ^ 63)"
  then have "in_int64 (- (now - ts))" "wrap64 (now - ts) = now - ts" by (auto simp: in_int64_def)
  then show ?thesis by (simp add: timestamp_diff_def Let_def)
qed

lemma signed_header_verifies:
  assumes "registered s" "digest_nonempty hmac" "SignPayload hmac s payload secret ts = Inr res"
    and "in_int64 ts" "in_int64 (now - ts)" "\<bar>now - ts\<bar> \<le> go_div tolerance (10 ^ 9)"
    and "now - ts \<noteq> - (2 ^ 63)"
  shows "VerifySignature hmac s now payload secret (sr_Header res) tolerance = None"
proof -
  from assms(3) have res: "secret \<noteq> ''''" "sr_Header res = ''t='' @ FormatInt ts @ '','' @ sg_version s @ ''='' @
      signature_of hmac s secret ts payload"
    by (auto simp: SignPayload_def Let_def split: if_splits)
  have sig: "signature_of hmac s secret ts payload \<noteq> ''''" "CHR '','' \<notin> set (signature_of hmac s secret ts payload)"
  proof -
    have "hmac (sg_alg s) secret (FormatInt ts @ SignatureSep @ payload) \<noteq> []"
      using assms(2) unfolding digest_nonempty_def by blast
    then have "length (signature_of hmac s secret ts payload) > 0" by (simp add: signature_of_def)
    then show "signature_of hmac s secret ts payload \<noteq> ''''" by simp
    show "CHR '','' \<notin> set (signature_of hmac s secret ts payload)"
      by (simp add: signature_of_def hex_encode_no_sep(1))
  qed
  have p: "parseSignatureHeader (sr_Header res) (sg_version s) = Inr (ts, signature_of hmac s secret ts payload)"
    unfolding res(2) by (rule parse_signed_header [OF assms(1,4) sig])
  have "sr_Header res \<noteq> ''''" by (simp add: res(2))
  with p res(1) assms(6) timestamp_diff_abs [OF assms(5,7)] show ?thesis
    by (simp add: VerifySignature_def)
qed

subsection \<open>Properties\<close>

text \<open>
  C13. A signature the sender makes is accepted by the receiver with the same secret and payload
  as long as the receiver's clock is within the tolerance of the signing time.
\<close>

theorem sign_verify_roundtrip:
  assumes "registered s" "digest_nonempty hmac" "SignPayload hmac s payload secret ts = Inr res"
    and "in_int64 ts" "in_int64 (now - ts)" "\<bar>now - ts\<bar> \<le> go_div tolerance (10 ^ 9)"
    and "now - ts \<noteq> - (2 ^ 63)"
  shows "VerifySignature hmac s now payload secret (sr_Header res) tolerance = None"
  using assms by (rule signed_header_verifies)

definition toy_hmac :: hmac_fun where
  "toy_hmac alg k c = alg @ k @ c"

lemma toy_hmac_nonempty: "digest_nonempty (\<lambda>alg k c. CHR ''m'' # toy_hmac alg k c)"
  by (simp add: digest_nonempty_def)

theorem sign_verify_roundtrip_witness:
  "VerifySignature (\<lambda>alg k c. CHR ''m'' # toy_hmac alg k c) DefaultSigner 1700000100 ''body'' ''key''
     (sr_Header (case SignPayload (\<lambda>alg k c. CHR ''m'' # toy_hmac alg k c) DefaultSigner ''body'' ''key'' 1700000000 of
        Inr res \<Rightarrow> res)) DefaultTolerance = None"
proof -
  have "registered DefaultSigner" by code_simp
  moreover have "\<exists>res. SignPayload (\<lambda>alg k c. CHR ''m'' # toy_hmac alg k c) DefaultSigner ''body'' ''key'' 1700000000 = Inr res"
    by (simp add: SignPayload_def Let_def)
  ultimately show ?thesis
    using sign_verify_roundtrip [OF _ toy_hmac_nonempty, of DefaultSigner "''body''" "''key''" 1700000000 _ 1700000100 DefaultTolerance]
    by (auto simp: in_int64_def DefaultTolerance_def go_div_def)
qed

text \<open>
  C14. What acceptance means: the secret is not empty, the header holds a timestamp and a
  signature that is the keyed hash of that timestamp, the separator and the payload, and the
  timestamp is within the tolerance of the clock when their difference fits in an int64.
\<close>

theorem verified_signature_is_fresh_and_authentic:
  assumes "VerifySignature hmac s now payload secret header tolerance = None"
  shows "secret \<noteq> '''' \<and> (\<exists>ts. parseSignatureHeader header (sg_version s) =
      Inr (ts, hex_encode (hmac (sg_alg s) secret (FormatInt ts @ ''.'' @ payload))) \<and>
      (in_int64 (now - ts) \<and> now - ts \<noteq> - (2 ^ 63) \<longrightarrow> \<bar>now - ts\<bar> \<le> go_div tolerance (10 ^ 9)))"
proof -
  from assms obtain ts sig where "secret \<noteq> ''''" "parseSignatureHeader header (sg_version s) = Inr (ts, sig)"
    "timestamp_diff now ts \<le> go_div tolerance (10 ^ 9)" "signature_of hmac s secret ts payload = sig"
    by (auto simp: VerifySignature_def split: if_splits sum.splits)
  with timestamp_diff_abs [of now ts] show ?thesis
    by (auto simp: signature_of_def SignatureSep_def)
qed

theorem verified_signature_is_fresh_and_authentic_witness:
  "\<exists>ts. parseSignatureHeader ''t=7,v1=6d7368613235366b372e62'' ''v1'' =
      Inr (ts, hex_encode (CHR ''m'' # toy_hmac ''sha256'' ''k'' (FormatInt ts @ ''.'' @ ''b'')))"
proof -
  have "VerifySignature (\<lambda>alg k c. CHR ''m'' # toy_hmac alg k c) \<lparr>sg_alg = ''sha256'', sg_version = ''v1''\<rparr> 9 ''b'' ''k''
     ''t=7,v1=6d7368613235366b372e62'' DefaultTolerance = None" by code_simp
  from verified_signature_is_fresh_and_authentic [OF this] show ?thesis by auto
qed

text \<open>
  The freshness check is not total: a timestamp exactly \<open>2 ^ 63\<close> seconds before the clock
  makes the difference the least int64, whose negation is itself, so it passes any non-negative
  tolerance although it is far outside.
\<close>

theorem timestamp_overflow_is_fresh:
  assumes "0 \<le> now" "now < 2 ^ 63" "0 \<le> tolerance"
  shows "in_int64 (now - 2 ^ 63) \<and> timestamp_diff now (now - 2 ^ 63) = - (2 ^ 63) \<and>
    timestamp_diff now (now - 2 ^ 63) \<le> go_div tolerance (10 ^ 9)"
  using assms by (simp add: timestamp_diff_def Let_def wrap64_def in_int64_def go_div_nonneg)

theorem timestamp_overflow_is_fresh_witness:
  "timestamp_diff 1700000000 (1700000000 - 2 ^ 63) \<le> go_div DefaultTolerance (10 ^ 9)"
  using timestamp_overflow_is_fresh [of 1700000000 DefaultTolerance] by (simp add: DefaultTolerance_def)

end
