(* ===== verification/Ssrf.thy ===== *)
theory Ssrf
  imports GoNet
begin

text \<open>
  \<^verbatim>\<open>kex-utils/pkg/kexssrf/ssrf.go\<close>: the outbound request policy. URL parsing (\<open>parse_url\<close>), IP
  parsing and printing (\<open>parseIP\<close>, \<open>ipString\<close>) and name resolution (\<open>lookup\<close>) are parameters; a
  dial is the address it is asked to connect to.
\<close>

record ssrf_policy =
  pl_AllowedSchemes :: "string list"
  pl_MaxRedirects :: int
  pl_AllowPrivate :: bool
  pl_AllowLoopback :: bool
  pl_AllowLinkLocal :: bool
  pl_DialTimeout :: duration

record parsed_url =
  pu_Scheme :: string
  pu_Host :: string
  pu_Hostname :: string

datatype ssrf_error =
    InvalidURL string
  | SchemeMissing
  | UnsupportedScheme string
  | HostMissing
  | BlockedIP ip
  | InvalidAddress string
  | ResolveFailed string
  | NoAddresses string
  | ErrUseLastResponse

definition DefaultPolicy :: ssrf_policy where
  "DefaultPolicy = \<lparr>pl_AllowedSchemes = [''http'', ''https''], pl_MaxRedirects = 10,
     pl_AllowPrivate = False, pl_AllowLoopback = False, pl_AllowLinkLocal = False,
     pl_DialTimeout = 10 * 10 ^ 9\<rparr>"

definition isAllowedScheme :: "ssrf_policy \<Rightarrow> string \<Rightarrow> bool" where
  "isAllowedScheme p scheme =
     (let schemes = pl_AllowedSchemes p;
          schemes = (if length schemes = 0 then [''http'', ''https''] else schemes)
      in list_ex (\<lambda>s. EqualFold s scheme) schemes)"

definition isBlockedIP :: "ssrf_policy \<Rightarrow> ip option \<Rightarrow> bool" where
  "isBlockedIP p oip = (case oip of
     None \<Rightarrow> False
   | Some ip \<Rightarrow>
       if \<not> pl_AllowLoopback p \<and> IsLoopback ip then True
       else if \<not> pl_AllowLinkLocal p \<and> (IsLinkLocalUnicast ip \<or> IsLinkLocalMulticast ip) then True
       else if \<not> pl_AllowPrivate p \<and> IsPrivate ip then True
       else if IP_Equal ip IPv4zero then True
       else if IsUnspecified ip then True
       else False)"

definition ValidateURL ::
    "(string \<Rightarrow> string + parsed_url) \<Rightarrow> (string \<Rightarrow> ip option) \<Rightarrow> ssrf_policy \<Rightarrow> string \<Rightarrow> ssrf_error option" where
  "ValidateURL parse_url parseIP p rawURL =
    (case parse_url rawURL of
       Inl err \<Rightarrow> Some (InvalidURL err)
     | Inr u \<Rightarrow>
         if pu_Scheme u = '''' then Some SchemeMissing
         else if \<not> isAllowedScheme p (pu_Scheme u) then Some (UnsupportedScheme (pu_Scheme u))
         else if pu_Host u = '''' then Some HostMissing
         else (case parseIP (pu_Hostname u) of
             None \<Rightarrow> None
           | Some ip \<Rightarrow> if isBlockedIP p (Some ip) then Some (BlockedIP ip) else None))"

text \<open>\<open>via\<close> is the number of requests already made; \<open>None\<close> as URL is a nil pointer.\<close>

definition CheckRedirect ::
    "(string \<Rightarrow> ip option) \<Rightarrow> ssrf_policy \<Rightarrow> parsed_url option \<Rightarrow> nat \<Rightarrow> ssrf_error option" where
  "CheckRedirect parseIP p url via =
    (let max = (if pl_MaxRedirects p \<le> 0 then 10 else pl_MaxRedirects p) in
     if int via \<ge> max then Some ErrUseLastResponse
     else (case url of
         None \<Rightarrow> Some ErrUseLastResponse
       | Some u \<Rightarrow>
           if \<not> isAllowedScheme p (pu_Scheme u) then Some ErrUseLastResponse
           else (case parseIP (pu_Hostname u) of
               None \<Rightarrow> None
             | Some ip \<Rightarrow> if isBlockedIP p (Some ip) then Some ErrUseLastResponse else None)))"

record net_funs =
  nf_parseIP :: "string \<Rightarrow> ip option"
  nf_ipString :: "ip \<Rightarrow> string"
  nf_lookup :: "string \<Rightarrow> string + ip list"

definition DialContext :: "net_funs \<Rightarrow> ssrf_policy \<Rightarrow> string \<Rightarrow> ssrf_error + string" where
  "DialContext N p addr =
    (case SplitHostPort addr of
       None \<Rightarrow> Inl (InvalidAddress addr)
     | Some (host, port) \<Rightarrow>
        (case nf_parseIP N host of
           Some ip \<Rightarrow> if isBlockedIP p (Some ip) then Inl (BlockedIP ip) else Inr addr
         | None \<Rightarrow>
            (case nf_lookup N host of
               Inl err \<Rightarrow> Inl (ResolveFailed err)
             | Inr ips \<Rightarrow>
                 if length ips = 0 then Inl (NoAddresses host)
                 else (case find (\<lambda>ip. isBlockedIP p (Some ip)) ips of
                     Some ip \<Rightarrow> Inl (BlockedIP ip)
                   | None \<Rightarrow> Inr (JoinHostPort (nf_ipString N (hd ips)) port)))))"

definition DialTimeout :: "ssrf_policy \<Rightarrow> duration" where
  "DialTimeout p = (if pl_DialTimeout p \<le> 0 then 10 * 10 ^ 9 else pl_DialTimeout p)"

text \<open>A client's dial policy and redirect policy are fixed when it is built.\<close>

record http_client =
  hc_dial_policy :: "ssrf_policy option"     \<comment> \<open>\<open>None\<close>: a transport of the caller's\<close>
  hc_redirect_policy :: "ssrf_policy option"
  hc_Timeout :: duration

definition NewHTTPTransport :: "ssrf_policy \<Rightarrow> ssrf_policy option" where
  "NewHTTPTransport p = Some p"

definition NewHTTPClient :: "ssrf_policy \<Rightarrow> duration \<Rightarrow> http_client" where
  "NewHTTPClient p timeout = \<lparr>hc_dial_policy = NewHTTPTransport p, hc_redirect_policy = Some p, hc_Timeout = timeout\<rparr>"

subsection \<open>Properties\<close>

lemma isBlockedIP_iff:
  "isBlockedIP p (Some ip) \<longleftrightarrow> \<not> pl_AllowLoopback p \<and> IsLoopback ip \<or>
     \<not> pl_AllowLinkLocal p \<and> (IsLinkLocalUnicast ip \<or> IsLinkLocalMulticast ip) \<or>
     \<not> pl_AllowPrivate p \<and> IsPrivate ip \<or> IP_Equal ip IPv4zero \<or> IsUnspecified ip"
  by (simp add: isBlockedIP_def)

text \<open>
  What is relied upon of the \<^verbatim>\<open>net\<close> package. The resolver gives addresses of 4 or 16 bytes. The
  text of such an address, without a bracket, parses to an address \<^verbatim>\<open>Equal\<close> to it: \<^verbatim>\<open>ParseIP\<close>
  returns the 16-byte form, also of an address that had 4, and an IPv4-mapped one prints as IPv4.
\<close>

definition is_address :: "ip \<Rightarrow> bool" where
  "is_address ip \<longleftrightarrow> (length ip = 4 \<or> length ip = 16) \<and> list_all (\<lambda>b. b < 256) ip"

definition ip_text_law :: "net_funs \<Rightarrow> bool" where
  "ip_text_law N \<longleftrightarrow>
     (\<forall>host ips. nf_lookup N host = Inr ips \<longrightarrow> list_all is_address ips) \<and>
     (\<forall>ip. is_address ip \<longrightarrow>
        (\<exists>ip'. nf_parseIP N (nf_ipString N ip) = Some ip' \<and> IP_Equal ip ip') \<and>
        CHR ''['' \<notin> set (nf_ipString N ip) \<and> CHR '']'' \<notin> set (nf_ipString N ip))"

text \<open>Equal addresses are blocked alike, in whichever form they come.\<close>

lemma IP_Equal_forms:
  assumes "is_address a" "IP_Equal a b"
  shows "b = a \<or> length a = 4 \<and> b = mapped a \<or> length b = 4 \<and> a = mapped b"
proof -
  have "take 12 x = v4_in_v6 \<Longrightarrow> x = mapped (drop 12 x)" for x
    unfolding mapped_def by (metis append_take_drop_id)
  with assms show ?thesis by (auto simp: is_address_def IP_Equal_def split: if_splits)
qed

lemma isBlockedIP_mapped: "length ip = 4 \<Longrightarrow> isBlockedIP p (Some (mapped ip)) = isBlockedIP p (Some ip)"
  by (simp add: isBlockedIP_iff classes_mapped)

lemma isBlockedIP_Equal: "is_address a \<Longrightarrow> IP_Equal a b \<Longrightarrow> isBlockedIP p (Some b) = isBlockedIP p (Some a)"
  using IP_Equal_forms [of a b] isBlockedIP_mapped [of a p] isBlockedIP_mapped [of b p] by auto

text \<open>
  C11. No connection to a blocked address: whenever the dialer connects, the host of the address
  it connects to is a literal IP that the policy does not block, so a name that resolves to any
  blocked address is refused, and what was checked is what is dialled: the given literal, or the
  text of the first resolved address.
\<close>

theorem dial_only_unblocked_ip:
  assumes "ip_text_law N" "DialContext N p addr = Inr target"
  shows "(\<exists>host port ip. SplitHostPort target = Some (host, port) \<and> nf_parseIP N host = Some ip \<and>
      \<not> isBlockedIP p (Some ip)) \<and>
    (target = addr \<or> (\<exists>host port ips. SplitHostPort addr = Some (host, port) \<and> nf_lookup N host = Inr ips \<and>
       list_all (\<lambda>ip. \<not> isBlockedIP p (Some ip)) ips \<and>
       SplitHostPort target = Some (nf_ipString N (hd ips), port)))"
proof -
  from assms(2) obtain host port where sp: "SplitHostPort addr = Some (host, port)"
    by (auto simp: DialContext_def split: option.splits)
  show ?thesis
  proof (cases "nf_parseIP N host")
    case (Some ip)
    with assms(2) sp show ?thesis by (auto simp: DialContext_def split: if_splits)
  next
    case None
    with assms(2) sp obtain ips where lookup: "nf_lookup N host = Inr ips"
      and ips: "ips \<noteq> []" "find (\<lambda>ip. isBlockedIP p (Some ip)) ips = None"
      and t: "target = JoinHostPort (nf_ipString N (hd ips)) port"
      by (auto simp: DialContext_def split: sum.splits option.splits if_splits)
    have free: "list_all (\<lambda>ip. \<not> isBlockedIP p (Some ip)) ips" using ips(2) by (simp add: find_None_iff list_all_iff)
    have a: "is_address (hd ips)" using assms(1) lookup ips(1) by (fastforce simp: ip_text_law_def list_all_iff)
    then obtain ip' where ip': "nf_parseIP N (nf_ipString N (hd ips)) = Some ip'" "IP_Equal (hd ips) ip'"
      and b: "CHR ''['' \<notin> set (nf_ipString N (hd ips))" "CHR '']'' \<notin> set (nf_ipString N (hd ips))"
      using assms(1) unfolding ip_text_law_def by blast
    have s: "SplitHostPort target = Some (nf_ipString N (hd ips), port)"
      unfolding t using b SplitHostPort_port [OF sp] by (intro SplitHostPort_JoinHostPort)
    have "\<not> isBlockedIP p (Some ip')"
      using isBlockedIP_Equal [OF a ip'(2)] free ips(1) by (simp add: list_all_iff)
    with s ip'(1) sp lookup free show ?thesis by blast
  qed
qed

text \<open>Addresses printed as dot-separated decimal bytes, for the witness.\<close>

definition demo_print :: "ip \<Rightarrow> string" where
  "demo_print ip = concat (map (\<lambda>b. replicate b CHR ''1'' @ ''.'') ip)"

fun demo_parse :: "nat \<Rightarrow> string \<Rightarrow> ip option" where
  "demo_parse n [] = (if n = 0 then Some [] else None)"
| "demo_parse n (c # s) =
     (if c = CHR ''1'' then demo_parse (Suc n) s
      else if c = CHR ''.'' then map_option (\<lambda>ip. n # ip) (demo_parse 0 s) else None)"

lemma demo_parse_run: "demo_parse n (replicate b CHR ''1'' @ ''.'' @ s) = map_option (\<lambda>ip. (n + b) # ip) (demo_parse 0 s)"
  by (induction b arbitrary: n) auto

lemma demo_print_simps: "demo_print [] = ''''" "demo_print (b # ip) = replicate b CHR ''1'' @ ''.'' @ demo_print ip"
  by (simp_all add: demo_print_def)

lemma demo_roundtrip: "demo_parse 0 (demo_print ip) = Some ip"
proof (induction ip)
  case (Cons b ip)
  then show ?case unfolding demo_print_simps demo_parse_run by simp
qed (simp add: demo_print_simps)

definition demo_net :: net_funs where
  "demo_net = \<lparr>nf_parseIP = demo_parse 0, nf_ipString = demo_print,
     nf_lookup = (\<lambda>h. if h = ''good'' then Inr [[9, 9, 9, 9]] else Inr [[9, 9, 9, 9], [127, 0, 0, 1]])\<rparr>"

lemma demo_law: "ip_text_law demo_net"
proof -
  have "CHR ''['' \<notin> set (demo_print ip) \<and> CHR '']'' \<notin> set (demo_print ip)" for ip
    by (auto simp: demo_print_def)
  moreover have "IP_Equal ip ip" for ip by (simp add: IP_Equal_def)
  ultimately show ?thesis by (simp add: ip_text_law_def demo_net_def demo_roundtrip is_address_def)
qed

theorem dial_only_unblocked_ip_witness:
  "(\<exists>t. DialContext demo_net DefaultPolicy ''good:443'' = Inr t \<and>
      (\<exists>host port ip. SplitHostPort t = Some (host, port) \<and> nf_parseIP demo_net host = Some ip \<and>
         \<not> isBlockedIP DefaultPolicy (Some ip))) \<and>
   DialContext demo_net DefaultPolicy ''evil:443'' = Inl (BlockedIP [127, 0, 0, 1])"
proof
  obtain t where "DialContext demo_net DefaultPolicy ''good:443'' = Inr t"
    by (cases "DialContext demo_net DefaultPolicy ''good:443''")
       (simp add: DialContext_def demo_net_def SplitHostPort_def last_index_def isBlockedIP_iff DefaultPolicy_def
          IsLoopback_def To4_def IsPrivate_def IsLinkLocalUnicast_def IsLinkLocalMulticast_def IP_Equal_def
          IPv4zero_def v4_in_v6_def IsUnspecified_def IPv6unspecified_def, blast)
  with dial_only_unblocked_ip [OF demo_law this]
  show "\<exists>t. DialContext demo_net DefaultPolicy ''good:443'' = Inr t \<and>
      (\<exists>host port ip. SplitHostPort t = Some (host, port) \<and> nf_parseIP demo_net host = Some ip \<and>
         \<not> isBlockedIP DefaultPolicy (Some ip))" by blast
  show "DialContext demo_net DefaultPolicy ''evil:443'' = Inl (BlockedIP [127, 0, 0, 1])"
    by (simp add: DialContext_def demo_net_def SplitHostPort_def last_index_def isBlockedIP_iff DefaultPolicy_def
          IsLoopback_def To4_def IsPrivate_def IsLinkLocalUnicast_def IsLinkLocalMulticast_def IP_Equal_def
          IPv4zero_def v4_in_v6_def IsUnspecified_def IPv6unspecified_def)
qed

text \<open>
  The address classes the default policy blocks, for a four-byte address a.b.c.d: 127/8,
  10/8, 172.16/12, 192.168/16, 169.254/16, 224.0.0/24 and 0.0.0.0, and the IPv4-mapped IPv6 form
  of an address is blocked exactly when the address is, under every policy.
\<close>

theorem blocked_ipv4_ranges:
  "(isBlockedIP DefaultPolicy (Some [a, b, c, d]) \<longleftrightarrow>
      a = 127 \<or> a = 10 \<or> a = 172 \<and> b div 16 = 1 \<or> a = 192 \<and> b = 168 \<or> a = 169 \<and> b = 254 \<or>
      a = 224 \<and> b = 0 \<and> c = 0 \<or> a = 0 \<and> b = 0 \<and> c = 0 \<and> d = 0) \<and>
   isBlockedIP p (Some (mapped [a, b, c, d])) = isBlockedIP p (Some [a, b, c, d])"
proof
  have "To4 [a, b, c, d] = Some [a, b, c, d]" by (simp add: To4_def)
  then show "isBlockedIP DefaultPolicy (Some [a, b, c, d]) \<longleftrightarrow>
      a = 127 \<or> a = 10 \<or> a = 172 \<and> b div 16 = 1 \<or> a = 192 \<and> b = 168 \<or> a = 169 \<and> b = 254 \<or>
      a = 224 \<and> b = 0 \<and> c = 0 \<or> a = 0 \<and> b = 0 \<and> c = 0 \<and> d = 0"
    by (auto simp: isBlockedIP_iff DefaultPolicy_def IsLoopback_def IsPrivate_def IsLinkLocalUnicast_def
        IsLinkLocalMulticast_def IsUnspecified_def IP_Equal_def IPv4zero_def IPv6unspecified_def v4_in_v6_def)
qed (simp add: isBlockedIP_iff classes_mapped)

text \<open>
  The URL check admits exactly the parsable URLs with an allowed scheme (in any letter case)
  and a host that is not a blocked literal address, and a redirect is followed only to such a
  target and at most MaxRedirects (by default ten) times.
\<close>

theorem url_checks_agree:
  "(ValidateURL parse_url parseIP p raw = None \<longleftrightarrow>
      (\<exists>u. parse_url raw = Inr u \<and> pu_Scheme u \<noteq> '''' \<and> pu_Host u \<noteq> '''' \<and> isAllowedScheme p (pu_Scheme u) \<and>
         \<not> isBlockedIP p (parseIP (pu_Hostname u)))) \<and>
   (CheckRedirect parseIP p url via = None \<longleftrightarrow>
      int via < (if pl_MaxRedirects p \<le> 0 then 10 else pl_MaxRedirects p) \<and>
      (\<exists>u. url = Some u \<and> isAllowedScheme p (pu_Scheme u) \<and> \<not> isBlockedIP p (parseIP (pu_Hostname u))))"
proof
  have n: "\<not> isBlockedIP p None" by (simp add: isBlockedIP_def)
  show "ValidateURL parse_url parseIP p raw = None \<longleftrightarrow>
      (\<exists>u. parse_url raw = Inr u \<and> pu_Scheme u \<noteq> '''' \<and> pu_Host u \<noteq> '''' \<and> isAllowedScheme p (pu_Scheme u) \<and>
         \<not> isBlockedIP p (parseIP (pu_Hostname u)))"
    using n by (auto simp: ValidateURL_def split: sum.splits option.splits)
  show "CheckRedirect parseIP p url via = None \<longleftrightarrow>
      int via < (if pl_MaxRedirects p \<le> 0 then 10 else pl_MaxRedirects p) \<and>
      (\<exists>u. url = Some u \<and> isAllowedScheme p (pu_Scheme u) \<and> \<not> isBlockedIP p (parseIP (pu_Hostname u)))"
    using n by (auto simp: CheckRedirect_def Let_def split: option.splits)
qed

end
