(* ===== verification/Dispatcher.thy ===== *)
theory Dispatcher
  imports Events Signer Ssrf
begin

text \<open>
  \<^verbatim>\<open>core/internal/event/dispatcher.go\<close>: webhook delivery over HTTP with retries. The outside world
  is a state \<open>'w\<close> with an interface record \<open>net_env\<close>: the clock, the context's error, the
  timer, the random source, JSON encoding, request creation and the HTTP client. A simulation
  state pairs it with the requests that were sent and the results reported to the result
  handler, so that theorems can speak of them.
\<close>

datatype DispatchErrorCode = ErrCodeNone | ErrCodeMarshal | ErrCodeSign | ErrCodeRequest
  | ErrCodeReadBody | ErrCodeContextCancelled | ErrCodePayloadTooLarge | ErrCodeEventValidation

record dispatch_result =
  dr_Success :: bool
  dr_StatusCode :: int
  dr_ResponseBody :: string
  dr_DurationMs :: int
  dr_Error :: string
  dr_ErrorCode :: DispatchErrorCode
  dr_Attempts :: int
  dr_rawRetryAfter :: string

type_synonym BackoffFunc = "nat \<Rightarrow> dispatch_result \<Rightarrow> duration"

record dispatcher =
  dp_client :: "http_client option"
  dp_signer :: signer
  dp_userAgent :: string
  dp_defaultHeaders :: "(string \<times> string) list"
  dp_backoffFunc :: "BackoffFunc option"
  dp_onResult :: bool                     \<comment> \<open>a result handler is set\<close>
  dp_maxRespBodySize :: int
  dp_maxPayloadSize :: int
  dp_ssrfPolicy :: ssrf_policy
  dp_defaultSecret :: string
  dp_defaultTimeout :: duration

definition maxBackoff :: duration where "maxBackoff = 30 * 10 ^ 9"
definition defaultUserAgent :: string where "defaultUserAgent = ''Quotagate-Webhook/1.0''"
definition defaultMaxRespBodySize :: int where "defaultMaxRespBodySize = 2 ^ 20"
definition defaultMaxPayloadSize :: int where "defaultMaxPayloadSize = 2 ^ 20"
definition maxEventIDLen :: nat where "maxEventIDLen = 256"
definition maxEventSourceLen :: nat where "maxEventSourceLen = 512"
definition maxEventSubjectLen :: nat where "maxEventSubjectLen = 512"

subsection \<open>Options and construction\<close>

definition WithHTTPClient :: "http_client option \<Rightarrow> dispatcher \<Rightarrow> dispatcher" where
  "WithHTTPClient client d =
     d\<lparr>dp_client := map_option (\<lambda>c. c\<lparr>hc_redirect_policy := Some (dp_ssrfPolicy d)\<rparr>) client\<rparr>"

definition WithUserAgent :: "string \<Rightarrow> dispatcher \<Rightarrow> dispatcher" where
  "WithUserAgent userAgent d = d\<lparr>dp_userAgent := userAgent\<rparr>"

definition WithDefaultHeader :: "string \<Rightarrow> string \<Rightarrow> dispatcher \<Rightarrow> dispatcher" where
  "WithDefaultHeader key value d = d\<lparr>dp_defaultHeaders := alist_put key value (dp_defaultHeaders d)\<rparr>"

definition WithBackoffFunc :: "BackoffFunc option \<Rightarrow> dispatcher \<Rightarrow> dispatcher" where
  "WithBackoffFunc fn d = d\<lparr>dp_backoffFunc := fn\<rparr>"

definition WithOnResult :: "bool \<Rightarrow> dispatcher \<Rightarrow> dispatcher" where
  "WithOnResult handler d = d\<lparr>dp_onResult := handler\<rparr>"

definition WithMaxRespBodySize :: "int \<Rightarrow> dispatcher \<Rightarrow> dispatcher" where
  "WithMaxRespBodySize n d = d\<lparr>dp_maxRespBodySize := n\<rparr>"

definition WithMaxPayloadSize :: "int \<Rightarrow> dispatcher \<Rightarrow> dispatcher" where
  "WithMaxPayloadSize n d = d\<lparr>dp_maxPayloadSize := n\<rparr>"

definition WithSecret :: "string \<Rightarrow> dispatcher \<Rightarrow> dispatcher" where
  "WithSecret secret d = d\<lparr>dp_defaultSecret := secret\<rparr>"

definition WithTimeout :: "duration \<Rightarrow> dispatcher \<Rightarrow> dispatcher" where
  "WithTimeout timeout d = d\<lparr>dp_defaultTimeout := timeout\<rparr>"

definition WithSSRFPolicy :: "ssrf_policy \<Rightarrow> dispatcher \<Rightarrow> dispatcher" where
  "WithSSRFPolicy policy d =
     d\<lparr>dp_ssrfPolicy := policy,
       dp_client := map_option (\<lambda>c. c\<lparr>hc_redirect_policy := Some policy\<rparr>) (dp_client d)\<rparr>"

definition NewDispatcherWithSigner ::
    "duration \<Rightarrow> signer \<Rightarrow> (dispatcher \<Rightarrow> dispatcher) list \<Rightarrow> dispatcher" where
  "NewDispatcherWithSigner timeout s opts =
    (let policy = DefaultPolicy;
         d = \<lparr>dp_client = Some (NewHTTPClient policy timeout), dp_signer = s,
              dp_userAgent = defaultUserAgent, dp_defaultHeaders = [], dp_backoffFunc = None,
              dp_onResult = False, dp_maxRespBodySize = defaultMaxRespBodySize,
              dp_maxPayloadSize = defaultMaxPayloadSize, dp_ssrfPolicy = policy,
              dp_defaultSecret = '''', dp_defaultTimeout = 0\<rparr>;
         d = fold (\<lambda>opt d. opt d) opts d;
         d = (if dp_client d = None then d\<lparr>dp_client := Some (NewHTTPClient policy timeout)\<rparr> else d);
         d = (if dp_maxRespBodySize d \<le> 0 then d\<lparr>dp_maxRespBodySize := defaultMaxRespBodySize\<rparr> else d);
         d = (if dp_maxPayloadSize d \<le> 0 then d\<lparr>dp_maxPayloadSize := defaultMaxPayloadSize\<rparr> else d)
     in d)"

definition NewDispatcher :: "duration \<Rightarrow> (dispatcher \<Rightarrow> dispatcher) list \<Rightarrow> dispatcher" where
  "NewDispatcher timeout opts = NewDispatcherWithSigner timeout DefaultSigner opts"

subsection \<open>The world\<close>

record http_reply =
  hp_StatusCode :: int
  hp_RetryAfter :: string
  hp_read :: "int \<Rightarrow> string + bytes"     \<comment> \<open>reading at most that many bytes of the body\<close>

record out_request =
  or_url :: string
  or_headers :: "(string \<times> string) list"
  or_body :: bytes
  or_timeout :: duration                 \<comment> \<open>0: no deadline of its own\<close>

text \<open>
  \<open>ne_do\<close> is one call of \<^verbatim>\<open>http.Client.Do\<close>: the request it is given, and whatever redirects the client
  then follows, up to the reply the caller sees. The client asks \<^verbatim>\<open>CheckRedirect\<close> (\<open>Ssrf.CheckRedirect\<close>,
  under \<open>hc_redirect_policy\<close>) before each of them and dials through \<open>hc_dial_policy\<close>; the requests
  counted and described here are those the dispatcher makes.
\<close>

record 'w net_env =
  ne_now :: "'w \<Rightarrow> int"                  \<comment> \<open>nanoseconds\<close>
  ne_ctx_err :: "'w \<Rightarrow> string option"
  ne_sleep :: "duration \<Rightarrow> 'w \<Rightarrow> 'w"     \<comment> \<open>until the timer or the context fires\<close>
  ne_Int63n :: "int \<Rightarrow> 'w \<Rightarrow> int \<times> 'w"
  ne_marshal :: "event \<Rightarrow> string + bytes"
  ne_new_request :: "string \<Rightarrow> string option"
  ne_do :: "http_client \<Rightarrow> out_request \<Rightarrow> 'w \<Rightarrow> (string + http_reply) \<times> 'w"
  ne_parse_url :: "string \<Rightarrow> string + parsed_url"
  ne_parseIP :: "string \<Rightarrow> ip option"
  ne_parse_time :: "string \<Rightarrow> int option"
  ne_hmac :: hmac_fun
  ne_key_order :: "string list \<Rightarrow> string list"
  ne_ssrf_text :: "ssrf_error \<Rightarrow> string"

record 'w sim =
  sim_w :: 'w
  sim_sent :: "out_request list"
  sim_reported :: "(dispatch_result \<times> nat) list"

subsection \<open>Backoff\<close>

definition shl64 :: "nat \<Rightarrow> int" where
  "shl64 n = (if n < 64 then wrap64 (2 ^ n) else 0)"

text \<open>\<^verbatim>\<open>rand.Int63n\<close> panics unless its argument is positive.\<close>

definition backoff_base :: "nat \<Rightarrow> duration" where
  "backoff_base attempt =
    (let base = wrap64 (shl64 attempt * 10 ^ 9) in if base > maxBackoff then maxBackoff else base)"

definition defaultBackoff :: "'w net_env \<Rightarrow> nat \<Rightarrow> 'w sim \<Rightarrow> duration run \<times> 'w sim" where
  "defaultBackoff E attempt s =
    (let base = backoff_base attempt in
     if base \<le> 0 then (Panics ''invalid argument to Int63n'', s)
     else (case ne_Int63n E base (sim_w s) of (jitter, w) \<Rightarrow> (Returns jitter, s\<lparr>sim_w := w\<rparr>)))"

definition computeBackoff ::
    "'w net_env \<Rightarrow> dispatcher \<Rightarrow> nat \<Rightarrow> dispatch_result \<Rightarrow> 'w sim \<Rightarrow> duration run \<times> 'w sim" where
  "computeBackoff E d attempt result s =
    (case dp_backoffFunc d of
       Some fn \<Rightarrow> (Returns (fn attempt result), s)
     | None \<Rightarrow> defaultBackoff E attempt s)"

subsection \<open>One delivery\<close>

text \<open>Canonical header names: the first letter and every letter after a hyphen in upper case.\<close>

definition clear_bit5 :: "char \<Rightarrow> char" where
  "clear_bit5 c = (case c of Char b0 b1 b2 b3 b4 b5 b6 b7 \<Rightarrow> Char b0 b1 b2 b3 b4 False b6 b7)"

fun canonical :: "bool \<Rightarrow> string \<Rightarrow> string" where
  "canonical up [] = []"
| "canonical up (c # s) =
     (if up \<and> is_lower_ascii c then clear_bit5 c
      else if \<not> up \<and> is_upper_ascii c then set_bit5 c else c) # canonical (c = CHR ''-'') s"

definition is_token_char :: "char \<Rightarrow> bool" where
  "is_token_char c \<longleftrightarrow> is_upper_ascii c \<or> is_lower_ascii c \<or> is_digit c \<or> c \<in> set ''!#$%&*+-.^_|~'' \<or>
     byte c \<in> {39, 96}"

definition header_key :: "string \<Rightarrow> string" where
  "header_key k = (if list_all is_token_char k then canonical True k else k)"

definition hdr_get :: "(string \<times> string) list \<Rightarrow> string \<Rightarrow> string" where
  "hdr_get h k = (case map_of h (header_key k) of None \<Rightarrow> '''' | Some v \<Rightarrow> v)"

definition hdr_set :: "string \<Rightarrow> string \<Rightarrow> (string \<times> string) list \<Rightarrow> (string \<times> string) list" where
  "hdr_set k v h = alist_put (header_key k) v h"

definition default_headers :: "'w net_env \<Rightarrow> dispatcher \<Rightarrow> (string \<times> string) list \<Rightarrow> (string \<times> string) list" where
  "default_headers E d h = fold (\<lambda>k h. if hdr_get h k = ''''
      then hdr_set k (the (map_of (dp_defaultHeaders d) k)) h else h)
    (ne_key_order E (map fst (dp_defaultHeaders d))) h"

definition elapsed_ms :: "'w net_env \<Rightarrow> int \<Rightarrow> 'w sim \<Rightarrow> int" where
  "elapsed_ms E start s = go_div (ne_now E (sim_w s) - start) (10 ^ 6)"

definition failed :: "'w net_env \<Rightarrow> int \<Rightarrow> 'w sim \<Rightarrow> int \<Rightarrow> string \<Rightarrow> DispatchErrorCode \<Rightarrow> dispatch_result" where
  "failed E start s status msg code =
     \<lparr>dr_Success = False, dr_StatusCode = status, dr_ResponseBody = '''',
      dr_DurationMs = elapsed_ms E start s, dr_Error = ''quotagate/event: '' @ msg, dr_ErrorCode = code,
      dr_Attempts = 0, dr_rawRetryAfter = ''''\<rparr>"

text \<open>The checks before a request is built; \<open>Inl\<close> is the result returned without any request.\<close>

definition pre_checks ::
    "'w net_env \<Rightarrow> dispatcher \<Rightarrow> int \<Rightarrow> event \<Rightarrow> string \<Rightarrow> 'w sim \<Rightarrow> dispatch_result + bytes" where
  "pre_checks E d start evt url s =
    (case ValidateURL (ne_parse_url E) (ne_parseIP E) (dp_ssrfPolicy d) url of
       Some err \<Rightarrow> Inl (failed E start s 0 (ne_ssrf_text E err) ErrCodeRequest)
     | None \<Rightarrow>
       if length (evt_ID evt) > maxEventIDLen
       then Inl (failed E start s 0 ''event ID exceeds max length (256)'' ErrCodeEventValidation)
       else if length (evt_Source evt) > maxEventSourceLen
       then Inl (failed E start s 0 ''event Source exceeds max length (512)'' ErrCodeEventValidation)
       else if length (evt_Subject evt) > maxEventSubjectLen
       then Inl (failed E start s 0 ''event Subject exceeds max length (512)'' ErrCodeEventValidation)
       else (case ne_marshal E evt of
          Inl err \<Rightarrow> Inl (failed E start s 0 (''failed to marshal event: '' @ err) ErrCodeMarshal)
        | Inr payload \<Rightarrow>
            if int (length payload) > dp_maxPayloadSize d
            then Inl (failed E start s 0 (''payload size '' @ FormatInt (int (length payload)) @
                   '' exceeds max '' @ FormatInt (dp_maxPayloadSize d)) ErrCodePayloadTooLarge)
            else Inr payload))"

text \<open>The secret a delivery signs with.\<close>

definition effective_secret :: "dispatcher \<Rightarrow> string \<Rightarrow> string" where
  "effective_secret d secret = (if secret = '''' then dp_defaultSecret d else secret)"

definition build_request ::
    "'w net_env \<Rightarrow> dispatcher \<Rightarrow> int \<Rightarrow> event \<Rightarrow> string \<Rightarrow> string \<Rightarrow> duration \<Rightarrow> bytes \<Rightarrow> 'w sim \<Rightarrow>
     dispatch_result + out_request" where
  "build_request E d start evt url secret timeout payload s =
    (let secret = effective_secret d secret;
         timeout = (if timeout \<le> 0 then dp_defaultTimeout d else timeout) in
     case ne_new_request E url of
       Some err \<Rightarrow> Inl (failed E start s 0 (''failed to create request: '' @ err) ErrCodeRequest)
     | None \<Rightarrow>
        (let h = hdr_set ''Content-Type'' ''application/json'' [];
             h = hdr_set ''User-Agent'' (dp_userAgent d) h;
             h = default_headers E d h;
             h = hdr_set ''X-Idempotency-Key'' (evt_ID evt) h;
             deadline = (if timeout > 0 then timeout else 0) in
         if secret = '''' then Inr \<lparr>or_url = url, or_headers = h, or_body = payload, or_timeout = deadline\<rparr>
         else (case SignPayload (ne_hmac E) (dp_signer d) payload secret (ne_now E (sim_w s) div 10 ^ 9) of
             Inl err \<Rightarrow> Inl (failed E start s 0 ''failed to sign payload'' ErrCodeSign)
           | Inr sr \<Rightarrow> Inr \<lparr>or_url = url, or_headers = hdr_set SignatureHeader (sr_Header sr) h,
               or_body = payload, or_timeout = deadline\<rparr>)))"

definition read_reply ::
    "'w net_env \<Rightarrow> dispatcher \<Rightarrow> int \<Rightarrow> http_reply \<Rightarrow> 'w sim \<Rightarrow> dispatch_result" where
  "read_reply E d start resp s =
    (case hp_read resp (dp_maxRespBodySize d) of
       Inl err \<Rightarrow> failed E start s (hp_StatusCode resp) (''failed to read response body: '' @ err) ErrCodeReadBody
     | Inr body \<Rightarrow>
         \<lparr>dr_Success = (hp_StatusCode resp \<ge> 200 \<and> hp_StatusCode resp < 300),
          dr_StatusCode = hp_StatusCode resp, dr_ResponseBody = body,
          dr_DurationMs = elapsed_ms E start s, dr_Error = '''', dr_ErrorCode = ErrCodeNone,
          dr_Attempts = 0, dr_rawRetryAfter = hp_RetryAfter resp\<rparr>)"

definition Dispatch ::
    "'w net_env \<Rightarrow> dispatcher \<Rightarrow> event \<Rightarrow> string \<Rightarrow> string \<Rightarrow> duration \<Rightarrow> 'w sim \<Rightarrow> dispatch_result \<times> 'w sim" where
  "Dispatch E d evt url secret timeout s =
    (let start = ne_now E (sim_w s) in
     case pre_checks E d start evt url s of
       Inl res \<Rightarrow> (res, s)
     | Inr payload \<Rightarrow>
        (case build_request E d start evt url secret timeout payload s of
           Inl res \<Rightarrow> (res, s)
         | Inr req \<Rightarrow>
            (case ne_do E (the (dp_client d)) req (sim_w s) of
               (reply, w) \<Rightarrow>
                 (let s = s\<lparr>sim_w := w, sim_sent := sim_sent s @ [req]\<rparr> in
                  case reply of
                    Inl err \<Rightarrow>
                      (failed E start s 0 (''request failed: '' @ err)
                         (if ne_ctx_err E w \<noteq> None then ErrCodeContextCancelled else ErrCodeRequest), s)
                  | Inr resp \<Rightarrow> (read_reply E d start resp s, s)))))"

subsection \<open>Retries\<close>

definition invokeOnResult :: "dispatcher \<Rightarrow> dispatch_result \<Rightarrow> nat \<Rightarrow> 'w sim \<Rightarrow> 'w sim" where
  "invokeOnResult d result attempt s =
     (if \<not> dp_onResult d then s else s\<lparr>sim_reported := sim_reported s @ [(result, attempt)]\<rparr>)"

definition isRetryable :: "dispatch_result \<Rightarrow> bool" where
  "isRetryable result =
     (if dr_Success result then False
      else if dr_StatusCode result = 429 then True
      else if dr_StatusCode result \<ge> 400 \<and> dr_StatusCode result < 500 then False
      else True)"

text \<open>\<^verbatim>\<open>time.Time.Sub\<close> saturates.\<close>

definition time_sub :: "int \<Rightarrow> int \<Rightarrow> int" where
  "time_sub t now = max (- (2 ^ 63)) (min (2 ^ 63 - 1) (t - now))"

definition parseRetryAfter :: "(string \<Rightarrow> int option) \<Rightarrow> string \<Rightarrow> int \<Rightarrow> duration" where
  "parseRetryAfter parse_time header now =
     (if header = '''' then 0
      else (case ParseInt header of
          Some seconds \<Rightarrow> if seconds > 0 then wrap64 (seconds * 10 ^ 9) else 0
        | None \<Rightarrow>
            (case parse_time header of
               Some t \<Rightarrow> (let d = time_sub t now in if d > 0 then d else 0)
             | None \<Rightarrow> 0)))"

definition cancelled_result :: "string \<Rightarrow> int \<Rightarrow> dispatch_result" where
  "cancelled_result msg attempts =
     \<lparr>dr_Success = False, dr_StatusCode = 0, dr_ResponseBody = '''', dr_DurationMs = 0,
      dr_Error = msg, dr_ErrorCode = ErrCodeContextCancelled, dr_Attempts = attempts, dr_rawRetryAfter = ''''\<rparr>"

text \<open>One pass of the loop body: the delivery with its attempt number, and the reasons to return.\<close>

definition attempt_once ::
    "'w net_env \<Rightarrow> dispatcher \<Rightarrow> event \<Rightarrow> string \<Rightarrow> string \<Rightarrow> duration \<Rightarrow> nat \<Rightarrow> 'w sim \<Rightarrow>
     dispatch_result \<times> 'w sim" where
  "attempt_once E d evt url secret timeout attempt s =
     (let (result, s) = Dispatch E d evt url secret timeout s;
          result = result\<lparr>dr_Attempts := int attempt + 1\<rparr>
      in (result, invokeOnResult d result (attempt + 1) s))"

definition must_return :: "'w net_env \<Rightarrow> dispatch_result \<Rightarrow> 'w sim \<Rightarrow> bool" where
  "must_return E result s =
     (if dr_Success result then True
      else if dr_ErrorCode result = ErrCodeContextCancelled \<and> ne_ctx_err E (sim_w s) \<noteq> None then True
      else if \<not> isRetryable result then True
      else False)"

text \<open>The wait before the next attempt: the computed backoff, or Retry-After on a 429.\<close>

definition wait_backoff ::
    "'w net_env \<Rightarrow> dispatcher \<Rightarrow> nat \<Rightarrow> dispatch_result \<Rightarrow> 'w sim \<Rightarrow> duration run \<times> 'w sim" where
  "wait_backoff E d attempt result s =
     (case computeBackoff E d attempt result s of
        (Panics p, s) \<Rightarrow> (Panics p, s)
      | (Returns backoff, s) \<Rightarrow>
          (let ra = (if dr_StatusCode result = 429
                     then parseRetryAfter (ne_parse_time E) (dr_rawRetryAfter result) (ne_now E (sim_w s))
                     else 0);
               backoff = (if ra > 0 then ra else backoff)
           in (Returns backoff, s\<lparr>sim_w := ne_sleep E backoff (sim_w s)\<rparr>)))"

text \<open>The loop \<open>for attempt := 0; attempt <= maxRetries\<close>; \<open>left\<close> is \<open>maxRetries - attempt\<close>.\<close>

fun retry_loop ::
    "'w net_env \<Rightarrow> dispatcher \<Rightarrow> event \<Rightarrow> string \<Rightarrow> string \<Rightarrow> duration \<Rightarrow> nat \<Rightarrow> nat \<Rightarrow> 'w sim \<Rightarrow>
     dispatch_result run \<times> 'w sim" where
  "retry_loop E d evt url secret timeout left attempt s =
    (case ne_ctx_err E (sim_w s) of
       Some err \<Rightarrow>
         (Returns (cancelled_result (''quotagate/event: context cancelled before attempt '' @
            FormatInt (int attempt + 1) @ '': '' @ err) (int attempt)), s)
     | None \<Rightarrow>
        (let (result, s) = attempt_once E d evt url secret timeout attempt s in
         if must_return E result s then (Returns result, s)
         else (case left of
             0 \<Rightarrow> (Returns result, s)
           | Suc left' \<Rightarrow>
              (case wait_backoff E d attempt result s of
                 (Panics p, s) \<Rightarrow> (Panics p, s)
               | (Returns backoff, s) \<Rightarrow>
                  (case ne_ctx_err E (sim_w s) of
                     Some err \<Rightarrow>
                       (Returns (cancelled_result (''quotagate/event: context cancelled during retry backoff: '' @ err)
                          (int attempt + 1)), s)
                   | None \<Rightarrow> retry_loop E d evt url secret timeout left' (attempt + 1) s)))))"

declare retry_loop.simps [simp del]

definition DispatchWithRetry ::
    "'w net_env \<Rightarrow> dispatcher \<Rightarrow> event \<Rightarrow> string \<Rightarrow> string \<Rightarrow> duration \<Rightarrow> int \<Rightarrow> 'w sim \<Rightarrow>
     dispatch_result run \<times> 'w sim" where
  "DispatchWithRetry E d evt url secret timeout maxRetries s =
     (let maxRetries = (if maxRetries < 0 then 0 else maxRetries)
      in retry_loop E d evt url secret timeout (nat maxRetries) 0 s)"

subsection \<open>What is sent\<close>

text \<open>What every request of a delivery satisfies.\<close>

definition request_checked :: "'w net_env \<Rightarrow> dispatcher \<Rightarrow> event \<Rightarrow> string \<Rightarrow> out_request \<Rightarrow> bool" where
  "request_checked E d evt url q \<longleftrightarrow> or_url q = url \<and>
     ValidateURL (ne_parse_url E) (ne_parseIP E) (dp_ssrfPolicy d) url = None \<and>
     length (evt_ID evt) \<le> 256 \<and> length (evt_Source evt) \<le> 512 \<and> length (evt_Subject evt) \<le> 512 \<and>
     ne_marshal E evt = Inr (or_body q) \<and> int (length (or_body q)) \<le> dp_maxPayloadSize d"

text \<open>The states of the world a delivery goes through: it sends, sleeps and draws random numbers.\<close>

inductive env_reaches :: "'w net_env \<Rightarrow> 'w \<Rightarrow> 'w \<Rightarrow> bool" for E where
  here: "env_reaches E w w"
| sent: "env_reaches E w v \<Longrightarrow> env_reaches E w (snd (ne_do E c q v))"
| slept: "env_reaches E w v \<Longrightarrow> env_reaches E w (ne_sleep E t v)"
| drew: "env_reaches E w v \<Longrightarrow> env_reaches E w (snd (ne_Int63n E n v))"

lemma env_reaches_trans: "env_reaches E v w \<Longrightarrow> env_reaches E u v \<Longrightarrow> env_reaches E u w"
  by (induction rule: env_reaches.induct) (auto intro: env_reaches.intros)

text \<open>The signature header of a request, made at the clock of the world \<open>w\<close>.\<close>

definition request_signed :: "'w net_env \<Rightarrow> dispatcher \<Rightarrow> string \<Rightarrow> 'w \<Rightarrow> out_request \<Rightarrow> bool" where
  "request_signed E d secret w q \<longleftrightarrow> effective_secret d secret = '''' \<or>
     (\<exists>sr. SignPayload (ne_hmac E) (dp_signer d) (or_body q) (effective_secret d secret)
          (ne_now E w div 10 ^ 9) = Inr sr \<and>
        map_of (or_headers q) SignatureHeader = Some (sr_Header sr))"

lemma header_key_signature: "header_key SignatureHeader = SignatureHeader"
  by code_simp

lemma pre_checks_Inr:
  "pre_checks E d start evt url s = Inr payload \<Longrightarrow>
    ValidateURL (ne_parse_url E) (ne_parseIP E) (dp_ssrfPolicy d) url = None \<and>
    length (evt_ID evt) \<le> 256 \<and> length (evt_Source evt) \<le> 512 \<and> length (evt_Subject evt) \<le> 512 \<and>
    ne_marshal E evt = Inr payload \<and> int (length payload) \<le> dp_maxPayloadSize d"
  by (simp add: pre_checks_def maxEventIDLen_def maxEventSourceLen_def maxEventSubjectLen_def
      split: option.splits if_splits sum.splits)

lemma build_request_Inr:
  assumes "build_request E d start evt url secret timeout payload s = Inr q"
  shows "or_url q = url \<and> or_body q = payload \<and> request_signed E d secret (sim_w s) q"
proof (cases "effective_secret d secret = ''''")
  case True
  with assms show ?thesis
    by (cases "ne_new_request E url") (auto simp: build_request_def Let_def request_signed_def)
next
  case False
  let ?sp = "SignPayload (ne_hmac E) (dp_signer d) payload (effective_secret d secret) (ne_now E (sim_w s) div 10 ^ 9)"
  from assms False obtain sr h where sr: "?sp = Inr sr" and q: "or_url q = url" "or_body q = payload"
    "or_headers q = hdr_set SignatureHeader (sr_Header sr) h"
    by (cases "ne_new_request E url"; cases ?sp) (auto simp: build_request_def Let_def)
  then have "request_signed E d secret (sim_w s) q"
    unfolding request_signed_def using header_key_signature
    by (intro disjI2 exI [of _ sr]) (simp add: hdr_set_def)
  with q show ?thesis by simp
qed

text \<open>Requests of a delivery that takes the world from \<open>w0\<close> to \<open>w1\<close>.\<close>

definition sends :: "'w net_env \<Rightarrow> dispatcher \<Rightarrow> event \<Rightarrow> string \<Rightarrow> string \<Rightarrow> 'w \<Rightarrow> 'w \<Rightarrow> out_request list \<Rightarrow> bool" where
  "sends E d evt url secret w0 w1 qs \<longleftrightarrow> env_reaches E w0 w1 \<and>
     (\<forall>q\<in>set qs. request_checked E d evt url q \<and>
        (\<exists>w. env_reaches E w0 w \<and> env_reaches E w w1 \<and> request_signed E d secret w q))"

lemma sends_none: "sends E d evt url secret w0 w1 [] \<longleftrightarrow> env_reaches E w0 w1"
  by (simp add: sends_def)

lemma sends_append:
  assumes "sends E d evt url secret w0 w1 qs" "sends E d evt url secret w1 w2 rs"
  shows "sends E d evt url secret w0 w2 (qs @ rs)"
proof -
  have r: "env_reaches E w0 w1" "env_reaches E w1 w2" using assms by (simp_all add: sends_def)
  have "request_checked E d evt url q \<and>
      (\<exists>w. env_reaches E w0 w \<and> env_reaches E w w2 \<and> request_signed E d secret w q)"
    if "q \<in> set (qs @ rs)" for q
  proof (cases "q \<in> set qs")
    case True
    with assms(1) r(2) show ?thesis unfolding sends_def by (meson env_reaches_trans)
  next
    case False
    with that have "q \<in> set rs" by simp
    with assms(2) r(1) show ?thesis unfolding sends_def by (meson env_reaches_trans)
  qed
  with env_reaches_trans [OF r(2,1)] show ?thesis unfolding sends_def by blast
qed

lemma Dispatch_sends:
  assumes "Dispatch E d evt url secret timeout s = (result, s')"
  shows "\<exists>qs. sim_sent s' = sim_sent s @ qs \<and> length qs \<le> 1 \<and>
    sends E d evt url secret (sim_w s) (sim_w s') qs"
proof (cases "pre_checks E d (ne_now E (sim_w s)) evt url s")
  case (Inl res)
  with assms show ?thesis by (auto simp: Dispatch_def sends_none env_reaches.here)
next
  case (Inr payload)
  note pre = pre_checks_Inr [OF this]
  show ?thesis
  proof (cases "build_request E d (ne_now E (sim_w s)) evt url secret timeout payload s")
    case (Inl res)
    with assms Inr show ?thesis by (auto simp: Dispatch_def sends_none env_reaches.here)
  next
    case (Inr q)
    obtain reply w where do: "ne_do E (the (dp_client d)) q (sim_w s) = (reply, w)" by fastforce
    have "sim_sent s' = sim_sent s @ [q]" and w: "sim_w s' = w"
      using assms \<open>pre_checks E d (ne_now E (sim_w s)) evt url s = Inr payload\<close> Inr do
      by (cases reply; auto simp: Dispatch_def Let_def)+
    moreover have "env_reaches E (sim_w s) w"
      using env_reaches.sent [OF env_reaches.here, of E "sim_w s" "the (dp_client d)" q] by (simp add: do)
    then have "sends E d evt url secret (sim_w s) w [q]"
      using pre build_request_Inr [OF Inr] env_reaches.here [of E "sim_w s"]
      by (auto simp: sends_def request_checked_def)
    ultimately show ?thesis by (intro exI [of _ "[q]"]) simp
  qed
qed

lemma attempt_once_sends:
  assumes "attempt_once E d evt url secret timeout attempt s = (result, s')"
  shows "dr_Attempts result = int attempt + 1"
    and "\<exists>qs. sim_sent s' = sim_sent s @ qs \<and> length qs \<le> 1 \<and> sends E d evt url secret (sim_w s) (sim_w s') qs"
proof -
  obtain r1 s1 where D: "Dispatch E d evt url secret timeout s = (r1, s1)" by fastforce
  have s': "sim_sent s' = sim_sent s1" "sim_w s' = sim_w s1" "result = r1\<lparr>dr_Attempts := int attempt + 1\<rparr>"
    using assms D by (auto simp: attempt_once_def Let_def invokeOnResult_def split: if_splits)
  then show "dr_Attempts result = int attempt + 1"
    and "\<exists>qs. sim_sent s' = sim_sent s @ qs \<and> length qs \<le> 1 \<and> sends E d evt url secret (sim_w s) (sim_w s') qs"
    using Dispatch_sends [OF D] by simp_all
qed

lemma wait_backoff_sent: "wait_backoff E d attempt result s = (b, s') \<Longrightarrow> sim_sent s' = sim_sent s"
  by (auto simp: wait_backoff_def computeBackoff_def defaultBackoff_def Let_def
      split: option.splits if_splits prod.splits run.splits)

lemma computeBackoff_reaches:
  "computeBackoff E d attempt result s = (b, s') \<Longrightarrow> env_reaches E (sim_w s) (sim_w s')"
  using env_reaches.drew [OF env_reaches.here, of E "sim_w s" "backoff_base attempt"]
  by (auto simp: computeBackoff_def defaultBackoff_def Let_def env_reaches.here
      split: option.splits if_splits prod.splits)

lemma wait_backoff_reaches:
  assumes "wait_backoff E d attempt result s = (b, s')"
  shows "env_reaches E (sim_w s) (sim_w s')"
proof -
  obtain c s1 where c: "computeBackoff E d attempt result s = (c, s1)" by fastforce
  note R = computeBackoff_reaches [OF c]
  show ?thesis
    using assms R by (cases c) (auto simp: wait_backoff_def c Let_def intro: env_reaches.slept)
qed

lemma retry_loop_sends:
  "retry_loop E d evt url secret timeout left attempt s = (r, s') \<Longrightarrow>
    \<exists>qs. sim_sent s' = sim_sent s @ qs \<and> sends E d evt url secret (sim_w s) (sim_w s') qs \<and>
      length qs \<le> left + 1 \<and>
      (\<forall>res. r = Returns res \<longrightarrow> int attempt + int (length qs) \<le> dr_Attempts res \<and>
         dr_Attempts res \<le> int attempt + int left + 1)"
proof (induction left arbitrary: attempt s)
  case (0 attempt s)
  obtain r1 s1 where a: "attempt_once E d evt url secret timeout attempt s = (r1, s1)" by fastforce
  note A = attempt_once_sends [OF a]
  show ?case
  proof (cases "ne_ctx_err E (sim_w s)")
    case None
    with 0 a have "r = Returns r1" "s' = s1" by (auto simp: retry_loop.simps split: if_splits)
    with A show ?thesis by force
  next
    case (Some err)
    with 0 show ?thesis by (auto simp: retry_loop.simps cancelled_result_def sends_none env_reaches.here)
  qed
next
  case (Suc left attempt s)
  obtain r1 s1 where a: "attempt_once E d evt url secret timeout attempt s = (r1, s1)" by fastforce
  obtain b s2 where w: "wait_backoff E d attempt r1 s1 = (b, s2)" by fastforce
  from attempt_once_sends [OF a] obtain qs where A: "dr_Attempts r1 = int attempt + 1"
    "sim_sent s1 = sim_sent s @ qs" "length qs \<le> 1" "sends E d evt url secret (sim_w s) (sim_w s1) qs" by blast
  note W = wait_backoff_sent [OF w]
  have A2: "sends E d evt url secret (sim_w s) (sim_w s2) qs"
    using sends_append [OF A(4), of "sim_w s2" "[]"] wait_backoff_reaches [OF w] by (simp add: sends_none)
  show ?case
  proof (cases "ne_ctx_err E (sim_w s)")
    case (Some err)
    with Suc.prems show ?thesis by (auto simp: retry_loop.simps cancelled_result_def sends_none env_reaches.here)
  next
    case None
    show ?thesis
    proof (cases "must_return E r1 s1")
      case True
      with Suc.prems a None have "r = Returns r1" "s' = s1" by (auto simp: retry_loop.simps)
      with A show ?thesis by force
    next
      case False
      show ?thesis
      proof (cases b)
        case (Panics p)
        with Suc.prems a None False w have "r = Panics p" "s' = s2" by (auto simp: retry_loop.simps)
        with A A2 W show ?thesis by (intro exI [of _ qs]) simp
      next
        case (Returns bo)
        show ?thesis
        proof (cases "ne_ctx_err E (sim_w s2)")
          case (Some err)
          with Suc.prems a None False w Returns have "s' = s2" "\<exists>m. r = Returns (cancelled_result m (int attempt + 1))"
            by (auto simp: retry_loop.simps)
          with A A2 W show ?thesis by (intro exI [of _ qs]) (auto simp: cancelled_result_def)
        next
          case None
          with Suc.prems a \<open>ne_ctx_err E (sim_w s) = None\<close> False w Returns
          have "retry_loop E d evt url secret timeout left (attempt + 1) s2 = (r, s')"
            by (auto simp: retry_loop.simps [of _ _ _ _ _ _ "Suc left"])
          from Suc.IH [OF this] obtain rs where R: "sim_sent s' = sim_sent s2 @ rs"
            "sends E d evt url secret (sim_w s2) (sim_w s') rs"
            "length rs \<le> left + 1" "\<forall>res. r = Returns res \<longrightarrow> int (attempt + 1) + int (length rs) \<le> dr_Attempts res \<and>
              dr_Attempts res \<le> int (attempt + 1) + int left + 1" by blast
          have "\<forall>res. r = Returns res \<longrightarrow> int attempt + int (length (qs @ rs)) \<le> dr_Attempts res \<and>
              dr_Attempts res \<le> int attempt + int (Suc left) + 1"
            using R(4) A(3) by fastforce
          with R A W sends_append [OF A2 R(2)] show ?thesis by (intro exI [of _ "qs @ rs"]) simp
        qed
      qed
    qed
  qed
qed

subsection \<open>Termination of the backoff computation\<close>

lemma backoff_base_ok: "attempt < 34 \<Longrightarrow> 0 < backoff_base attempt \<and> backoff_base attempt \<le> maxBackoff"
proof -
  assume "attempt < 34"
  moreover have "list_all (\<lambda>a. 0 < backoff_base a \<and> backoff_base a \<le> maxBackoff) [0..<34]" by code_simp
  ultimately show ?thesis by (auto simp: list_all_iff)
qed

lemma backoff_base_34: "backoff_base 34 < 0"
  by code_simp

lemma wait_backoff_Returns:
  assumes "dp_backoffFunc d \<noteq> None \<or> attempt < 34"
  shows "\<exists>b s'. wait_backoff E d attempt result s = (Returns b, s')"
  using assms backoff_base_ok [of attempt]
  by (auto simp: wait_backoff_def computeBackoff_def defaultBackoff_def Let_def split: option.splits prod.splits)

lemma retry_loop_Returns:
  "dp_backoffFunc d \<noteq> None \<or> attempt + left \<le> 34 \<Longrightarrow>
    \<exists>res s'. retry_loop E d evt url secret timeout left attempt s = (Returns res, s')"
proof (induction left arbitrary: attempt s)
  case 0
  then show ?case
    by (auto simp: retry_loop.simps split: option.splits prod.splits)
next
  case (Suc left)
  obtain r1 s1 where a: "attempt_once E d evt url secret timeout attempt s = (r1, s1)" by fastforce
  from Suc.prems wait_backoff_Returns [of d attempt E r1 s1] obtain b s2
    where w: "wait_backoff E d attempt r1 s1 = (Returns b, s2)" by auto
  from Suc.prems have "dp_backoffFunc d \<noteq> None \<or> (attempt + 1) + left \<le> 34" by auto
  from Suc.IH [OF this, of s2] a w show ?case
    by (simp add: retry_loop.simps [of _ _ _ _ _ _ "Suc left"] split: option.split)
qed

subsection \<open>Properties\<close>

text \<open>
  C24. Nothing leaves the dispatcher unchecked: every HTTP request of a delivery with retries
  goes to the requested URL after the SSRF policy accepted it, for an event within the length
  limits, with the event's JSON as body within the payload limit. When a secret is configured, the
  request carries exactly the signature header of its body under that secret, stamped with a
  clock reading of the delivery (in seconds), and a receiver with that secret accepts it at that
  time. Redirects that the HTTP client follows by itself are not requests of the dispatcher.
\<close>

theorem sent_requests_checked_and_signed:
  assumes "DispatchWithRetry E d evt url secret timeout maxRetries s = (r, s')"
    and "registered (dp_signer d)" "digest_nonempty (ne_hmac E)" "\<forall>w. in_int64 (ne_now E w div 10 ^ 9)"
  shows "\<exists>qs. sim_sent s' = sim_sent s @ qs \<and> (\<forall>q\<in>set qs. request_checked E d evt url q \<and>
     (effective_secret d secret \<noteq> '''' \<longrightarrow>
       (\<exists>w. env_reaches E (sim_w s) w \<and> env_reaches E w (sim_w s') \<and>
          (let ts = ne_now E w div 10 ^ 9;
               key = effective_secret d secret;
               header = ''t='' @ FormatInt ts @ '','' @ sg_version (dp_signer d) @ ''='' @
                 hex_encode (ne_hmac E (sg_alg (dp_signer d)) key (FormatInt ts @ ''.'' @ or_body q))
           in map_of (or_headers q) SignatureHeader = Some header \<and>
              VerifySignature (ne_hmac E) (dp_signer d) ts (or_body q) key header DefaultTolerance = None))))"
proof -
  from retry_loop_sends [OF assms(1) [unfolded DispatchWithRetry_def Let_def]] obtain qs
    where qs: "sim_sent s' = sim_sent s @ qs" "sends E d evt url secret (sim_w s) (sim_w s') qs" by blast
  have v: "\<exists>w. env_reaches E (sim_w s) w \<and> env_reaches E w (sim_w s') \<and>
      (let ts = ne_now E w div 10 ^ 9;
           key = effective_secret d secret;
           header = ''t='' @ FormatInt ts @ '','' @ sg_version (dp_signer d) @ ''='' @
             hex_encode (ne_hmac E (sg_alg (dp_signer d)) key (FormatInt ts @ ''.'' @ or_body q))
       in map_of (or_headers q) SignatureHeader = Some header \<and>
          VerifySignature (ne_hmac E) (dp_signer d) ts (or_body q) key header DefaultTolerance = None)"
    if "q \<in> set qs" "effective_secret d secret \<noteq> ''''" for q
  proof -
    from that qs(2) obtain w sr where w: "env_reaches E (sim_w s) w" "env_reaches E w (sim_w s')"
      and sr: "map_of (or_headers q) SignatureHeader = Some (sr_Header sr)"
      "SignPayload (ne_hmac E) (dp_signer d) (or_body q) (effective_secret d secret) (ne_now E w div 10 ^ 9) = Inr sr"
      by (auto simp: sends_def request_signed_def)
    have "VerifySignature (ne_hmac E) (dp_signer d) (ne_now E w div 10 ^ 9) (or_body q) (effective_secret d secret)
        (sr_Header sr) DefaultTolerance = None"
      using assms(4) by (intro signed_header_verifies [OF assms(2,3) sr(2)])
        (simp_all add: in_int64_def DefaultTolerance_def go_div_def)
    moreover from sr(2) that(2) have "sr_Header sr = ''t='' @ FormatInt (ne_now E w div 10 ^ 9) @ '','' @
        sg_version (dp_signer d) @ ''='' @ hex_encode (ne_hmac E (sg_alg (dp_signer d)) (effective_secret d secret)
          (FormatInt (ne_now E w div 10 ^ 9) @ ''.'' @ or_body q))"
      by (auto simp: SignPayload_def signature_of_def SignatureSep_def Let_def)
    ultimately show ?thesis using w sr(1) by (intro exI [of _ w]) (simp add: Let_def)
  qed
  with qs show ?thesis by (intro exI [of _ qs] conjI) (auto simp: sends_def)
qed

definition ok_event :: event where
  "ok_event = \<lparr>evt_ID = ''e1'', evt_Type = ActionUserLogin, evt_Source = ''src'', evt_Subject = ''t1'',
     evt_Data = ''{}'', evt_Timestamp = 0\<rparr>"

definition const_env :: "int \<Rightarrow> unit net_env" where
  "const_env status = \<lparr>ne_now = (\<lambda>_. 0), ne_ctx_err = (\<lambda>_. None), ne_sleep = (\<lambda>_ w. w),
     ne_Int63n = (\<lambda>n w. (n - 1, w)), ne_marshal = (\<lambda>e. Inr (evt_ID e)), ne_new_request = (\<lambda>_. None),
     ne_do = (\<lambda>c q w. (Inr \<lparr>hp_StatusCode = status, hp_RetryAfter = '''', hp_read = (\<lambda>_. Inr ''body'')\<rparr>, w)),
     ne_parse_url = (\<lambda>u. Inr \<lparr>pu_Scheme = ''https'', pu_Host = ''h'', pu_Hostname = ''h''\<rparr>),
     ne_parseIP = (\<lambda>_. None), ne_parse_time = (\<lambda>_. None),
     ne_hmac = (\<lambda>alg k c. CHR ''m'' # toy_hmac alg k c), ne_key_order = (\<lambda>xs. xs), ne_ssrf_text = (\<lambda>_. ''blocked'')\<rparr>"

definition start_sim :: "unit sim" where
  "start_sim = \<lparr>sim_w = (), sim_sent = [], sim_reported = []\<rparr>"

definition demo_dispatcher :: dispatcher where
  "demo_dispatcher = NewDispatcher (10 * 10 ^ 9) [WithSecret ''key'']"

lemma demo_registered: "registered (dp_signer demo_dispatcher)"
  by code_simp

theorem sent_requests_checked_and_signed_witness:
  "\<exists>r s'. DispatchWithRetry (const_env 200) demo_dispatcher ok_event ''https://h/x'' '''' 0 3 start_sim = (r, s') \<and>
    length (sim_sent s') = 1 \<and> list_all (request_checked (const_env 200) demo_dispatcher ok_event ''https://h/x'') (sim_sent s')"
proof -
  obtain r s' where D: "DispatchWithRetry (const_env 200) demo_dispatcher ok_event ''https://h/x'' '''' 0 3 start_sim = (r, s')"
    by fastforce
  have "length (sim_sent (snd (DispatchWithRetry (const_env 200) demo_dispatcher ok_event ''https://h/x'' '''' 0 3 start_sim))) = 1"
    by code_simp
  moreover have now: "\<forall>w. in_int64 (ne_now (const_env 200) w div 10 ^ 9)" by (simp add: const_env_def in_int64_def)
  moreover have "digest_nonempty (ne_hmac (const_env 200))" by (simp add: const_env_def toy_hmac_nonempty)
  ultimately show ?thesis
    using sent_requests_checked_and_signed [OF D demo_registered _ now] D by (auto simp: start_sim_def list_all_iff)
qed

text \<open>
  C25. A delivery with at most 34 retries, or with a backoff function of the caller's, always
  returns a result; it sends at most one request more than the retries, and no more than the
  Attempts it reports.
\<close>

theorem retries_bounded:
  assumes "dp_backoffFunc d \<noteq> None \<or> maxRetries \<le> 34"
  shows "\<exists>res s' qs. DispatchWithRetry E d evt url secret timeout maxRetries s = (Returns res, s') \<and>
    sim_sent s' = sim_sent s @ qs \<and> int (length qs) \<le> dr_Attempts res \<and>
    dr_Attempts res \<le> max 0 maxRetries + 1"
proof -
  let ?n = "nat (if maxRetries < 0 then 0 else maxRetries)"
  have "dp_backoffFunc d \<noteq> None \<or> 0 + ?n \<le> 34" using assms by auto
  from retry_loop_Returns [OF this] obtain res s' where
    r: "retry_loop E d evt url secret timeout ?n 0 s = (Returns res, s')" by blast
  from retry_loop_sends [OF r] r show ?thesis
    by (auto simp: DispatchWithRetry_def Let_def max_def split: if_splits)
qed

theorem retries_bounded_witness:
  "\<exists>res s' qs. DispatchWithRetry (const_env 503) demo_dispatcher ok_event ''https://h/x'' '''' 0 3 start_sim = (Returns res, s') \<and>
    sim_sent s' = sim_sent start_sim @ qs \<and> int (length qs) \<le> dr_Attempts res \<and> dr_Attempts res \<le> max 0 3 + 1"
  by (rule retries_bounded) simp

text \<open>
  With the default backoff, the 35th failed attempt of a delivery that still has a retry
  left panics: the shifted duration wraps to a negative value, which \<^verbatim>\<open>Int63n\<close> refuses. An
  endpoint that always answers 503 makes every delivery with 35 or more retries panic.
\<close>

lemma attempt_503:
  "fst (attempt_once (const_env 503) demo_dispatcher ok_event ''https://h/x'' '''' 0 attempt s) =
     \<lparr>dr_Success = False, dr_StatusCode = 503, dr_ResponseBody = ''body'', dr_DurationMs = 0,
      dr_Error = '''', dr_ErrorCode = ErrCodeNone, dr_Attempts = int attempt + 1, dr_rawRetryAfter = ''''\<rparr>"
proof -
  have sch: "isAllowedScheme (dp_ssrfPolicy demo_dispatcher) ''https''" by code_simp
  have d: "dp_maxPayloadSize demo_dispatcher = 2 ^ 20" "dp_defaultSecret demo_dispatcher = ''key''"
    by code_simp+
  show ?thesis
    using sch d
    by (simp add: attempt_once_def Dispatch_def pre_checks_def ValidateURL_def const_env_def ok_event_def
        maxEventIDLen_def maxEventSourceLen_def maxEventSubjectLen_def build_request_def effective_secret_def
        SignPayload_def read_reply_def elapsed_ms_def go_div_def Let_def split: prod.splits)
qed

lemma always_503_panics:
  "attempt \<le> 34 \<Longrightarrow> 34 < attempt + left \<Longrightarrow>
    \<exists>p s'. retry_loop (const_env 503) demo_dispatcher ok_event ''https://h/x'' '''' 0 left attempt s = (Panics p, s')"
proof (induction left arbitrary: attempt s)
  case (Suc left)
  obtain r1 s1 where a: "attempt_once (const_env 503) demo_dispatcher ok_event ''https://h/x'' '''' 0 attempt s = (r1, s1)"
    by fastforce
  with attempt_503 [of attempt s] have r1: "dr_StatusCode r1 = 503" "\<not> dr_Success r1" "dr_ErrorCode r1 = ErrCodeNone"
    by auto
  have ctx: "ne_ctx_err (const_env 503) w = None" for w by (simp add: const_env_def)
  have f: "dp_backoffFunc demo_dispatcher = None" by code_simp
  have ret: "\<not> must_return (const_env 503) r1 s1" using r1 by (simp add: must_return_def isRetryable_def)
  show ?case
  proof (cases "attempt = 34")
    case True
    with backoff_base_34 have "wait_backoff (const_env 503) demo_dispatcher attempt r1 s1 = (Panics ''invalid argument to Int63n'', s1)"
      by (simp add: wait_backoff_def computeBackoff_def defaultBackoff_def f Let_def)
    with a ret ctx show ?thesis by (simp add: retry_loop.simps [of _ _ _ _ _ _ "Suc left"])
  next
    case False
    with Suc.prems have n: "attempt + 1 \<le> 34" "34 < attempt + 1 + left" "attempt < 34" by auto
    from wait_backoff_Returns [of demo_dispatcher attempt] n(3) obtain b s2
      where w: "wait_backoff (const_env 503) demo_dispatcher attempt r1 s1 = (Returns b, s2)" by blast
    with a ret ctx Suc.IH [OF n(1,2), of s2] show ?thesis
      by (simp add: retry_loop.simps [of _ _ _ _ _ _ "Suc left"])
  qed
qed simp

theorem default_backoff_panics_after_34_retries:
  assumes "35 \<le> maxRetries"
  shows "\<exists>p s'. DispatchWithRetry (const_env 503) demo_dispatcher ok_event ''https://h/x'' '''' 0 maxRetries start_sim =
    (Panics p, s')"
  using always_503_panics [of 0 "nat maxRetries" start_sim] assms
  by (simp add: DispatchWithRetry_def Let_def)

theorem default_backoff_panics_after_34_retries_witness:
  "\<exists>p s'. DispatchWithRetry (const_env 503) demo_dispatcher ok_event ''https://h/x'' '''' 0 40 start_sim = (Panics p, s')"
  by (rule default_backoff_panics_after_34_retries) simp

text \<open>
  A success and a deterministic client error end the delivery: when the first attempt is
  answered with a status from 200 to 299, or from 400 to 499 other than 429, that answer is
  returned after exactly this one request.
\<close>

theorem definitive_answer_not_retried:
  assumes "ne_ctx_err E (sim_w s) = None" "Dispatch E d evt url secret timeout s = (res, s1)"
    and "dr_Success res \<or> 400 \<le> dr_StatusCode res \<and> dr_StatusCode res < 500 \<and> dr_StatusCode res \<noteq> 429"
  shows "\<exists>s'. DispatchWithRetry E d evt url secret timeout maxRetries s = (Returns (res\<lparr>dr_Attempts := 1\<rparr>), s') \<and>
    sim_sent s' = sim_sent s1"
proof -
  have "attempt_once E d evt url secret timeout 0 s = (res\<lparr>dr_Attempts := 1\<rparr>, invokeOnResult d (res\<lparr>dr_Attempts := 1\<rparr>) 1 s1)"
    using assms(2) by (simp add: attempt_once_def Let_def)
  moreover have "must_return E (res\<lparr>dr_Attempts := 1\<rparr>) x" for x
    using assms(3) by (auto simp: must_return_def isRetryable_def)
  moreover have "sim_sent (invokeOnResult d q 1 s1) = sim_sent s1" for q by (simp add: invokeOnResult_def)
  ultimately show ?thesis
    using assms(1) by (simp add: DispatchWithRetry_def Let_def retry_loop.simps)
qed

theorem definitive_answer_not_retried_witness:
  "\<exists>s'. DispatchWithRetry (const_env 404) demo_dispatcher ok_event ''https://h/x'' '''' 0 3 start_sim =
    (Returns (fst (Dispatch (const_env 404) demo_dispatcher ok_event ''https://h/x'' '''' 0 start_sim)\<lparr>dr_Attempts := 1\<rparr>), s') \<and>
    sim_sent s' = sim_sent (snd (Dispatch (const_env 404) demo_dispatcher ok_event ''https://h/x'' '''' 0 start_sim))"
proof (rule definitive_answer_not_retried)
  have "dr_StatusCode (fst (Dispatch (const_env 404) demo_dispatcher ok_event ''https://h/x'' '''' 0 start_sim)) = 404"
    by code_simp
  then show "dr_Success (fst (Dispatch (const_env 404) demo_dispatcher ok_event ''https://h/x'' '''' 0 start_sim)) \<or>
    400 \<le> dr_StatusCode (fst (Dispatch (const_env 404) demo_dispatcher ok_event ''https://h/x'' '''' 0 start_sim)) \<and>
    dr_StatusCode (fst (Dispatch (const_env 404) demo_dispatcher ok_event ''https://h/x'' '''' 0 start_sim)) < 500 \<and>
    dr_StatusCode (fst (Dispatch (const_env 404) demo_dispatcher ok_event ''https://h/x'' '''' 0 start_sim)) \<noteq> 429" by simp
qed (simp_all add: const_env_def)

text \<open>
  A policy given through the option changes the URL check and the redirect check but not the
  dialer of the default client, which keeps the default policy; a policy that permits loopback
  addresses therefore passes the URL check and is refused when the connection is made.
\<close>

theorem policy_option_leaves_dialer:
  "dp_ssrfPolicy (NewDispatcher timeout [WithSSRFPolicy p]) = p \<and>
   (\<exists>c. dp_client (NewDispatcher timeout [WithSSRFPolicy p]) = Some c \<and>
      hc_redirect_policy c = Some p \<and> hc_dial_policy c = Some DefaultPolicy) \<and>
   isBlockedIP DefaultPolicy (Some [127, 0, 0, 1])"
  by (auto simp: NewDispatcher_def NewDispatcherWithSigner_def WithSSRFPolicy_def NewHTTPClient_def
      NewHTTPTransport_def Let_def defaultMaxRespBodySize_def defaultMaxPayloadSize_def isBlockedIP_iff
      DefaultPolicy_def IsLoopback_def To4_def)

end
