(* ===== verification/Swiftbus.thy ===== *)
theory Swiftbus
  imports Prelude "HOL-Library.Sublist"
begin

text \<open>
  \<^verbatim>\<open>kex-utils/pkg/kexswiftbus\<close>: the publish/subscribe bus. A Go channel is a cell of a heap of
  buffered queues; \<^verbatim>\<open>MemoryStore\<close> keeps the channels of every topic, \<^verbatim>\<open>Bus\<close> runs one goroutine
  per subscription that hands the messages of its channel to the handler.

  The bus only talks to the interface \<^verbatim>\<open>Store\<close> (\<open>store_ops\<close>); the locale \<open>message_store\<close> states what
  it relies on, its lemmas are proved once there, and \<open>memory\<close> interprets it on \<^verbatim>\<open>MemoryStore\<close>.
  A run-time panic (send on a closed channel, close of a closed channel) is \<open>None\<close>.
\<close>

section \<open>Messages and channels\<close>

record 'p message =
  msg_ID :: string
  msg_Topic :: string
  msg_Payload :: 'p
  msg_Timestamp :: timestamp
  msg_Metadata :: "(string \<times> string) list"

definition NewMessage :: "timestamp \<Rightarrow> string \<Rightarrow> 'p \<Rightarrow> 'p message" where
  "NewMessage now topic payload =
     \<lparr>msg_ID = '''', msg_Topic = topic, msg_Payload = payload, msg_Timestamp = now, msg_Metadata = []\<rparr>"

datatype bus_error = ErrBusClosed | ErrStoreClosed | ErrNilClient | ErrTopicNotFound | ErrInvalidTopic
  | ContextDone

type_synonym chan = nat

record 'p channel =
  ch_buf :: "'p message list"
  ch_closed :: bool

definition chan_cap :: nat where "chan_cap = 64"

definition BusWildcard :: string where "BusWildcard = ''*''"

section \<open>\<^verbatim>\<open>MemoryStore\<close>\<close>

record 'p memory_store =
  ms_heap :: "'p channel list"
  ms_subs :: "(string \<times> chan list) list"
  ms_closed :: bool
  ms_closeCh :: bool  \<comment> \<open>closeCh has been closed\<close>

definition NewMemoryStore :: "'p memory_store" where
  "NewMemoryStore = \<lparr>ms_heap = [], ms_subs = [], ms_closed = False, ms_closeCh = False\<rparr>"

definition subs_of :: "string \<Rightarrow> 'p memory_store \<Rightarrow> chan list" where
  "subs_of topic s = (case map_of (ms_subs s) topic of None \<Rightarrow> [] | Some l \<Rightarrow> l)"

text \<open>The channels \<^verbatim>\<open>Publish\<close> collects under the read lock.\<close>

definition publish_targets :: "string \<Rightarrow> 'p memory_store \<Rightarrow> bus_error + chan list" where
  "publish_targets topic s =
     (if ms_closed s then Inl ErrStoreClosed else Inr (subs_of topic s @ subs_of ''*'' s))"

text \<open>One \<^verbatim>\<open>select\<close> with the send and \<^verbatim>\<open>default\<close>: a full channel drops the message.\<close>

definition try_send :: "'p message \<Rightarrow> chan \<Rightarrow> 'p memory_store \<Rightarrow> 'p memory_store option" where
  "try_send m c s =
     (let ch = ms_heap s ! c in
      if ch_closed ch then None
      else if length (ch_buf ch) < chan_cap
      then Some (s\<lparr>ms_heap := (ms_heap s)[c := ch\<lparr>ch_buf := ch_buf ch @ [m]\<rparr>]\<rparr>)
      else Some s)"

text \<open>
  The loop over the collected channels. \<open>timeout c\<close> says that the select for channel \<open>c\<close> took the
  case \<^verbatim>\<open>ctx.Done()\<close>, which it may once the deadline of the context has passed.
\<close>

fun send_all ::
    "(chan \<Rightarrow> bool) \<Rightarrow> 'p message \<Rightarrow> chan list \<Rightarrow> 'p memory_store \<Rightarrow>
     ((bus_error + unit) \<times> 'p memory_store) option" where
  "send_all timeout m [] s = Some (Inr (), s)"
| "send_all timeout m (c # cs) s =
     (if timeout c then Some (Inl ContextDone, s)
      else (case try_send m c s of None \<Rightarrow> None | Some s' \<Rightarrow> send_all timeout m cs s'))"

definition MemoryStore_Publish ::
    "(chan \<Rightarrow> bool) \<Rightarrow> 'p message \<Rightarrow> 'p memory_store \<Rightarrow>
     ((bus_error + unit) \<times> 'p memory_store) option" where
  "MemoryStore_Publish timeout m s =
     (case publish_targets (msg_Topic m) s of
        Inl err \<Rightarrow> Some (Inl err, s)
      | Inr cs \<Rightarrow> send_all timeout m cs s)"

definition MemoryStore_Subscribe ::
    "string \<Rightarrow> 'p memory_store \<Rightarrow> (bus_error + chan) \<times> 'p memory_store" where
  "MemoryStore_Subscribe topic s =
     (if ms_closed s then (Inl ErrStoreClosed, s)
      else (let c = length (ms_heap s) in
        (Inr c, s\<lparr>ms_heap := ms_heap s @ [\<lparr>ch_buf = [], ch_closed = False\<rparr>],
                  ms_subs := alist_put topic (subs_of topic s @ [c]) (ms_subs s)\<rparr>)))"

definition close_chan :: "chan \<Rightarrow> 'p memory_store \<Rightarrow> 'p memory_store option" where
  "close_chan c s =
     (let ch = ms_heap s ! c in
      if ch_closed ch then None
      else Some (s\<lparr>ms_heap := (ms_heap s)[c := ch\<lparr>ch_closed := True\<rparr>]\<rparr>))"

definition MemoryStore_Unsubscribe ::
    "string \<Rightarrow> chan \<Rightarrow> 'p memory_store \<Rightarrow> ((bus_error + unit) \<times> 'p memory_store) option" where
  "MemoryStore_Unsubscribe topic ch s =
     (if ch \<in> set (subs_of topic s) then
        (case close_chan ch s of
           None \<Rightarrow> None
         | Some s' \<Rightarrow>
             (let rest = remove1 ch (subs_of topic s) in
              Some (Inr (), s'\<lparr>ms_subs :=
                (if rest = [] then filter (\<lambda>(t, _). t \<noteq> topic) (ms_subs s)
                 else alist_put topic rest (ms_subs s))\<rparr>)))
      else Some (Inl ErrTopicNotFound, s))"

fun close_all :: "chan list \<Rightarrow> 'p memory_store \<Rightarrow> 'p memory_store option" where
  "close_all [] s = Some s"
| "close_all (c # cs) s = (case close_chan c s of None \<Rightarrow> None | Some s' \<Rightarrow> close_all cs s')"

definition all_chans :: "'p memory_store \<Rightarrow> chan list" where
  "all_chans s = concat (map snd (ms_subs s))"

definition MemoryStore_Close :: "'p memory_store \<Rightarrow> 'p memory_store option" where
  "MemoryStore_Close s =
     (if ms_closed s then Some s
      else map_option (\<lambda>s. s\<lparr>ms_subs := [], ms_closeCh := True\<rparr>)
             (close_all (all_chans s) (s\<lparr>ms_closed := True\<rparr>)))"

text \<open>The receive operation of the language on a channel of the store.\<close>

datatype 'm received = Got 'm | Closed | Blocked

definition recv :: "chan \<Rightarrow> 'p memory_store \<Rightarrow> 'p message received \<times> 'p memory_store" where
  "recv c s =
     (let ch = ms_heap s ! c in
      case ch_buf ch of
        m # ms \<Rightarrow> (Got m, s\<lparr>ms_heap := (ms_heap s)[c := ch\<lparr>ch_buf := ms\<rparr>]\<rparr>)
      | [] \<Rightarrow> (if ch_closed ch then Closed else Blocked, s))"

section \<open>The interface \<^verbatim>\<open>Store\<close> and its contract\<close>

record ('p, 's) store_ops =
  so_Publish :: "(chan \<Rightarrow> bool) \<Rightarrow> 'p message \<Rightarrow> 's \<Rightarrow> ((bus_error + unit) \<times> 's) option"
  so_Subscribe :: "string \<Rightarrow> 's \<Rightarrow> (bus_error + chan) \<times> 's"
  so_Unsubscribe :: "string \<Rightarrow> chan \<Rightarrow> 's \<Rightarrow> ((bus_error + unit) \<times> 's) option"
  so_Close :: "'s \<Rightarrow> 's option"
  so_recv :: "chan \<Rightarrow> 's \<Rightarrow> 'p message received \<times> 's"

definition memory_ops :: "('p, 'p memory_store) store_ops" where
  "memory_ops = \<lparr>so_Publish = MemoryStore_Publish, so_Subscribe = MemoryStore_Subscribe,
     so_Unsubscribe = MemoryStore_Unsubscribe, so_Close = MemoryStore_Close, so_recv = recv\<rparr>"

section \<open>\<^verbatim>\<open>Bus\<close>\<close>

text \<open>
  A subscription together with its goroutine: \<open>g_running\<close> until it returns, \<open>g_handled\<close> the messages
  the handler has been invoked with (\<^verbatim>\<open>invoke\<close> recovers from a panic of the handler, so every
  invocation returns to the loop).
\<close>

record 'p subscription =
  g_topic :: string
  g_ch :: chan
  g_cancelled :: bool
  g_running :: bool
  g_handled :: "'p message list"

record ('p, 's) bus =
  bus_store :: 's
  bus_subs :: "nat list"  \<comment> \<open>the keys of subs: positions in \<open>bus_gs\<close>\<close>
  bus_gs :: "'p subscription list"
  bus_closed :: bool
  bus_closeCh :: bool

definition NewBus :: "'s \<Rightarrow> ('p, 's) bus" where
  "NewBus st = \<lparr>bus_store = st, bus_subs = [], bus_gs = [], bus_closed = False, bus_closeCh = False\<rparr>"

definition Bus_Subscribe ::
    "('p, 's) store_ops \<Rightarrow> string \<Rightarrow> ('p, 's) bus \<Rightarrow> (bus_error + nat) \<times> ('p, 's) bus" where
  "Bus_Subscribe S topic b =
     (if bus_closed b then (Inl ErrBusClosed, b)
      else (case so_Subscribe S topic (bus_store b) of
         (Inl err, st) \<Rightarrow> (Inl err, b\<lparr>bus_store := st\<rparr>)
       | (Inr ch, st) \<Rightarrow>
           (let i = length (bus_gs b) in
            (Inr i, b\<lparr>bus_store := st, bus_subs := bus_subs b @ [i],
               bus_gs := bus_gs b @ [\<lparr>g_topic = topic, g_ch = ch, g_cancelled = False,
                                      g_running = True, g_handled = []\<rparr>]\<rparr>))))"

text \<open>The cases of the goroutine's \<^verbatim>\<open>select\<close>; a case that is not ready leaves it waiting.\<close>

datatype select_case = CaseRecv | CaseCancel | CaseClose

definition goroutine_step ::
    "('p, 's) store_ops \<Rightarrow> nat \<Rightarrow> select_case \<Rightarrow> ('p, 's) bus \<Rightarrow> ('p, 's) bus" where
  "goroutine_step S i c b =
     (if \<not> (i < length (bus_gs b) \<and> g_running (bus_gs b ! i)) then b
      else (let g = bus_gs b ! i in
        case c of
          CaseRecv \<Rightarrow>
            (case so_recv S (g_ch g) (bus_store b) of
               (Got m, st) \<Rightarrow> b\<lparr>bus_store := st,
                  bus_gs := (bus_gs b)[i := g\<lparr>g_handled := g_handled g @ [m]\<rparr>]\<rparr>
             | (Closed, _) \<Rightarrow> b\<lparr>bus_gs := (bus_gs b)[i := g\<lparr>g_running := False\<rparr>]\<rparr>
             | (Blocked, _) \<Rightarrow> b)
        | CaseCancel \<Rightarrow>
            if g_cancelled g then b\<lparr>bus_gs := (bus_gs b)[i := g\<lparr>g_running := False\<rparr>]\<rparr> else b
        | CaseClose \<Rightarrow>
            if bus_closeCh b then b\<lparr>bus_gs := (bus_gs b)[i := g\<lparr>g_running := False\<rparr>]\<rparr> else b))"

text \<open>The \<^verbatim>\<open>CancelFunc\<close> of a subscription; \<^verbatim>\<open>once\<close> is the flag that its channel is cancelled.\<close>

definition CancelFunc :: "('p, 's) store_ops \<Rightarrow> nat \<Rightarrow> ('p, 's) bus \<Rightarrow> ('p, 's) bus option" where
  "CancelFunc S i b =
     (let g = bus_gs b ! i in
      if g_cancelled g then Some b
      else (case so_Unsubscribe S (g_topic g) (g_ch g) (bus_store b) of
         None \<Rightarrow> None
       | Some (_, st) \<Rightarrow> Some (b\<lparr>bus_store := st, bus_subs := filter (\<lambda>j. j \<noteq> i) (bus_subs b),
             bus_gs := (bus_gs b)[i := g\<lparr>g_cancelled := True\<rparr>]\<rparr>)))"

text \<open>
  A call of \<^verbatim>\<open>Publish\<close> or \<^verbatim>\<open>PublishSync\<close> that no other call disturbs; \<open>racing_step\<close> of
  \<open>SwiftbusRace\<close> takes its check, the collecting of the channels and every send apart.
\<close>

definition Bus_PublishSync ::
    "('p, 's) store_ops \<Rightarrow> (chan \<Rightarrow> bool) \<Rightarrow> 'p message \<Rightarrow> ('p, 's) bus \<Rightarrow>
     ((bus_error + unit) \<times> ('p, 's) bus) option" where
  "Bus_PublishSync S timeout m b =
     (if bus_closed b then Some (Inl ErrBusClosed, b)
      else (case so_Publish S timeout m (bus_store b) of
         None \<Rightarrow> None
       | Some (r, st) \<Rightarrow> Some (r, b\<lparr>bus_store := st\<rparr>)))"

definition Bus_Publish ::
    "('p, 's) store_ops \<Rightarrow> (chan \<Rightarrow> bool) \<Rightarrow> 'p message \<Rightarrow> ('p, 's) bus \<Rightarrow>
     (bool \<times> ('p, 's) bus) option" where
  "Bus_Publish S timeout m b =
     (if bus_closed b then Some (False, b)
      else (case so_Publish S timeout m (bus_store b) of
         None \<Rightarrow> None
       | Some (r, st) \<Rightarrow> Some (is_ok r, b\<lparr>bus_store := st\<rparr>)))"

text \<open>\<^verbatim>\<open>Close\<close> up to \<^verbatim>\<open>wg.Wait\<close>, which returns once no goroutine is running.\<close>

definition Bus_Close :: "('p, 's) store_ops \<Rightarrow> ('p, 's) bus \<Rightarrow> ('p, 's) bus option" where
  "Bus_Close S b =
     (if bus_closed b then Some b
      else map_option (\<lambda>st. b\<lparr>bus_closed := True, bus_closeCh := True, bus_store := st\<rparr>)
             (so_Close S (bus_store b)))"

definition wait_returns :: "('p, 's) bus \<Rightarrow> bool" where
  "wait_returns b \<longleftrightarrow> list_all (\<lambda>g. \<not> g_running g) (bus_gs b)"

section \<open>What the bus relies on\<close>

text \<open>
  \<open>deliveries t m\<close>: the copies of a message that a subscription to topic \<open>t\<close> is sent. The wildcard
  list is appended to the topic's own, so a message published on the topic \<^verbatim>\<open>*\<close> itself is sent twice
  to a wildcard subscription.
\<close>

definition deliveries :: "string \<Rightarrow> 'p message \<Rightarrow> 'p message list" where
  "deliveries t m =
     replicate ((if msg_Topic m = t then 1 else 0) + (if t = ''*'' then 1 else 0)) m"

text \<open>
  \<open>queue c s\<close> is the content of channel \<open>c\<close>, \<open>live s\<close> the subscribed topics with their channels,
  \<open>alloc s\<close> the channels handed out so far.
\<close>

locale message_store =
  fixes S :: "('p, 's) store_ops"
    and inv :: "'s \<Rightarrow> bool"
    and queue :: "chan \<Rightarrow> 's \<Rightarrow> 'p message list"
    and live :: "'s \<Rightarrow> (string \<times> chan) set"
    and alloc :: "'s \<Rightarrow> chan set"
  assumes live_alloc: "inv s \<Longrightarrow> (t, c) \<in> live s \<Longrightarrow> c \<in> alloc s"
    and publish: "inv s \<Longrightarrow> \<exists>r s'. so_Publish S tm m s = Some (r, s') \<and> inv s' \<and>
      live s' = live s \<and> alloc s' = alloc s \<and>
      (\<forall>c. \<exists>xs. queue c s' = queue c s @ xs \<and>
         (xs = [] \<or> (\<exists>t. (t, c) \<in> live s \<and> subseq xs (deliveries t m))))"
    and publish_room: "inv s \<Longrightarrow> so_Publish S tm m s = Some (r, s') \<Longrightarrow> \<forall>c. \<not> tm c \<Longrightarrow>
      (t, c) \<in> live s \<Longrightarrow> length (queue c s) + length (deliveries t m) \<le> chan_cap \<Longrightarrow>
      queue c s' = queue c s @ deliveries t m"
    and subscribe_err: "inv s \<Longrightarrow> so_Subscribe S t s = (Inl e, s') \<Longrightarrow> s' = s"
    and subscribe: "inv s \<Longrightarrow> so_Subscribe S t s = (Inr c, s') \<Longrightarrow>
      inv s' \<and> c \<notin> alloc s \<and> alloc s' = insert c (alloc s) \<and> live s' = insert (t, c) (live s) \<and>
      queue c s' = [] \<and> (\<forall>d. d \<noteq> c \<longrightarrow> queue d s' = queue d s)"
    and unsubscribe: "inv s \<Longrightarrow> \<exists>r s'. so_Unsubscribe S t c s = Some (r, s') \<and> inv s' \<and>
      live s' = live s - {(t, c)} \<and> alloc s' = alloc s \<and> (\<forall>d. queue d s' = queue d s)"
    and close: "inv s \<Longrightarrow> \<exists>s'. so_Close S s = Some s' \<and> inv s' \<and>
      live s' \<subseteq> live s \<and> alloc s' = alloc s \<and> (\<forall>d. queue d s' = queue d s)"
    and recv: "inv s \<Longrightarrow> c \<in> alloc s \<Longrightarrow> so_recv S c s = (rc, s') \<Longrightarrow>
      inv s' \<and> live s' = live s \<and> alloc s' = alloc s \<and> (\<forall>d. d \<noteq> c \<longrightarrow> queue d s' = queue d s) \<and>
      (case rc of Got m \<Rightarrow> queue c s = m # queue c s' | _ \<Rightarrow> queue c s' = queue c s)"

subsection \<open>The steps of the bus\<close>

text \<open>
  Every operation of \<^verbatim>\<open>Bus\<close> as a step of a transition system in which calls do not overlap, with
  the messages given to \<^verbatim>\<open>Publish\<close> and \<^verbatim>\<open>PublishSync\<close> so far. An operation that panics has no step; that none does is
  \<open>no_panic\<close> below.
\<close>

inductive bus_step ::
    "('p, 's) store_ops \<Rightarrow> ('p, 's) bus \<times> 'p message list \<Rightarrow> ('p, 's) bus \<times> 'p message list \<Rightarrow> bool"
  for S :: "('p, 's) store_ops" where
  step_subscribe: "Bus_Subscribe S t b = (r, b') \<Longrightarrow> bus_step S (b, h) (b', h)"
| step_publish: "Bus_Publish S tm m b = Some (ok, b') \<Longrightarrow> bus_step S (b, h) (b', h @ [m])"
| step_publish_sync: "Bus_PublishSync S tm m b = Some (r, b') \<Longrightarrow> bus_step S (b, h) (b', h @ [m])"
| step_goroutine: "bus_step S (b, h) (goroutine_step S i c b, h)"
| step_cancel: "i < length (bus_gs b) \<Longrightarrow> CancelFunc S i b = Some b' \<Longrightarrow> bus_step S (b, h) (b', h)"
| step_close: "Bus_Close S b = Some b' \<Longrightarrow> bus_step S (b, h) (b', h)"

inductive_cases bus_stepE: "bus_step S (b, h) (b', h')"

definition bus_run ::
    "('p, 's) store_ops \<Rightarrow> 's \<Rightarrow> ('p, 's) bus \<Rightarrow> 'p message list \<Rightarrow> bool" where
  "bus_run S s0 b h \<longleftrightarrow> (bus_step S)\<^sup>*\<^sup>* (NewBus s0, []) (b, h)"

subsection \<open>Lemmas about every lawful store\<close>

context message_store begin

definition sub_ok :: "'s \<Rightarrow> 'p message list \<Rightarrow> 'p subscription \<Rightarrow> bool" where
  "sub_ok s h g \<longleftrightarrow> g_ch g \<in> alloc s \<and> (\<forall>t. (t, g_ch g) \<in> live s \<longrightarrow> t = g_topic g) \<and>
     subseq (g_handled g @ queue (g_ch g) s) (concat (map (deliveries (g_topic g)) h))"

definition bus_inv :: "('p, 's) bus \<Rightarrow> 'p message list \<Rightarrow> bool" where
  "bus_inv b h \<longleftrightarrow> inv (bus_store b) \<and> distinct (map g_ch (bus_gs b)) \<and>
     (\<forall>g\<in>set (bus_gs b). sub_ok (bus_store b) h g)"

lemma sub_ok_mono:
  assumes "sub_ok s h g" "alloc s \<subseteq> alloc s'" "\<And>t. (t, g_ch g) \<in> live s' \<Longrightarrow> (t, g_ch g) \<in> live s"
    "queue (g_ch g) s' = queue (g_ch g) s"
  shows "sub_ok s' h g"
  using assms by (auto simp: sub_ok_def)

lemma sub_ok_history: "sub_ok s h g \<Longrightarrow> sub_ok s (h @ [m]) g"
  unfolding sub_ok_def by (auto intro: subseq_rev_drop_many)

lemma publish_inv:
  assumes "bus_inv b h" "so_Publish S tm m (bus_store b) = Some (r, st)"
  shows "bus_inv (b\<lparr>bus_store := st\<rparr>) (h @ [m])"
proof -
  let ?s = "bus_store b"
  from assms(1) have i: "inv ?s" by (simp add: bus_inv_def)
  from publish [OF i, of tm m] assms(2) have p: "inv st" "live st = live ?s" "alloc st = alloc ?s"
    and q: "\<And>c. \<exists>xs. queue c st = queue c ?s @ xs \<and>
         (xs = [] \<or> (\<exists>t. (t, c) \<in> live ?s \<and> subseq xs (deliveries t m)))" by auto
  have "sub_ok st (h @ [m]) g" if g: "g \<in> set (bus_gs b)" for g
  proof -
    from assms(1) g have ok: "sub_ok ?s h g" by (simp add: bus_inv_def)
    from q [of "g_ch g"] obtain xs where xs: "queue (g_ch g) st = queue (g_ch g) ?s @ xs"
      and c: "xs = [] \<or> (\<exists>t. (t, g_ch g) \<in> live ?s \<and> subseq xs (deliveries t m))" by blast
    from c ok have "subseq xs (deliveries (g_topic g) m)" by (auto simp: sub_ok_def)
    with ok p xs show ?thesis
      unfolding sub_ok_def by (simp add: list_emb_append_mono flip: append_assoc)
  qed
  with assms(1) p(1) show ?thesis by (simp add: bus_inv_def)
qed

lemma subscribe_inv:
  assumes "bus_inv b h" "Bus_Subscribe S t b = (r, b')"
  shows "bus_inv b' h"
proof (cases "so_Subscribe S t (bus_store b)")
  case (Pair res st)
  from assms(1) have i: "inv (bus_store b)" by (simp add: bus_inv_def)
  show ?thesis
  proof (cases res)
    case (Inl e)
    with assms Pair subscribe_err [OF i, of t e st] show ?thesis
      by (auto simp: Bus_Subscribe_def bus_inv_def split: if_splits)
  next
    case (Inr c)
    with Pair have eq: "so_Subscribe S t (bus_store b) = (Inr c, st)" by simp
    from subscribe [OF i eq] have sb: "inv st" "c \<notin> alloc (bus_store b)"
      "alloc st = insert c (alloc (bus_store b))" "live st = insert (t, c) (live (bus_store b))"
      "queue c st = []" "\<And>d. d \<noteq> c \<Longrightarrow> queue d st = queue d (bus_store b)" by blast+
    have old: "sub_ok st h g" "g_ch g \<noteq> c" if "g \<in> set (bus_gs b)" for g
    proof -
      from assms(1) that have ok: "sub_ok (bus_store b) h g" by (simp add: bus_inv_def)
      with sb(2) show ne: "g_ch g \<noteq> c" by (auto simp: sub_ok_def)
      show "sub_ok st h g" by (rule sub_ok_mono [OF ok]) (use ne sb in auto)
    qed
    have topic: "t' = t" if "(t', c) \<in> live st" for t'
      using that sb(2,4) live_alloc [OF i] by blast
    let ?g = "\<lparr>g_topic = t, g_ch = c, g_cancelled = False, g_running = True, g_handled = []\<rparr>"
    have new: "sub_ok st h ?g" using sb(3,5) topic by (simp add: sub_ok_def)
    show ?thesis
    proof (cases "bus_closed b")
      case False
      with assms(2) eq have b': "b' = b\<lparr>bus_store := st, bus_subs := bus_subs b @ [length (bus_gs b)],
          bus_gs := bus_gs b @ [?g]\<rparr>" by (simp add: Bus_Subscribe_def Let_def)
      have "c \<notin> g_ch ` set (bus_gs b)" using old(2) by blast
      then show ?thesis using assms(1) sb(1) old(1) new unfolding b' by (simp add: bus_inv_def)
    qed (use assms in \<open>simp add: Bus_Subscribe_def\<close>)
  qed
qed

lemma store_shrinks_inv:
  assumes "bus_inv b h" "inv st" "live st \<subseteq> live (bus_store b)" "alloc st = alloc (bus_store b)"
    "\<And>d. queue d st = queue d (bus_store b)"
  shows "bus_inv (b\<lparr>bus_store := st\<rparr>) h"
  using assms by (auto simp: bus_inv_def intro: sub_ok_mono)

lemma update_sub_inv:
  assumes "bus_inv b h" "i < length (bus_gs b)" "g_ch g' = g_ch (bus_gs b ! i)"
    "g_topic g' = g_topic (bus_gs b ! i)" "g_handled g' = g_handled (bus_gs b ! i)"
  shows "bus_inv (b\<lparr>bus_gs := (bus_gs b)[i := g']\<rparr>) h"
proof -
  have "map g_ch ((bus_gs b)[i := g']) = map g_ch (bus_gs b)"
    using assms(2,3) by (simp add: map_update list_update_id map_update)
      (metis length_map list_update_id nth_map)
  moreover have "sub_ok (bus_store b) h g'"
    using assms by (simp add: bus_inv_def sub_ok_def)
  ultimately show ?thesis
    using assms(1) by (auto simp: bus_inv_def dest!: set_update_subset_insert [THEN subsetD])
qed

lemma goroutine_inv:
  assumes "bus_inv b h"
  shows "bus_inv (goroutine_step S i c b) h"
proof (cases "i < length (bus_gs b) \<and> g_running (bus_gs b ! i)")
  case True
  let ?g = "bus_gs b ! i"
  have g: "?g \<in> set (bus_gs b)" "sub_ok (bus_store b) h ?g" "inv (bus_store b)"
    using True assms by (simp_all add: bus_inv_def)
  have stop: "bus_inv (b\<lparr>bus_gs := (bus_gs b)[i := ?g\<lparr>g_running := False\<rparr>]\<rparr>) h"
    using update_sub_inv [OF assms] True by simp
  obtain r st where rv: "so_recv S (g_ch ?g) (bus_store b) = (r, st)" by fastforce
  note rc = recv [OF g(3) _ rv]
  have got: "bus_inv (b\<lparr>bus_store := st,
      bus_gs := (bus_gs b)[i := ?g\<lparr>g_handled := g_handled ?g @ [m]\<rparr>]\<rparr>) h" if "r = Got m" for m
  proof -
    have ok: "sub_ok st h (?g\<lparr>g_handled := g_handled ?g @ [m]\<rparr>)"
      using rc g(2) that by (auto simp: sub_ok_def)
    have other: "sub_ok st h g'" if g': "g' \<in> set (bus_gs b)" "g_ch g' \<noteq> g_ch ?g" for g'
    proof (rule sub_ok_mono)
      show "sub_ok (bus_store b) h g'" using g' assms by (simp add: bus_inv_def)
    qed (use rc g(2) g'(2) in \<open>auto simp: sub_ok_def\<close>)
    have d: "distinct (map g_ch (bus_gs b))" using assms by (simp add: bus_inv_def)
    have diff: "g_ch (bus_gs b ! j) \<noteq> g_ch ?g" if "j \<noteq> i" "j < length (bus_gs b)" for j
      using d True that by (metis length_map nth_eq_iff_index_eq nth_map)
    have m: "map g_ch ((bus_gs b)[i := ?g\<lparr>g_handled := g_handled ?g @ [m]\<rparr>]) = map g_ch (bus_gs b)"
      using True by (intro nth_equalityI) (auto simp: nth_list_update)
    have all: "sub_ok st h g'"
      if g': "g' \<in> set ((bus_gs b)[i := ?g\<lparr>g_handled := g_handled ?g @ [m]\<rparr>])" for g'
    proof -
      from g' obtain j where j: "j < length (bus_gs b)"
        "g' = (bus_gs b)[i := ?g\<lparr>g_handled := g_handled ?g @ [m]\<rparr>] ! j"
        by (auto simp: in_set_conv_nth)
      show ?thesis using j ok other [of g'] diff [of j] by (cases "j = i") auto
    qed
    have "inv st" using rc g(2) by (simp add: sub_ok_def)
    then show ?thesis using all m d by (simp add: bus_inv_def)
  qed
  show ?thesis
    using True assms stop got rv
    by (cases c; cases r) (simp_all add: goroutine_step_def Let_def)
qed (use assms in \<open>auto simp: goroutine_step_def\<close>)

lemma cancel_inv:
  assumes "bus_inv b h" "i < length (bus_gs b)" "CancelFunc S i b = Some b'"
  shows "bus_inv b' h"
proof (cases "g_cancelled (bus_gs b ! i)")
  case False
  let ?g = "bus_gs b ! i"
  from assms(1) have i: "inv (bus_store b)" by (simp add: bus_inv_def)
  from unsubscribe [OF i, of "g_topic ?g" "g_ch ?g"] obtain r st where
    u: "so_Unsubscribe S (g_topic ?g) (g_ch ?g) (bus_store b) = Some (r, st)" "inv st"
      "live st = live (bus_store b) - {(g_topic ?g, g_ch ?g)}" "alloc st = alloc (bus_store b)"
      "\<forall>d. queue d st = queue d (bus_store b)" by blast
  have "live st \<subseteq> live (bus_store b)" using u(3) by blast
  from store_shrinks_inv [OF assms(1) u(2) this u(4)] u(5)
  have "bus_inv (b\<lparr>bus_store := st\<rparr>) h" by blast
  from update_sub_inv [OF this, of i "?g\<lparr>g_cancelled := True\<rparr>"] assms(2)
  have "bus_inv (b\<lparr>bus_store := st, bus_gs := (bus_gs b)[i := ?g\<lparr>g_cancelled := True\<rparr>]\<rparr>) h" by simp
  with u(1) assms(3) False show ?thesis by (auto simp: CancelFunc_def Let_def bus_inv_def)
qed (use assms in \<open>simp add: CancelFunc_def\<close>)

lemma close_inv:
  assumes "bus_inv b h" "Bus_Close S b = Some b'"
  shows "bus_inv b' h"
proof (cases "bus_closed b")
  case False
  from assms(1) have i: "inv (bus_store b)" by (simp add: bus_inv_def)
  from close [OF i] obtain st where st: "so_Close S (bus_store b) = Some st" "inv st"
    "live st \<subseteq> live (bus_store b)" "alloc st = alloc (bus_store b)"
    "\<forall>d. queue d st = queue d (bus_store b)" by blast
  then have "bus_inv (b\<lparr>bus_store := st\<rparr>) h" using store_shrinks_inv [OF assms(1) st(2-4)] by blast
  with st(1) assms(2) False show ?thesis by (auto simp: Bus_Close_def bus_inv_def)
qed (use assms in \<open>simp add: Bus_Close_def\<close>)

lemma step_inv:
  assumes "bus_inv b h" "bus_step S (b, h) (b', h')"
  shows "bus_inv b' h'"
  using assms(2)
proof cases
  case (step_publish tm m ok)
  then show ?thesis
    using assms(1) publish_inv [OF assms(1), of tm m]
    by (auto simp: Bus_Publish_def bus_inv_def sub_ok_history split: if_splits option.splits)
next
  case (step_publish_sync tm m r)
  then show ?thesis
    using assms(1) publish_inv [OF assms(1), of tm m]
    by (auto simp: Bus_PublishSync_def bus_inv_def sub_ok_history split: if_splits option.splits)
qed (use subscribe_inv [OF assms(1)] goroutine_inv [OF assms(1)] cancel_inv [OF assms(1)]
    close_inv [OF assms(1)] in \<open>simp_all\<close>)

lemma run_inv:
  assumes "inv s0" "bus_run S s0 b h"
  shows "bus_inv b h"
proof -
  have "bus_inv (NewBus s0) []" using assms(1) by (simp add: bus_inv_def NewBus_def)
  with assms(2)[unfolded bus_run_def] show ?thesis
  proof (induction "(b, h)" arbitrary: b h rule: rtranclp_induct)
    case (step y)
    obtain b1 h1 where y: "y = (b1, h1)" by (cases y)
    from step y have "bus_inv b1 h1" "bus_step S (b1, h1) (b, h)" by simp_all
    then show ?case by (rule step_inv)
  qed simp
qed

text \<open>Handlers see a subsequence of the messages published on their topic, in that order.\<close>

lemma handled_in_order:
  assumes "inv s0" "bus_run S s0 b h" "g \<in> set (bus_gs b)"
  shows "subseq (g_handled g) (concat (map (deliveries (g_topic g)) h))"
  using run_inv [OF assms(1,2)] assms(3)
  by (auto simp: bus_inv_def sub_ok_def dest!: bspec intro: subseq_order.trans list_emb_append2)

text \<open>While the bus is open, a subscription that was not cancelled is live in the store.\<close>

definition bus_live :: "('p, 's) bus \<Rightarrow> bool" where
  "bus_live b \<longleftrightarrow> bus_closed b \<or>
     (\<forall>g\<in>set (bus_gs b). g_cancelled g \<or> (g_topic g, g_ch g) \<in> live (bus_store b))"

lemma publish_live:
  assumes "bus_inv b h" "bus_live b" "so_Publish S tm m (bus_store b) = Some (r, st)"
  shows "bus_live (b\<lparr>bus_store := st\<rparr>)"
  using publish [of "bus_store b" tm m] assms by (auto simp: bus_inv_def bus_live_def)

lemma subscribe_live:
  assumes "bus_inv b h" "bus_live b" "Bus_Subscribe S t b = (r, b')"
  shows "bus_live b'"
proof (cases "so_Subscribe S t (bus_store b)")
  case (Pair res st)
  from assms(1) have i: "inv (bus_store b)" by (simp add: bus_inv_def)
  show ?thesis
  proof (cases res)
    case (Inl e)
    then show ?thesis
      using assms Pair subscribe_err [OF i, of t e st] by (auto simp: Bus_Subscribe_def bus_live_def split: if_splits)
  next
    case (Inr c)
    with subscribe [OF i, of t c st] Pair have "live st = insert (t, c) (live (bus_store b))" by simp
    then show ?thesis using assms(2,3) Pair Inr
      by (auto simp: Bus_Subscribe_def bus_live_def Let_def split: if_splits)
  qed
qed

lemma goroutine_live:
  assumes "bus_inv b h" "bus_live b"
  shows "bus_live (goroutine_step S i c b)"
proof (cases "i < length (bus_gs b) \<and> g_running (bus_gs b ! i)")
  case True
  let ?g = "bus_gs b ! i"
  have g: "?g \<in> set (bus_gs b)" "sub_ok (bus_store b) h ?g" "inv (bus_store b)"
    using True assms(1) by (simp_all add: bus_inv_def)
  obtain r st where rv: "so_recv S (g_ch ?g) (bus_store b) = (r, st)" by fastforce
  have l: "live st = live (bus_store b)" using recv [OF g(3) _ rv] g(2) by (simp add: sub_ok_def)
  have stop: "bus_live (b\<lparr>bus_store := st', bus_gs := (bus_gs b)[i := g']\<rparr>)"
    if "g_topic g' = g_topic ?g" "g_ch g' = g_ch ?g" "g_cancelled g' = g_cancelled ?g"
      "live st' = live (bus_store b)" for g' st'
    using assms(2) that g(1) by (auto simp: bus_live_def dest!: set_update_subset_insert [THEN subsetD])
  show ?thesis
    using True assms(2) rv l stop [of "?g\<lparr>g_running := False\<rparr>" "bus_store b"]
      stop [of "?g\<lparr>g_handled := g_handled ?g @ [m]\<rparr>" st for m]
    by (cases c; cases r) (simp_all add: goroutine_step_def Let_def)
qed (use assms in \<open>auto simp: goroutine_step_def\<close>)

lemma cancel_live:
  assumes "bus_inv b h" "bus_live b" "i < length (bus_gs b)" "CancelFunc S i b = Some b'"
  shows "bus_live b'"
proof (cases "g_cancelled (bus_gs b ! i)")
  case False
  let ?g = "bus_gs b ! i"
  from assms(1) have i: "inv (bus_store b)" and d: "distinct (map g_ch (bus_gs b))"
    by (simp_all add: bus_inv_def)
  from unsubscribe [OF i, of "g_topic ?g" "g_ch ?g"] obtain r st where
    u: "so_Unsubscribe S (g_topic ?g) (g_ch ?g) (bus_store b) = Some (r, st)"
      "live st = live (bus_store b) - {(g_topic ?g, g_ch ?g)}" by blast
  have b': "b' = b\<lparr>bus_store := st, bus_subs := filter (\<lambda>j. j \<noteq> i) (bus_subs b),
      bus_gs := (bus_gs b)[i := ?g\<lparr>g_cancelled := True\<rparr>]\<rparr>"
    using u(1) assms(4) False by (simp add: CancelFunc_def Let_def)
  have "g_cancelled g \<or> (g_topic g, g_ch g) \<in> live st"
    if opened: "\<not> bus_closed b" and g: "g \<in> set (bus_gs b')" for g
  proof -
    from g obtain j where j: "j < length (bus_gs b)" "g = (bus_gs b)[i := ?g\<lparr>g_cancelled := True\<rparr>] ! j"
      by (auto simp: b' in_set_conv_nth)
    show ?thesis
    proof (cases "j = i")
      case False
      with d assms(3) j(1) have "g_ch (bus_gs b ! j) \<noteq> g_ch ?g"
        by (metis length_map nth_eq_iff_index_eq nth_map)
      with False j opened assms(2) u(2) show ?thesis by (auto simp: bus_live_def)
    qed (use j in simp)
  qed
  then show ?thesis by (auto simp: bus_live_def b')
qed (use assms in \<open>simp add: CancelFunc_def\<close>)

lemma step_live:
  assumes "bus_inv b h" "bus_live b" "bus_step S (b, h) (b', h')"
  shows "bus_live b'"
  using assms(3)
proof cases
  case (step_publish tm m ok)
  then show ?thesis
    using assms(2) publish_live [OF assms(1,2), of tm m]
    by (auto simp: Bus_Publish_def split: if_splits option.splits)
next
  case (step_publish_sync tm m r)
  then show ?thesis
    using assms(2) publish_live [OF assms(1,2), of tm m]
    by (auto simp: Bus_PublishSync_def split: if_splits option.splits)
next
  case step_close
  then show ?thesis using assms(2) by (auto simp: Bus_Close_def bus_live_def split: if_splits)
qed (use subscribe_live [OF assms(1,2)] goroutine_live [OF assms(1,2)] cancel_live [OF assms(1,2)]
    in \<open>simp_all\<close>)

lemma run_live:
  assumes "inv s0" "bus_run S s0 b h"
  shows "bus_live b"
proof -
  have "bus_inv (NewBus s0) [] \<and> bus_live (NewBus s0)"
    using assms(1) by (simp add: bus_inv_def bus_live_def NewBus_def)
  with assms(2)[unfolded bus_run_def] have "bus_inv b h \<and> bus_live b"
  proof (induction "(b, h)" arbitrary: b h rule: rtranclp_induct)
    case (step y)
    obtain b1 h1 where y: "y = (b1, h1)" by (cases y)
    from step y have "bus_inv b1 h1" "bus_live b1" "bus_step S (b1, h1) (b, h)" by simp_all
    then show ?case using step_inv [of b1 h1 b h] step_live [of b1 h1 b h] by simp
  qed simp
  then show ?thesis ..
qed

text \<open>Publishing on an open bus reaches every subscription that has room, whatever ran before.\<close>

lemma publish_reaches:
  assumes "inv s0" "bus_run S s0 b h" "\<not> bus_closed b" "g \<in> set (bus_gs b)" "\<not> g_cancelled g"
    "\<forall>c. \<not> tm c" "length (queue (g_ch g) (bus_store b)) + length (deliveries (g_topic g) m) \<le> chan_cap"
    "Bus_PublishSync S tm m b = Some (r, b')"
  shows "queue (g_ch g) (bus_store b') = queue (g_ch g) (bus_store b) @ deliveries (g_topic g) m"
proof -
  from run_inv [OF assms(1,2)] have i: "inv (bus_store b)" by (simp add: bus_inv_def)
  from run_live [OF assms(1,2)] assms(3-5) have l: "(g_topic g, g_ch g) \<in> live (bus_store b)"
    by (auto simp: bus_live_def)
  from assms(3,8) have "so_Publish S tm m (bus_store b) = Some (r, bus_store b')"
    by (auto simp: Bus_PublishSync_def split: option.splits)
  from publish_room [OF i this assms(6) l assms(7)] show ?thesis .
qed

lemma no_panic:
  assumes "inv s0" "bus_run S s0 b h"
  shows "Bus_Publish S tm m b \<noteq> None \<and> Bus_PublishSync S tm m b \<noteq> None \<and>
    CancelFunc S i b \<noteq> None \<and> Bus_Close S b \<noteq> None"
proof -
  from run_inv [OF assms] have i: "inv (bus_store b)" by (simp add: bus_inv_def)
  obtain r1 s1 where p: "so_Publish S tm m (bus_store b) = Some (r1, s1)"
    using publish [OF i, of tm m] by metis
  obtain r2 s2 where u: "so_Unsubscribe S (g_topic (bus_gs b ! i)) (g_ch (bus_gs b ! i)) (bus_store b) = Some (r2, s2)"
    using unsubscribe [OF i, of "g_topic (bus_gs b ! i)" "g_ch (bus_gs b ! i)"] by metis
  obtain s3 where c: "so_Close S (bus_store b) = Some s3" using close [OF i] by metis
  from p u c show ?thesis
    by (simp add: Bus_Publish_def Bus_PublishSync_def CancelFunc_def Bus_Close_def Let_def ex_bool_eq)
qed

end

section \<open>\<^verbatim>\<open>MemoryStore\<close> keeps the contract\<close>

definition mem_inv :: "'p memory_store \<Rightarrow> bool" where
  "mem_inv s \<longleftrightarrow> distinct (map fst (ms_subs s)) \<and> distinct (all_chans s) \<and>
     (\<forall>c\<in>set (all_chans s). c < length (ms_heap s) \<and> \<not> ch_closed (ms_heap s ! c)) \<and>
     (\<forall>ch\<in>set (ms_heap s). length (ch_buf ch) \<le> chan_cap) \<and>
     (ms_closed s \<longrightarrow> ms_subs s = [])"

definition mem_queue :: "chan \<Rightarrow> 'p memory_store \<Rightarrow> 'p message list" where
  "mem_queue c s = (if c < length (ms_heap s) then ch_buf (ms_heap s ! c) else [])"

definition mem_live :: "'p memory_store \<Rightarrow> (string \<times> chan) set" where
  "mem_live s = {(t, c). c \<in> set (subs_of t s)}"

definition mem_alloc :: "'p memory_store \<Rightarrow> chan set" where
  "mem_alloc s = {..<length (ms_heap s)}"

lemma mset_alist_put:
  "mset (concat (map snd (alist_put k v m))) + mset (case map_of m k of None \<Rightarrow> [] | Some l \<Rightarrow> l) =
   mset (concat (map snd m)) + mset v"
  by (induction m) auto

lemma mset_alist_delete:
  assumes "distinct (map fst m)"
  shows "mset (concat (map snd (filter (\<lambda>(t, _). t \<noteq> k) m))) +
     mset (case map_of m k of None \<Rightarrow> [] | Some l \<Rightarrow> l) = mset (concat (map snd m))"
  using assms
proof (induction m)
  case (Cons p m)
  show ?case
  proof (cases "fst p = k")
    case True
    with Cons.prems have "map_of m k = None" by (force simp: map_of_eq_None_iff)
    with Cons True show ?thesis by (cases p) auto
  qed (use Cons in \<open>cases p; auto\<close>)
qed simp

lemma mset_subs_of: "mset (subs_of t s) \<subseteq># mset (all_chans s)"
proof -
  have "mset (case map_of m k of None \<Rightarrow> [] | Some l \<Rightarrow> l) \<subseteq># mset (concat (map snd m))"
    for m :: "(string \<times> chan list) list" and k
    by (induction m) (auto intro: subset_mset.add_increasing)
  then show ?thesis by (simp add: subs_of_def all_chans_def)
qed

lemma subs_of_all_chans: "c \<in> set (subs_of t s) \<Longrightarrow> c \<in> set (all_chans s)"
  using mset_subs_of [of t s] by (metis mset_subset_eqD set_mset_mset)

lemma subs_of_distinct: "mem_inv s \<Longrightarrow> distinct (subs_of t s)"
  by (auto simp: mem_inv_def subs_of_def all_chans_def distinct_concat_iff split: option.splits
      dest!: map_of_SomeD)

lemma subs_of_topic:
  assumes "distinct (all_chans s)" "c \<in> set (subs_of t s)" "c \<in> set (subs_of t' s)"
  shows "t = t'"
proof -
  have core: "t = t'" if "distinct (concat (map snd m))" "map_of m t = Some l" "map_of m t' = Some l'"
    "c \<in> set l" "c \<in> set l'" for m :: "(string \<times> chan list) list" and l l'
    using that
  proof (induction m)
    case (Cons p m)
    have "c \<in> set (concat (map snd m))" if "map_of m k = Some x" "c \<in> set x" for k x
      using that by (force dest: map_of_SomeD)
    with Cons show ?case by (cases p) (auto split: if_splits)
  qed simp
  have found: "\<exists>l. map_of (ms_subs s) k = Some l \<and> c \<in> set l" if "c \<in> set (subs_of k s)" for k
    using that by (cases "map_of (ms_subs s) k") (simp_all add: subs_of_def)
  from found [OF assms(2)] found [OF assms(3)] show ?thesis
    using core [of "ms_subs s"] assms(1) by (auto simp: all_chans_def)
qed

lemma mem_live_functional:
  "mem_inv s \<Longrightarrow> (t, c) \<in> mem_live s \<Longrightarrow> (t', c) \<in> mem_live s \<Longrightarrow> t = t'"
  by (auto simp: mem_live_def mem_inv_def dest: subs_of_topic)

lemma mem_live_open:
  "mem_inv s \<Longrightarrow> (t, c) \<in> mem_live s \<Longrightarrow> c < length (ms_heap s) \<and> \<not> ch_closed (ms_heap s ! c)"
  by (auto simp: mem_live_def mem_inv_def dest: subs_of_all_chans)

text \<open>The effect of sending to a list of open channels.\<close>

definition same_subs :: "'p memory_store \<Rightarrow> 'p memory_store \<Rightarrow> bool" where
  "same_subs s s' \<longleftrightarrow> ms_subs s' = ms_subs s \<and> ms_closed s' = ms_closed s \<and>
     length (ms_heap s') = length (ms_heap s) \<and>
     (\<forall>c<length (ms_heap s). ch_closed (ms_heap s' ! c) = ch_closed (ms_heap s ! c)) \<and>
     ((\<forall>ch\<in>set (ms_heap s). length (ch_buf ch) \<le> chan_cap) \<longrightarrow>
       (\<forall>ch\<in>set (ms_heap s'). length (ch_buf ch) \<le> chan_cap))"

lemma same_subs_inv:
  assumes "same_subs s s'" "mem_inv s"
  shows "mem_inv s'"
proof -
  from assms(1) have "all_chans s' = all_chans s" by (simp add: same_subs_def all_chans_def)
  with assms show ?thesis by (simp add: same_subs_def mem_inv_def)
qed

lemma same_subs_live: "same_subs s s' \<Longrightarrow> mem_live s' = mem_live s \<and> mem_alloc s' = mem_alloc s"
  by (simp add: same_subs_def mem_live_def mem_alloc_def subs_of_def)

lemma same_subs_trans: "same_subs s s' \<Longrightarrow> same_subs s' s'' \<Longrightarrow> same_subs s s''"
  unfolding same_subs_def by (elim conjE) (intro conjI impI, metis+)

lemma same_subs_buf:
  assumes "c < length (ms_heap s)" "length buf \<le> chan_cap"
  shows "same_subs s (s\<lparr>ms_heap := (ms_heap s)[c := (ms_heap s ! c)\<lparr>ch_buf := buf\<rparr>]\<rparr>)"
proof -
  have "length (ch_buf ch) \<le> chan_cap"
    if "\<forall>ch\<in>set (ms_heap s). length (ch_buf ch) \<le> chan_cap"
      "ch \<in> set ((ms_heap s)[c := (ms_heap s ! c)\<lparr>ch_buf := buf\<rparr>])" for ch
    using that(1) subsetD [OF set_update_subset_insert that(2)] assms(2) by auto
  then show ?thesis using assms(1) by (simp add: same_subs_def nth_list_update)
qed

lemma try_send_effect:
  assumes "c < length (ms_heap s)" "\<not> ch_closed (ms_heap s ! c)"
  obtains s' where "try_send m c s = Some s'" "same_subs s s'"
    "mem_queue c s' = mem_queue c s @ (if length (mem_queue c s) < chan_cap then [m] else [])"
    "\<And>d. d \<noteq> c \<Longrightarrow> mem_queue d s' = mem_queue d s"
proof (cases "length (ch_buf (ms_heap s ! c)) < chan_cap")
  case True
  let ?s = "s\<lparr>ms_heap := (ms_heap s)[c := (ms_heap s ! c)\<lparr>ch_buf := ch_buf (ms_heap s ! c) @ [m]\<rparr>]\<rparr>"
  show ?thesis
    by (rule that [of ?s]) (use True assms in \<open>auto simp: try_send_def Let_def mem_queue_def intro: same_subs_buf\<close>)
next
  case False
  show ?thesis
    by (rule that [of s]) (use False assms in \<open>auto simp: try_send_def Let_def mem_queue_def same_subs_def\<close>)
qed

lemma send_all_effect:
  assumes "\<forall>c\<in>set cs. c < length (ms_heap s) \<and> \<not> ch_closed (ms_heap s ! c)"
  shows "\<exists>r s'. send_all tm m cs s = Some (r, s') \<and> same_subs s s' \<and>
    (\<forall>c. \<exists>n\<le>count_list cs c. mem_queue c s' = mem_queue c s @ replicate n m \<and>
       ((\<forall>d\<in>set cs. \<not> tm d) \<and> length (mem_queue c s) + count_list cs c \<le> chan_cap \<longrightarrow>
          n = count_list cs c \<and> r = Inr ()))"
  using assms
proof (induction cs arbitrary: s)
  case Nil
  then show ?case by (auto simp: same_subs_def)
next
  case (Cons c cs)
  show ?case
  proof (cases "tm c")
    case True
    then show ?thesis by (auto simp: same_subs_def)
  next
    case False
    obtain s1 where s1: "try_send m c s = Some s1" "same_subs s s1"
      "mem_queue c s1 = mem_queue c s @ (if length (mem_queue c s) < chan_cap then [m] else [])"
      "\<And>d. d \<noteq> c \<Longrightarrow> mem_queue d s1 = mem_queue d s"
      using try_send_effect [of c s m] Cons.prems by auto
    have "\<forall>c\<in>set cs. c < length (ms_heap s1) \<and> \<not> ch_closed (ms_heap s1 ! c)"
      using Cons.prems s1(2) by (auto simp: same_subs_def)
    from Cons.IH [OF this] obtain r s' where ih: "send_all tm m cs s1 = Some (r, s')" "same_subs s1 s'"
      "\<And>d. \<exists>n\<le>count_list cs d. mem_queue d s' = mem_queue d s1 @ replicate n m \<and>
         ((\<forall>d\<in>set cs. \<not> tm d) \<and> length (mem_queue d s1) + count_list cs d \<le> chan_cap \<longrightarrow>
            n = count_list cs d \<and> r = Inr ())" by blast
    have "\<exists>n\<le>count_list (c # cs) d. mem_queue d s' = mem_queue d s @ replicate n m \<and>
         ((\<forall>d\<in>set (c # cs). \<not> tm d) \<and> length (mem_queue d s) + count_list (c # cs) d \<le> chan_cap \<longrightarrow>
            n = count_list (c # cs) d \<and> r = Inr ())" for d
    proof -
      from ih(3) [of d] obtain n where n: "n \<le> count_list cs d"
        "mem_queue d s' = mem_queue d s1 @ replicate n m"
        "(\<forall>d\<in>set cs. \<not> tm d) \<and> length (mem_queue d s1) + count_list cs d \<le> chan_cap \<longrightarrow>
            n = count_list cs d \<and> r = Inr ()" by blast
      show ?thesis
      proof (cases "d = c")
        case True
        show ?thesis
          by (rule exI [of _ "n + (if length (mem_queue c s) < chan_cap then 1 else 0)"])
            (use n True s1(3) in auto)
      qed (use n s1(4) in auto)
    qed
    with False s1 ih(1,2) show ?thesis by (auto intro: same_subs_trans)
  qed
qed

lemma count_list_distinct: "distinct xs \<Longrightarrow> count_list xs c = (if c \<in> set xs then 1 else 0)"
  by (induction xs) auto

definition targets :: "string \<Rightarrow> 'p memory_store \<Rightarrow> chan list" where
  "targets topic s = subs_of topic s @ subs_of ''*'' s"

lemma count_targets:
  assumes "mem_inv s"
  shows "(t, c) \<in> mem_live s \<Longrightarrow>
      count_list (targets topic s) c = (if topic = t then 1 else 0) + (if t = ''*'' then 1 else 0)"
    and "(\<And>t. (t, c) \<notin> mem_live s) \<Longrightarrow> count_list (targets topic s) c = 0"
proof -
  have d: "count_list (subs_of k s) c = (if (k, c) \<in> mem_live s then 1 else 0)" for k
    using subs_of_distinct [OF assms] by (simp add: count_list_distinct mem_live_def)
  show "count_list (targets topic s) c = (if topic = t then 1 else 0) + (if t = ''*'' then 1 else 0)"
    if "(t, c) \<in> mem_live s"
  proof -
    have "(k, c) \<in> mem_live s \<longleftrightarrow> k = t" for k using that mem_live_functional [OF assms] by blast
    then show ?thesis by (simp add: targets_def d)
  qed
  show "count_list (targets topic s) c = 0" if "\<And>t. (t, c) \<notin> mem_live s"
    using that by (simp add: targets_def d)
qed

lemma targets_open:
  assumes "mem_inv s" "c \<in> set (targets topic s)"
  shows "c < length (ms_heap s) \<and> \<not> ch_closed (ms_heap s ! c)"
proof -
  from assms(2) have "c \<in> set (all_chans s)" by (auto simp: targets_def dest: subs_of_all_chans)
  with assms(1) show ?thesis by (simp add: mem_inv_def)
qed

lemma length_deliveries: "deliveries t m = replicate (length (deliveries t m)) m"
  by (simp add: deliveries_def)

lemma subseq_replicate: "n \<le> k \<Longrightarrow> subseq (replicate n x) (replicate k x)"
  by (metis le_add_diff_inverse2 list_emb_append2 replicate_add subseq_order.refl)

text \<open>Publishing: no panic, and what each subscription gets; everything when it has room.\<close>

lemma mem_publish:
  assumes "mem_inv s"
  shows "\<exists>r s'. MemoryStore_Publish tm m s = Some (r, s') \<and> mem_inv s' \<and>
      mem_live s' = mem_live s \<and> mem_alloc s' = mem_alloc s \<and>
      (\<forall>c. \<exists>xs. mem_queue c s' = mem_queue c s @ xs \<and>
         (xs = [] \<or> (\<exists>t. (t, c) \<in> mem_live s \<and> subseq xs (deliveries t m))))"
proof (cases "ms_closed s")
  case True
  with assms show ?thesis by (simp add: MemoryStore_Publish_def publish_targets_def)
next
  case False
  from send_all_effect [of "targets (msg_Topic m) s" s tm m] targets_open [OF assms]
  obtain r s' where e: "send_all tm m (targets (msg_Topic m) s) s = Some (r, s')" "same_subs s s'"
    "\<And>c. \<exists>n\<le>count_list (targets (msg_Topic m) s) c. mem_queue c s' = mem_queue c s @ replicate n m"
    by blast
  have "\<exists>xs. mem_queue c s' = mem_queue c s @ xs \<and>
      (xs = [] \<or> (\<exists>t. (t, c) \<in> mem_live s \<and> subseq xs (deliveries t m)))" for c
  proof -
    from e(3) [of c] obtain n where n: "n \<le> count_list (targets (msg_Topic m) s) c"
      "mem_queue c s' = mem_queue c s @ replicate n m" by blast
    show ?thesis
    proof (cases "\<exists>t. (t, c) \<in> mem_live s")
      case True
      then obtain t where t: "(t, c) \<in> mem_live s" by blast
      with n(1) count_targets(1) [OF assms t, of "msg_Topic m"]
      have "subseq (replicate n m) (deliveries t m)"
        by (simp only: deliveries_def) (rule subseq_replicate, simp)
      with n(2) t show ?thesis by blast
    next
      case False
      then have "count_list (targets (msg_Topic m) s) c = 0" by (intro count_targets(2) [OF assms]) blast
      with n show ?thesis by simp
    qed
  qed
  moreover from e(1) False have "MemoryStore_Publish tm m s = Some (r, s')"
    by (simp add: MemoryStore_Publish_def publish_targets_def targets_def)
  ultimately show ?thesis
    using same_subs_inv [OF e(2) assms] same_subs_live [OF e(2)] by blast
qed

lemma mem_publish_delivers:
  assumes "mem_inv s" "MemoryStore_Publish tm m s = Some (r, s')" "\<forall>c. \<not> tm c" "(t, c) \<in> mem_live s"
    "length (mem_queue c s) + length (deliveries t m) \<le> chan_cap"
  shows "mem_queue c s' = mem_queue c s @ deliveries t m"
proof -
  from assms(1,4) have opened: "\<not> ms_closed s" by (auto simp: mem_inv_def mem_live_def subs_of_def)
  from send_all_effect [of "targets (msg_Topic m) s" s tm m] targets_open [OF assms(1)]
  obtain r1 s1 where e: "send_all tm m (targets (msg_Topic m) s) s = Some (r1, s1)"
    "\<And>c. \<exists>n\<le>count_list (targets (msg_Topic m) s) c. mem_queue c s1 = mem_queue c s @ replicate n m \<and>
       ((\<forall>d\<in>set (targets (msg_Topic m) s). \<not> tm d) \<and>
         length (mem_queue c s) + count_list (targets (msg_Topic m) s) c \<le> chan_cap \<longrightarrow>
          n = count_list (targets (msg_Topic m) s) c \<and> r1 = Inr ())"
    by blast
  have n: "count_list (targets (msg_Topic m) s) c = length (deliveries t m)"
    using count_targets(1) [OF assms(1,4), of "msg_Topic m"] by (simp add: deliveries_def)
  have "s1 = s'" using assms(2) opened e(1) by (simp add: MemoryStore_Publish_def publish_targets_def targets_def)
  with e(2) [of c] n assms(3,5) show ?thesis by (metis length_deliveries)
qed

lemma mem_subscribe:
  assumes "mem_inv s" "MemoryStore_Subscribe t s = (Inr c, s')"
  shows "mem_inv s' \<and> c \<notin> mem_alloc s \<and> mem_alloc s' = insert c (mem_alloc s) \<and>
      mem_live s' = insert (t, c) (mem_live s) \<and>
      mem_queue c s' = [] \<and> (\<forall>d. d \<noteq> c \<longrightarrow> mem_queue d s' = mem_queue d s)"
proof -
  from assms(2) have c: "c = length (ms_heap s)" and s': "s' = s\<lparr>ms_heap := ms_heap s @ [\<lparr>ch_buf = [], ch_closed = False\<rparr>],
                  ms_subs := alist_put t (subs_of t s @ [c]) (ms_subs s)\<rparr>"
    by (auto simp: MemoryStore_Subscribe_def Let_def split: if_splits)
  have m: "mset (all_chans s') = add_mset c (mset (all_chans s))"
    using mset_alist_put [of t "subs_of t s @ [c]" "ms_subs s"]
    by (simp add: s' all_chans_def subs_of_def)
  have new: "c \<notin> set (all_chans s)" using assms(1) c by (auto simp: mem_inv_def)
  have "distinct (c # all_chans s)" using new assms(1) by (simp add: mem_inv_def)
  with m have d: "distinct (all_chans s')" by (metis mset.simps(2) mset_eq_imp_distinct_iff)
  have st: "set (all_chans s') = insert c (set (all_chans s))" using m by (metis set_mset_add_mset_insert set_mset_mset)
  have "\<not> ms_closed s'" using assms(2) by (auto simp: MemoryStore_Subscribe_def Let_def split: if_splits)
  then have "mem_inv s'"
    using assms(1) d st by (auto simp: mem_inv_def s' c nth_append)
  moreover have "mem_live s' = insert (t, c) (mem_live s)"
    by (auto simp: mem_live_def subs_of_def s' split: if_splits)
  ultimately show ?thesis by (auto simp: c s' mem_alloc_def mem_queue_def nth_append)
qed

lemma close_chan_effect:
  assumes "c < length (ms_heap s)" "\<not> ch_closed (ms_heap s ! c)"
  obtains s' where "close_chan c s = Some s'" "ms_subs s' = ms_subs s" "ms_closed s' = ms_closed s"
    "length (ms_heap s') = length (ms_heap s)"
    "\<And>d. d < length (ms_heap s) \<Longrightarrow> ch_buf (ms_heap s' ! d) = ch_buf (ms_heap s ! d)"
    "\<And>d. d < length (ms_heap s) \<Longrightarrow> ch_closed (ms_heap s' ! d) = (d = c \<or> ch_closed (ms_heap s ! d))"
  using assms by (intro that [of "s\<lparr>ms_heap := (ms_heap s)[c := (ms_heap s ! c)\<lparr>ch_closed := True\<rparr>]\<rparr>"])
    (auto simp: close_chan_def Let_def nth_list_update)

lemma buf_bound_transfer:
  assumes "length h' = length h" "\<And>d. d < length h \<Longrightarrow> ch_buf (h' ! d) = ch_buf (h ! d)"
    "\<forall>ch\<in>set h. length (ch_buf ch) \<le> k"
  shows "\<forall>ch\<in>set h'. length (ch_buf ch) \<le> k"
  using assms by (metis in_set_conv_nth)

lemma map_of_delete: "map_of (filter (\<lambda>(t', _). t' \<noteq> t) m) k = (if k = t then None else map_of m k)"
  by (induction m) auto

lemma mem_unsubscribe:
  assumes "mem_inv s"
  shows "\<exists>r s'. MemoryStore_Unsubscribe t c s = Some (r, s') \<and> mem_inv s' \<and>
      mem_live s' = mem_live s - {(t, c)} \<and> mem_alloc s' = mem_alloc s \<and>
      (\<forall>d. mem_queue d s' = mem_queue d s)"
proof (cases "c \<in> set (subs_of t s)")
  case True
  let ?rest = "remove1 c (subs_of t s)"
  have l: "c < length (ms_heap s)" "\<not> ch_closed (ms_heap s ! c)"
    using True assms by (auto simp: mem_inv_def dest: subs_of_all_chans)
  from close_chan_effect [OF this] obtain s1 where s1: "close_chan c s = Some s1"
    "ms_subs s1 = ms_subs s" "ms_closed s1 = ms_closed s" "length (ms_heap s1) = length (ms_heap s)"
    "\<And>d. d < length (ms_heap s) \<Longrightarrow> ch_buf (ms_heap s1 ! d) = ch_buf (ms_heap s ! d)"
    "\<And>d. d < length (ms_heap s) \<Longrightarrow> ch_closed (ms_heap s1 ! d) = (d = c \<or> ch_closed (ms_heap s ! d))" by metis
  define m' where "m' = (if ?rest = [] then filter (\<lambda>(t', _). t' \<noteq> t) (ms_subs s) else alist_put t ?rest (ms_subs s))"
  let ?s = "s1\<lparr>ms_subs := m'\<rparr>"
  have u: "MemoryStore_Unsubscribe t c s = Some (Inr (), ?s)"
    using True s1(1) by (simp add: MemoryStore_Unsubscribe_def Let_def m'_def)
  have dk: "distinct (map fst (ms_subs s))" using assms by (simp add: mem_inv_def)
  have keep: "mset ?rest + {#c#} = mset (subs_of t s)" using True by simp
  have "mset (concat (map snd m')) + mset (subs_of t s) = mset (all_chans s) + mset ?rest"
    using mset_alist_delete [OF dk, of t] mset_alist_put [of t ?rest "ms_subs s"]
    by (cases "?rest = []") (simp_all only: m'_def all_chans_def subs_of_def simp_thms if_True if_False mset.simps add_0_right)
  then have ms: "add_mset c (mset (all_chans ?s)) = mset (all_chans s)"
    unfolding keep [symmetric] by (simp add: all_chans_def)
  then have "distinct (c # all_chans ?s)"
    using assms by (metis mem_inv_def mset.simps(2) mset_eq_imp_distinct_iff)
  moreover have "set (all_chans ?s) \<subseteq> set (all_chans s)"
    using ms by (metis set_mset_add_mset_insert set_mset_mset subset_insertI)
  moreover have "distinct (map fst m')"
    using dk by (auto simp: m'_def distinct_map_filter)
  moreover have "subs_of k ?s = (if k = t then ?rest else subs_of k s)" for k
    by (cases "?rest = []") (simp_all add: subs_of_def m'_def map_of_delete)
  then have "mem_live ?s = mem_live s - {(t, c)}"
    using set_remove1_eq [OF subs_of_distinct [OF assms], of c t]
    by (auto simp: mem_live_def split: if_splits)
  moreover have "\<forall>ch\<in>set (ms_heap s1). length (ch_buf ch) \<le> chan_cap"
    by (rule buf_bound_transfer [OF s1(4,5)]) (use assms in \<open>simp_all add: mem_inv_def\<close>)
  ultimately show ?thesis
    using u s1(3-6) assms True
    by (auto simp: mem_inv_def mem_alloc_def mem_queue_def subs_of_def)
qed (use assms in \<open>auto simp: MemoryStore_Unsubscribe_def mem_live_def\<close>)

lemma close_all_effect:
  assumes "distinct cs" "\<forall>c\<in>set cs. c < length (ms_heap s) \<and> \<not> ch_closed (ms_heap s ! c)"
  shows "\<exists>s'. close_all cs s = Some s' \<and> ms_subs s' = ms_subs s \<and> ms_closed s' = ms_closed s \<and>
    length (ms_heap s') = length (ms_heap s) \<and>
    (\<forall>d<length (ms_heap s). ch_buf (ms_heap s' ! d) = ch_buf (ms_heap s ! d))"
  using assms
proof (induction cs arbitrary: s)
  case (Cons c cs)
  then have "c < length (ms_heap s)" "\<not> ch_closed (ms_heap s ! c)" by simp_all
  from close_chan_effect [OF this] obtain s1 where s1: "close_chan c s = Some s1"
    "ms_subs s1 = ms_subs s" "ms_closed s1 = ms_closed s" "length (ms_heap s1) = length (ms_heap s)"
    "\<And>d. d < length (ms_heap s) \<Longrightarrow> ch_buf (ms_heap s1 ! d) = ch_buf (ms_heap s ! d)"
    "\<And>d. d < length (ms_heap s) \<Longrightarrow> ch_closed (ms_heap s1 ! d) = (d = c \<or> ch_closed (ms_heap s ! d))" by metis
  have "\<forall>d\<in>set cs. d < length (ms_heap s1) \<and> \<not> ch_closed (ms_heap s1 ! d)"
    using Cons.prems s1(4,6) by auto
  from Cons.IH [OF _ this] Cons.prems(1) obtain s2 where "close_all cs s1 = Some s2"
    "ms_subs s2 = ms_subs s1" "ms_closed s2 = ms_closed s1" "length (ms_heap s2) = length (ms_heap s1)"
    "\<forall>d<length (ms_heap s1). ch_buf (ms_heap s2 ! d) = ch_buf (ms_heap s1 ! d)" by auto
  with s1 show ?case by simp
qed simp

lemma mem_close:
  assumes "mem_inv s"
  shows "\<exists>s'. MemoryStore_Close s = Some s' \<and> mem_inv s' \<and>
      mem_live s' \<subseteq> mem_live s \<and> mem_alloc s' = mem_alloc s \<and> (\<forall>d. mem_queue d s' = mem_queue d s)"
proof (cases "ms_closed s")
  case False
  let ?s = "s\<lparr>ms_closed := True\<rparr>"
  have o: "\<forall>c\<in>set (all_chans s). c < length (ms_heap ?s) \<and> \<not> ch_closed (ms_heap ?s ! c)"
    using assms by (simp add: mem_inv_def)
  from close_all_effect [OF _ this] assms obtain s' where s': "close_all (all_chans s) ?s = Some s'"
    "length (ms_heap s') = length (ms_heap s)"
    "\<And>d. d < length (ms_heap s) \<Longrightarrow> ch_buf (ms_heap s' ! d) = ch_buf (ms_heap s ! d)"
    by (auto simp: mem_inv_def)
  have b: "\<forall>ch\<in>set (ms_heap s'). length (ch_buf ch) \<le> chan_cap"
    by (rule buf_bound_transfer [OF s'(2,3)]) (use assms in \<open>simp_all add: mem_inv_def\<close>)
  have "MemoryStore_Close s = Some (s'\<lparr>ms_subs := [], ms_closeCh := True\<rparr>)"
    using False s'(1) by (simp add: MemoryStore_Close_def)
  with s'(2,3) b show ?thesis
    by (auto simp: mem_inv_def all_chans_def mem_live_def subs_of_def mem_alloc_def mem_queue_def)
qed (use assms in \<open>simp add: MemoryStore_Close_def\<close>)

lemma mem_recv:
  assumes "mem_inv s" "c \<in> mem_alloc s" "recv c s = (rc, s')"
  shows "mem_inv s' \<and> mem_live s' = mem_live s \<and> mem_alloc s' = mem_alloc s \<and>
      (\<forall>d. d \<noteq> c \<longrightarrow> mem_queue d s' = mem_queue d s) \<and>
      (case rc of Got m \<Rightarrow> mem_queue c s = m # mem_queue c s' | _ \<Rightarrow> mem_queue c s' = mem_queue c s)"
proof (cases "ch_buf (ms_heap s ! c)")
  case Nil
  with assms show ?thesis by (auto simp: recv_def Let_def split: if_splits)
next
  case (Cons m ms)
  have c: "c < length (ms_heap s)" using assms(2) by (simp add: mem_alloc_def)
  with assms(1) have "length (m # ms) \<le> chan_cap"
    unfolding Cons [symmetric] by (simp add: mem_inv_def)
  then have "same_subs s s'" and s': "rc = Got m"
    "s' = s\<lparr>ms_heap := (ms_heap s)[c := (ms_heap s ! c)\<lparr>ch_buf := ms\<rparr>]\<rparr>"
    using assms(3) Cons same_subs_buf [OF c, of ms] by (auto simp: recv_def Let_def)
  from same_subs_inv [OF this(1) assms(1)] same_subs_live [OF this(1)] s' c Cons show ?thesis
    by (simp add: mem_queue_def)
qed

lemma memory_ops_simps [simp]:
  "so_Publish memory_ops = MemoryStore_Publish" "so_Subscribe memory_ops = MemoryStore_Subscribe"
  "so_Unsubscribe memory_ops = MemoryStore_Unsubscribe" "so_Close memory_ops = MemoryStore_Close"
  "so_recv memory_ops = recv"
  by (simp_all add: memory_ops_def)

lemma mem_live_alloc: "mem_inv s \<Longrightarrow> (t, c) \<in> mem_live s \<Longrightarrow> c \<in> mem_alloc s"
  using mem_live_open by (force simp: mem_alloc_def)

lemma mem_subscribe_err: "mem_inv s \<Longrightarrow> MemoryStore_Subscribe t s = (Inl e, s') \<Longrightarrow> s' = s"
  by (auto simp: MemoryStore_Subscribe_def Let_def split: if_splits)

interpretation memory: message_store memory_ops mem_inv mem_queue mem_live mem_alloc
  by (unfold_locales, unfold memory_ops_simps)
    (fact mem_live_alloc mem_publish mem_publish_delivers mem_subscribe_err mem_subscribe
      mem_unsubscribe mem_close mem_recv)+

lemma mem_inv_new: "mem_inv NewMemoryStore"
  by (simp add: mem_inv_def NewMemoryStore_def all_chans_def)

section \<open>Publishing while others unsubscribe\<close>

text \<open>
  \<^verbatim>\<open>Publish\<close> releases the lock before it sends, so other calls run between the sends. \<open>store_step\<close>
  interleaves the sends of any number of publishers in flight (message and remaining channels)
  with the other operations; the state \<open>None\<close> is a panic, which ends the process.
\<close>

type_synonym 'p in_flight = "('p message \<times> chan list) list"

inductive store_step ::
    "'p memory_store option \<times> 'p in_flight \<Rightarrow> 'p memory_store option \<times> 'p in_flight \<Rightarrow> bool" where
  begin_publish: "publish_targets (msg_Topic m) s = Inr cs \<Longrightarrow> store_step (Some s, fl) (Some s, fl @ [(m, cs)])"
| send_one: "i < length fl \<Longrightarrow> fl ! i = (m, c # cs) \<Longrightarrow>
    store_step (Some s, fl) (try_send m c s, fl[i := (m, cs)])"
| give_up: "i < length fl \<Longrightarrow> fl ! i = (m, c # cs) \<Longrightarrow> store_step (Some s, fl) (Some s, fl[i := (m, [])])"
| subscribe: "MemoryStore_Subscribe t s = (r, s') \<Longrightarrow> store_step (Some s, fl) (Some s', fl)"
| unsubscribe: "MemoryStore_Unsubscribe t c s = Some (r, s') \<Longrightarrow> store_step (Some s, fl) (Some s', fl)"
| close: "MemoryStore_Close s = Some s' \<Longrightarrow> store_step (Some s, fl) (Some s', fl)"
| receive: "c < length (ms_heap s) \<Longrightarrow> recv c s = (r, s') \<Longrightarrow> store_step (Some s, fl) (Some s', fl)"

inductive_cases store_stepE: "store_step (Some s, fl) y"

text \<open>While no channel is removed, the channels of the publishers in flight stay open.\<close>

definition flight_ok :: "'p memory_store \<Rightarrow> 'p in_flight \<Rightarrow> bool" where
  "flight_ok s fl \<longleftrightarrow> (\<forall>(m, cs)\<in>set fl. \<forall>c\<in>set cs. c < length (ms_heap s) \<and> \<not> ch_closed (ms_heap s ! c))"

lemma flight_ok_same_subs: "flight_ok s fl \<Longrightarrow> same_subs s s' \<Longrightarrow> flight_ok s' fl"
  by (fastforce simp: flight_ok_def same_subs_def)

lemma flight_ok_update:
  assumes "flight_ok s fl" "i < length fl" "fl ! i = (m, c # cs)"
  shows "flight_ok s (fl[i := (m, cs)])" "flight_ok s (fl[i := (m, [])])"
    "c < length (ms_heap s) \<and> \<not> ch_closed (ms_heap s ! c)"
proof -
  have "(m, c # cs) \<in> set fl" using assms(2,3) by (metis nth_mem)
  with assms(1) have c: "\<forall>d\<in>set (c # cs). d < length (ms_heap s) \<and> \<not> ch_closed (ms_heap s ! d)"
    by (force simp: flight_ok_def)
  then show "c < length (ms_heap s) \<and> \<not> ch_closed (ms_heap s ! c)" by simp
  show "flight_ok s (fl[i := (m, cs)])" "flight_ok s (fl[i := (m, [])])"
    using assms(1) c by (auto simp: flight_ok_def dest!: set_update_subset_insert [THEN subsetD])
qed

definition demo_msg :: "unit message" where
  "demo_msg = \<lparr>msg_ID = ''1'', msg_Topic = ''user.login'', msg_Payload = (), msg_Timestamp = 0, msg_Metadata = []\<rparr>"

lemma racing_run:
  "store_step\<^sup>*\<^sup>* (Some NewMemoryStore, []) (None, [(demo_msg, [])])"
proof -
  let ?s1 = "snd (MemoryStore_Subscribe ''user.login'' NewMemoryStore) :: unit memory_store"
  let ?s2 = "snd (the (MemoryStore_Unsubscribe ''user.login'' 0 ?s1))"
  have 1: "store_step (Some NewMemoryStore, []) (Some ?s1, [])"
    by (rule store_step.subscribe [OF prod.collapse [symmetric]])
  have "publish_targets (msg_Topic demo_msg) ?s1 = Inr [0]" by code_simp
  from store_step.begin_publish [OF this, of "[]"]
  have 2: "store_step (Some ?s1, []) (Some ?s1, [(demo_msg, [0])])" by simp
  have "MemoryStore_Unsubscribe ''user.login'' 0 ?s1 = Some (Inr (), ?s2)" by code_simp
  from store_step.unsubscribe [OF this]
  have 3: "store_step (Some ?s1, [(demo_msg, [0])]) (Some ?s2, [(demo_msg, [0])])" .
  have "try_send demo_msg 0 ?s2 = None" by code_simp
  with store_step.send_one [of 0 "[(demo_msg, [0])]" demo_msg 0 "[]" ?s2]
  have 4: "store_step (Some ?s2, [(demo_msg, [0])]) (None, [(demo_msg, [])])" by simp
  from 1 2 3 4 show ?thesis by (meson rtranclp.rtrancl_refl rtranclp.rtrancl_into_rtrancl)
qed

lemma keep_open:
  assumes "mem_inv s" "flight_ok s fl" "store_step (Some s, fl) (so, fl')"
  shows "so \<noteq> None"
  using assms(3)
proof cases
  case (send_one i m c cs)
  with flight_ok_update(3) [OF assms(2) send_one(3,4)] show ?thesis
    by (simp add: try_send_def Let_def)
qed simp_all

section \<open>Properties\<close>

text \<open>
  When the calls of the bus do not overlap, every handler sees a subsequence, in order, of the messages
  published on its topic, and no operation panics. \<open>SwiftbusRace\<close> treats calls that overlap.
\<close>

lemma sequential_handlers_in_order:
  assumes "bus_run memory_ops NewMemoryStore b h"
  shows "(\<forall>g\<in>set (bus_gs b). subseq (g_handled g) (concat (map (deliveries (g_topic g)) h))) \<and>
    Bus_Publish memory_ops tm m b \<noteq> None \<and> Bus_PublishSync memory_ops tm m b \<noteq> None \<and>
    CancelFunc memory_ops i b \<noteq> None \<and> Bus_Close memory_ops b \<noteq> None"
  using memory.handled_in_order [OF mem_inv_new assms] memory.no_panic [OF mem_inv_new assms]
  by blast

definition demo_open :: "(unit, unit memory_store) bus" where
  "demo_open = snd (Bus_Subscribe memory_ops ''*'' (NewBus NewMemoryStore))"

definition demo_sent :: "(unit, unit memory_store) bus" where
  "demo_sent = snd (the (Bus_Publish memory_ops (\<lambda>_. False) demo_msg demo_open))"

lemma demo_open_run: "bus_run memory_ops NewMemoryStore demo_open []"
  unfolding bus_run_def demo_open_def
  by (rule r_into_rtranclp, rule step_subscribe, rule prod.collapse [symmetric])

text \<open>
  On an open bus a published message is queued, exactly once per matching list, for every
  subscription that was not cancelled and has room in its buffer of 64, when no send runs into the
  deadline; with a full buffer the message is dropped, and \<^verbatim>\<open>Publish\<close> reports success all the same.
\<close>

theorem publish_reaches_open_subscriptions:
  assumes "bus_run memory_ops NewMemoryStore b h" "\<not> bus_closed b" "g \<in> set (bus_gs b)"
    "\<not> g_cancelled g" "\<forall>c. \<not> tm c" "Bus_PublishSync memory_ops tm m b = Some (r, b')"
  shows "(length (mem_queue (g_ch g) (bus_store b)) + length (deliveries (g_topic g) m) \<le> 64 \<longrightarrow>
      mem_queue (g_ch g) (bus_store b') = mem_queue (g_ch g) (bus_store b) @ deliveries (g_topic g) m) \<and>
    r = Inr ()"
proof -
  have inv: "mem_inv (bus_store b)" and opened: "\<not> ms_closed (bus_store b)"
  proof -
    from memory.run_inv [OF mem_inv_new assms(1)] show i: "mem_inv (bus_store b)"
      by (simp add: memory.bus_inv_def)
    from memory.run_live [OF mem_inv_new assms(1)] assms(2-4)
    have "(g_topic g, g_ch g) \<in> mem_live (bus_store b)" by (auto simp: memory.bus_live_def)
    with i show "\<not> ms_closed (bus_store b)" by (auto simp: mem_inv_def mem_live_def subs_of_def)
  qed
  have "fst (the (send_all tm m cs s)) = Inr ()" if "send_all tm m cs s \<noteq> None" for cs and s :: "'a memory_store"
    using that assms(5) by (induction cs arbitrary: s) (auto split: option.splits)
  with opened assms(2,6) have "r = Inr ()"
    by (force simp: Bus_PublishSync_def MemoryStore_Publish_def publish_targets_def split: option.splits)
  with memory.publish_reaches [OF mem_inv_new assms(1-5) _ assms(6)] show ?thesis
    by (auto simp: chan_cap_def)
qed

theorem publish_reaches_open_subscriptions_witness:
  "mem_queue 0 (bus_store demo_sent) = [demo_msg]"
proof -
  have g: "bus_gs demo_open ! 0 \<in> set (bus_gs demo_open)" by (rule nth_mem) code_simp
  have p: "Bus_PublishSync memory_ops (\<lambda>_. False) demo_msg demo_open = Some (Inr (), demo_sent)" by code_simp
  have "\<not> bus_closed demo_open" "\<not> g_cancelled (bus_gs demo_open ! 0)" by code_simp+
  note t = publish_reaches_open_subscriptions [OF demo_open_run this(1) g this(2) _ p]
  have "g_ch (bus_gs demo_open ! 0) = 0" "mem_queue 0 (bus_store demo_open) = []"
    "deliveries (g_topic (bus_gs demo_open ! 0)) demo_msg = [demo_msg]" by code_simp+
  with t show ?thesis by simp
qed

text \<open>
  A publisher whose message is in flight panics when the subscription it is about to send to
  is cancelled meanwhile: the store closes the channel under its lock, the send runs outside it.
\<close>

theorem publish_races_with_unsubscribe:
  "\<exists>fl. store_step\<^sup>*\<^sup>* (Some (NewMemoryStore :: unit memory_store), []) (None, fl)"
  using racing_run by blast

end
