(* ===== verification/Swiftdb.thy ===== *)
theory Swiftdb
  imports GoStrings
begin

text \<open>
  \<^verbatim>\<open>kex-utils/pkg/kexswiftdb\<close>: the interface \<^verbatim>\<open>Store\<close> of the key-value store and its generic JSON
  helpers (\<^verbatim>\<open>store.go\<close>, \<^verbatim>\<open>json.go\<close>). The store's state is a type \<open>'s\<close>; other clients, and expiry, may
  change the stored data at any moment, which the relation \<open>E\<close> between contents describes.

  The locale \<open>kv_store\<close> is the contract \<open>MutateJSON\<close> and \<open>ConsumeJSON\<close> rely on; the providers are
  \<^verbatim>\<open>BadgerStore\<close> (theory \<open>SwiftBadger\<close>) and \<^verbatim>\<open>RedisStore\<close> (theory \<open>SwiftRedis\<close>).
\<close>

section \<open>Keys and errors\<close>

type_synonym Prefix = string

definition PrefixAuth :: Prefix where "PrefixAuth = ''auth''"
definition PrefixBilling :: Prefix where "PrefixBilling = ''billing''"
definition PrefixSession :: Prefix where "PrefixSession = ''session''"
definition PrefixQRCode :: Prefix where "PrefixQRCode = ''qrcode''"
definition PrefixRateLimit :: Prefix where "PrefixRateLimit = ''ratelimit''"
definition PrefixWebhook :: Prefix where "PrefixWebhook = ''webhook''"
definition PrefixAudit :: Prefix where "PrefixAudit = ''audit''"
definition PrefixAnalytics :: Prefix where "PrefixAnalytics = ''analytics''"

datatype store_error = ErrKeyNotFound | ErrStoreClosed | ErrNilClient | ErrCASConflict
  | BackendError string

record store_stats =
  ss_Namespace :: string
  ss_KeyCount :: int

definition buildKey :: "Prefix \<Rightarrow> string \<Rightarrow> string" where
  "buildKey prefix key = prefix @ '':'' @ key"

text \<open>The index of the first colon, if it is positive.\<close>

definition extractPrefix :: "string \<Rightarrow> string" where
  "extractPrefix key =
     (let ns = takeWhile (\<lambda>c. c \<noteq> CHR '':'') key in
      if CHR '':'' \<in> set key \<and> length ns > 0 then ns else key)"

definition maxRetries :: nat where "maxRetries = 8"

text \<open>A stored value with the time to live it was written with; \<open>None\<close>: it does not expire.\<close>

type_synonym content = "string \<Rightarrow> (bytes \<times> duration option) option"

definition ttl_of :: "duration \<Rightarrow> duration option" where
  "ttl_of ttl = (if ttl > 0 then Some ttl else None)"

section \<open>The interface \<^verbatim>\<open>Store\<close>\<close>

text \<open>\<open>old = None\<close> is a nil \<^verbatim>\<open>oldValue\<close>.\<close>

record 's store =
  sf_Set :: "Prefix \<Rightarrow> string \<Rightarrow> bytes \<Rightarrow> duration \<Rightarrow> 's \<Rightarrow> (store_error + unit) \<times> 's"
  sf_Get :: "Prefix \<Rightarrow> string \<Rightarrow> 's \<Rightarrow> (store_error + bytes) \<times> 's"
  sf_Delete :: "Prefix \<Rightarrow> string \<Rightarrow> 's \<Rightarrow> (store_error + unit) \<times> 's"
  sf_Exists :: "Prefix \<Rightarrow> string \<Rightarrow> 's \<Rightarrow> (store_error + bool) \<times> 's"
  sf_SetNX :: "Prefix \<Rightarrow> string \<Rightarrow> bytes \<Rightarrow> duration \<Rightarrow> 's \<Rightarrow> (store_error + bool) \<times> 's"
  sf_CompareAndSwap ::
    "Prefix \<Rightarrow> string \<Rightarrow> bytes option \<Rightarrow> bytes \<Rightarrow> duration \<Rightarrow> 's \<Rightarrow> (store_error + bool) \<times> 's"
  sf_CompareAndDelete :: "Prefix \<Rightarrow> string \<Rightarrow> bytes \<Rightarrow> 's \<Rightarrow> (store_error + bool) \<times> 's"
  sf_Increment :: "Prefix \<Rightarrow> string \<Rightarrow> duration \<Rightarrow> 's \<Rightarrow> (store_error + int) \<times> 's"
  sf_Keys :: "Prefix \<Rightarrow> string \<Rightarrow> 's \<Rightarrow> (store_error + string list) \<times> 's"
  sf_DeleteByPrefix :: "Prefix \<Rightarrow> string \<Rightarrow> 's \<Rightarrow> (store_error + int) \<times> 's"
  sf_Stats :: "'s \<Rightarrow> store_stats list option \<times> 's"
  sf_Ping :: "'s \<Rightarrow> (store_error + unit) \<times> 's"
  sf_Close :: "'s \<Rightarrow> (store_error + unit) \<times> 's"

section \<open>The JSON helpers\<close>

text \<open>
  \<open>enc\<close> and \<open>dec\<close> are \<^verbatim>\<open>json.Marshal\<close> and \<^verbatim>\<open>json.Unmarshal\<close> at the value's type; a callback is a
  function of the value it is given (\<open>None\<close>: nil) returning Go's result tuple.
\<close>

datatype json_error = StoreErr store_error | CodecErr string | CallbackErr string

type_synonym 'v codec = "('v \<Rightarrow> string + bytes) \<times> (bytes \<Rightarrow> string + 'v)"

definition GetJSON ::
    "'v codec \<Rightarrow> 's store \<Rightarrow> Prefix \<Rightarrow> string \<Rightarrow> 's \<Rightarrow> (json_error + 'v) \<times> 's" where
  "GetJSON J S prefix key s =
     (case sf_Get S prefix key s of
        (Inl err, s) \<Rightarrow> (Inl (StoreErr err), s)
      | (Inr data, s) \<Rightarrow>
          (case snd J data of Inl err \<Rightarrow> (Inl (CodecErr err), s) | Inr val \<Rightarrow> (Inr val, s)))"

definition SetJSON ::
    "'v codec \<Rightarrow> 's store \<Rightarrow> Prefix \<Rightarrow> string \<Rightarrow> 'v \<Rightarrow> duration \<Rightarrow> 's \<Rightarrow> (json_error + unit) \<times> 's" where
  "SetJSON J S prefix key val ttl s =
     (case fst J val of
        Inl err \<Rightarrow> (Inl (CodecErr err), s)
      | Inr data \<Rightarrow>
          (case sf_Set S prefix key data ttl s of
             (Inl err, s) \<Rightarrow> (Inl (StoreErr err), s)
           | (Inr _, s) \<Rightarrow> (Inr (), s)))"

text \<open>
  A callback gets a pointer to the decoded value, or nil, and may write through it: the first
  component of its result is that write, if any, the others are what it returns.
\<close>

type_synonym 'v MutateFunc = "'v option \<Rightarrow> 'v option \<times> 'v \<times> bool \<times> duration \<times> string option"

definition pointee :: "'v option \<Rightarrow> 'v \<Rightarrow> 'v" where
  "pointee w v = (case w of None \<Rightarrow> v | Some v' \<Rightarrow> v')"

text \<open>One pass of the loop; \<open>None\<close> is \<^verbatim>\<open>continue\<close> (or reaching the end of the loop body).\<close>

definition mutate_once ::
    "'v codec \<Rightarrow> 's store \<Rightarrow> Prefix \<Rightarrow> string \<Rightarrow> 'v MutateFunc \<Rightarrow> 's \<Rightarrow>
     (json_error + 'v option) option \<times> 's" where
  "mutate_once J S prefix key fn s =
     (case sf_Get S prefix key s of
        (Inl err, s) \<Rightarrow>
          if err = ErrKeyNotFound then
            (case fn None of (_, newVal, ok, ttl, fnErr) \<Rightarrow>
              (case fnErr of
                 Some e \<Rightarrow> (Some (Inl (CallbackErr e)), s)
               | None \<Rightarrow>
                 if \<not> ok then (Some (Inr None), s)
                 else (case fst J newVal of
                     Inl e \<Rightarrow> (Some (Inl (CodecErr e)), s)
                   | Inr newData \<Rightarrow>
                       (case sf_SetNX S prefix key newData ttl s of
                          (Inl e, s) \<Rightarrow> (Some (Inl (StoreErr e)), s)
                        | (Inr created, s) \<Rightarrow>
                            if created then (Some (Inr (Some newVal)), s) else (None, s)))))
          else (Some (Inl (StoreErr err)), s)
      | (Inr data, s) \<Rightarrow>
          (case snd J data of
             Inl e \<Rightarrow> (Some (Inl (CodecErr e)), s)
           | Inr current \<Rightarrow>
             (case fn (Some current) of (w, newVal, ok, ttl, fnErr) \<Rightarrow>
               (case fnErr of
                  Some e \<Rightarrow> (Some (Inl (CallbackErr e)), s)
                | None \<Rightarrow>
                  if \<not> ok then (Some (Inr (Some (pointee w current))), s)
                  else (case fst J newVal of
                      Inl e \<Rightarrow> (Some (Inl (CodecErr e)), s)
                    | Inr newData \<Rightarrow>
                        (case sf_CompareAndSwap S prefix key (Some data) newData ttl s of
                           (Inl e, s) \<Rightarrow> (Some (Inl (StoreErr e)), s)
                         | (Inr swapped, s) \<Rightarrow>
                             if swapped then (Some (Inr (Some newVal)), s) else (None, s)))))))"

fun retry_json ::
    "nat \<Rightarrow> ('s \<Rightarrow> (json_error + 'v option) option \<times> 's) \<Rightarrow> 's \<Rightarrow> (json_error + 'v option) \<times> 's" where
  "retry_json 0 step s = (Inl (StoreErr ErrCASConflict), s)"
| "retry_json (Suc n) step s =
     (case step s of (Some r, s) \<Rightarrow> (r, s) | (None, s) \<Rightarrow> retry_json n step s)"

definition MutateJSON ::
    "'v codec \<Rightarrow> 's store \<Rightarrow> Prefix \<Rightarrow> string \<Rightarrow> 'v MutateFunc \<Rightarrow> 's \<Rightarrow>
     (json_error + 'v option) \<times> 's" where
  "MutateJSON J S prefix key fn s = retry_json maxRetries (mutate_once J S prefix key fn) s"

type_synonym 'v ConsumeFunc = "'v \<Rightarrow> 'v option \<times> bool \<times> string option"

definition consume_once ::
    "'v codec \<Rightarrow> 's store \<Rightarrow> Prefix \<Rightarrow> string \<Rightarrow> 'v ConsumeFunc \<Rightarrow> 's \<Rightarrow>
     (json_error + 'v option) option \<times> 's" where
  "consume_once J S prefix key fn s =
     (case sf_Get S prefix key s of
        (Inl err, s) \<Rightarrow>
          if err = ErrKeyNotFound then (Some (Inr None), s) else (Some (Inl (StoreErr err)), s)
      | (Inr data, s) \<Rightarrow>
          (case snd J data of
             Inl e \<Rightarrow> (Some (Inl (CodecErr e)), s)
           | Inr current \<Rightarrow>
             (case fn current of (w, ok, fnErr) \<Rightarrow>
               (case fnErr of
                  Some e \<Rightarrow> (Some (Inl (CallbackErr e)), s)
                | None \<Rightarrow>
                  if \<not> ok then (Some (Inr None), s)
                  else (case sf_CompareAndDelete S prefix key data s of
                      (Inl e, s) \<Rightarrow> (Some (Inl (StoreErr e)), s)
                    | (Inr deleted, s) \<Rightarrow>
                        if deleted then (Some (Inr (Some (pointee w current))), s) else (None, s))))))"

definition ConsumeJSON ::
    "'v codec \<Rightarrow> 's store \<Rightarrow> Prefix \<Rightarrow> string \<Rightarrow> 'v ConsumeFunc \<Rightarrow> 's \<Rightarrow>
     (json_error + 'v option) \<times> 's" where
  "ConsumeJSON J S prefix key fn s = retry_json maxRetries (consume_once J S prefix key fn) s"

section \<open>Atomic specifications\<close>

text \<open>
  What the helpers would do if nobody else used the store: one read-modify-write of the content.
  \<open>expiry ttl x\<close> is the time to live a write with argument \<open>ttl\<close> gives a key whose time to live was \<open>x\<close>.
\<close>

definition expiry_of :: "content \<Rightarrow> string \<Rightarrow> duration option" where
  "expiry_of m k = (case m k of None \<Rightarrow> None | Some (_, x) \<Rightarrow> x)"

definition mutate_spec ::
    "(duration \<Rightarrow> duration option \<Rightarrow> duration option) \<Rightarrow> 'v codec \<Rightarrow> 'v MutateFunc \<Rightarrow> string \<Rightarrow> content \<Rightarrow>
     (json_error + 'v option) \<times> content" where
  "mutate_spec expiry J fn k m =
     (case (case m k of None \<Rightarrow> Inr None
            | Some (data, _) \<Rightarrow> (case snd J data of Inl e \<Rightarrow> Inl e | Inr v \<Rightarrow> Inr (Some v))) of
        Inl e \<Rightarrow> (Inl (CodecErr e), m)
      | Inr current \<Rightarrow>
        (case fn current of (w, newVal, ok, ttl, fnErr) \<Rightarrow>
          (case fnErr of
             Some e \<Rightarrow> (Inl (CallbackErr e), m)
           | None \<Rightarrow>
             if \<not> ok then (Inr (map_option (pointee w) current), m)
             else (case fst J newVal of
                 Inl e \<Rightarrow> (Inl (CodecErr e), m)
               | Inr data \<Rightarrow> (Inr (Some newVal), m(k \<mapsto> (data, expiry ttl (expiry_of m k))))))))"

definition consume_spec ::
    "'v codec \<Rightarrow> 'v ConsumeFunc \<Rightarrow> string \<Rightarrow> content \<Rightarrow> (json_error + 'v option) \<times> content" where
  "consume_spec J fn k m =
     (case m k of
        None \<Rightarrow> (Inr None, m)
      | Some (data, _) \<Rightarrow>
        (case snd J data of
           Inl e \<Rightarrow> (Inl (CodecErr e), m)
         | Inr current \<Rightarrow>
           (case fn current of (w, ok, fnErr) \<Rightarrow>
             (case fnErr of
                Some e \<Rightarrow> (Inl (CallbackErr e), m)
              | None \<Rightarrow> if \<not> ok then (Inr None, m) else (Inr (Some (pointee w current)), m(k := None))))))"

definition is_store_err :: "json_error + 'v \<Rightarrow> bool" where
  "is_store_err r = (case r of Inl (StoreErr _) \<Rightarrow> True | _ \<Rightarrow> False)"

section \<open>The contract of a store\<close>

text \<open>
  \<open>view s\<close> is the content of the store, \<open>E m m'\<close> says that other clients and expiry may turn the
  content \<open>m\<close> into \<open>m'\<close>. An operation takes effect at one moment between its call and its return.
  \<open>F m m'\<close> says what a call that ends with an error may leave: an embedded database rolls back, a
  remote one may have executed the command whose answer was lost.
\<close>

locale kv_store =
  fixes S :: "'s store"
    and view :: "'s \<Rightarrow> content"
    and E F :: "content \<Rightarrow> content \<Rightarrow> bool"
    and expiry :: "duration \<Rightarrow> duration option \<Rightarrow> duration option"
  assumes E_refl: "E m m"
    and E_trans: "E m1 m2 \<Longrightarrow> E m2 m3 \<Longrightarrow> E m1 m3"
    and F_refl: "F m m"
    and E_F: "E m1 m2 \<Longrightarrow> F m2 m3 \<Longrightarrow> F m1 m3"
    and get: "sf_Get S p k s = (r, s') \<Longrightarrow> E (view s) (view s') \<and>
      (case r of Inr v \<Rightarrow> \<exists>x. view s' (buildKey p k) = Some (v, x)
       | Inl e \<Rightarrow> e = ErrKeyNotFound \<longrightarrow> view s' (buildKey p k) = None)"
    and setnx: "sf_SetNX S p k v ttl s = (rb, s') \<Longrightarrow>
      (case rb of
         Inl _ \<Rightarrow> F (view s) (view s')
       | Inr b \<Rightarrow> if b then \<exists>m. E (view s) m \<and> m (buildKey p k) = None \<and>
              view s' = m(buildKey p k \<mapsto> (v, expiry ttl None))
            else E (view s) (view s'))"
    and cas: "sf_CompareAndSwap S p k (Some old) v ttl s = (rb, s') \<Longrightarrow>
      (case rb of
         Inl _ \<Rightarrow> F (view s) (view s')
       | Inr b \<Rightarrow> if b then \<exists>m x. E (view s) m \<and> m (buildKey p k) = Some (old, x) \<and>
              view s' = m(buildKey p k \<mapsto> (v, expiry ttl x))
            else E (view s) (view s'))"
    and cad: "sf_CompareAndDelete S p k old s = (rb, s') \<Longrightarrow>
      (case rb of
         Inl _ \<Rightarrow> F (view s) (view s')
       | Inr b \<Rightarrow> if b then \<exists>m x. E (view s) m \<and> m (buildKey p k) = Some (old, x) \<and>
              view s' = m(buildKey p k := None)
            else E (view s) (view s'))"

context kv_store begin

text \<open>An attempt that returns did what the specification does at one moment.\<close>

definition refines :: "(json_error + 'v option) option \<times> 's \<Rightarrow> 's \<Rightarrow>
    (content \<Rightarrow> (json_error + 'v option) \<times> content) \<Rightarrow> bool" where
  "refines res s spec \<longleftrightarrow> (case res of
       (Some r, s') \<Rightarrow> (if is_store_err r then F (view s) (view s')
                    else \<exists>m. E (view s) m \<and> spec m = (r, view s'))
     | (None, s') \<Rightarrow> E (view s) (view s'))"

lemma mutate_once_refines: "refines (mutate_once J S p k fn s) s (mutate_spec expiry J fn (buildKey p k))"
proof (cases "sf_Get S p k s")
  case (Pair r s1)
  note g = get [OF Pair]
  show ?thesis
  proof (cases r)
    case (Inl e)
    show ?thesis
    proof (cases "e = ErrKeyNotFound")
      case True
      obtain w nv ok ttl fe where f: "fn None = (w, nv, ok, ttl, fe)" by (cases "fn None") auto
      have now: ?thesis if "mutate_once J S p k fn s = (Some q, s1)"
        "mutate_spec expiry J fn (buildKey p k) (view s1) = (q, view s1)" "\<not> is_store_err q" for q
        using that g by (auto simp: refines_def)
      show ?thesis
      proof (cases "fe = None \<and> ok \<and> (\<exists>b. fst J nv = Inr b)")
        case True
        then obtain b where b: "fe = None" "ok" "fst J nv = Inr b" by blast
        obtain rs s2 where n: "sf_SetNX S p k b ttl s1 = (rs, s2)" by fastforce
        note sx = setnx [OF n]
        have step: "mutate_once J S p k fn s = (case rs of Inl e \<Rightarrow> (Some (Inl (StoreErr e)), s2)
            | Inr written \<Rightarrow> if written then (Some (Inr (Some nv)), s2) else (None, s2))"
          using Pair Inl \<open>e = ErrKeyNotFound\<close> f b n by (simp add: mutate_once_def split: sum.split)
        show ?thesis
        proof (cases "rs = Inr True")
          case True
          with sx obtain m where m: "E (view s1) m" "m (buildKey p k) = None"
            "view s2 = m(buildKey p k \<mapsto> (b, expiry ttl (expiry_of m (buildKey p k))))" by (auto simp: expiry_of_def)
          then have "mutate_spec expiry J fn (buildKey p k) m = (Inr (Some nv), view s2)"
            using f b by (simp add: mutate_spec_def)
          moreover have "E (view s) m" using g m(1) E_trans by blast
          ultimately show ?thesis using step True by (auto simp: refines_def is_store_err_def)
        next
          case False
          with sx g step show ?thesis
            by (cases rs) (auto simp: refines_def is_store_err_def intro: E_trans E_F)
        qed
      next
        case False
        then show ?thesis
          using Pair Inl \<open>e = ErrKeyNotFound\<close> f g
          by (intro now [of "fst (mutate_spec expiry J fn (buildKey p k) (view s1))"])
            (auto simp: mutate_once_def mutate_spec_def is_store_err_def split: option.splits sum.splits)
      qed
    next
      case False
      with Pair Inl g F_refl E_F show ?thesis by (auto simp: mutate_once_def refines_def is_store_err_def)
    qed
  next
    case (Inr data)
    with g obtain x where x: "view s1 (buildKey p k) = Some (data, x)" "E (view s) (view s1)" by auto
    have now: ?thesis if "mutate_once J S p k fn s = (Some q, s1)"
      "mutate_spec expiry J fn (buildKey p k) (view s1) = (q, view s1)" "\<not> is_store_err q" for q
      using that x by (auto simp: refines_def)
    show ?thesis
    proof (cases "snd J data")
      case (Inl e)
      then show ?thesis
        using Pair \<open>r = Inr data\<close> x
        by (intro now [of "Inl (CodecErr e)"]) (simp_all add: mutate_once_def mutate_spec_def is_store_err_def)
    next
      case (Inr cur)
      obtain w nv ok ttl fe where f: "fn (Some cur) = (w, nv, ok, ttl, fe)" by (cases "fn (Some cur)") auto
      show ?thesis
      proof (cases "fe = None \<and> ok \<and> (\<exists>b. fst J nv = Inr b)")
        case True
        then obtain b where b: "fe = None" "ok" "fst J nv = Inr b" by blast
        obtain rs s2 where n: "sf_CompareAndSwap S p k (Some data) b ttl s1 = (rs, s2)" by fastforce
        note sx = cas [OF n]
        have step: "mutate_once J S p k fn s = (case rs of Inl e \<Rightarrow> (Some (Inl (StoreErr e)), s2)
            | Inr written \<Rightarrow> if written then (Some (Inr (Some nv)), s2) else (None, s2))"
          using Pair \<open>r = Inr data\<close> Inr f b n by (simp add: mutate_once_def split: sum.split)
        show ?thesis
        proof (cases "rs = Inr True")
          case True
          with sx obtain m y where m: "E (view s1) m" "m (buildKey p k) = Some (data, y)"
            "view s2 = m(buildKey p k \<mapsto> (b, expiry ttl (expiry_of m (buildKey p k))))" by (auto simp: expiry_of_def)
          then have "mutate_spec expiry J fn (buildKey p k) m = (Inr (Some nv), view s2)"
            using f b Inr by (simp add: mutate_spec_def)
          moreover have "E (view s) m" using x m(1) E_trans by blast
          ultimately show ?thesis using step True by (auto simp: refines_def is_store_err_def)
        next
          case False
          with sx x step show ?thesis
            by (cases rs) (auto simp: refines_def is_store_err_def intro: E_trans E_F)
        qed
      next
        case False
        then show ?thesis
          using Pair \<open>r = Inr data\<close> Inr f x
          by (intro now [of "fst (mutate_spec expiry J fn (buildKey p k) (view s1))"])
            (auto simp: mutate_once_def mutate_spec_def is_store_err_def split: option.splits sum.splits)
      qed
    qed
  qed
qed

lemma consume_once_refines: "refines (consume_once J S p k fn s) s (consume_spec J fn (buildKey p k))"
proof (cases "sf_Get S p k s")
  case (Pair r s1)
  note g = get [OF Pair]
  have now: ?thesis if "consume_once J S p k fn s = (Some q, s1)"
    "consume_spec J fn (buildKey p k) (view s1) = (q, view s1)" "\<not> is_store_err q" for q
    using that g by (auto simp: refines_def)
  show ?thesis
  proof (cases r)
    case (Inl e)
    show ?thesis
    proof (cases "e = ErrKeyNotFound")
      case True
      with Pair Inl g show ?thesis
        by (intro now [of "Inr None"]) (simp_all add: consume_once_def consume_spec_def is_store_err_def)
    qed (use Pair Inl g F_refl E_F in \<open>auto simp: consume_once_def refines_def is_store_err_def\<close>)
  next
    case (Inr data)
    with g obtain x where x: "view s1 (buildKey p k) = Some (data, x)" "E (view s) (view s1)" by auto
    show ?thesis
    proof (cases "snd J data")
      case (Inl e)
      then show ?thesis
        using Pair \<open>r = Inr data\<close> x
        by (intro now [of "Inl (CodecErr e)"]) (simp_all add: consume_once_def consume_spec_def is_store_err_def)
    next
      case (Inr cur)
      obtain w ok fe where f: "fn cur = (w, ok, fe)" by (cases "fn cur") auto
      show ?thesis
      proof (cases "fe = None \<and> ok")
        case True
        obtain rs s2 where n: "sf_CompareAndDelete S p k data s1 = (rs, s2)" by fastforce
        note sx = cad [OF n]
        have step: "consume_once J S p k fn s = (case rs of Inl e \<Rightarrow> (Some (Inl (StoreErr e)), s2)
            | Inr deleted \<Rightarrow> if deleted then (Some (Inr (Some (pointee w cur))), s2) else (None, s2))"
          using Pair \<open>r = Inr data\<close> Inr f True n by (simp add: consume_once_def split: sum.split)
        show ?thesis
        proof (cases "rs = Inr True")
          case del: True
          with sx obtain m y where m: "E (view s1) m" "m (buildKey p k) = Some (data, y)"
            "view s2 = m(buildKey p k := None)" by auto
          then have "consume_spec J fn (buildKey p k) m = (Inr (Some (pointee w cur)), view s2)"
            using f True Inr by (simp add: consume_spec_def)
          moreover have "E (view s) m" using x m(1) E_trans by blast
          ultimately show ?thesis using step del by (auto simp: refines_def is_store_err_def)
        next
          case False
          with sx x step show ?thesis
            by (cases rs) (auto simp: refines_def is_store_err_def intro: E_trans E_F)
        qed
      next
        case False
        then show ?thesis
          using Pair \<open>r = Inr data\<close> Inr f x
          by (intro now [of "fst (consume_spec J fn (buildKey p k) (view s1))"])
            (auto simp: consume_once_def consume_spec_def is_store_err_def split: option.splits)
      qed
    qed
  qed
qed

lemma retry_refines:
  assumes "\<And>s. refines (step s) s spec" "retry_json n step s = (r, s')"
  shows "if is_store_err r then F (view s) (view s') else \<exists>m. E (view s) m \<and> spec m = (r, view s')"
  using assms(2)
proof (induction n arbitrary: s)
  case 0
  then have "r = Inl (StoreErr ErrCASConflict)" "s' = s" by simp_all
  then show ?case by (simp add: is_store_err_def F_refl)
next
  case (Suc n)
  obtain q s1 where q: "step s = (q, s1)" by fastforce
  with assms(1) [of s] have R: "refines (q, s1) s spec" by simp
  show ?case
  proof (cases q)
    case None
    with Suc.prems q have "retry_json n step s1 = (r, s')" by simp
    from Suc.IH [OF this] R None show ?thesis
      unfolding refines_def using E_trans E_F by (auto split: if_splits)
  next
    case (Some r1)
    with Suc.prems q R show ?thesis by (simp add: refines_def)
  qed
qed

lemma mutate_refines:
  assumes "MutateJSON J S p k fn s = (r, s')"
  shows "if is_store_err r then F (view s) (view s')
    else \<exists>m. E (view s) m \<and> mutate_spec expiry J fn (buildKey p k) m = (r, view s')"
  using retry_refines [OF mutate_once_refines] assms unfolding MutateJSON_def by blast

lemma consume_refines:
  assumes "ConsumeJSON J S p k fn s = (r, s')"
  shows "if is_store_err r then F (view s) (view s')
    else \<exists>m. E (view s) m \<and> consume_spec J fn (buildKey p k) m = (r, view s')"
  using retry_refines [OF consume_once_refines] assms unfolding ConsumeJSON_def by blast

text \<open>A value is consumed by one consumer only, unless it is written again.\<close>

lemma consumed_once:
  assumes "ConsumeJSON J S p k fn s = (Inr (Some v), s1)"
    and "E (view s1) (view s2)" "\<And>m m'. E m m' \<Longrightarrow> m (buildKey p k) = None \<Longrightarrow> m' (buildKey p k) = None"
    and "ConsumeJSON J S p k fn' s2 = (r, s3)"
  shows "r = Inr None \<or> is_store_err r"
proof (cases "is_store_err r")
  case False
  from consume_refines [OF assms(1)] obtain m where "consume_spec J fn (buildKey p k) m = (Inr (Some v), view s1)"
    by (auto simp: is_store_err_def)
  then have "view s1 = m(buildKey p k := None)"
    by (auto simp: consume_spec_def split: option.splits sum.splits prod.splits if_splits)
  then have "view s1 (buildKey p k) = None" by simp
  with assms(2,3) have n: "view s2 (buildKey p k) = None" by blast
  from consume_refines [OF assms(4)] False obtain m' where m': "E (view s2) m'"
    "consume_spec J fn' (buildKey p k) m' = (r, view s3)" by auto
  with assms(3) n have "m' (buildKey p k) = None" by blast
  with m'(2) show ?thesis by (simp add: consume_spec_def)
qed simp

end

end
