(* ===== verification/SwiftBadger.thy ===== *)
theory SwiftBadger
  imports Swiftdb
begin

text \<open>
  \<^verbatim>\<open>kex-utils/pkg/kexswiftdb/badger.go\<close>: the store on the embedded database Badger. Badger itself is a
  parameter, the record \<open>badger\<close> of the calls the source makes, and \<open>badger_laws\<close> states its
  documentation: transactions are serializable, so a committed transaction is equivalent to one that
  ran alone at some moment; the writes of other transactions, and expiry, are the relation \<open>E\<close>,
  folded into the beginning of a transaction. The periodic value-log collection, which does not
  change the content, is not modelled.
\<close>

section \<open>Badger\<close>

datatype txn_error = BadgerConflict | BadgerKeyNotFound | BadgerOther string | OwnKeyNotFound

text \<open>An item is given by the result of its \<^verbatim>\<open>ValueCopy\<close>.\<close>

record ('d, 't) badger =
  bd_NewTransaction :: "bool \<Rightarrow> 'd \<Rightarrow> 't \<times> 'd"
  bd_Get :: "bytes \<Rightarrow> 't \<Rightarrow> (txn_error + (txn_error + bytes)) \<times> 't"
  bd_SetEntry :: "bytes \<Rightarrow> bytes \<Rightarrow> duration option \<Rightarrow> 't \<Rightarrow> (txn_error + unit) \<times> 't"
  bd_Delete :: "bytes \<Rightarrow> 't \<Rightarrow> (txn_error + unit) \<times> 't"
  bd_Keys :: "bytes \<Rightarrow> 't \<Rightarrow> bytes list \<times> 't"  \<comment> \<open>the keys an iterator visits for a prefix\<close>
  bd_Commit :: "'t \<Rightarrow> 'd \<Rightarrow> (txn_error + unit) \<times> 'd"
  bd_Close :: "'d \<Rightarrow> (txn_error + unit) \<times> 'd"

text \<open>
  A closure reads and writes the transaction and the variables it captures (\<open>'c\<close>); \<^verbatim>\<open>Update\<close> relays
  its error or commits, \<^verbatim>\<open>View\<close> discards the transaction.
\<close>

type_synonym ('c, 't) txn_fn = "'c \<Rightarrow> 't \<Rightarrow> (txn_error + unit) \<times> 'c \<times> 't"

definition db_Update ::
    "('d, 't) badger \<Rightarrow> ('c, 't) txn_fn \<Rightarrow> 'c \<Rightarrow> 'd \<Rightarrow> (txn_error + unit) \<times> 'c \<times> 'd" where
  "db_Update B fn c d =
     (case bd_NewTransaction B True d of
        (t, d) \<Rightarrow> (case fn c t of
            (Inl err, c, t) \<Rightarrow> (Inl err, c, d)
          | (Inr _, c, t) \<Rightarrow> (case bd_Commit B t d of (r, d) \<Rightarrow> (r, c, d))))"

definition db_View ::
    "('d, 't) badger \<Rightarrow> ('c, 't) txn_fn \<Rightarrow> 'c \<Rightarrow> 'd \<Rightarrow> (txn_error + unit) \<times> 'c \<times> 'd" where
  "db_View B fn c d =
     (case bd_NewTransaction B False d of
        (t, d) \<Rightarrow> (case fn c t of (r, c, t) \<Rightarrow> (r, c, d)))"

section \<open>\<^verbatim>\<open>BadgerStore\<close>\<close>

record 'd badger_store =
  bs_db :: 'd
  bs_dir :: string
  bs_closed :: bool
  bs_quit :: bool  \<comment> \<open>quit has been closed\<close>

definition NewBadgerStore :: "(string \<Rightarrow> string + 'd) \<Rightarrow> string \<Rightarrow> string + 'd badger_store" where
  "NewBadgerStore open_db dir =
     (case open_db dir of
        Inl err \<Rightarrow> Inl err
      | Inr db \<Rightarrow> Inr \<lparr>bs_db = db, bs_dir = dir, bs_closed = False, bs_quit = False\<rparr>)"

definition NewInMemoryBadgerStore :: "(string \<Rightarrow> string + 'd) \<Rightarrow> string + 'd badger_store" where
  "NewInMemoryBadgerStore open_mem =
     (case open_mem '''' of
        Inl err \<Rightarrow> Inl err
      | Inr db \<Rightarrow> Inr \<lparr>bs_db = db, bs_dir = '':memory:'', bs_closed = False, bs_quit = False\<rparr>)"

definition relay :: "txn_error \<Rightarrow> store_error" where
  "relay e = (case e of
       OwnKeyNotFound \<Rightarrow> ErrKeyNotFound
     | BadgerConflict \<Rightarrow> BackendError ''Transaction Conflict. Please retry''
     | BadgerKeyNotFound \<Rightarrow> BackendError ''Key not found''
     | BadgerOther msg \<Rightarrow> BackendError msg)"

text \<open>The retry loop; the captured variables keep what aborted runs assigned to them.\<close>

fun update_loop ::
    "nat \<Rightarrow> ('d, 't) badger \<Rightarrow> ('c, 't) txn_fn \<Rightarrow> 'c \<Rightarrow> 'd \<Rightarrow> (store_error + unit) \<times> 'c \<times> 'd" where
  "update_loop 0 B fn c d = (Inl ErrCASConflict, c, d)"
| "update_loop (Suc n) B fn c d =
     (case db_Update B fn c d of
        (Inr _, c, d) \<Rightarrow> (Inr (), c, d)
      | (Inl err, c, d) \<Rightarrow>
          if err = BadgerConflict then update_loop n B fn c d else (Inl (relay err), c, d))"

definition badger_update ::
    "('d, 't) badger \<Rightarrow> ('c, 't) txn_fn \<Rightarrow> 'c \<Rightarrow> 'd badger_store \<Rightarrow>
     (store_error + unit) \<times> 'c \<times> 'd badger_store" where
  "badger_update B fn c s =
     (case update_loop maxRetries B fn c (bs_db s) of (r, c, d) \<Rightarrow> (r, c, s\<lparr>bs_db := d\<rparr>))"

definition badger_view ::
    "('d, 't) badger \<Rightarrow> ('c, 't) txn_fn \<Rightarrow> 'c \<Rightarrow> 'd badger_store \<Rightarrow>
     (store_error + unit) \<times> 'c \<times> 'd badger_store" where
  "badger_view B fn c s =
     (case db_View B fn c (bs_db s) of
        (Inl err, c, d) \<Rightarrow> (Inl (relay err), c, s\<lparr>bs_db := d\<rparr>)
      | (Inr _, c, d) \<Rightarrow> (Inr (), c, s\<lparr>bs_db := d\<rparr>))"

text \<open>\<^verbatim>\<open>badger.NewEntry\<close> with \<^verbatim>\<open>WithTTL\<close> when the ttl is positive, and \<^verbatim>\<open>txn.SetEntry\<close>.\<close>

definition set_entry ::
    "('d, 't) badger \<Rightarrow> string \<Rightarrow> bytes \<Rightarrow> duration \<Rightarrow> 't \<Rightarrow> (txn_error + unit) \<times> 't" where
  "set_entry B k v ttl t = bd_SetEntry B k v (ttl_of ttl) t"

definition keep :: "'c \<Rightarrow> (txn_error + unit) \<times> 't \<Rightarrow> (txn_error + unit) \<times> 'c \<times> 't" where
  "keep c r = (case r of (e, t) \<Rightarrow> (e, c, t))"

definition set_txn :: "('d, 't) badger \<Rightarrow> string \<Rightarrow> bytes \<Rightarrow> duration \<Rightarrow> (unit, 't) txn_fn" where
  "set_txn B k v ttl c t = keep c (set_entry B k v ttl t)"

definition BadgerStore_Set where
  "BadgerStore_Set B prefix key value ttl s =
     (if bs_closed s then (Inl ErrStoreClosed, s)
      else (case badger_update B (set_txn B (buildKey prefix key) value ttl) () s of (r, _, s) \<Rightarrow> (r, s)))"

definition get_txn :: "('d, 't) badger \<Rightarrow> string \<Rightarrow> (bytes, 't) txn_fn" where
  "get_txn B k val t =
     (case bd_Get B k t of
        (Inl err, t) \<Rightarrow> (Inl (if err = BadgerKeyNotFound then OwnKeyNotFound else err), val, t)
      | (Inr item, t) \<Rightarrow>
          (case item of Inl err \<Rightarrow> (Inl err, val, t) | Inr v \<Rightarrow> (Inr (), v, t)))"

definition BadgerStore_Get where
  "BadgerStore_Get B prefix key s =
     (if bs_closed s then (Inl ErrStoreClosed, s)
      else (case badger_view B (get_txn B (buildKey prefix key)) [] s of
         (Inl err, _, s) \<Rightarrow> (Inl err, s)
       | (Inr _, val, s) \<Rightarrow> (Inr val, s)))"

definition delete_txn :: "('d, 't) badger \<Rightarrow> string \<Rightarrow> (unit, 't) txn_fn" where
  "delete_txn B k c t = keep c (bd_Delete B k t)"

definition BadgerStore_Delete where
  "BadgerStore_Delete B prefix key s =
     (if bs_closed s then (Inl ErrStoreClosed, s)
      else (case badger_update B (delete_txn B (buildKey prefix key)) () s of (r, _, s) \<Rightarrow> (r, s)))"

definition exists_txn :: "('d, 't) badger \<Rightarrow> string \<Rightarrow> (txn_error option, 't) txn_fn" where
  "exists_txn B k c t =
     (case bd_Get B k t of
        (Inl err, t) \<Rightarrow> (Inl err, Some err, t)
      | (Inr _, t) \<Rightarrow> (Inr (), None, t))"

definition BadgerStore_Exists where
  "BadgerStore_Exists B prefix key s =
     (if bs_closed s then (Inl ErrStoreClosed, s)
      else (case badger_view B (exists_txn B (buildKey prefix key)) None s of
         (Inl err, c, s) \<Rightarrow> (if c = Some BadgerKeyNotFound then (Inr False, s) else (Inl err, s))
       | (Inr _, _, s) \<Rightarrow> (Inr True, s)))"

text \<open>
  \<^verbatim>\<open>current, _ = strconv.ParseInt(...)\<close>: a value that is no number counts as 0, one out of range as
  the nearest \<^verbatim>\<open>int64\<close> (\<open>parse\<close> is \<^verbatim>\<open>ParseInt\<close>'s value whatever its error); the addition wraps.
\<close>

definition increment_txn ::
    "('d, 't) badger \<Rightarrow> (string \<Rightarrow> int) \<Rightarrow> string \<Rightarrow> duration \<Rightarrow> (int, 't) txn_fn" where
  "increment_txn B parse k ttl result t =
     (case bd_Get B k t of
        (Inl err, t) \<Rightarrow>
          if err \<noteq> BadgerKeyNotFound then (Inl err, result, t)
          else keep (wrap64 (0 + 1)) (set_entry B k (FormatInt (wrap64 (0 + 1))) ttl t)
      | (Inr item, t) \<Rightarrow>
          (case item of
             Inl err \<Rightarrow> (Inl err, result, t)
           | Inr val \<Rightarrow>
               (let result = wrap64 (parse val + 1)
                in keep result (set_entry B k (FormatInt result) 0 t))))"

definition BadgerStore_Increment where
  "BadgerStore_Increment B parse prefix key ttl s =
     (if bs_closed s then (Inl ErrStoreClosed, s)
      else (case badger_update B (increment_txn B parse (buildKey prefix key) ttl) 0 s of
         (Inl err, _, s) \<Rightarrow> (Inl err, s)
       | (Inr _, result, s) \<Rightarrow> (Inr result, s)))"

definition setnx_txn :: "('d, 't) badger \<Rightarrow> string \<Rightarrow> bytes \<Rightarrow> duration \<Rightarrow> (bool, 't) txn_fn" where
  "setnx_txn B k v ttl created t =
     (case bd_Get B k t of
        (Inr _, t) \<Rightarrow> (Inr (), False, t)
      | (Inl err, t) \<Rightarrow>
          if err \<noteq> BadgerKeyNotFound then (Inl err, created, t)
          else keep True (set_entry B k v ttl t))"

definition BadgerStore_SetNX where
  "BadgerStore_SetNX B prefix key value ttl s =
     (if bs_closed s then (Inl ErrStoreClosed, s)
      else (case badger_update B (setnx_txn B (buildKey prefix key) value ttl) False s of
         (Inl err, _, s) \<Rightarrow> (Inl err, s)
       | (Inr _, created, s) \<Rightarrow> (Inr created, s)))"

definition bytesEqual :: "bytes \<Rightarrow> bytes option \<Rightarrow> bool" where
  "bytesEqual a b = (case b of None \<Rightarrow> a = [] | Some b \<Rightarrow> a = b)"

definition cas_txn ::
    "('d, 't) badger \<Rightarrow> string \<Rightarrow> bytes option \<Rightarrow> bytes \<Rightarrow> duration \<Rightarrow> (bool, 't) txn_fn" where
  "cas_txn B k old v ttl swapped t =
     (case bd_Get B k t of
        (Inl err, t) \<Rightarrow>
          if err = BadgerKeyNotFound then
            (if old = None then keep True (set_entry B k v ttl t) else (Inr (), False, t))
          else (Inl err, swapped, t)
      | (Inr item, t) \<Rightarrow>
          (case item of
             Inl err \<Rightarrow> (Inl err, swapped, t)
           | Inr current \<Rightarrow>
               if \<not> bytesEqual current old then (Inr (), False, t)
               else keep True (set_entry B k v ttl t)))"

definition BadgerStore_CompareAndSwap where
  "BadgerStore_CompareAndSwap B prefix key old value ttl s =
     (if bs_closed s then (Inl ErrStoreClosed, s)
      else (case badger_update B (cas_txn B (buildKey prefix key) old value ttl) False s of
         (Inl err, _, s) \<Rightarrow> (Inl err, s)
       | (Inr _, swapped, s) \<Rightarrow> (Inr swapped, s)))"

definition cad_txn :: "('d, 't) badger \<Rightarrow> string \<Rightarrow> bytes \<Rightarrow> (bool, 't) txn_fn" where
  "cad_txn B k expected deleted t =
     (case bd_Get B k t of
        (Inl err, t) \<Rightarrow>
          if err = BadgerKeyNotFound then (Inr (), False, t) else (Inl err, deleted, t)
      | (Inr item, t) \<Rightarrow>
          (case item of
             Inl err \<Rightarrow> (Inl err, deleted, t)
           | Inr current \<Rightarrow>
               if \<not> bytesEqual current (Some expected) then (Inr (), False, t)
               else (case bd_Delete B k t of
                   (Inl err, t) \<Rightarrow> (Inl err, deleted, t)
                 | (Inr _, t) \<Rightarrow> (Inr (), True, t))))"

definition BadgerStore_CompareAndDelete where
  "BadgerStore_CompareAndDelete B prefix key expected s =
     (if bs_closed s then (Inl ErrStoreClosed, s)
      else (case badger_update B (cad_txn B (buildKey prefix key) expected) False s of
         (Inl err, _, s) \<Rightarrow> (Inl err, s)
       | (Inr _, deleted, s) \<Rightarrow> (Inr deleted, s)))"

text \<open>The scanned prefix.\<close>

definition scan_prefix :: "Prefix \<Rightarrow> string \<Rightarrow> string" where
  "scan_prefix prefix keyPrefix =
     (let nsPrefix = prefix @ '':'' in if keyPrefix \<noteq> '''' then nsPrefix @ keyPrefix else nsPrefix)"

definition keys_txn :: "('d, 't) badger \<Rightarrow> Prefix \<Rightarrow> string \<Rightarrow> (string list, 't) txn_fn" where
  "keys_txn B prefix nsPrefix keys t =
     (case bd_Keys B nsPrefix t of
        (ks, t) \<Rightarrow> (Inr (), keys @ map (\<lambda>k. TrimPrefix k (prefix @ '':'')) ks, t))"

definition BadgerStore_Keys where
  "BadgerStore_Keys B prefix keyPrefix s =
     (if bs_closed s then (Inl ErrStoreClosed, s)
      else (case badger_view B (keys_txn B prefix (scan_prefix prefix keyPrefix)) [] s of
         (Inl err, _, s) \<Rightarrow> (Inl err, s)
       | (Inr _, keys, s) \<Rightarrow> (Inr keys, s)))"

fun delete_keys ::
    "('d, 't) badger \<Rightarrow> string list \<Rightarrow> int \<Rightarrow> 't \<Rightarrow> (txn_error + unit) \<times> int \<times> 't" where
  "delete_keys B [] removed t = (Inr (), removed, t)"
| "delete_keys B (k # ks) removed t =
     (case bd_Delete B k t of
        (Inl err, t) \<Rightarrow> (Inl err, removed, t)
      | (Inr _, t) \<Rightarrow> delete_keys B ks (removed + 1) t)"

definition delete_prefix_txn :: "('d, 't) badger \<Rightarrow> string \<Rightarrow> (int, 't) txn_fn" where
  "delete_prefix_txn B nsPrefix removed t =
     (case bd_Keys B nsPrefix t of (ks, t) \<Rightarrow> delete_keys B ks removed t)"

definition BadgerStore_DeleteByPrefix where
  "BadgerStore_DeleteByPrefix B prefix keyPrefix s =
     (if bs_closed s then (Inl ErrStoreClosed, s)
      else (case badger_update B (delete_prefix_txn B (scan_prefix prefix keyPrefix)) 0 s of
         (Inl err, _, s) \<Rightarrow> (Inl err, s)
       | (Inr _, removed, s) \<Rightarrow> (Inr removed, s)))"

text \<open>The key counts per namespace; \<open>ord\<close> is the iteration order of the result map.\<close>

fun count_namespaces :: "string list \<Rightarrow> (string \<times> int) list \<Rightarrow> (string \<times> int) list" where
  "count_namespaces [] counts = counts"
| "count_namespaces (k # ks) counts =
     (let ns = extractPrefix k in
      count_namespaces ks
        (if ns \<noteq> '''' then alist_put ns ((case map_of counts ns of None \<Rightarrow> 0 | Some n \<Rightarrow> n) + 1) counts
         else counts))"

definition stats_txn :: "('d, 't) badger \<Rightarrow> ((string \<times> int) list, 't) txn_fn" where
  "stats_txn B counts t = (case bd_Keys B '''' t of (ks, t) \<Rightarrow> (Inr (), count_namespaces ks counts, t))"

definition stats_of :: "(string list \<Rightarrow> string list) \<Rightarrow> (string \<times> int) list \<Rightarrow> store_stats list" where
  "stats_of ord counts =
     map (\<lambda>ns. \<lparr>ss_Namespace = ns, ss_KeyCount = the (map_of counts ns)\<rparr>) (ord (map fst counts))"

definition BadgerStore_Stats where
  "BadgerStore_Stats B ord s =
     (if bs_closed s then (None, s)
      else (case badger_view B (stats_txn B) [] s of
         (Inl _, _, s) \<Rightarrow> (None, s)
       | (Inr _, counts, s) \<Rightarrow> (Some (stats_of ord counts), s)))"

definition BadgerStore_Ping where
  "BadgerStore_Ping B s =
     (if bs_closed s then (Inl ErrStoreClosed, s)
      else (case badger_view B (\<lambda>c t. (Inr (), c, t)) () s of (r, _, s) \<Rightarrow> (r, s)))"

definition BadgerStore_Close where
  "BadgerStore_Close B s =
     (if bs_closed s then (Inr (), s)
      else (case bd_Close B (bs_db s) of
         (Inl err, d) \<Rightarrow> (Inl (relay err), s\<lparr>bs_closed := True, bs_quit := True, bs_db := d\<rparr>)
       | (Inr _, d) \<Rightarrow> (Inr (), s\<lparr>bs_closed := True, bs_quit := True, bs_db := d\<rparr>)))"

definition badger_if ::
    "('d, 't) badger \<Rightarrow> (string \<Rightarrow> int) \<Rightarrow> (string list \<Rightarrow> string list) \<Rightarrow> 'd badger_store store" where
  "badger_if B parse ord = \<lparr>sf_Set = BadgerStore_Set B, sf_Get = BadgerStore_Get B,
     sf_Delete = BadgerStore_Delete B, sf_Exists = BadgerStore_Exists B, sf_SetNX = BadgerStore_SetNX B,
     sf_CompareAndSwap = BadgerStore_CompareAndSwap B,
     sf_CompareAndDelete = BadgerStore_CompareAndDelete B,
     sf_Increment = BadgerStore_Increment B parse, sf_Keys = BadgerStore_Keys B,
     sf_DeleteByPrefix = BadgerStore_DeleteByPrefix B, sf_Stats = BadgerStore_Stats B ord,
     sf_Ping = BadgerStore_Ping B, sf_Close = BadgerStore_Close B\<rparr>"

section \<open>What the source relies on\<close>

text \<open>
  \<open>DV\<close> is the content of the database, \<open>TV\<close> what a transaction reads (its own writes included) and
  \<open>base\<close> the database it began on.
\<close>

definition law_begin where
  "law_begin B DV TV base E \<longleftrightarrow> (\<forall>u d t d'. bd_NewTransaction B u d = (t, d') \<longrightarrow>
     E (DV d) (DV d') \<and> TV t = DV d' \<and> base t = d')"

definition law_get where
  "law_get B TV base \<longleftrightarrow> (\<forall>k t r t'. bd_Get B k t = (r, t') \<longrightarrow> TV t' = TV t \<and> base t' = base t \<and>
     (case r of Inl e \<Rightarrow> e = BadgerKeyNotFound \<longrightarrow> TV t k = None
      | Inr item \<Rightarrow> TV t k \<noteq> None \<and> (case item of Inl _ \<Rightarrow> True | Inr v \<Rightarrow> \<exists>x. TV t k = Some (v, x))) \<and>
     r \<notin> {Inl OwnKeyNotFound, Inr (Inl OwnKeyNotFound)})"

definition law_write where
  "law_write B TV base \<longleftrightarrow>
     (\<forall>k v ttl t r t'. bd_SetEntry B k v ttl t = (r, t') \<longrightarrow> base t' = base t \<and>
        (r = Inr () \<longrightarrow> TV t' = (TV t)(k \<mapsto> (v, ttl)))) \<and>
     (\<forall>k t r t'. bd_Delete B k t = (r, t') \<longrightarrow> base t' = base t \<and>
        (r = Inr () \<longrightarrow> TV t' = (TV t)(k := None)))"

definition law_keys where
  "law_keys B TV base \<longleftrightarrow> (\<forall>p t ks t'. bd_Keys B p t = (ks, t') \<longrightarrow> TV t' = TV t \<and> base t' = base t \<and>
     distinct ks \<and> set ks = {k \<in> dom (TV t). HasPrefix k p})"

definition law_commit where
  "law_commit B DV TV base E \<longleftrightarrow> (\<forall>t d r d'. base t = d \<longrightarrow> bd_Commit B t d = (r, d') \<longrightarrow>
     (case r of Inr _ \<Rightarrow> DV d' = TV t | Inl _ \<Rightarrow> E (DV d) (DV d')))"

definition badger_laws ::
    "('d, 't) badger \<Rightarrow> ('d \<Rightarrow> content) \<Rightarrow> ('t \<Rightarrow> content) \<Rightarrow> ('t \<Rightarrow> 'd) \<Rightarrow>
     (content \<Rightarrow> content \<Rightarrow> bool) \<Rightarrow> bool" where
  "badger_laws B DV TV base E \<longleftrightarrow> reflp E \<and> transp E \<and> law_begin B DV TV base E \<and>
     law_get B TV base \<and> law_write B TV base \<and> law_keys B TV base \<and> law_commit B DV TV base E"

lemma law_getD:
  assumes "law_get B TV base" "bd_Get B k t = (r, t')"
  shows "TV t' = TV t" "base t' = base t" "r = Inl BadgerKeyNotFound \<Longrightarrow> TV t k = None"
    "r = Inr item \<Longrightarrow> TV t k \<noteq> None" "r = Inr (Inr v) \<Longrightarrow> \<exists>x. TV t k = Some (v, x)"
    "r \<noteq> Inl OwnKeyNotFound" "r \<noteq> Inr (Inl OwnKeyNotFound)"
proof -
  have g: "TV t' = TV t \<and> base t' = base t \<and> (case r of Inl e \<Rightarrow> e = BadgerKeyNotFound \<longrightarrow> TV t k = None
      | Inr item \<Rightarrow> TV t k \<noteq> None \<and> (case item of Inl _ \<Rightarrow> True | Inr v \<Rightarrow> \<exists>x. TV t k = Some (v, x))) \<and> r \<notin> {Inl OwnKeyNotFound, Inr (Inl OwnKeyNotFound)}"
    using assms unfolding law_get_def by blast
  then show "TV t' = TV t" "base t' = base t" "r \<noteq> Inl OwnKeyNotFound" "r \<noteq> Inr (Inl OwnKeyNotFound)"
    by simp_all
  show "r = Inl BadgerKeyNotFound \<Longrightarrow> TV t k = None" "r = Inr item \<Longrightarrow> TV t k \<noteq> None"
    "r = Inr (Inr v) \<Longrightarrow> \<exists>x. TV t k = Some (v, x)" using g by simp_all
qed

lemma law_setD:
  assumes "law_write B TV base" "bd_SetEntry B k v ttl t = (r, t')"
  shows "base t' = base t" "r = Inr () \<Longrightarrow> TV t' = (TV t)(k \<mapsto> (v, ttl))"
  using assms by (simp_all add: law_write_def)

lemma law_deleteD:
  assumes "law_write B TV base" "bd_Delete B k t = (r, t')"
  shows "base t' = base t" "r = Inr () \<Longrightarrow> TV t' = (TV t)(k := None)"
  using assms by (simp_all add: law_write_def)

text \<open>
  \<open>txn_spec P fn\<close>: a run of the closure without error on a transaction that reads \<open>m\<close> satisfies
  \<open>P m c m'\<close>, with the captured value it assigned and the content it leaves.
\<close>

definition txn_spec ::
    "('t \<Rightarrow> content) \<Rightarrow> ('t \<Rightarrow> 'd) \<Rightarrow> (content \<Rightarrow> 'c \<Rightarrow> content \<Rightarrow> bool) \<Rightarrow> ('c, 't) txn_fn \<Rightarrow> bool" where
  "txn_spec TV base P fn \<longleftrightarrow> (\<forall>c t r c' t'. fn c t = (r, c', t') \<longrightarrow> base t' = base t \<and>
     (r = Inr () \<longrightarrow> P (TV t) c' (TV t')))"

lemma txn_specD:
  assumes "txn_spec TV base P fn" "fn c t = (r, c', t')"
  shows "base t' = base t" "r = Inr () \<Longrightarrow> P (TV t) c' (TV t')"
  using assms unfolding txn_spec_def by blast+

text \<open>An update that succeeds ran once, alone, at some moment; one that fails changed nothing.\<close>

lemma update_atomic:
  assumes "badger_laws B DV TV base E" "txn_spec TV base P fn" "update_loop n B fn c d = (r, c', d')"
  shows "if r = Inr () then \<exists>m. E (DV d) m \<and> P m c' (DV d') else E (DV d) (DV d')"
  using assms(3)
proof (induction n arbitrary: c d)
  case 0
  with assms(1) show ?case by (auto simp: badger_laws_def reflp_def)
next
  case (Suc n)
  have tr: "E a b \<Longrightarrow> E b x \<Longrightarrow> E a x" for a b x
    using assms(1) by (auto simp: badger_laws_def dest: transpD)
  obtain t d1 where b: "bd_NewTransaction B True d = (t, d1)" by fastforce
  obtain r1 c1 t1 where f: "fn c t = (r1, c1, t1)" by (cases "fn c t") auto
  have B: "E (DV d) (DV d1)" "TV t = DV d1" "base t = d1"
    using assms(1) b by (simp_all add: badger_laws_def law_begin_def)
  have F: "base t1 = d1" "r1 = Inr () \<Longrightarrow> P (DV d1) c1 (TV t1)"
    using txn_specD [OF assms(2) f] B by simp_all
  show ?case
  proof (cases r1)
    case (Inl e)
    then have u: "db_Update B fn c d = (Inl e, c1, d1)" using b f by (simp add: db_Update_def)
    show ?thesis
    proof (cases "e = BadgerConflict")
      case True
      with Suc.prems u have "update_loop n B fn c1 d1 = (r, c', d')" by simp
      from Suc.IH [OF this] B(1) tr show ?thesis by (auto split: if_splits)
    next
      case False
      with Suc.prems u B show ?thesis by auto
    qed
  next
    case (Inr x)
    obtain r2 d2 where cm: "bd_Commit B t1 d1 = (r2, d2)" by fastforce
    have C: "case r2 of Inr _ \<Rightarrow> DV d2 = TV t1 | Inl _ \<Rightarrow> E (DV d1) (DV d2)"
      using assms(1) cm F(1) unfolding badger_laws_def law_commit_def by blast
    from Inr cm b f have u: "db_Update B fn c d = (r2, c1, d2)" by (simp add: db_Update_def)
    show ?thesis
    proof (cases r2)
      case (Inr y)
      with Suc.prems u C B(1) F(2) \<open>r1 = Inr x\<close> show ?thesis by auto
    next
      case (Inl e)
      with C B(1) tr have E2: "E (DV d) (DV d2)" by auto
      show ?thesis
      proof (cases "e = BadgerConflict")
        case True
        with Suc.prems u Inl have "update_loop n B fn c1 d2 = (r, c', d')" by simp
        from Suc.IH [OF this] E2 tr show ?thesis by (auto split: if_splits)
      next
        case False
        with Suc.prems u Inl E2 show ?thesis by auto
      qed
    qed
  qed
qed

lemma badger_update_atomic:
  assumes "badger_laws B DV TV base E" "txn_spec TV base P fn" "badger_update B fn c s = (r, c', s')"
  shows "if r = Inr () then \<exists>m. E (DV (bs_db s)) m \<and> P m c' (DV (bs_db s')) else E (DV (bs_db s)) (DV (bs_db s'))"
  using update_atomic [OF assms(1,2), of maxRetries c "bs_db s"] assms(3)
  by (auto simp: badger_update_def split: prod.splits)

lemma badger_view_atomic:
  assumes "badger_laws B DV TV base E" "txn_spec TV base P fn" "badger_view B fn c s = (r, c', s')"
  shows "E (DV (bs_db s)) (DV (bs_db s')) \<and> (r = Inr () \<longrightarrow> (\<exists>m. P (DV (bs_db s')) c' m))"
proof -
  obtain t d1 where b: "bd_NewTransaction B False (bs_db s) = (t, d1)" by fastforce
  obtain r1 c1 t1 where f: "fn c t = (r1, c1, t1)" by (cases "fn c t") auto
  have B: "E (DV (bs_db s)) (DV d1)" "TV t = DV d1"
    using assms(1) b by (simp_all add: badger_laws_def law_begin_def)
  show ?thesis
  proof (cases r1)
    case (Inl e)
    with assms(3) b f B show ?thesis by (auto simp: badger_view_def db_View_def)
  next
    case (Inr x)
    with txn_specD(2) [OF assms(2) f] B have "P (DV d1) c1 (TV t1)" by simp
    with Inr assms(3) b f B show ?thesis by (auto simp: badger_view_def db_View_def)
  qed
qed

subsection \<open>The closures\<close>

text \<open>The closures one by one, by the cases of \<^verbatim>\<open>txn.Get\<close>.\<close>

lemma keep_eq [simp]: "keep c p = (r, c', t') \<longleftrightarrow> p = (r, t') \<and> c' = c"
  by (cases p) (auto simp: keep_def)

lemma set_txn_spec:
  assumes "law_write B TV base"
  shows "txn_spec TV base (\<lambda>m _ m'. m' = m(k \<mapsto> (v, ttl_of ttl))) (set_txn B k v ttl)"
  unfolding txn_spec_def set_txn_def set_entry_def using law_setD [OF assms] by simp

lemma delete_txn_spec:
  assumes "law_write B TV base"
  shows "txn_spec TV base (\<lambda>m _ m'. m' = m(k := None)) (delete_txn B k)"
  unfolding txn_spec_def delete_txn_def using law_deleteD [OF assms] by simp

lemma get_txn_spec:
  assumes "law_get B TV base"
  shows "txn_spec TV base (\<lambda>m v m'. m' = m \<and> (\<exists>x. m k = Some (v, x))) (get_txn B k)"
proof (unfold txn_spec_def, intro allI impI)
  fix c t r c' t'
  assume f: "get_txn B k c t = (r, c', t')"
  obtain g t1 where g: "bd_Get B k t = (g, t1)" by fastforce
  note G = law_getD [OF assms g]
  show "base t' = base t \<and> (r = Inr () \<longrightarrow> TV t' = TV t \<and> (\<exists>x. TV t k = Some (c', x)))"
    using f g G by (cases g) (auto simp: get_txn_def split: sum.splits)
qed

lemma setnx_txn_spec:
  assumes "law_get B TV base" "law_write B TV base"
  shows "txn_spec TV base (\<lambda>m created m'. if created then m k = None \<and> m' = m(k \<mapsto> (v, ttl_of ttl)) else m' = m)
    (setnx_txn B k v ttl)"
proof (unfold txn_spec_def, intro allI impI)
  fix c t r c' t'
  assume f: "setnx_txn B k v ttl c t = (r, c', t')"
  obtain g t1 where g: "bd_Get B k t = (g, t1)" by fastforce
  note G = law_getD [OF assms(1) g]
  obtain w t2 where w: "bd_SetEntry B k v (ttl_of ttl) t1 = (w, t2)" by fastforce
  note W = law_setD [OF assms(2) w]
  show "base t' = base t \<and> (r = Inr () \<longrightarrow>
      (if c' then TV t k = None \<and> TV t' = (TV t)(k \<mapsto> (v, ttl_of ttl)) else TV t' = TV t))"
    using f g G w W by (cases g) (auto simp: setnx_txn_def set_entry_def split: if_splits)
qed

lemma cas_txn_spec:
  assumes "law_get B TV base" "law_write B TV base"
  shows "txn_spec TV base (\<lambda>m swapped m'. if swapped
      then (\<exists>x. m k = Some (old, x)) \<and> m' = m(k \<mapsto> (v, ttl_of ttl)) else m' = m)
    (cas_txn B k (Some old) v ttl)"
proof (unfold txn_spec_def, intro allI impI)
  fix c t r c' t'
  assume f: "cas_txn B k (Some old) v ttl c t = (r, c', t')"
  obtain g t1 where g: "bd_Get B k t = (g, t1)" by fastforce
  note G = law_getD [OF assms(1) g]
  obtain w t2 where w: "bd_SetEntry B k v (ttl_of ttl) t1 = (w, t2)" by fastforce
  note W = law_setD [OF assms(2) w]
  show "base t' = base t \<and> (r = Inr () \<longrightarrow>
      (if c' then (\<exists>x. TV t k = Some (old, x)) \<and> TV t' = (TV t)(k \<mapsto> (v, ttl_of ttl)) else TV t' = TV t))"
    using f g G w W
    by (cases g) (auto simp: cas_txn_def set_entry_def bytesEqual_def split: if_splits sum.splits)
qed

lemma cad_txn_spec:
  assumes "law_get B TV base" "law_write B TV base"
  shows "txn_spec TV base (\<lambda>m deleted m'. if deleted
      then (\<exists>x. m k = Some (old, x)) \<and> m' = m(k := None) else m' = m) (cad_txn B k old)"
proof (unfold txn_spec_def, intro allI impI)
  fix c t r c' t'
  assume f: "cad_txn B k old c t = (r, c', t')"
  obtain g t1 where g: "bd_Get B k t = (g, t1)" by fastforce
  note G = law_getD [OF assms(1) g]
  obtain w t2 where w: "bd_Delete B k t1 = (w, t2)" by fastforce
  note W = law_deleteD [OF assms(2) w]
  show "base t' = base t \<and> (r = Inr () \<longrightarrow>
      (if c' then (\<exists>x. TV t k = Some (old, x)) \<and> TV t' = (TV t)(k := None) else TV t' = TV t))"
    using f g G w W
    by (cases g) (auto simp: cad_txn_def bytesEqual_def split: if_splits sum.splits)
qed

lemma increment_txn_spec:
  assumes "law_get B TV base" "law_write B TV base"
  shows "txn_spec TV base (\<lambda>m n m'. case m k of
       None \<Rightarrow> n = 1 \<and> m' = m(k \<mapsto> (''1'', ttl_of ttl))
     | Some (v, _) \<Rightarrow> n = wrap64 (parse v + 1) \<and> m' = m(k \<mapsto> (FormatInt n, None)))
    (increment_txn B parse k ttl)"
proof (unfold txn_spec_def, intro allI impI)
  fix c t r c' t'
  assume f: "increment_txn B parse k ttl c t = (r, c', t')"
  obtain g t1 where g: "bd_Get B k t = (g, t1)" by fastforce
  note G = law_getD [OF assms(1) g]
  have one: "wrap64 (0 + 1) = 1" "FormatInt (wrap64 (0 + 1)) = ''1''" "ttl_of 0 = None" by code_simp+
  let ?P = "\<lambda>n t'. case TV t k of
       None \<Rightarrow> n = 1 \<and> TV t' = (TV t)(k \<mapsto> (''1'', ttl_of ttl))
     | Some (v, _) \<Rightarrow> n = wrap64 (parse v + 1) \<and> TV t' = (TV t)(k \<mapsto> (FormatInt n, None))"
  show "base t' = base t \<and> (r = Inr () \<longrightarrow> ?P c' t')"
  proof (cases g)
    case (Inl e)
    obtain w t2 where w: "bd_SetEntry B k ''1'' (ttl_of ttl) t1 = (w, t2)" by fastforce
    note W = law_setD [OF assms(2) w]
    show ?thesis
      using f g G w W Inl one by (auto simp: increment_txn_def set_entry_def split: if_splits)
  next
    case (Inr item)
    show ?thesis
    proof (cases item)
      case (Inl e)
      then show ?thesis using f g G \<open>g = Inr item\<close> by (auto simp: increment_txn_def)
    next
      case (Inr v)
      let ?n = "wrap64 (parse v + 1)"
      obtain w t2 where w: "bd_SetEntry B k (FormatInt ?n) None t1 = (w, t2)" by fastforce
      note W = law_setD [OF assms(2) w]
      from G(5) [of v] \<open>g = Inr item\<close> Inr obtain x where "TV t k = Some (v, x)" by auto
      then show ?thesis
        using f g G w W \<open>g = Inr item\<close> Inr one by (auto simp: increment_txn_def set_entry_def Let_def)
    qed
  qed
qed

lemma delete_keys_spec:
  assumes "law_write B TV base"
  shows "delete_keys B ks c t = (r, c', t') \<Longrightarrow> base t' = base t \<and>
    (r = Inr () \<longrightarrow> TV t' = (\<lambda>k. if k \<in> set ks then None else TV t k))"
proof (induction ks arbitrary: c t)
  case (Cons k ks)
  obtain w t1 where w: "bd_Delete B k t = (w, t1)" by fastforce
  note W = law_deleteD [OF assms w]
  show ?case
  proof (cases w)
    case (Inl e)
    with Cons.prems w W(1) show ?thesis by auto
  next
    case (Inr x)
    with Cons.prems w have "delete_keys B ks (c + 1) t1 = (r, c', t')" by simp
    from Cons.IH [OF this] W Inr show ?thesis by auto
  qed
qed simp

lemma delete_prefix_txn_spec:
  assumes "law_keys B TV base" "law_write B TV base"
  shows "txn_spec TV base (\<lambda>m _ m'. m' = (\<lambda>k. if HasPrefix k ns then None else m k)) (delete_prefix_txn B ns)"
proof (unfold txn_spec_def, intro allI impI)
  fix c t r c' t'
  assume f: "delete_prefix_txn B ns c t = (r, c', t')"
  obtain ks t1 where g: "bd_Keys B ns t = (ks, t1)" by fastforce
  with assms(1) have G: "TV t1 = TV t" "base t1 = base t" "set ks = {k \<in> dom (TV t). HasPrefix k ns}"
    unfolding law_keys_def by blast+
  from f g have "delete_keys B ks c t1 = (r, c', t')" by (simp add: delete_prefix_txn_def)
  from delete_keys_spec [OF assms(2) this] G
  show "base t' = base t \<and> (r = Inr () \<longrightarrow> TV t' = (\<lambda>k. if HasPrefix k ns then None else TV t k))"
    by (auto simp: fun_eq_iff)
qed

section \<open>\<^verbatim>\<open>BadgerStore\<close> keeps the contract\<close>

definition badger_content :: "('d \<Rightarrow> content) \<Rightarrow> 'd badger_store \<Rightarrow> content" where
  "badger_content DV s = DV (bs_db s)"

abbreviation badger_expiry :: "duration \<Rightarrow> duration option \<Rightarrow> duration option" where
  "badger_expiry ttl old \<equiv> ttl_of ttl"

lemma badger_kv_store:
  assumes laws: "badger_laws B DV TV base E"
  shows "kv_store (badger_if B parse ord) (badger_content DV) E E badger_expiry"
proof
  have L: "law_get B TV base" "law_write B TV base" using laws by (simp_all add: badger_laws_def)
  show refl: "E m m" for m using laws by (simp add: badger_laws_def reflp_def)
  show "E m1 m2 \<Longrightarrow> E m2 m3 \<Longrightarrow> E m1 m3" for m1 m2 m3
    using laws by (auto simp: badger_laws_def dest: transpD)
  show "E (badger_content DV s) (badger_content DV s') \<and>
      (case r of Inr v \<Rightarrow> \<exists>x. badger_content DV s' (buildKey p k) = Some (v, x)
       | Inl e \<Rightarrow> e = ErrKeyNotFound \<longrightarrow> badger_content DV s' (buildKey p k) = None)"
    if "sf_Get (badger_if B parse ord) p k s = (r, s')" for p k s r s'
  proof (cases "bs_closed s")
    case True
    with that refl show ?thesis by (auto simp: badger_if_def BadgerStore_Get_def)
  next
    case False
    obtain q v s1 where v: "badger_view B (get_txn B (buildKey p k)) [] s = (q, v, s1)"
      by (metis prod_cases3)
    note A = badger_view_atomic [OF laws get_txn_spec [OF L(1)] v]
    have s1: "s' = s1" "r = (case q of Inl e \<Rightarrow> Inl e | Inr _ \<Rightarrow> Inr v)"
      using that v False by (auto simp: badger_if_def BadgerStore_Get_def split: sum.splits)
    show ?thesis
    proof (cases q)
      case (Inr x)
      with A s1 show ?thesis by (auto simp: badger_content_def)
    next
      case (Inl e)
      have "badger_content DV s1 (buildKey p k) = None" if "e = ErrKeyNotFound"
      proof -
        obtain t d1 where b: "bd_NewTransaction B False (bs_db s) = (t, d1)" by fastforce
        have B: "TV t = DV d1" using laws b by (simp add: badger_laws_def law_begin_def)
        obtain g t1 where g: "bd_Get B (buildKey p k) t = (g, t1)" by fastforce
        note G = law_getD [OF L(1) g]
        from v Inl that b g G(6,7) have "s1 = s\<lparr>bs_db := d1\<rparr>" "g = Inl BadgerKeyNotFound"
          by (auto simp: badger_view_def db_View_def get_txn_def relay_def
              split: sum.splits txn_error.splits if_splits)
        with G(3) B show ?thesis by (simp add: badger_content_def)
      qed
      with A s1 Inl show ?thesis by (auto simp: badger_content_def)
    qed
  qed
  show "case rb of
      Inl _ \<Rightarrow> E (badger_content DV s) (badger_content DV s')
    | Inr b \<Rightarrow> if b then \<exists>m. E (badger_content DV s) m \<and> m (buildKey p k) = None \<and>
        badger_content DV s' = m(buildKey p k \<mapsto> (v, ttl_of ttl))
      else E (badger_content DV s) (badger_content DV s')"
    if "sf_SetNX (badger_if B parse ord) p k v ttl s = (rb, s')" for p k v ttl s rb s'
  proof (cases "bs_closed s")
    case True
    with that refl show ?thesis by (auto simp: badger_if_def BadgerStore_SetNX_def)
  next
    case False
    obtain q c s1 where u: "badger_update B (setnx_txn B (buildKey p k) v ttl) False s = (q, c, s1)"
      by (metis prod_cases3)
    note A = badger_update_atomic [OF laws setnx_txn_spec [OF L] u]
    have "s' = s1" "rb = (case q of Inl e \<Rightarrow> Inl e | Inr _ \<Rightarrow> Inr c)"
      using that u False by (auto simp: badger_if_def BadgerStore_SetNX_def split: sum.splits)
    with A show ?thesis by (cases q; cases c) (auto simp: badger_content_def)
  qed
  show "case rb of
      Inl _ \<Rightarrow> E (badger_content DV s) (badger_content DV s')
    | Inr b \<Rightarrow> if b then \<exists>m x. E (badger_content DV s) m \<and> m (buildKey p k) = Some (old, x) \<and>
        badger_content DV s' = m(buildKey p k \<mapsto> (v, ttl_of ttl))
      else E (badger_content DV s) (badger_content DV s')"
    if "sf_CompareAndSwap (badger_if B parse ord) p k (Some old) v ttl s = (rb, s')" for p k old v ttl s rb s'
  proof (cases "bs_closed s")
    case True
    with that refl show ?thesis by (auto simp: badger_if_def BadgerStore_CompareAndSwap_def)
  next
    case False
    obtain q c s1 where u: "badger_update B (cas_txn B (buildKey p k) (Some old) v ttl) False s = (q, c, s1)"
      by (metis prod_cases3)
    note A = badger_update_atomic [OF laws cas_txn_spec [OF L] u]
    have "s' = s1" "rb = (case q of Inl e \<Rightarrow> Inl e | Inr _ \<Rightarrow> Inr c)"
      using that u False by (auto simp: badger_if_def BadgerStore_CompareAndSwap_def split: sum.splits)
    with A show ?thesis by (cases q; cases c) (auto simp: badger_content_def)
  qed
  show "case rb of
      Inl _ \<Rightarrow> E (badger_content DV s) (badger_content DV s')
    | Inr b \<Rightarrow> if b then \<exists>m x. E (badger_content DV s) m \<and> m (buildKey p k) = Some (old, x) \<and>
        badger_content DV s' = m(buildKey p k := None)
      else E (badger_content DV s) (badger_content DV s')"
    if "sf_CompareAndDelete (badger_if B parse ord) p k old s = (rb, s')" for p k old s rb s'
  proof (cases "bs_closed s")
    case True
    with that refl show ?thesis by (auto simp: badger_if_def BadgerStore_CompareAndDelete_def)
  next
    case False
    obtain q c s1 where u: "badger_update B (cad_txn B (buildKey p k) old) False s = (q, c, s1)"
      by (metis prod_cases3)
    note A = badger_update_atomic [OF laws cad_txn_spec [OF L] u]
    have "s' = s1" "rb = (case q of Inl e \<Rightarrow> Inl e | Inr _ \<Rightarrow> Inr c)"
      using that u False by (auto simp: badger_if_def BadgerStore_CompareAndDelete_def split: sum.splits)
    with A show ?thesis by (cases q; cases c) (auto simp: badger_content_def)
  qed
qed

section \<open>A reference database\<close>

text \<open>
  An in-memory database for the witnesses: a list of entries and the number of commits that will
  still fail with a conflict.
\<close>

type_synonym ref_db = "(string \<times> bytes \<times> duration option) list \<times> nat"

definition ref_badger :: "(ref_db, ref_db \<times> ref_db) badger" where
  "ref_badger = \<lparr>bd_NewTransaction = (\<lambda>_ d. ((d, d), d)),
     bd_Get = (\<lambda>k t. (case map_of (fst (fst t)) k of None \<Rightarrow> Inl BadgerKeyNotFound
                       | Some (v, _) \<Rightarrow> Inr (Inr v), t)),
     bd_SetEntry = (\<lambda>k v ttl t. (Inr (), ((alist_put k (v, ttl) (fst (fst t)), snd (fst t)), snd t))),
     bd_Delete = (\<lambda>k t. (Inr (), ((filter (\<lambda>(k', _). k' \<noteq> k) (fst (fst t)), snd (fst t)), snd t))),
     bd_Keys = (\<lambda>p t. (remdups (filter (\<lambda>k. HasPrefix k p) (map fst (fst (fst t)))), t)),
     bd_Commit = (\<lambda>t d. (case snd d of 0 \<Rightarrow> (Inr (), fst t)
                          | Suc n \<Rightarrow> (Inl BadgerConflict, (fst d, n)))),
     bd_Close = (\<lambda>d. (Inr (), d))\<rparr>"

definition ref_content :: "ref_db \<Rightarrow> content" where
  "ref_content d = map_of (fst d)"

lemma map_of_filter_key: "map_of (filter (\<lambda>(k', _). k' \<noteq> k) m) = (map_of m)(k := None)"
  by (induction m) (auto simp: fun_eq_iff)

lemma ref_badger_laws: "badger_laws ref_badger ref_content (\<lambda>t. ref_content (fst t)) snd (=)"
  unfolding badger_laws_def
proof (intro conjI)
  show "law_keys ref_badger (\<lambda>t. ref_content (fst t)) snd"
    by (auto simp: law_keys_def ref_badger_def ref_content_def dom_map_of_conv_image_fst)
  show "law_get ref_badger (\<lambda>t. ref_content (fst t)) snd"
    by (auto simp: law_get_def ref_badger_def ref_content_def split: option.splits)
qed (auto simp: transp_def law_begin_def law_write_def law_commit_def ref_badger_def ref_content_def
    map_of_filter_key split: nat.splits sum.splits)

interpretation ref_store: kv_store "badger_if ref_badger (\<lambda>_. 0) (\<lambda>xs. xs)" "badger_content ref_content" "(=)" "(=)" badger_expiry
  by (rule badger_kv_store [OF ref_badger_laws])

definition ref_badger_store :: "(string \<times> bytes \<times> duration option) list \<Rightarrow> nat \<Rightarrow> ref_db badger_store" where
  "ref_badger_store entries conflicts =
     \<lparr>bs_db = (entries, conflicts), bs_dir = '':memory:'', bs_closed = False, bs_quit = False\<rparr>"

section \<open>Properties\<close>

text \<open>
  C31. On Badger, \<^verbatim>\<open>MutateJSON\<close> and \<^verbatim>\<open>ConsumeJSON\<close> refine one atomic read-modify-write: whenever they
  return a value or an error of the callback or the codec, there is a content \<open>m\<close>, reached from the
  initial one by the moves of other clients, on which the specification gives exactly this result
  and the final content; on an error of the store only others have changed the content.
\<close>

theorem json_helpers_refine_atomic_spec:
  assumes "badger_laws B DV TV base E"
  shows "(MutateJSON J (badger_if B parse ord) p k fn s = (r, s') \<longrightarrow>
      (if is_store_err r then E (badger_content DV s) (badger_content DV s')
       else \<exists>m. E (badger_content DV s) m \<and>
              mutate_spec badger_expiry J fn (buildKey p k) m = (r, badger_content DV s'))) \<and>
    (ConsumeJSON J (badger_if B parse ord) p k cf s = (r, s') \<longrightarrow>
      (if is_store_err r then E (badger_content DV s) (badger_content DV s')
       else \<exists>m. E (badger_content DV s) m \<and>
              consume_spec J cf (buildKey p k) m = (r, badger_content DV s')))"
  using kv_store.mutate_refines [OF badger_kv_store [OF assms]]
    kv_store.consume_refines [OF badger_kv_store [OF assms]] by blast

definition text_codec :: "string codec" where
  "text_codec = ((\<lambda>v. Inr v), (\<lambda>b. Inr b))"

definition token_store :: "ref_db badger_store" where
  "token_store = ref_badger_store [(''auth:state1'', ''pending'', None)] 1"

theorem json_helpers_refine_atomic_spec_witness:
  "mutate_spec badger_expiry text_codec (\<lambda>_. (None, ''used'', True, 0, None)) (buildKey ''auth'' ''state1'')
      (badger_content ref_content token_store) =
    (Inr (Some ''used''), badger_content ref_content
       (snd (MutateJSON text_codec (badger_if ref_badger (\<lambda>_. 0) (\<lambda>xs. xs)) ''auth'' ''state1''
          (\<lambda>_. (None, ''used'', True, 0, None)) token_store)))"
proof -
  let ?M = "MutateJSON text_codec (badger_if ref_badger (\<lambda>_. 0) (\<lambda>xs. xs)) ''auth'' ''state1''
          (\<lambda>_. (None, ''used'', True, 0, None)) token_store"
  have "fst ?M = Inr (Some ''used'')" by code_simp
  then have r: "?M = (Inr (Some ''used''), snd ?M)" by (metis prod.collapse)
  show ?thesis
    using json_helpers_refine_atomic_spec [OF ref_badger_laws, of text_codec "\<lambda>_. 0" "\<lambda>xs. xs" "''auth''"
      "''state1''" "\<lambda>_. (None, ''used'', True, 0, None)" token_store "Inr (Some ''used'')" "snd ?M"] r
    by (auto simp: is_store_err_def)
qed

text \<open>
  A one-time value is consumed once: after a consumer has received it, any later consumer finds
  nothing (or gets an error of the store), as long as nobody writes the key again, however many
  transactions conflict.
\<close>

theorem one_time_value_consumed_once:
  assumes "badger_laws B DV TV base E"
    and "ConsumeJSON J (badger_if B parse ord) p k cf s = (Inr (Some v), s1)"
    and "E (badger_content DV s1) (badger_content DV s2)"
      "\<And>m m'. E m m' \<Longrightarrow> m (buildKey p k) = None \<Longrightarrow> m' (buildKey p k) = None"
    and "ConsumeJSON J (badger_if B parse ord) p k cf' s2 = (r, s3)"
  shows "r = Inr None \<or> is_store_err r"
  by (rule kv_store.consumed_once [OF badger_kv_store [OF assms(1), of parse ord] assms(2,3) _ assms(5)])
    (rule assms(4))

theorem one_time_value_consumed_once_witness:
  "fst (ConsumeJSON text_codec (badger_if ref_badger (\<lambda>_. 0) (\<lambda>xs. xs)) ''auth'' ''state1'' (\<lambda>_. (None, True, None))
     (snd (ConsumeJSON text_codec (badger_if ref_badger (\<lambda>_. 0) (\<lambda>xs. xs)) ''auth'' ''state1''
        (\<lambda>_. (None, True, None)) token_store))) = Inr None"
proof -
  let ?C = "ConsumeJSON text_codec (badger_if ref_badger (\<lambda>_. 0) (\<lambda>xs. xs)) ''auth'' ''state1'' (\<lambda>_. (None, True, None))"
  have "fst (?C token_store) = Inr (Some ''pending'')" by code_simp
  then have 1: "?C token_store = (Inr (Some ''pending''), snd (?C token_store))" by (metis prod.collapse)
  have "fst (?C (snd (?C token_store))) = Inr None \<or> is_store_err (fst (?C (snd (?C token_store))))"
    by (rule one_time_value_consumed_once [OF ref_badger_laws 1 refl _ prod.collapse [symmetric]]) simp
  moreover have "\<not> is_store_err (fst (?C (snd (?C token_store))))" by code_simp
  ultimately show ?thesis by blast
qed

text \<open>
  \<^verbatim>\<open>Increment\<close> on Badger adds one atomically, creating the counter at 1 with the given time to
  live; incrementing an existing counter writes it without a time to live, so that it never expires
  afterwards, whatever \<^verbatim>\<open>ttl\<close> it was created with.
\<close>

theorem increment_adds_one_and_drops_ttl:
  assumes "badger_laws B DV TV base E" "BadgerStore_Increment B parse p k ttl s = (Inr n, s')"
  shows "\<exists>m. E (badger_content DV s) m \<and> (case m (buildKey p k) of
       None \<Rightarrow> n = 1 \<and> badger_content DV s' = m(buildKey p k \<mapsto> (''1'', ttl_of ttl))
     | Some (v, _) \<Rightarrow> n = wrap64 (parse v + 1) \<and>
         badger_content DV s' = m(buildKey p k \<mapsto> (FormatInt n, None)))"
proof -
  have L: "law_get B TV base" "law_write B TV base" using assms(1) by (simp_all add: badger_laws_def)
  obtain q c s1 where u: "badger_update B (increment_txn B parse (buildKey p k) ttl) 0 s = (q, c, s1)"
    by (metis prod_cases3)
  note A = badger_update_atomic [OF assms(1) increment_txn_spec [OF L] u]
  have "s' = s1" "q = Inr ()" "c = n"
    using assms(2) u by (auto simp: BadgerStore_Increment_def split: if_splits sum.splits)
  then show ?thesis
    using A unfolding badger_content_def \<open>s' = s1\<close> \<open>q = Inr ()\<close> \<open>c = n\<close> by simp
qed

theorem increment_adds_one_and_drops_ttl_witness:
  "badger_content ref_content (snd (BadgerStore_Increment ref_badger (\<lambda>_. 1) ''ratelimit'' ''ip'' 60
     (ref_badger_store [(''ratelimit:ip'', ''1'', Some 60)] 0))) ''ratelimit:ip'' = Some (''2'', None)"
proof -
  let ?s = "ref_badger_store [(''ratelimit:ip'', ''1'', Some 60)] 0"
  let ?I = "BadgerStore_Increment ref_badger (\<lambda>_. 1) ''ratelimit'' ''ip'' 60 ?s"
  have "fst ?I = Inr 2" by code_simp
  then have i: "?I = (Inr 2, snd ?I)" by (metis prod.collapse)
  have k: "buildKey ''ratelimit'' ''ip'' = ''ratelimit:ip''" and f: "FormatInt 2 = ''2''" by code_simp+
  have "badger_content ref_content ?s ''ratelimit:ip'' = Some (''1'', Some 60)" by code_simp
  with increment_adds_one_and_drops_ttl [OF ref_badger_laws i] show ?thesis by (auto simp: k f)
qed

text \<open>
  \<^verbatim>\<open>DeleteByPrefix\<close> removes exactly the keys of the prefix in one transaction, but the number it
  returns also counts the deletions of transactions that were rolled back by a conflict.
\<close>

theorem delete_by_prefix_removes_prefix:
  assumes "badger_laws B DV TV base E" "BadgerStore_DeleteByPrefix B p kp s = (Inr n, s')"
  shows "(\<exists>m. E (badger_content DV s) m \<and>
      badger_content DV s' = (\<lambda>k. if HasPrefix k (scan_prefix p kp) then None else m k)) \<and>
    fst (BadgerStore_DeleteByPrefix ref_badger ''auth'' '''' token_store) = Inr 2"
proof
  have L: "law_keys B TV base" "law_write B TV base" using assms(1) by (simp_all add: badger_laws_def)
  obtain q c s1 where u: "badger_update B (delete_prefix_txn B (scan_prefix p kp)) 0 s = (q, c, s1)"
    by (metis prod_cases3)
  note A = badger_update_atomic [OF assms(1) delete_prefix_txn_spec [OF L] u]
  have "s' = s1" "q = Inr ()"
    using assms(2) u by (auto simp: BadgerStore_DeleteByPrefix_def split: if_splits sum.splits)
  with A show "\<exists>m. E (badger_content DV s) m \<and>
      badger_content DV s' = (\<lambda>k. if HasPrefix k (scan_prefix p kp) then None else m k)"
    by (auto simp: badger_content_def)
  show "fst (BadgerStore_DeleteByPrefix ref_badger ''auth'' '''' token_store) = Inr 2" by code_simp
qed

theorem delete_by_prefix_removes_prefix_witness:
  "badger_content ref_content (snd (BadgerStore_DeleteByPrefix ref_badger ''auth'' '''' token_store)) ''auth:state1'' = None"
proof -
  let ?D = "BadgerStore_DeleteByPrefix ref_badger ''auth'' '''' token_store"
  have "fst ?D = Inr 2" by code_simp
  then have d: "?D = (Inr 2, snd ?D)" by (metis prod.collapse)
  have "HasPrefix ''auth:state1'' (scan_prefix ''auth'' '''')" by code_simp
  with delete_by_prefix_removes_prefix [OF ref_badger_laws d] show ?thesis by auto
qed

end
