(* ===== verification/SwiftRedis.thy ===== *)
theory SwiftRedis
  imports Swiftdb
begin

text \<open>
  \<^verbatim>\<open>kex-utils/pkg/kexswiftdb/redis.go\<close>: the store on a Redis server. The client is a parameter, the
  record \<open>redis\<close> of the commands the source issues; \<open>redis_laws\<close> states their documentation. Other
  clients act between any two commands (the relation \<open>E\<close>); \<^verbatim>\<open>WATCH\<close> makes a later \<^verbatim>\<open>EXEC\<close> fail when
  a watched key was touched in between. A command that ends with an error of the connection may
  have been executed.
\<close>

section \<open>The client\<close>

datatype redis_error = RedisNil | TxFailedErr | RedisOther string

datatype redis_cmd = CmdSet string bytes duration | CmdDel string

record 'd redis =
  rd_Set :: "string \<Rightarrow> bytes \<Rightarrow> duration \<Rightarrow> 'd \<Rightarrow> (redis_error + unit) \<times> 'd"
  rd_Get :: "string \<Rightarrow> 'd \<Rightarrow> (redis_error + bytes) \<times> 'd"
  rd_Del :: "string list \<Rightarrow> 'd \<Rightarrow> (redis_error + int) \<times> 'd"
  rd_Exists :: "string \<Rightarrow> 'd \<Rightarrow> (redis_error + int) \<times> 'd"
  rd_Incr :: "string \<Rightarrow> 'd \<Rightarrow> (redis_error + int) \<times> 'd"
  rd_Expire :: "string \<Rightarrow> duration \<Rightarrow> 'd \<Rightarrow> (redis_error + unit) \<times> 'd"
  rd_SetNX :: "string \<Rightarrow> bytes \<Rightarrow> duration \<Rightarrow> 'd \<Rightarrow> (redis_error + bool) \<times> 'd"
  rd_Watch :: "string \<Rightarrow> 'd \<Rightarrow> (redis_error + unit) \<times> 'd"
  rd_Exec :: "redis_cmd list \<Rightarrow> 'd \<Rightarrow> (redis_error + unit) \<times> 'd"  \<comment> \<open>TxPipelined\<close>
  rd_Unwatch :: "'d \<Rightarrow> 'd"
  rd_Scan :: "int \<Rightarrow> string \<Rightarrow> int \<Rightarrow> 'd \<Rightarrow> (redis_error + string list \<times> int) \<times> 'd"
  rd_Ping :: "'d \<Rightarrow> (redis_error + unit) \<times> 'd"
  rd_Close :: "'d \<Rightarrow> (redis_error + unit) \<times> 'd"

section \<open>\<^verbatim>\<open>RedisStore\<close>\<close>

record 'd redis_store =
  rs_client :: 'd
  rs_closed :: bool

definition NewRedisStore :: "'d option \<Rightarrow> store_error + 'd redis_store" where
  "NewRedisStore client =
     (case client of None \<Rightarrow> Inl ErrNilClient | Some d \<Rightarrow> Inr \<lparr>rs_client = d, rs_closed = False\<rparr>)"

definition redis_err :: "redis_error \<Rightarrow> store_error" where
  "redis_err e = (case e of
       RedisNil \<Rightarrow> BackendError ''redis: nil''
     | TxFailedErr \<Rightarrow> BackendError ''redis: transaction failed''
     | RedisOther msg \<Rightarrow> BackendError msg)"

text \<open>A command on an open store: the client's error is returned, its answer goes on.\<close>

definition with_client ::
    "'d redis_store \<Rightarrow> ('d \<Rightarrow> (redis_error + 'a) \<times> 'd) \<Rightarrow> ('a \<Rightarrow> 'b) \<Rightarrow> (store_error + 'b) \<times> 'd redis_store" where
  "with_client s cmd f =
     (if rs_closed s then (Inl ErrStoreClosed, s)
      else (case cmd (rs_client s) of
         (Inl err, d) \<Rightarrow> (Inl (redis_err err), s\<lparr>rs_client := d\<rparr>)
       | (Inr x, d) \<Rightarrow> (Inr (f x), s\<lparr>rs_client := d\<rparr>)))"

definition RedisStore_Set where
  "RedisStore_Set R prefix key value ttl s =
     with_client s (rd_Set R (buildKey prefix key) value ttl) (\<lambda>_. ())"

definition RedisStore_Get where
  "RedisStore_Get R prefix key s =
     (if rs_closed s then (Inl ErrStoreClosed, s)
      else (case rd_Get R (buildKey prefix key) (rs_client s) of
         (Inl err, d) \<Rightarrow>
           (Inl (if err = RedisNil then ErrKeyNotFound else redis_err err), s\<lparr>rs_client := d\<rparr>)
       | (Inr val, d) \<Rightarrow> (Inr val, s\<lparr>rs_client := d\<rparr>)))"

definition RedisStore_Delete where
  "RedisStore_Delete R prefix key s = with_client s (rd_Del R [buildKey prefix key]) (\<lambda>_. ())"

definition RedisStore_Exists where
  "RedisStore_Exists R prefix key s = with_client s (rd_Exists R (buildKey prefix key)) (\<lambda>n. n > 0)"

text \<open>\<^verbatim>\<open>INCR\<close>, and \<^verbatim>\<open>EXPIRE\<close> when it created the counter.\<close>

definition RedisStore_Increment where
  "RedisStore_Increment R prefix key ttl s =
     (if rs_closed s then (Inl ErrStoreClosed, s)
      else (let k = buildKey prefix key in
        case rd_Incr R k (rs_client s) of
          (Inl err, d) \<Rightarrow> (Inl (redis_err err), s\<lparr>rs_client := d\<rparr>)
        | (Inr val, d) \<Rightarrow>
            if val = 1 \<and> ttl > 0 then
              (case rd_Expire R k ttl d of
                 (Inl err, d) \<Rightarrow> (Inl (redis_err err), s\<lparr>rs_client := d\<rparr>)
               | (Inr _, d) \<Rightarrow> (Inr val, s\<lparr>rs_client := d\<rparr>))
            else (Inr val, s\<lparr>rs_client := d\<rparr>)))"

definition RedisStore_SetNX where
  "RedisStore_SetNX R prefix key value ttl s =
     with_client s (rd_SetNX R (buildKey prefix key) value ttl) (\<lambda>ok. ok)"

definition redis_bytesEqual :: "bytes \<Rightarrow> bytes option \<Rightarrow> bool" where
  "redis_bytesEqual a b = (case b of None \<Rightarrow> a = [] | Some b \<Rightarrow> a = b)"

text \<open>
  \<^verbatim>\<open>client.Watch\<close> with the source's closures: the result is the closure's error (\<open>Inl\<close>) or the value of
  the flag it assigned.
\<close>

definition watch_cas ::
    "'d redis \<Rightarrow> string \<Rightarrow> bytes option \<Rightarrow> bytes \<Rightarrow> duration \<Rightarrow> 'd \<Rightarrow> (redis_error + bool) \<times> 'd" where
  "watch_cas R k old v ttl d =
     (case rd_Watch R k d of
        (Inl err, d) \<Rightarrow> (Inl err, d)
      | (Inr _, d) \<Rightarrow>
        (case rd_Get R k d of
           (Inl err, d) \<Rightarrow>
             if err = RedisNil then
               (if old = None
                then (case rd_Exec R [CmdSet k v ttl] d of
                    (Inl err, d) \<Rightarrow> (Inl err, rd_Unwatch R d)
                  | (Inr _, d) \<Rightarrow> (Inr True, rd_Unwatch R d))
                else (Inr False, rd_Unwatch R d))
             else (Inl err, rd_Unwatch R d)
         | (Inr current, d) \<Rightarrow>
             if \<not> redis_bytesEqual current old then (Inr False, rd_Unwatch R d)
             else (case rd_Exec R [CmdSet k v ttl] d of
                 (Inl err, d) \<Rightarrow> (Inl err, rd_Unwatch R d)
               | (Inr _, d) \<Rightarrow> (Inr True, rd_Unwatch R d))))"

definition watch_cad :: "'d redis \<Rightarrow> string \<Rightarrow> bytes \<Rightarrow> 'd \<Rightarrow> (redis_error + bool) \<times> 'd" where
  "watch_cad R k expected d =
     (case rd_Watch R k d of
        (Inl err, d) \<Rightarrow> (Inl err, d)
      | (Inr _, d) \<Rightarrow>
        (case rd_Get R k d of
           (Inl err, d) \<Rightarrow>
             if err = RedisNil then (Inr False, rd_Unwatch R d) else (Inl err, rd_Unwatch R d)
         | (Inr current, d) \<Rightarrow>
             if \<not> redis_bytesEqual current (Some expected) then (Inr False, rd_Unwatch R d)
             else (case rd_Exec R [CmdDel k] d of
                 (Inl err, d) \<Rightarrow> (Inl err, rd_Unwatch R d)
               | (Inr _, d) \<Rightarrow> (Inr True, rd_Unwatch R d))))"

fun watch_loop ::
    "nat \<Rightarrow> ('d \<Rightarrow> (redis_error + bool) \<times> 'd) \<Rightarrow> 'd \<Rightarrow> (store_error + bool) \<times> 'd" where
  "watch_loop 0 body d = (Inl ErrCASConflict, d)"
| "watch_loop (Suc n) body d =
     (case body d of
        (Inr flag, d) \<Rightarrow> (Inr flag, d)
      | (Inl err, d) \<Rightarrow> if err = TxFailedErr then watch_loop n body d else (Inl (redis_err err), d))"

definition RedisStore_CompareAndSwap where
  "RedisStore_CompareAndSwap R prefix key old value ttl s =
     (if rs_closed s then (Inl ErrStoreClosed, s)
      else (case watch_loop maxRetries (watch_cas R (buildKey prefix key) old value ttl) (rs_client s) of
         (r, d) \<Rightarrow> (r, s\<lparr>rs_client := d\<rparr>)))"

definition RedisStore_CompareAndDelete where
  "RedisStore_CompareAndDelete R prefix key expected s =
     (if rs_closed s then (Inl ErrStoreClosed, s)
      else (case watch_loop maxRetries (watch_cad R (buildKey prefix key) expected) (rs_client s) of
         (r, d) \<Rightarrow> (r, s\<lparr>rs_client := d\<rparr>)))"

text \<open>
  The cursor loop of \<^verbatim>\<open>SCAN\<close>; it ends when the server answers with cursor 0. The fuel bounds the
  number of pages; \<open>None\<close> means that they were not enough.
\<close>

definition scan_pattern :: "Prefix \<Rightarrow> string \<Rightarrow> string" where
  "scan_pattern prefix keyPrefix =
     (let pattern = prefix @ '':'' in
      if keyPrefix \<noteq> '''' then pattern @ keyPrefix @ ''*'' else pattern @ ''*'')"

fun scan_keys ::
    "nat \<Rightarrow> 'd redis \<Rightarrow> Prefix \<Rightarrow> string \<Rightarrow> int \<Rightarrow> string list \<Rightarrow> 'd \<Rightarrow>
     ((redis_error + string list) \<times> 'd) option" where
  "scan_keys 0 R prefix pattern cursor keys d = None"
| "scan_keys (Suc n) R prefix pattern cursor keys d =
     (case rd_Scan R cursor pattern 100 d of
        (Inl err, d) \<Rightarrow> Some (Inl err, d)
      | (Inr (batch, cursor), d) \<Rightarrow>
          (let keys = keys @ map (drop (length prefix + 1)) batch in
           if cursor = 0 then Some (Inr keys, d) else scan_keys n R prefix pattern cursor keys d))"

definition RedisStore_Keys where
  "RedisStore_Keys n R prefix keyPrefix s =
     (if rs_closed s then Some (Inl ErrStoreClosed, s)
      else (case scan_keys n R prefix (scan_pattern prefix keyPrefix) 0 [] (rs_client s) of
         None \<Rightarrow> None
       | Some (Inl err, d) \<Rightarrow> Some (Inl (redis_err err), s\<lparr>rs_client := d\<rparr>)
       | Some (Inr keys, d) \<Rightarrow> Some (Inr keys, s\<lparr>rs_client := d\<rparr>)))"

text \<open>An error of \<^verbatim>\<open>DeleteByPrefix\<close> comes with the number of keys deleted so far.\<close>

fun scan_delete ::
    "nat \<Rightarrow> 'd redis \<Rightarrow> string \<Rightarrow> int \<Rightarrow> int \<Rightarrow> 'd \<Rightarrow> ((int \<times> redis_error option) \<times> 'd) option" where
  "scan_delete 0 R pattern cursor deleted d = None"
| "scan_delete (Suc n) R pattern cursor deleted d =
     (case rd_Scan R cursor pattern 100 d of
        (Inl err, d) \<Rightarrow> Some ((deleted, Some err), d)
      | (Inr (batch, cursor), d) \<Rightarrow>
          (case (if length batch > 0 then rd_Del R batch d else (Inr 0, d)) of
             (Inl err, d) \<Rightarrow> Some ((deleted, Some err), d)
           | (Inr _, d) \<Rightarrow>
               (let deleted = deleted + int (length batch) in
                if cursor = 0 then Some ((deleted, None), d) else scan_delete n R pattern cursor deleted d)))"

definition RedisStore_DeleteByPrefix where
  "RedisStore_DeleteByPrefix n R prefix keyPrefix s =
     (if rs_closed s then Some ((0, Some ErrStoreClosed), s)
      else (case scan_delete n R (scan_pattern prefix keyPrefix) 0 0 (rs_client s) of
         None \<Rightarrow> None
       | Some ((deleted, err), d) \<Rightarrow> Some ((deleted, map_option redis_err err), s\<lparr>rs_client := d\<rparr>)))"

fun redis_count :: "string list \<Rightarrow> (string \<times> int) list \<Rightarrow> (string \<times> int) list" where
  "redis_count [] counts = counts"
| "redis_count (k # ks) counts =
     (let ns = extractPrefix k in
      redis_count ks
        (if ns \<noteq> '''' then alist_put ns ((case map_of counts ns of None \<Rightarrow> 0 | Some n \<Rightarrow> n) + 1) counts
         else counts))"

fun scan_stats ::
    "nat \<Rightarrow> 'd redis \<Rightarrow> int \<Rightarrow> (string \<times> int) list \<Rightarrow> 'd \<Rightarrow> ((string \<times> int) list option \<times> 'd) option" where
  "scan_stats 0 R cursor counts d = None"
| "scan_stats (Suc n) R cursor counts d =
     (case rd_Scan R cursor ''*'' 1000 d of
        (Inl err, d) \<Rightarrow> Some (None, d)
      | (Inr (batch, cursor), d) \<Rightarrow>
          (let counts = redis_count batch counts in
           if cursor = 0 then Some (Some counts, d) else scan_stats n R cursor counts d))"

definition RedisStore_Stats where
  "RedisStore_Stats n R ord s =
     (if rs_closed s then Some (None, s)
      else (case scan_stats n R 0 [] (rs_client s) of
         None \<Rightarrow> None
       | Some (None, d) \<Rightarrow> Some (None, s\<lparr>rs_client := d\<rparr>)
       | Some (Some counts, d) \<Rightarrow>
           Some (Some (map (\<lambda>ns. \<lparr>ss_Namespace = ns, ss_KeyCount = the (map_of counts ns)\<rparr>)
                   (ord (map fst counts))), s\<lparr>rs_client := d\<rparr>)))"

definition RedisStore_Ping where
  "RedisStore_Ping R s = with_client s (rd_Ping R) (\<lambda>_. ())"

definition RedisStore_Close where
  "RedisStore_Close R s =
     (if rs_closed s then (Inr (), s)
      else (case rd_Close R (rs_client s) of
         (Inl err, d) \<Rightarrow> (Inl (redis_err err), s\<lparr>rs_closed := True, rs_client := d\<rparr>)
       | (Inr _, d) \<Rightarrow> (Inr (), s\<lparr>rs_closed := True, rs_client := d\<rparr>)))"

text \<open>The interface value; \<open>n\<close> is the fuel of the three scanning operations.\<close>

definition fuelled :: "'s \<Rightarrow> 'r \<Rightarrow> ('r \<times> 's) option \<Rightarrow> 'r \<times> 's" where
  "fuelled s r res = (case res of None \<Rightarrow> (r, s) | Some p \<Rightarrow> p)"

definition redis_if :: "nat \<Rightarrow> 'd redis \<Rightarrow> (string list \<Rightarrow> string list) \<Rightarrow> 'd redis_store store" where
  "redis_if n R ord = \<lparr>sf_Set = RedisStore_Set R, sf_Get = RedisStore_Get R,
     sf_Delete = RedisStore_Delete R, sf_Exists = RedisStore_Exists R, sf_SetNX = RedisStore_SetNX R,
     sf_CompareAndSwap = RedisStore_CompareAndSwap R,
     sf_CompareAndDelete = RedisStore_CompareAndDelete R,
     sf_Increment = RedisStore_Increment R,
     sf_Keys = (\<lambda>p kp s. fuelled s (Inl (BackendError ''out of fuel'')) (RedisStore_Keys n R p kp s)),
     sf_DeleteByPrefix = (\<lambda>p kp s.
       case RedisStore_DeleteByPrefix n R p kp s of
         None \<Rightarrow> (Inl (BackendError ''out of fuel''), s)
       | Some ((deleted, None), s) \<Rightarrow> (Inr deleted, s)
       | Some ((_, Some err), s) \<Rightarrow> (Inl err, s)),
     sf_Stats = (\<lambda>s. fuelled s None (RedisStore_Stats n R ord s)),
     sf_Ping = RedisStore_Ping R, sf_Close = RedisStore_Close R\<rparr>"

definition ParseInt64 :: "bytes \<Rightarrow> int option" where
  "ParseInt64 data = ParseInt data"

definition FormatInt64 :: "int \<Rightarrow> bytes" where
  "FormatInt64 val = FormatInt val"

section \<open>What the source relies on\<close>

text \<open>\<open>SET\<close> with the expiration \<open>-1\<close> (\<^verbatim>\<open>redis.KeepTTL\<close>) keeps the time to live of the key.\<close>

definition redis_expiry :: "duration \<Rightarrow> duration option \<Rightarrow> duration option" where
  "redis_expiry ttl old = (if ttl = -1 then old else ttl_of ttl)"

fun apply_cmd :: "redis_cmd \<Rightarrow> content \<Rightarrow> content" where
  "apply_cmd (CmdSet k v ttl) m = m(k \<mapsto> (v, redis_expiry ttl (expiry_of m k)))"
| "apply_cmd (CmdDel k) m = m(k := None)"

text \<open>\<open>V\<close> is the content of the server, \<open>W\<close> the keys the connection watches.\<close>

definition law_redis_get where
  "law_redis_get R V W E \<longleftrightarrow> (\<forall>k d r d'. rd_Get R k d = (r, d') \<longrightarrow> E (V d) (V d') \<and> W d' = W d \<and>
     (case r of Inl e \<Rightarrow> e = RedisNil \<longrightarrow> V d' k = None | Inr v \<Rightarrow> \<exists>x. V d' k = Some (v, x)))"

definition law_redis_watch where
  "law_redis_watch R V W E \<longleftrightarrow>
     (\<forall>k d r d'. rd_Watch R k d = (r, d') \<longrightarrow> E (V d) (V d') \<and> (r = Inr () \<longrightarrow> k \<in> W d')) \<and>
     (\<forall>d. V (rd_Unwatch R d) = V d)"

definition law_redis_setnx where
  "law_redis_setnx R V E \<longleftrightarrow> (\<forall>k v ttl d r d'. rd_SetNX R k v ttl d = (Inr r, d') \<longrightarrow>
     (if r then \<exists>m. E (V d) m \<and> m k = None \<and> V d' = m(k \<mapsto> (v, redis_expiry ttl None)) else E (V d) (V d')))"

text \<open>\<^verbatim>\<open>EXEC\<close> runs its commands at one moment at which the watched keys are as they were read.\<close>

definition law_redis_exec where
  "law_redis_exec R V W E \<longleftrightarrow> (\<forall>cs d r d'. rd_Exec R cs d = (r, d') \<longrightarrow>
     (case r of Inr _ \<Rightarrow> \<exists>m. E (V d) m \<and> (\<forall>k\<in>W d. m k = V d k) \<and> V d' = fold apply_cmd cs m
      | Inl e \<Rightarrow> e = TxFailedErr \<longrightarrow> E (V d) (V d')))"

definition redis_laws ::
    "'d redis \<Rightarrow> ('d \<Rightarrow> content) \<Rightarrow> ('d \<Rightarrow> string set) \<Rightarrow> (content \<Rightarrow> content \<Rightarrow> bool) \<Rightarrow> bool" where
  "redis_laws R V W E \<longleftrightarrow> reflp E \<and> transp E \<and> law_redis_get R V W E \<and> law_redis_watch R V W E \<and>
     law_redis_setnx R V E \<and> law_redis_exec R V W E"

lemma redis_getD:
  assumes "redis_laws R V W E" "rd_Get R k d = (r, d')"
  shows "E (V d) (V d') \<and> W d' = W d \<and>
     (case r of Inl e \<Rightarrow> e = RedisNil \<longrightarrow> V d' k = None | Inr v \<Rightarrow> \<exists>x. V d' k = Some (v, x))"
  using assms unfolding redis_laws_def law_redis_get_def by blast

lemma redis_watchD:
  assumes "redis_laws R V W E" "rd_Watch R k d = (r, d')"
  shows "E (V d) (V d')" "r = Inr () \<Longrightarrow> k \<in> W d'"
  using assms unfolding redis_laws_def law_redis_watch_def by blast+

lemma redis_unwatchD: "redis_laws R V W E \<Longrightarrow> V (rd_Unwatch R d) = V d"
  unfolding redis_laws_def law_redis_watch_def by blast

lemma redis_execD:
  assumes "redis_laws R V W E" "rd_Exec R cs d = (r, d')"
  shows "case r of Inr _ \<Rightarrow> \<exists>m. E (V d) m \<and> (\<forall>k\<in>W d. m k = V d k) \<and> V d' = fold apply_cmd cs m
      | Inl e \<Rightarrow> e = TxFailedErr \<longrightarrow> E (V d) (V d')"
  using assms unfolding redis_laws_def law_redis_exec_def by blast

lemma redis_E_trans: "redis_laws R V W E \<Longrightarrow> E a b \<Longrightarrow> E b c \<Longrightarrow> E a c"
  unfolding redis_laws_def by (blast dest: transpD)

text \<open>
  The watched read, check and write. \<open>P\<close> is what a successful exchange does; a failed one that is
  retried, or one that did nothing, leaves what others did.
\<close>

definition exchanged where
  "exchanged V E P d res \<longleftrightarrow> (case res of
       (Inr flag, d') \<Rightarrow> if flag then \<exists>m. E (V d) m \<and> P m (V d') else E (V d) (V d')
     | (Inl e, d') \<Rightarrow> e = TxFailedErr \<longrightarrow> E (V d) (V d'))"

lemma watch_cas_exchanged:
  assumes laws: "redis_laws R V W E"
  shows "exchanged V E (\<lambda>m m'. \<exists>x. m k = Some (old, x) \<and> m' = m(k \<mapsto> (v, redis_expiry ttl x))) d
    (watch_cas R k (Some old) v ttl d)"
proof -
  obtain rw d1 where w: "rd_Watch R k d = (rw, d1)" by fastforce
  note Wt = redis_watchD [OF laws w]
  obtain rg d2 where g: "rd_Get R k d1 = (rg, d2)" by fastforce
  note G = redis_getD [OF laws g]
  obtain re d3 where e: "rd_Exec R [CmdSet k v ttl] d2 = (re, d3)" by fastforce
  note X = redis_execD [OF laws e]
  note U = redis_unwatchD [OF laws]
  show ?thesis
  proof (cases "rw = Inr () \<and> rg = Inr old")
    case True
    with Wt G have in_w: "k \<in> W d2" and E2: "E (V d) (V d2)" and val: "\<exists>x. V d2 k = Some (old, x)"
      using redis_E_trans [OF laws] by auto
    have c: "watch_cas R k (Some old) v ttl d =
        (case re of Inl err \<Rightarrow> (Inl err, rd_Unwatch R d3) | Inr _ \<Rightarrow> (Inr True, rd_Unwatch R d3))"
      using True w g e by (auto simp: watch_cas_def redis_bytesEqual_def split: sum.split)
    show ?thesis
    proof (cases re)
      case (Inl err)
      with c X E2 redis_E_trans [OF laws E2] show ?thesis by (auto simp: exchanged_def U)
    next
      case (Inr u)
      with X obtain m where m: "E (V d2) m" "\<forall>k\<in>W d2. m k = V d2 k" "V d3 = apply_cmd (CmdSet k v ttl) m" by auto
      with in_w val obtain x where "m k = Some (old, x)" by auto
      with m have "m k = Some (old, x) \<and> V d3 = m(k \<mapsto> (v, redis_expiry ttl x))" by (simp add: expiry_of_def)
      with c Inr redis_E_trans [OF laws E2 m(1)] show ?thesis by (auto simp: exchanged_def U)
    qed
  next
    case False
    show ?thesis
    proof (cases rw)
      case (Inl err)
      with w Wt show ?thesis by (auto simp: watch_cas_def exchanged_def)
    next
      case (Inr u)
      have E2: "E (V d) (V d2)" using Wt(1) G redis_E_trans [OF laws] by blast
      from False Inr w g have "watch_cas R k (Some old) v ttl d =
          (case rg of Inl err \<Rightarrow> (if err = RedisNil then Inr False else Inl err, rd_Unwatch R d2)
           | Inr _ \<Rightarrow> (Inr False, rd_Unwatch R d2))"
        by (auto simp: watch_cas_def redis_bytesEqual_def split: sum.split)
      with E2 show ?thesis by (cases rg) (auto simp: exchanged_def U)
    qed
  qed
qed

lemma watch_cad_exchanged:
  assumes laws: "redis_laws R V W E"
  shows "exchanged V E (\<lambda>m m'. \<exists>x. m k = Some (old, x) \<and> m' = m(k := None)) d (watch_cad R k old d)"
proof -
  obtain rw d1 where w: "rd_Watch R k d = (rw, d1)" by fastforce
  note Wt = redis_watchD [OF laws w]
  obtain rg d2 where g: "rd_Get R k d1 = (rg, d2)" by fastforce
  note G = redis_getD [OF laws g]
  obtain re d3 where e: "rd_Exec R [CmdDel k] d2 = (re, d3)" by fastforce
  note X = redis_execD [OF laws e]
  note U = redis_unwatchD [OF laws]
  show ?thesis
  proof (cases "rw = Inr () \<and> rg = Inr old")
    case True
    with Wt G have in_w: "k \<in> W d2" and E2: "E (V d) (V d2)" and val: "\<exists>x. V d2 k = Some (old, x)"
      using redis_E_trans [OF laws] by auto
    have c: "watch_cad R k old d =
        (case re of Inl err \<Rightarrow> (Inl err, rd_Unwatch R d3) | Inr _ \<Rightarrow> (Inr True, rd_Unwatch R d3))"
      using True w g e by (auto simp: watch_cad_def redis_bytesEqual_def split: sum.split)
    show ?thesis
    proof (cases re)
      case (Inl err)
      with c X E2 redis_E_trans [OF laws E2] show ?thesis by (auto simp: exchanged_def U)
    next
      case (Inr u)
      with X obtain m where m: "E (V d2) m" "\<forall>k\<in>W d2. m k = V d2 k" "V d3 = m(k := None)" by auto
      with in_w val obtain x where "m k = Some (old, x)" by auto
      with m c Inr redis_E_trans [OF laws E2 m(1)] show ?thesis by (auto simp: exchanged_def U)
    qed
  next
    case False
    show ?thesis
    proof (cases rw)
      case (Inl err)
      with w Wt show ?thesis by (auto simp: watch_cad_def exchanged_def)
    next
      case (Inr u)
      have E2: "E (V d) (V d2)" using Wt(1) G redis_E_trans [OF laws] by blast
      from False Inr w g have "watch_cad R k old d =
          (case rg of Inl err \<Rightarrow> (if err = RedisNil then Inr False else Inl err, rd_Unwatch R d2)
           | Inr _ \<Rightarrow> (Inr False, rd_Unwatch R d2))"
        by (auto simp: watch_cad_def redis_bytesEqual_def split: sum.split)
      with E2 show ?thesis by (cases rg) (auto simp: exchanged_def U)
    qed
  qed
qed

lemma watch_loop_exchanged:
  assumes laws: "redis_laws R V W E" and body: "\<And>d. exchanged V E P d (body d)"
  shows "watch_loop n body d = (r, d') \<Longrightarrow>
    (case r of Inl _ \<Rightarrow> True | Inr b \<Rightarrow> if b then \<exists>m. E (V d) m \<and> P m (V d') else E (V d) (V d'))"
proof (induction n arbitrary: d)
  case (Suc n)
  obtain q d1 where q: "body d = (q, d1)" by fastforce
  note B = body [of d, unfolded q]
  show ?case
  proof (cases "q = Inl TxFailedErr")
    case True
    with Suc.prems q have "watch_loop n body d1 = (r, d')" by simp
    note IH = Suc.IH [OF this]
    have E1: "E (V d) (V d1)" using B True by (simp add: exchanged_def)
    show ?thesis
      using IH redis_E_trans [OF laws E1] by (cases r) (auto split: if_splits)
  next
    case False
    with Suc.prems q B show ?thesis by (cases q) (auto simp: exchanged_def)
  qed
qed auto

section \<open>\<^verbatim>\<open>RedisStore\<close> keeps the contract\<close>

definition redis_content :: "('d \<Rightarrow> content) \<Rightarrow> 'd redis_store \<Rightarrow> content" where
  "redis_content V s = V (rs_client s)"

abbreviation anything :: "content \<Rightarrow> content \<Rightarrow> bool" where
  "anything m m' \<equiv> True"

lemma redis_kv_store:
  assumes laws: "redis_laws R V W E"
  shows "kv_store (redis_if n R ord) (redis_content V) E anything redis_expiry"
proof
  show refl: "E m m" for m using laws by (simp add: redis_laws_def reflp_def)
  show "E m1 m2 \<Longrightarrow> E m2 m3 \<Longrightarrow> E m1 m3" for m1 m2 m3 by (rule redis_E_trans [OF laws])
  show "E (redis_content V s) (redis_content V s') \<and>
      (case r of Inr v \<Rightarrow> \<exists>x. redis_content V s' (buildKey p k) = Some (v, x)
       | Inl e \<Rightarrow> e = ErrKeyNotFound \<longrightarrow> redis_content V s' (buildKey p k) = None)"
    if "sf_Get (redis_if n R ord) p k s = (r, s')" for p k s r s'
  proof (cases "rs_closed s")
    case True
    with that refl show ?thesis by (auto simp: redis_if_def RedisStore_Get_def)
  next
    case False
    obtain q d1 where g: "rd_Get R (buildKey p k) (rs_client s) = (q, d1)" by fastforce
    note G = redis_getD [OF laws g]
    have "s' = s\<lparr>rs_client := d1\<rparr>" "r = (case q of Inl e \<Rightarrow> Inl (if e = RedisNil then ErrKeyNotFound else redis_err e) | Inr v \<Rightarrow> Inr v)"
      using that g False by (auto simp: redis_if_def RedisStore_Get_def split: sum.splits)
    with G show ?thesis
      by (cases q) (auto simp: redis_content_def redis_err_def split: redis_error.splits)
  qed
  show "case rb of
      Inl _ \<Rightarrow> anything (redis_content V s) (redis_content V s')
    | Inr b \<Rightarrow> if b then \<exists>m. E (redis_content V s) m \<and> m (buildKey p k) = None \<and>
        redis_content V s' = m(buildKey p k \<mapsto> (v, redis_expiry ttl None))
      else E (redis_content V s) (redis_content V s')"
    if "sf_SetNX (redis_if n R ord) p k v ttl s = (rb, s')" for p k v ttl s rb s'
  proof (cases rb)
    case (Inr b)
    with that have "rd_SetNX R (buildKey p k) v ttl (rs_client s) = (Inr b, rs_client s')"
      by (auto simp: redis_if_def RedisStore_SetNX_def with_client_def split: if_splits sum.splits prod.splits)
    with laws Inr show ?thesis
      unfolding redis_laws_def law_redis_setnx_def redis_content_def by (simp split: if_splits)
  qed simp
  show "case rb of
      Inl _ \<Rightarrow> anything (redis_content V s) (redis_content V s')
    | Inr b \<Rightarrow> if b then \<exists>m x. E (redis_content V s) m \<and> m (buildKey p k) = Some (old, x) \<and>
        redis_content V s' = m(buildKey p k \<mapsto> (v, redis_expiry ttl x))
      else E (redis_content V s) (redis_content V s')"
    if "sf_CompareAndSwap (redis_if n R ord) p k (Some old) v ttl s = (rb, s')" for p k old v ttl s rb s'
  proof (cases rb)
    case (Inr b)
    with that have "watch_loop maxRetries (watch_cas R (buildKey p k) (Some old) v ttl) (rs_client s) = (rb, rs_client s')"
      by (auto simp: redis_if_def RedisStore_CompareAndSwap_def split: if_splits prod.splits)
    from watch_loop_exchanged [OF laws watch_cas_exchanged [OF laws] this] Inr show ?thesis
      by (cases b) (auto simp: redis_content_def)
  qed simp
  show "case rb of
      Inl _ \<Rightarrow> anything (redis_content V s) (redis_content V s')
    | Inr b \<Rightarrow> if b then \<exists>m x. E (redis_content V s) m \<and> m (buildKey p k) = Some (old, x) \<and>
        redis_content V s' = m(buildKey p k := None)
      else E (redis_content V s) (redis_content V s')"
    if "sf_CompareAndDelete (redis_if n R ord) p k old s = (rb, s')" for p k old s rb s'
  proof (cases rb)
    case (Inr b)
    with that have "watch_loop maxRetries (watch_cad R (buildKey p k) old) (rs_client s) = (rb, rs_client s')"
      by (auto simp: redis_if_def RedisStore_CompareAndDelete_def split: if_splits prod.splits)
    from watch_loop_exchanged [OF laws watch_cad_exchanged [OF laws] this] Inr show ?thesis
      by (cases b) (auto simp: redis_content_def)
  qed simp
qed simp_all

text \<open>The cursor loops return as soon as the fuel covers the pages the server needs.\<close>

fun pages_left :: "nat \<Rightarrow> 'd redis \<Rightarrow> string \<Rightarrow> int \<Rightarrow> 'd \<Rightarrow> bool" where
  "pages_left 0 R pattern cursor d = False"
| "pages_left (Suc n) R pattern cursor d =
     (case rd_Scan R cursor pattern 100 d of
        (Inl _, _) \<Rightarrow> True
      | (Inr (_, cursor), d) \<Rightarrow> cursor = 0 \<or> pages_left n R pattern cursor d)"

lemma scan_keys_returns:
  "pages_left n R pattern cursor d \<Longrightarrow> scan_keys n R prefix pattern cursor keys d \<noteq> None"
  by (induction n arbitrary: cursor keys d) (auto simp: Let_def split: prod.splits sum.splits)

section \<open>A reference server\<close>

text \<open>Entries, the watched keys, and the number of \<^verbatim>\<open>EXEC\<close> calls that will still fail.\<close>

type_synonym ref_server = "(string \<times> bytes \<times> duration option) list \<times> string list \<times> nat"

definition ref_map :: "ref_server \<Rightarrow> content" where
  "ref_map d = map_of (fst d)"

fun ref_apply :: "redis_cmd \<Rightarrow> (string \<times> bytes \<times> duration option) list \<Rightarrow> (string \<times> bytes \<times> duration option) list" where
  "ref_apply (CmdSet k v ttl) m = alist_put k (v, redis_expiry ttl (expiry_of (map_of m) k)) m"
| "ref_apply (CmdDel k) m = filter (\<lambda>(k', _). k' \<noteq> k) m"

definition ref_redis :: "ref_server redis" where
  "ref_redis = \<lparr>rd_Set = (\<lambda>k v ttl d. (Inr (), (ref_apply (CmdSet k v ttl) (fst d), snd d))),
     rd_Get = (\<lambda>k d. (case map_of (fst d) k of None \<Rightarrow> Inl RedisNil | Some (v, _) \<Rightarrow> Inr v, d)),
     rd_Del = (\<lambda>ks d. (Inr (int (length ks)), (fold (\<lambda>k. ref_apply (CmdDel k)) ks (fst d), snd d))),
     rd_Exists = (\<lambda>k d. (Inr (if map_of (fst d) k = None then 0 else 1), d)),
     rd_Incr = (\<lambda>k d. (Inl (RedisOther ''not modelled''), d)),
     rd_Expire = (\<lambda>k ttl d. (Inr (), d)),
     rd_SetNX = (\<lambda>k v ttl d. if map_of (fst d) k = None
        then (Inr True, (ref_apply (CmdSet k v ttl) (fst d), snd d)) else (Inr False, d)),
     rd_Watch = (\<lambda>k d. (Inr (), (fst d, [k], snd (snd d)))),
     rd_Exec = (\<lambda>cs d. (case snd (snd d) of
        0 \<Rightarrow> (Inr (), (fold ref_apply cs (fst d), snd d))
      | Suc n \<Rightarrow> (Inl TxFailedErr, (fst d, fst (snd d), n)))),
     rd_Unwatch = (\<lambda>d. (fst d, [], snd (snd d))),
     rd_Scan = (\<lambda>c p n d. (Inr (map fst (fst d), 0), d)),
     rd_Ping = (\<lambda>d. (Inr (), d)), rd_Close = (\<lambda>d. (Inr (), d))\<rparr>"

lemma map_of_ref_apply: "map_of (ref_apply c m) = apply_cmd c (map_of m)"
proof (cases c)
  case (CmdDel k)
  have "map_of (filter (\<lambda>(k', _). k' \<noteq> k) m) = (map_of m)(k := None)"
    by (induction m) (auto simp: fun_eq_iff)
  with CmdDel show ?thesis by simp
qed simp

lemma map_of_ref_fold: "map_of (fold ref_apply cs m) = fold apply_cmd cs (map_of m)"
  by (induction cs arbitrary: m) (simp_all add: map_of_ref_apply)

lemma ref_redis_laws: "redis_laws ref_redis ref_map (\<lambda>d. set (fst (snd d))) (=)"
  unfolding redis_laws_def
proof (intro conjI)
  show "law_redis_get ref_redis ref_map (\<lambda>d. set (fst (snd d))) (=)"
    by (auto simp: law_redis_get_def ref_redis_def ref_map_def split: option.splits)
  show "law_redis_exec ref_redis ref_map (\<lambda>d. set (fst (snd d))) (=)"
    by (auto simp: law_redis_exec_def ref_redis_def ref_map_def map_of_ref_fold split: nat.splits)
  show "law_redis_setnx ref_redis ref_map (=)"
    by (auto simp: law_redis_setnx_def ref_redis_def ref_map_def expiry_of_def split: if_splits)
qed (auto simp: transp_def law_redis_watch_def ref_redis_def ref_map_def)

interpretation ref_server: kv_store "redis_if 1 ref_redis (\<lambda>xs. xs)" "redis_content ref_map" "(=)" anything redis_expiry
  by (rule redis_kv_store [OF ref_redis_laws])

definition ref_redis_store :: "(string \<times> bytes \<times> duration option) list \<Rightarrow> nat \<Rightarrow> ref_server redis_store" where
  "ref_redis_store entries failures = \<lparr>rs_client = (entries, [], failures), rs_closed = False\<rparr>"

section \<open>Properties\<close>

text \<open>
  C32. On Redis, \<^verbatim>\<open>MutateJSON\<close> and \<^verbatim>\<open>ConsumeJSON\<close> refine the same atomic specification through
  \<^verbatim>\<open>WATCH\<close> and \<^verbatim>\<open>EXEC\<close>: a result that is not an error of the store is what one undisturbed
  read-modify-write gives on a content reached by the moves of other clients.
\<close>

theorem redis_helpers_refine_atomic_spec:
  assumes "redis_laws R V W E" "\<not> is_store_err r"
  shows "(MutateJSON J (redis_if n R ord) p k fn s = (r, s') \<longrightarrow>
      (\<exists>m. E (redis_content V s) m \<and>
         mutate_spec redis_expiry J fn (buildKey p k) m = (r, redis_content V s'))) \<and>
    (ConsumeJSON J (redis_if n R ord) p k cf s = (r, s') \<longrightarrow>
      (\<exists>m. E (redis_content V s) m \<and> consume_spec J cf (buildKey p k) m = (r, redis_content V s')))"
  using kv_store.mutate_refines [OF redis_kv_store [OF assms(1)], of J n ord p k fn s r s']
    kv_store.consume_refines [OF redis_kv_store [OF assms(1)], of J n ord p k cf s r s'] assms(2) by simp

theorem redis_helpers_refine_atomic_spec_witness:
  "mutate_spec redis_expiry ((\<lambda>v. Inr v), (\<lambda>b. Inr b)) (\<lambda>_. (None, ''used'', True, -1, None)) (buildKey ''auth'' ''state1'')
      (redis_content ref_map (ref_redis_store [(''auth:state1'', ''pending'', Some 60)] 2)) =
    (Inr (Some ''used''), redis_content ref_map
       (snd (MutateJSON ((\<lambda>v. Inr v), (\<lambda>b. Inr b)) (redis_if 1 ref_redis (\<lambda>xs. xs)) ''auth'' ''state1''
          (\<lambda>_. (None, ''used'', True, -1, None)) (ref_redis_store [(''auth:state1'', ''pending'', Some 60)] 2))))"
proof -
  let ?s = "ref_redis_store [(''auth:state1'', ''pending'', Some 60)] 2"
  let ?M = "MutateJSON ((\<lambda>v. Inr v), (\<lambda>b. Inr b)) (redis_if 1 ref_redis (\<lambda>xs. xs)) ''auth'' ''state1''
          (\<lambda>_. (None, ''used'', True, -1, None)) ?s"
  have "fst ?M = Inr (Some ''used'')" by code_simp
  then have r: "?M = (Inr (Some ''used''), snd ?M)" by (metis prod.collapse)
  have "\<not> is_store_err (Inr (Some ''used'') :: json_error + string option)" by (simp add: is_store_err_def)
  from redis_helpers_refine_atomic_spec [OF ref_redis_laws this] r show ?thesis by blast
qed

end
