(* ===== verification/GormTable.thy ===== *)
theory GormTable
  imports Prelude
begin

text \<open>
  The database as the repositories use it: one record \<open>table\<close> of the statements gorm issues on a
  table, over a database state \<open>'d\<close>. Gorm and the database are parameters; \<open>table_laws\<close> is the
  documented effect of the statements, in terms of the rows a table holds (\<open>tb_rows\<close>). A statement
  that fails changes nothing; statements of the package's transactions run on the state before the
  commit, which takes effect as a whole or not at all.
\<close>

record ('d, 'r) table =
  tb_rows :: "'d \<Rightarrow> 'r list"
  tb_find :: "('r \<Rightarrow> bool) \<Rightarrow> ('r \<Rightarrow> int) option \<Rightarrow> (int \<times> int) option \<Rightarrow> 'd \<Rightarrow> string + 'r list"
    \<comment> \<open>condition, ascending sort key, limit and offset\<close>
  tb_insert :: "'r list \<Rightarrow> 'd \<Rightarrow> (string + unit) \<times> 'd"
  tb_insert_ignore :: "'r list \<Rightarrow> 'd \<Rightarrow> (string + unit) \<times> 'd"
    \<comment> \<open>ON CONFLICT on the table's unique index DO NOTHING\<close>
  tb_update :: "('r \<Rightarrow> bool) \<Rightarrow> ('r \<Rightarrow> 'r) \<Rightarrow> 'd \<Rightarrow> (string + int) \<times> 'd"  \<comment> \<open>RowsAffected\<close>
  tb_delete :: "('r \<Rightarrow> bool) \<Rightarrow> 'd \<Rightarrow> (string + int) \<times> 'd"
  tb_count :: "('r \<Rightarrow> bool) \<Rightarrow> 'd \<Rightarrow> string + int"

definition window :: "(int \<times> int) option \<Rightarrow> 'r list \<Rightarrow> 'r list \<Rightarrow> bool" where
  "window w ys rs \<longleftrightarrow> (case w of
       None \<Rightarrow> rs = ys
     | Some (limit, offset) \<Rightarrow> (0 < limit \<and> 0 \<le> offset \<longrightarrow> rs = take (nat limit) (drop (nat offset) ys)) \<and>
         set rs \<subseteq> set ys)"

definition find_law where
  "find_law T \<longleftrightarrow> (\<forall>P key w d rs. tb_find T P key w d = Inr rs \<longrightarrow>
     (\<exists>ys. mset ys = mset (filter P (tb_rows T d)) \<and>
        (case key of None \<Rightarrow> True | Some f \<Rightarrow> sorted (map f ys)) \<and> window w ys rs))"

text \<open>
  \<open>pk\<close> is the primary key and \<open>uk\<close> the unique index an \<^verbatim>\<open>ON CONFLICT\<close> clause names: an insertion
  that would duplicate the primary key fails as a whole, one on a taken index value is skipped.
\<close>

fun insert_new :: "('r \<Rightarrow> 'k) \<Rightarrow> 'r list \<Rightarrow> 'r list \<Rightarrow> 'r list" where
  "insert_new uk [] rows = rows"
| "insert_new uk (r # rs) rows =
     insert_new uk rs (if uk r \<in> uk ` set rows then rows else rows @ [r])"

definition insert_law where
  "insert_law T pk uk \<longleftrightarrow> (\<forall>rs d r d'.
     (tb_insert T rs d = (r, d') \<longrightarrow> (case r of
        Inl _ \<Rightarrow> tb_rows T d' = tb_rows T d
      | Inr _ \<Rightarrow> tb_rows T d' = tb_rows T d @ rs \<and>
          (distinct (map pk (tb_rows T d)) \<longrightarrow> distinct (map pk (tb_rows T d'))))) \<and>
     (tb_insert_ignore T rs d = (r, d') \<longrightarrow> (case r of
        Inl _ \<Rightarrow> tb_rows T d' = tb_rows T d
      | Inr _ \<Rightarrow> tb_rows T d' = insert_new uk rs (tb_rows T d) \<and>
          (distinct (map pk (tb_rows T d)) \<longrightarrow> distinct (map pk (tb_rows T d'))))))"

definition update_law where
  "update_law T \<longleftrightarrow> (\<forall>P f d r d'. tb_update T P f d = (r, d') \<longrightarrow> (case r of
        Inl _ \<Rightarrow> tb_rows T d' = tb_rows T d
      | Inr n \<Rightarrow> tb_rows T d' = map (\<lambda>x. if P x then f x else x) (tb_rows T d) \<and>
          n = int (length (filter P (tb_rows T d)))))"

definition delete_law where
  "delete_law T \<longleftrightarrow> (\<forall>P d r d'. tb_delete T P d = (r, d') \<longrightarrow> (case r of
        Inl _ \<Rightarrow> tb_rows T d' = tb_rows T d
      | Inr n \<Rightarrow> tb_rows T d' = filter (\<lambda>x. \<not> P x) (tb_rows T d) \<and>
          n = int (length (filter P (tb_rows T d)))))"

definition count_law where
  "count_law T \<longleftrightarrow> (\<forall>P d n. tb_count T P d = Inr n \<longrightarrow> n = int (length (filter P (tb_rows T d))))"

definition table_laws where
  "table_laws T pk uk \<longleftrightarrow>
     find_law T \<and> insert_law T pk uk \<and> update_law T \<and> delete_law T \<and> count_law T"

text \<open>A statement on one table leaves another one alone.\<close>

definition independent :: "('d, 'r) table \<Rightarrow> ('d, 'q) table \<Rightarrow> bool" where
  "independent T U \<longleftrightarrow> (\<forall>P f rs d.
     tb_rows U (snd (tb_insert T rs d)) = tb_rows U d \<and>
     tb_rows U (snd (tb_insert_ignore T rs d)) = tb_rows U d \<and>
     tb_rows U (snd (tb_update T P f d)) = tb_rows U d \<and>
     tb_rows U (snd (tb_delete T P d)) = tb_rows U d)"

lemma find_lawD:
  assumes "table_laws T pk uk" "tb_find T P key w d = Inr rs"
  shows "\<exists>ys. mset ys = mset (filter P (tb_rows T d)) \<and>
    (case key of None \<Rightarrow> True | Some f \<Rightarrow> sorted (map f ys)) \<and> window w ys rs"
  using assms unfolding table_laws_def find_law_def by blast

lemma find_set:
  assumes "table_laws T pk uk" "tb_find T P key w d = Inr rs"
  shows "set rs \<subseteq> {r \<in> set (tb_rows T d). P r}"
proof -
  from find_lawD [OF assms] obtain ys where m: "mset ys = mset (filter P (tb_rows T d))" "window w ys rs" by blast
  from m(1) have "set ys = {r \<in> set (tb_rows T d). P r}" by (metis set_filter set_mset_mset)
  with m(2) show ?thesis by (auto simp: window_def split: option.splits)
qed

lemma find_all:
  assumes "table_laws T pk uk" "tb_find T P key None d = Inr rs"
  shows "mset rs = mset (filter P (tb_rows T d))" "set rs = {r \<in> set (tb_rows T d). P r}"
proof -
  from find_lawD [OF assms] show m: "mset rs = mset (filter P (tb_rows T d))" by (auto simp: window_def)
  then show "set rs = {r \<in> set (tb_rows T d). P r}" by (metis set_filter set_mset_mset)
qed

lemma insert_lawD:
  assumes "table_laws T pk uk"
  shows "tb_insert T rs d = (r, d') \<Longrightarrow> (case r of
        Inl _ \<Rightarrow> tb_rows T d' = tb_rows T d
      | Inr _ \<Rightarrow> tb_rows T d' = tb_rows T d @ rs \<and>
          (distinct (map pk (tb_rows T d)) \<longrightarrow> distinct (map pk (tb_rows T d'))))"
    and "tb_insert_ignore T rs d = (r, d') \<Longrightarrow> (case r of
        Inl _ \<Rightarrow> tb_rows T d' = tb_rows T d
      | Inr _ \<Rightarrow> tb_rows T d' = insert_new uk rs (tb_rows T d) \<and>
          (distinct (map pk (tb_rows T d)) \<longrightarrow> distinct (map pk (tb_rows T d'))))"
  using assms unfolding table_laws_def insert_law_def by blast+

lemma update_lawD:
  assumes "table_laws T pk uk" "tb_update T P f d = (r, d')"
  shows "case r of Inl _ \<Rightarrow> tb_rows T d' = tb_rows T d
      | Inr n \<Rightarrow> tb_rows T d' = map (\<lambda>x. if P x then f x else x) (tb_rows T d) \<and>
          n = int (length (filter P (tb_rows T d)))"
  using assms unfolding table_laws_def update_law_def by blast

lemma delete_lawD:
  assumes "table_laws T pk uk" "tb_delete T P d = (r, d')"
  shows "case r of Inl _ \<Rightarrow> tb_rows T d' = tb_rows T d
      | Inr n \<Rightarrow> tb_rows T d' = filter (\<lambda>x. \<not> P x) (tb_rows T d) \<and>
          n = int (length (filter P (tb_rows T d)))"
  using assms unfolding table_laws_def delete_law_def by blast

lemma count_lawD:
  "table_laws T pk uk \<Longrightarrow> tb_count T P d = Inr n \<Longrightarrow> n = int (length (filter P (tb_rows T d)))"
  unfolding table_laws_def count_law_def by blast

lemma insert_new_keys:
  "uk ` set (insert_new uk rs rows) = uk ` set rows \<union> uk ` set rs"
  by (induction rs arbitrary: rows) auto

lemma insert_new_distinct:
  "distinct (map uk rows) \<Longrightarrow> distinct (map uk (insert_new uk rs rows))"
  by (induction rs arbitrary: rows) auto

lemma insert_new_set: "set rows \<subseteq> set (insert_new uk rs rows) \<and> set (insert_new uk rs rows) \<subseteq> set rows \<union> set rs"
proof (induction rs arbitrary: rows)
  case (Cons r rs)
  from Cons.IH [of "if uk r \<in> uk ` set rows then rows else rows @ [r]"] show ?case by (auto split: if_splits)
qed simp

lemma insert_new_idem:
  "uk ` set rs \<subseteq> uk ` set rows \<Longrightarrow> insert_new uk rs rows = rows"
  by (induction rs) auto

lemma insert_new_fresh:
  assumes "distinct (map uk rs)" "uk ` set rs \<inter> uk ` set rows = {}"
  shows "insert_new uk rs rows = rows @ rs"
  using assms by (induction rs arbitrary: rows) auto

section \<open>A reference table\<close>

text \<open>
  A table held in a component of a state, given by its lens: the witnesses' databases are records of
  such lists. Insertions that duplicate a primary key fail.
\<close>

definition ref_find ::
    "('d \<Rightarrow> 'r list) \<Rightarrow> ('r \<Rightarrow> bool) \<Rightarrow> ('r \<Rightarrow> int) option \<Rightarrow> (int \<times> int) option \<Rightarrow> 'd \<Rightarrow> string + 'r list" where
  "ref_find get P key w d =
     (let ys = filter P (get d);
          ys = (case key of None \<Rightarrow> ys | Some f \<Rightarrow> sort_key f ys)
      in Inr (case w of None \<Rightarrow> ys
              | Some (limit, offset) \<Rightarrow> take (nat limit) (drop (nat offset) ys)))"

definition ref_table ::
    "('d \<Rightarrow> 'r list) \<Rightarrow> ('r list \<Rightarrow> 'd \<Rightarrow> 'd) \<Rightarrow> ('r \<Rightarrow> 'k) \<Rightarrow> ('r \<Rightarrow> 'u) \<Rightarrow> ('d, 'r) table" where
  "ref_table get put pk uk = \<lparr>tb_rows = get, tb_find = ref_find get,
     tb_insert = (\<lambda>rs d. if distinct (map pk (get d @ rs)) then (Inr (), put (get d @ rs) d)
                         else (Inl ''duplicate key'', d)),
     tb_insert_ignore = (\<lambda>rs d. let rows = insert_new uk rs (get d) in
        if distinct (map pk rows) then (Inr (), put rows d) else (Inl ''duplicate key'', d)),
     tb_update = (\<lambda>P f d. (Inr (int (length (filter P (get d)))),
                          put (map (\<lambda>x. if P x then f x else x) (get d)) d)),
     tb_delete = (\<lambda>P d. (Inr (int (length (filter P (get d)))), put (filter (\<lambda>x. \<not> P x) (get d)) d)),
     tb_count = (\<lambda>P d. Inr (int (length (filter P (get d)))))\<rparr>"

lemma in_take_drop: "x \<in> set (take a (drop b xs)) \<Longrightarrow> x \<in> set xs"
  by (meson in_set_dropD in_set_takeD)

lemma ref_table_laws:
  assumes "\<And>xs d. get (put xs d) = xs"
  shows "table_laws (ref_table get put pk uk) pk uk"
proof -
  have "find_law (ref_table get put pk uk)"
    unfolding find_law_def
  proof (intro allI impI)
    fix P key w d rs
    assume f: "tb_find (ref_table get put pk uk) P key w d = Inr rs"
    define ys where "ys = (case key of None \<Rightarrow> filter P (get d) | Some f \<Rightarrow> sort_key f (filter P (get d)))"
    have "rs = (case w of None \<Rightarrow> ys | Some (limit, offset) \<Rightarrow> take (nat limit) (drop (nat offset) ys))"
      using f unfolding ys_def by (auto simp: ref_table_def ref_find_def Let_def)
    then have "window w ys rs"
      by (cases w) (auto simp: window_def dest: in_take_drop)
    then show "\<exists>ys. mset ys = mset (filter P (tb_rows (ref_table get put pk uk) d)) \<and>
        (case key of None \<Rightarrow> True | Some f \<Rightarrow> sorted (map f ys)) \<and> window w ys rs"
      by (intro exI [of _ ys]) (simp add: ref_table_def ys_def split: option.split)
  qed
  then show ?thesis
    using assms by (auto simp: table_laws_def insert_law_def update_law_def delete_law_def count_law_def
        ref_table_def Let_def split: sum.splits if_splits)
qed

lemma ref_table_independent:
  assumes "\<And>xs d. get' (put xs d) = get' d"
  shows "independent (ref_table get put pk uk) (ref_table get' put' pk' uk')"
  using assms by (auto simp: independent_def ref_table_def Let_def)

end
