(* ===== verification/WebhookRepo.thy ===== *)
theory WebhookRepo
  imports GormTable Events
begin

text \<open>
  \<^verbatim>\<open>core/internal/model/webhook.go\<close> and \<^verbatim>\<open>core/internal/repository/webhook.go\<close>: webhook
  configurations, delivery logs and the transactional outbox. Times are nanoseconds counted from
  Go's zero time, so that 0 is \<^verbatim>\<open>IsZero\<close>. The clock and the random ids an operation reads are
  functions of the number of the reading; \<open>dec\<close> is \<^verbatim>\<open>json.Unmarshal\<close> into a \<^verbatim>\<open>[]string\<close>. The
  tenant callbacks, which the program does not register on this handle, are theory \<open>Tenant\<close>.
\<close>

section \<open>The rows\<close>

record webhook_config =
  wc_ID :: string
  wc_TenantID :: string
  wc_Name :: string
  wc_URL :: string
  wc_Secret :: string
  wc_Events :: string
  wc_Active :: bool
  wc_RetryCount :: int
  wc_TimeoutSeconds :: int
  wc_CreatedAt :: timestamp
  wc_UpdatedAt :: timestamp

record webhook_delivery_log =
  wl_ID :: string
  wl_TenantID :: string
  wl_WebhookConfigID :: string
  wl_EventID :: string
  wl_EventType :: EventType
  wl_RequestURL :: string
  wl_RequestBody :: string
  wl_ResponseStatus :: int
  wl_ResponseBody :: string
  wl_DurationMs :: int
  wl_Success :: bool
  wl_Attempt :: int
  wl_Error :: string
  wl_CreatedAt :: timestamp

definition OutboxStatusPending :: string where "OutboxStatusPending = ''pending''"
definition OutboxStatusProcessing :: string where "OutboxStatusProcessing = ''processing''"
definition OutboxStatusCompleted :: string where "OutboxStatusCompleted = ''completed''"
definition OutboxStatusFailed :: string where "OutboxStatusFailed = ''failed''"
definition OutboxStatusDead :: string where "OutboxStatusDead = ''dead''"

lemmas outbox_status_defs = OutboxStatusPending_def OutboxStatusProcessing_def OutboxStatusCompleted_def
  OutboxStatusFailed_def OutboxStatusDead_def

lemma outbox_status_distinct [simp]:
  "distinct [OutboxStatusPending, OutboxStatusProcessing, OutboxStatusCompleted, OutboxStatusFailed,
     OutboxStatusDead]"
  by (simp add: outbox_status_defs)

record webhook_outbox =
  wo_ID :: string
  wo_EventType :: EventType
  wo_EventID :: string
  wo_TenantID :: string
  wo_WebhookID :: string
  wo_URL :: string
  wo_Secret :: string
  wo_Payload :: string
  wo_Status :: string
  wo_Attempt :: int
  wo_MaxAttempts :: int
  wo_TimeoutSeconds :: int
  wo_NextAttemptAt :: timestamp
  wo_LastError :: string
  wo_ClaimedAt :: "timestamp option"
  wo_CreatedAt :: timestamp
  wo_UpdatedAt :: timestamp

text \<open>
  What gorm stores for a struct, by its tags: a zero field with a default gets the default, the
  creation and update times are set unless the struct has them.
\<close>

definition or_default :: "int \<Rightarrow> int \<Rightarrow> int" where
  "or_default d x = (if x = 0 then d else x)"

definition config_stored :: "timestamp \<Rightarrow> webhook_config \<Rightarrow> webhook_config" where
  "config_stored now c = c\<lparr>wc_RetryCount := or_default 3 (wc_RetryCount c),
     wc_TimeoutSeconds := or_default 10 (wc_TimeoutSeconds c),
     wc_CreatedAt := or_default now (wc_CreatedAt c), wc_UpdatedAt := or_default now (wc_UpdatedAt c)\<rparr>"

definition log_stored :: "timestamp \<Rightarrow> webhook_delivery_log \<Rightarrow> webhook_delivery_log" where
  "log_stored now l = l\<lparr>wl_Attempt := or_default 1 (wl_Attempt l),
     wl_CreatedAt := or_default now (wl_CreatedAt l)\<rparr>"

definition outbox_stored :: "timestamp \<Rightarrow> webhook_outbox \<Rightarrow> webhook_outbox" where
  "outbox_stored now e = e\<lparr>
     wo_Status := (if wo_Status e = '''' then OutboxStatusPending else wo_Status e),
     wo_MaxAttempts := or_default 3 (wo_MaxAttempts e),
     wo_TimeoutSeconds := or_default 10 (wo_TimeoutSeconds e),
     wo_CreatedAt := or_default now (wo_CreatedAt e), wo_UpdatedAt := or_default now (wo_UpdatedAt e)\<rparr>"

definition outbox_index :: "webhook_outbox \<Rightarrow> string \<times> string" where
  "outbox_index e = (wo_EventID e, wo_WebhookID e)"

section \<open>The database\<close>

record 'd webhook_db =
  wd_configs :: "('d, webhook_config) table"
  wd_logs :: "('d, webhook_delivery_log) table"
  wd_outbox :: "('d, webhook_outbox) table"
  wd_AutoMigrate :: "string \<Rightarrow> 'd \<Rightarrow> (string + unit) \<times> 'd"  \<comment> \<open>of one model, by its table name\<close>
  wd_Commit :: "'d \<Rightarrow> 'd \<Rightarrow> (string + unit) \<times> 'd"  \<comment> \<open>the state before the transaction, and at its end\<close>
  wd_dialect :: string

definition same_rows :: "'d webhook_db \<Rightarrow> 'd \<Rightarrow> 'd \<Rightarrow> bool" where
  "same_rows D d d' \<longleftrightarrow> tb_rows (wd_configs D) d' = tb_rows (wd_configs D) d \<and>
     tb_rows (wd_logs D) d' = tb_rows (wd_logs D) d \<and> tb_rows (wd_outbox D) d' = tb_rows (wd_outbox D) d"

definition webhook_laws :: "'d webhook_db \<Rightarrow> bool" where
  "webhook_laws D \<longleftrightarrow> table_laws (wd_configs D) wc_ID wc_ID \<and> table_laws (wd_logs D) wl_ID wl_ID \<and>
     table_laws (wd_outbox D) wo_ID outbox_index \<and>
     independent (wd_configs D) (wd_logs D) \<and> independent (wd_configs D) (wd_outbox D) \<and>
     independent (wd_logs D) (wd_configs D) \<and> independent (wd_logs D) (wd_outbox D) \<and>
     independent (wd_outbox D) (wd_configs D) \<and> independent (wd_outbox D) (wd_logs D) \<and>
     (\<forall>d0 d r d'. wd_Commit D d0 d = (r, d') \<longrightarrow>
        (case r of Inr _ \<Rightarrow> same_rows D d d' | Inl _ \<Rightarrow> same_rows D d0 d'))"

section \<open>Configurations and logs\<close>

datatype repo_error = ErrWebhookNotFound | ErrRecordNotFound | DbError string

definition AutoMigrate :: "'d webhook_db \<Rightarrow> 'd \<Rightarrow> (string + unit) \<times> 'd" where
  "AutoMigrate D d =
     (case wd_AutoMigrate D ''webhook_configs'' d of
        (Inl err, d) \<Rightarrow> (Inl err, d)
      | (Inr _, d) \<Rightarrow>
         (case wd_AutoMigrate D ''webhook_delivery_logs'' d of
            (Inl err, d) \<Rightarrow> (Inl err, d)
          | (Inr _, d) \<Rightarrow> wd_AutoMigrate D ''webhook_outbox'' d))"

fun db_error :: "(string + 'a) \<times> 'd \<Rightarrow> (repo_error + 'a) \<times> 'd" where
  "db_error (Inl err, d) = (Inl (DbError err), d)"
| "db_error (Inr x, d) = (Inr x, d)"

definition Create :: "'d webhook_db \<Rightarrow> timestamp \<Rightarrow> webhook_config \<Rightarrow> 'd \<Rightarrow> (repo_error + unit) \<times> 'd" where
  "Create D now cfg d = db_error (tb_insert (wd_configs D) [config_stored now cfg] d)"

definition FindByID :: "'d webhook_db \<Rightarrow> string \<Rightarrow> 'd \<Rightarrow> repo_error + webhook_config" where
  "FindByID D rowID d =
     (case tb_find (wd_configs D) (\<lambda>c. wc_ID c = rowID) None (Some (1, 0)) d of
        Inl err \<Rightarrow> Inl (DbError err)
      | Inr [] \<Rightarrow> Inl ErrWebhookNotFound
      | Inr (c # _) \<Rightarrow> Inr c)"

definition FindByTenantID :: "'d webhook_db \<Rightarrow> string \<Rightarrow> 'd \<Rightarrow> repo_error + webhook_config list" where
  "FindByTenantID D tenantID d =
     (case tb_find (wd_configs D) (\<lambda>c. wc_TenantID c = tenantID) (Some (\<lambda>c. - wc_CreatedAt c)) None d of
        Inl err \<Rightarrow> Inl (DbError err)
      | Inr cs \<Rightarrow> Inr cs)"

definition eventMatches :: "(string \<Rightarrow> string list option) \<Rightarrow> string \<Rightarrow> string \<Rightarrow> bool" where
  "eventMatches dec eventsJSON eventType =
     (case dec eventsJSON of
        None \<Rightarrow> False
      | Some events \<Rightarrow> list_ex (\<lambda>e. e = eventType \<or> e = ''*'') events)"

definition findActiveByEvent ::
    "(string \<Rightarrow> string list option) \<Rightarrow> 'd webhook_db \<Rightarrow> EventType \<Rightarrow> 'd \<Rightarrow> repo_error + webhook_config list" where
  "findActiveByEvent dec D eventType d =
     (case tb_find (wd_configs D) wc_Active None None d of
        Inl err \<Rightarrow> Inl (DbError err)
      | Inr configs \<Rightarrow> Inr (filter (\<lambda>cfg. eventMatches dec (wc_Events cfg) eventType) configs))"

definition FindActiveByEvent where "FindActiveByEvent = findActiveByEvent"

fun rows_affected :: "(string + int) \<times> 'd \<Rightarrow> (repo_error + unit) \<times> 'd" where
  "rows_affected (Inl err, d) = (Inl (DbError err), d)"
| "rows_affected (Inr n, d) = (if n = 0 then Inl ErrWebhookNotFound else Inr (), d)"

definition Update :: "'d webhook_db \<Rightarrow> timestamp \<Rightarrow> webhook_config \<Rightarrow> 'd \<Rightarrow> (repo_error + unit) \<times> 'd" where
  "Update D now cfg d = rows_affected (tb_update (wd_configs D) (\<lambda>c. wc_ID c = wc_ID cfg)
     (\<lambda>c. c\<lparr>wc_Name := wc_Name cfg, wc_URL := wc_URL cfg, wc_Secret := wc_Secret cfg,
        wc_Events := wc_Events cfg, wc_Active := wc_Active cfg, wc_RetryCount := wc_RetryCount cfg,
        wc_TimeoutSeconds := wc_TimeoutSeconds cfg, wc_UpdatedAt := now\<rparr>) d)"

definition Delete :: "'d webhook_db \<Rightarrow> string \<Rightarrow> 'd \<Rightarrow> (repo_error + unit) \<times> 'd" where
  "Delete D rowID d = rows_affected (tb_delete (wd_configs D) (\<lambda>c. wc_ID c = rowID) d)"

definition CreateDeliveryLog ::
    "'d webhook_db \<Rightarrow> timestamp \<Rightarrow> webhook_delivery_log \<Rightarrow> 'd \<Rightarrow> (repo_error + unit) \<times> 'd" where
  "CreateDeliveryLog D now l d = db_error (tb_insert (wd_logs D) [log_stored now l] d)"

definition ListDeliveryLogs ::
    "'d webhook_db \<Rightarrow> string \<Rightarrow> int \<Rightarrow> int \<Rightarrow> 'd \<Rightarrow> repo_error + webhook_delivery_log list" where
  "ListDeliveryLogs D webhookConfigID limit offset d =
     (case tb_find (wd_logs D) (\<lambda>l. wl_WebhookConfigID l = webhookConfigID)
             (Some (\<lambda>l. - wl_CreatedAt l)) (Some (limit, offset)) d of
        Inl err \<Rightarrow> Inl (DbError err)
      | Inr ls \<Rightarrow> Inr ls)"

section \<open>The outbox\<close>

text \<open>One entry per matching configuration; \<open>ids i\<close> and \<open>now i\<close> are read for the \<open>i\<close>-th.\<close>

definition outbox_entry ::
    "(nat \<Rightarrow> string) \<Rightarrow> (nat \<Rightarrow> timestamp) \<Rightarrow> EventType \<Rightarrow> string \<Rightarrow> string \<Rightarrow> string \<Rightarrow> nat \<times> webhook_config \<Rightarrow>
     webhook_outbox" where
  "outbox_entry ids now eventType eventID tenantID payload ic = (case ic of (i, cfg) \<Rightarrow>
     \<lparr>wo_ID = ids i, wo_EventType = eventType, wo_EventID = eventID, wo_TenantID = tenantID,
      wo_WebhookID = wc_ID cfg, wo_URL = wc_URL cfg, wo_Secret = wc_Secret cfg, wo_Payload = payload,
      wo_Status = OutboxStatusPending, wo_Attempt = 0, wo_MaxAttempts = wc_RetryCount cfg,
      wo_TimeoutSeconds = wc_TimeoutSeconds cfg, wo_NextAttemptAt = now i, wo_LastError = '''',
      wo_ClaimedAt = None, wo_CreatedAt = 0, wo_UpdatedAt = 0\<rparr>)"

definition CreateOutboxEntries ::
    "(string \<Rightarrow> string list option) \<Rightarrow> 'd webhook_db \<Rightarrow> (nat \<Rightarrow> string) \<Rightarrow> (nat \<Rightarrow> timestamp) \<Rightarrow>
     EventType \<Rightarrow> string \<Rightarrow> string \<Rightarrow> string \<Rightarrow> 'd \<Rightarrow> (repo_error + unit) \<times> 'd" where
  "CreateOutboxEntries dec D ids now eventType eventID tenantID payload d =
     (case findActiveByEvent dec D eventType d of
        Inl err \<Rightarrow> (Inl err, d)
      | Inr configs \<Rightarrow>
          if length configs = 0 then (Inr (), d)
          else (let entries = map (outbox_entry ids now eventType eventID tenantID payload)
                                (enumerate 0 configs)
                in db_error (tb_insert_ignore (wd_outbox D)
                     (map (outbox_stored (now (length configs))) entries) d)))"

definition processingLeaseTimeout :: duration where
  "processingLeaseTimeout = 5 * 60 * 10 ^ 9"

definition isSQLite :: "'d webhook_db \<Rightarrow> bool" where
  "isSQLite D \<longleftrightarrow> wd_dialect D = ''sqlite'' \<or> wd_dialect D = ''sqlite3''"

text \<open>
  The condition of the claim. Except on SQLite the query skips rows that another transaction has
  locked (\<open>locked\<close>, by id).
\<close>

definition claimable :: "timestamp \<Rightarrow> webhook_outbox \<Rightarrow> bool" where
  "claimable now e \<longleftrightarrow>
     wo_Status e = OutboxStatusPending \<and> wo_NextAttemptAt e \<le> now \<or>
     wo_Status e = OutboxStatusProcessing \<and> wo_UpdatedAt e < now - processingLeaseTimeout"

definition claim_row :: "timestamp \<Rightarrow> webhook_outbox \<Rightarrow> webhook_outbox" where
  "claim_row now e = e\<lparr>wo_Status := OutboxStatusProcessing, wo_UpdatedAt := now\<rparr>"

definition claim_txn ::
    "'d webhook_db \<Rightarrow> (string \<Rightarrow> bool) \<Rightarrow> timestamp \<Rightarrow> int \<Rightarrow> 'd \<Rightarrow>
     (repo_error + unit) \<times> webhook_outbox list \<times> 'd" where
  "claim_txn D locked now limit d =
     (case tb_find (wd_outbox D) (\<lambda>e. claimable now e \<and> (isSQLite D \<or> \<not> locked (wo_ID e)))
             (Some wo_CreatedAt) (Some (limit, 0)) d of
        Inl err \<Rightarrow> (Inl (DbError err), [], d)
      | Inr entries \<Rightarrow>
          if length entries = 0 then (Inr (), entries, d)
          else (case tb_update (wd_outbox D) (\<lambda>e. wo_ID e \<in> set (map wo_ID entries)) (claim_row now) d of
              (Inl err, d) \<Rightarrow> (Inl (DbError err), entries, d)
            | (Inr _, d) \<Rightarrow> (Inr (), entries, d)))"

text \<open>The entries are returned also with an error.\<close>

definition ClaimPendingOutbox ::
    "'d webhook_db \<Rightarrow> (string \<Rightarrow> bool) \<Rightarrow> timestamp \<Rightarrow> int \<Rightarrow> 'd \<Rightarrow>
     webhook_outbox list \<times> repo_error option \<times> 'd" where
  "ClaimPendingOutbox D locked now limit d =
     (case claim_txn D locked now limit d of
        (Inl err, entries, _) \<Rightarrow> (entries, Some err, d)
      | (Inr _, entries, d1) \<Rightarrow>
          (case wd_Commit D d d1 of
             (Inl err, d) \<Rightarrow> (entries, Some (DbError err), d)
           | (Inr _, d) \<Rightarrow> (entries, None, d)))"

fun ignore_rows :: "(string + int) \<times> 'd \<Rightarrow> (repo_error + unit) \<times> 'd" where
  "ignore_rows (Inl err, d) = (Inl (DbError err), d)"
| "ignore_rows (Inr _, d) = (Inr (), d)"

definition update_entry ::
    "'d webhook_db \<Rightarrow> string \<Rightarrow> (webhook_outbox \<Rightarrow> webhook_outbox) \<Rightarrow> 'd \<Rightarrow> (repo_error + unit) \<times> 'd" where
  "update_entry D rowID f d = ignore_rows (tb_update (wd_outbox D) (\<lambda>e. wo_ID e = rowID) f d)"

definition MarkOutboxCompleted ::
    "'d webhook_db \<Rightarrow> timestamp \<Rightarrow> string \<Rightarrow> 'd \<Rightarrow> (repo_error + unit) \<times> 'd" where
  "MarkOutboxCompleted D now rowID d =
     update_entry D rowID (\<lambda>e. e\<lparr>wo_Status := OutboxStatusCompleted, wo_UpdatedAt := now\<rparr>) d"

definition MarkOutboxDead ::
    "'d webhook_db \<Rightarrow> timestamp \<Rightarrow> string \<Rightarrow> string \<Rightarrow> 'd \<Rightarrow> (repo_error + unit) \<times> 'd" where
  "MarkOutboxDead D now rowID lastError d =
     update_entry D rowID (\<lambda>e. e\<lparr>wo_Status := OutboxStatusDead, wo_LastError := lastError,
        wo_UpdatedAt := now\<rparr>) d"

text \<open>
  \<^verbatim>\<open>time.Duration(math.Pow(2, n))\<close>: the conversion of a float out of range gives the least \<^verbatim>\<open>int64\<close>
  on amd64; the product with a second wraps.
\<close>

definition failure_backoff :: "int \<Rightarrow> duration" where
  "failure_backoff n = wrap64 ((if n < 0 then 0 else if n < 63 then 2 ^ nat n else - (2 ^ 63)) * 10 ^ 9)"

definition failed_update ::
    "'d webhook_db \<Rightarrow> (nat \<Rightarrow> timestamp) \<Rightarrow> webhook_outbox \<Rightarrow> string \<Rightarrow> string \<Rightarrow> 'd \<Rightarrow>
     (repo_error + unit) \<times> 'd" where
  "failed_update D now entry rowID lastError d =
     (let nextAttempt = wrap64 (wo_Attempt entry + 1) in
      if nextAttempt \<ge> wo_MaxAttempts entry then
        update_entry D rowID (\<lambda>e. e\<lparr>wo_Status := OutboxStatusDead, wo_Attempt := nextAttempt,
          wo_LastError := lastError, wo_UpdatedAt := now 0\<rparr>) d
      else
        update_entry D rowID (\<lambda>e. e\<lparr>wo_Status := OutboxStatusPending, wo_Attempt := nextAttempt,
          wo_NextAttemptAt := now 0 + failure_backoff nextAttempt,
          wo_LastError := lastError, wo_UpdatedAt := now 1\<rparr>) d)"

definition MarkOutboxFailed ::
    "'d webhook_db \<Rightarrow> (nat \<Rightarrow> timestamp) \<Rightarrow> string \<Rightarrow> string \<Rightarrow> 'd \<Rightarrow> (repo_error + unit) \<times> 'd" where
  "MarkOutboxFailed D now rowID lastError d =
     (case tb_find (wd_outbox D) (\<lambda>e. wo_ID e = rowID) None (Some (1, 0)) d of
        Inl err \<Rightarrow> (Inl (DbError err), d)
      | Inr [] \<Rightarrow> (Inl ErrRecordNotFound, d)
      | Inr (entry # _) \<Rightarrow> failed_update D now entry rowID lastError d)"

definition CountDeadOutbox :: "'d webhook_db \<Rightarrow> 'd \<Rightarrow> repo_error + int" where
  "CountDeadOutbox D d =
     (case tb_count (wd_outbox D) (\<lambda>e. wo_Status e = OutboxStatusDead) d of
        Inl err \<Rightarrow> Inl (DbError err)
      | Inr n \<Rightarrow> Inr n)"

definition ListDeadOutbox ::
    "'d webhook_db \<Rightarrow> int \<Rightarrow> int \<Rightarrow> 'd \<Rightarrow> repo_error + webhook_outbox list" where
  "ListDeadOutbox D limit offset d =
     (case tb_find (wd_outbox D) (\<lambda>e. wo_Status e = OutboxStatusDead) (Some wo_CreatedAt)
             (Some (limit, offset)) d of
        Inl err \<Rightarrow> Inl (DbError err)
      | Inr es \<Rightarrow> Inr es)"

definition replay_row :: "(nat \<Rightarrow> timestamp) \<Rightarrow> webhook_outbox \<Rightarrow> webhook_outbox" where
  "replay_row now e = e\<lparr>wo_Status := OutboxStatusPending, wo_Attempt := 0, wo_NextAttemptAt := now 0,
     wo_LastError := '''', wo_UpdatedAt := now 1\<rparr>"

definition ReplayDeadOutbox ::
    "'d webhook_db \<Rightarrow> (nat \<Rightarrow> timestamp) \<Rightarrow> string \<Rightarrow> 'd \<Rightarrow> (repo_error + unit) \<times> 'd" where
  "ReplayDeadOutbox D now rowID d =
     rows_affected (tb_update (wd_outbox D)
       (\<lambda>e. wo_ID e = rowID \<and> wo_Status e = OutboxStatusDead) (replay_row now) d)"

section \<open>The effect on rows\<close>

text \<open>Rows are looked up by their primary key.\<close>

definition entry_of :: "'d webhook_db \<Rightarrow> 'd \<Rightarrow> string \<Rightarrow> webhook_outbox option" where
  "entry_of D d rowID = map_of (map (\<lambda>e. (wo_ID e, e)) (tb_rows (wd_outbox D) d)) rowID"

definition config_of :: "'d webhook_db \<Rightarrow> 'd \<Rightarrow> string \<Rightarrow> webhook_config option" where
  "config_of D d rowID = map_of (map (\<lambda>c. (wc_ID c, c)) (tb_rows (wd_configs D) d)) rowID"

lemma lookup_map: "(\<And>x. k (g x) = k x) \<Longrightarrow>
    map_of (map (\<lambda>x. (k x, x)) (map g xs)) i = map_option g (map_of (map (\<lambda>x. (k x, x)) xs) i)"
  by (induction xs) auto

lemma lookup_key: "map_of (map (\<lambda>x. (k x, x)) xs) i = Some x \<Longrightarrow> x \<in> set xs \<and> k x = i"
  by (induction xs) (auto split: if_splits)

lemma lookup_in: "distinct (map k xs) \<Longrightarrow> x \<in> set xs \<Longrightarrow> map_of (map (\<lambda>x. (k x, x)) xs) (k x) = Some x"
  by (induction xs) (auto simp: image_iff)

lemma entry_of_ID: "entry_of D d i = Some e \<Longrightarrow> e \<in> set (tb_rows (wd_outbox D) d) \<and> wo_ID e = i"
  unfolding entry_of_def by (rule lookup_key)

lemma webhook_lawsD:
  assumes "webhook_laws D"
  shows "table_laws (wd_configs D) wc_ID wc_ID" "table_laws (wd_logs D) wl_ID wl_ID"
    "table_laws (wd_outbox D) wo_ID outbox_index"
    "independent (wd_configs D) (wd_logs D)" "independent (wd_configs D) (wd_outbox D)"
    "independent (wd_logs D) (wd_configs D)" "independent (wd_logs D) (wd_outbox D)"
    "independent (wd_outbox D) (wd_configs D)" "independent (wd_outbox D) (wd_logs D)"
  using assms unfolding webhook_laws_def by blast+

lemma commit_lawD:
  assumes "webhook_laws D" "wd_Commit D d0 d = (r, d')"
  shows "case r of Inr _ \<Rightarrow> same_rows D d d' | Inl _ \<Rightarrow> same_rows D d0 d'"
  using assms unfolding webhook_laws_def by blast

lemma update_entry_of:
  assumes "webhook_laws D" "update_entry D i f d = (r, d')" "\<And>e. wo_ID (f e) = wo_ID e"
  shows "entry_of D d' j = (if r = Inr () then map_option (\<lambda>e. if wo_ID e = i then f e else e) (entry_of D d j)
      else entry_of D d j)"
    and "tb_rows (wd_configs D) d' = tb_rows (wd_configs D) d"
    and "tb_rows (wd_logs D) d' = tb_rows (wd_logs D) d"
proof -
  obtain q d1 where u: "tb_update (wd_outbox D) (\<lambda>e. wo_ID e = i) f d = (q, d1)" by fastforce
  with assms(2) have q: "d1 = d'" "r = (case q of Inl err \<Rightarrow> Inl (DbError err) | Inr _ \<Rightarrow> Inr ())"
    by (cases q; auto simp: update_entry_def)+
  have key: "wo_ID (if wo_ID e = i then f e else e) = wo_ID e" for e by (simp add: assms(3))
  from update_lawD [OF webhook_lawsD(3) [OF assms(1)] u] q
  show "entry_of D d' j = (if r = Inr () then map_option (\<lambda>e. if wo_ID e = i then f e else e) (entry_of D d j)
      else entry_of D d j)"
    by (cases q) (simp_all add: entry_of_def lookup_map [where k = wo_ID, OF key] del: map_map)
  from webhook_lawsD(8,9) [OF assms(1)] u q
  show "tb_rows (wd_configs D) d' = tb_rows (wd_configs D) d" "tb_rows (wd_logs D) d' = tb_rows (wd_logs D) d"
    unfolding independent_def by (metis snd_conv)+
qed

lemma update_entry_ids:
  assumes "webhook_laws D" "update_entry D i f d = (r, d')" "\<And>e. wo_ID (f e) = wo_ID e"
  shows "map wo_ID (tb_rows (wd_outbox D) d') = map wo_ID (tb_rows (wd_outbox D) d)"
proof -
  obtain q d1 where u: "tb_update (wd_outbox D) (\<lambda>e. wo_ID e = i) f d = (q, d1)" by fastforce
  with assms(2) have "d1 = d'" by (cases q) (auto simp: update_entry_def)
  with update_lawD [OF webhook_lawsD(3) [OF assms(1)] u] assms(3) show ?thesis
    by (cases q) auto
qed

lemma same_rows_refl [simp]: "same_rows D d d"
  by (simp add: same_rows_def)

lemma same_rows_of:
  assumes "same_rows D d d'"
  shows "entry_of D d' = entry_of D d" "config_of D d' = config_of D d"
  using assms by (auto simp: same_rows_def entry_of_def config_of_def fun_eq_iff)

lemma rows_of_config_write:
  assumes "webhook_laws D"
  shows "entry_of D (snd (tb_insert (wd_configs D) cs d)) = entry_of D d"
    "entry_of D (snd (tb_update (wd_configs D) P f d)) = entry_of D d"
    "entry_of D (snd (tb_delete (wd_configs D) P d)) = entry_of D d"
    "entry_of D (snd (tb_insert (wd_logs D) ls d)) = entry_of D d"
  using webhook_lawsD(5,7) [OF assms] by (simp_all add: independent_def entry_of_def fun_eq_iff)

lemma insert_new_append: "\<exists>zs. insert_new uk rs rows = rows @ zs \<and> set zs \<subseteq> set rs"
proof (induction rs arbitrary: rows)
  case (Cons r rs)
  from Cons.IH [of "if uk r \<in> uk ` set rows then rows else rows @ [r]"] show ?case
    by (auto split: if_splits)
qed simp

lemma findActiveByEvent_spec:
  assumes "webhook_laws D" "findActiveByEvent dec D eventType d = Inr cs"
  shows "mset cs = mset (filter (\<lambda>c. wc_Active c \<and> eventMatches dec (wc_Events c) eventType) (tb_rows (wd_configs D) d))"
proof -
  from assms(2) obtain xs where f: "tb_find (wd_configs D) wc_Active None None d = Inr xs"
    and cs: "cs = filter (\<lambda>c. eventMatches dec (wc_Events c) eventType) xs"
    by (auto simp: findActiveByEvent_def split: sum.splits)
  from find_all(1) [OF webhook_lawsD(1) [OF assms(1)] f] cs show ?thesis
    by (simp add: filter_filter_mset conj_commute)
qed

definition subscribed :: "(string \<Rightarrow> string list option) \<Rightarrow> 'd webhook_db \<Rightarrow> EventType \<Rightarrow> 'd \<Rightarrow> webhook_config set" where
  "subscribed dec D eventType d =
     {c \<in> set (tb_rows (wd_configs D) d). wc_Active c \<and> eventMatches dec (wc_Events c) eventType}"

lemma findActiveByEvent_set:
  "webhook_laws D \<Longrightarrow> findActiveByEvent dec D eventType d = Inr cs \<Longrightarrow> set cs = subscribed dec D eventType d"
  using findActiveByEvent_spec unfolding subscribed_def by (metis set_filter set_mset_mset)

lemma outbox_entry_sel [simp]:
  "outbox_index (outbox_stored t (outbox_entry ids now eventType eventID tenantID payload (i, cfg))) = (eventID, wc_ID cfg)"
  "wo_ID (outbox_stored t (outbox_entry ids now eventType eventID tenantID payload (i, cfg))) = ids i"
  "wo_Status (outbox_stored t (outbox_entry ids now eventType eventID tenantID payload (i, cfg))) = OutboxStatusPending"
  by (simp_all add: outbox_index_def outbox_stored_def outbox_entry_def outbox_status_defs)

lemma CreateOutboxEntries_rows:
  assumes "webhook_laws D" "CreateOutboxEntries dec D ids now eventType eventID tenantID payload d = (r, d')"
  shows "r \<noteq> Inr () \<Longrightarrow> tb_rows (wd_outbox D) d' = tb_rows (wd_outbox D) d"
    and "r = Inr () \<Longrightarrow> \<exists>cs. set cs = subscribed dec D eventType d \<and>
      tb_rows (wd_outbox D) d' = insert_new outbox_index (map (outbox_stored (now (length cs)) \<circ>
          outbox_entry ids now eventType eventID tenantID payload) (enumerate 0 cs)) (tb_rows (wd_outbox D) d)"
    and "tb_rows (wd_configs D) d' = tb_rows (wd_configs D) d"
proof -
  note L = webhook_lawsD [OF assms(1)]
  let ?new = "\<lambda>cs. map (outbox_stored (now (length cs)) \<circ> outbox_entry ids now eventType eventID tenantID payload)
    (enumerate 0 cs)"
  have *: "if r = Inr () then \<exists>cs. set cs = subscribed dec D eventType d \<and>
        tb_rows (wd_outbox D) d' = insert_new outbox_index (?new cs) (tb_rows (wd_outbox D) d)
      else tb_rows (wd_outbox D) d' = tb_rows (wd_outbox D) d"
  proof (cases "findActiveByEvent dec D eventType d")
    case (Inl err)
    with assms(2) show ?thesis by (auto simp: CreateOutboxEntries_def)
  next
    case (Inr cs)
    note S = findActiveByEvent_set [OF assms(1) Inr]
    show ?thesis
    proof (cases "cs = []")
      case True
      with assms(2) Inr S show ?thesis
        by (auto simp: CreateOutboxEntries_def intro: exI [of _ "[]"])
    next
      case False
      obtain q d1 where i: "tb_insert_ignore (wd_outbox D) (?new cs) d = (q, d1)" by fastforce
      with assms(2) Inr False have "d1 = d'" "r = (case q of Inl err \<Rightarrow> Inl (DbError err) | Inr _ \<Rightarrow> Inr ())"
        by (cases q; auto simp: CreateOutboxEntries_def Let_def)+
      with insert_lawD(2) [OF L(3) i] S show ?thesis
        by (cases q) auto
    qed
  qed
  then show "r \<noteq> Inr () \<Longrightarrow> tb_rows (wd_outbox D) d' = tb_rows (wd_outbox D) d"
    and "r = Inr () \<Longrightarrow> \<exists>cs. set cs = subscribed dec D eventType d \<and>
      tb_rows (wd_outbox D) d' = insert_new outbox_index (?new cs) (tb_rows (wd_outbox D) d)"
    by simp_all
  show "tb_rows (wd_configs D) d' = tb_rows (wd_configs D) d"
  proof (cases "findActiveByEvent dec D eventType d")
    case (Inr cs)
    obtain q d1 where i: "tb_insert_ignore (wd_outbox D) (?new cs) d = (q, d1)" by fastforce
    have "tb_rows (wd_configs D) d1 = tb_rows (wd_configs D) d"
      using L(8) i unfolding independent_def by (metis snd_conv)
    with assms(2) Inr i show ?thesis
      by (cases q) (auto simp: CreateOutboxEntries_def Let_def split: if_splits)
  qed (use assms(2) in \<open>auto simp: CreateOutboxEntries_def\<close>)
qed

lemma CreateOutboxEntries_keys:
  "outbox_index ` set (map (outbox_stored t \<circ> outbox_entry ids now eventType eventID tenantID payload) (enumerate 0 cs)) =
    (\<lambda>c. (eventID, wc_ID c)) ` set cs"
proof -
  have "outbox_index ` set (map (outbox_stored t \<circ> outbox_entry ids now eventType eventID tenantID payload) (enumerate 0 cs)) =
      (\<lambda>ic. (eventID, wc_ID (snd ic))) ` set (enumerate 0 cs)"
    by (force simp: image_image)
  also have "\<dots> = (\<lambda>c. (eventID, wc_ID c)) ` snd ` set (enumerate 0 cs)" by (simp add: image_image)
  also have "snd ` set (enumerate 0 cs) = set cs" by (metis list.set_map map_snd_enumerate)
  finally show ?thesis .
qed

text \<open>A subscription gets its entry for an event once: the index of the outbox rows afterwards.\<close>

lemma CreateOutboxEntries_index:
  assumes "webhook_laws D" "CreateOutboxEntries dec D ids now eventType eventID tenantID payload d = (Inr (), d')"
  shows "outbox_index ` set (tb_rows (wd_outbox D) d') =
    outbox_index ` set (tb_rows (wd_outbox D) d) \<union> (\<lambda>c. (eventID, wc_ID c)) ` subscribed dec D eventType d"
proof -
  from CreateOutboxEntries_rows(2) [OF assms] obtain cs where cs: "set cs = subscribed dec D eventType d"
    "tb_rows (wd_outbox D) d' = insert_new outbox_index (map (outbox_stored (now (length cs)) \<circ>
          outbox_entry ids now eventType eventID tenantID payload) (enumerate 0 cs)) (tb_rows (wd_outbox D) d)" by auto
  then show ?thesis
    by (simp only: insert_new_keys CreateOutboxEntries_keys)
qed

section \<open>A reference database\<close>

record ref_rows =
  rr_configs :: "webhook_config list"
  rr_logs :: "webhook_delivery_log list"
  rr_outbox :: "webhook_outbox list"

definition ref_webhook_db :: "ref_rows webhook_db" where
  "ref_webhook_db = \<lparr>wd_configs = ref_table rr_configs (\<lambda>xs d. d\<lparr>rr_configs := xs\<rparr>) wc_ID wc_ID,
     wd_logs = ref_table rr_logs (\<lambda>xs d. d\<lparr>rr_logs := xs\<rparr>) wl_ID wl_ID,
     wd_outbox = ref_table rr_outbox (\<lambda>xs d. d\<lparr>rr_outbox := xs\<rparr>) wo_ID outbox_index,
     wd_AutoMigrate = (\<lambda>_ d. (Inr (), d)), wd_Commit = (\<lambda>_ d. (Inr (), d)), wd_dialect = ''sqlite''\<rparr>"

lemma ref_webhook_laws: "webhook_laws ref_webhook_db"
  unfolding webhook_laws_def ref_webhook_db_def
  by (auto intro!: ref_table_laws ref_table_independent simp: same_rows_def)

lemma ref_rows_simps [simp]:
  "tb_rows (wd_configs ref_webhook_db) = rr_configs" "tb_rows (wd_logs ref_webhook_db) = rr_logs"
  "tb_rows (wd_outbox ref_webhook_db) = rr_outbox"
  by (simp_all add: ref_webhook_db_def ref_table_def)

definition demo_config :: "string \<Rightarrow> string \<Rightarrow> webhook_config" where
  "demo_config cfgID events = \<lparr>wc_ID = cfgID, wc_TenantID = ''t1'', wc_Name = ''hook'', wc_URL = ''https://h/x'',
     wc_Secret = ''s'', wc_Events = events, wc_Active = True, wc_RetryCount = 3, wc_TimeoutSeconds = 10,
     wc_CreatedAt = 1, wc_UpdatedAt = 1\<rparr>"

definition demo_rows :: ref_rows where
  "demo_rows = \<lparr>rr_configs = [demo_config ''c1'' ''*'', demo_config ''c2'' ''user.login'', demo_config ''c3'' ''role.assign''],
     rr_logs = [], rr_outbox = []\<rparr>"

definition demo_dec :: "string \<Rightarrow> string list option" where
  "demo_dec s = Some [s]"

definition demo_ids :: "nat \<Rightarrow> string" where
  "demo_ids n = replicate (Suc n) (CHR ''i'')"

section \<open>Properties\<close>

text \<open>What the outbox row of a subscribed configuration says.\<close>

definition entry_for ::
    "EventType \<Rightarrow> string \<Rightarrow> string \<Rightarrow> string \<Rightarrow> webhook_config \<Rightarrow> webhook_outbox \<Rightarrow> bool" where
  "entry_for eventType eventID tenantID payload cfg e \<longleftrightarrow>
     wo_EventType e = eventType \<and> outbox_index e = (eventID, wc_ID cfg) \<and> wo_TenantID e = tenantID \<and>
     wo_URL e = wc_URL cfg \<and> wo_Secret e = wc_Secret cfg \<and> wo_Payload e = payload \<and>
     wo_Status e = OutboxStatusPending \<and> wo_Attempt e = 0 \<and>
     wo_MaxAttempts e = or_default 3 (wc_RetryCount cfg) \<and>
     wo_TimeoutSeconds e = or_default 10 (wc_TimeoutSeconds cfg)"

lemma entry_for_new:
  assumes "e \<in> set (map (outbox_stored t \<circ> outbox_entry ids now eventType eventID tenantID payload) (enumerate 0 cs))"
  shows "\<exists>c\<in>set cs. entry_for eventType eventID tenantID payload c e"
proof -
  from assms obtain i c where ic: "(i, c) \<in> set (enumerate 0 cs)"
    "e = outbox_stored t (outbox_entry ids now eventType eventID tenantID payload (i, c))" by auto
  then have "c \<in> set cs" by (metis in_set_zip enumerate_eq_zip snd_conv nth_mem)
  with ic(2) show ?thesis
    by (intro bexI [of _ c]) (auto simp: entry_for_def outbox_index_def outbox_stored_def outbox_entry_def outbox_status_defs)
qed

text \<open>
  C19. Writing an event to the outbox adds one pending entry for every active configuration whose
  events contain the type or the wildcard, and nothing else: the earlier rows stay as they are,
  every new row is the entry of a subscribed configuration with that configuration's URL, secret
  and limits, no index value occurs twice, and afterwards every subscribed configuration has its
  entry. Writing the same event again, with whatever payload, ids and time, changes no row.
\<close>

theorem outbox_one_entry_per_subscription:
  assumes "webhook_laws D"
    and "CreateOutboxEntries dec D ids now eventType eventID tenantID payload d = (Inr (), d')"
  shows "\<exists>new. tb_rows (wd_outbox D) d' = tb_rows (wd_outbox D) d @ new \<and>
    (\<forall>e\<in>set new. \<exists>c\<in>subscribed dec D eventType d. entry_for eventType eventID tenantID payload c e) \<and>
    (distinct (map outbox_index (tb_rows (wd_outbox D) d)) \<longrightarrow>
       distinct (map outbox_index (tb_rows (wd_outbox D) d'))) \<and>
    (\<forall>c\<in>subscribed dec D eventType d. (eventID, wc_ID c) \<in> outbox_index ` set (tb_rows (wd_outbox D) d')) \<and>
    (\<forall>ids2 now2 tenantID2 payload2.
       tb_rows (wd_outbox D) (snd (CreateOutboxEntries dec D ids2 now2 eventType eventID tenantID2 payload2 d')) =
       tb_rows (wd_outbox D) d')"
proof -
  from CreateOutboxEntries_rows(2) [OF assms] obtain cs where cs: "set cs = subscribed dec D eventType d"
    and rows: "tb_rows (wd_outbox D) d' = insert_new outbox_index (map (outbox_stored (now (length cs)) \<circ>
          outbox_entry ids now eventType eventID tenantID payload) (enumerate 0 cs)) (tb_rows (wd_outbox D) d)"
    (is "_ = insert_new _ ?new _") by auto
  from insert_new_append [of outbox_index ?new "tb_rows (wd_outbox D) d"] obtain new
    where new: "tb_rows (wd_outbox D) d' = tb_rows (wd_outbox D) d @ new" "set new \<subseteq> set ?new"
    unfolding rows by blast
  have idx: "(eventID, wc_ID c) \<in> outbox_index ` set (tb_rows (wd_outbox D) d')" if "c \<in> subscribed dec D eventType d" for c
    using that unfolding CreateOutboxEntries_index [OF assms] by blast
  have sub: "subscribed dec D eventType d' = subscribed dec D eventType d"
    unfolding subscribed_def CreateOutboxEntries_rows(3) [OF assms] ..
  have again: "tb_rows (wd_outbox D) (snd (CreateOutboxEntries dec D ids2 now2 eventType eventID tenantID2 payload2 d')) =
       tb_rows (wd_outbox D) d'" for ids2 now2 tenantID2 payload2
  proof -
    obtain r2 d2 where c: "CreateOutboxEntries dec D ids2 now2 eventType eventID tenantID2 payload2 d' = (r2, d2)"
      by fastforce
    show ?thesis
    proof (cases "r2 = Inr ()")
      case True
      from CreateOutboxEntries_rows(2) [OF assms(1) c True] obtain cs2
        where cs2: "set cs2 = subscribed dec D eventType d"
        "tb_rows (wd_outbox D) d2 = insert_new outbox_index (map (outbox_stored (now2 (length cs2)) \<circ>
          outbox_entry ids2 now2 eventType eventID tenantID2 payload2) (enumerate 0 cs2)) (tb_rows (wd_outbox D) d')"
        (is "_ = insert_new _ ?n2 _") unfolding sub by auto
      have "outbox_index ` set ?n2 \<subseteq> outbox_index ` set (tb_rows (wd_outbox D) d')"
        unfolding CreateOutboxEntries_keys cs2(1) using idx by blast
      with cs2(2) c show ?thesis by (simp add: insert_new_idem)
    next
      case False
      with CreateOutboxEntries_rows(1) [OF assms(1) c] c show ?thesis by simp
    qed
  qed
  have ent: "\<exists>c\<in>subscribed dec D eventType d. entry_for eventType eventID tenantID payload c e" if "e \<in> set new" for e
    using entry_for_new [of e "now (length cs)" ids now eventType eventID tenantID payload cs] that new(2) cs by blast
  have "distinct (map outbox_index (tb_rows (wd_outbox D) d')) " if "distinct (map outbox_index (tb_rows (wd_outbox D) d))"
    unfolding rows by (rule insert_new_distinct [OF that])
  with new(1) idx again ent show ?thesis by blast
qed

theorem outbox_one_entry_per_subscription_witness:
  "\<exists>d'. CreateOutboxEntries demo_dec ref_webhook_db demo_ids (\<lambda>_. 7) ''user.login'' ''e1'' ''t1'' ''{}'' demo_rows = (Inr (), d') \<and>
    map wo_WebhookID (rr_outbox d') = [''c1'', ''c2''] \<and>
    tb_rows (wd_outbox ref_webhook_db) (snd (CreateOutboxEntries demo_dec ref_webhook_db demo_ids (\<lambda>_. 9) ''user.login'' ''e1'' ''t1'' ''x'' d')) =
      tb_rows (wd_outbox ref_webhook_db) d'"
proof -
  let ?c = "CreateOutboxEntries demo_dec ref_webhook_db demo_ids (\<lambda>_. 7) ''user.login'' ''e1'' ''t1'' ''{}'' demo_rows"
  have r: "fst ?c = Inr ()" and w: "map wo_WebhookID (rr_outbox (snd ?c)) = [''c1'', ''c2'']" by code_simp+
  from r have c: "?c = (Inr (), snd ?c)" by (metis prod.collapse)
  from outbox_one_entry_per_subscription [OF ref_webhook_laws c]
  have "tb_rows (wd_outbox ref_webhook_db) (snd (CreateOutboxEntries demo_dec ref_webhook_db demo_ids (\<lambda>_. 9)
      ''user.login'' ''e1'' ''t1'' ''x'' (snd ?c))) = tb_rows (wd_outbox ref_webhook_db) (snd ?c)" by blast
  with w c show ?thesis by (intro exI [of _ "snd ?c"] conjI)
qed

subsection \<open>Claims\<close>

lemma claim_row_ID [simp]: "wo_ID (claim_row now e) = wo_ID e"
  by (simp add: claim_row_def)

lemma ClaimPendingOutbox_cases:
  assumes "webhook_laws D" "ClaimPendingOutbox D locked now limit d = (es, None, d')"
  shows "tb_find (wd_outbox D) (\<lambda>e. claimable now e \<and> (isSQLite D \<or> \<not> locked (wo_ID e)))
      (Some wo_CreatedAt) (Some (limit, 0)) d = Inr es"
    and "tb_rows (wd_outbox D) d' =
      map (\<lambda>e. if wo_ID e \<in> wo_ID ` set es then claim_row now e else e) (tb_rows (wd_outbox D) d)"
    and "tb_rows (wd_configs D) d' = tb_rows (wd_configs D) d"
proof -
  note L = webhook_lawsD [OF assms(1)]
  obtain d1 where t: "claim_txn D locked now limit d = (Inr (), es, d1)" and c: "wd_Commit D d d1 = (Inr (), d')"
    using assms(2) by (auto simp: ClaimPendingOutbox_def split: prod.splits sum.splits)
  show find: "tb_find (wd_outbox D) (\<lambda>e. claimable now e \<and> (isSQLite D \<or> \<not> locked (wo_ID e)))
      (Some wo_CreatedAt) (Some (limit, 0)) d = Inr es"
    using t by (auto simp: claim_txn_def split: sum.splits if_splits prod.splits)
  have same: "same_rows D d1 d'" using commit_lawD [OF assms(1) c] by simp
  obtain q u where u: "tb_update (wd_outbox D) (\<lambda>e. wo_ID e \<in> set (map wo_ID es)) (claim_row now) d = (q, u)"
    by fastforce
  have "tb_rows (wd_outbox D) d1 = map (\<lambda>e. if wo_ID e \<in> wo_ID ` set es then claim_row now e else e) (tb_rows (wd_outbox D) d) \<and>
      tb_rows (wd_configs D) d1 = tb_rows (wd_configs D) d"
  proof (cases "es = []")
    case True
    with t find show ?thesis by (simp add: claim_txn_def)
  next
    case False
    with t find u obtain n where "q = Inr n" "u = d1" by (auto simp: claim_txn_def split: sum.splits)
    moreover have "tb_rows (wd_configs D) u = tb_rows (wd_configs D) d"
      using L(8) u unfolding independent_def by (metis snd_conv)
    ultimately show ?thesis using update_lawD [OF L(3) u] by simp
  qed
  with same show "tb_rows (wd_outbox D) d' =
      map (\<lambda>e. if wo_ID e \<in> wo_ID ` set es then claim_row now e else e) (tb_rows (wd_outbox D) d)"
    and "tb_rows (wd_configs D) d' = tb_rows (wd_configs D) d" by (simp_all add: same_rows_def)
qed

lemma ClaimPendingOutbox_entry_of:
  assumes "webhook_laws D" "ClaimPendingOutbox D locked now limit d = (es, None, d')"
  shows "entry_of D d' i = map_option (\<lambda>e. if i \<in> wo_ID ` set es then claim_row now e else e) (entry_of D d i)"
proof -
  have key: "wo_ID (if wo_ID e \<in> S then claim_row now e else e) = wo_ID e" for e S by simp
  have "entry_of D d' i = map_option (\<lambda>e. if wo_ID e \<in> wo_ID ` set es then claim_row now e else e) (entry_of D d i)"
    unfolding entry_of_def ClaimPendingOutbox_cases(2) [OF assms] by (rule lookup_map [where k = wo_ID, OF key])
  then show ?thesis using entry_of_ID [of D d i] by (cases "entry_of D d i") auto
qed

lemma window_oldest:
  assumes "sorted (map f ys)" "window (Some (limit, 0)) ys rs" "0 < limit" "x \<in> set ys" "x \<notin> set rs"
  shows "length rs = nat limit \<and> (\<forall>r\<in>set rs. f r \<le> f x)"
proof -
  have rs: "rs = take (nat limit) ys" using assms(2,3) by (simp add: window_def)
  have ys: "ys = rs @ drop (nat limit) ys" by (simp add: rs)
  with assms(4,5) have x: "x \<in> set (drop (nat limit) ys)" by (metis Un_iff set_append)
  then have "nat limit < length ys" by (metis drop_all empty_iff list.set(1) not_le)
  moreover have "\<forall>r\<in>set rs. f r \<le> f x"
    using assms(1) x unfolding ys [THEN arg_cong [of _ _ "map f"]] by (auto simp: sorted_append)
  ultimately show ?thesis by (simp add: rs)
qed

text \<open>
  C20. A claim leases the oldest due entries: it returns at most \<^verbatim>\<open>limit\<close> entries, each of them
  pending and due or with an expired lease and not locked by another claim; an eligible entry is
  left out only when the limit is reached and it is not older than a claimed one. Afterwards
  exactly the claimed rows are marked as processing since \<^verbatim>\<open>now\<close>, and no claim up to five minutes
  later returns one of them again, as long as nothing else has written to the table.
\<close>

theorem claims_are_leases_on_oldest_due_entries:
  assumes "webhook_laws D" "0 < limit" "ClaimPendingOutbox D locked now limit d = (es, None, d')"
  shows "int (length es) \<le> limit \<and>
    (\<forall>e\<in>set es. e \<in> set (tb_rows (wd_outbox D) d) \<and> claimable now e \<and> (isSQLite D \<or> \<not> locked (wo_ID e))) \<and>
    (\<forall>x\<in>set (tb_rows (wd_outbox D) d). claimable now x \<and> (isSQLite D \<or> \<not> locked (wo_ID x)) \<and> x \<notin> set es \<longrightarrow>
       int (length es) = limit \<and> (\<forall>e\<in>set es. wo_CreatedAt e \<le> wo_CreatedAt x)) \<and>
    (\<forall>i. entry_of D d' i = map_option (\<lambda>e. if i \<in> wo_ID ` set es
        then e\<lparr>wo_Status := OutboxStatusProcessing, wo_UpdatedAt := now\<rparr> else e) (entry_of D d i)) \<and>
    (\<forall>locked2 now2 limit2 es2 d2. ClaimPendingOutbox D locked2 now2 limit2 d' = (es2, None, d2) \<and>
       now2 \<le> now + processingLeaseTimeout \<longrightarrow> wo_ID ` set es \<inter> wo_ID ` set es2 = {})"
proof -
  note L = webhook_lawsD(3) [OF assms(1)]
  let ?P = "\<lambda>e. claimable now e \<and> (isSQLite D \<or> \<not> locked (wo_ID e))"
  note find = ClaimPendingOutbox_cases(1) [OF assms(1,3)]
  from find_lawD [OF L find] obtain ys where ys: "mset ys = mset (filter ?P (tb_rows (wd_outbox D) d))"
    "sorted (map wo_CreatedAt ys)" "window (Some (limit, 0)) ys es" by auto
  from ys(1) have set_ys: "set ys = {e \<in> set (tb_rows (wd_outbox D) d). ?P e}" by (metis set_filter set_mset_mset)
  have "es = take (nat limit) ys" using ys(3) assms(2) by (simp add: window_def)
  with assms(2) have len: "int (length es) \<le> limit" by simp
  have lease: "wo_ID ` set es \<inter> wo_ID ` set es2 = {}"
    if c: "ClaimPendingOutbox D locked2 now2 limit2 d' = (es2, None, d2)" "now2 \<le> now + processingLeaseTimeout"
    for locked2 now2 limit2 es2 d2
  proof -
    have "wo_ID e2 \<notin> wo_ID ` set es" if "e2 \<in> set es2" for e2
    proof
      assume i: "wo_ID e2 \<in> wo_ID ` set es"
      from find_set [OF L ClaimPendingOutbox_cases(1) [OF assms(1) c(1)]] that
      have e2: "e2 \<in> set (tb_rows (wd_outbox D) d')" "claimable now2 e2" by auto
      from e2(1) i obtain e where "e2 = claim_row now e"
        unfolding ClaimPendingOutbox_cases(2) [OF assms(1,3)] by (auto split: if_splits)
      with e2(2) c(2) show False
        by (auto simp: claimable_def claim_row_def outbox_status_defs)
    qed
    then show ?thesis unfolding disjoint_iff by (metis imageE)
  qed
  have oldest: "int (length es) = limit \<and> (\<forall>e\<in>set es. wo_CreatedAt e \<le> wo_CreatedAt x)"
    if "x \<in> set (tb_rows (wd_outbox D) d)" "?P x" "x \<notin> set es" for x
    using window_oldest [OF ys(2,3) assms(2), of x] that set_ys assms(2) by auto
  have upd: "entry_of D d' i = map_option (\<lambda>e. if i \<in> wo_ID ` set es
        then e\<lparr>wo_Status := OutboxStatusProcessing, wo_UpdatedAt := now\<rparr> else e) (entry_of D d i)" for i
    unfolding claim_row_def [symmetric] by (rule ClaimPendingOutbox_entry_of [OF assms(1,3)])
  from find_set [OF L find] have due: "\<forall>e\<in>set es. e \<in> set (tb_rows (wd_outbox D) d) \<and> ?P e" by blast
  show ?thesis
    by (intro conjI len due ballI impI allI upd; use oldest lease in blast)
qed

definition demo_entry :: "string \<Rightarrow> timestamp \<Rightarrow> webhook_outbox" where
  "demo_entry rowID t = \<lparr>wo_ID = rowID, wo_EventType = ''user.login'', wo_EventID = rowID, wo_TenantID = ''t1'',
     wo_WebhookID = ''c1'', wo_URL = ''https://h/x'', wo_Secret = ''s'', wo_Payload = ''e1'',
     wo_Status = OutboxStatusPending, wo_Attempt = 0, wo_MaxAttempts = 3, wo_TimeoutSeconds = 10,
     wo_NextAttemptAt = t, wo_LastError = '''', wo_ClaimedAt = None, wo_CreatedAt = t, wo_UpdatedAt = t\<rparr>"

definition demo_outbox :: ref_rows where
  "demo_outbox = demo_rows\<lparr>rr_outbox := [demo_entry ''b'' 5, demo_entry ''a'' 3]\<rparr>"

theorem claims_are_leases_on_oldest_due_entries_witness:
  "\<exists>es d'. ClaimPendingOutbox ref_webhook_db (\<lambda>_. False) 7 1 demo_outbox = (es, None, d') \<and> map wo_ID es = [''a''] \<and>
    wo_ID ` set es \<inter> wo_ID ` set (fst (ClaimPendingOutbox ref_webhook_db (\<lambda>_. False) 8 5 d')) = {}"
proof -
  let ?c = "ClaimPendingOutbox ref_webhook_db (\<lambda>_. False) 7 1 demo_outbox"
  let ?c2 = "ClaimPendingOutbox ref_webhook_db (\<lambda>_. False) 8 5 (snd (snd ?c))"
  have r: "fst (snd ?c) = None" "fst (snd ?c2) = None" and w: "map wo_ID (fst ?c) = [''a'']" by code_simp+
  from r have c: "?c = (fst ?c, None, snd (snd ?c))" "?c2 = (fst ?c2, None, snd (snd ?c2))"
    by (metis prod.collapse)+
  have "(8::int) \<le> 7 + processingLeaseTimeout" by (simp add: processingLeaseTimeout_def)
  with claims_are_leases_on_oldest_due_entries [OF ref_webhook_laws zero_less_one c(1)] c(2)
  have "wo_ID ` set (fst ?c) \<inter> wo_ID ` set (fst ?c2) = {}" by blast
  with c(1) w show ?thesis by (intro exI [of _ "fst ?c"] exI [of _ "snd (snd ?c)"] conjI)
qed

subsection \<open>Marks\<close>

definition failed_row :: "(nat \<Rightarrow> timestamp) \<Rightarrow> webhook_outbox \<Rightarrow> string \<Rightarrow> webhook_outbox \<Rightarrow> webhook_outbox" where
  "failed_row now entry err =
     (if wo_MaxAttempts entry \<le> wrap64 (wo_Attempt entry + 1)
      then (\<lambda>e. e\<lparr>wo_Status := OutboxStatusDead, wo_Attempt := wrap64 (wo_Attempt entry + 1),
         wo_LastError := err, wo_UpdatedAt := now 0\<rparr>)
      else (\<lambda>e. e\<lparr>wo_Status := OutboxStatusPending, wo_Attempt := wrap64 (wo_Attempt entry + 1),
         wo_NextAttemptAt := now 0 + failure_backoff (wrap64 (wo_Attempt entry + 1)),
         wo_LastError := err, wo_UpdatedAt := now 1\<rparr>))"

lemma failed_row_sel [simp]:
  "wo_ID (failed_row now entry err e) = wo_ID e"
  "wo_Attempt (failed_row now entry err e) = wrap64 (wo_Attempt entry + 1)"
  "wo_MaxAttempts (failed_row now entry err e) = wo_MaxAttempts e"
  "wo_Status (failed_row now entry err e) = (if wo_MaxAttempts entry \<le> wrap64 (wo_Attempt entry + 1)
      then OutboxStatusDead else OutboxStatusPending)"
  by (simp_all add: failed_row_def)

lemma failed_update_row: "failed_update D now entry i err d = update_entry D i (failed_row now entry err) d"
  by (simp add: failed_update_def failed_row_def Let_def)

lemma failed_update_entry_of:
  assumes "webhook_laws D" "failed_update D now entry i err d = (r, d')"
  shows "entry_of D d' j = (if r = Inr ()
      then map_option (\<lambda>e. if wo_ID e = i then failed_row now entry err e else e) (entry_of D d j)
      else entry_of D d j)"
  by (rule update_entry_of(1) [OF assms(1) assms(2) [unfolded failed_update_row]]) simp

lemma find_entry:
  assumes "webhook_laws D" "tb_find (wd_outbox D) (\<lambda>e. wo_ID e = i) None (Some (1, 0)) d = Inr es"
    "distinct (map wo_ID (tb_rows (wd_outbox D) d))"
  shows "es = (case entry_of D d i of None \<Rightarrow> [] | Some e \<Rightarrow> [e])"
proof -
  from find_lawD [OF webhook_lawsD(3) [OF assms(1)] assms(2)] obtain ys where
    ys: "mset ys = mset (filter (\<lambda>e. wo_ID e = i) (tb_rows (wd_outbox D) d))" "es = take 1 ys"
    by (auto simp: window_def)
  have f: "filter (\<lambda>e. wo_ID e = i) rows = (case map_of (map (\<lambda>e. (wo_ID e, e)) rows) i of None \<Rightarrow> [] | Some e \<Rightarrow> [e])"
    if "distinct (map wo_ID rows)" for rows
    using that
  proof (induction rows)
    case (Cons x rows)
    have "filter (\<lambda>e. wo_ID e = i) rows = []" if "wo_ID x = i"
      using that Cons.prems by (auto simp: filter_empty_conv) (metis image_eqI)
    with Cons show ?case by auto
  qed simp
  have "ys = (case entry_of D d i of None \<Rightarrow> [] | Some e \<Rightarrow> [e])"
    using ys(1) f [OF assms(3)] by (auto simp: entry_of_def split: option.splits)
  with ys(2) show ?thesis by (auto split: option.splits)
qed

lemma rows_affected_cases:
  assumes "rows_affected (q, d1) = (r, d')"
  shows "d' = d1 \<and> (r = Inr () \<longleftrightarrow> (\<exists>n. q = Inr n \<and> n \<noteq> 0))"
  using assms by (cases q) (auto split: if_splits)

lemma ReplayDeadOutbox_entry_of:
  assumes "webhook_laws D" "ReplayDeadOutbox D now i d = (r, d')"
  shows "is_ok (fst (tb_update (wd_outbox D) (\<lambda>e. wo_ID e = i \<and> wo_Status e = OutboxStatusDead) (replay_row now) d)) \<Longrightarrow>
      entry_of D d' j = map_option (\<lambda>e. if wo_ID e = i \<and> wo_Status e = OutboxStatusDead then replay_row now e else e) (entry_of D d j)"
    and "\<not> is_ok (fst (tb_update (wd_outbox D) (\<lambda>e. wo_ID e = i \<and> wo_Status e = OutboxStatusDead) (replay_row now) d)) \<Longrightarrow>
      entry_of D d' = entry_of D d"
    and "tb_rows (wd_configs D) d' = tb_rows (wd_configs D) d"
proof -
  obtain q d1 where u: "tb_update (wd_outbox D) (\<lambda>e. wo_ID e = i \<and> wo_Status e = OutboxStatusDead) (replay_row now) d = (q, d1)"
    by fastforce
  with assms(2) have [simp]: "d1 = d'" using rows_affected_cases by (metis ReplayDeadOutbox_def)
  have key: "wo_ID (if wo_ID e = i \<and> wo_Status e = OutboxStatusDead then replay_row now e else e) = wo_ID e" for e
    by (simp add: replay_row_def)
  note U = update_lawD [OF webhook_lawsD(3) [OF assms(1)] u]
  show "entry_of D d' j = map_option (\<lambda>e. if wo_ID e = i \<and> wo_Status e = OutboxStatusDead then replay_row now e else e) (entry_of D d j)"
    if "is_ok (fst (tb_update (wd_outbox D) (\<lambda>e. wo_ID e = i \<and> wo_Status e = OutboxStatusDead) (replay_row now) d))"
    using that U u by (cases q) (simp_all add: entry_of_def lookup_map [where k = wo_ID, OF key] del: map_map)
  show "entry_of D d' = entry_of D d"
    if "\<not> is_ok (fst (tb_update (wd_outbox D) (\<lambda>e. wo_ID e = i \<and> wo_Status e = OutboxStatusDead) (replay_row now) d))"
    using that U u by (cases q) (simp_all add: entry_of_def fun_eq_iff)
  show "tb_rows (wd_configs D) d' = tb_rows (wd_configs D) d"
    using webhook_lawsD(8) [OF assms(1)] u unfolding independent_def by (metis \<open>d1 = d'\<close> snd_conv)
qed

lemma CreateOutboxEntries_entry_of:
  assumes "webhook_laws D" "CreateOutboxEntries dec D ids now eventType eventID tenantID payload d = (r, d')"
  shows "entry_of D d i = Some e \<Longrightarrow> entry_of D d' i = Some e"
    and "entry_of D d' i = Some e \<Longrightarrow> entry_of D d i = Some e \<or>
      wo_Status e = OutboxStatusPending \<and> wo_Attempt e = 0"
proof -
  have "\<exists>new. tb_rows (wd_outbox D) d' = tb_rows (wd_outbox D) d @ new \<and>
      (\<forall>e\<in>set new. wo_Status e = OutboxStatusPending \<and> wo_Attempt e = 0)"
  proof (cases "r = Inr ()")
    case True
    from CreateOutboxEntries_rows(2) [OF assms True] obtain cs where
      rows: "tb_rows (wd_outbox D) d' = insert_new outbox_index (map (outbox_stored (now (length cs)) \<circ>
          outbox_entry ids now eventType eventID tenantID payload) (enumerate 0 cs)) (tb_rows (wd_outbox D) d)"
      (is "_ = insert_new _ ?new _") by auto
    from insert_new_append [of outbox_index ?new "tb_rows (wd_outbox D) d"] obtain new
      where "tb_rows (wd_outbox D) d' = tb_rows (wd_outbox D) d @ new" "set new \<subseteq> set ?new"
      unfolding rows by blast
    with entry_for_new [of _ "now (length cs)" ids now eventType eventID tenantID payload cs] show ?thesis
      by (intro exI [of _ new]) (meson entry_for_def subsetD)
  next
    case False
    with CreateOutboxEntries_rows(1) [OF assms] show ?thesis by (intro exI [of _ "[]"]) simp
  qed
  then obtain new where new: "tb_rows (wd_outbox D) d' = tb_rows (wd_outbox D) d @ new"
    "\<forall>e\<in>set new. wo_Status e = OutboxStatusPending \<and> wo_Attempt e = 0" by blast
  show "entry_of D d i = Some e \<Longrightarrow> entry_of D d' i = Some e"
    using new(1) by (simp add: entry_of_def map_add_def)
  show "entry_of D d' i = Some e \<Longrightarrow> entry_of D d i = Some e \<or> wo_Status e = OutboxStatusPending \<and> wo_Attempt e = 0"
    using new lookup_key [of wo_ID new i e] by (auto simp: entry_of_def map_add_def split: option.splits)
qed

lemma CreateOutboxEntries_ids:
  assumes "webhook_laws D" "CreateOutboxEntries dec D ids now eventType eventID tenantID payload d = (r, d')"
    "distinct (map wo_ID (tb_rows (wd_outbox D) d))"
  shows "distinct (map wo_ID (tb_rows (wd_outbox D) d'))"
proof (cases "findActiveByEvent dec D eventType d")
  case (Inl err)
  with assms(2,3) show ?thesis by (auto simp: CreateOutboxEntries_def)
next
  case (Inr cs)
  let ?es = "map (outbox_stored (now (length cs)) \<circ> outbox_entry ids now eventType eventID tenantID payload) (enumerate 0 cs)"
  obtain q d1 where i: "tb_insert_ignore (wd_outbox D) ?es d = (q, d1)" by fastforce
  with assms(2) Inr have "d' = d \<or> d' = d1" by (cases q) (auto simp: CreateOutboxEntries_def Let_def split: if_splits)
  with insert_lawD(2) [OF webhook_lawsD(3) [OF assms(1)] i] assms(3) show ?thesis
    by (cases q) auto
qed

end
