(* ===== verification/WebhookWorker.thy ===== *)
theory WebhookWorker
  imports WebhookRepo Dispatcher
begin

text \<open>
  \<^verbatim>\<open>core/internal/worker/webhook.go\<close> and \<^verbatim>\<open>outbox_handler.go\<close>: the worker that claims outbox entries
  and delivers them. The sequential part runs one worker on a state of the world, the database and
  the counters. \<open>pool_step\<close> interleaves the database statements and deliveries of any number of
  workers. Log output is left out, an error that is only logged has no other effect.
\<close>

section \<open>The worker\<close>

definition defaultWorkers :: int where "defaultWorkers = 10"
definition defaultMinInterval :: duration where "defaultMinInterval = 500 * 10 ^ 6"
definition defaultMaxInterval :: duration where "defaultMaxInterval = 10 * 10 ^ 9"
definition defaultClaimLimit :: int where "defaultClaimLimit = 1"
definition defaultDLQCheckInterval :: duration where "defaultDLQCheckInterval = 5 * 60 * 10 ^ 9"
definition defaultDLQAlertThreshold :: int where "defaultDLQAlertThreshold = 100"

record worker_metrics =
  wm_SuccessCount :: int
  wm_FailureCount :: int
  wm_DeadLetterCount :: int
  wm_ProcessedCount :: int

text \<open>The fixed parts of a worker; \<open>started\<close> and the channels are in \<open>worker_life\<close>.\<close>

record webhook_worker =
  ww_workers :: int
  ww_minInterval :: duration
  ww_maxInterval :: duration
  ww_dlqCheckInterval :: duration
  ww_dlqAlertThreshold :: int

definition WithWorkers :: "int \<Rightarrow> webhook_worker \<Rightarrow> webhook_worker" where
  "WithWorkers n w = (if n > 0 then w\<lparr>ww_workers := n\<rparr> else w)"

definition WithMinInterval :: "duration \<Rightarrow> webhook_worker \<Rightarrow> webhook_worker" where
  "WithMinInterval t w = w\<lparr>ww_minInterval := t\<rparr>"

definition WithMaxInterval :: "duration \<Rightarrow> webhook_worker \<Rightarrow> webhook_worker" where
  "WithMaxInterval t w = w\<lparr>ww_maxInterval := t\<rparr>"

definition WithDLQCheckInterval :: "duration \<Rightarrow> webhook_worker \<Rightarrow> webhook_worker" where
  "WithDLQCheckInterval t w = w\<lparr>ww_dlqCheckInterval := t\<rparr>"

definition WithDLQAlertThreshold :: "int \<Rightarrow> webhook_worker \<Rightarrow> webhook_worker" where
  "WithDLQAlertThreshold n w = w\<lparr>ww_dlqAlertThreshold := n\<rparr>"

definition NewWebhookWorker :: "(webhook_worker \<Rightarrow> webhook_worker) list \<Rightarrow> webhook_worker" where
  "NewWebhookWorker opts = fold (\<lambda>opt w. opt w) opts
     \<lparr>ww_workers = defaultWorkers, ww_minInterval = defaultMinInterval, ww_maxInterval = defaultMaxInterval,
      ww_dlqCheckInterval = defaultDLQCheckInterval, ww_dlqAlertThreshold = defaultDLQAlertThreshold\<rparr>"

text \<open>
  Starting and stopping: \<open>wl_running\<close> counts the goroutines that have not returned. \<^verbatim>\<open>Stop\<close> closes
  the stop channel once, waits until that count is zero (\<open>None\<close>: it still waits) and cancels the
  context.
\<close>

record worker_life =
  wf_started :: bool
  wf_stopClosed :: bool
  wf_running :: nat
  wf_cancelled :: bool

definition Start :: "webhook_worker \<Rightarrow> worker_life \<Rightarrow> unit run \<times> worker_life" where
  "Start w l = (if wf_started l then (Panics ''quotagate/worker: Start called more than once'', l)
     else (Returns (), l\<lparr>wf_started := True, wf_running := wf_running l + nat (ww_workers w)\<rparr>))"

definition Stop_begin :: "worker_life \<Rightarrow> worker_life" where
  "Stop_begin l = l\<lparr>wf_stopClosed := True\<rparr>"

definition Stop :: "worker_life \<Rightarrow> worker_life option" where
  "Stop l = (let l = Stop_begin l in if wf_running l > 0 then None else Some (l\<lparr>wf_cancelled := True\<rparr>))"

section \<open>Processing an entry\<close>

text \<open>
  What a worker uses: the world of the dispatcher, the database, \<^verbatim>\<open>json.Unmarshal\<close> of an event, the
  random ids by number, the rows other transactions have locked, and how a database operation moves
  the world on. \<open>clock\<close> gives the readings of the clock within one operation.
\<close>

record ('w, 'd) worker_env =
  we_net :: "'w net_env"
  we_db :: "'d webhook_db"
  we_dispatcher :: dispatcher
  we_unmarshal :: "string \<Rightarrow> string + event"
  we_uuid :: "nat \<Rightarrow> string"
  we_locked :: "'w \<Rightarrow> string \<Rightarrow> bool"
  we_after :: "'w \<Rightarrow> 'w"

record ('w, 'd) worker_state =
  wk_sim :: "'w sim"
  wk_db :: 'd
  wk_uuids :: nat
  wk_successCount :: int
  wk_failureCount :: int
  wk_deadLetterCount :: int
  wk_processedCount :: int

definition Metrics :: "('w, 'd) worker_state \<Rightarrow> worker_metrics" where
  "Metrics s = \<lparr>wm_SuccessCount = wk_successCount s, wm_FailureCount = wk_failureCount s,
     wm_DeadLetterCount = wk_deadLetterCount s, wm_ProcessedCount = wk_processedCount s\<rparr>"

definition clock :: "('w, 'd) worker_env \<Rightarrow> ('w, 'd) worker_state \<Rightarrow> nat \<Rightarrow> timestamp" where
  "clock V s n = ne_now (we_net V) ((we_after V ^^ n) (sim_w (wk_sim s)))"

definition pass :: "('w, 'd) worker_env \<Rightarrow> ('w, 'd) worker_state \<Rightarrow> ('w, 'd) worker_state" where
  "pass V s = s\<lparr>wk_sim := (wk_sim s)\<lparr>sim_w := (we_after V ^^ 2) (sim_w (wk_sim s))\<rparr>\<rparr>"

text \<open>A database operation on the worker's state.\<close>

definition on_db ::
    "('w, 'd) worker_env \<Rightarrow> ('d \<Rightarrow> 'r \<times> 'd) \<Rightarrow> ('w, 'd) worker_state \<Rightarrow> 'r \<times> ('w, 'd) worker_state" where
  "on_db V f s = (case f (wk_db s) of (r, d) \<Rightarrow> (r, pass V (s\<lparr>wk_db := d\<rparr>)))"

definition count_success :: "('w, 'd) worker_state \<Rightarrow> ('w, 'd) worker_state" where
  "count_success s = s\<lparr>wk_successCount := wrap64 (wk_successCount s + 1)\<rparr>"

definition count_failure :: "('w, 'd) worker_state \<Rightarrow> ('w, 'd) worker_state" where
  "count_failure s = s\<lparr>wk_failureCount := wrap64 (wk_failureCount s + 1)\<rparr>"

definition delivery_log :: "string \<Rightarrow> webhook_outbox \<Rightarrow> dispatch_result \<Rightarrow> webhook_delivery_log" where
  "delivery_log logID entry result = \<lparr>wl_ID = logID, wl_TenantID = '''', wl_WebhookConfigID = wo_WebhookID entry,
     wl_EventID = wo_EventID entry, wl_EventType = wo_EventType entry, wl_RequestURL = wo_URL entry,
     wl_RequestBody = wo_Payload entry, wl_ResponseStatus = dr_StatusCode result,
     wl_ResponseBody = dr_ResponseBody result, wl_DurationMs = dr_DurationMs result,
     wl_Success = dr_Success result, wl_Attempt = wrap64 (wo_Attempt entry + dr_Attempts result),
     wl_Error = dr_Error result, wl_CreatedAt = 0\<rparr>"

definition reject_entry ::
    "('w, 'd) worker_env \<Rightarrow> webhook_outbox \<Rightarrow> string \<Rightarrow> ('w, 'd) worker_state \<Rightarrow> ('w, 'd) worker_state" where
  "reject_entry V entry err s =
     count_failure (snd (on_db V (MarkOutboxDead (we_db V) (clock V s 0) (wo_ID entry) (''invalid payload: '' @ err)) s))"

text \<open>The delivery of a claimed entry: the retries it has left, in the time its configuration allows.\<close>

definition deliver ::
    "('w, 'd) worker_env \<Rightarrow> event \<Rightarrow> webhook_outbox \<Rightarrow> 'w sim \<Rightarrow> dispatch_result run \<times> 'w sim" where
  "deliver V evt entry sim = DispatchWithRetry (we_net V) (we_dispatcher V) evt (wo_URL entry) (wo_Secret entry)
     (wrap64 (wo_TimeoutSeconds entry * 10 ^ 9)) (wrap64 (wo_MaxAttempts entry - wo_Attempt entry)) sim"

definition log_delivery ::
    "('w, 'd) worker_env \<Rightarrow> webhook_outbox \<Rightarrow> dispatch_result \<Rightarrow> ('w, 'd) worker_state \<Rightarrow> ('w, 'd) worker_state" where
  "log_delivery V entry result s =
     (let logID = we_uuid V (wk_uuids s); s = s\<lparr>wk_uuids := wk_uuids s + 1\<rparr> in
      snd (on_db V (CreateDeliveryLog (we_db V) (clock V s 0) (delivery_log logID entry result)) s))"

definition settle ::
    "('w, 'd) worker_env \<Rightarrow> webhook_outbox \<Rightarrow> dispatch_result \<Rightarrow> ('w, 'd) worker_state \<Rightarrow> ('w, 'd) worker_state" where
  "settle V entry result s =
     (if dr_Success result then
        count_success (snd (on_db V (MarkOutboxCompleted (we_db V) (clock V s 0) (wo_ID entry)) s))
      else
        count_failure (snd (on_db V (MarkOutboxFailed (we_db V) (clock V s) (wo_ID entry) (dr_Error result)) s)))"

definition processEntry ::
    "('w, 'd) worker_env \<Rightarrow> webhook_outbox \<Rightarrow> ('w, 'd) worker_state \<Rightarrow> unit run \<times> ('w, 'd) worker_state" where
  "processEntry V entry s =
     (let s = s\<lparr>wk_processedCount := wrap64 (wk_processedCount s + 1)\<rparr> in
      case we_unmarshal V (wo_Payload entry) of
        Inl err \<Rightarrow> (Returns (), reject_entry V entry err s)
      | Inr evt \<Rightarrow>
         (case deliver V evt entry (wk_sim s) of
            (Panics p, sim) \<Rightarrow> (Panics p, s\<lparr>wk_sim := sim\<rparr>)
          | (Returns result, sim) \<Rightarrow>
              (Returns (), settle V entry result (log_delivery V entry result (s\<lparr>wk_sim := sim\<rparr>)))))"

definition claimAndProcess ::
    "('w, 'd) worker_env \<Rightarrow> ('w, 'd) worker_state \<Rightarrow> bool run \<times> ('w, 'd) worker_state" where
  "claimAndProcess V s =
     (case on_db V (\<lambda>d. case ClaimPendingOutbox (we_db V) (we_locked V (sim_w (wk_sim s))) (clock V s 0)
                              defaultClaimLimit d of (entries, err, d) \<Rightarrow> ((entries, err), d)) s of
        ((entries, err), s) \<Rightarrow>
          if err \<noteq> None then (Returns False, s)
          else (case entries of
              [] \<Rightarrow> (Returns False, s)
            | entry # _ \<Rightarrow>
               (case processEntry V entry s of
                  (Panics p, s) \<Rightarrow> (Panics p, s)
                | (Returns _, s) \<Rightarrow> (Returns True, s))))"

definition checkDLQ ::
    "('w, 'd) worker_env \<Rightarrow> ('w, 'd) worker_state \<Rightarrow> ('w, 'd) worker_state" where
  "checkDLQ V s =
     (case CountDeadOutbox (we_db V) (wk_db s) of
        Inl err \<Rightarrow> pass V s
      | Inr n \<Rightarrow> (pass V s)\<lparr>wk_deadLetterCount := n\<rparr>)"

section \<open>The loop\<close>

text \<open>
  One worker goroutine: the loop's variables and what the \<^verbatim>\<open>select\<close> receives next. A ticker with a
  period that is not positive panics. \<^verbatim>\<open>time.Since\<close> saturates.
\<close>

datatype signal = CtxDone | StopClosed | Tick

record loop_vars =
  lv_interval :: duration
  lv_lastDLQCheck :: timestamp

definition next_interval :: "webhook_worker \<Rightarrow> bool \<Rightarrow> duration \<Rightarrow> duration" where
  "next_interval w foundWork currentInterval =
     (if foundWork then ww_minInterval w
      else (let doubled = wrap64 (currentInterval * 2)
            in if doubled > ww_maxInterval w then ww_maxInterval w else doubled))"

definition on_tick ::
    "webhook_worker \<Rightarrow> ('w, 'd) worker_env \<Rightarrow> loop_vars \<Rightarrow> ('w, 'd) worker_state \<Rightarrow>
     loop_vars run \<times> ('w, 'd) worker_state" where
  "on_tick w V l s =
     (case claimAndProcess V s of
        (Panics p, s) \<Rightarrow> (Panics p, s)
      | (Returns foundWork, s) \<Rightarrow>
          (let interval = next_interval w foundWork (lv_interval l);
               due = \<not> foundWork \<and> time_sub (clock V s 0) (lv_lastDLQCheck l) \<ge> ww_dlqCheckInterval w;
               s = (if due then checkDLQ V s else s);
               last_check = (if due then clock V s 0 else lv_lastDLQCheck l)
           in if interval \<le> 0 then (Panics ''non-positive interval for Ticker.Reset'', s)
              else (Returns \<lparr>lv_interval = interval, lv_lastDLQCheck = last_check\<rparr>, s)))"

fun worker_loop ::
    "webhook_worker \<Rightarrow> ('w, 'd) worker_env \<Rightarrow> signal list \<Rightarrow> loop_vars \<Rightarrow> ('w, 'd) worker_state \<Rightarrow>
     loop_vars run \<times> ('w, 'd) worker_state" where
  "worker_loop w V [] l s = (Returns l, s)"
| "worker_loop w V (CtxDone # _) l s = (Returns l, s)"
| "worker_loop w V (StopClosed # _) l s = (Returns l, s)"
| "worker_loop w V (Tick # sigs) l s =
     (case on_tick w V l s of
        (Panics p, s) \<Rightarrow> (Panics p, s)
      | (Returns l, s) \<Rightarrow> worker_loop w V sigs l s)"

definition runWorker ::
    "webhook_worker \<Rightarrow> ('w, 'd) worker_env \<Rightarrow> signal list \<Rightarrow> ('w, 'd) worker_state \<Rightarrow>
     loop_vars run \<times> ('w, 'd) worker_state" where
  "runWorker w V sigs s =
     (if ww_minInterval w \<le> 0 then (Panics ''non-positive interval for NewTicker'', s)
      else worker_loop w V sigs \<lparr>lv_interval = ww_minInterval w, lv_lastDLQCheck = 0\<rparr> s)"

section \<open>Dead letters and the handler\<close>

definition ReplayDeadEntry ::
    "'d webhook_db \<Rightarrow> (nat \<Rightarrow> timestamp) \<Rightarrow> string \<Rightarrow> 'd \<Rightarrow> (repo_error + unit) \<times> 'd" where
  "ReplayDeadEntry D now rowID d = ReplayDeadOutbox D now rowID d"

fun replay_all ::
    "'d webhook_db \<Rightarrow> (nat \<Rightarrow> nat \<Rightarrow> timestamp) \<Rightarrow> nat \<Rightarrow> webhook_outbox list \<Rightarrow> int \<Rightarrow> 'd \<Rightarrow> int \<times> 'd" where
  "replay_all D now n [] replayed d = (replayed, d)"
| "replay_all D now n (entry # entries) replayed d =
     (case ReplayDeadOutbox D (now n) (wo_ID entry) d of
        (Inl err, d) \<Rightarrow> replay_all D now (n + 1) entries replayed d
      | (Inr _, d) \<Rightarrow> replay_all D now (n + 1) entries (wrap64 (replayed + 1)) d)"

definition ReplayDeadBatch ::
    "'d webhook_db \<Rightarrow> (nat \<Rightarrow> nat \<Rightarrow> timestamp) \<Rightarrow> int \<Rightarrow> 'd \<Rightarrow> (repo_error + int) \<times> 'd" where
  "ReplayDeadBatch D now limit d =
     (let limit = (if limit \<le> 0 then 1000 else limit) in
      case ListDeadOutbox D limit 0 d of
        Inl err \<Rightarrow> (Inl err, d)
      | Inr entries \<Rightarrow> (case replay_all D now 0 entries 0 d of (n, d) \<Rightarrow> (Inr n, d)))"

text \<open>The handler that is subscribed to every event; \<open>enc\<close> is \<^verbatim>\<open>json.Marshal\<close>.\<close>

definition NewOutboxHandler ::
    "(event \<Rightarrow> string + string) \<Rightarrow> (string \<Rightarrow> string list option) \<Rightarrow> 'd webhook_db \<Rightarrow> (nat \<Rightarrow> string) \<Rightarrow>
     (nat \<Rightarrow> timestamp) \<Rightarrow> event \<Rightarrow> 'd \<Rightarrow> 'd" where
  "NewOutboxHandler enc dec D ids now evt d =
     (case enc evt of
        Inl err \<Rightarrow> d
      | Inr payload \<Rightarrow> snd (CreateOutboxEntries dec D ids now (evt_Type evt) (evt_ID evt) (evt_Subject evt) payload d))"

section \<open>One round\<close>

lemma snd_on_db [simp]:
  "fst (on_db V f s) = fst (f (wk_db s))"
  "wk_db (snd (on_db V f s)) = snd (f (wk_db s))"
  "sim_sent (wk_sim (snd (on_db V f s))) = sim_sent (wk_sim s)"
  "wk_successCount (snd (on_db V f s)) = wk_successCount s"
  "wk_failureCount (snd (on_db V f s)) = wk_failureCount s"
  "wk_processedCount (snd (on_db V f s)) = wk_processedCount s"
  by (simp_all add: on_db_def pass_def split: prod.splits)

lemma count_sel [simp]:
  "wk_db (count_success s) = wk_db s" "wk_sim (count_success s) = wk_sim s"
  "wk_successCount (count_success s) = wrap64 (wk_successCount s + 1)"
  "wk_failureCount (count_success s) = wk_failureCount s"
  "wk_processedCount (count_success s) = wk_processedCount s"
  "wk_db (count_failure s) = wk_db s" "wk_sim (count_failure s) = wk_sim s"
  "wk_failureCount (count_failure s) = wrap64 (wk_failureCount s + 1)"
  "wk_successCount (count_failure s) = wk_successCount s"
  "wk_processedCount (count_failure s) = wk_processedCount s"
  by (simp_all add: count_success_def count_failure_def)

lemma log_delivery_sel [simp]:
  "sim_sent (wk_sim (log_delivery V e r s)) = sim_sent (wk_sim s)"
  "wk_successCount (log_delivery V e r s) = wk_successCount s"
  "wk_failureCount (log_delivery V e r s) = wk_failureCount s"
  "wk_processedCount (log_delivery V e r s) = wk_processedCount s"
  by (simp_all add: log_delivery_def Let_def)

lemma CreateDeliveryLog_rows:
  assumes "webhook_laws D"
  shows "tb_rows (wd_outbox D) (snd (CreateDeliveryLog D now l d)) = tb_rows (wd_outbox D) d"
    "tb_rows (wd_configs D) (snd (CreateDeliveryLog D now l d)) = tb_rows (wd_configs D) d"
proof -
  obtain q d1 where i: "tb_insert (wd_logs D) [log_stored now l] d = (q, d1)" by fastforce
  then have "snd (CreateDeliveryLog D now l d) = d1" by (cases q) (simp_all add: CreateDeliveryLog_def)
  with webhook_lawsD(6,7) [OF assms] i
  show "tb_rows (wd_outbox D) (snd (CreateDeliveryLog D now l d)) = tb_rows (wd_outbox D) d"
    "tb_rows (wd_configs D) (snd (CreateDeliveryLog D now l d)) = tb_rows (wd_configs D) d"
    unfolding independent_def by (metis snd_conv)+
qed

lemma log_delivery_outbox:
  "webhook_laws (we_db V) \<Longrightarrow>
    tb_rows (wd_outbox (we_db V)) (wk_db (log_delivery V e r s)) = tb_rows (wd_outbox (we_db V)) (wk_db s)"
  by (simp add: log_delivery_def Let_def CreateDeliveryLog_rows)

text \<open>A database whose statements on the outbox do not fail.\<close>

definition outbox_reliable :: "'d webhook_db \<Rightarrow> bool" where
  "outbox_reliable D \<longleftrightarrow> (\<forall>P f d. is_ok (fst (tb_update (wd_outbox D) P f d))) \<and>
     (\<forall>P key w d. is_ok (tb_find (wd_outbox D) P key w d))"

lemma update_entry_reliable:
  "outbox_reliable D \<Longrightarrow> fst (update_entry D i f d) = Inr ()"
proof -
  assume "outbox_reliable D"
  then obtain n d' where "tb_update (wd_outbox D) (\<lambda>e. wo_ID e = i) f d = (Inr n, d')"
    unfolding outbox_reliable_def is_ok_iff by (metis prod.collapse)
  then show ?thesis by (simp add: update_entry_def)
qed

lemma MarkOutboxFailed_reliable:
  assumes "webhook_laws D" "outbox_reliable D" "distinct (map wo_ID (tb_rows (wd_outbox D) d))"
    "entry_of D d i = Some e"
  shows "MarkOutboxFailed D now i err d = failed_update D now e i err d"
proof -
  obtain es where f: "tb_find (wd_outbox D) (\<lambda>e. wo_ID e = i) None (Some (1, 0)) d = Inr es"
    using assms(2) unfolding outbox_reliable_def is_ok_iff by metis
  from find_entry [OF assms(1) f assms(3)] assms(4) f show ?thesis by (simp add: MarkOutboxFailed_def)
qed

text \<open>The entry after its delivery was settled, given its row.\<close>

lemma settle_entry:
  assumes "webhook_laws (we_db V)" "outbox_reliable (we_db V)"
    "distinct (map wo_ID (tb_rows (wd_outbox (we_db V)) (wk_db s)))"
    "entry_of (we_db V) (wk_db s) (wo_ID e) = Some e0"
  shows "map wo_ID (tb_rows (wd_outbox (we_db V)) (wk_db (settle V e r s))) =
      map wo_ID (tb_rows (wd_outbox (we_db V)) (wk_db s)) \<and>
    entry_of (we_db V) (wk_db (settle V e r s)) (wo_ID e) =
      Some (if dr_Success r then e0\<lparr>wo_Status := OutboxStatusCompleted, wo_UpdatedAt := clock V s 0\<rparr>
            else failed_row (clock V s) e0 (dr_Error r) e0)"
proof -
  let ?D = "we_db V" and ?i = "wo_ID e"
  from entry_of_ID [OF assms(4)] have id0: "wo_ID e0 = ?i" by simp
  show ?thesis
  proof (cases "dr_Success r")
    case True
    let ?f = "\<lambda>e. e\<lparr>wo_Status := OutboxStatusCompleted, wo_UpdatedAt := clock V s 0\<rparr>"
    obtain q d' where u: "update_entry ?D ?i ?f (wk_db s) = (q, d')" by fastforce
    with update_entry_reliable [OF assms(2), of ?i ?f "wk_db s"] have q: "q = Inr ()" by simp
    from True u have "wk_db (settle V e r s) = d'" by (simp add: settle_def MarkOutboxCompleted_def)
    with update_entry_of(1) [OF assms(1) u, of ?i] update_entry_ids [OF assms(1) u] True assms(4) q id0
    show ?thesis by simp
  next
    case False
    let ?f = "failed_row (clock V s) e0 (dr_Error r)"
    obtain q d' where u: "update_entry ?D ?i ?f (wk_db s) = (q, d')" by fastforce
    with update_entry_reliable [OF assms(2), of ?i ?f "wk_db s"] have q: "q = Inr ()" by simp
    from False u have "wk_db (settle V e r s) = d'"
      by (simp add: settle_def MarkOutboxFailed_reliable [OF assms] failed_update_row)
    with update_entry_of(1) [OF assms(1) u, of ?i] update_entry_ids [OF assms(1) u] False assms(4) q id0
    show ?thesis by simp
  qed
qed

lemma reject_entry_of:
  assumes "webhook_laws (we_db V)" "outbox_reliable (we_db V)"
    "entry_of (we_db V) (wk_db s) (wo_ID e) = Some e0"
  shows "\<exists>e'. map wo_ID (tb_rows (wd_outbox (we_db V)) (wk_db (reject_entry V e err s))) =
      map wo_ID (tb_rows (wd_outbox (we_db V)) (wk_db s)) \<and>
    entry_of (we_db V) (wk_db (reject_entry V e err s)) (wo_ID e) = Some e' \<and> wo_Status e' = OutboxStatusDead"
proof -
  let ?D = "we_db V" and ?i = "wo_ID e"
  let ?f = "\<lambda>e. e\<lparr>wo_Status := OutboxStatusDead, wo_LastError := ''invalid payload: '' @ err, wo_UpdatedAt := clock V s 0\<rparr>"
  from entry_of_ID [OF assms(3)] have id0: "wo_ID e0 = ?i" by simp
  obtain q d' where u: "update_entry ?D ?i ?f (wk_db s) = (q, d')" by fastforce
  with update_entry_reliable [OF assms(2), of ?i ?f "wk_db s"] have q: "q = Inr ()" by simp
  from u have "wk_db (reject_entry V e err s) = d'" by (simp add: reject_entry_def MarkOutboxDead_def)
  with update_entry_of(1) [OF assms(1) u, of ?i] update_entry_ids [OF assms(1) u] assms(3) q id0
  show ?thesis by simp
qed

definition settled :: "webhook_outbox \<Rightarrow> bool" where
  "settled e \<longleftrightarrow> wo_Status e = OutboxStatusCompleted \<or> wo_Status e = OutboxStatusDead"

text \<open>
  One processing of a claimed entry: it returns, sends at most one request per attempt that is left
  and one more, and settles the entry or uses up one attempt.
\<close>

lemma processEntry_round:
  assumes "webhook_laws (we_db V)" "outbox_reliable (we_db V)"
    "distinct (map wo_ID (tb_rows (wd_outbox (we_db V)) (wk_db s)))"
    "entry_of (we_db V) (wk_db s) i = Some e"
    "in_int64 (wo_Attempt e + 1)" "in_int64 (wo_MaxAttempts e - wo_Attempt e)"
    "dp_backoffFunc (we_dispatcher V) \<noteq> None \<or> wo_MaxAttempts e - wo_Attempt e \<le> 34"
  shows "\<exists>s' e' qs. processEntry V e s = (Returns (), s') \<and>
    map wo_ID (tb_rows (wd_outbox (we_db V)) (wk_db s')) = map wo_ID (tb_rows (wd_outbox (we_db V)) (wk_db s)) \<and>
    entry_of (we_db V) (wk_db s') i = Some e' \<and> sim_sent (wk_sim s') = sim_sent (wk_sim s) @ qs \<and>
    int (length qs) \<le> max 0 (wo_MaxAttempts e - wo_Attempt e) + 1 \<and>
    (settled e' \<or> wo_Attempt e' = wo_Attempt e + 1 \<and> wo_Attempt e + 1 < wo_MaxAttempts e \<and>
       wo_MaxAttempts e' = wo_MaxAttempts e \<and> wo_Status e' = OutboxStatusPending)"
proof -
  let ?s1 = "s\<lparr>wk_processedCount := wrap64 (wk_processedCount s + 1)\<rparr>"
  from entry_of_ID [OF assms(4)] have i: "wo_ID e = i" by simp
  show ?thesis
  proof (cases "we_unmarshal V (wo_Payload e)")
    case (Inl err)
    have "entry_of (we_db V) (wk_db ?s1) (wo_ID e) = Some e" using assms(4) i by simp
    from reject_entry_of [OF assms(1,2) this] obtain e' where
      "map wo_ID (tb_rows (wd_outbox (we_db V)) (wk_db (reject_entry V e err ?s1))) =
        map wo_ID (tb_rows (wd_outbox (we_db V)) (wk_db s))"
      "entry_of (we_db V) (wk_db (reject_entry V e err ?s1)) i = Some e'" "wo_Status e' = OutboxStatusDead"
      by (auto simp: i)
    moreover have "sim_sent (wk_sim (reject_entry V e err ?s1)) = sim_sent (wk_sim s) @ []"
      by (simp add: reject_entry_def)
    ultimately show ?thesis using Inl
      by (intro exI [of _ "reject_entry V e err ?s1"] exI [of _ e'] exI [of _ "[]"])
        (simp add: processEntry_def settled_def)
  next
    case (Inr evt)
    have w: "wrap64 (wo_MaxAttempts e - wo_Attempt e) = wo_MaxAttempts e - wo_Attempt e" using assms(6) by simp
    with assms(7) have n: "dp_backoffFunc (we_dispatcher V) \<noteq> None \<or>
        0 + nat (if wrap64 (wo_MaxAttempts e - wo_Attempt e) < 0 then 0 else wrap64 (wo_MaxAttempts e - wo_Attempt e)) \<le> 34"
      by auto
    let ?n = "nat (if wrap64 (wo_MaxAttempts e - wo_Attempt e) < 0 then 0 else wrap64 (wo_MaxAttempts e - wo_Attempt e))"
    from retry_loop_Returns [OF n] obtain r sim where
      loop: "retry_loop (we_net V) (we_dispatcher V) evt (wo_URL e) (wo_Secret e)
        (wrap64 (wo_TimeoutSeconds e * 10 ^ 9)) ?n 0 (wk_sim ?s1) = (Returns r, sim)" by blast
    then have del: "deliver V evt e (wk_sim ?s1) = (Returns r, sim)"
      by (simp add: deliver_def DispatchWithRetry_def Let_def)
    from retry_loop_sends [OF loop] obtain qs where qs: "sim_sent sim = sim_sent (wk_sim s) @ qs" "length qs \<le> ?n + 1"
      by auto
    let ?s2 = "log_delivery V e r (?s1\<lparr>wk_sim := sim\<rparr>)"
    let ?s3 = "settle V e r ?s2"
    have rows: "tb_rows (wd_outbox (we_db V)) (wk_db ?s2) = tb_rows (wd_outbox (we_db V)) (wk_db s)"
      using log_delivery_outbox [OF assms(1)] by simp
    then have e2: "entry_of (we_db V) (wk_db ?s2) (wo_ID e) = Some e" using assms(4) i by (simp add: entry_of_def)
    let ?e3 = "if dr_Success r then e\<lparr>wo_Status := OutboxStatusCompleted, wo_UpdatedAt := clock V ?s2 0\<rparr>
      else failed_row (clock V ?s2) e (dr_Error r) e"
    from settle_entry [OF assms(1,2) _ e2] assms(3) rows have s3:
      "map wo_ID (tb_rows (wd_outbox (we_db V)) (wk_db ?s3)) = map wo_ID (tb_rows (wd_outbox (we_db V)) (wk_db s))"
      "entry_of (we_db V) (wk_db ?s3) i = Some ?e3" unfolding i by auto
    have "settled ?e3 \<or> wo_Attempt ?e3 = wo_Attempt e + 1 \<and> wo_Attempt e + 1 < wo_MaxAttempts e \<and>
       wo_MaxAttempts ?e3 = wo_MaxAttempts e \<and> wo_Status ?e3 = OutboxStatusPending"
      using assms(5) by (auto simp: settled_def)
    moreover have "sim_sent (wk_sim ?s3) = sim_sent (wk_sim s) @ qs" using qs(1) by (simp add: settle_def)
    moreover have "int (length qs) \<le> max 0 (wo_MaxAttempts e - wo_Attempt e) + 1"
      using qs(2) unfolding w by (auto split: if_splits)
    moreover have "processEntry V e s = (Returns (), ?s3)"
      using Inr del by (simp add: processEntry_def Let_def)
    ultimately show ?thesis using s3 by (intro exI [of _ ?s3] exI [of _ ?e3] exI [of _ qs] conjI)
  qed
qed

section \<open>Properties\<close>

text \<open>
  Processing an entry again and again, each time as its row then is, until it is settled.
\<close>

fun rounds ::
    "('w, 'd) worker_env \<Rightarrow> string \<Rightarrow> nat \<Rightarrow> ('w, 'd) worker_state \<Rightarrow> unit run \<times> ('w, 'd) worker_state" where
  "rounds V i 0 s = (Returns (), s)"
| "rounds V i (Suc n) s =
     (case entry_of (we_db V) (wk_db s) i of
        None \<Rightarrow> (Returns (), s)
      | Some e \<Rightarrow>
          if settled e then (Returns (), s)
          else (case processEntry V e s of
              (Panics p, s) \<Rightarrow> (Panics p, s)
            | (Returns _, s) \<Rightarrow> rounds V i n s))"

lemma rounds_settled:
  "entry_of (we_db V) (wk_db s) i = Some e \<Longrightarrow> settled e \<Longrightarrow> rounds V i n s = (Returns (), s)"
  by (cases n) auto

lemma rounds_settle:
  assumes "webhook_laws (we_db V)" "outbox_reliable (we_db V)" "dp_backoffFunc (we_dispatcher V) \<noteq> None \<or> m \<le> 34"
  shows "distinct (map wo_ID (tb_rows (wd_outbox (we_db V)) (wk_db s))) \<Longrightarrow>
    entry_of (we_db V) (wk_db s) i = Some e \<Longrightarrow> 0 \<le> wo_Attempt e \<Longrightarrow> in_int64 (wo_MaxAttempts e) \<Longrightarrow>
    wo_MaxAttempts e - wo_Attempt e = int m \<Longrightarrow> 0 < m \<Longrightarrow>
    \<exists>s' e' qs. rounds V i m s = (Returns (), s') \<and> entry_of (we_db V) (wk_db s') i = Some e' \<and>
      settled e' \<and> sim_sent (wk_sim s') = sim_sent (wk_sim s) @ qs \<and> 2 * length qs \<le> m * (m + 3)"
  using assms(3)
proof (induction m arbitrary: s e)
  case (Suc m)
  note P = Suc.prems
  show ?case
  proof (cases "settled e")
    case True
    with P show ?thesis by (intro exI [of _ s] exI [of _ e] exI [of _ "[]"]) (simp add: rounds_settled)
  next
    case False
    have r: "in_int64 (wo_Attempt e + 1)" "in_int64 (wo_MaxAttempts e - wo_Attempt e)"
      using P(3,4,5) by (auto simp: in_int64_def)
    have b: "dp_backoffFunc (we_dispatcher V) \<noteq> None \<or> wo_MaxAttempts e - wo_Attempt e \<le> 34" using P(5,7) by auto
    from processEntry_round [OF assms(1,2) P(1,2) r b] obtain s1 e1 qs1 where
      p: "processEntry V e s = (Returns (), s1)"
      and ids: "map wo_ID (tb_rows (wd_outbox (we_db V)) (wk_db s1)) = map wo_ID (tb_rows (wd_outbox (we_db V)) (wk_db s))"
      and e1: "entry_of (we_db V) (wk_db s1) i = Some e1"
      and sent: "sim_sent (wk_sim s1) = sim_sent (wk_sim s) @ qs1"
      and len: "int (length qs1) \<le> max 0 (wo_MaxAttempts e - wo_Attempt e) + 1"
      and out: "settled e1 \<or> wo_Attempt e1 = wo_Attempt e + 1 \<and> wo_Attempt e + 1 < wo_MaxAttempts e \<and>
       wo_MaxAttempts e1 = wo_MaxAttempts e \<and> wo_Status e1 = OutboxStatusPending" by auto
    have run: "rounds V i (Suc m) s = rounds V i m s1" using P(2) False p by simp
    have len1: "length qs1 \<le> m + 2" using len P(5) by simp
    show ?thesis
    proof (cases "settled e1")
      case True
      have "2 * length qs1 \<le> Suc m * (Suc m + 3)" using len1 by (simp add: algebra_simps)
      with True run e1 sent show ?thesis
        by (intro exI [of _ s1] exI [of _ e1] exI [of _ qs1]) (simp add: rounds_settled)
    next
      case False
      with out have o: "wo_Attempt e1 = wo_Attempt e + 1" "wo_Attempt e + 1 < wo_MaxAttempts e"
        "wo_MaxAttempts e1 = wo_MaxAttempts e" by auto
      have d1: "distinct (map wo_ID (tb_rows (wd_outbox (we_db V)) (wk_db s1)))" using ids P(1) by simp
      from o P(3,4,5,7) have "0 \<le> wo_Attempt e1" "in_int64 (wo_MaxAttempts e1)"
        "wo_MaxAttempts e1 - wo_Attempt e1 = int m" "0 < m" "dp_backoffFunc (we_dispatcher V) \<noteq> None \<or> m \<le> 34" by auto
      from Suc.IH [OF d1 e1 this] obtain s' e' qs where
        "rounds V i m s1 = (Returns (), s')" "entry_of (we_db V) (wk_db s') i = Some e'" "settled e'"
        "sim_sent (wk_sim s') = sim_sent (wk_sim s1) @ qs" "2 * length qs \<le> m * (m + 3)" by auto
      moreover from this(5) len1 have "2 * length (qs1 @ qs) \<le> Suc m * (Suc m + 3)" by (simp add: algebra_simps)
      ultimately show ?thesis using run sent
        by (intro exI [of _ s'] exI [of _ e'] exI [of _ "qs1 @ qs"]) simp
    qed
  qed
qed simp

text \<open>
  C18. Every entry settles. On a database whose outbox statements do not fail, an entry with \<open>m\<close>
  attempts left is completed or dead after at most \<open>m\<close> processings, whatever the endpoint answers;
  none of them panics and together they send at most \<open>m (m + 3) / 2\<close> HTTP requests (9 for the
  default of 3 attempts, each processing retrying once per attempt left), as long as \<open>m\<close> is at
  most 34 or the dispatcher has its own backoff. (The service does not bound the attempts of a
  configuration, and beyond 34 the default backoff panics.)
\<close>

theorem outbox_entry_settles:
  assumes "webhook_laws (we_db V)" "outbox_reliable (we_db V)"
    and "distinct (map wo_ID (tb_rows (wd_outbox (we_db V)) (wk_db s)))"
    and "entry_of (we_db V) (wk_db s) i = Some e" "0 \<le> wo_Attempt e" "in_int64 (wo_MaxAttempts e)"
    and "m = nat (wo_MaxAttempts e - wo_Attempt e)" "0 < m"
    and "dp_backoffFunc (we_dispatcher V) \<noteq> None \<or> m \<le> 34"
  shows "\<exists>s' e' qs. rounds V i m s = (Returns (), s') \<and> entry_of (we_db V) (wk_db s') i = Some e' \<and>
    (wo_Status e' = OutboxStatusCompleted \<or> wo_Status e' = OutboxStatusDead) \<and>
    sim_sent (wk_sim s') = sim_sent (wk_sim s) @ qs \<and> 2 * length qs \<le> m * (m + 3)"
proof -
  have "wo_MaxAttempts e - wo_Attempt e = int m" using assms(7,8) by simp
  from rounds_settle [OF assms(1,2,9,3,4,5,6) this assms(8)] show ?thesis unfolding settled_def .
qed

definition demo_worker_env :: "int \<Rightarrow> (unit, ref_rows) worker_env" where
  "demo_worker_env status = \<lparr>we_net = const_env status, we_db = ref_webhook_db, we_dispatcher = demo_dispatcher,
     we_unmarshal = (\<lambda>_. Inr ok_event), we_uuid = demo_ids, we_locked = (\<lambda>_ _. False), we_after = (\<lambda>w. w)\<rparr>"

definition demo_worker_state :: "(unit, ref_rows) worker_state" where
  "demo_worker_state = \<lparr>wk_sim = start_sim, wk_db = demo_outbox, wk_uuids = 0, wk_successCount = 0,
     wk_failureCount = 0, wk_deadLetterCount = 0, wk_processedCount = 0\<rparr>"

lemma ref_outbox_reliable: "outbox_reliable ref_webhook_db"
  by (simp add: outbox_reliable_def ref_webhook_db_def ref_table_def ref_find_def Let_def)

lemma demo_worker_env_db [simp]: "we_db (demo_worker_env status) = ref_webhook_db"
  by (simp add: demo_worker_env_def)

lemma demo_worker_distinct:
  "distinct (map wo_ID (tb_rows (wd_outbox (we_db (demo_worker_env status))) (wk_db demo_worker_state)))"
  by (simp add: demo_worker_state_def demo_outbox_def demo_entry_def)

lemma demo_worker_entry:
  "entry_of (we_db (demo_worker_env status)) (wk_db demo_worker_state) ''a'' = Some (demo_entry ''a'' 3)"
  by (simp add: entry_of_def demo_worker_state_def demo_outbox_def demo_entry_def)

text \<open>An endpoint that always answers 503 gets every request the retries allow.\<close>

lemma attempt_503_sends:
  assumes "attempt_once (const_env 503) demo_dispatcher ok_event ''https://h/x'' secret timeout attempt s = (r, s')"
  shows "dr_StatusCode r = 503" "\<not> dr_Success r" "dr_ErrorCode r = ErrCodeNone"
    "length (sim_sent s') = Suc (length (sim_sent s))"
proof -
  have sch: "isAllowedScheme (dp_ssrfPolicy demo_dispatcher) ''https''" by code_simp
  have d: "dp_maxPayloadSize demo_dispatcher = 2 ^ 20" "dp_onResult demo_dispatcher = False" by code_simp+
  have "dr_StatusCode r = 503 \<and> \<not> dr_Success r \<and> dr_ErrorCode r = ErrCodeNone \<and>
    length (sim_sent s') = Suc (length (sim_sent s))"
    using assms sch d
    by (cases "effective_secret demo_dispatcher secret = ''''")
      (auto simp add: attempt_once_def Dispatch_def pre_checks_def ValidateURL_def const_env_def ok_event_def
        maxEventIDLen_def maxEventSourceLen_def maxEventSubjectLen_def build_request_def SignPayload_def
        read_reply_def Let_def invokeOnResult_def)
  then show "dr_StatusCode r = 503" "\<not> dr_Success r" "dr_ErrorCode r = ErrCodeNone"
    "length (sim_sent s') = Suc (length (sim_sent s))" by simp_all
qed

lemma loop_503:
  "attempt + left \<le> 34 \<Longrightarrow> \<exists>r s'. retry_loop (const_env 503) demo_dispatcher ok_event ''https://h/x'' secret timeout left attempt s =
     (Returns r, s') \<and> \<not> dr_Success r \<and> length (sim_sent s') = length (sim_sent s) + left + 1"
proof (induction left arbitrary: attempt s)
  case 0
  obtain r1 s1 where a: "attempt_once (const_env 503) demo_dispatcher ok_event ''https://h/x'' secret timeout attempt s = (r1, s1)"
    by fastforce
  with attempt_503_sends [OF a] show ?case by (simp add: retry_loop.simps const_env_def)
next
  case (Suc left)
  obtain r1 s1 where a: "attempt_once (const_env 503) demo_dispatcher ok_event ''https://h/x'' secret timeout attempt s = (r1, s1)"
    by fastforce
  note A = attempt_503_sends [OF a]
  from wait_backoff_Returns [of demo_dispatcher attempt] Suc.prems obtain b s2
    where w: "wait_backoff (const_env 503) demo_dispatcher attempt r1 s1 = (Returns b, s2)" by fastforce
  have ctx: "ne_ctx_err (const_env 503) x = None" for x by (simp add: const_env_def)
  have ret: "\<not> must_return (const_env 503) r1 s1" using A by (simp add: must_return_def isRetryable_def)
  from Suc.prems have "attempt + 1 + left \<le> 34" by simp
  from Suc.IH [OF this, of s2] obtain r s' where
    "retry_loop (const_env 503) demo_dispatcher ok_event ''https://h/x'' secret timeout left (attempt + 1) s2 = (Returns r, s')"
    "\<not> dr_Success r" "length (sim_sent s') = length (sim_sent s2) + left + 1" by auto
  with a w ret ctx A wait_backoff_sent [OF w] show ?case
    by (simp add: retry_loop.simps [of _ _ _ _ _ _ "Suc left"])
qed

lemma processEntry_503:
  assumes "distinct (map wo_ID (rr_outbox (wk_db s)))"
    "entry_of ref_webhook_db (wk_db s) i = Some e" "wo_URL e = ''https://h/x''"
    "0 \<le> wo_Attempt e" "wo_MaxAttempts e = wo_Attempt e + int (Suc m)" "wo_MaxAttempts e \<le> 34"
  shows "\<exists>s' e'. processEntry (demo_worker_env 503) e s = (Returns (), s') \<and>
    map wo_ID (rr_outbox (wk_db s')) = map wo_ID (rr_outbox (wk_db s)) \<and>
    entry_of ref_webhook_db (wk_db s') i = Some e' \<and> wo_URL e' = ''https://h/x'' \<and>
    wo_Attempt e' = wo_Attempt e + 1 \<and> wo_MaxAttempts e' = wo_MaxAttempts e \<and>
    wo_Status e' = (if m = 0 then OutboxStatusDead else OutboxStatusPending) \<and>
    length (sim_sent (wk_sim s')) = length (sim_sent (wk_sim s)) + m + 2"
proof -
  let ?V = "demo_worker_env 503" and ?s1 = "s\<lparr>wk_processedCount := wrap64 (wk_processedCount s + 1)\<rparr>"
  from entry_of_ID [OF assms(2)] have i: "wo_ID e = i" by simp
  have w: "wrap64 (wo_MaxAttempts e - wo_Attempt e) = int (Suc m)"
    using assms(4,5,6) by (simp add: in_int64_def)
  have "0 + Suc m \<le> 34" using assms(4,5,6) by simp
  from loop_503 [OF this, of "wo_Secret e" "wrap64 (wo_TimeoutSeconds e * 10 ^ 9)" "wk_sim s"] obtain r sim
    where "retry_loop (const_env 503) demo_dispatcher ok_event ''https://h/x'' (wo_Secret e)
        (wrap64 (wo_TimeoutSeconds e * 10 ^ 9)) (Suc m) 0 (wk_sim s) = (Returns r, sim)"
    and fail: "\<not> dr_Success r" and sent: "length (sim_sent sim) = length (sim_sent (wk_sim s)) + m + 2" by auto
  then have del: "deliver ?V ok_event e (wk_sim ?s1) = (Returns r, sim)"
    using assms(3) nat_int [of "Suc m"] by (simp add: deliver_def DispatchWithRetry_def Let_def w demo_worker_env_def del: nat_int)
  let ?s2 = "log_delivery ?V e r (?s1\<lparr>wk_sim := sim\<rparr>)"
  have rows: "rr_outbox (wk_db ?s2) = rr_outbox (wk_db s)"
    using log_delivery_outbox [of ?V] ref_webhook_laws by simp
  have e2: "entry_of (we_db ?V) (wk_db ?s2) (wo_ID e) = Some e" using assms(2) rows i by (simp add: entry_of_def)
  have "processEntry ?V e s = (Returns (), settle ?V e r ?s2)"
    using del by (simp add: processEntry_def Let_def demo_worker_env_def)
  moreover have "map wo_ID (rr_outbox (wk_db (settle ?V e r ?s2))) = map wo_ID (rr_outbox (wk_db s)) \<and>
      entry_of ref_webhook_db (wk_db (settle ?V e r ?s2)) i = Some (failed_row (clock ?V ?s2) e (dr_Error r) e)"
    using settle_entry [OF _ _ _ e2] ref_webhook_laws ref_outbox_reliable rows assms(1) i fail by simp
  moreover have "wo_URL (failed_row n e x e) = wo_URL e" for n x by (simp add: failed_row_def)
  moreover have "length (sim_sent (wk_sim (settle ?V e r ?s2))) = length (sim_sent (wk_sim s)) + m + 2"
    using sent by (simp add: settle_def)
  ultimately show ?thesis using assms(3-6) by (simp add: in_int64_def)
qed

text \<open>The bound on the requests is reached by an endpoint that never accepts.\<close>

lemma rounds_503:
  "distinct (map wo_ID (rr_outbox (wk_db s))) \<Longrightarrow> entry_of ref_webhook_db (wk_db s) i = Some e \<Longrightarrow>
    wo_URL e = ''https://h/x'' \<Longrightarrow> 0 \<le> wo_Attempt e \<Longrightarrow> wo_MaxAttempts e = wo_Attempt e + int (Suc m) \<Longrightarrow>
    wo_MaxAttempts e \<le> 34 \<Longrightarrow> \<not> settled e \<Longrightarrow>
    \<exists>s' e'. rounds (demo_worker_env 503) i (Suc m) s = (Returns (), s') \<and>
      entry_of ref_webhook_db (wk_db s') i = Some e' \<and> wo_Status e' = OutboxStatusDead \<and>
      2 * length (sim_sent (wk_sim s')) = 2 * length (sim_sent (wk_sim s)) + Suc m * (Suc m + 3)"
proof (induction m arbitrary: s e)
  case (0 s e)
  from processEntry_503 [OF 0(1-6)] 0(2,7) show ?case by auto
next
  case (Suc m s e)
  from processEntry_503 [OF Suc.prems(1-6)] obtain s1 e1 where
    p: "processEntry (demo_worker_env 503) e s = (Returns (), s1)"
    and ids: "map wo_ID (rr_outbox (wk_db s1)) = map wo_ID (rr_outbox (wk_db s))"
    and e1: "entry_of ref_webhook_db (wk_db s1) i = Some e1" "wo_URL e1 = ''https://h/x''"
      "wo_Attempt e1 = wo_Attempt e + 1" "wo_MaxAttempts e1 = wo_MaxAttempts e" "wo_Status e1 = OutboxStatusPending"
    and sent: "length (sim_sent (wk_sim s1)) = length (sim_sent (wk_sim s)) + Suc m + 2" by auto
  have d1: "distinct (map wo_ID (rr_outbox (wk_db s1)))" using ids Suc.prems(1) by simp
  have "0 \<le> wo_Attempt e1" "wo_MaxAttempts e1 = wo_Attempt e1 + int (Suc m)" "wo_MaxAttempts e1 \<le> 34" "\<not> settled e1"
    using e1 Suc.prems(4-6) by (auto simp: settled_def outbox_status_defs)
  from Suc.IH [OF d1 e1(1,2) this] obtain s' e' where
    "rounds (demo_worker_env 503) i (Suc m) s1 = (Returns (), s')"
    "entry_of ref_webhook_db (wk_db s') i = Some e'" "wo_Status e' = OutboxStatusDead"
    "2 * length (sim_sent (wk_sim s')) = 2 * length (sim_sent (wk_sim s1)) + Suc m * (Suc m + 3)" by blast
  moreover have "rounds (demo_worker_env 503) i (Suc (Suc m)) s = rounds (demo_worker_env 503) i (Suc m) s1"
    using Suc.prems(2,7) p by (simp only: rounds.simps(2) [of _ _ "Suc m" s] option.case prod.case run.case if_False demo_worker_env_db)
  moreover have "2 * length (sim_sent (wk_sim s')) = 2 * length (sim_sent (wk_sim s)) + Suc (Suc m) * (Suc (Suc m) + 3)"
    using calculation(4) sent by (simp add: algebra_simps)
  ultimately show ?case by (intro exI [of _ s'] exI [of _ e']) simp
qed

text \<open>
  C0. Attempts multiply. An entry for an endpoint that answers every request with 503 becomes a dead
  letter after its \<open>m\<close> attempts, and by then the endpoint has received exactly \<open>m (m + 3) / 2\<close>
  requests, because every processing retries once more for each attempt that is left.
\<close>

theorem failing_entry_sends_quadratically:
  assumes "distinct (map wo_ID (rr_outbox (wk_db s)))" "entry_of ref_webhook_db (wk_db s) i = Some e"
    and "wo_URL e = ''https://h/x''" "wo_Status e = OutboxStatusPending" "wo_Attempt e = 0"
    and "wo_MaxAttempts e = int m" "0 < m" "m \<le> 34"
  shows "\<exists>s' e'. rounds (demo_worker_env 503) i m s = (Returns (), s') \<and>
      entry_of ref_webhook_db (wk_db s') i = Some e' \<and> wo_Status e' = OutboxStatusDead \<and>
      2 * length (sim_sent (wk_sim s')) = 2 * length (sim_sent (wk_sim s)) + m * (m + 3)"
proof -
  obtain k where m: "m = Suc k" using assms(7) by (cases m) auto
  have "0 \<le> wo_Attempt e" "wo_MaxAttempts e = wo_Attempt e + int (Suc k)" "wo_MaxAttempts e \<le> 34" "\<not> settled e"
    using assms m by (auto simp: settled_def outbox_status_defs)
  from rounds_503 [OF assms(1-3) this] show ?thesis unfolding m .
qed

lemma demo_state_entry:
  "distinct (map wo_ID (rr_outbox (wk_db demo_worker_state)))"
  "entry_of ref_webhook_db (wk_db demo_worker_state) ''a'' = Some (demo_entry ''a'' 3)"
  using demo_worker_distinct [of 503] demo_worker_entry [of 503] by simp_all

theorem failing_entry_sends_quadratically_witness:
  "\<exists>s' e'. rounds (demo_worker_env 503) ''a'' 3 demo_worker_state = (Returns (), s') \<and>
    entry_of ref_webhook_db (wk_db s') ''a'' = Some e' \<and> wo_Status e' = OutboxStatusDead \<and>
    length (sim_sent (wk_sim s')) = 9"
proof -
  have e: "wo_URL (demo_entry ''a'' 3) = ''https://h/x''" "wo_Status (demo_entry ''a'' 3) = OutboxStatusPending"
    "wo_Attempt (demo_entry ''a'' 3) = 0" "wo_MaxAttempts (demo_entry ''a'' 3) = int 3" "(0::nat) < 3" "(3::nat) \<le> 34"
    by (simp_all add: demo_entry_def)
  from failing_entry_sends_quadratically [OF demo_state_entry e] show ?thesis
    by (auto simp: demo_worker_state_def start_sim_def)
qed

theorem outbox_entry_settles_witness:
  "\<exists>s' e' qs. rounds (demo_worker_env 503) ''a'' 3 demo_worker_state = (Returns (), s') \<and>
    entry_of ref_webhook_db (wk_db s') ''a'' = Some e' \<and>
    (wo_Status e' = OutboxStatusCompleted \<or> wo_Status e' = OutboxStatusDead) \<and>
    sim_sent (wk_sim s') = sim_sent (wk_sim demo_worker_state) @ qs \<and> length qs \<le> 9"
proof -
  have e: "0 \<le> wo_Attempt (demo_entry ''a'' 3)" "in_int64 (wo_MaxAttempts (demo_entry ''a'' 3))"
    "3 = nat (wo_MaxAttempts (demo_entry ''a'' 3) - wo_Attempt (demo_entry ''a'' 3))" "(0::nat) < 3"
    "dp_backoffFunc (we_dispatcher (demo_worker_env 503)) \<noteq> None \<or> (3::nat) \<le> 34"
    by (simp_all add: demo_entry_def in_int64_def)
  have l: "webhook_laws (we_db (demo_worker_env 503))" "outbox_reliable (we_db (demo_worker_env 503))"
    using ref_webhook_laws ref_outbox_reliable by simp_all
  from outbox_entry_settles [OF l demo_worker_distinct demo_worker_entry e] show ?thesis by fastforce
qed

subsection \<open>The loop\<close>

lemma wrap64_add [simp]: "wrap64 (wrap64 a + b) = wrap64 (a + b)" "wrap64 (b + wrap64 a) = wrap64 (b + a)"
proof -
  have "wrap64 (wrap64 a + b) = ((a + 2 ^ 63) mod 2 ^ 64 + b) mod 2 ^ 64 - 2 ^ 63" by (simp add: wrap64_def)
  also have "\<dots> = (a + 2 ^ 63 + b) mod 2 ^ 64 - 2 ^ 63" by (simp only: mod_add_left_eq)
  also have "\<dots> = wrap64 (a + b)" by (simp add: wrap64_def algebra_simps)
  finally show "wrap64 (wrap64 a + b) = wrap64 (a + b)" .
  then show "wrap64 (b + wrap64 a) = wrap64 (b + a)" by (simp only: add.commute)
qed

definition balanced :: "('w, 'd) worker_state \<Rightarrow> bool" where
  "balanced s \<longleftrightarrow> wk_processedCount s = wrap64 (wk_successCount s + wk_failureCount s)"

lemma balanced_pass [simp]: "balanced (pass V s) = balanced s"
  by (simp add: balanced_def pass_def)

lemma balanced_dlq [simp]: "balanced (s\<lparr>wk_deadLetterCount := n\<rparr>) = balanced s"
  by (simp add: balanced_def)

lemma processEntry_balanced:
  assumes "balanced s" "processEntry V e s = (Returns (), s')"
  shows "balanced s'"
  using assms
  by (auto simp: processEntry_def Let_def balanced_def reject_entry_def settle_def add.commute add.left_commute
      split: sum.splits prod.splits run.splits)

lemma claimAndProcess_balanced:
  assumes "balanced s" "claimAndProcess V s = (Returns found, s')"
  shows "balanced s'"
proof -
  obtain es err s1 where c: "on_db V (\<lambda>d. case ClaimPendingOutbox (we_db V) (we_locked V (sim_w (wk_sim s))) (clock V s 0)
      defaultClaimLimit d of (entries, err, d) \<Rightarrow> ((entries, err), d)) s = ((es, err), s1)"
    by (metis prod.collapse)
  have "balanced s1"
    using assms(1) arg_cong [OF c, of snd] snd_on_db(4-6) unfolding balanced_def by (metis snd_conv)
  with assms(2) c show ?thesis
    by (auto simp: claimAndProcess_def split: if_splits list.splits prod.splits run.splits
        dest: processEntry_balanced)
qed

lemma next_interval_bounds:
  assumes "0 < ww_minInterval w" "ww_minInterval w \<le> ww_maxInterval w" "ww_maxInterval w < 2 ^ 62"
    "ww_minInterval w \<le> t" "t \<le> ww_maxInterval w"
  shows "ww_minInterval w \<le> next_interval w found t" "next_interval w found t \<le> ww_maxInterval w"
proof -
  have "wrap64 (t * 2) = t * 2" using assms by (simp add: in_int64_def)
  then show "ww_minInterval w \<le> next_interval w found t" "next_interval w found t \<le> ww_maxInterval w"
    using assms by (auto simp: next_interval_def Let_def)
qed

lemma checkDLQ_balanced [simp]: "balanced (checkDLQ V s) = balanced s"
  by (simp add: checkDLQ_def split: sum.split)

lemma on_tick_invariant:
  assumes "0 < ww_minInterval w" "ww_minInterval w \<le> ww_maxInterval w" "ww_maxInterval w < 2 ^ 62"
    "ww_minInterval w \<le> lv_interval l" "lv_interval l \<le> ww_maxInterval w" "balanced s"
    "on_tick w V l s = (Returns l', s')"
  shows "ww_minInterval w \<le> lv_interval l' \<and> lv_interval l' \<le> ww_maxInterval w \<and> balanced s'"
proof -
  obtain found s1 where c: "claimAndProcess V s = (Returns found, s1)"
    using assms(7) by (auto simp: on_tick_def split: prod.splits run.splits)
  note N = next_interval_bounds [OF assms(1-5), of found]
  from c assms(7) have "lv_interval l' = next_interval w found (lv_interval l)" "s' = s1 \<or> s' = checkDLQ V s1"
    by (auto simp: on_tick_def Let_def split: if_splits)
  with N claimAndProcess_balanced [OF assms(6) c] show ?thesis by auto
qed

text \<open>
  While a worker runs, its polling interval stays between the two configured bounds, so that
  resetting the ticker never panics, and every entry that was taken is counted exactly once as a
  success or as a failure.
\<close>

theorem worker_interval_and_counts:
  assumes "0 < ww_minInterval w" "ww_minInterval w \<le> ww_maxInterval w" "ww_maxInterval w < 2 ^ 62"
    and "wk_processedCount s = wrap64 (wk_successCount s + wk_failureCount s)"
    and "runWorker w V sigs s = (Returns l, s')"
  shows "ww_minInterval w \<le> lv_interval l \<and> lv_interval l \<le> ww_maxInterval w \<and>
    wm_ProcessedCount (Metrics s') = wrap64 (wm_SuccessCount (Metrics s') + wm_FailureCount (Metrics s'))"
proof -
  have "ww_minInterval w \<le> lv_interval l0 \<Longrightarrow> lv_interval l0 \<le> ww_maxInterval w \<Longrightarrow> balanced s \<Longrightarrow>
      worker_loop w V sigs l0 s = (Returns l, s') \<Longrightarrow>
      ww_minInterval w \<le> lv_interval l \<and> lv_interval l \<le> ww_maxInterval w \<and> balanced s'" for l0 s
  proof (induction sigs arbitrary: l0 s)
    case (Cons sig sigs)
    show ?case
    proof (cases sig)
      case Tick
      with Cons.prems(4) obtain l1 s1 where t: "on_tick w V l0 s = (Returns l1, s1)"
        "worker_loop w V sigs l1 s1 = (Returns l, s')" by (auto split: prod.splits run.splits)
      from on_tick_invariant [OF assms(1-3) Cons.prems(1-3) t(1)] Cons.IH [OF _ _ _ t(2)] show ?thesis by blast
    qed (use Cons.prems in auto)
  qed simp
  from this [of "\<lparr>lv_interval = ww_minInterval w, lv_lastDLQCheck = 0\<rparr>" s] assms
  have "ww_minInterval w \<le> lv_interval l \<and> lv_interval l \<le> ww_maxInterval w \<and> balanced s'"
    by (simp add: runWorker_def balanced_def)
  then show ?thesis by (simp add: balanced_def Metrics_def)
qed

definition idle_worker_state :: "(unit, ref_rows) worker_state" where
  "idle_worker_state = demo_worker_state\<lparr>wk_db := demo_rows\<rparr>"

theorem worker_interval_and_counts_witness:
  "\<exists>l s'. runWorker (NewWebhookWorker []) (demo_worker_env 200) [Tick, Tick, StopClosed] idle_worker_state = (Returns l, s') \<and>
    500 * 10 ^ 6 \<le> lv_interval l \<and> lv_interval l \<le> 10 * 10 ^ 9"
proof -
  let ?r = "runWorker (NewWebhookWorker []) (demo_worker_env 200) [Tick, Tick, StopClosed] idle_worker_state"
  have "lv_interval (case fst ?r of Returns l \<Rightarrow> l) = 2 * 10 ^ 9" "(case fst ?r of Returns _ \<Rightarrow> True | Panics _ \<Rightarrow> False)"
    by code_simp+
  then obtain l where "fst ?r = Returns l" by (cases "fst ?r") auto
  then have r: "?r = (Returns l, snd ?r)" by (metis prod.collapse)
  have w: "ww_minInterval (NewWebhookWorker []) = 500 * 10 ^ 6" "ww_maxInterval (NewWebhookWorker []) = 10 * 10 ^ 9"
    by (simp_all add: NewWebhookWorker_def defaultMinInterval_def defaultMaxInterval_def)
  have p0: "wk_processedCount idle_worker_state = wrap64 (wk_successCount idle_worker_state + wk_failureCount idle_worker_state)"
    by (simp add: idle_worker_state_def demo_worker_state_def in_int64_def)
  have b: "0 < ww_minInterval (NewWebhookWorker [])" "ww_minInterval (NewWebhookWorker []) \<le> ww_maxInterval (NewWebhookWorker [])"
    "ww_maxInterval (NewWebhookWorker []) < 2 ^ 62" by (simp_all add: w)
  from worker_interval_and_counts [OF b p0 r] r show ?thesis unfolding w by blast
qed

subsection \<open>Replaying dead letters\<close>

lemma ReplayDeadOutbox_dead:
  assumes "webhook_laws D" "outbox_reliable D" "entry_of D d i = Some e" "wo_Status e = OutboxStatusDead"
  shows "\<exists>d'. ReplayDeadOutbox D now i d = (Inr (), d') \<and>
    (\<forall>j. entry_of D d' j = (if j = i then Some (replay_row now e) else entry_of D d j))"
proof -
  let ?P = "\<lambda>e. wo_ID e = i \<and> wo_Status e = OutboxStatusDead"
  from assms(2) obtain n d' where u: "tb_update (wd_outbox D) ?P (replay_row now) d = (Inr n, d')"
    unfolding outbox_reliable_def is_ok_iff by (metis prod.collapse)
  from entry_of_ID [OF assms(3)] assms(4) have "e \<in> set (filter ?P (tb_rows (wd_outbox D) d))" by simp
  then have "length (filter ?P (tb_rows (wd_outbox D) d)) \<noteq> 0" by (metis empty_iff length_0_conv list.set(1))
  with update_lawD [OF webhook_lawsD(3) [OF assms(1)] u] u have r: "ReplayDeadOutbox D now i d = (Inr (), d')"
    by (simp add: ReplayDeadOutbox_def)
  have "entry_of D d' j = (if j = i then Some (replay_row now e) else entry_of D d j)" for j
    using ReplayDeadOutbox_entry_of(1) [OF assms(1) r, of j] u assms(3,4) entry_of_ID [of D d j]
    by (cases "entry_of D d j") auto
  with r show ?thesis by blast
qed

lemma replay_all_spec:
  assumes "webhook_laws D" "outbox_reliable D"
  shows "distinct (map wo_ID es) \<Longrightarrow> \<forall>e\<in>set es. entry_of D d (wo_ID e) = Some e \<and> wo_Status e = OutboxStatusDead \<Longrightarrow>
    \<exists>d'. replay_all D now n es k d = (wrap64 (k + int (length es)), d') \<and>
      (\<forall>i. i \<notin> wo_ID ` set es \<longrightarrow> entry_of D d' i = entry_of D d i) \<and>
      (\<forall>e\<in>set es. \<exists>m. entry_of D d' (wo_ID e) = Some (replay_row (now m) e)) \<or> es = [] \<and> replay_all D now n es k d = (k, d)"
proof (induction es arbitrary: n k d)
  case (Cons e es)
  from Cons.prems ReplayDeadOutbox_dead [OF assms, of d "wo_ID e" e "now n"] obtain d1 where
    d1: "ReplayDeadOutbox D (now n) (wo_ID e) d = (Inr (), d1)"
    "\<forall>j. entry_of D d1 j = (if j = wo_ID e then Some (replay_row (now n) e) else entry_of D d j)" by auto
  have "distinct (map wo_ID es)" "\<forall>x\<in>set es. entry_of D d1 (wo_ID x) = Some x \<and> wo_Status x = OutboxStatusDead"
    using Cons.prems d1(2) by (auto simp: image_iff)
  from Cons.IH [OF this, of "n + 1" "wrap64 (k + 1)"] show ?case
  proof (elim disjE exE conjE)
    fix d' assume d': "replay_all D now (n + 1) es (wrap64 (k + 1)) d1 = (wrap64 (wrap64 (k + 1) + int (length es)), d')"
      "\<forall>i. i \<notin> wo_ID ` set es \<longrightarrow> entry_of D d' i = entry_of D d1 i"
      "\<forall>x\<in>set es. \<exists>m. entry_of D d' (wo_ID x) = Some (replay_row (now m) x)"
    have "entry_of D d' (wo_ID e) = Some (replay_row (now n) e)"
      using d'(2) d1(2) Cons.prems(1) by auto
    with d' d1 show ?thesis by (intro disjI1 exI [of _ d']) (auto simp: add.assoc)
  next
    assume "es = []"
    with d1 show ?thesis by (intro disjI1 exI [of _ d1]) auto
  qed
qed simp

definition dead_rows :: ref_rows where
  "dead_rows = demo_rows\<lparr>rr_outbox := [(demo_entry ''b'' 5)\<lparr>wo_Status := OutboxStatusDead\<rparr>,
     (demo_entry ''a'' 3)\<lparr>wo_Status := OutboxStatusDead\<rparr>]\<rparr>"

text \<open>
  Replaying a batch of dead letters: when the outbox statements succeed, the call resets exactly
  the \<^verbatim>\<open>min(limit, dead)\<close> entries it listed, the oldest dead ones, to pending with no attempt used,
  due at once, leaves every other entry as it was, and returns their number. A limit of zero or
  below stands for 1000, not for all.
\<close>

theorem replay_batch_resets_oldest_dead:
  assumes "webhook_laws D" "outbox_reliable D" "distinct (map wo_ID (tb_rows (wd_outbox D) d))"
    and "lim = (if limit \<le> 0 then 1000 else limit)" "in_int64 lim"
  shows "\<exists>es d'. ReplayDeadBatch D now limit d = (Inr (int (length es)), d') \<and>
    int (length es) = min lim (int (length (filter (\<lambda>e. wo_Status e = OutboxStatusDead) (tb_rows (wd_outbox D) d)))) \<and>
    (\<forall>x\<in>set (tb_rows (wd_outbox D) d). wo_Status x = OutboxStatusDead \<and> x \<notin> set es \<longrightarrow>
       (\<forall>e\<in>set es. wo_CreatedAt e \<le> wo_CreatedAt x)) \<and>
    (\<forall>i. i \<notin> wo_ID ` set es \<longrightarrow> entry_of D d' i = entry_of D d i) \<and>
    (\<forall>e\<in>set es. entry_of D d (wo_ID e) = Some e \<and> wo_Status e = OutboxStatusDead \<and>
       (\<exists>m. entry_of D d' (wo_ID e) = Some (e\<lparr>wo_Status := OutboxStatusPending, wo_Attempt := 0,
          wo_NextAttemptAt := now m 0, wo_LastError := '''', wo_UpdatedAt := now m 1\<rparr>)))"
proof -
  let ?P = "\<lambda>e. wo_Status e = OutboxStatusDead"
  have lim: "0 < lim" using assms(4) by simp
  obtain es where f: "tb_find (wd_outbox D) ?P (Some wo_CreatedAt) (Some (lim, 0)) d = Inr es"
    using assms(2) unfolding outbox_reliable_def is_ok_iff by metis
  from find_lawD [OF webhook_lawsD(3) [OF assms(1)] f] obtain ys where
    ys: "mset ys = mset (filter ?P (tb_rows (wd_outbox D) d))" "sorted (map wo_CreatedAt ys)" "window (Some (lim, 0)) ys es" by auto
  have es: "es = take (nat lim) ys" using ys(3) lim by (simp add: window_def)
  from ys(1) have len: "length ys = length (filter ?P (tb_rows (wd_outbox D) d))" by (metis size_mset)
  from ys(1) have set_ys: "set ys = {e \<in> set (tb_rows (wd_outbox D) d). ?P e}" by (metis set_filter set_mset_mset)
  have "distinct (map wo_ID (filter ?P (tb_rows (wd_outbox D) d)))" using assms(3) by (simp add: distinct_map_filter)
  then have "distinct (map wo_ID ys)" using ys(1) by (metis mset_eq_imp_distinct_iff mset_map)
  then have dist: "distinct (map wo_ID es)" by (simp add: es distinct_take take_map [symmetric])
  have dead: "\<forall>e\<in>set es. entry_of D d (wo_ID e) = Some e \<and> ?P e"
    using set_ys lookup_in [OF assms(3)] unfolding es entry_of_def by (auto dest: in_set_takeD)
  have old: "\<forall>e\<in>set es. wo_CreatedAt e \<le> wo_CreatedAt x"
    if "x \<in> set (tb_rows (wd_outbox D) d)" "?P x" "x \<notin> set es" for x
    using window_oldest [OF ys(2,3) lim, of x] that set_ys by auto
  have n: "int (length es) = min lim (int (length (filter ?P (tb_rows (wd_outbox D) d))))"
    using lim by (auto simp add: es len [symmetric] min_def)
  have w: "wrap64 (0 + int (length es)) = int (length es)"
    using n assms(5) lim by (simp add: in_int64_def)
  from replay_all_spec [OF assms(1,2) dist dead, of now 0 0] obtain d' where
    d': "replay_all D now 0 es 0 d = (int (length es), d')" "\<forall>i. i \<notin> wo_ID ` set es \<longrightarrow> entry_of D d' i = entry_of D d i"
    "\<forall>e\<in>set es. \<exists>m. entry_of D d' (wo_ID e) = Some (replay_row (now m) e)"
    unfolding w by fastforce
  have "ReplayDeadBatch D now limit d = (Inr (int (length es)), d')"
    using f d'(1) unfolding ReplayDeadBatch_def ListDeadOutbox_def assms(4) [symmetric] Let_def by simp
  moreover have "\<forall>e\<in>set es. entry_of D d (wo_ID e) = Some e \<and> ?P e \<and>
       (\<exists>m. entry_of D d' (wo_ID e) = Some (e\<lparr>wo_Status := OutboxStatusPending, wo_Attempt := 0,
          wo_NextAttemptAt := now m 0, wo_LastError := '''', wo_UpdatedAt := now m 1\<rparr>))"
    using d'(3) dead by (simp add: replay_row_def)
  ultimately show ?thesis using n d'(2) old
    by (intro exI [of _ es] exI [of _ d'] conjI) (assumption | blast)+
qed

theorem replay_batch_resets_oldest_dead_witness:
  "\<exists>(es :: webhook_outbox list) d'. ReplayDeadBatch ref_webhook_db (\<lambda>_ _. 9) 1 dead_rows = (Inr (int (length es)), d') \<and> length es = 1 \<and>
    map wo_Status (rr_outbox d') = [OutboxStatusDead, OutboxStatusPending]"
proof -
  let ?r = "ReplayDeadBatch ref_webhook_db (\<lambda>_ _. 9) 1 dead_rows"
  have s: "map wo_Status (rr_outbox (snd ?r)) = [OutboxStatusDead, OutboxStatusPending]" by code_simp
  have "distinct (map wo_ID (tb_rows (wd_outbox ref_webhook_db) dead_rows))"
    by (simp add: dead_rows_def demo_entry_def)
  note R = replay_batch_resets_oldest_dead [OF ref_webhook_laws ref_outbox_reliable this, of 1 1 "\<lambda>_ _. 9"]
  have "1 = (if (1::int) \<le> 0 then 1000 else 1)" "in_int64 1" by (simp_all add: in_int64_def)
  from R [OF this] obtain es :: "webhook_outbox list" and d' where e: "?r = (Inr (int (length es)), d')"
    "int (length es) = min 1 (int (length (filter (\<lambda>e. wo_Status e = OutboxStatusDead) (tb_rows (wd_outbox ref_webhook_db) dead_rows))))"
    by (elim exE conjE)
  have "length es = 1" using e(2) by (simp add: dead_rows_def)
  with e s show ?thesis by (intro exI [of _ es] exI [of _ d']) simp
qed

end
