(* ===== verification/WebhookPool.thy ===== *)
theory WebhookPool
  imports WebhookWorker
begin

text \<open>
  The workers of one or several processes together. A step of the pool is one database statement
  (or the claiming transaction), one delivery, an event written to the outbox, a replay of a dead
  entry or a change of the configurations; they interleave in any order, with any clock readings and
  in any state of the outside world. \<open>po_delivered\<close> records the deliveries that returned, each with the
  states of the world and of the wire before and after it. The
  statements are those of \<open>processEntry\<close> in its order (\<open>reject_entry\<close>, \<open>deliver\<close>, \<open>log_delivery\<close>,
  \<open>settle\<close>); \<^verbatim>\<open>MarkOutboxFailed\<close> reads the row and writes it in two steps.
\<close>

section \<open>Deliveries that succeed\<close>




section \<open>The pool\<close>

datatype phase = Idle
  | Claimed webhook_outbox
  | Sent webhook_outbox dispatch_result
  | Logged webhook_outbox dispatch_result
  | ReadBack webhook_outbox string string   \<comment> \<open>the row read, the id and the error to write\<close>

record 'w delivery =
  dl_entry :: webhook_outbox
  dl_result :: dispatch_result
  dl_before :: "'w sim"
  dl_after :: "'w sim"

record ('w, 'd) pool =
  po_db :: 'd
  po_phase :: "nat \<Rightarrow> phase"
  po_delivered :: "'w delivery list"

definition enter :: "nat \<Rightarrow> phase \<Rightarrow> 'd \<Rightarrow> ('w, 'd) pool \<Rightarrow> ('w, 'd) pool" where
  "enter i ph d p = p\<lparr>po_db := d, po_phase := (po_phase p)(i := ph)\<rparr>"

inductive pool_step ::
    "('w, 'd) worker_env \<Rightarrow> (string \<Rightarrow> string list option) \<Rightarrow> ('w, 'd) pool \<Rightarrow> ('w, 'd) pool \<Rightarrow> bool" for V dec where
  claim: "po_phase p i = Idle \<Longrightarrow>
    ClaimPendingOutbox (we_db V) locked now defaultClaimLimit (po_db p) = (e # es, None, d) \<Longrightarrow>
    pool_step V dec p (enter i (Claimed e) d p)"
| claim_nothing: "po_phase p i = Idle \<Longrightarrow>
    ClaimPendingOutbox (we_db V) locked now defaultClaimLimit (po_db p) = (es, err, d) \<Longrightarrow>
    err \<noteq> None \<or> es = [] \<Longrightarrow> pool_step V dec p (enter i Idle d p)"
| reject: "po_phase p i = Claimed e \<Longrightarrow> we_unmarshal V (wo_Payload e) = Inl err \<Longrightarrow>
    MarkOutboxDead (we_db V) now (wo_ID e) (''invalid payload: '' @ err) (po_db p) = (q, d) \<Longrightarrow>
    pool_step V dec p (enter i Idle d p)"
| delivered: "po_phase p i = Claimed e \<Longrightarrow> we_unmarshal V (wo_Payload e) = Inr evt \<Longrightarrow>
    deliver V evt e s = (Returns r, s') \<Longrightarrow>
    pool_step V dec p (enter i (Sent e r) (po_db p) (p\<lparr>po_delivered := po_delivered p @
      [\<lparr>dl_entry = e, dl_result = r, dl_before = s, dl_after = s'\<rparr>]\<rparr>))"
| logged: "po_phase p i = Sent e r \<Longrightarrow>
    CreateDeliveryLog (we_db V) now (delivery_log logID e r) (po_db p) = (q, d) \<Longrightarrow>
    pool_step V dec p (enter i (Logged e r) d p)"
| completed: "po_phase p i = Logged e r \<Longrightarrow> dr_Success r \<Longrightarrow>
    MarkOutboxCompleted (we_db V) now (wo_ID e) (po_db p) = (q, d) \<Longrightarrow>
    pool_step V dec p (enter i Idle d p)"
| read_back: "po_phase p i = Logged e r \<Longrightarrow> \<not> dr_Success r \<Longrightarrow>
    tb_find (wd_outbox (we_db V)) (\<lambda>x. wo_ID x = wo_ID e) None (Some (1, 0)) (po_db p) = Inr (row # rows) \<Longrightarrow>
    pool_step V dec p (enter i (ReadBack row (wo_ID e) (dr_Error r)) (po_db p) p)"
| read_back_fails: "po_phase p i = Logged e r \<Longrightarrow> \<not> dr_Success r \<Longrightarrow>
    tb_find (wd_outbox (we_db V)) (\<lambda>x. wo_ID x = wo_ID e) None (Some (1, 0)) (po_db p) \<in> {Inr []} \<union> range Inl \<Longrightarrow>
    pool_step V dec p (enter i Idle (po_db p) p)"
| write_failed: "po_phase p i = ReadBack row rowID err \<Longrightarrow>
    failed_update (we_db V) nows row rowID err (po_db p) = (q, d) \<Longrightarrow>
    pool_step V dec p (enter i Idle d p)"
| enqueue: "CreateOutboxEntries dec (we_db V) ids nows eventType eventID tenantID payload (po_db p) = (q, d) \<Longrightarrow>
    pool_step V dec p (p\<lparr>po_db := d\<rparr>)"
| replay: "ReplayDeadOutbox (we_db V) nows rowID (po_db p) = (q, d) \<Longrightarrow> pool_step V dec p (p\<lparr>po_db := d\<rparr>)"
| config_created: "Create (we_db V) now cfg (po_db p) = (q, d) \<Longrightarrow> pool_step V dec p (p\<lparr>po_db := d\<rparr>)"
| config_updated: "Update (we_db V) now cfg (po_db p) = (q, d) \<Longrightarrow> pool_step V dec p (p\<lparr>po_db := d\<rparr>)"
| config_deleted: "Delete (we_db V) rowID (po_db p) = (q, d) \<Longrightarrow> pool_step V dec p (p\<lparr>po_db := d\<rparr>)"

text \<open>What a database operation may do to the outbox, up to the ids it may complete.\<close>

definition same_target :: "webhook_outbox \<Rightarrow> webhook_outbox \<Rightarrow> bool" where
  "same_target e e' \<longleftrightarrow> wo_URL e' = wo_URL e \<and> wo_Secret e' = wo_Secret e \<and> wo_Payload e' = wo_Payload e \<and>
     wo_EventID e' = wo_EventID e \<and> wo_WebhookID e' = wo_WebhookID e \<and> wo_EventType e' = wo_EventType e"

lemma same_target_refl [simp]: "same_target e e"
  by (simp add: same_target_def)

lemma same_target_trans: "same_target a b \<Longrightarrow> same_target b c \<Longrightarrow> same_target a c"
  by (simp add: same_target_def)

definition outbox_ids :: "'d webhook_db \<Rightarrow> 'd \<Rightarrow> string list" where
  "outbox_ids D d = map wo_ID (tb_rows (wd_outbox D) d)"

definition evolves :: "'d webhook_db \<Rightarrow> string set \<Rightarrow> 'd \<Rightarrow> 'd \<Rightarrow> bool" where
  "evolves D C d d' \<longleftrightarrow> (\<forall>i e. entry_of D d i = Some e \<longrightarrow> (\<exists>e'. entry_of D d' i = Some e' \<and> same_target e e')) \<and>
     (\<forall>i e'. entry_of D d' i = Some e' \<and> wo_Status e' = OutboxStatusCompleted \<longrightarrow>
        (\<exists>e. entry_of D d i = Some e \<and> (i \<in> C \<or> wo_Status e = OutboxStatusCompleted))) \<and>
     (distinct (outbox_ids D d) \<longrightarrow> distinct (outbox_ids D d'))"

lemma evolves_map:
  assumes "\<And>i. entry_of D d' i = map_option (f i) (entry_of D d i)"
    "\<And>i e. same_target e (f i e)"
    "\<And>i e. wo_Status (f i e) = OutboxStatusCompleted \<Longrightarrow> i \<in> C \<or> wo_Status e = OutboxStatusCompleted"
    "outbox_ids D d' = outbox_ids D d"
  shows "evolves D C d d'"
  unfolding evolves_def assms(1) by (auto simp: assms(2,4) dest: assms(3))

lemma evolves_same: "tb_rows (wd_outbox D) d' = tb_rows (wd_outbox D) d \<Longrightarrow> evolves D C d d'"
  by (auto simp: evolves_def outbox_ids_def entry_of_def)

lemma evolves_update:
  assumes "webhook_laws D" "update_entry D rowID f d = (r, d')" "\<And>e. wo_ID (f e) = wo_ID e"
    "\<And>e. same_target e (f e)" "\<And>e. wo_Status (f e) = OutboxStatusCompleted \<Longrightarrow> rowID \<in> C"
  shows "evolves D C d d'"
proof -
  have eq: "entry_of D d' i = map_option (\<lambda>e. if r = Inr () \<and> i = rowID then f e else e) (entry_of D d i)" for i
    using update_entry_of(1) [OF assms(1-3), of i] entry_of_ID [of D d i] by (cases "entry_of D d i") auto
  have "outbox_ids D d' = outbox_ids D d" using update_entry_ids [OF assms(1-3)] by (simp add: outbox_ids_def)
  then show ?thesis by (intro evolves_map [OF eq]) (use assms(4,5) in \<open>auto split: if_splits\<close>)
qed

lemma evolves_claim:
  assumes "webhook_laws D" "ClaimPendingOutbox D locked now limit d = (es, err, d')"
  shows "evolves D {} d d'"
proof (cases err)
  case None
  note eq = ClaimPendingOutbox_entry_of [OF assms(1) assms(2) [unfolded None]]
  have "outbox_ids D d' = outbox_ids D d"
    unfolding outbox_ids_def ClaimPendingOutbox_cases(2) [OF assms(1) assms(2) [unfolded None]] by simp
  then show ?thesis
    by (intro evolves_map [OF eq]) (auto simp: same_target_def claim_row_def outbox_status_defs split: if_splits)
next
  case (Some e)
  obtain r es' d1 where t: "claim_txn D locked now limit d = (r, es', d1)" by (metis prod.collapse)
  show ?thesis
  proof (cases r)
    case (Inl x)
    with assms(2) t have "d' = d" by (simp add: ClaimPendingOutbox_def)
    then show ?thesis by (intro evolves_same) simp
  next
    case (Inr u)
    obtain c d2 where c: "wd_Commit D d d1 = (c, d2)" by fastforce
    with assms(2) t Inr Some have "d2 = d'" "\<exists>x. c = Inl x"
      by (auto simp: ClaimPendingOutbox_def split: sum.splits)
    with commit_lawD [OF assms(1) c] have "same_rows D d d'" by auto
    then show ?thesis by (intro evolves_same) (simp add: same_rows_def)
  qed
qed

lemma evolves_enqueue:
  assumes "webhook_laws D" "CreateOutboxEntries dec D ids nows eventType eventID tenantID payload d = (q, d')"
  shows "evolves D {} d d'"
proof -
  note C = CreateOutboxEntries_entry_of [OF assms]
  have "\<exists>e'. entry_of D d' i = Some e' \<and> same_target e e'" if "entry_of D d i = Some e" for i e
    using C(1) [OF that] by simp
  moreover have "entry_of D d i = Some e'" if "entry_of D d' i = Some e'" "wo_Status e' = OutboxStatusCompleted" for i e'
    using C(2) [OF that(1)] that(2) by (auto simp: outbox_status_defs)
  ultimately show ?thesis
    using CreateOutboxEntries_ids [OF assms] unfolding evolves_def outbox_ids_def by blast
qed

lemma evolves_replay:
  assumes "webhook_laws D" "ReplayDeadOutbox D nows rowID d = (q, d')"
  shows "evolves D {} d d'"
proof -
  let ?P = "\<lambda>e. wo_ID e = rowID \<and> wo_Status e = OutboxStatusDead"
  obtain u d1 where u: "tb_update (wd_outbox D) ?P (replay_row nows) d = (u, d1)" by fastforce
  with assms(2) have [simp]: "d1 = d'" using rows_affected_cases by (metis ReplayDeadOutbox_def)
  note U = update_lawD [OF webhook_lawsD(3) [OF assms(1)] u]
  show ?thesis
  proof (cases u)
    case (Inl err)
    with U show ?thesis by (intro evolves_same) simp
  next
    case (Inr n)
    then have "is_ok (fst (tb_update (wd_outbox D) ?P (replay_row nows) d))" using u by simp
    note eq = ReplayDeadOutbox_entry_of(1) [OF assms this]
    have "outbox_ids D d' = outbox_ids D d" using U Inr by (simp add: outbox_ids_def replay_row_def)
    then show ?thesis
      by (intro evolves_map [OF eq]) (auto simp: same_target_def replay_row_def outbox_status_defs split: if_splits)
  qed
qed

lemma outbox_of_config_write:
  assumes "webhook_laws D"
  shows "tb_rows (wd_outbox D) (snd (tb_insert (wd_configs D) cs d)) = tb_rows (wd_outbox D) d"
    "tb_rows (wd_outbox D) (snd (tb_update (wd_configs D) P f d)) = tb_rows (wd_outbox D) d"
    "tb_rows (wd_outbox D) (snd (tb_delete (wd_configs D) P d)) = tb_rows (wd_outbox D) d"
    "tb_rows (wd_outbox D) (snd (tb_insert (wd_logs D) ls d)) = tb_rows (wd_outbox D) d"
  using webhook_lawsD(5,7) [OF assms] by (simp_all add: independent_def)

lemma evolves_config:
  assumes "webhook_laws D"
  shows "Create D now cfg d = (q, d') \<Longrightarrow> evolves D {} d d'"
    and "Update D now cfg d = (q, d') \<Longrightarrow> evolves D {} d d'"
    and "Delete D rowID d = (q, d') \<Longrightarrow> evolves D {} d d'"
    and "CreateDeliveryLog D now l d = (q, d') \<Longrightarrow> evolves D {} d d'"
proof -
  have db: "snd (db_error x) = snd x" for x :: "(string + unit) \<times> 'd" by (cases x; cases "fst x") auto
  have ra: "snd (rows_affected x) = snd x" for x :: "(string + int) \<times> 'd" by (cases x; cases "fst x") auto
  note rows = outbox_of_config_write [OF assms]
  show "Create D now cfg d = (q, d') \<Longrightarrow> evolves D {} d d'"
    by (rule evolves_same) (metis Create_def db rows(1) snd_conv)
  show "Update D now cfg d = (q, d') \<Longrightarrow> evolves D {} d d'"
    by (rule evolves_same) (metis Update_def ra rows(2) snd_conv)
  show "Delete D rowID d = (q, d') \<Longrightarrow> evolves D {} d d'"
    by (rule evolves_same) (metis Delete_def ra rows(3) snd_conv)
  show "CreateDeliveryLog D now l d = (q, d') \<Longrightarrow> evolves D {} d d'"
    by (rule evolves_same) (metis CreateDeliveryLog_def db rows(4) snd_conv)
qed

lemma same_target_failed: "same_target e (failed_row nows row err e)"
  by (simp add: same_target_def failed_row_def)

lemma evolves_marks:
  assumes "webhook_laws D"
  shows "MarkOutboxCompleted D now rowID d = (q, d') \<Longrightarrow> evolves D {rowID} d d'"
    and "MarkOutboxDead D now rowID err d = (q, d') \<Longrightarrow> evolves D {} d d'"
    and "failed_update D nows row rowID err d = (q, d') \<Longrightarrow> evolves D {} d d'"
proof -
  show "MarkOutboxCompleted D now rowID d = (q, d') \<Longrightarrow> evolves D {rowID} d d'"
    unfolding MarkOutboxCompleted_def by (erule evolves_update [OF assms]) (simp_all add: same_target_def)
  show "MarkOutboxDead D now rowID err d = (q, d') \<Longrightarrow> evolves D {} d d'"
    unfolding MarkOutboxDead_def
    by (erule evolves_update [OF assms]) (simp_all add: same_target_def outbox_status_defs)
  show "failed_update D nows row rowID err d = (q, d') \<Longrightarrow> evolves D {} d d'"
    unfolding failed_update_row
    by (erule evolves_update [OF assms]) (simp_all add: same_target_failed outbox_status_defs split: if_splits)
qed

section \<open>The invariant\<close>

text \<open>
  Every entry a worker holds, and every delivered one, is still in the table with the same target;
  what a worker is about to settle was delivered; every recorded delivery is one; and a completed row
  has a recorded success.
\<close>

definition known :: "'d webhook_db \<Rightarrow> 'd \<Rightarrow> webhook_outbox \<Rightarrow> bool" where
  "known D d e \<longleftrightarrow> (\<exists>e0. entry_of D d (wo_ID e) = Some e0 \<and> same_target e e0)"





lemma known_evolves: "known D d e \<Longrightarrow> evolves D C d d' \<Longrightarrow> known D d' e"
  unfolding known_def evolves_def by (meson same_target_trans)








definition pool_start :: "'d \<Rightarrow> ('w, 'd) pool" where
  "pool_start d = \<lparr>po_db = d, po_phase = (\<lambda>_. Idle), po_delivered = []\<rparr>"


section \<open>Properties\<close>

text \<open>The table of a pool evolves: no entry is lost, and none changes its target.\<close>

lemma pool_evolves_step:
  assumes "pool_step V dec p p'" "webhook_laws (we_db V)"
  shows "\<exists>C. evolves (we_db V) C (po_db p) (po_db p')"
  using assms(1)
  by cases (auto simp: enter_def intro: evolves_claim [OF assms(2)] evolves_marks [OF assms(2)]
      evolves_same [OF refl] evolves_config [OF assms(2)] evolves_enqueue [OF assms(2)] evolves_replay [OF assms(2)])

lemma pool_known:
  assumes "(pool_step V dec)\<^sup>*\<^sup>* p p'" "webhook_laws (we_db V)" "known (we_db V) (po_db p) e"
  shows "known (we_db V) (po_db p') e"
  using assms(1,3)
proof (induction rule: rtranclp_induct)
  case (step p1 p2)
  with pool_evolves_step [OF step(2) assms(2)] show ?case by (blast intro: known_evolves)
qed



text \<open>An endpoint whose answer depends on the state of the world, for concrete traces.\<close>

definition moody_env :: "bool net_env" where
  "moody_env = \<lparr>ne_now = (\<lambda>_. 0), ne_ctx_err = (\<lambda>_. None), ne_sleep = (\<lambda>_ w. w),
     ne_Int63n = (\<lambda>n w. (n - 1, w)), ne_marshal = (\<lambda>e. Inr (evt_ID e)), ne_new_request = (\<lambda>_. None),
     ne_do = (\<lambda>c q w. (Inr \<lparr>hp_StatusCode = (if w then 200 else 404), hp_RetryAfter = '''', hp_read = (\<lambda>_. Inr ''body'')\<rparr>, w)),
     ne_parse_url = (\<lambda>u. Inr \<lparr>pu_Scheme = ''https'', pu_Host = ''h'', pu_Hostname = ''h''\<rparr>),
     ne_parseIP = (\<lambda>_. None), ne_parse_time = (\<lambda>_. None),
     ne_hmac = (\<lambda>alg k c. CHR ''m'' # toy_hmac alg k c), ne_key_order = (\<lambda>xs. xs), ne_ssrf_text = (\<lambda>_. ''blocked'')\<rparr>"

definition moody_worker_env :: "(bool, ref_rows) worker_env" where
  "moody_worker_env = \<lparr>we_net = moody_env, we_db = ref_webhook_db, we_dispatcher = demo_dispatcher,
     we_unmarshal = (\<lambda>_. Inr ok_event), we_uuid = demo_ids, we_locked = (\<lambda>_ _. False), we_after = (\<lambda>w. w)\<rparr>"

definition moody_sim :: "bool \<Rightarrow> bool sim" where
  "moody_sim w = \<lparr>sim_w = w, sim_sent = [], sim_reported = []\<rparr>"

definition moody_result :: "bool \<Rightarrow> dispatch_result" where
  "moody_result w = (case fst (deliver moody_worker_env ok_event (demo_entry ''a'' 3) (moody_sim w)) of
     Returns r \<Rightarrow> r | Panics _ \<Rightarrow> cancelled_result '''' 0)"

definition late_now :: timestamp where
  "late_now = 8 + processingLeaseTimeout"

lemma moody_attempt:
  assumes "attempt_once moody_env demo_dispatcher ok_event ''https://h/x'' secret timeout attempt (moody_sim w) = (r, s')"
  shows "dr_Success r = w \<and> dr_StatusCode r = (if w then 200 else 404)"
proof -
  have sch: "isAllowedScheme (dp_ssrfPolicy demo_dispatcher) ''https''" by code_simp
  have d: "dp_maxPayloadSize demo_dispatcher = 2 ^ 20" by code_simp
  show ?thesis
    using assms sch d
    by (cases "effective_secret demo_dispatcher secret = ''''")
      (auto simp add: attempt_once_def Dispatch_def pre_checks_def ValidateURL_def moody_env_def moody_sim_def ok_event_def
        maxEventIDLen_def maxEventSourceLen_def maxEventSubjectLen_def build_request_def SignPayload_def
        read_reply_def Let_def)
qed

lemma moody_deliver:
  "\<exists>s'. deliver moody_worker_env ok_event (demo_entry ''a'' 3) (moody_sim w) = (Returns (moody_result w), s')"
  "dr_Success (moody_result w) = w"
proof -
  obtain r s' where a: "attempt_once moody_env demo_dispatcher ok_event ''https://h/x'' ''s'' (10 * 10 ^ 9) 0 (moody_sim w) = (r, s')"
    by fastforce
  note r = moody_attempt [OF a]
  have ctx: "ne_ctx_err moody_env x = None" for x by (simp add: moody_env_def)
  have "must_return moody_env r s'" using r by (auto simp: must_return_def isRetryable_def)
  with a have "retry_loop moody_env demo_dispatcher ok_event ''https://h/x'' ''s'' (10 * 10 ^ 9) 3 0 (moody_sim w) = (Returns r, s')"
    by (simp add: retry_loop.simps ctx)
  then have D: "deliver moody_worker_env ok_event (demo_entry ''a'' 3) (moody_sim w) = (Returns r, s')"
    by (simp add: deliver_def moody_worker_env_def demo_entry_def DispatchWithRetry_def in_int64_def)
  then show "\<exists>s'. deliver moody_worker_env ok_event (demo_entry ''a'' 3) (moody_sim w) = (Returns (moody_result w), s')"
    by (simp add: moody_result_def)
  from D r show "dr_Success (moody_result w) = w" by (simp add: moody_result_def)
qed

definition late_1 :: ref_rows where
  "late_1 = snd (snd (ClaimPendingOutbox ref_webhook_db (\<lambda>_. False) 7 1 demo_outbox))"

definition late_2 :: ref_rows where
  "late_2 = snd (snd (ClaimPendingOutbox ref_webhook_db (\<lambda>_. False) late_now 1 late_1))"

lemma late_claims:
  "ClaimPendingOutbox ref_webhook_db (\<lambda>_. False) 7 defaultClaimLimit demo_outbox = ([demo_entry ''a'' 3], None, late_1)"
  "ClaimPendingOutbox ref_webhook_db (\<lambda>_. False) late_now defaultClaimLimit late_1 = ([claim_row 7 (demo_entry ''a'' 3)], None, late_2)"
  "entry_of ref_webhook_db late_2 ''a'' = Some (claim_row late_now (demo_entry ''a'' 3))"
  "distinct (map wo_ID (rr_outbox late_2))"
  by code_simp+

lemma deliver_claimed: "deliver V evt (claim_row t e) s = deliver V evt e s"
  by (simp add: deliver_def claim_row_def)

lemma late_trace:
  "\<exists>p q e e'. (pool_step moody_worker_env demo_dec)\<^sup>*\<^sup>* (pool_start demo_outbox) p \<and>
     entry_of ref_webhook_db (po_db p) ''a'' = Some e \<and> wo_Status e = OutboxStatusCompleted \<and>
     (pool_step moody_worker_env demo_dec)\<^sup>*\<^sup>* p q \<and>
     entry_of ref_webhook_db (po_db q) ''a'' = Some e' \<and> wo_Status e' = OutboxStatusPending"
proof -
  let ?V = moody_worker_env and ?D = ref_webhook_db and ?e = "demo_entry ''a'' 3"
  let ?step = "pool_step ?V demo_dec" and ?e2 = "claim_row 7 ?e"
  have V: "we_db ?V = ?D" "we_unmarshal ?V x = Inr ok_event" for x by (simp_all add: moody_worker_env_def)
  have i: "wo_ID ?e = ''a''" "wo_ID ?e2 = ''a''" by (simp_all add: demo_entry_def claim_row_def)
  note L = ref_webhook_laws and R = ref_outbox_reliable
  obtain s1 s2 where del: "deliver ?V ok_event ?e (moody_sim False) = (Returns (moody_result False), s1)"
    "deliver ?V ok_event ?e2 (moody_sim True) = (Returns (moody_result True), s2)"
    using moody_deliver(1) [of True] moody_deliver(1) [of False] by (auto simp: deliver_claimed)
  obtain q3 d3 where l3: "CreateDeliveryLog ?D 9 (delivery_log ''l1'' ?e2 (moody_result True)) late_2 = (q3, d3)" by fastforce
  obtain q4 d4 where m4: "MarkOutboxCompleted ?D 10 ''a'' d3 = (q4, d4)" by fastforce
  obtain q5 d5 where l5: "CreateDeliveryLog ?D 11 (delivery_log ''l2'' ?e (moody_result False)) d4 = (q5, d5)" by fastforce
  have r3: "rr_outbox d3 = rr_outbox late_2" using CreateDeliveryLog_rows(1) [OF L] l3 by (metis ref_rows_simps(3) snd_conv)
  then have e3: "entry_of ?D d3 ''a'' = Some (claim_row late_now ?e)" using late_claims(3) by (simp add: entry_of_def)
  let ?f = "\<lambda>e. e\<lparr>wo_Status := OutboxStatusCompleted, wo_UpdatedAt := 10\<rparr>"
  note u4 = m4 [unfolded MarkOutboxCompleted_def]
  have "q4 = Inr ()" using update_entry_reliable [OF R] u4 by (metis fst_conv)
  with update_entry_of(1) [OF L u4, of "''a''"] e3 i have e4: "entry_of ?D d4 ''a'' = Some (?f (claim_row late_now ?e))" by simp
  have ids4: "distinct (map wo_ID (rr_outbox d4))" using update_entry_ids [OF L u4] r3 late_claims(4) by simp
  have r5: "rr_outbox d5 = rr_outbox d4" using CreateDeliveryLog_rows(1) [OF L] l5 by (metis ref_rows_simps(3) snd_conv)
  then have e5: "entry_of ?D d5 ''a'' = Some (?f (claim_row late_now ?e))" using e4 by (simp add: entry_of_def)
  obtain es where find: "tb_find (wd_outbox ?D) (\<lambda>x. wo_ID x = ''a'') None (Some (1, 0)) d5 = Inr es"
    using R unfolding outbox_reliable_def is_ok_iff by metis
  have "distinct (map wo_ID (tb_rows (wd_outbox ?D) d5))" using ids4 r5 by simp
  from find_entry [OF L find this] e5 have es: "es = [?f (claim_row late_now ?e)]" by simp
  let ?row = "?f (claim_row late_now ?e)"
  obtain q6 d6 where m6: "failed_update ?D (\<lambda>_. 12) ?row ''a'' (dr_Error (moody_result False)) d5 = (q6, d6)" by fastforce
  have "q6 = Inr ()" using update_entry_reliable [OF R] m6 unfolding failed_update_row by (metis fst_conv)
  with failed_update_entry_of [OF L m6, of "''a''"] e5 i
  have e6: "entry_of ?D d6 ''a'' = Some (failed_row (\<lambda>_. 12) ?row (dr_Error (moody_result False)) ?row)" by simp
  have pend: "wo_Status (failed_row (\<lambda>_. 12) ?row (dr_Error (moody_result False)) ?row) = OutboxStatusPending"
    by (simp add: claim_row_def demo_entry_def in_int64_def)
  define p1 :: "(bool, ref_rows) pool" where "p1 = enter 0 (Claimed ?e) late_1 (pool_start demo_outbox)"
  define p2 where "p2 = enter 1 (Claimed ?e2) late_2 p1"
  define p3 where "p3 = enter 1 (Sent ?e2 (moody_result True)) (po_db p2)
    (p2\<lparr>po_delivered := po_delivered p2 @
      [\<lparr>dl_entry = ?e2, dl_result = moody_result True, dl_before = moody_sim True, dl_after = s2\<rparr>]\<rparr>)"
  define p4 where "p4 = enter 1 (Logged ?e2 (moody_result True)) d3 p3"
  define p5 where "p5 = enter 1 Idle d4 p4"
  define p6 where "p6 = enter 0 (Sent ?e (moody_result False)) (po_db p5)
    (p5\<lparr>po_delivered := po_delivered p5 @
      [\<lparr>dl_entry = ?e, dl_result = moody_result False, dl_before = moody_sim False, dl_after = s1\<rparr>]\<rparr>)"
  define p7 where "p7 = enter 0 (Logged ?e (moody_result False)) d5 p6"
  define p8 where "p8 = enter 0 (ReadBack ?row ''a'' (dr_Error (moody_result False))) d5 p7"
  define p9 where "p9 = enter 0 Idle d6 p8"
  note ps = p1_def p2_def p3_def p4_def p5_def p6_def p7_def p8_def p9_def
  have db: "po_db p1 = late_1" "po_db p2 = late_2" "po_db p3 = late_2" "po_db p4 = d3" "po_db p5 = d4"
    "po_db p6 = d4" "po_db p7 = d5" "po_db p8 = d5" "po_db p9 = d6" by (simp_all add: ps enter_def)
  have ph: "po_phase p1 1 = Idle" "po_phase p2 1 = Claimed ?e2" "po_phase p3 1 = Sent ?e2 (moody_result True)"
    "po_phase p4 1 = Logged ?e2 (moody_result True)" "po_phase p5 0 = Claimed ?e" "po_phase p6 0 = Sent ?e (moody_result False)"
    "po_phase p7 0 = Logged ?e (moody_result False)" "po_phase p8 0 = ReadBack ?row ''a'' (dr_Error (moody_result False))"
    by (simp_all add: ps enter_def pool_start_def)
  have st: "CreateDeliveryLog (we_db ?V) 9 (delivery_log ''l1'' ?e2 (moody_result True)) (po_db p3) = (q3, d3)"
    "MarkOutboxCompleted (we_db ?V) 10 (wo_ID ?e2) (po_db p4) = (q4, d4)"
    "CreateDeliveryLog (we_db ?V) 11 (delivery_log ''l2'' ?e (moody_result False)) (po_db p6) = (q5, d5)"
    "failed_update (we_db ?V) (\<lambda>_. 12) ?row ''a'' (dr_Error (moody_result False)) (po_db p8) = (q6, d6)"
    by (simp_all only: V db i l3 m4 l5 m6)
  have "?step\<^sup>*\<^sup>* (pool_start demo_outbox) p1"
    unfolding p1_def
    by (rule r_into_rtranclp, rule pool_step.claim [where locked = "\<lambda>_. False" and now = 7 and es = "[]"]) (simp_all add: pool_start_def V late_claims(1))
  also have "?step\<^sup>*\<^sup>* p1 p2" unfolding p2_def 
    by (rule r_into_rtranclp, rule pool_step.claim [where locked = "\<lambda>_. False" and now = late_now and es = "[]", OF ph(1)]) (simp add: V db late_claims(2))
  also have "?step\<^sup>*\<^sup>* p2 p3" unfolding p3_def by (rule r_into_rtranclp, rule pool_step.delivered [OF ph(2) V(2) del(2)])
  also have "?step\<^sup>*\<^sup>* p3 p4" unfolding p4_def by (rule r_into_rtranclp, rule pool_step.logged [OF ph(3) st(1)])
  also have "?step\<^sup>*\<^sup>* p4 p5" unfolding p5_def by (rule r_into_rtranclp, rule pool_step.completed [OF ph(4) _ st(2)]) (simp add: moody_deliver(2))
  finally have A: "?step\<^sup>*\<^sup>* (pool_start demo_outbox) p5" .
  have "?step\<^sup>*\<^sup>* p5 p6" unfolding p6_def by (rule r_into_rtranclp, rule pool_step.delivered [OF ph(5) V(2) del(1)])
  also have "?step\<^sup>*\<^sup>* p6 p7" unfolding p7_def by (rule r_into_rtranclp, rule pool_step.logged [OF ph(6) st(3)])
  also have "?step\<^sup>*\<^sup>* p7 p8" unfolding p8_def
    using pool_step.read_back [OF ph(7), of ?V ?row "[]" demo_dec] moody_deliver(2) find es
    by (intro r_into_rtranclp) (simp add: V db i)
  also have "?step\<^sup>*\<^sup>* p8 p9" unfolding p9_def by (rule r_into_rtranclp, rule pool_step.write_failed [OF ph(8) st(4)])
  finally have B: "?step\<^sup>*\<^sup>* p5 p9" .
  from A B e4 e6 pend db show ?thesis by fastforce
qed


text \<open>
  A late failure reopens a completed entry. A worker whose delivery outlasts the five minutes of
  its lease loses the entry to a second worker; when the second one has delivered and completed it
  and the first one then fails, the unconditional update makes the completed entry pending again, to
  be delivered once more.
\<close>

theorem late_failure_reopens_completed_entry:
  "\<exists>p q e e'. (pool_step moody_worker_env demo_dec)\<^sup>*\<^sup>* (pool_start demo_outbox) p \<and>
     entry_of ref_webhook_db (po_db p) ''a'' = Some e \<and> wo_Status e = OutboxStatusCompleted \<and>
     (pool_step moody_worker_env demo_dec)\<^sup>*\<^sup>* p q \<and>
     entry_of ref_webhook_db (po_db q) ''a'' = Some e' \<and> wo_Status e' = OutboxStatusPending"
  by (rule late_trace)


end
