(* ===== verification/EventBus.thy ===== *)
theory EventBus
  imports Swiftbus WebhookPool
begin

text \<open>
  \<^verbatim>\<open>core/internal/event/bus.go\<close>, \<^verbatim>\<open>publisher.go\<close> and \<^verbatim>\<open>util/tx/tx.go\<close>: the event bus on top of the
  message bus, and the transactional bus that writes to the outbox when the context carries a
  transaction. The JSON codec is a parameter: \<open>enc\<close> is \<^verbatim>\<open>json.Marshal\<close> of an event, \<open>dec_event\<close> its
  \<^verbatim>\<open>json.Unmarshal\<close>. The locale \<open>outbox_writer\<close> is the contract of the interface \<^verbatim>\<open>OutboxWriter\<close>,
  interpreted on the webhook repository.
\<close>

section \<open>\<^verbatim>\<open>EventBus\<close>\<close>

text \<open>The payload of a message is an interface value.\<close>

datatype payload = EventPayload event | StringPayload string | OtherPayload

datatype event_error = MarshalFailed string | BusFailed bus_error

definition decodePayload :: "(string \<Rightarrow> event option) \<Rightarrow> payload \<Rightarrow> event option" where
  "decodePayload dec_event p = (case p of
      EventPayload evt \<Rightarrow> Some evt
    | StringPayload v \<Rightarrow> dec_event v
    | OtherPayload \<Rightarrow> None)"

definition NewEventBus :: "((payload, 's) bus \<Rightarrow> (payload, 's) bus) list \<Rightarrow> 's \<Rightarrow> (payload, 's) bus" where
  "NewEventBus opts memory_store = fold (\<lambda>opt b. opt b) opts (NewBus memory_store)"

definition WithStore :: "'s \<Rightarrow> (payload, 's) bus \<Rightarrow> (payload, 's) bus" where
  "WithStore st b = NewBus st"

text \<open>A subscription, and what its handler does with a message.\<close>

definition SubscribeEvent ::
    "(payload, 's) store_ops \<Rightarrow> EventType \<Rightarrow> (payload, 's) bus \<Rightarrow> (bus_error + nat) \<times> (payload, 's) bus" where
  "SubscribeEvent S eventType b = Bus_Subscribe S eventType b"

definition event_handler ::
    "(string \<Rightarrow> event option) \<Rightarrow> (event \<Rightarrow> 'w \<Rightarrow> 'w) \<Rightarrow> payload message \<Rightarrow> 'w \<Rightarrow> 'w" where
  "event_handler dec_event handler msg w =
     (case decodePayload dec_event (msg_Payload msg) of
        None \<Rightarrow> w
      | Some evt \<Rightarrow> handler evt w)"

definition event_message :: "timestamp \<Rightarrow> event \<Rightarrow> string \<Rightarrow> payload message" where
  "event_message now evt payload =
     (NewMessage now (evt_Type evt) (StringPayload payload))
       \<lparr>msg_ID := evt_ID evt, msg_Timestamp := evt_Timestamp evt\<rparr>"

definition PublishEvent ::
    "(event \<Rightarrow> string + string) \<Rightarrow> (payload, 's) store_ops \<Rightarrow> (chan \<Rightarrow> bool) \<Rightarrow> timestamp \<Rightarrow> event \<Rightarrow>
     (payload, 's) bus \<Rightarrow> (payload, 's) bus option" where
  "PublishEvent enc S timeout now evt b =
     (case enc evt of
        Inl err \<Rightarrow> Some b
      | Inr payload \<Rightarrow> map_option snd (Bus_Publish S timeout (event_message now evt payload) b))"

definition PublishEventSync ::
    "(event \<Rightarrow> string + string) \<Rightarrow> (payload, 's) store_ops \<Rightarrow> (chan \<Rightarrow> bool) \<Rightarrow> timestamp \<Rightarrow> event \<Rightarrow>
     (payload, 's) bus \<Rightarrow> ((event_error + unit) \<times> (payload, 's) bus) option" where
  "PublishEventSync enc S timeout now evt b =
     (case enc evt of
        Inl err \<Rightarrow> Some (Inl (MarshalFailed err), b)
      | Inr payload \<Rightarrow>
          (case Bus_PublishSync S timeout (event_message now evt payload) b of
             None \<Rightarrow> None
           | Some (Inl err, b) \<Rightarrow> Some (Inl (BusFailed err), b)
           | Some (Inr u, b) \<Rightarrow> Some (Inr u, b)))"

section \<open>Transactions in the context\<close>

text \<open>
  A context as far as this package looks at it: \<open>None\<close> is a nil context, and the value under \<^verbatim>\<open>txKey\<close>
  is a database handle. Deriving a context from nil panics.
\<close>

record 'h tx_context =
  cx_tx :: "'h option"

definition WithTx :: "'h tx_context option \<Rightarrow> 'h option \<Rightarrow> 'h tx_context option run" where
  "WithTx parent tx = (case tx of
      None \<Rightarrow> Returns parent
    | Some h \<Rightarrow> (case parent of
        None \<Rightarrow> Panics ''cannot create context from nil parent''
      | Some ctx \<Rightarrow> Returns (Some (ctx\<lparr>cx_tx := Some h\<rparr>))))"

definition TxFromContext :: "'h tx_context option \<Rightarrow> 'h option" where
  "TxFromContext ctx = (case ctx of None \<Rightarrow> None | Some c \<Rightarrow> cx_tx c)"

definition tx_DB :: "'h tx_context option \<Rightarrow> 'h \<Rightarrow> 'h" where
  "tx_DB ctx db = (case TxFromContext ctx of Some h \<Rightarrow> h | None \<Rightarrow> db)"

lemma TxFromContext_WithTx:
  "WithTx parent tx = Returns ctx \<Longrightarrow> TxFromContext ctx = (case tx of Some h \<Rightarrow> Some h | None \<Rightarrow> TxFromContext parent)"
  by (auto simp: WithTx_def TxFromContext_def split: option.splits)

section \<open>\<^verbatim>\<open>TransactionalBus\<close>\<close>

text \<open>The writer of the interface works on a handle \<open>'h\<close> and the database state \<open>'d\<close>.\<close>

type_synonym ('h, 'd) outbox_write =
  "'h \<Rightarrow> EventType \<Rightarrow> string \<Rightarrow> string \<Rightarrow> string \<Rightarrow> 'd \<Rightarrow> (repo_error + unit) \<times> 'd"

datatype publish_error = OutboxMarshal string | OutboxWrite repo_error | SyncFailed event_error

fun outbox_result :: "(repo_error + unit) \<times> 'd \<Rightarrow> (publish_error + unit) \<times> 'd" where
  "outbox_result (Inl err, d) = (Inl (OutboxWrite err), d)"
| "outbox_result (Inr u, d) = (Inr u, d)"

definition write_event ::
    "(event \<Rightarrow> string + string) \<Rightarrow> ('h, 'd) outbox_write \<Rightarrow> 'h \<Rightarrow> event \<Rightarrow> 'd \<Rightarrow> (publish_error + unit) \<times> 'd" where
  "write_event enc W txn evt d =
     (case enc evt of
        Inl err \<Rightarrow> (Inl (OutboxMarshal err), d)
      | Inr payload \<Rightarrow> outbox_result (W txn (evt_Type evt) (evt_ID evt) (evt_Subject evt) payload d))"

definition Tx_PublishEvent ::
    "(event \<Rightarrow> string + string) \<Rightarrow> (payload, 's) store_ops \<Rightarrow> ('h, 'd) outbox_write \<Rightarrow> (chan \<Rightarrow> bool) \<Rightarrow>
     timestamp \<Rightarrow> 'h tx_context option \<Rightarrow> event \<Rightarrow> (payload, 's) bus \<times> 'd \<Rightarrow>
     ((publish_error + unit) \<times> (payload, 's) bus \<times> 'd) option" where
  "Tx_PublishEvent enc S W timeout now ctx evt bd = (case bd of (b, d) \<Rightarrow>
     (case TxFromContext ctx of
        Some txn \<Rightarrow> (case write_event enc W txn evt d of (r, d) \<Rightarrow> Some (r, b, d))
      | None \<Rightarrow> map_option (\<lambda>b. (Inr (), b, d)) (PublishEvent enc S timeout now evt b)))"

definition Tx_PublishEventSync ::
    "(event \<Rightarrow> string + string) \<Rightarrow> (payload, 's) store_ops \<Rightarrow> ('h, 'd) outbox_write \<Rightarrow> (chan \<Rightarrow> bool) \<Rightarrow>
     timestamp \<Rightarrow> 'h tx_context option \<Rightarrow> event \<Rightarrow> (payload, 's) bus \<times> 'd \<Rightarrow>
     ((publish_error + unit) \<times> (payload, 's) bus \<times> 'd) option" where
  "Tx_PublishEventSync enc S W timeout now ctx evt bd = (case bd of (b, d) \<Rightarrow>
     (case TxFromContext ctx of
        Some txn \<Rightarrow> (case write_event enc W txn evt d of (r, d) \<Rightarrow> Some (r, b, d))
      | None \<Rightarrow> (case PublishEventSync enc S timeout now evt b of
            None \<Rightarrow> None
          | Some (Inl err, b) \<Rightarrow> Some (Inl (SyncFailed err), b, d)
          | Some (Inr u, b) \<Rightarrow> Some (Inr u, b, d))))"

section \<open>The contract of \<^verbatim>\<open>OutboxWriter\<close>\<close>

text \<open>
  \<open>ok\<close> says that a handle is one the laws hold for, \<open>written\<close> which subscribers have an event in the
  outbox, \<open>subs\<close> who subscribes to a type.
\<close>

locale outbox_writer =
  fixes W :: "('h, 'd) outbox_write"
    and ok :: "'h \<Rightarrow> bool"
    and written :: "'h \<Rightarrow> 'd \<Rightarrow> (string \<times> string) set"
    and subs :: "'h \<Rightarrow> EventType \<Rightarrow> 'd \<Rightarrow> string set"
  assumes write_ok: "ok h \<Longrightarrow> W h eventType eventID tenantID payload d = (Inr (), d') \<Longrightarrow>
      written h d' = written h d \<union> {eventID} \<times> subs h eventType d \<and> subs h t d' = subs h t d"
    and write_err: "ok h \<Longrightarrow> W h eventType eventID tenantID payload d = (Inl err, d') \<Longrightarrow>
      written h d' = written h d \<and> subs h t d' = subs h t d"

context outbox_writer begin

text \<open>Publishing in a transaction writes the outbox, of that transaction, and nothing else.\<close>

lemma publish_in_tx:
  assumes "ok h" "TxFromContext ctx = Some h"
    "Tx_PublishEvent enc S W timeout now ctx evt (b, d) = Some (r, b', d')"
  shows "b' = b \<and> subs h t d' = subs h t d \<and>
    written h d' = (if r = Inr () then written h d \<union> {evt_ID evt} \<times> subs h (evt_Type evt) d else written h d)"
proof (cases "enc evt")
  case (Inl err)
  with assms show ?thesis by (simp add: Tx_PublishEvent_def write_event_def) auto
next
  case (Inr payload)
  obtain q d1 where w: "W h (evt_Type evt) (evt_ID evt) (evt_Subject evt) payload d = (q, d1)" by fastforce
  show ?thesis
  proof (cases q)
    case (Inl err)
    with w Inr assms(2,3) \<open>enc evt = Inr payload\<close> have "b' = b" "d' = d1" "r = Inl (OutboxWrite err)"
      by (auto simp: Tx_PublishEvent_def write_event_def)
    with write_err [OF assms(1)] w Inl show ?thesis by simp
  next
    case (Inr u)
    with w assms(2,3) \<open>enc evt = Inr payload\<close> have "b' = b" "d' = d1" "r = Inr ()"
      by (auto simp: Tx_PublishEvent_def write_event_def)
    with write_ok [OF assms(1)] w Inr show ?thesis by simp
  qed
qed

lemma publish_sync_in_tx:
  "TxFromContext ctx = Some h \<Longrightarrow>
    Tx_PublishEventSync enc S W timeout now ctx evt bd = Tx_PublishEvent enc S W timeout now ctx evt bd"
  by (simp add: Tx_PublishEventSync_def Tx_PublishEvent_def)

lemma publish_twice_in_tx:
  assumes "ok h" "TxFromContext ctx = Some h"
    "Tx_PublishEvent enc S W timeout now ctx evt (b, d) = Some (Inr (), b', d')"
    "Tx_PublishEvent enc S W timeout' now' ctx evt (b', d') = Some (r, b'', d'')"
  shows "b'' = b \<and> written h d'' = written h d'"
  using publish_in_tx [OF assms(1,2,3)] publish_in_tx [OF assms(1,2,4)] by (auto split: if_splits)

end

text \<open>The webhook repository keeps the contract.\<close>

definition outbox_written :: "'d webhook_db \<Rightarrow> 'd \<Rightarrow> (string \<times> string) set" where
  "outbox_written D d = outbox_index ` set (tb_rows (wd_outbox D) d)"

definition outbox_subs :: "(string \<Rightarrow> string list option) \<Rightarrow> 'd webhook_db \<Rightarrow> EventType \<Rightarrow> 'd \<Rightarrow> string set" where
  "outbox_subs dec D eventType d = wc_ID ` subscribed dec D eventType d"

interpretation repo_writer: outbox_writer
  "\<lambda>D. CreateOutboxEntries dec D ids nows" webhook_laws outbox_written "outbox_subs dec" for dec ids nows
proof
  fix D :: "'d webhook_db" and eventType eventID tenantID payload d d' t err
  assume L: "webhook_laws D"
  have subs: "outbox_subs dec D t d' = outbox_subs dec D t d"
    if "CreateOutboxEntries dec D ids nows eventType eventID tenantID payload d = (r, d')" for r
    using CreateOutboxEntries_rows(3) [OF L that] by (simp add: outbox_subs_def subscribed_def)
  show "outbox_written D d' = outbox_written D d \<union> {eventID} \<times> outbox_subs dec D eventType d \<and>
      outbox_subs dec D t d' = outbox_subs dec D t d"
    if c: "CreateOutboxEntries dec D ids nows eventType eventID tenantID payload d = (Inr (), d')"
    using CreateOutboxEntries_index [OF L c] subs [OF c] by (auto simp: outbox_written_def outbox_subs_def)
  show "outbox_written D d' = outbox_written D d \<and> outbox_subs dec D t d' = outbox_subs dec D t d"
    if c: "CreateOutboxEntries dec D ids nows eventType eventID tenantID payload d = (Inl err, d')"
    using CreateOutboxEntries_rows(1) [OF L c] subs [OF c] by (simp add: outbox_written_def)
qed

end
