(* ===== verification/TxBus.thy ===== *)
theory TxBus
  imports EventBus
begin

text \<open>
  The transactional bus on a database with transactions: handles, what each of them sees, begin,
  commit and rollback, and any number of transactions that run statements and publish events on
  their handles beside the plain one (\<open>tx_step\<close>); and the way of a published event from the commit
  through the workers of \<open>WebhookPool\<close> to the endpoints.
\<close>

section \<open>Handles\<close>

text \<open>
  A \<^verbatim>\<open>*gorm.DB\<close> is the plain handle, whose statements commit by themselves, or a transaction. A
  transaction keeps the state it began with and its own state.
\<close>

datatype handle = Plain | Tx nat

record 'd tx_store =
  ts_committed :: 'd
  ts_open :: "nat \<Rightarrow> ('d \<times> 'd) option"

definition handle_view :: "handle \<Rightarrow> 'd tx_store \<Rightarrow> 'd option" where
  "handle_view h s = (case h of Plain \<Rightarrow> Some (ts_committed s) | Tx n \<Rightarrow> map_option snd (ts_open s n))"

text \<open>A statement on a handle; \<open>closed\<close> is the result on a transaction that has ended.\<close>

definition on_handle :: "'r \<Rightarrow> handle \<Rightarrow> ('d \<Rightarrow> 'r \<times> 'd) \<Rightarrow> 'd tx_store \<Rightarrow> 'r \<times> 'd tx_store" where
  "on_handle closed h f s = (case h of
      Plain \<Rightarrow> (case f (ts_committed s) of (r, d) \<Rightarrow> (r, s\<lparr>ts_committed := d\<rparr>))
    | Tx n \<Rightarrow> (case ts_open s n of
          None \<Rightarrow> (closed, s)
        | Some (d0, d) \<Rightarrow> (case f d of (r, d') \<Rightarrow> (r, s\<lparr>ts_open := (ts_open s)(n \<mapsto> (d0, d'))\<rparr>))))"

text \<open>\<^verbatim>\<open>CreateOutboxEntries\<close> of the repository runs everything on the handle it is given.\<close>

definition handle_writer ::
    "(string \<Rightarrow> string list option) \<Rightarrow> 'd webhook_db \<Rightarrow> (nat \<Rightarrow> string) \<Rightarrow> (nat \<Rightarrow> timestamp) \<Rightarrow>
     (handle, 'd tx_store) outbox_write" where
  "handle_writer dec D ids nows h eventType eventID tenantID payload s =
     on_handle (Inl (DbError ''sql: transaction has already been committed or rolled back'')) h
       (CreateOutboxEntries dec D ids nows eventType eventID tenantID payload) s"

text \<open>
  \<open>cm committed begun own\<close> is the database's commit. It applies the insertions of the transaction to
  what others have committed meanwhile, or fails and changes nothing.
\<close>

definition commit_merges :: "'d webhook_db \<Rightarrow> ('d \<Rightarrow> 'd \<Rightarrow> 'd \<Rightarrow> (string + unit) \<times> 'd) \<Rightarrow> bool" where
  "commit_merges D cm \<longleftrightarrow> (\<forall>c d0 d r d'. cm c d0 d = (r, d') \<longrightarrow>
     (case r of Inl _ \<Rightarrow> d' = c
      | Inr _ \<Rightarrow> outbox_written D d0 \<subseteq> outbox_written D d \<longrightarrow>
          outbox_written D d' = outbox_written D c \<union> (outbox_written D d - outbox_written D d0)))"

definition tx_begin :: "nat \<Rightarrow> 'd tx_store \<Rightarrow> 'd tx_store" where
  "tx_begin n s = s\<lparr>ts_open := (ts_open s)(n \<mapsto> (ts_committed s, ts_committed s))\<rparr>"

definition tx_end :: "nat \<Rightarrow> 'd \<Rightarrow> 'd tx_store \<Rightarrow> 'd tx_store" where
  "tx_end n d s = s\<lparr>ts_committed := d, ts_open := (ts_open s)(n := None)\<rparr>"

section \<open>Transactions beside each other\<close>

text \<open>
  The log holds, per handle, the index entries (event and subscriber) of the events that were
  published on it with success; \<open>tw_direct\<close> the events published without a transaction.
\<close>

record ('s, 'd) tx_world =
  tw_bus :: "(payload, 's) bus"
  tw_store :: "'d tx_store"
  tw_log :: "(handle \<times> (string \<times> string) set) list"
  tw_used :: "nat set"
  tw_committed :: "nat set"
  tw_direct :: "((chan \<Rightarrow> bool) \<times> timestamp \<times> event) list"

definition published_on ::
    "(string \<Rightarrow> string list option) \<Rightarrow> 'd webhook_db \<Rightarrow> handle \<Rightarrow> event \<Rightarrow> 'd tx_store \<Rightarrow> (string \<times> string) set" where
  "published_on dec D h evt s = (case handle_view h s of
      None \<Rightarrow> {} | Some d \<Rightarrow> {evt_ID evt} \<times> outbox_subs dec D (evt_Type evt) d)"

inductive tx_step ::
    "(event \<Rightarrow> string + string) \<Rightarrow> (payload, 's) store_ops \<Rightarrow> (string \<Rightarrow> string list option) \<Rightarrow> 'd webhook_db \<Rightarrow>
     ('d \<Rightarrow> 'd \<Rightarrow> 'd \<Rightarrow> (string + unit) \<times> 'd) \<Rightarrow> ('s, 'd) tx_world \<Rightarrow> ('s, 'd) tx_world \<Rightarrow> bool"
  for enc S dec D cm where
  begins: "n \<notin> tw_used w \<Longrightarrow> tx_step enc S dec D cm w
    (w\<lparr>tw_store := tx_begin n (tw_store w), tw_used := insert n (tw_used w)\<rparr>)"
| publishes: "TxFromContext ctx = Some h \<Longrightarrow>
    Tx_PublishEvent enc S (handle_writer dec D ids nows) timeout now ctx evt (tw_bus w, tw_store w) = Some (r, b, s) \<Longrightarrow>
    tx_step enc S dec D cm w (w\<lparr>tw_bus := b, tw_store := s,
      tw_log := tw_log w @ [(h, if r = Inr () then published_on dec D h evt (tw_store w) else {})]\<rparr>)"
| publishes_directly: "TxFromContext ctx = None \<Longrightarrow>
    Tx_PublishEvent enc S (handle_writer dec D ids nows) timeout now ctx evt (tw_bus w, tw_store w) = Some (r, b, s) \<Longrightarrow>
    tx_step enc S dec D cm w (w\<lparr>tw_bus := b, tw_store := s, tw_direct := tw_direct w @ [(timeout, now, evt)]\<rparr>)"
| statement: "(\<And>d. outbox_written D (f d) = outbox_written D d) \<Longrightarrow>
    tx_step enc S dec D cm w (w\<lparr>tw_store := snd (on_handle () h (\<lambda>d. ((), f d)) (tw_store w))\<rparr>)"
| commits: "ts_open (tw_store w) n = Some (d0, d) \<Longrightarrow> cm (ts_committed (tw_store w)) d0 d = (r, d') \<Longrightarrow>
    tx_step enc S dec D cm w (w\<lparr>tw_store := tx_end n d' (tw_store w),
      tw_committed := (if r = Inr () then insert n (tw_committed w) else tw_committed w)\<rparr>)"
| rolls_back: "tx_step enc S dec D cm w
    (w\<lparr>tw_store := tx_end n (ts_committed (tw_store w)) (tw_store w)\<rparr>)"

definition tx_start :: "(payload, 's) bus \<Rightarrow> 'd \<Rightarrow> ('s, 'd) tx_world" where
  "tx_start b d = \<lparr>tw_bus = b, tw_store = \<lparr>ts_committed = d, ts_open = (\<lambda>_. None)\<rparr>, tw_log = [],
     tw_used = {}, tw_committed = {}, tw_direct = []\<rparr>"

subsection \<open>What a publication does to a handle\<close>

definition handle_written :: "'d webhook_db \<Rightarrow> handle \<Rightarrow> 'd tx_store \<Rightarrow> (string \<times> string) set" where
  "handle_written D h s = (case handle_view h s of None \<Rightarrow> {} | Some d \<Rightarrow> outbox_written D d)"

definition handle_subs ::
    "(string \<Rightarrow> string list option) \<Rightarrow> 'd webhook_db \<Rightarrow> handle \<Rightarrow> EventType \<Rightarrow> 'd tx_store \<Rightarrow> string set" where
  "handle_subs dec D h t s = (case handle_view h s of None \<Rightarrow> {} | Some d \<Rightarrow> outbox_subs dec D t d)"

lemma handle_view_simps [simp]:
  "handle_view Plain s = Some (ts_committed s)" "handle_view (Tx n) s = map_option snd (ts_open s n)"
  by (simp_all add: handle_view_def)

lemma on_handle_cases:
  assumes "on_handle closed h f s = (r, s')"
  obtains (none) "handle_view h s = None" "r = closed" "s' = s"
  | (some) d d' where "handle_view h s = Some d" "f d = (r, d')" "handle_view h s' = Some d'"
      "\<And>k. k \<noteq> h \<Longrightarrow> handle_view k s' = handle_view k s"
      "\<And>n. map_option fst (ts_open s' n) = map_option fst (ts_open s n)"
      "\<And>n. ts_open s' n = None \<longleftrightarrow> ts_open s n = None"
proof (cases h)
  case Plain
  obtain d' where f: "f (ts_committed s) = (r, d')" and s': "s' = s\<lparr>ts_committed := d'\<rparr>"
    using assms Plain by (auto simp: on_handle_def split: prod.splits)
  have other: "handle_view k s' = handle_view k s" if "k \<noteq> h" for k
    using that by (cases k) (simp_all add: s' Plain)
  have view: "handle_view h s = Some (ts_committed s)" "handle_view h s' = Some d'"
    and opened: "ts_open s' = ts_open s" by (simp_all add: Plain s')
  show thesis by (rule some [OF view(1) f view(2) other]) (simp_all add: opened)
next
  case (Tx n)
  show thesis
  proof (cases "ts_open s n")
    case None
    then have "r = closed" "s' = s" using assms by (simp_all add: on_handle_def Tx)
    with None show thesis by (intro none) (simp_all add: Tx)
  next
    case (Some x)
    obtain d0 d where x: "x = (d0, d)" by (cases x)
    obtain d' where f: "f d = (r, d')" and s': "s' = s\<lparr>ts_open := (ts_open s)(n \<mapsto> (d0, d'))\<rparr>"
      using assms Tx Some x by (auto simp: on_handle_def split: prod.splits)
    have other: "handle_view k s' = handle_view k s" if "k \<noteq> h" for k
      using that by (cases k) (simp_all add: s' Tx)
    have view: "handle_view h s = Some d" "handle_view h s' = Some d'" by (simp_all add: Tx s' Some x)
    show thesis by (rule some [OF view(1) f view(2) other]) (simp_all add: s' Some x)
  qed
qed

text \<open>The repository on a handle keeps the contract of \<^verbatim>\<open>OutboxWriter\<close>.\<close>

interpretation handle_bus: outbox_writer
  "handle_writer dec D ids nows" "\<lambda>h. webhook_laws D" "handle_written D" "handle_subs dec D" for dec D ids nows
proof
  fix h eventType eventID tenantID payload t err and s s' :: "'a tx_store"
  assume L: "webhook_laws D"
  show "handle_written D h s' = handle_written D h s \<union> {eventID} \<times> handle_subs dec D h eventType s \<and>
      handle_subs dec D h t s' = handle_subs dec D h t s"
    if w: "handle_writer dec D ids nows h eventType eventID tenantID payload s = (Inr (), s')"
    using w [unfolded handle_writer_def]
    by (cases rule: on_handle_cases)
      (use repo_writer.write_ok [OF L] in \<open>simp_all add: handle_written_def handle_subs_def\<close>)
  show "handle_written D h s' = handle_written D h s \<and> handle_subs dec D h t s' = handle_subs dec D h t s"
    if w: "handle_writer dec D ids nows h eventType eventID tenantID payload s = (Inl err, s')"
    using w [unfolded handle_writer_def]
    by (cases rule: on_handle_cases)
      (use repo_writer.write_err [OF L] in \<open>simp_all add: handle_written_def handle_subs_def\<close>)
qed

text \<open>Only the handle of the context is touched.\<close>

lemma publish_frame:
  assumes "TxFromContext ctx = Some h"
    "Tx_PublishEvent enc S (handle_writer dec D ids nows) timeout now ctx evt (b, s) = Some (r, b', s')"
  shows "b' = b" "k \<noteq> h \<Longrightarrow> handle_view k s' = handle_view k s"
    "map_option fst (ts_open s' n) = map_option fst (ts_open s n)"
proof -
  have "b' = b \<and> (k \<noteq> h \<longrightarrow> handle_view k s' = handle_view k s) \<and>
      map_option fst (ts_open s' n) = map_option fst (ts_open s n)"
  proof (cases "enc evt")
    case (Inl err)
    with assms show ?thesis by (auto simp: Tx_PublishEvent_def write_event_def)
  next
    case (Inr payload)
    obtain q s1 where w: "handle_writer dec D ids nows h (evt_Type evt) (evt_ID evt) (evt_Subject evt) payload s = (q, s1)"
      by fastforce
    have s1: "b' = b" "s' = s1"
      using assms w Inr by (cases q; auto simp: Tx_PublishEvent_def write_event_def)+
    from w [unfolded handle_writer_def] show ?thesis
      by (cases rule: on_handle_cases) (simp_all add: s1)
  qed
  then show "b' = b" "k \<noteq> h \<Longrightarrow> handle_view k s' = handle_view k s"
    "map_option fst (ts_open s' n) = map_option fst (ts_open s n)" by blast+
qed

lemma publish_written:
  assumes "webhook_laws D" "TxFromContext ctx = Some h"
    "Tx_PublishEvent enc S (handle_writer dec D ids nows) timeout now ctx evt (b, s) = Some (r, b', s')"
  shows "handle_written D h s' =
    handle_written D h s \<union> (if r = Inr () then published_on dec D h evt s else {})"
  using handle_bus.publish_in_tx [OF assms]
  by (cases "handle_view h s") (simp_all add: published_on_def handle_subs_def handle_written_def)

subsection \<open>The invariant\<close>

definition logged_on :: "(handle \<times> (string \<times> string) set) list \<Rightarrow> handle set \<Rightarrow> (string \<times> string) set" where
  "logged_on log H = \<Union> {P. \<exists>h\<in>H. (h, P) \<in> set log}"

lemma logged_on_simps [simp]:
  "logged_on [] H = {}"
  "logged_on (log @ [(h, P)]) H = logged_on log H \<union> (if h \<in> H then P else {})"
  by (auto simp: logged_on_def)

lemma logged_on_insert: "logged_on log (insert h H) = logged_on log {h} \<union> logged_on log H"
  by (auto simp: logged_on_def)

definition tx_inv :: "'d webhook_db \<Rightarrow> (string \<times> string) set \<Rightarrow> ('s, 'd) tx_world \<Rightarrow> bool" where
  "tx_inv D W0 w \<longleftrightarrow>
     outbox_written D (ts_committed (tw_store w)) = W0 \<union> logged_on (tw_log w) (insert Plain (Tx ` tw_committed w)) \<and>
     tw_committed w \<subseteq> tw_used w \<and>
     (\<forall>n d0 d. ts_open (tw_store w) n = Some (d0, d) \<longrightarrow> n \<in> tw_used w - tw_committed w \<and>
        outbox_written D d0 \<subseteq> outbox_written D (ts_committed (tw_store w)) \<and>
        outbox_written D d = outbox_written D d0 \<union> logged_on (tw_log w) {Tx n}) \<and>
     (\<forall>n. n \<notin> tw_used w \<longrightarrow> logged_on (tw_log w) {Tx n} = {})"

lemma tx_invD:
  assumes "tx_inv D W0 w"
  shows "outbox_written D (ts_committed (tw_store w)) = W0 \<union> logged_on (tw_log w) (insert Plain (Tx ` tw_committed w))"
    "tw_committed w \<subseteq> tw_used w"
    "ts_open (tw_store w) n = Some (d0, d) \<Longrightarrow> n \<in> tw_used w - tw_committed w \<and>
        outbox_written D d0 \<subseteq> outbox_written D (ts_committed (tw_store w)) \<and>
        outbox_written D d = outbox_written D d0 \<union> logged_on (tw_log w) {Tx n}"
    "n \<notin> tw_used w \<Longrightarrow> logged_on (tw_log w) {Tx n} = {}"
  using assms unfolding tx_inv_def by blast+

text \<open>A handle gets \<open>P\<close> more, the log notes it, and no transaction begins or ends.\<close>

lemma tx_inv_write:
  assumes "tx_inv D W0 w" "\<And>k. k \<noteq> h \<Longrightarrow> handle_view k s = handle_view k (tw_store w)"
    "\<And>n. map_option fst (ts_open s n) = map_option fst (ts_open (tw_store w) n)"
    "handle_written D h s = handle_written D h (tw_store w) \<union> P"
    "handle_view h (tw_store w) = None \<Longrightarrow> P = {}"
    "\<And>H. logged_on log H = logged_on (tw_log w) H \<union> (if h \<in> H then P else {})"
  shows "tx_inv D W0 (w\<lparr>tw_store := s, tw_log := log\<rparr>)"
proof -
  note I = tx_invD [OF assms(1)]
  have written: "handle_written D k s = handle_written D k (tw_store w) \<union> (if h = k then P else {})" for k
    using assms(2,4) by (cases "k = h") (auto simp: handle_written_def)
  have closed: "P = {}" if "h = Tx n" "n \<in> tw_committed w \<or> n \<notin> tw_used w" for n
  proof (rule assms(5))
    have "ts_open (tw_store w) n = None" using I(3) [of n] that(2) by (cases "ts_open (tw_store w) n") auto
    then show "handle_view h (tw_store w) = None" by (simp add: that(1))
  qed
  have com: "outbox_written D (ts_committed s) =
      outbox_written D (ts_committed (tw_store w)) \<union> (if h = Plain then P else {})"
    using written [of Plain] by (simp add: handle_written_def)
  have "(if h \<in> insert Plain (Tx ` tw_committed w) then P else {}) = (if h = Plain then P else {})"
    using closed by (cases h) auto
  then have 1: "outbox_written D (ts_committed s) =
      W0 \<union> logged_on log (insert Plain (Tx ` tw_committed w))"
    unfolding com I(1) assms(6) by (simp add: Un_assoc)
  have 2: "n \<in> tw_used w - tw_committed w \<and> outbox_written D d0 \<subseteq> outbox_written D (ts_committed s) \<and>
      outbox_written D d = outbox_written D d0 \<union> logged_on log {Tx n}"
    if o: "ts_open s n = Some (d0, d)" for n d0 d
  proof -
    from o assms(3) [of n] obtain d1 where d1: "ts_open (tw_store w) n = Some (d0, d1)"
      by (cases "ts_open (tw_store w) n") auto
    from written [of "Tx n"] o d1 have "outbox_written D d = outbox_written D d1 \<union> (if h = Tx n then P else {})"
      by (simp add: handle_written_def)
    with I(3) [OF d1] com show ?thesis by (auto simp: assms(6))
  qed
  have 3: "logged_on log {Tx n} = {}" if "n \<notin> tw_used w" for n
    using I(4) [OF that] closed [of n] that by (auto simp: assms(6))
  show ?thesis unfolding tx_inv_def using 1 2 3 I(2) by simp
qed

text \<open>A transaction ends, and the committed state has got its entries or not.\<close>

lemma tx_inv_end:
  assumes "tx_inv D W0 w" "M \<subseteq> {n}" "M \<noteq> {} \<longrightarrow> ts_open (tw_store w) n \<noteq> None"
    "outbox_written D d' = outbox_written D (ts_committed (tw_store w)) \<union> logged_on (tw_log w) (Tx ` M)"
  shows "tx_inv D W0 (w\<lparr>tw_store := tx_end n d' (tw_store w), tw_committed := M \<union> tw_committed w\<rparr>)"
proof -
  note I = tx_invD [OF assms(1)]
  have "n \<in> tw_used w" if "M \<noteq> {}"
    using that assms(3) I(3) [of n] by auto
  then have used: "M \<subseteq> tw_used w" using assms(2) by auto
  have "logged_on L (insert Plain (Tx ` (M \<union> N))) = logged_on L (insert Plain (Tx ` N)) \<union> logged_on L (Tx ` M)"
    for L N by (auto simp: logged_on_def)
  then have 1: "outbox_written D d' = W0 \<union> logged_on (tw_log w) (insert Plain (Tx ` (M \<union> tw_committed w)))"
    unfolding assms(4) I(1) by (simp add: Un_assoc)
  have 2: "k \<in> tw_used w - (M \<union> tw_committed w) \<and> outbox_written D d0 \<subseteq> outbox_written D d' \<and>
      outbox_written D d = outbox_written D d0 \<union> logged_on (tw_log w) {Tx k}"
    if "ts_open (tx_end n d' (tw_store w)) k = Some (d0, d)" for k d0 d
    using that I(3) [of k d0 d] assms(2,4) by (auto simp: tx_end_def split: if_splits)
  show ?thesis
    unfolding tx_inv_def using 1 2 used I(2,4) by (simp add: tx_end_def)
qed

lemma statement_frame:
  assumes "on_handle () h (\<lambda>d. ((), f d)) s = ((), s')" "\<And>d. outbox_written D (f d) = outbox_written D d"
  shows "k \<noteq> h \<Longrightarrow> handle_view k s' = handle_view k s"
    "map_option fst (ts_open s' n) = map_option fst (ts_open s n)"
    "handle_written D h s' = handle_written D h s \<union> {}"
proof -
  have "(k \<noteq> h \<longrightarrow> handle_view k s' = handle_view k s) \<and>
      map_option fst (ts_open s' n) = map_option fst (ts_open s n) \<and> handle_written D h s' = handle_written D h s"
  proof (rule on_handle_cases [OF assms(1)])
    assume "s' = s"
    then show ?thesis by simp
  next
    fix d d'
    assume v: "handle_view h s = Some d" "((), f d) = ((), d')" "handle_view h s' = Some d'"
      and o: "\<And>k. k \<noteq> h \<Longrightarrow> handle_view k s' = handle_view k s"
        "\<And>n. map_option fst (ts_open s' n) = map_option fst (ts_open s n)"
    have "outbox_written D d' = outbox_written D d" using v(2) assms(2) [of d] by simp
    with v(1,3) have "handle_written D h s' = handle_written D h s" by (simp add: handle_written_def)
    with o(1) [of k] o(2) [of n] show ?thesis by blast
  qed
  then show "k \<noteq> h \<Longrightarrow> handle_view k s' = handle_view k s"
    "map_option fst (ts_open s' n) = map_option fst (ts_open s n)"
    "handle_written D h s' = handle_written D h s \<union> {}" by simp_all
qed

lemma tx_inv_same:
  assumes "tx_inv D W0 w" "tw_store w' = tw_store w" "tw_log w' = tw_log w" "tw_used w' = tw_used w"
    "tw_committed w' = tw_committed w"
  shows "tx_inv D W0 w'"
proof -
  have "tx_inv D W0 w' = tx_inv D W0 w" using assms(2-) by (simp only: tx_inv_def)
  with assms(1) show ?thesis by blast
qed

lemma tx_inv_step:
  assumes "tx_step enc S dec D cm w w'" "webhook_laws D" "commit_merges D cm" "tx_inv D W0 w"
  shows "tx_inv D W0 w'"
  using assms(1)
proof cases
  case (begins n)
  note I = tx_invD [OF assms(4)]
  have "logged_on (tw_log w) {Tx n} = {}" "n \<notin> tw_committed w" using I(2,4) begins(2) by auto
  then have "tw_committed w \<subseteq> insert n (tw_used w)"
    "k \<in> insert n (tw_used w) - tw_committed w \<and>
      outbox_written D d0 \<subseteq> outbox_written D (ts_committed (tw_store w)) \<and>
      outbox_written D d = outbox_written D d0 \<union> logged_on (tw_log w) {Tx k}"
    if "ts_open (tx_begin n (tw_store w)) k = Some (d0, d)" for k d0 d
    using that I(2) I(3) [of k d0 d] by (auto simp: tx_begin_def split: if_splits)
  then show ?thesis
    using I(1,2,4) unfolding begins(1) tx_inv_def by (simp add: tx_begin_def subset_insertI2)
next
  case (publishes ctx h ids nows timeout now evt r b s)
  note F = publish_frame [OF publishes(2,3)]
  have "tx_inv D W0 (w\<lparr>tw_store := s,
      tw_log := tw_log w @ [(h, if r = Inr () then published_on dec D h evt (tw_store w) else {})]\<rparr>)"
    by (rule tx_inv_write [OF assms(4) F(2,3) publish_written [OF assms(2) publishes(2,3)]])
      (simp_all add: published_on_def)
  then show ?thesis unfolding publishes(1) by (rule tx_inv_same) simp_all
next
  case (publishes_directly ctx ids nows timeout now evt r b s)
  then have "s = tw_store w" by (auto simp: Tx_PublishEvent_def)
  then show ?thesis unfolding publishes_directly(1) by (intro tx_inv_same [OF assms(4)]) simp_all
next
  case (statement f h)
  obtain s where s: "on_handle () h (\<lambda>d. ((), f d)) (tw_store w) = ((), s)" by (metis old.unit.exhaust prod.exhaust)
  have "tx_inv D W0 (w\<lparr>tw_store := s, tw_log := tw_log w\<rparr>)"
    by (rule tx_inv_write [OF assms(4) statement_frame [OF s statement(2)]]) simp_all
  then show ?thesis unfolding statement(1) s by simp
next
  case (commits n d0 d r d')
  note I = tx_invD(3) [OF assms(4) commits(2)]
  have law: "case r of Inl _ \<Rightarrow> d' = ts_committed (tw_store w)
      | Inr _ \<Rightarrow> outbox_written D d0 \<subseteq> outbox_written D d \<longrightarrow>
          outbox_written D d' = outbox_written D (ts_committed (tw_store w)) \<union> (outbox_written D d - outbox_written D d0)"
    using assms(3) commits(3) unfolding commit_merges_def by blast
  show ?thesis
  proof (cases r)
    case (Inl e)
    with law have "d' = ts_committed (tw_store w)" by simp
    with Inl show ?thesis
      unfolding commits(1) by (intro tx_inv_same [OF tx_inv_end [OF assms(4), of "{}" n d']]) (simp_all add: logged_on_def)
  next
    case (Inr u)
    with law I have "outbox_written D d' =
        outbox_written D (ts_committed (tw_store w)) \<union> logged_on (tw_log w) (Tx ` {n})" by auto
    from tx_inv_end [OF assms(4) _ _ this] commits(2) Inr show ?thesis unfolding commits(1) by simp
  qed
next
  case (rolls_back n)
  show ?thesis
    unfolding rolls_back
    by (rule tx_inv_same [OF tx_inv_end [OF assms(4), of "{}" n "ts_committed (tw_store w)"]]) (simp_all add: logged_on_def)
qed

text \<open>The events published without a transaction, run on the bus one after the other.\<close>

definition direct_run ::
    "(event \<Rightarrow> string + string) \<Rightarrow> (payload, 's) store_ops \<Rightarrow> ((chan \<Rightarrow> bool) \<times> timestamp \<times> event) list \<Rightarrow>
     (payload, 's) bus \<Rightarrow> (payload, 's) bus option" where
  "direct_run enc S xs b =
     fold (\<lambda>(timeout, now, evt) x. Option.bind x (PublishEvent enc S timeout now evt)) xs (Some b)"

lemma direct_run_step:
  assumes "tx_step enc S dec D cm w w'" "direct_run enc S (tw_direct w) b0 = Some (tw_bus w)"
  shows "direct_run enc S (tw_direct w') b0 = Some (tw_bus w')"
  using assms(1)
proof cases
  case (publishes ctx h ids nows timeout now evt r b s)
  with publish_frame(1) [OF publishes(2,3)] assms(2) show ?thesis by simp
next
  case (publishes_directly ctx ids nows timeout now evt r b s)
  then have "PublishEvent enc S timeout now evt (tw_bus w) = Some b" by (auto simp: Tx_PublishEvent_def)
  with assms(2) show ?thesis unfolding publishes_directly(1) by (simp add: direct_run_def)
qed (use assms(2) in simp_all)

section \<open>Properties\<close>

text \<open>
  C21. Transactions, plain statements and publications interleave in any way on a database whose
  commits apply a transaction's insertions or fail. At every moment the committed outbox holds,
  beside what it held at first, exactly the entries of the events published on the plain handle and
  in transactions that have committed: nothing of an open, failed or rolled back one. An
  open transaction sees what it began with and its own publications. Only the events published
  without a transaction in the context have reached the event bus, in their order.
\<close>

theorem transactional_publish_is_atomic:
  assumes "webhook_laws D" "commit_merges D cm" "(tx_step enc S dec D cm)\<^sup>*\<^sup>* (tx_start b d) w"
  shows "outbox_written D (ts_committed (tw_store w)) = outbox_written D d \<union>
      \<Union> {P. \<exists>h. (h, P) \<in> set (tw_log w) \<and> (h = Plain \<or> (\<exists>n\<in>tw_committed w. h = Tx n))} \<and>
    (\<forall>n d0 d'. ts_open (tw_store w) n = Some (d0, d') \<longrightarrow> n \<notin> tw_committed w \<and>
       outbox_written D d' = outbox_written D d0 \<union> \<Union> {P. (Tx n, P) \<in> set (tw_log w)}) \<and>
    direct_run enc S (tw_direct w) b = Some (tw_bus w)"
proof -
  have "tx_inv D (outbox_written D d) w \<and> direct_run enc S (tw_direct w) b = Some (tw_bus w)"
    using assms(3)
  proof (induction rule: rtranclp_induct)
    case base
    show ?case by (simp add: tx_inv_def tx_start_def direct_run_def)
  next
    case (step w1 w2)
    then show ?case using tx_inv_step [OF step(2) assms(1,2)] direct_run_step [OF step(2)] by blast
  qed
  then have I: "tx_inv D (outbox_written D d) w" and dr: "direct_run enc S (tw_direct w) b = Some (tw_bus w)" by blast+
  have "logged_on (tw_log w) (insert Plain (Tx ` tw_committed w)) =
      \<Union> {P. \<exists>h. (h, P) \<in> set (tw_log w) \<and> (h = Plain \<or> (\<exists>n\<in>tw_committed w. h = Tx n))}"
    "logged_on (tw_log w) {Tx n} = \<Union> {P. (Tx n, P) \<in> set (tw_log w)}" for n
    by (auto simp: logged_on_def)
  with tx_invD(1,3) [OF I] dr show ?thesis by auto
qed

definition demo_ctx :: "ref_rows webhook_db tx_context option" where
  "demo_ctx = Some \<lparr>cx_tx = Some ref_webhook_db\<rparr>"

definition demo_bus :: "(payload, payload memory_store) bus" where
  "demo_bus = NewEventBus [] NewMemoryStore"

definition demo_enc :: "event \<Rightarrow> string + string" where
  "demo_enc e = Inr (evt_ID e)"

definition demo_publish where
  "demo_publish = Tx_PublishEvent demo_enc memory_ops (\<lambda>D. CreateOutboxEntries demo_dec D demo_ids (\<lambda>_. 3))
     (\<lambda>_. False) 3 demo_ctx ok_event (demo_bus, demo_rows)"

definition demo_written :: ref_rows where
  "demo_written = snd (CreateOutboxEntries demo_dec ref_webhook_db demo_ids (\<lambda>_. 3) (evt_Type ok_event)
     (evt_ID ok_event) (evt_Subject ok_event) (evt_ID ok_event) demo_rows)"

lemma demo_created:
  "CreateOutboxEntries demo_dec ref_webhook_db demo_ids (\<lambda>_. 3) (evt_Type ok_event) (evt_ID ok_event)
     (evt_Subject ok_event) (evt_ID ok_event) demo_rows = (Inr (), demo_written)"
proof -
  let ?c = "CreateOutboxEntries demo_dec ref_webhook_db demo_ids (\<lambda>_. 3) (evt_Type ok_event) (evt_ID ok_event)
    (evt_Subject ok_event) (evt_ID ok_event) demo_rows"
  have "fst ?c = Inr ()" by code_simp
  then show ?thesis unfolding demo_written_def by (metis prod.collapse)
qed

lemma demo_publish_ok: "demo_publish = Some (Inr (), demo_bus, demo_written)"
  by (simp add: demo_publish_def Tx_PublishEvent_def demo_ctx_def TxFromContext_def write_event_def
      demo_enc_def demo_created)

text \<open>Commits of the reference database: a transaction that others have overtaken fails.\<close>

definition ref_commit :: "ref_rows \<Rightarrow> ref_rows \<Rightarrow> ref_rows \<Rightarrow> (string + unit) \<times> ref_rows" where
  "ref_commit c d0 d = (if c = d0 then (Inr (), d) else (Inl ''could not serialize access'', c))"

lemma ref_commit_merges: "commit_merges ref_webhook_db ref_commit"
  by (auto simp: commit_merges_def ref_commit_def)

definition tx_ctx :: "nat \<Rightarrow> handle tx_context option" where
  "tx_ctx n = Some \<lparr>cx_tx = Some (Tx n)\<rparr>"

text \<open>Two transactions publish the event; the first commits and the second is rolled back.\<close>

lemma tx_demo_trace:
  "\<exists>w. (tx_step demo_enc memory_ops demo_dec ref_webhook_db ref_commit)\<^sup>*\<^sup>* (tx_start demo_bus demo_rows) w \<and>
    tw_committed w = {0} \<and> map fst (tw_log w) = [Tx 0, Tx 1] \<and>
    list_all (\<lambda>(h, P). P = published_on demo_dec ref_webhook_db Plain ok_event (tw_store (tx_start demo_bus demo_rows))) (tw_log w)"
proof -
  let ?step = "tx_step demo_enc memory_ops demo_dec ref_webhook_db ref_commit"
  let ?P = "published_on demo_dec ref_webhook_db Plain ok_event (tw_store (tx_start demo_bus demo_rows))"
  let ?open = "\<lambda>a b. \<lparr>ts_committed = demo_rows, ts_open = (\<lambda>_. None)(0 := a, 1 := b)\<rparr>"
  let ?old = "Some (demo_rows, demo_rows)" and ?new = "Some (demo_rows, demo_written)"
  define w0 where "w0 = tx_start demo_bus demo_rows"
  define w1 where "w1 = w0\<lparr>tw_store := tx_begin 0 (tw_store w0), tw_used := insert 0 (tw_used w0)\<rparr>"
  define w2 where "w2 = w1\<lparr>tw_store := tx_begin 1 (tw_store w1), tw_used := insert 1 (tw_used w1)\<rparr>"
  define w3 where "w3 = w2\<lparr>tw_store := ?open ?new ?old, tw_log := [(Tx 0, ?P)]\<rparr>"
  define w4 where "w4 = w3\<lparr>tw_store := ?open ?new ?new, tw_log := [(Tx 0, ?P), (Tx 1, ?P)]\<rparr>"
  define w5 where "w5 = w4\<lparr>tw_store := tx_end 0 demo_written (tw_store w4), tw_committed := {0}\<rparr>"
  define w6 where "w6 = w5\<lparr>tw_store := tx_end 1 (ts_committed (tw_store w5)) (tw_store w5)\<rparr>"
  note ws = w0_def w1_def w2_def w3_def w4_def w5_def w6_def tx_start_def tx_begin_def
  have ok: "TxFromContext (tx_ctx n) = Some (Tx n)" for n by (simp add: tx_ctx_def TxFromContext_def)
  have pub: "Tx_PublishEvent demo_enc memory_ops (handle_writer demo_dec ref_webhook_db demo_ids (\<lambda>_. 3)) (\<lambda>_. False) 3
      (tx_ctx n) ok_event (b, s) = Some (Inr (), b, s\<lparr>ts_open := (ts_open s)(n \<mapsto> (demo_rows, demo_written))\<rparr>)"
    if "ts_open s n = Some (demo_rows, demo_rows)" for n b s
    using that by (simp add: Tx_PublishEvent_def ok write_event_def demo_enc_def handle_writer_def on_handle_def demo_created)
  have P: "published_on demo_dec ref_webhook_db (Tx n) ok_event s = ?P" if "ts_open s n = Some (demo_rows, demo_rows)" for n s
    using that by (simp add: published_on_def tx_start_def)
  have "?step\<^sup>*\<^sup>* w0 w1" unfolding w1_def by (rule r_into_rtranclp, rule begins) (simp add: ws)
  also have "?step\<^sup>*\<^sup>* w1 w2" unfolding w2_def by (rule r_into_rtranclp, rule begins) (simp add: ws)
  also have "?step\<^sup>*\<^sup>* w2 w3"
  proof (rule r_into_rtranclp)
    have o: "ts_open (tw_store w2) 0 = Some (demo_rows, demo_rows)" by (simp add: ws)
    from publishes [OF ok pub [OF o, of "tw_bus w2"]] P [OF o] show "?step w2 w3"
      by (simp add: ws fun_upd_twist)
  qed
  also have "?step\<^sup>*\<^sup>* w3 w4"
  proof (rule r_into_rtranclp)
    have o: "ts_open (tw_store w3) 1 = Some (demo_rows, demo_rows)" by (simp add: ws)
    from publishes [OF ok pub [OF o, of "tw_bus w3"]] P [OF o] show "?step w3 w4"
      by (simp add: ws fun_upd_twist)
  qed
  also have "?step\<^sup>*\<^sup>* w4 w5"
  proof (rule r_into_rtranclp)
    have "ts_open (tw_store w4) 0 = Some (demo_rows, demo_written)"
      "ref_commit (ts_committed (tw_store w4)) demo_rows demo_written = (Inr (), demo_written)"
      by (simp_all add: ws ref_commit_def)
    from commits [where w = w4 and cm = ref_commit, OF this] show "?step w4 w5" by (simp add: ws)
  qed
  also have "?step\<^sup>*\<^sup>* w5 w6" unfolding w6_def by (rule r_into_rtranclp, rule rolls_back)
  finally have "?step\<^sup>*\<^sup>* w0 w6" .
  moreover have "tw_committed w6 = {0}" "tw_log w6 = [(Tx 0, ?P), (Tx 1, ?P)]" by (simp_all add: ws)
  ultimately show ?thesis unfolding w0_def by (intro exI [of _ w6]) simp
qed

theorem transactional_publish_is_atomic_witness:
  "\<exists>w. (tx_step demo_enc memory_ops demo_dec ref_webhook_db ref_commit)\<^sup>*\<^sup>* (tx_start demo_bus demo_rows) w \<and>
    tw_committed w = {0} \<and> map fst (tw_log w) = [Tx 0, Tx 1] \<and>
    outbox_written ref_webhook_db (ts_committed (tw_store w)) = {''e1''} \<times> {''c1'', ''c2''}"
proof -
  from tx_demo_trace obtain w where w: "(tx_step demo_enc memory_ops demo_dec ref_webhook_db ref_commit)\<^sup>*\<^sup>* (tx_start demo_bus demo_rows) w"
    "tw_committed w = {0}" "map fst (tw_log w) = [Tx 0, Tx 1]"
    and P: "list_all (\<lambda>(h, P). P = published_on demo_dec ref_webhook_db Plain ok_event (tw_store (tx_start demo_bus demo_rows))) (tw_log w)"
    by (elim exE conjE) (rule that)
  have "subscribed demo_dec ref_webhook_db (evt_Type ok_event) demo_rows = {demo_config ''c1'' ''*'', demo_config ''c2'' ''user.login''}"
  proof -
    have "subscribed demo_dec ref_webhook_db (evt_Type ok_event) demo_rows =
        set (filter (\<lambda>c. wc_Active c \<and> eventMatches demo_dec (wc_Events c) (evt_Type ok_event)) (rr_configs demo_rows))"
      by (simp add: subscribed_def)
    also have "filter (\<lambda>c. wc_Active c \<and> eventMatches demo_dec (wc_Events c) (evt_Type ok_event)) (rr_configs demo_rows) =
        [demo_config ''c1'' ''*'', demo_config ''c2'' ''user.login'']" by code_simp
    finally show ?thesis by simp
  qed
  then have pub: "published_on demo_dec ref_webhook_db Plain ok_event (tw_store (tx_start demo_bus demo_rows)) = {''e1''} \<times> {''c1'', ''c2''}"
    by (simp add: published_on_def tx_start_def outbox_subs_def demo_config_def ok_event_def)
  from w(3) obtain P0 P1 where l: "tw_log w = [(Tx 0, P0), (Tx 1, P1)]" by (auto simp: map_eq_Cons_conv)
  from P have log: "tw_log w = [(Tx 0, {''e1''} \<times> {''c1'', ''c2''}), (Tx 1, {''e1''} \<times> {''c1'', ''c2''})]"
    unfolding l pub by simp
  have "outbox_written ref_webhook_db demo_rows = {}" by (simp add: outbox_written_def demo_rows_def)
  with transactional_publish_is_atomic [OF ref_webhook_laws ref_commit_merges w(1)] log w(2)
  have c: "outbox_written ref_webhook_db (ts_committed (tw_store w)) = {''e1''} \<times> {''c1'', ''c2''}" by auto
  show ?thesis by (intro exI [of _ w] conjI w c)
qed







end
