(* ===== verification/SwiftbusRace.thy ===== *)
theory SwiftbusRace
  imports Swiftbus
begin

text \<open>
  The bus on \<^verbatim>\<open>MemoryStore\<close> with calls of \<^verbatim>\<open>Publish\<close> that overlap. A call checks \<^verbatim>\<open>closed\<close>, collects its
  channels under the read lock of the store and sends to them one by one after releasing it
  (\<^verbatim>\<open>memory_store.go\<close>), so every one of these is a step of its own (\<open>racing_step\<close>) and any other
  operation may run in between. \<open>Bus_Publish\<close> of \<open>Swiftbus\<close> is such a call that runs undisturbed.
\<close>

section \<open>Overlapping calls\<close>

text \<open>
  A call of \<^verbatim>\<open>Publish\<close> or \<^verbatim>\<open>PublishSync\<close>: \<open>ca_targets\<close> are the channels it has still to send to, once
  collected; \<open>ca_after\<close> are the calls that had returned when it began.
\<close>

record 'p call =
  ca_msg :: "'p message"
  ca_targets :: "chan list option"
  ca_done :: bool
  ca_after :: "nat list"

type_synonym 'p racing = "('p, 'p memory_store) bus \<times> 'p call list"

definition returned :: "'p call list \<Rightarrow> nat list" where
  "returned cs = filter (\<lambda>n. ca_done (cs ! n)) [0..<length cs]"

definition new_call :: "'p message \<Rightarrow> 'p call list \<Rightarrow> 'p call" where
  "new_call m cs = \<lparr>ca_msg = m, ca_targets = None, ca_done = False, ca_after = returned cs\<rparr>"

definition pending_call :: "'p call list \<Rightarrow> nat \<Rightarrow> chan list option \<Rightarrow> bool" where
  "pending_call cs n ts \<longleftrightarrow> n < length cs \<and> \<not> ca_done (cs ! n) \<and> ca_targets (cs ! n) = ts"

text \<open>The result \<open>None\<close> is a panic, which ends the process.\<close>

inductive racing_step :: "'p racing \<Rightarrow> 'p racing option \<Rightarrow> bool" where
  race_subscribe: "Bus_Subscribe memory_ops t b = (r, b') \<Longrightarrow> racing_step (b, cs) (Some (b', cs))"
| race_goroutine: "racing_step (b, cs) (Some (goroutine_step memory_ops i c b, cs))"
| race_cancel: "i < length (bus_gs b) \<Longrightarrow> CancelFunc memory_ops i b = Some b' \<Longrightarrow>
    racing_step (b, cs) (Some (b', cs))"
| race_cancel_panic: "i < length (bus_gs b) \<Longrightarrow> CancelFunc memory_ops i b = None \<Longrightarrow>
    racing_step (b, cs) None"
| race_close: "Bus_Close memory_ops b = Some b' \<Longrightarrow> racing_step (b, cs) (Some (b', cs))"
| race_close_panic: "Bus_Close memory_ops b = None \<Longrightarrow> racing_step (b, cs) None"
| race_publish: "\<not> bus_closed b \<Longrightarrow> racing_step (b, cs) (Some (b, cs @ [new_call m cs]))"
| race_refused: "pending_call cs n None \<Longrightarrow> publish_targets (msg_Topic (ca_msg (cs ! n))) (bus_store b) = Inl e \<Longrightarrow>
    racing_step (b, cs) (Some (b, cs[n := (cs ! n)\<lparr>ca_done := True\<rparr>]))"
| race_collect: "pending_call cs n None \<Longrightarrow> publish_targets (msg_Topic (ca_msg (cs ! n))) (bus_store b) = Inr ts \<Longrightarrow>
    racing_step (b, cs) (Some (b, cs[n := (cs ! n)\<lparr>ca_targets := Some ts\<rparr>]))"
| race_send: "pending_call cs n (Some (c # ts)) \<Longrightarrow> try_send (ca_msg (cs ! n)) c (bus_store b) = Some st \<Longrightarrow>
    racing_step (b, cs) (Some (b\<lparr>bus_store := st\<rparr>, cs[n := (cs ! n)\<lparr>ca_targets := Some ts\<rparr>]))"
| race_send_panic: "pending_call cs n (Some (c # ts)) \<Longrightarrow> try_send (ca_msg (cs ! n)) c (bus_store b) = None \<Longrightarrow>
    racing_step (b, cs) None"
| race_deadline: "pending_call cs n (Some (c # ts)) \<Longrightarrow>
    racing_step (b, cs) (Some (b, cs[n := (cs ! n)\<lparr>ca_done := True\<rparr>]))"
| race_return: "pending_call cs n (Some []) \<Longrightarrow>
    racing_step (b, cs) (Some (b, cs[n := (cs ! n)\<lparr>ca_done := True\<rparr>]))"

inductive racing_run :: "'p racing \<Rightarrow> bool" where
  race_start: "racing_run (NewBus NewMemoryStore, [])"
| race_more: "racing_run x \<Longrightarrow> racing_step x (Some y) \<Longrightarrow> racing_run y"

section \<open>What a channel has been sent\<close>

text \<open>
  \<open>sent_by cs t c ns xs\<close>: the channel \<open>c\<close> of a subscription to \<open>t\<close> has been sent \<open>xs\<close>, by the calls \<open>ns\<close>
  in this order. No call sends more than it may, and a call that returned before another one
  began is not found after it.
\<close>

definition still_to_send :: "'p call \<Rightarrow> string \<Rightarrow> chan \<Rightarrow> nat" where
  "still_to_send k t c = (if ca_done k then 0
     else case ca_targets k of None \<Rightarrow> length (deliveries t (ca_msg k)) | Some ts \<Rightarrow> count_list ts c)"

definition sent_by :: "'p call list \<Rightarrow> string \<Rightarrow> chan \<Rightarrow> nat list \<Rightarrow> 'p message list \<Rightarrow> bool" where
  "sent_by cs t c ns xs \<longleftrightarrow> set ns \<subseteq> {..<length cs} \<and> xs = map (\<lambda>n. ca_msg (cs ! n)) ns \<and>
     (\<forall>n<length cs. count_list ns n + still_to_send (cs ! n) t c \<le> length (deliveries t (ca_msg (cs ! n)))) \<and>
     sorted_wrt (\<lambda>m n. n \<notin> set (ca_after (cs ! m))) ns"

definition race_ok :: "'p memory_store \<Rightarrow> 'p call list \<Rightarrow> 'p subscription \<Rightarrow> bool" where
  "race_ok s cs g \<longleftrightarrow> g_ch g \<in> mem_alloc s \<and> (\<forall>t. (t, g_ch g) \<in> mem_live s \<longrightarrow> t = g_topic g) \<and>
     (\<exists>ns. sent_by cs (g_topic g) (g_ch g) ns (g_handled g @ mem_queue (g_ch g) s))"

definition calls_ok :: "'p memory_store \<Rightarrow> 'p call list \<Rightarrow> bool" where
  "calls_ok s cs \<longleftrightarrow> (\<forall>k\<in>set cs. set (ca_after k) \<subseteq> set (returned cs) \<and>
     (\<forall>ts. ca_targets k = Some ts \<longrightarrow> set ts \<subseteq> mem_alloc s))"

definition race_inv :: "'p racing \<Rightarrow> bool" where
  "race_inv x = (case x of (b, cs) \<Rightarrow> mem_inv (bus_store b) \<and> distinct (map g_ch (bus_gs b)) \<and>
     calls_ok (bus_store b) cs \<and> (\<forall>g\<in>set (bus_gs b). race_ok (bus_store b) cs g))"

subsection \<open>Calls change, the bus does not\<close>

lemma returned_update:
  "n < length cs \<Longrightarrow> (ca_done (cs ! n) \<longrightarrow> ca_done k) \<Longrightarrow> set (returned cs) \<subseteq> set (returned (cs[n := k]))"
  by (auto simp: returned_def nth_list_update)

lemma still_done [simp]: "still_to_send (k\<lparr>ca_done := True\<rparr>) t c = 0"
  by (simp add: still_to_send_def)

lemma sent_by_update:
  assumes "sent_by cs t c ns xs" "n < length cs" "ca_msg k = ca_msg (cs ! n)" "ca_after k = ca_after (cs ! n)"
    "still_to_send k t c \<le> still_to_send (cs ! n) t c"
  shows "sent_by (cs[n := k]) t c ns xs"
proof -
  have m: "ca_msg (cs[n := k] ! i) = ca_msg (cs ! i)" "ca_after (cs[n := k] ! i) = ca_after (cs ! i)" for i
    using assms(2-4) by (cases "i = n"; simp)+
  have s: "still_to_send (cs[n := k] ! i) t c \<le> still_to_send (cs ! i) t c" if "i < length cs" for i
    using assms(2,5) by (cases "i = n") simp_all
  show ?thesis
    using assms(1) s unfolding sent_by_def m by (auto intro: order_trans [OF add_left_mono])
qed

lemma calls_ok_update:
  assumes "calls_ok s cs" "n < length cs" "ca_after k = ca_after (cs ! n)" "ca_done (cs ! n) \<longrightarrow> ca_done k"
    "\<And>ts. ca_targets k = Some ts \<Longrightarrow> set ts \<subseteq> mem_alloc s"
  shows "calls_ok s (cs[n := k])"
proof -
  note r = returned_update [OF assms(2,4)]
  have "set (ca_after (cs ! n)) \<subseteq> set (returned cs)" using assms(1,2) by (simp add: calls_ok_def)
  with assms(1,3,5) r show ?thesis
    by (auto simp: calls_ok_def dest!: set_update_subset_insert [THEN subsetD]) blast+
qed

lemma race_update:
  assumes "race_inv (b, cs)" "n < length cs" "ca_msg k = ca_msg (cs ! n)" "ca_after k = ca_after (cs ! n)"
    "ca_done (cs ! n) \<longrightarrow> ca_done k" "\<And>ts. ca_targets k = Some ts \<Longrightarrow> set ts \<subseteq> mem_alloc (bus_store b)"
    "\<And>g. g \<in> set (bus_gs b) \<Longrightarrow> still_to_send k (g_topic g) (g_ch g) \<le> still_to_send (cs ! n) (g_topic g) (g_ch g)"
  shows "race_inv (b, cs[n := k])"
proof -
  have "race_ok (bus_store b) (cs[n := k]) g" if "g \<in> set (bus_gs b)" for g
    using assms(1) that sent_by_update [OF _ assms(2,3,4) assms(7) [OF that]]
    by (fastforce simp: race_inv_def race_ok_def)
  with assms(1) calls_ok_update [OF _ assms(2,4,5,6)] show ?thesis by (auto simp: race_inv_def)
qed

lemma race_done:
  assumes "race_inv (b, cs)" "pending_call cs n ts"
  shows "race_inv (b, cs[n := (cs ! n)\<lparr>ca_done := True\<rparr>])"
proof (rule race_update [OF assms(1)])
  fix ts'
  assume t: "ca_targets ((cs ! n)\<lparr>ca_done := True\<rparr>) = Some ts'"
  have "cs ! n \<in> set cs" using assms(2) by (simp add: pending_call_def)
  moreover have "calls_ok (bus_store b) cs" using assms(1) by (simp add: race_inv_def)
  ultimately show "set ts' \<subseteq> mem_alloc (bus_store b)" using t unfolding calls_ok_def by simp
qed (use assms(2) in \<open>simp_all add: pending_call_def\<close>)

lemma race_new:
  assumes "race_inv (b, cs)"
  shows "race_inv (b, cs @ [new_call m cs])"
proof -
  have r: "set (returned cs) \<subseteq> set (returned (cs @ [new_call m cs]))" by (auto simp: returned_def nth_append)
  have "calls_ok (bus_store b) (cs @ [new_call m cs])"
    using assms r by (fastforce simp: race_inv_def calls_ok_def new_call_def)
  moreover have "race_ok (bus_store b) (cs @ [new_call m cs]) g" if "g \<in> set (bus_gs b)" for g
  proof -
    from assms that obtain ns where ns: "sent_by cs (g_topic g) (g_ch g) ns (g_handled g @ mem_queue (g_ch g) (bus_store b))"
      and o: "g_ch g \<in> mem_alloc (bus_store b)" "\<forall>t. (t, g_ch g) \<in> mem_live (bus_store b) \<longrightarrow> t = g_topic g"
      by (auto simp: race_inv_def race_ok_def)
    have old: "(cs @ [new_call m cs]) ! n = cs ! n" if "n \<in> set ns" for n
      using ns that by (auto simp: sent_by_def nth_append)
    have none: "count_list ns (length cs) = 0" using ns by (auto simp: sent_by_def count_list_0_iff)
    have "sorted_wrt (\<lambda>m' n. n \<notin> set (ca_after ((cs @ [new_call m cs]) ! m'))) ns"
      by (rule sorted_wrt_mono_rel [of ns "\<lambda>m n. n \<notin> set (ca_after (cs ! m))"]) (use ns old in \<open>auto simp: sent_by_def\<close>)
    moreover have "count_list ns n + still_to_send ((cs @ [new_call m cs]) ! n) (g_topic g) (g_ch g)
        \<le> length (deliveries (g_topic g) (ca_msg ((cs @ [new_call m cs]) ! n)))" if "n < Suc (length cs)" for n
      using ns that none by (cases "n = length cs") (auto simp: sent_by_def nth_append still_to_send_def new_call_def)
    ultimately have "sent_by (cs @ [new_call m cs]) (g_topic g) (g_ch g) ns (g_handled g @ mem_queue (g_ch g) (bus_store b))"
      using ns old by (auto simp: sent_by_def)
    with o show ?thesis by (auto simp: race_ok_def)
  qed
  ultimately show ?thesis using assms by (simp add: race_inv_def)
qed

text \<open>Collecting takes each channel as often as a subscription to its topic is to get the message.\<close>

lemma race_collected:
  assumes "race_inv (b, cs)" "pending_call cs n None"
    "publish_targets (msg_Topic (ca_msg (cs ! n))) (bus_store b) = Inr ts"
  shows "race_inv (b, cs[n := (cs ! n)\<lparr>ca_targets := Some ts\<rparr>])"
proof (rule race_update [OF assms(1)])
  let ?m = "ca_msg (cs ! n)"
  have i: "mem_inv (bus_store b)" using assms(1) by (simp add: race_inv_def)
  have ts: "ts = targets (msg_Topic ?m) (bus_store b)"
    using assms(3) by (auto simp: publish_targets_def targets_def split: if_splits)
  show "set ts' \<subseteq> mem_alloc (bus_store b)"
    if "ca_targets ((cs ! n)\<lparr>ca_targets := Some ts\<rparr>) = Some ts'" for ts'
    using that targets_open [OF i] by (auto simp: ts mem_alloc_def)
  show "still_to_send ((cs ! n)\<lparr>ca_targets := Some ts\<rparr>) (g_topic g) (g_ch g)
      \<le> still_to_send (cs ! n) (g_topic g) (g_ch g)" if g: "g \<in> set (bus_gs b)" for g
  proof (cases "\<exists>t. (t, g_ch g) \<in> mem_live (bus_store b)")
    case True
    with assms(1) g have "(g_topic g, g_ch g) \<in> mem_live (bus_store b)"
      by (auto simp: race_inv_def race_ok_def)
    from count_targets(1) [OF i this, of "msg_Topic ?m"] show ?thesis
      using assms(2) by (simp add: still_to_send_def pending_call_def ts deliveries_def)
  next
    case False
    then have "count_list ts (g_ch g) = 0" unfolding ts by (intro count_targets(2) [OF i]) blast
    then show ?thesis using assms(2) by (simp add: still_to_send_def pending_call_def)
  qed
qed (use assms(2) in \<open>simp_all add: pending_call_def\<close>)

subsection \<open>Sends\<close>

lemma sent_by_send:
  assumes "sent_by cs t c ns xs" "pending_call cs n (Some (c # ts))" "\<forall>k\<in>set cs. set (ca_after k) \<subseteq> set (returned cs)"
  shows "sent_by (cs[n := (cs ! n)\<lparr>ca_targets := Some ts\<rparr>]) t c (ns @ [n]) (xs @ [ca_msg (cs ! n)])"
proof -
  let ?k = "(cs ! n)\<lparr>ca_targets := Some ts\<rparr>"
  from assms(2) have n: "n < length cs" "\<not> ca_done (cs ! n)" "ca_targets (cs ! n) = Some (c # ts)"
    by (simp_all add: pending_call_def)
  have m: "ca_msg (cs[n := ?k] ! i) = ca_msg (cs ! i)" "ca_after (cs[n := ?k] ! i) = ca_after (cs ! i)" for i
    using n(1) by (cases "i = n"; simp)+
  have "count_list (ns @ [n]) i + still_to_send (cs[n := ?k] ! i) t c \<le> length (deliveries t (ca_msg (cs ! i)))"
    if "i < length cs" for i
    using assms(1) that n by (cases "i = n") (auto simp: sent_by_def still_to_send_def)
  moreover have "n \<notin> set (ca_after (cs ! i))" if "i \<in> set ns" for i
  proof -
    have "i < length cs" using assms(1) that by (auto simp: sent_by_def)
    then have "set (ca_after (cs ! i)) \<subseteq> set (returned cs)" using assms(3) by simp
    with n(2) show ?thesis by (auto simp: returned_def)
  qed
  ultimately show ?thesis
    using assms(1) n(1) unfolding sent_by_def m by (auto simp: sorted_wrt_append)
qed

lemma race_sent:
  assumes "race_inv (b, cs)" "pending_call cs n (Some (c # ts))"
    "try_send (ca_msg (cs ! n)) c (bus_store b) = Some st"
  shows "race_inv (b\<lparr>bus_store := st\<rparr>, cs[n := (cs ! n)\<lparr>ca_targets := Some ts\<rparr>])"
proof -
  let ?m = "ca_msg (cs ! n)" and ?s = "bus_store b" and ?k = "(cs ! n)\<lparr>ca_targets := Some ts\<rparr>"
  from assms(2) have n: "n < length cs" "\<not> ca_done (cs ! n)" "ca_targets (cs ! n) = Some (c # ts)"
    by (simp_all add: pending_call_def)
  have co: "calls_ok ?s cs" using assms(1) by (simp add: race_inv_def)
  have "cs ! n \<in> set cs" using n(1) by simp
  with co n(3) have alloc: "set (c # ts) \<subseteq> mem_alloc ?s" unfolding calls_ok_def by blast
  then have c: "c < length (ms_heap ?s)" by (simp add: mem_alloc_def)
  have "\<not> ch_closed (ms_heap ?s ! c)" using assms(3) by (auto simp: try_send_def Let_def)
  from try_send_effect [OF c this, of ?m] assms(3) have e: "same_subs ?s st"
    "mem_queue c st = mem_queue c ?s @ (if length (mem_queue c ?s) < chan_cap then [?m] else [])"
    "\<And>d. d \<noteq> c \<Longrightarrow> mem_queue d st = mem_queue d ?s" by (metis option.inject)+
  note l = same_subs_live [OF e(1)]
  have le: "still_to_send ?k t d \<le> still_to_send (cs ! n) t d" for t d
    using n by (simp add: still_to_send_def)
  have "calls_ok ?s (cs[n := ?k])"
    by (rule calls_ok_update [OF co n(1)]) (use alloc in auto)
  then have "calls_ok st (cs[n := ?k])" using l by (simp add: calls_ok_def)
  moreover have "race_ok st (cs[n := ?k]) g" if g: "g \<in> set (bus_gs b)" for g
  proof -
    from assms(1) g obtain ns where ns: "sent_by cs (g_topic g) (g_ch g) ns (g_handled g @ mem_queue (g_ch g) ?s)"
      and o: "g_ch g \<in> mem_alloc ?s" "\<forall>t. (t, g_ch g) \<in> mem_live ?s \<longrightarrow> t = g_topic g"
      by (auto simp: race_inv_def race_ok_def)
    have same: "sent_by (cs[n := ?k]) (g_topic g) (g_ch g) ns (g_handled g @ mem_queue (g_ch g) ?s)"
      by (rule sent_by_update [OF ns n(1)]) (use le in simp_all)
    have "\<exists>ns. sent_by (cs[n := ?k]) (g_topic g) (g_ch g) ns (g_handled g @ mem_queue (g_ch g) st)"
    proof (cases "g_ch g = c \<and> length (mem_queue c ?s) < chan_cap")
      case True
      from ns True assms(2) have "sent_by (cs[n := ?k]) (g_topic g) c (ns @ [n]) ((g_handled g @ mem_queue c ?s) @ [?m])"
        using co by (intro sent_by_send) (auto simp: calls_ok_def)
      with True e(2) show ?thesis by auto
    next
      case False
      then have "mem_queue (g_ch g) st = mem_queue (g_ch g) ?s" using e(2,3) by (cases "g_ch g = c") auto
      with same show ?thesis by metis
    qed
    with o l show ?thesis by (simp add: race_ok_def)
  qed
  ultimately show ?thesis using assms(1) same_subs_inv [OF e(1)] by (simp add: race_inv_def)
qed

subsection \<open>The other operations\<close>

lemma race_ok_mono:
  assumes "race_ok s cs g" "mem_alloc s \<subseteq> mem_alloc s'" "\<And>t. (t, g_ch g) \<in> mem_live s' \<Longrightarrow> (t, g_ch g) \<in> mem_live s"
    "mem_queue (g_ch g) s' = mem_queue (g_ch g) s"
  shows "race_ok s' cs g"
  using assms by (auto simp: race_ok_def)

lemma race_shrinks:
  assumes "race_inv (b, cs)" "mem_inv st" "mem_live st \<subseteq> mem_live (bus_store b)"
    "mem_alloc st = mem_alloc (bus_store b)" "\<And>d. mem_queue d st = mem_queue d (bus_store b)"
  shows "race_inv (b\<lparr>bus_store := st\<rparr>, cs)"
  using assms by (auto simp: race_inv_def calls_ok_def intro: race_ok_mono)

lemma race_update_sub:
  assumes "race_inv (b, cs)" "i < length (bus_gs b)" "g_ch g' = g_ch (bus_gs b ! i)"
    "g_topic g' = g_topic (bus_gs b ! i)" "g_handled g' = g_handled (bus_gs b ! i)"
  shows "race_inv (b\<lparr>bus_gs := (bus_gs b)[i := g']\<rparr>, cs)"
proof -
  have "map g_ch ((bus_gs b)[i := g']) = map g_ch (bus_gs b)"
    using assms(2,3) by (intro nth_equalityI) (auto simp: nth_list_update)
  moreover have "race_ok (bus_store b) cs g'"
    using assms by (simp add: race_inv_def race_ok_def)
  ultimately show ?thesis
    using assms(1) by (auto simp: race_inv_def dest!: set_update_subset_insert [THEN subsetD])
qed

lemma race_subscribed:
  assumes "race_inv (b, cs)" "Bus_Subscribe memory_ops t b = (r, b')"
  shows "race_inv (b', cs)"
proof (cases "MemoryStore_Subscribe t (bus_store b)")
  case (Pair res st)
  let ?s = "bus_store b"
  from assms(1) have i: "mem_inv ?s" by (simp add: race_inv_def)
  show ?thesis
  proof (cases res)
    case (Inl e)
    with assms Pair mem_subscribe_err [OF i, of t e st] show ?thesis
      by (auto simp: Bus_Subscribe_def race_inv_def split: if_splits)
  next
    case (Inr c)
    with Pair have eq: "MemoryStore_Subscribe t ?s = (Inr c, st)" by simp
    from mem_subscribe [OF i eq] have sb: "mem_inv st" "c \<notin> mem_alloc ?s"
      "mem_alloc st = insert c (mem_alloc ?s)" "mem_live st = insert (t, c) (mem_live ?s)"
      "mem_queue c st = []" "\<And>d. d \<noteq> c \<Longrightarrow> mem_queue d st = mem_queue d ?s" by blast+
    have old: "race_ok st cs g" "g_ch g \<noteq> c" if "g \<in> set (bus_gs b)" for g
    proof -
      from assms(1) that have ok: "race_ok ?s cs g" by (simp add: race_inv_def)
      with sb(2) show ne: "g_ch g \<noteq> c" by (auto simp: race_ok_def)
      show "race_ok st cs g" by (rule race_ok_mono [OF ok]) (use ne sb in auto)
    qed
    have topic: "t' = t" if "(t', c) \<in> mem_live st" for t'
      using that sb(2,4) mem_live_alloc [OF i] by blast
    have co: "calls_ok ?s cs" using assms(1) by (simp add: race_inv_def)
    then have "calls_ok st cs" using sb(3) by (fastforce simp: calls_ok_def)
    have fresh: "still_to_send k t c \<le> length (deliveries t (ca_msg k))" if "k \<in> set cs" for k
    proof (cases "ca_targets k")
      case (Some ts)
      with co that sb(2) have "c \<notin> set ts" unfolding calls_ok_def by blast
      with Some show ?thesis by (simp add: still_to_send_def count_notin)
    qed (simp add: still_to_send_def)
    let ?g = "\<lparr>g_topic = t, g_ch = c, g_cancelled = False, g_running = True, g_handled = []\<rparr>"
    have "sent_by cs t c [] []" using fresh by (simp add: sent_by_def)
    then have new: "race_ok st cs ?g" using sb(3,5) topic by (auto simp: race_ok_def)
    show ?thesis
    proof (cases "bus_closed b")
      case False
      with assms(2) eq have b': "b' = b\<lparr>bus_store := st, bus_subs := bus_subs b @ [length (bus_gs b)],
          bus_gs := bus_gs b @ [?g]\<rparr>" by (simp add: Bus_Subscribe_def Let_def)
      have "c \<notin> g_ch ` set (bus_gs b)" using old(2) by blast
      then show ?thesis using assms(1) sb(1) old(1) new \<open>calls_ok st cs\<close> unfolding b' by (simp add: race_inv_def)
    qed (use assms in \<open>simp add: Bus_Subscribe_def\<close>)
  qed
qed

lemma race_goroutine_inv:
  assumes "race_inv (b, cs)"
  shows "race_inv (goroutine_step memory_ops i c b, cs)"
proof (cases "i < length (bus_gs b) \<and> g_running (bus_gs b ! i)")
  case True
  let ?g = "bus_gs b ! i" and ?s = "bus_store b"
  have g: "race_ok ?s cs ?g" "mem_inv ?s" and d: "distinct (map g_ch (bus_gs b))"
    using True assms by (simp_all add: race_inv_def)
  have stop: "race_inv (b\<lparr>bus_gs := (bus_gs b)[i := ?g\<lparr>g_running := False\<rparr>]\<rparr>, cs)"
    using race_update_sub [OF assms] True by simp
  obtain r st where rv: "recv (g_ch ?g) ?s = (r, st)" by fastforce
  have "g_ch ?g \<in> mem_alloc ?s" using g(1) by (simp add: race_ok_def)
  note rc = mem_recv [OF g(2) this rv]
  have got: "race_inv (b\<lparr>bus_store := st,
      bus_gs := (bus_gs b)[i := ?g\<lparr>g_handled := g_handled ?g @ [m]\<rparr>]\<rparr>, cs)" if "r = Got m" for m
  proof -
    let ?g' = "?g\<lparr>g_handled := g_handled ?g @ [m]\<rparr>"
    have ok: "race_ok st cs ?g'" using rc g(1) that by (auto simp: race_ok_def)
    have other: "race_ok st cs (bus_gs b ! j)" if "j < length (bus_gs b)" "j \<noteq> i" for j
    proof (rule race_ok_mono)
      show "race_ok ?s cs (bus_gs b ! j)" using that assms by (simp add: race_inv_def)
      have "g_ch (bus_gs b ! j) \<noteq> g_ch ?g" using d True that by (metis length_map nth_eq_iff_index_eq nth_map)
      then show "mem_queue (g_ch (bus_gs b ! j)) st = mem_queue (g_ch (bus_gs b ! j)) ?s" using rc by blast
    qed (use rc in auto)
    have "race_ok st cs g'" if "g' \<in> set ((bus_gs b)[i := ?g'])" for g'
    proof -
      from that obtain j where j: "j < length (bus_gs b)" "g' = (bus_gs b)[i := ?g'] ! j"
        by (auto simp: in_set_conv_nth)
      show ?thesis using j ok other [of j] by (cases "j = i") simp_all
    qed
    moreover have "map g_ch ((bus_gs b)[i := ?g']) = map g_ch (bus_gs b)"
      using True by (intro nth_equalityI) (auto simp: nth_list_update)
    ultimately show ?thesis using assms rc by (simp add: race_inv_def calls_ok_def)
  qed
  show ?thesis
    using True assms stop got rv
    by (cases c; cases r) (simp_all add: goroutine_step_def Let_def)
qed (use assms in \<open>auto simp: goroutine_step_def\<close>)

lemma race_cancelled:
  assumes "race_inv (b, cs)" "i < length (bus_gs b)"
  shows "\<exists>b'. CancelFunc memory_ops i b = Some b' \<and> race_inv (b', cs)"
proof (cases "g_cancelled (bus_gs b ! i)")
  case False
  let ?g = "bus_gs b ! i"
  from assms(1) have i: "mem_inv (bus_store b)" by (simp add: race_inv_def)
  from mem_unsubscribe [OF i, of "g_topic ?g" "g_ch ?g"] obtain r st where
    u: "MemoryStore_Unsubscribe (g_topic ?g) (g_ch ?g) (bus_store b) = Some (r, st)" "mem_inv st"
      "mem_live st = mem_live (bus_store b) - {(g_topic ?g, g_ch ?g)}" "mem_alloc st = mem_alloc (bus_store b)"
      "\<And>d. mem_queue d st = mem_queue d (bus_store b)" by blast
  have "race_inv (b\<lparr>bus_store := st\<rparr>, cs)" by (rule race_shrinks [OF assms(1)]) (use u in auto)
  from race_update_sub [OF this, of i "?g\<lparr>g_cancelled := True\<rparr>"] assms(2)
  have "race_inv (b\<lparr>bus_store := st, bus_gs := (bus_gs b)[i := ?g\<lparr>g_cancelled := True\<rparr>]\<rparr>, cs)" by simp
  with u(1) False show ?thesis by (simp add: CancelFunc_def Let_def race_inv_def)
qed (use assms in \<open>simp add: CancelFunc_def\<close>)

lemma race_closed:
  assumes "race_inv (b, cs)"
  shows "\<exists>b'. Bus_Close memory_ops b = Some b' \<and> race_inv (b', cs)"
proof (cases "bus_closed b")
  case False
  from assms have i: "mem_inv (bus_store b)" by (simp add: race_inv_def)
  from mem_close [OF i] obtain st where st: "MemoryStore_Close (bus_store b) = Some st" "mem_inv st"
    "mem_live st \<subseteq> mem_live (bus_store b)" "mem_alloc st = mem_alloc (bus_store b)"
    "\<And>d. mem_queue d st = mem_queue d (bus_store b)" by blast
  then have "race_inv (b\<lparr>bus_store := st\<rparr>, cs)" by (intro race_shrinks [OF assms])
  with st(1) False show ?thesis by (simp add: Bus_Close_def race_inv_def)
qed (use assms in \<open>simp add: Bus_Close_def\<close>)

lemma race_inv_step: "racing_step x y \<Longrightarrow> race_inv x \<Longrightarrow> case y of None \<Rightarrow> True | Some z \<Rightarrow> race_inv z"
  by (induction rule: racing_step.induct)
    (auto intro: race_subscribed race_goroutine_inv race_new race_done race_collected race_sent
      dest: race_cancelled race_closed)

lemma race_inv_run: "racing_run x \<Longrightarrow> race_inv x"
proof (induction rule: racing_run.induct)
  case race_start
  then show ?case by (simp add: race_inv_def NewBus_def mem_inv_new calls_ok_def)
qed (use race_inv_step in fastforce)

section \<open>Properties\<close>

lemma race_panic_cause:
  assumes "racing_step x None" "race_inv x"
  shows "\<exists>b cs n c ts. x = (b, cs) \<and> pending_call cs n (Some (c # ts)) \<and> ch_closed (ms_heap (bus_store b) ! c) \<and>
    (\<forall>t. (t, c) \<notin> mem_live (bus_store b))"
  using assms
proof (cases rule: racing_step.cases)
  case (race_send_panic cs n c ts b)
  then have "ch_closed (ms_heap (bus_store b) ! c)" by (auto simp: try_send_def Let_def split: if_splits)
  moreover have "mem_inv (bus_store b)" using assms(2) race_send_panic(1) by (simp add: race_inv_def)
  ultimately show ?thesis using race_send_panic mem_live_open by blast
qed (use assms(2) race_cancelled race_closed in fastforce)+

text \<open>
  C29. In every run of the bus on the in-memory store, with publications, subscriptions,
  cancellations, deliveries and closes interleaved in any way: what the handler of a subscription was
  invoked with are messages published on its topic (or on any, for the wildcard), in an order of the
  calls in which a call that had returned before another began does not come after it, and none more
  often than its topic lists it. When the calls of \<^verbatim>\<open>Publish\<close> do not overlap, that is their order;
  when they do, two handlers may see different orders (\<open>handlers_may_disagree\<close>). The only panic is a
  send to a channel that was collected and has been removed and closed since.
\<close>

theorem handlers_see_published_in_order:
  assumes "racing_run (b, cs)" "g \<in> set (bus_gs b)"
  shows "(\<exists>ns. g_handled g = map (\<lambda>n. ca_msg (cs ! n)) ns \<and> set ns \<subseteq> {..<length cs} \<and>
      (\<forall>n<length cs. count_list ns n \<le> length (deliveries (g_topic g) (ca_msg (cs ! n)))) \<and>
      sorted_wrt (\<lambda>m n. n \<notin> set (ca_after (cs ! m))) ns \<and>
      ((\<forall>n<length cs. set (ca_after (cs ! n)) = {..<n}) \<longrightarrow> sorted ns)) \<and>
    (racing_step (b, cs) None \<longrightarrow> (\<exists>n c ts. pending_call cs n (Some (c # ts)) \<and>
       ch_closed (ms_heap (bus_store b) ! c) \<and> (\<forall>t. (t, c) \<notin> mem_live (bus_store b))))"
proof (intro conjI impI)
  note inv = race_inv_run [OF assms(1)]
  with assms(2) obtain ns where
    ns: "sent_by cs (g_topic g) (g_ch g) ns (g_handled g @ mem_queue (g_ch g) (bus_store b))"
    by (auto simp: race_inv_def race_ok_def)
  let ?ms = "take (length (g_handled g)) ns"
  have handled: "g_handled g = map (\<lambda>n. ca_msg (cs ! n)) ?ms"
    using ns unfolding sent_by_def take_map [symmetric] by (metis append_eq_conv_conj)
  have sub: "set ?ms \<subseteq> {..<length cs}" using ns set_take_subset [of _ ns] by (auto simp: sent_by_def)
  have "count_list ?ms n \<le> count_list ns n" for n
    by (metis append_take_drop_id count_list_append le_add1)
  then have cnt: "\<forall>n<length cs. count_list ?ms n \<le> length (deliveries (g_topic g) (ca_msg (cs ! n)))"
    using ns unfolding sent_by_def by (meson add_leD1 le_trans)
  have ord: "sorted_wrt (\<lambda>m n. n \<notin> set (ca_after (cs ! m))) ?ms"
    using ns by (auto simp: sent_by_def intro: sorted_wrt_take)
  have srt: "sorted ?ms" if seq: "\<forall>n<length cs. set (ca_after (cs ! n)) = {..<n}"
    by (rule sorted_wrt_mono_rel [OF _ ord]) (use seq sub in force)
  show "\<exists>ns. g_handled g = map (\<lambda>n. ca_msg (cs ! n)) ns \<and> set ns \<subseteq> {..<length cs} \<and>
      (\<forall>n<length cs. count_list ns n \<le> length (deliveries (g_topic g) (ca_msg (cs ! n)))) \<and>
      sorted_wrt (\<lambda>m n. n \<notin> set (ca_after (cs ! m))) ns \<and>
      ((\<forall>n<length cs. set (ca_after (cs ! n)) = {..<n}) \<longrightarrow> sorted ns)"
    using handled sub cnt ord srt by (intro exI [of _ ?ms]) blast
  assume "racing_step (b, cs) None"
  from race_panic_cause [OF this inv] show "\<exists>n c ts. pending_call cs n (Some (c # ts)) \<and>
       ch_closed (ms_heap (bus_store b) ! c) \<and> (\<forall>t. (t, c) \<notin> mem_live (bus_store b))" by blast
qed

text \<open>A run in which two publishers reach two subscriptions in different orders.\<close>

definition collect_call :: "nat \<Rightarrow> 'p racing \<Rightarrow> 'p racing option" where
  "collect_call n x = (case x of (b, cs) \<Rightarrow>
     (case publish_targets (msg_Topic (ca_msg (cs ! n))) (bus_store b) of
        Inl _ \<Rightarrow> None
      | Inr ts \<Rightarrow> if n < length cs \<and> \<not> ca_done (cs ! n) \<and> ca_targets (cs ! n) = None
          then Some (b, cs[n := (cs ! n)\<lparr>ca_targets := Some ts\<rparr>]) else None))"

definition send_call :: "nat \<Rightarrow> 'p racing \<Rightarrow> 'p racing option" where
  "send_call n x = (case x of (b, cs) \<Rightarrow>
     if n < length cs \<and> \<not> ca_done (cs ! n) then
       (case ca_targets (cs ! n) of
          Some (c # ts) \<Rightarrow> map_option (\<lambda>st. (b\<lparr>bus_store := st\<rparr>, cs[n := (cs ! n)\<lparr>ca_targets := Some ts\<rparr>]))
             (try_send (ca_msg (cs ! n)) c (bus_store b))
        | _ \<Rightarrow> None)
     else None)"

lemma racing_run_calls:
  "racing_run x \<Longrightarrow> collect_call n x = Some y \<Longrightarrow> racing_run y"
  "racing_run x \<Longrightarrow> send_call n x = Some y \<Longrightarrow> racing_run y"
  by (cases x; cases y; auto simp: collect_call_def send_call_def pending_call_def
      intro!: race_more [of x] race_collect race_send split: sum.splits if_splits option.splits list.splits)+

definition demo_msg2 :: "unit message" where
  "demo_msg2 = demo_msg\<lparr>msg_ID := ''2''\<rparr>"

definition race_bus :: "(unit, unit memory_store) bus" where
  "race_bus = snd (Bus_Subscribe memory_ops ''user.login'' (snd (Bus_Subscribe memory_ops ''user.login'' (NewBus NewMemoryStore))))"

definition race_begun :: "unit racing" where
  "race_begun = (race_bus, [new_call demo_msg [], new_call demo_msg2 [new_call demo_msg []]])"

definition race_moves :: "unit racing \<Rightarrow> unit racing option" where
  "race_moves x = Option.bind (collect_call 0 x) (\<lambda>x. Option.bind (collect_call 1 x) (\<lambda>x.
     Option.bind (send_call 0 x) (\<lambda>x. Option.bind (send_call 1 x) (\<lambda>x.
     Option.bind (send_call 1 x) (send_call 0)))))"

definition race_handled :: "unit racing" where
  "race_handled = (case the (race_moves race_begun) of (b, cs) \<Rightarrow>
     (fold (\<lambda>i. goroutine_step memory_ops i CaseRecv) [0, 0, 1, 1] b, cs))"

lemma race_begun_run: "racing_run race_begun"
proof -
  let ?b0 = "NewBus NewMemoryStore :: (unit, unit memory_store) bus"
  let ?b1 = "snd (Bus_Subscribe memory_ops ''user.login'' ?b0)"
  have "racing_run (?b1, [])" by (rule race_more [OF race_start race_subscribe [OF prod.collapse [symmetric]]])
  then have "racing_run (race_bus, [])"
    unfolding race_bus_def by (rule race_more [OF _ race_subscribe [OF prod.collapse [symmetric]]])
  moreover have o: "\<not> bus_closed race_bus" by code_simp
  ultimately have "racing_run (race_bus, [new_call demo_msg []])"
    using race_more [OF _ race_publish [OF o, of "[]" demo_msg]] by simp
  from race_more [OF this race_publish [OF o, of _ demo_msg2]] show ?thesis by (simp add: race_begun_def)
qed

lemma race_moves_run: "racing_run x \<Longrightarrow> race_moves x = Some y \<Longrightarrow> racing_run y"
proof -
  assume x: "racing_run x" and y: "race_moves x = Some y"
  from y obtain x1 x2 x3 x4 x5 where c: "collect_call 0 x = Some x1" "collect_call 1 x1 = Some x2"
    "send_call 0 x2 = Some x3" "send_call 1 x3 = Some x4" "send_call 1 x4 = Some x5" "send_call 0 x5 = Some y"
    unfolding race_moves_def bind_eq_Some_conv by (elim exE conjE) (rule that)
  note x2 = racing_run_calls(1) [OF racing_run_calls(1) [OF x c(1)] c(2)]
  note x4 = racing_run_calls(2) [OF racing_run_calls(2) [OF x2 c(3)] c(4)]
  show ?thesis by (rule racing_run_calls(2) [OF racing_run_calls(2) [OF x4 c(5)] c(6)])
qed

lemma race_recv_run: "racing_run (b, cs) \<Longrightarrow> racing_run (fold (\<lambda>i. goroutine_step memory_ops i CaseRecv) is b, cs)"
proof (induction "is" arbitrary: b)
  case (Cons i "is")
  from Cons.IH [OF race_more [OF Cons.prems race_goroutine]] show ?case by simp
qed simp

lemma race_handled_run: "racing_run race_handled"
proof -
  have "race_moves race_begun \<noteq> None" by code_simp
  then obtain b cs where y: "race_moves race_begun = Some (b, cs)" by auto
  from race_recv_run [OF race_moves_run [OF race_begun_run y], of "[0, 0, 1, 1]"] show ?thesis by (simp add: race_handled_def y)
qed

theorem handlers_may_disagree:
  "\<exists>b cs. racing_run (b, cs) \<and> map g_topic (bus_gs b) = [''user.login'', ''user.login''] \<and>
    map g_handled (bus_gs b) = [[demo_msg, demo_msg2], [demo_msg2, demo_msg]] \<and> demo_msg \<noteq> demo_msg2"
proof -
  have "map g_topic (bus_gs (fst race_handled)) = [''user.login'', ''user.login'']"
    "map g_handled (bus_gs (fst race_handled)) = [[demo_msg, demo_msg2], [demo_msg2, demo_msg]]"
    "demo_msg \<noteq> demo_msg2" by code_simp+
  with race_handled_run show ?thesis by (metis prod.collapse)
qed

theorem handlers_see_published_in_order_witness:
  "\<exists>ns. g_handled (bus_gs (fst race_handled) ! 1) = map (\<lambda>n. ca_msg (snd race_handled ! n)) ns \<and>
     set ns \<subseteq> {..<2} \<and> g_handled (bus_gs (fst race_handled) ! 1) = [demo_msg2, demo_msg]"
proof -
  have r: "racing_run (fst race_handled, snd race_handled)" using race_handled_run by simp
  have "bus_gs (fst race_handled) ! 1 \<in> set (bus_gs (fst race_handled))" by (rule nth_mem) code_simp
  from handlers_see_published_in_order [OF r this] obtain ns where
    ns: "g_handled (bus_gs (fst race_handled) ! 1) = map (\<lambda>n. ca_msg (snd race_handled ! n)) ns"
      "set ns \<subseteq> {..<length (snd race_handled)}" by (elim conjE exE) (rule that)
  moreover have "length (snd race_handled) = 2" "g_handled (bus_gs (fst race_handled) ! 1) = [demo_msg2, demo_msg]"
    by code_simp+
  ultimately show ?thesis by (intro exI [of _ ns]) simp
qed

end
