(* ===== verification/WebhookService.thy ===== *)
theory WebhookService
  imports EventBus
begin

text \<open>
  \<^verbatim>\<open>core/internal/service/webhook.go\<close>: the service behind the webhook API and its handler that
  delivers events directly. Parameters: \<open>enc_list\<close> and \<open>dec\<close> are the JSON codec of a list of strings,
  \<open>fmt\<close> is \<^verbatim>\<open>Format(time.RFC3339)\<close>, the ids and the new secret are drawn by the caller of the model.
\<close>

section \<open>Requests and responses\<close>

datatype service_error = ErrWebhookInvalidURL | ErrWebhookNoEvents | ErrWebhookConfigNotFound
  | ServiceFailed string repo_error | SecretFailed string

record create_request =
  cr_TenantID :: string
  cr_Name :: string
  cr_URL :: string
  cr_Secret :: string
  cr_Events :: "string list"
  cr_RetryCount :: int
  cr_TimeoutSeconds :: int

record update_request =
  ur_Name :: "string option"
  ur_URL :: "string option"
  ur_Secret :: "string option"
  ur_Events :: "string list option"
  ur_Active :: "bool option"
  ur_RetryCount :: "int option"
  ur_TimeoutSeconds :: "int option"

record webhook_response =
  ws_ID :: string
  ws_TenantID :: string
  ws_Name :: string
  ws_URL :: string
  ws_Events :: "string list"
  ws_Active :: bool
  ws_RetryCount :: int
  ws_TimeoutSeconds :: int
  ws_CreatedAt :: string
  ws_UpdatedAt :: string

text \<open>A nil slice and an empty one are both the empty list.\<close>

definition joinEvents :: "(string list \<Rightarrow> string) \<Rightarrow> string list \<Rightarrow> string" where
  "joinEvents enc_list events = enc_list events"

definition splitEvents :: "(string \<Rightarrow> string list option) \<Rightarrow> string \<Rightarrow> string list" where
  "splitEvents dec eventsJSON = (case dec eventsJSON of None \<Rightarrow> [] | Some events \<Rightarrow> events)"

definition toWebhookResponse ::
    "(string \<Rightarrow> string list option) \<Rightarrow> (timestamp \<Rightarrow> string) \<Rightarrow> webhook_config \<Rightarrow> webhook_response" where
  "toWebhookResponse dec fmt cfg =
     \<lparr>ws_ID = wc_ID cfg, ws_TenantID = wc_TenantID cfg, ws_Name = wc_Name cfg, ws_URL = wc_URL cfg,
      ws_Events = splitEvents dec (wc_Events cfg), ws_Active = wc_Active cfg,
      ws_RetryCount = wc_RetryCount cfg, ws_TimeoutSeconds = wc_TimeoutSeconds cfg,
      ws_CreatedAt = fmt (wc_CreatedAt cfg), ws_UpdatedAt = fmt (wc_UpdatedAt cfg)\<rparr>"

section \<open>Operations\<close>

record codec =
  cd_enc :: "string list \<Rightarrow> string"
  cd_dec :: "string \<Rightarrow> string list option"
  cd_fmt :: "timestamp \<Rightarrow> string"

abbreviation respond :: "codec \<Rightarrow> webhook_config \<Rightarrow> webhook_response" where
  "respond K \<equiv> toWebhookResponse (cd_dec K) (cd_fmt K)"

definition new_config :: "codec \<Rightarrow> string \<Rightarrow> create_request \<Rightarrow> webhook_config" where
  "new_config K newID req =
     \<lparr>wc_ID = newID, wc_TenantID = cr_TenantID req, wc_Name = cr_Name req, wc_URL = cr_URL req,
      wc_Secret = cr_Secret req, wc_Events = joinEvents (cd_enc K) (cr_Events req), wc_Active = True,
      wc_RetryCount = (if cr_RetryCount req \<le> 0 then 3 else cr_RetryCount req),
      wc_TimeoutSeconds = (if cr_TimeoutSeconds req \<le> 0 then 10 else cr_TimeoutSeconds req),
      wc_CreatedAt = 0, wc_UpdatedAt = 0\<rparr>"

text \<open>\<^verbatim>\<open>Create\<close> of gorm fills the defaults and the times into the struct it is given.\<close>

definition Service_Create ::
    "codec \<Rightarrow> 'd webhook_db \<Rightarrow> timestamp \<Rightarrow> string \<Rightarrow> create_request \<Rightarrow> 'd \<Rightarrow>
     (service_error + webhook_response) \<times> 'd" where
  "Service_Create K D now newID req d =
     (if cr_URL req = '''' then (Inl ErrWebhookInvalidURL, d)
      else if length (cr_Events req) = 0 then (Inl ErrWebhookNoEvents, d)
      else (let cfg = new_config K newID req in
        case Create D now cfg d of
          (Inl err, d) \<Rightarrow> (Inl (ServiceFailed ''failed to create webhook'' err), d)
        | (Inr _, d) \<Rightarrow> (Inr (respond K (config_stored now cfg)), d)))"

definition find_config ::
    "'d webhook_db \<Rightarrow> string \<Rightarrow> 'd \<Rightarrow> service_error + webhook_config" where
  "find_config D rowID d =
     (case FindByID D rowID d of
        Inl ErrWebhookNotFound \<Rightarrow> Inl ErrWebhookConfigNotFound
      | Inl err \<Rightarrow> Inl (ServiceFailed ''failed to find webhook'' err)
      | Inr cfg \<Rightarrow> Inr cfg)"

definition Service_GetByID ::
    "codec \<Rightarrow> 'd webhook_db \<Rightarrow> string \<Rightarrow> 'd \<Rightarrow> service_error + webhook_response" where
  "Service_GetByID K D rowID d =
     (case find_config D rowID d of Inl err \<Rightarrow> Inl err | Inr cfg \<Rightarrow> Inr (respond K cfg))"

definition Service_ListByTenant ::
    "codec \<Rightarrow> 'd webhook_db \<Rightarrow> string \<Rightarrow> 'd \<Rightarrow> service_error + webhook_response list" where
  "Service_ListByTenant K D tenantID d =
     (case FindByTenantID D tenantID d of
        Inl err \<Rightarrow> Inl (ServiceFailed ''failed to list webhooks'' err)
      | Inr configs \<Rightarrow> Inr (map (respond K) configs))"

definition given :: "'a option \<Rightarrow> 'a \<Rightarrow> 'a" where
  "given new old = (case new of None \<Rightarrow> old | Some x \<Rightarrow> x)"

definition apply_update :: "codec \<Rightarrow> update_request \<Rightarrow> webhook_config \<Rightarrow> webhook_config" where
  "apply_update K req cfg = cfg\<lparr>wc_Name := given (ur_Name req) (wc_Name cfg),
     wc_URL := given (ur_URL req) (wc_URL cfg), wc_Secret := given (ur_Secret req) (wc_Secret cfg),
     wc_Events := given (map_option (joinEvents (cd_enc K)) (ur_Events req)) (wc_Events cfg),
     wc_Active := given (ur_Active req) (wc_Active cfg),
     wc_RetryCount := given (ur_RetryCount req) (wc_RetryCount cfg),
     wc_TimeoutSeconds := given (ur_TimeoutSeconds req) (wc_TimeoutSeconds cfg)\<rparr>"

definition Service_Update ::
    "codec \<Rightarrow> 'd webhook_db \<Rightarrow> timestamp \<Rightarrow> string \<Rightarrow> update_request \<Rightarrow> 'd \<Rightarrow>
     (service_error + webhook_response) \<times> 'd" where
  "Service_Update K D now rowID req d =
     (case find_config D rowID d of
        Inl err \<Rightarrow> (Inl err, d)
      | Inr cfg \<Rightarrow>
         (let cfg = apply_update K req cfg in
          case Update D now cfg d of
            (Inl err, d) \<Rightarrow> (Inl (ServiceFailed ''failed to update webhook'' err), d)
          | (Inr _, d) \<Rightarrow> (Inr (respond K cfg), d)))"

definition Service_Delete :: "'d webhook_db \<Rightarrow> string \<Rightarrow> 'd \<Rightarrow> (service_error + unit) \<times> 'd" where
  "Service_Delete D rowID d =
     (case Delete D rowID d of
        (Inl ErrWebhookNotFound, d) \<Rightarrow> (Inl ErrWebhookConfigNotFound, d)
      | (Inl err, d) \<Rightarrow> (Inl (ServiceFailed ''failed to delete webhook'' err), d)
      | (Inr _, d) \<Rightarrow> (Inr (), d))"

text \<open>\<open>apiKey\<close> is the result of \<^verbatim>\<open>random.APIKey(32)\<close>.\<close>

definition RotateSecret ::
    "'d webhook_db \<Rightarrow> timestamp \<Rightarrow> string + string \<Rightarrow> string \<Rightarrow> 'd \<Rightarrow> (service_error + string) \<times> 'd" where
  "RotateSecret D now apiKey rowID d =
     (case find_config D rowID d of
        Inl err \<Rightarrow> (Inl err, d)
      | Inr cfg \<Rightarrow>
         (case apiKey of
            Inl err \<Rightarrow> (Inl (SecretFailed err), d)
          | Inr newSecret \<Rightarrow>
             (case Update D now (cfg\<lparr>wc_Secret := newSecret\<rparr>) d of
                (Inl err, d) \<Rightarrow> (Inl (ServiceFailed ''failed to update webhook secret'' err), d)
              | (Inr _, d) \<Rightarrow> (Inr newSecret, d))))"

definition GetDeliveryLogs ::
    "'d webhook_db \<Rightarrow> string \<Rightarrow> int \<Rightarrow> int \<Rightarrow> 'd \<Rightarrow> repo_error + webhook_delivery_log list" where
  "GetDeliveryLogs D webhookConfigID limit offset d = ListDeliveryLogs D webhookConfigID limit offset d"

section \<open>Direct delivery\<close>

text \<open>The configurations for which \<^verbatim>\<open>handleEvent\<close> starts a goroutine, and one such goroutine.\<close>

definition handleEvent ::
    "(string \<Rightarrow> string list option) \<Rightarrow> 'd webhook_db \<Rightarrow> event \<Rightarrow> 'd \<Rightarrow> (event \<times> webhook_config) list" where
  "handleEvent dec D evt d =
     (case FindActiveByEvent dec D (evt_Type evt) d of
        Inl err \<Rightarrow> []
      | Inr configs \<Rightarrow> map (Pair evt) configs)"

definition direct_log ::
    "string \<Rightarrow> event \<Rightarrow> string \<Rightarrow> webhook_config \<Rightarrow> dispatch_result \<Rightarrow> webhook_delivery_log" where
  "direct_log logID evt payload cfg result = \<lparr>wl_ID = logID, wl_TenantID = '''', wl_WebhookConfigID = wc_ID cfg,
     wl_EventID = evt_ID evt, wl_EventType = evt_Type evt, wl_RequestURL = wc_URL cfg,
     wl_RequestBody = payload, wl_ResponseStatus = dr_StatusCode result,
     wl_ResponseBody = dr_ResponseBody result, wl_DurationMs = dr_DurationMs result,
     wl_Success = dr_Success result, wl_Attempt = 1, wl_Error = dr_Error result, wl_CreatedAt = 0\<rparr>"

definition dispatchToWebhook ::
    "('w, 'd) worker_env \<Rightarrow> (event \<Rightarrow> string + string) \<Rightarrow> event \<Rightarrow> webhook_config \<Rightarrow> ('w, 'd) worker_state \<Rightarrow>
     unit run \<times> ('w, 'd) worker_state" where
  "dispatchToWebhook V enc evt cfg s =
     (let payload = (case enc evt of Inl _ \<Rightarrow> '''' | Inr p \<Rightarrow> p) in
      case DispatchWithRetry (we_net V) (we_dispatcher V) evt (wc_URL cfg) (wc_Secret cfg)
             (wrap64 (wc_TimeoutSeconds cfg * 10 ^ 9)) (wc_RetryCount cfg) (wk_sim s) of
        (Panics p, sim) \<Rightarrow> (Panics p, s\<lparr>wk_sim := sim\<rparr>)
      | (Returns result, sim) \<Rightarrow>
          (let s = s\<lparr>wk_sim := sim, wk_uuids := wk_uuids s + 1\<rparr>
           in (Returns (), snd (on_db V (CreateDeliveryLog (we_db V) (clock V s 0)
                 (direct_log (we_uuid V (wk_uuids s - 1)) evt payload cfg result)) s))))"

definition NewWebhookService ::
    "(payload, 's) store_ops \<Rightarrow> (payload, 's) bus \<Rightarrow> dispatcher \<times> nat option \<times> (payload, 's) bus" where
  "NewWebhookService S b =
     (let dispatcher = NewDispatcher (30 * 10 ^ 9) [] in
      case SubscribeEvent S Wildcard b of
        (Inl err, b) \<Rightarrow> (dispatcher, None, b)
      | (Inr sub, b) \<Rightarrow> (dispatcher, Some sub, b))"

definition SubscribeToBus ::
    "(payload, 's) store_ops \<Rightarrow> EventType \<Rightarrow> (payload, 's) bus \<Rightarrow> (bus_error + nat) \<times> (payload, 's) bus" where
  "SubscribeToBus S eventType b = SubscribeEvent S eventType b"

section \<open>Rows of configurations\<close>

lemma config_of_ID: "config_of D d i = Some c \<Longrightarrow> c \<in> set (tb_rows (wd_configs D) d) \<and> wc_ID c = i"
  unfolding config_of_def by (rule lookup_key)

lemma find_config_row:
  assumes "webhook_laws D" "find_config D i d = Inr c" "distinct (map wc_ID (tb_rows (wd_configs D) d))"
  shows "config_of D d i = Some c"
proof -
  obtain cs where f: "tb_find (wd_configs D) (\<lambda>c. wc_ID c = i) None (Some (1, 0)) d = Inr (c # cs)"
    using assms(2)
    by (auto simp: find_config_def FindByID_def split: sum.splits list.splits repo_error.splits)
  from find_set [OF webhook_lawsD(1) [OF assms(1)] f] have "c \<in> set (tb_rows (wd_configs D) d)" "wc_ID c = i" by auto
  with lookup_in [OF assms(3), of c] show ?thesis by (simp add: config_of_def)
qed

lemma find_config_found:
  assumes "webhook_laws D" "config_of D d i = Some c" "distinct (map wc_ID (tb_rows (wd_configs D) d))"
    "tb_find (wd_configs D) (\<lambda>c. wc_ID c = i) None (Some (1, 0)) d = Inr cs"
  shows "find_config D i d = Inr c"
proof -
  from find_lawD [OF webhook_lawsD(1) [OF assms(1)] assms(4)] obtain ys where
    ys: "mset ys = mset (filter (\<lambda>c. wc_ID c = i) (tb_rows (wd_configs D) d))" "cs = take 1 ys"
    by (auto simp: window_def)
  from ys(1) have set_ys: "set ys = {x \<in> set (tb_rows (wd_configs D) d). wc_ID x = i}" by (metis set_filter set_mset_mset)
  with config_of_ID [OF assms(2)] obtain y ys' where "ys = y # ys'" by (cases ys) auto
  with ys(2) have "cs = [y]" "y \<in> set ys" by simp_all
  with set_ys lookup_in [OF assms(3), of y] assms(2) have "cs = [c]" by (simp add: config_of_def)
  with assms(4) show ?thesis by (simp add: find_config_def FindByID_def)
qed

lemma Update_config_of:
  assumes "webhook_laws D" "Update D now cfg d = (Inr (), d')"
  shows "config_of D d' i = map_option (\<lambda>c. if wc_ID c = wc_ID cfg
      then c\<lparr>wc_Name := wc_Name cfg, wc_URL := wc_URL cfg, wc_Secret := wc_Secret cfg,
        wc_Events := wc_Events cfg, wc_Active := wc_Active cfg, wc_RetryCount := wc_RetryCount cfg,
        wc_TimeoutSeconds := wc_TimeoutSeconds cfg, wc_UpdatedAt := now\<rparr> else c) (config_of D d i)"
    and "map wc_ID (tb_rows (wd_configs D) d') = map wc_ID (tb_rows (wd_configs D) d)"
    and "tb_rows (wd_outbox D) d' = tb_rows (wd_outbox D) d"
proof -
  let ?P = "\<lambda>c. wc_ID c = wc_ID cfg"
  let ?f = "\<lambda>c. c\<lparr>wc_Name := wc_Name cfg, wc_URL := wc_URL cfg, wc_Secret := wc_Secret cfg,
        wc_Events := wc_Events cfg, wc_Active := wc_Active cfg, wc_RetryCount := wc_RetryCount cfg,
        wc_TimeoutSeconds := wc_TimeoutSeconds cfg, wc_UpdatedAt := now\<rparr>"
  obtain q d1 where u: "tb_update (wd_configs D) ?P ?f d = (q, d1)" by fastforce
  from rows_affected_cases [of q d1 "Inr ()" d'] assms(2) u have q: "d1 = d'" "\<exists>n. q = Inr n"
    by (auto simp: Update_def)
  from update_lawD [OF webhook_lawsD(1) [OF assms(1)] u] q
  have rows: "tb_rows (wd_configs D) d' = map (\<lambda>c. if ?P c then ?f c else c) (tb_rows (wd_configs D) d)" by auto
  have key: "wc_ID (if ?P c then ?f c else c) = wc_ID c" for c by simp
  show "config_of D d' i = map_option (\<lambda>c. if ?P c then ?f c else c) (config_of D d i)"
    unfolding config_of_def rows by (rule lookup_map [where k = wc_ID, OF key])
  show "map wc_ID (tb_rows (wd_configs D) d') = map wc_ID (tb_rows (wd_configs D) d)" by (simp add: rows)
  show "tb_rows (wd_outbox D) d' = tb_rows (wd_outbox D) d"
    using webhook_lawsD(5) [OF assms(1)] u q(1) unfolding independent_def by (metis snd_conv)
qed

lemma Create_config_of:
  assumes "webhook_laws D" "Create D now cfg d = (Inr (), d')" "distinct (map wc_ID (tb_rows (wd_configs D) d))"
  shows "config_of D d' i = (if i = wc_ID cfg then Some (config_stored now cfg) else config_of D d i)"
    and "distinct (map wc_ID (tb_rows (wd_configs D) d'))"
proof -
  obtain q d1 where i: "tb_insert (wd_configs D) [config_stored now cfg] d = (q, d1)" by fastforce
  with assms(2) have q: "d1 = d'" "q = Inr ()" by (cases q; simp add: Create_def)+
  from insert_lawD(1) [OF webhook_lawsD(1) [OF assms(1)] i, unfolded q sum.case]
  have rows: "tb_rows (wd_configs D) d' = tb_rows (wd_configs D) d @ [config_stored now cfg]"
    and dist: "distinct (map wc_ID (tb_rows (wd_configs D) d'))" using assms(3) by blast+
  show "distinct (map wc_ID (tb_rows (wd_configs D) d'))" by (rule dist)
  have key: "wc_ID (config_stored now cfg) = wc_ID cfg" by (simp add: config_stored_def)
  have "config_of D d (wc_ID cfg) = None"
  proof (cases "config_of D d (wc_ID cfg)")
    case (Some c)
    from config_of_ID [OF this] have "wc_ID cfg \<in> wc_ID ` set (tb_rows (wd_configs D) d)" by (metis image_eqI)
    with dist show ?thesis unfolding rows by (simp add: key)
  qed
  then show "config_of D d' i = (if i = wc_ID cfg then Some (config_stored now cfg) else config_of D d i)"
    unfolding config_of_def rows by (auto simp: key map_add_def split: option.splits)
qed

section \<open>Properties\<close>

text \<open>
  A webhook that was created is the one that is read back: the service answers a request for
  the new id with the response of the creation, which shows the tenant, name, URL and events of the
  request, active, with 3 retries and 10 seconds when the request gives none, and no secret; the
  other configurations are as before.
\<close>

theorem created_webhook_is_read_back:
  assumes "webhook_laws D" "distinct (map wc_ID (tb_rows (wd_configs D) d))"
    and "cd_dec K (cd_enc K (cr_Events req)) = Some (cr_Events req)"
    and "Service_Create K D now newID req d = (Inr resp, d')"
    and "tb_find (wd_configs D) (\<lambda>c. wc_ID c = newID) None (Some (1, 0)) d' = Inr found"
  shows "Service_GetByID K D newID d' = Inr resp \<and> ws_ID resp = newID \<and> ws_TenantID resp = cr_TenantID req \<and>
    ws_Name resp = cr_Name req \<and> ws_URL resp = cr_URL req \<and> cr_URL req \<noteq> '''' \<and>
    ws_Events resp = cr_Events req \<and> cr_Events req \<noteq> [] \<and> ws_Active resp \<and>
    ws_RetryCount resp = (if cr_RetryCount req \<le> 0 then 3 else cr_RetryCount req) \<and>
    ws_TimeoutSeconds resp = (if cr_TimeoutSeconds req \<le> 0 then 10 else cr_TimeoutSeconds req) \<and>
    (\<forall>i. i \<noteq> newID \<longrightarrow> config_of D d' i = config_of D d i)"
proof -
  let ?c = "new_config K newID req"
  from assms(4) have ne: "cr_URL req \<noteq> ''''" "cr_Events req \<noteq> []" by (auto simp: Service_Create_def split: if_splits)
  with assms(4) have c: "Create D now ?c d = (Inr (), d')" and resp: "resp = respond K (config_stored now ?c)"
    by (auto simp: Service_Create_def Let_def split: prod.splits sum.splits)
  have id: "wc_ID ?c = newID" by (simp add: new_config_def)
  note C = Create_config_of [OF assms(1) c assms(2)]
  from C(1) [of newID] id have "config_of D d' newID = Some (config_stored now ?c)" by simp
  from find_config_found [OF assms(1) this C(2) assms(5)] resp have "Service_GetByID K D newID d' = Inr resp"
    by (simp add: Service_GetByID_def)
  with ne C(1) id resp assms(3) show ?thesis
    by (auto simp: toWebhookResponse_def config_stored_def new_config_def joinEvents_def splitEvents_def or_default_def)
qed

definition demo_codec :: codec where
  "demo_codec = \<lparr>cd_enc = concat, cd_dec = (\<lambda>s. Some [s]), cd_fmt = (\<lambda>_. ''t'')\<rparr>"

definition demo_request :: create_request where
  "demo_request = \<lparr>cr_TenantID = ''t2'', cr_Name = ''n'', cr_URL = ''https://h/y'', cr_Secret = ''k'',
     cr_Events = [''user.login''], cr_RetryCount = 0, cr_TimeoutSeconds = 0\<rparr>"

theorem created_webhook_is_read_back_witness:
  "\<exists>resp d'. Service_Create demo_codec ref_webhook_db 5 ''c9'' demo_request demo_rows = (Inr resp, d') \<and>
    Service_GetByID demo_codec ref_webhook_db ''c9'' d' = Inr resp \<and> ws_RetryCount resp = 3 \<and>
    ws_Events resp = [''user.login'']"
proof -
  let ?c = "Service_Create demo_codec ref_webhook_db 5 ''c9'' demo_request demo_rows"
  have "is_ok (fst ?c)" by code_simp
  then obtain resp where c: "?c = (Inr resp, snd ?c)" unfolding is_ok_iff by (metis prod.collapse)
  have d: "distinct (map wc_ID (tb_rows (wd_configs ref_webhook_db) demo_rows))"
    by (simp add: demo_rows_def demo_config_def)
  have e: "cd_dec demo_codec (cd_enc demo_codec (cr_Events demo_request)) = Some (cr_Events demo_request)"
    by (simp add: demo_codec_def demo_request_def)
  have "\<exists>cs. tb_find (wd_configs ref_webhook_db) (\<lambda>c. wc_ID c = ''c9'') None (Some (1, 0)) (snd ?c) = Inr cs"
    by (simp add: ref_webhook_db_def ref_table_def ref_find_def Let_def)
  then obtain cs where f: "tb_find (wd_configs ref_webhook_db) (\<lambda>c. wc_ID c = ''c9'') None (Some (1, 0)) (snd ?c) = Inr cs" ..
  from created_webhook_is_read_back [OF ref_webhook_laws d e c f] c show ?thesis
    by (intro exI [of _ resp] exI [of _ "snd ?c"]) (simp add: demo_request_def)
qed

text \<open>
  An update changes the named fields and nothing else: after a successful update the row has the
  given values and, where none was given, the old ones, with a new update time; tenant, id and
  creation time never change, nor does any other configuration, and entries already in the outbox
  keep the URL and the secret they were written with.
\<close>

theorem update_changes_given_fields:
  assumes "webhook_laws D" "distinct (map wc_ID (tb_rows (wd_configs D) d))"
    and "Service_Update K D now rowID req d = (Inr resp, d')"
  shows "\<exists>c. config_of D d rowID = Some c \<and>
    config_of D d' rowID = Some ((apply_update K req c)\<lparr>wc_UpdatedAt := now\<rparr>) \<and> resp = respond K (apply_update K req c) \<and>
    ws_ID resp = rowID \<and> ws_TenantID resp = wc_TenantID c \<and>
    (\<forall>i. i \<noteq> rowID \<longrightarrow> config_of D d' i = config_of D d i) \<and> tb_rows (wd_outbox D) d' = tb_rows (wd_outbox D) d"
proof -
  from assms(3) obtain c where f: "find_config D rowID d = Inr c"
    and u: "Update D now (apply_update K req c) d = (Inr (), d')" and r: "resp = respond K (apply_update K req c)"
    by (auto simp: Service_Update_def Let_def split: sum.splits prod.splits)
  from find_config_row [OF assms(1) f assms(2)] have c: "config_of D d rowID = Some c" .
  with config_of_ID [OF c] have id: "wc_ID (apply_update K req c) = rowID" "wc_ID c = rowID"
    by (simp_all add: apply_update_def)
  note U = Update_config_of [OF assms(1) u]
  have other: "config_of D d' i = config_of D d i" if "i \<noteq> rowID" for i
    using U(1) [of i] that id config_of_ID [of D d i] by (cases "config_of D d i") auto
  have "config_of D d' rowID = Some ((apply_update K req c)\<lparr>wc_UpdatedAt := now\<rparr>)"
    using U(1) [of rowID] c id by (simp add: apply_update_def)
  with c r other U(3) id show ?thesis by (auto simp: toWebhookResponse_def apply_update_def)
qed

definition demo_update :: update_request where
  "demo_update = \<lparr>ur_Name = None, ur_URL = Some ''https://h/z'', ur_Secret = None, ur_Events = None,
     ur_Active = Some False, ur_RetryCount = None, ur_TimeoutSeconds = None\<rparr>"

theorem update_changes_given_fields_witness:
  "\<exists>resp d' c. Service_Update demo_codec ref_webhook_db 5 ''c2'' demo_update demo_outbox = (Inr resp, d') \<and>
    config_of ref_webhook_db d' ''c2'' = Some ((apply_update demo_codec demo_update c)\<lparr>wc_UpdatedAt := 5\<rparr>) \<and>
    tb_rows (wd_outbox ref_webhook_db) d' = tb_rows (wd_outbox ref_webhook_db) demo_outbox"
proof -
  let ?c = "Service_Update demo_codec ref_webhook_db 5 ''c2'' demo_update demo_outbox"
  have "is_ok (fst ?c)" by code_simp
  then obtain resp where c: "?c = (Inr resp, snd ?c)" unfolding is_ok_iff by (metis prod.collapse)
  have d: "distinct (map wc_ID (tb_rows (wd_configs ref_webhook_db) demo_outbox))"
    by (simp add: demo_rows_def demo_outbox_def demo_config_def)
  from update_changes_given_fields [OF ref_webhook_laws d c] c show ?thesis by metis
qed

text \<open>Rotating the secret is an update of that one field.\<close>

lemma RotateSecret_config_of:
  assumes "webhook_laws D" "distinct (map wc_ID (tb_rows (wd_configs D) d))"
    and "RotateSecret D now apiKey rowID d = (Inr k, d')"
  shows "apiKey = Inr k \<and> (\<exists>c. config_of D d rowID = Some c \<and>
    config_of D d' rowID = Some (c\<lparr>wc_Secret := k, wc_UpdatedAt := now\<rparr>)) \<and>
    tb_rows (wd_outbox D) d' = tb_rows (wd_outbox D) d"
proof -
  from assms(3) obtain c where f: "find_config D rowID d = Inr c" and k: "apiKey = Inr k"
    and u: "Update D now (c\<lparr>wc_Secret := k\<rparr>) d = (Inr (), d')"
    by (auto simp: RotateSecret_def split: sum.splits prod.splits)
  from find_config_row [OF assms(1) f assms(2)] have c: "config_of D d rowID = Some c" .
  with config_of_ID [OF c] Update_config_of [OF assms(1) u] k show ?thesis by simp
qed

text \<open>
  C26. Events are not confined to their tenant. Writing an event of one tenant to the outbox creates
  a deliverable entry for every active subscription of every other tenant as well, with that
  tenant's URL and the event's payload; the direct handler likewise starts a delivery for every
  active subscription, whatever its tenant.
\<close>

theorem events_reach_other_tenants:
  assumes "webhook_laws D" "distinct (map wc_ID (tb_rows (wd_configs D) d))"
    and "c \<in> subscribed dec D (evt_Type evt) d" "wc_TenantID c \<noteq> evt_Subject evt"
    and "CreateOutboxEntries dec D ids nows (evt_Type evt) (evt_ID evt) (evt_Subject evt) payload d = (Inr (), d')"
    and "(evt_ID evt, wc_ID c) \<notin> outbox_index ` set (tb_rows (wd_outbox D) d)"
  shows "(\<exists>e\<in>set (tb_rows (wd_outbox D) d'). wo_TenantID e = evt_Subject evt \<and> wo_WebhookID e = wc_ID c \<and>
      wo_URL e = wc_URL c \<and> wo_Payload e = payload \<and> wo_Status e = OutboxStatusPending) \<and>
    (\<forall>cs. FindActiveByEvent dec D (evt_Type evt) d = Inr cs \<longrightarrow> (evt, c) \<in> set (handleEvent dec D evt d))"
proof (intro conjI allI impI)
  have "(evt_ID evt, wc_ID c) \<in> outbox_index ` set (tb_rows (wd_outbox D) d')"
    unfolding CreateOutboxEntries_index [OF assms(1,5)] using assms(3) by blast
  then obtain e where e: "e \<in> set (tb_rows (wd_outbox D) d')" "outbox_index e = (evt_ID evt, wc_ID c)"
    by (metis (no_types) imageE)
  from CreateOutboxEntries_rows(2) [OF assms(1,5)] obtain cs where cs: "set cs = subscribed dec D (evt_Type evt) d"
    and rows: "tb_rows (wd_outbox D) d' = insert_new outbox_index (map (outbox_stored (nows (length cs)) \<circ>
          outbox_entry ids nows (evt_Type evt) (evt_ID evt) (evt_Subject evt) payload) (enumerate 0 cs)) (tb_rows (wd_outbox D) d)"
    (is "_ = insert_new _ ?new _") by auto
  have "e \<in> set (tb_rows (wd_outbox D) d) \<union> set ?new"
    using e(1) insert_new_set [of "tb_rows (wd_outbox D) d" outbox_index ?new] unfolding rows by blast
  moreover have "e \<notin> set (tb_rows (wd_outbox D) d)" using e(2) assms(6) by (metis image_eqI)
  ultimately have "e \<in> set ?new" by blast
  from entry_for_new [OF this] cs obtain c' where c': "c' \<in> subscribed dec D (evt_Type evt) d"
    "entry_for (evt_Type evt) (evt_ID evt) (evt_Subject evt) payload c' e" by blast
  with e(2) have "wc_ID c' = wc_ID c" by (simp add: entry_for_def)
  with c'(1) assms(2,3) have "c' = c"
    unfolding subscribed_def distinct_map by (auto dest: inj_onD)
  with c'(2) e show "\<exists>e\<in>set (tb_rows (wd_outbox D) d'). wo_TenantID e = evt_Subject evt \<and> wo_WebhookID e = wc_ID c \<and>
      wo_URL e = wc_URL c \<and> wo_Payload e = payload \<and> wo_Status e = OutboxStatusPending"
    by (intro bexI [of _ e]) (simp_all add: entry_for_def outbox_index_def)
next
  fix cs
  assume f: "FindActiveByEvent dec D (evt_Type evt) d = Inr cs"
  with findActiveByEvent_set [OF assms(1)] assms(3) show "(evt, c) \<in> set (handleEvent dec D evt d)"
    by (auto simp: handleEvent_def FindActiveByEvent_def)
qed

definition foreign_rows :: ref_rows where
  "foreign_rows = demo_rows\<lparr>rr_configs := [(demo_config ''c1'' ''user.login'')\<lparr>wc_TenantID := ''t2''\<rparr>]\<rparr>"

theorem events_reach_other_tenants_witness:
  "\<exists>d'. CreateOutboxEntries demo_dec ref_webhook_db demo_ids (\<lambda>_. 7) (evt_Type ok_event) (evt_ID ok_event) (evt_Subject ok_event) ''{}'' foreign_rows = (Inr (), d') \<and>
    list_ex (\<lambda>e. wo_TenantID e = ''t1'' \<and> wo_WebhookID e = ''c1'') (tb_rows (wd_outbox ref_webhook_db) d')"
proof -
  let ?c = "CreateOutboxEntries demo_dec ref_webhook_db demo_ids (\<lambda>_. 7) (evt_Type ok_event) (evt_ID ok_event) (evt_Subject ok_event) ''{}'' foreign_rows"
  let ?cfg = "(demo_config ''c1'' ''user.login'')\<lparr>wc_TenantID := ''t2''\<rparr>"
  have "fst ?c = Inr ()" by code_simp
  then obtain d' where c: "?c = (Inr (), d')" by (metis prod.collapse)
  have d: "distinct (map wc_ID (tb_rows (wd_configs ref_webhook_db) foreign_rows))" by (simp add: foreign_rows_def)
  have s: "?cfg \<in> subscribed demo_dec ref_webhook_db (evt_Type ok_event) foreign_rows"
    by (simp add: subscribed_def foreign_rows_def demo_config_def eventMatches_def demo_dec_def ok_event_def ActionUserLogin_def)
  have t: "wc_TenantID ?cfg \<noteq> evt_Subject ok_event" by (simp add: ok_event_def)
  have n: "(evt_ID ok_event, wc_ID ?cfg) \<notin> outbox_index ` set (tb_rows (wd_outbox ref_webhook_db) foreign_rows)"
    by (simp add: foreign_rows_def demo_rows_def)
  from events_reach_other_tenants [OF ref_webhook_laws d s t c n]
  have "\<exists>e\<in>set (tb_rows (wd_outbox ref_webhook_db) d'). wo_TenantID e = evt_Subject ok_event \<and> wo_WebhookID e = wc_ID ?cfg"
    by blast
  with c show ?thesis
    by (intro exI [of _ d']) (auto simp: list_ex_iff ok_event_def demo_config_def)
qed

end
