(* ===== verification/KexRandom.thy ===== *)
theory KexRandom
  imports GoStrings "HOL-Library.Word"
begin

text \<open>
  \<^verbatim>\<open>kex-utils/pkg/kexrandom\<close>: passwords, API keys, verification codes and version 7 UUIDs.
  The operating system's random source is a stream of draws; a draw that is \<^term>\<open>None\<close> is a
  read error of the reader. A generator is a function of the stream that returns the value (or
  the reader's error, as \<^term>\<open>None\<close>), or panics, and the rest of the stream. (The default
  reader of current Go versions never fails; the error branches are the source's own.)
\<close>

unbundle bit_operations_syntax

type_synonym entropy = "nat \<Rightarrow> nat option"
type_synonym 'a rnd = "entropy \<Rightarrow> 'a option run \<times> entropy"

definition rest_of :: "entropy \<Rightarrow> entropy" where
  "rest_of e = (\<lambda>n. e (Suc n))"

definition rnd_return :: "'a \<Rightarrow> 'a rnd" where
  "rnd_return x = (\<lambda>e. (Returns (Some x), e))"

text \<open>\<open>if err != nil { return "", err }\<close> after a call, and the propagation of a panic.\<close>

definition rnd_then :: "'a rnd \<Rightarrow> ('a \<Rightarrow> 'b rnd) \<Rightarrow> 'b rnd" where
  "rnd_then m f = (\<lambda>e. case m e of
      (Panics p, e') \<Rightarrow> (Panics p, e')
    | (Returns None, e') \<Rightarrow> (Returns None, e')
    | (Returns (Some x), e') \<Rightarrow> f x e')"

text \<open>\<^verbatim>\<open>rand.Int(rand.Reader, max)\<close> and \<^verbatim>\<open>rand.Read\<close> of a slice of \<open>n\<close> bytes.\<close>

definition rand_Int :: "nat \<Rightarrow> nat rnd" where
  "rand_Int m = (\<lambda>e.
     if m = 0 then (Panics ''crypto/rand: argument to Int is <= 0'', e)
     else (case e 0 of
             None \<Rightarrow> (Returns None, rest_of e)
           | Some x \<Rightarrow> (Returns (Some (x mod m)), rest_of e)))"

fun rand_Read :: "nat \<Rightarrow> 8 word list rnd" where
  "rand_Read 0 = rnd_return []"
| "rand_Read (Suc n) =
     rnd_then (rand_Int 256) (\<lambda>b. rnd_then (rand_Read n) (\<lambda>bs. rnd_return (of_nat b # bs)))"

subsection \<open>Strings over a character set\<close>

definition passwordLower :: string where
  "passwordLower = ''abcdefghijklmnopqrstuvwxyz''"

definition passwordUpper :: string where
  "passwordUpper = ''ABCDEFGHIJKLMNOPQRSTUVWXYZ''"

definition passwordDigits :: string where
  "passwordDigits = ''0123456789''"

definition passwordSpecial :: string where
  "passwordSpecial = ''!@#$%^&*()-_=+[]{}|;:,.<>?''"

definition PasswordChars :: string where
  "PasswordChars = passwordLower @ passwordUpper @ passwordDigits @ passwordSpecial"

definition apiKeyChars :: string where
  "apiKeyChars = ''ABCDEFGHJKLMNPQRSTUVWXYZabcdefghijkmnpqrstuvwxyz23456789''"

definition code_digits :: string where
  "code_digits = ''0123456789''"

definition alphaDigits :: string where
  "alphaDigits = ''ABCDEFGHIJKLMNOPQRSTUVWXYZ0123456789''"

text \<open>One character of the set, and the loop that fills \<open>n\<close> positions.\<close>

definition pick_char :: "string \<Rightarrow> char rnd" where
  "pick_char charset = rnd_then (rand_Int (length charset)) (\<lambda>k. rnd_return (charset ! k))"

fun pick_chars :: "nat \<Rightarrow> string \<Rightarrow> string rnd" where
  "pick_chars 0 charset = rnd_return []"
| "pick_chars (Suc n) charset =
     rnd_then (pick_char charset) (\<lambda>c. rnd_then (pick_chars n charset) (\<lambda>s. rnd_return (c # s)))"

definition PasswordFromCharset :: "int \<Rightarrow> string \<Rightarrow> string rnd" where
  "PasswordFromCharset len charset =
     (if len \<le> 0 then rnd_return [] else pick_chars (nat len) charset)"

definition Password :: "int \<Rightarrow> string rnd" where
  "Password len = PasswordFromCharset len PasswordChars"

definition APIKey :: "int \<Rightarrow> string rnd" where
  "APIKey len = PasswordFromCharset len apiKeyChars"

definition randomString :: "int \<Rightarrow> string \<Rightarrow> string rnd" where
  "randomString len charset =
     (if len \<le> 0 then rnd_return [] else pick_chars (nat len) charset)"

definition VerifyCode :: "int \<Rightarrow> string rnd" where
  "VerifyCode len = randomString len code_digits"

definition VerifyCodeAlpha :: "int \<Rightarrow> string rnd" where
  "VerifyCodeAlpha len = randomString len alphaDigits"

text \<open>The \<open>Must\<close> variants turn the reader's error into a panic with that error.\<close>

definition must :: "'a rnd \<Rightarrow> 'a rnd" where
  "must m = (\<lambda>e. case m e of
      (Returns None, e') \<Rightarrow> (Panics ''read error'', e')
    | r \<Rightarrow> r)"

definition MustPassword :: "int \<Rightarrow> string rnd" where
  "MustPassword len = must (Password len)"

definition MustAPIKey :: "int \<Rightarrow> string rnd" where
  "MustAPIKey len = must (APIKey len)"

definition MustVerifyCode :: "int \<Rightarrow> string rnd" where
  "MustVerifyCode len = must (VerifyCode len)"

definition MustVerifyCodeAlpha :: "int \<Rightarrow> string rnd" where
  "MustVerifyCodeAlpha len = must (VerifyCodeAlpha len)"

subsection \<open>Passwords with every kind of character\<close>

definition swap :: "nat \<Rightarrow> nat \<Rightarrow> 'a list \<Rightarrow> 'a list" where
  "swap i j b = b[i := b ! j, j := b ! i]"

text \<open>
  \<open>shuffle_from i b\<close> runs the loop of \<open>shuffleBytes\<close> for \<open>i\<close> down to 1. The error of
  \<^verbatim>\<open>rand.Int\<close> is ignored there, so a read error dereferences its nil result.
\<close>

fun shuffle_from :: "nat \<Rightarrow> bytes \<Rightarrow> bytes rnd" where
  "shuffle_from 0 b = rnd_return b"
| "shuffle_from (Suc i) b = (\<lambda>e. case rand_Int (Suc (Suc i)) e of
      (Panics p, e') \<Rightarrow> (Panics p, e')
    | (Returns None, e') \<Rightarrow> (Panics ''nil pointer dereference'', e')
    | (Returns (Some j), e') \<Rightarrow> shuffle_from i (swap (Suc i) j b) e')"

definition shuffleBytes :: "bytes \<Rightarrow> bytes rnd" where
  "shuffleBytes b = shuffle_from (length b - 1) b"

fun pick_each :: "string list \<Rightarrow> string rnd" where
  "pick_each [] = rnd_return []"
| "pick_each (cs # css) =
     rnd_then (pick_char cs) (\<lambda>c. rnd_then (pick_each css) (\<lambda>s. rnd_return (c # s)))"

definition SecurePassword :: "int \<Rightarrow> string rnd" where
  "SecurePassword len =
     (if len < 4 then rnd_return []
      else rnd_then (pick_each [passwordLower, passwordUpper, passwordDigits, passwordSpecial])
             (\<lambda>req. rnd_then (pick_chars (nat len - 4) PasswordChars)
               (\<lambda>rest. shuffleBytes (req @ rest))))"

definition MustSecurePassword :: "int \<Rightarrow> string rnd" where
  "MustSecurePassword len = must (SecurePassword len)"

subsection \<open>UUIDs\<close>

text \<open>
  \<open>NewUUID now_ms\<close> at the clock reading \<open>now_ms\<close>, the result of \<^verbatim>\<open>time.Now().UnixMilli()\<close>.
  The assignments to bytes 6 and 8 before the first read are overwritten by it. On a read
  error the code returns the partly filled array with the error, which every caller discards.
\<close>

type_synonym uuid = "8 word list"

definition ms_byte :: "nat \<Rightarrow> 64 word \<Rightarrow> 8 word" where
  "ms_byte k ms = ucast (drop_bit k ms)"

definition ms_bytes :: "64 word \<Rightarrow> 8 word list" where
  "ms_bytes ms = [ms_byte 40 ms, ms_byte 32 ms, ms_byte 24 ms, ms_byte 16 ms, ms_byte 8 ms,
                  ms_byte 0 ms]"

definition NewUUID :: "int \<Rightarrow> uuid rnd" where
  "NewUUID now_ms =
     rnd_then (rand_Read 2) (\<lambda>ra. rnd_then (rand_Read 8) (\<lambda>rb.
       rnd_return
         (let u = ms_bytes (word_of_int now_ms) @ ra;
              u = u[6 := 0x70 OR (u ! 6 AND 0x0F)];
              u = u @ rb
          in u[8 := 0x80 OR (u ! 8 AND 0x3F)])))"

definition MustUUID :: "int \<Rightarrow> uuid rnd" where
  "MustUUID now_ms = must (NewUUID now_ms)"

definition byte_string :: "8 word list \<Rightarrow> bytes" where
  "byte_string = map (\<lambda>w. char_of (unat w))"

definition hexw :: "8 word list \<Rightarrow> string" where
  "hexw ws = hex_encode (byte_string ws)"

definition FormatUUID :: "uuid \<Rightarrow> string" where
  "FormatUUID u =
     hexw (take 4 u) @ ''-'' @ hexw (take 2 (drop 4 u)) @ ''-'' @ hexw (take 2 (drop 6 u)) @
     ''-'' @ hexw (take 2 (drop 8 u)) @ ''-'' @ hexw (drop 10 u)"

definition NewUUIDString :: "int \<Rightarrow> string rnd" where
  "NewUUIDString now_ms = rnd_then (NewUUID now_ms) (\<lambda>u. rnd_return (FormatUUID u))"

definition MustUUIDString :: "int \<Rightarrow> string rnd" where
  "MustUUIDString now_ms = rnd_then (MustUUID now_ms) (\<lambda>u. rnd_return (FormatUUID u))"

datatype uuid_error = ErrInvalidUUIDLength | ErrUUIDHex

definition dashed :: "string \<Rightarrow> bool" where
  "dashed s \<longleftrightarrow> length s = 36 \<and> s ! 8 = CHR ''-'' \<and> s ! 13 = CHR ''-'' \<and> s ! 18 = CHR ''-'' \<and>
     s ! 23 = CHR ''-''"

definition undash :: "string \<Rightarrow> string" where
  "undash s = take 8 s @ take 4 (drop 9 s) @ take 4 (drop 14 s) @ take 4 (drop 19 s) @ drop 24 s"

definition ParseUUID :: "string \<Rightarrow> uuid_error + uuid" where
  "ParseUUID s =
     (case hex_decode (if dashed s then undash s else s) of
        None \<Rightarrow> Inl ErrUUIDHex
      | Some b \<Rightarrow> if length b \<noteq> 16 then Inl ErrInvalidUUIDLength
                  else Inr (map (\<lambda>c. of_nat (of_char c)) b))"

subsection \<open>What the generators return\<close>

text \<open>
  \<open>reads e\<close>: the reader never fails. \<open>yields m P\<close>: then \<open>m\<close> neither panics nor fails, and its
  result satisfies \<open>P\<close>.
\<close>

definition reads :: "entropy \<Rightarrow> bool" where
  "reads e \<longleftrightarrow> (\<forall>n. e n \<noteq> None)"

definition yields :: "'a rnd \<Rightarrow> ('a \<Rightarrow> bool) \<Rightarrow> bool" where
  "yields m P \<longleftrightarrow> (\<forall>e. reads e \<longrightarrow> (\<exists>x e'. m e = (Returns (Some x), e') \<and> reads e' \<and> P x))"

lemma yieldsI:
  "(\<And>e. reads e \<Longrightarrow> \<exists>x e'. m e = (Returns (Some x), e') \<and> reads e' \<and> P x) \<Longrightarrow> yields m P"
  by (simp add: yields_def)

lemma yieldsE:
  assumes "yields m P" "reads e"
  obtains x e' where "m e = (Returns (Some x), e')" "reads e'" "P x"
  using assms by (auto simp: yields_def)

lemma yields_return: "P x \<Longrightarrow> yields (rnd_return x) P"
  by (simp add: yields_def rnd_return_def)

lemma yields_then:
  assumes m: "yields m P" and f: "\<And>x. P x \<Longrightarrow> yields (f x) Q"
  shows "yields (rnd_then m f) Q"
proof (rule yieldsI)
  fix e assume e: "reads e"
  obtain x e1 where 1: "m e = (Returns (Some x), e1)" "reads e1" "P x"
    by (rule yieldsE [OF m e])
  obtain y e2 where "f x e1 = (Returns (Some y), e2)" "reads e2" "Q y"
    using f [OF 1(3)] 1(2) by (rule yieldsE)
  then show "\<exists>y e'. rnd_then m f e = (Returns (Some y), e') \<and> reads e' \<and> Q y"
    using 1(1) by (simp add: rnd_then_def)
qed

lemma yields_mono: "yields m P \<Longrightarrow> (\<And>x. P x \<Longrightarrow> Q x) \<Longrightarrow> yields m Q"
  unfolding yields_def by meson

lemma yields_must: "yields m P \<Longrightarrow> yields (must m) P"
  by (force simp: yields_def must_def)

lemma yields_rand_Int: "0 < m \<Longrightarrow> yields (rand_Int m) (\<lambda>k. k < m)"
proof (rule yieldsI)
  fix e assume "0 < m" "reads e"
  then obtain x where "e 0 = Some x" by (auto simp: reads_def)
  with \<open>0 < m\<close> \<open>reads e\<close>
  show "\<exists>k e'. rand_Int m e = (Returns (Some k), e') \<and> reads e' \<and> k < m"
    by (simp add: rand_Int_def reads_def rest_of_def)
qed

lemma yields_rand_Read: "yields (rand_Read n) (\<lambda>bs. length bs = n)"
proof (induction n)
  case (Suc n)
  show ?case unfolding rand_Read.simps
    by (rule yields_then [OF yields_rand_Int], simp)
      (rule yields_then [OF Suc], simp add: yields_return)
qed (simp add: yields_return)

lemma rand_Read_length: "rand_Read n e = (Returns (Some w), e') \<Longrightarrow> length w = n"
  by (induction n arbitrary: e w e')
    (auto simp: rnd_return_def rnd_then_def split: prod.splits run.splits option.splits)

lemma yields_pick_char: "cs \<noteq> [] \<Longrightarrow> yields (pick_char cs) (\<lambda>c. c \<in> set cs)"
  unfolding pick_char_def
  by (rule yields_then [OF yields_rand_Int]) (simp_all add: yields_return)

lemma yields_pick_chars:
  assumes "cs \<noteq> []"
  shows "yields (pick_chars n cs) (\<lambda>s. length s = n \<and> set s \<subseteq> set cs)"
proof (induction n)
  case (Suc n)
  show ?case unfolding pick_chars.simps
    by (rule yields_then [OF yields_pick_char [OF assms]], rule yields_then [OF Suc])
      (simp add: yields_return)
qed (simp add: yields_return)

lemma charset_nonempty [simp]:
  "passwordLower \<noteq> []" "passwordUpper \<noteq> []" "passwordDigits \<noteq> []" "passwordSpecial \<noteq> []"
  "PasswordChars \<noteq> []" "apiKeyChars \<noteq> []" "code_digits \<noteq> []" "alphaDigits \<noteq> []"
  by (simp_all add: passwordLower_def passwordUpper_def passwordDigits_def passwordSpecial_def
      PasswordChars_def apiKeyChars_def code_digits_def alphaDigits_def)

lemma yields_PasswordFromCharset:
  assumes "cs \<noteq> []"
  shows "yields (PasswordFromCharset n cs) (\<lambda>s. length s = nat n \<and> set s \<subseteq> set cs)"
  using yields_pick_chars [OF assms, of "nat n"]
  by (simp add: PasswordFromCharset_def yields_return)

lemma yields_randomString:
  assumes "cs \<noteq> []"
  shows "yields (randomString n cs) (\<lambda>s. length s = nat n \<and> set s \<subseteq> set cs)"
  using yields_pick_chars [OF assms, of "nat n"] by (simp add: randomString_def yields_return)

text \<open>
  C34. With a reader that does not fail, every generator returns a string of exactly the
  requested length (the empty string for a length that is not positive) over its character
  set: the 88 password characters, the 56 unambiguous characters of an API key (none of
  \<open>0 O 1 l I\<close>), decimal digits, or upper-case letters and digits.
\<close>

theorem generated_strings_typed:
  "yields (Password n) (\<lambda>s. length s = nat n \<and> set s \<subseteq> set PasswordChars) \<and>
   yields (APIKey n) (\<lambda>s. length s = nat n \<and> set s \<subseteq> set apiKeyChars \<and>
     set s \<inter> set ''0O1lI'' = {}) \<and>
   yields (VerifyCode n) (\<lambda>s. length s = nat n \<and> list_all is_digit s) \<and>
   yields (VerifyCodeAlpha n) (\<lambda>s. length s = nat n \<and>
     list_all (\<lambda>c. is_digit c \<or> is_upper_ascii c) s)"
proof (intro conjI)
  show "yields (Password n) (\<lambda>s. length s = nat n \<and> set s \<subseteq> set PasswordChars)"
    unfolding Password_def by (rule yields_PasswordFromCharset) simp
  have a: "set apiKeyChars \<inter> set ''0O1lI'' = {}" by (simp add: apiKeyChars_def)
  show "yields (APIKey n) (\<lambda>s. length s = nat n \<and> set s \<subseteq> set apiKeyChars \<and>
      set s \<inter> set ''0O1lI'' = {})"
    unfolding APIKey_def
    by (rule yields_mono [OF yields_PasswordFromCharset]) (use a in \<open>simp, blast\<close>)
  have d: "list_all is_digit code_digits" by (simp add: code_digits_def is_digit_def)
  show "yields (VerifyCode n) (\<lambda>s. length s = nat n \<and> list_all is_digit s)"
    unfolding VerifyCode_def
    by (rule yields_mono [OF yields_randomString]) (use d in \<open>auto simp: list_all_iff\<close>)
  have u: "list_all (\<lambda>c. is_digit c \<or> is_upper_ascii c) alphaDigits"
    by (simp add: alphaDigits_def is_digit_def is_upper_ascii_def)
  show "yields (VerifyCodeAlpha n) (\<lambda>s. length s = nat n \<and>
      list_all (\<lambda>c. is_digit c \<or> is_upper_ascii c) s)"
    unfolding VerifyCodeAlpha_def
    by (rule yields_mono [OF yields_randomString]) (use u in \<open>auto simp: list_all_iff\<close>)
qed

subsection \<open>Passwords with every kind of character\<close>

lemma mset_swap: "i < length b \<Longrightarrow> j < length b \<Longrightarrow> mset (swap i j b) = mset b"
  by (simp add: swap_def mset_swap)

lemma yields_shuffle_from:
  "i < length b \<Longrightarrow> yields (shuffle_from i b) (\<lambda>b'. mset b' = mset b)"
proof (induction i arbitrary: b)
  case (Suc i)
  show ?case
  proof (rule yieldsI)
    fix e assume "reads e"
    then obtain j e1 where 1: "rand_Int (Suc (Suc i)) e = (Returns (Some j), e1)" "reads e1"
      "j < Suc (Suc i)"
      using yields_rand_Int [of "Suc (Suc i)"] by (auto elim: yieldsE)
    have m: "mset (swap (Suc i) j b) = mset b" using 1(3) Suc.prems by (intro mset_swap) auto
    then have "length (swap (Suc i) j b) = length b" by (metis size_mset)
    then have "yields (shuffle_from i (swap (Suc i) j b)) (\<lambda>b'. mset b' = mset b)"
      using Suc.IH [of "swap (Suc i) j b"] Suc.prems m by simp
    then obtain b' e2 where "shuffle_from i (swap (Suc i) j b) e1 = (Returns (Some b'), e2)"
      "reads e2" "mset b' = mset b"
      using 1(2) by (rule yieldsE)
    with 1 show "\<exists>x e'. shuffle_from (Suc i) b e = (Returns (Some x), e') \<and> reads e' \<and>
        mset x = mset b" by simp
  qed
qed (simp add: yields_return)

lemma yields_shuffleBytes: "b \<noteq> [] \<Longrightarrow> yields (shuffleBytes b) (\<lambda>b'. mset b' = mset b)"
  unfolding shuffleBytes_def by (rule yields_shuffle_from) simp

lemma yields_pick_each:
  "list_all (\<lambda>cs. cs \<noteq> []) css \<Longrightarrow>
     yields (pick_each css) (\<lambda>s. list_all2 (\<lambda>c cs. c \<in> set cs) s css)"
proof (induction css)
  case (Cons cs css)
  then have 1: "yields (pick_char cs) (\<lambda>c. c \<in> set cs)"
    and 2: "yields (pick_each css) (\<lambda>s. list_all2 (\<lambda>c cs. c \<in> set cs) s css)"
    by (simp_all add: yields_pick_char)
  show ?case unfolding pick_each.simps
    by (rule yields_then [OF 1], rule yields_then [OF 2]) (simp add: yields_return)
qed (simp add: yields_return)

text \<open>The parts before the shuffle, and the shuffle of them.\<close>

lemma yields_secure_parts:
  assumes n: "4 \<le> n"
    and req: "list_all2 (\<lambda>c cs. c \<in> set cs) req
      [passwordLower, passwordUpper, passwordDigits, passwordSpecial]"
  shows "yields (rnd_then (pick_chars (nat n - 4) PasswordChars) (\<lambda>rest. shuffleBytes (req @ rest)))
    (\<lambda>s. int (length s) = n \<and> set s \<subseteq> set PasswordChars \<and> mset req \<subseteq># mset s)"
proof (rule yields_then [OF yields_pick_chars])
  fix rest assume rest: "length rest = nat n - 4 \<and> set rest \<subseteq> set PasswordChars"
  have l: "length req = 4" using list_all2_lengthD [OF req] by simp
  have sub: "set req \<subseteq> set PasswordChars"
    using req by (auto simp: list_all2_Cons2 PasswordChars_def)
  show "yields (shuffleBytes (req @ rest))
      (\<lambda>s. int (length s) = n \<and> set s \<subseteq> set PasswordChars \<and> mset req \<subseteq># mset s)"
  proof (rule yields_mono [OF yields_shuffleBytes])
    fix s assume s: "mset s = mset (req @ rest)"
    then have "length s = length (req @ rest)" "set s = set (req @ rest)"
      by (metis size_mset, metis set_mset_mset)
    then show "int (length s) = n \<and> set s \<subseteq> set PasswordChars \<and> mset req \<subseteq># mset s"
      using l sub rest n s by auto
  qed (use l in auto)
qed simp

lemma yields_SecurePassword:
  assumes "4 \<le> n"
  shows "yields (SecurePassword n) (\<lambda>s. int (length s) = n \<and> set s \<subseteq> set PasswordChars \<and>
    (\<exists>req. mset req \<subseteq># mset s \<and> list_all2 (\<lambda>c cs. c \<in> set cs) req
       [passwordLower, passwordUpper, passwordDigits, passwordSpecial]))"
proof -
  have "\<not> n < 4" using assms by simp
  then show ?thesis unfolding SecurePassword_def if_not_P [OF \<open>\<not> n < 4\<close>]
    by (intro yields_then [OF yields_pick_each] yields_mono [OF yields_secure_parts [OF assms]])
      auto
qed

lemma list_all2_class_members:
  assumes "mset req \<subseteq># mset s"
    and "list_all2 (\<lambda>c cs. c \<in> set cs) req
      [passwordLower, passwordUpper, passwordDigits, passwordSpecial]"
  shows "set s \<inter> set passwordLower \<noteq> {} \<and> set s \<inter> set passwordUpper \<noteq> {} \<and>
    set s \<inter> set passwordDigits \<noteq> {} \<and> set s \<inter> set passwordSpecial \<noteq> {}"
  using assms set_mset_mono [OF assms(1)] by (auto simp: list_all2_Cons2)


lemma secure_short: "m < 4 \<Longrightarrow> SecurePassword m e = (Returns (Some []), e) \<and>
   MustSecurePassword m e = (Returns (Some []), e)"
  by (simp add: SecurePassword_def MustSecurePassword_def must_def rnd_return_def)
text \<open>
  \<open>SecurePassword n\<close> with \<open>n\<close> at least 4 returns a password of length \<open>n\<close> over the password
  characters that has a lower-case letter, an upper-case letter, a digit and a special
  character; the shuffle keeps them all. With a smaller \<open>n\<close> it returns the empty password and
  no error, whatever the reader does, and so does the variant that is to panic on failure.
\<close>

theorem secure_password_has_every_kind:
  assumes "4 \<le> n" "m < 4"
  shows "yields (SecurePassword n) (\<lambda>s. int (length s) = n \<and> set s \<subseteq> set PasswordChars \<and>
      set s \<inter> set passwordLower \<noteq> {} \<and> set s \<inter> set passwordUpper \<noteq> {} \<and>
      set s \<inter> set passwordDigits \<noteq> {} \<and> set s \<inter> set passwordSpecial \<noteq> {}) \<and>
    SecurePassword m e = (Returns (Some []), e) \<and> MustSecurePassword m e = (Returns (Some []), e)"
proof (rule conjI [OF yields_mono [OF yields_SecurePassword [OF assms(1)]] secure_short [OF assms(2)]],
    elim conjE exE)
  fix s req
  assume "int (length s) = n" "set s \<subseteq> set PasswordChars" and req: "mset req \<subseteq># mset s"
    "list_all2 (\<lambda>c cs. c \<in> set cs) req
      [passwordLower, passwordUpper, passwordDigits, passwordSpecial]"
  then show "int (length s) = n \<and> set s \<subseteq> set PasswordChars \<and>
      set s \<inter> set passwordLower \<noteq> {} \<and> set s \<inter> set passwordUpper \<noteq> {} \<and>
      set s \<inter> set passwordDigits \<noteq> {} \<and> set s \<inter> set passwordSpecial \<noteq> {}"
    using list_all2_class_members [OF req] by simp
qed

theorem secure_password_has_every_kind_witness:
  "fst (SecurePassword 5 (\<lambda>n. Some 7)) = Returns (Some ''hhH*7'') \<and>
   yields (SecurePassword 5) (\<lambda>s. set s \<inter> set passwordDigits \<noteq> {}) \<and>
   SecurePassword 3 (\<lambda>n. None) = (Returns (Some []), \<lambda>n. None)"
proof (intro conjI)
  show "fst (SecurePassword 5 (\<lambda>n. Some 7)) = Returns (Some ''hhH*7'')" by code_simp
  show "yields (SecurePassword 5) (\<lambda>s. set s \<inter> set passwordDigits \<noteq> {})"
    by (rule yields_mono [OF conjunct1 [OF secure_password_has_every_kind [of 5 3]]]) auto
  show "SecurePassword 3 (\<lambda>n. None) = (Returns (Some []), \<lambda>n. None)"
    using secure_password_has_every_kind [of 5 3 "\<lambda>n. None"] by simp
qed

subsection \<open>UUIDs: layout, order and round trip\<close>

lemma length_hexw [simp]: "length (hexw ws) = 2 * length ws"
  by (simp add: hexw_def byte_string_def)

lemma of_char_char_of_word [simp]: "of_nat (of_char (char_of (unat w) :: char)) = (w :: 8 word)"
proof -
  have "unat w < 256" using unsigned_less [of w] by simp
  then show ?thesis by simp
qed

lemma hex_decode_hexw: "hex_decode (hexw ws) = Some (byte_string ws)"
  by (simp add: hexw_def)

lemma word_bytes_of_string [simp]: "map (\<lambda>c. of_nat (of_char c)) (byte_string ws) = ws"
  unfolding byte_string_def map_map comp_def by (rule map_idI) (rule of_char_char_of_word)

lemma hexw_append: "hexw (a @ b) = hexw a @ hexw b"
  by (simp add: hexw_def byte_string_def hex_encode_append)

lemma uuid_split:
  assumes "length u = 16"
  shows "hexw u = hexw (take 4 u) @ hexw (take 2 (drop 4 u)) @ hexw (take 2 (drop 6 u)) @
    hexw (take 2 (drop 8 u)) @ hexw (drop 10 u)"
proof -
  have "u = take 4 u @ take 2 (drop 4 u) @ take 2 (drop 6 u) @ take 2 (drop 8 u) @ drop 10 u"
    using append_take_drop_id [of 4 u] append_take_drop_id [of 2 "drop 4 u"]
      append_take_drop_id [of 2 "drop 6 u"] append_take_drop_id [of 2 "drop 8 u"] by simp
  then show ?thesis by (metis hexw_append)
qed

lemma dashed_blocks:
  assumes "length a = 8" "length b = 4" "length c = 4" "length d = 4" "length f = 12"
  shows "dashed (a @ ''-'' @ b @ ''-'' @ c @ ''-'' @ d @ ''-'' @ f)"
    and "undash (a @ ''-'' @ b @ ''-'' @ c @ ''-'' @ d @ ''-'' @ f) = a @ b @ c @ d @ f"
  using assms by (simp_all add: dashed_def undash_def nth_append)

lemma ParseUUID_FormatUUID:
  assumes "length u = 16"
  shows "ParseUUID (FormatUUID u) = Inr u"
proof -
  note blocks = dashed_blocks [of "hexw (take 4 u)" "hexw (take 2 (drop 4 u))"
      "hexw (take 2 (drop 6 u))" "hexw (take 2 (drop 8 u))" "hexw (drop 10 u)"]
  have "dashed (FormatUUID u)" "undash (FormatUUID u) = hexw u"
    unfolding FormatUUID_def uuid_split [OF assms]
    by (rule blocks; simp add: assms)+
  then show ?thesis
    using assms by (simp add: ParseUUID_def hex_decode_hexw)
      (simp add: byte_string_def)
qed

text \<open>The value of a byte list read big-endian; the timestamp is the value of the first six.\<close>

fun be_val :: "8 word list \<Rightarrow> nat" where
  "be_val [] = 0"
| "be_val (b # bs) = unat b * 256 ^ length bs + be_val bs"

lemma be_val_less: "be_val bs < 256 ^ length bs"
proof (induction bs)
  case (Cons b bs)
  have "unat b < 256" using unsigned_less [of b] by simp
  have "be_val (b # bs) < (unat b + 1) * 256 ^ length bs" using Cons by (simp add: algebra_simps)
  also have "\<dots> \<le> 256 * 256 ^ length bs" using \<open>unat b < 256\<close> by (intro mult_le_mono1) simp
  finally show ?case by simp
qed simp

lemma be_val_append: "be_val (a @ b) = be_val a * 256 ^ length b + be_val b"
  by (induction a) (simp_all add: power_add algebra_simps)

lemma be_val_inj: "length x = length y \<Longrightarrow> be_val x = be_val y \<Longrightarrow> x = y"
proof (induction x y rule: list_induct2)
  case (Cons x xs y ys)
  let ?m = "256 ^ length ys :: nat"
  have eq: "unat x * ?m + be_val xs = unat y * ?m + be_val ys"
    using Cons.prems Cons.hyps by simp
  have lt: "be_val xs < ?m" "be_val ys < ?m"
    using be_val_less [of xs] be_val_less [of ys] Cons.hyps by simp_all
  have "(unat x * ?m + be_val xs) div ?m = (unat y * ?m + be_val ys) div ?m"
    "(unat x * ?m + be_val xs) mod ?m = (unat y * ?m + be_val ys) mod ?m"
    by (simp_all only: eq)
  with lt have "unat x = unat y" "be_val xs = be_val ys" by simp_all
  with Cons.IH show ?case by (simp add: word_unat_eq_iff)
qed simp

lemma unat_ms_byte: "unat (ms_byte k ms) = unat ms div 2 ^ k mod 256"
proof -
  have "unat ms < 2 ^ 64" using unsigned_less [of ms] by simp
  then have "take_bit LENGTH(64) (unat ms) = unat ms" by (simp add: take_bit_nat_eq_self)
  then show ?thesis
    unfolding ms_byte_def unsigned_ucast_eq unsigned_drop_bit_eq
    by (simp add: take_bit_eq_mod drop_bit_eq_div)
qed

lemma be_val_ms_bytes: "be_val (ms_bytes ms) = unat ms mod 2 ^ 48"
proof -
  define x where "x = unat ms"
  have "x mod 2 ^ 48 = (x div 2 ^ 40 mod 256) * 2 ^ 40 + x mod 2 ^ 40"
    using mod_mult2_eq [of x "2 ^ 40" 256] by simp
  moreover have "x mod 2 ^ 40 = (x div 2 ^ 32 mod 256) * 2 ^ 32 + x mod 2 ^ 32"
    using mod_mult2_eq [of x "2 ^ 32" 256] by simp
  moreover have "x mod 2 ^ 32 = (x div 2 ^ 24 mod 256) * 2 ^ 24 + x mod 2 ^ 24"
    using mod_mult2_eq [of x "2 ^ 24" 256] by simp
  moreover have "x mod 2 ^ 24 = (x div 2 ^ 16 mod 256) * 2 ^ 16 + x mod 2 ^ 16"
    using mod_mult2_eq [of x "2 ^ 16" 256] by simp
  moreover have "x mod 2 ^ 16 = (x div 2 ^ 8 mod 256) * 2 ^ 8 + x mod 2 ^ 8"
    using mod_mult2_eq [of x "2 ^ 8" 256] by simp
  ultimately show ?thesis
    by (simp add: ms_bytes_def unat_ms_byte x_def [symmetric])
qed

text \<open>The characters of two hexadecimal strings of equal length compare like the values.\<close>

definition char_less :: "(char \<times> char) set" where
  "char_less = {(c, d). byte c < byte d}"

lemma hex_char_less: "d < e \<Longrightarrow> e < 16 \<Longrightarrow> (hex_char d, hex_char e) \<in> char_less"
  by (simp add: char_less_def hex_char_def)

lemma hex_byte: "hexw (b # bs) = hex_char (unat b div 16) # hex_char (unat b mod 16) # hexw bs"
proof -
  have "unat b < 256" using unsigned_less [of b] by simp
  then show ?thesis by (simp add: hexw_def hex_encode_def byte_string_def)
qed

lemma div_mod_less: "(m :: nat) < n \<Longrightarrow> m div 16 < n div 16 \<or> m div 16 = n div 16 \<and> m mod 16 < n mod 16"
  using div_le_mono [of m n 16] mult_div_mod_eq [of 16 m] mult_div_mod_eq [of 16 n] by linarith

lemma hexw_less:
  "length a = length b \<Longrightarrow> be_val a < be_val b \<Longrightarrow> (hexw a, hexw b) \<in> lexord char_less"
proof (induction a b rule: list_induct2)
  case (Cons x a y b)
  have "unat x < 256" "unat y < 256" using unsigned_less [of x] unsigned_less [of y] by simp_all
  consider "unat x < unat y" | "unat x = unat y" "be_val a < be_val b"
  proof -
    have "unat x \<le> unat y"
    proof (rule ccontr)
      assume "\<not> unat x \<le> unat y"
      then have "(unat y + 1) * 256 ^ length b \<le> unat x * 256 ^ length b"
        by (intro mult_le_mono1) simp
      then show False using Cons.prems Cons.hyps be_val_less [of b] by (simp add: algebra_simps)
    qed
    then show thesis using that Cons.prems Cons.hyps by (cases "unat x = unat y") auto
  qed
  then show ?case
  proof cases
    case 1
    have "unat x div 16 < unat y div 16 \<or>
        unat x div 16 = unat y div 16 \<and> unat x mod 16 < unat y mod 16"
      by (rule div_mod_less [OF 1])
    then show ?thesis
      using \<open>unat x < 256\<close> \<open>unat y < 256\<close>
      by (auto simp: hex_byte intro!: hex_char_less)
  next
    case 2
    then show ?thesis using Cons.IH by (simp add: hex_byte)
  qed
qed simp

text \<open>The layout of a version 7 UUID.\<close>

definition uuid_v7 :: "int \<Rightarrow> uuid \<Rightarrow> bool" where
  "uuid_v7 ms u \<longleftrightarrow> length u = 16 \<and> int (be_val (take 6 u)) = ms mod 2 ^ 48 \<and>
     drop_bit 4 (u ! 6) = 7 \<and> drop_bit 6 (u ! 8) = 2"

lemma version_bits: "drop_bit 4 (0x70 OR (b AND 0x0F) :: 8 word) = 7"
proof (rule bit_word_eqI)
  fix n :: nat assume "n < LENGTH(8)"
  then have "n = 0 \<or> n = 1 \<or> n = 2 \<or> n = 3 \<or> n = 4 \<or> n = 5 \<or> n = 6 \<or> n = 7" by auto
  then show "bit (drop_bit 4 (0x70 OR (b AND 0x0F) :: 8 word)) n \<longleftrightarrow> bit (7 :: 8 word) n"
    by (elim disjE) (simp_all add: bit_simps)
qed

lemma variant_bits: "drop_bit 6 (0x80 OR (b AND 0x3F) :: 8 word) = 2"
proof (rule bit_word_eqI)
  fix n :: nat assume "n < LENGTH(8)"
  then have "n = 0 \<or> n = 1 \<or> n = 2 \<or> n = 3 \<or> n = 4 \<or> n = 5 \<or> n = 6 \<or> n = 7" by auto
  then show "bit (drop_bit 6 (0x80 OR (b AND 0x3F) :: 8 word)) n \<longleftrightarrow> bit (2 :: 8 word) n"
    by (elim disjE) (simp_all add: bit_simps)
qed

lemma unat_ms: "int (unat (word_of_int ms :: 64 word) mod 2 ^ 48) = ms mod 2 ^ 48"
proof -
  have "int (unat (word_of_int ms :: 64 word)) = ms mod 2 ^ 64"
    by (simp add: unsigned_of_int take_bit_eq_mod)
  moreover have "ms mod 2 ^ 64 mod 2 ^ 48 = ms mod 2 ^ 48"
    by (rule mod_mod_cancel) (simp add: dvd_def)
  ultimately show ?thesis by (simp add: zmod_int)
qed

lemma length_ms_bytes [simp]: "length (ms_bytes ms) = 6"
  by (simp add: ms_bytes_def)

lemma yields_NewUUID: "yields (NewUUID ms) (uuid_v7 ms)"
  unfolding NewUUID_def
proof (intro yields_then [OF yields_rand_Read] yields_return)
  fix ra rb :: "8 word list"
  assume "length ra = 2" "length rb = 8"
  then show "uuid_v7 ms (let u = ms_bytes (word_of_int ms) @ ra;
        u = u[6 := 0x70 OR (u ! 6 AND 0x0F)]; u = u @ rb in u[8 := 0x80 OR (u ! 8 AND 0x3F)])"
    unfolding uuid_v7_def Let_def
    by (simp only: length_append length_list_update length_ms_bytes nth_append nth_list_update
        version_bits variant_bits) (simp add: be_val_ms_bytes unat_ms [simplified])
qed

lemma FormatUUID_less:
  assumes u: "uuid_v7 s u" and v: "uuid_v7 t v" and st: "s mod 2 ^ 48 < t mod 2 ^ 48"
  shows "(FormatUUID u, FormatUUID v) \<in> lexord char_less"
proof -
  have len: "length u = 16" "length v = 16" using u v by (simp_all add: uuid_v7_def)
  have take6: "take 6 w = take 4 w @ take 2 (drop 4 w)" for w :: "8 word list"
    using take_add [of 4 2 w] by simp
  have be: "be_val (take 6 w) = be_val (take 4 w) * 256 ^ 2 + be_val (take 2 (drop 4 w))"
    if "length w = 16" for w :: "8 word list"
    unfolding take6 be_val_append using that by simp
  let ?a = "be_val (take 4 u)" and ?b = "be_val (take 2 (drop 4 u))"
    and ?c = "be_val (take 4 v)" and ?d = "be_val (take 2 (drop 4 v))"
  have "int (be_val (take 6 u)) < int (be_val (take 6 v))"
    using u v st unfolding uuid_v7_def by (elim conjE) (simp only:)
  then have lt: "?a * 65536 + ?b < ?c * 65536 + ?d"
    by (simp add: be len)
  have bounds: "?b < 65536" "?d < 65536"
    using be_val_less [of "take 2 (drop 4 u)"] be_val_less [of "take 2 (drop 4 v)"] len by simp_all
  have "?a < ?c \<or> ?a = ?c \<and> ?b < ?d" using lt bounds by linarith
  then show ?thesis
  proof
    assume "?a < ?c"
    then have "(hexw (take 4 u), hexw (take 4 v)) \<in> lexord char_less"
      by (intro hexw_less) (simp_all add: len)
    then show ?thesis unfolding FormatUUID_def by (rule lexord_sufI) (simp add: len)
  next
    assume eq: "?a = ?c \<and> ?b < ?d"
    have "take 4 u = take 4 v" using eq by (intro be_val_inj) (simp_all add: len)
    moreover have "(hexw (take 2 (drop 4 u)), hexw (take 2 (drop 4 v))) \<in> lexord char_less"
      using eq by (intro hexw_less) (simp_all add: len)
    ultimately show ?thesis
      unfolding FormatUUID_def
      by (simp only:) (intro lexord_append_leftI lexord_sufI, simp_all add: len)
  qed
qed

lemma length_FormatUUID: "length u = 16 \<Longrightarrow> length (FormatUUID u) = 36"
  by (simp add: FormatUUID_def)

text \<open>
  \<open>FormatUUID\<close> writes 36 characters and \<open>ParseUUID\<close> reads back the same 16 bytes, also
  from the 32 hexadecimal digits without dashes; whatever it accepts has 16 bytes and came
  from a string of 32 or 36 characters.
\<close>

theorem uuid_format_parse:
  assumes "length u = 16"
  shows "ParseUUID (FormatUUID u) = Inr u \<and> ParseUUID (hexw u) = Inr u \<and>
    length (FormatUUID u) = 36 \<and>
    (ParseUUID s = Inr v \<longrightarrow> length v = 16 \<and> (length s = 32 \<or> length s = 36))"
proof (intro conjI impI)
  have "\<not> dashed (hexw u)" using assms by (simp add: dashed_def)
  then show "ParseUUID (hexw u) = Inr u"
    using assms by (simp add: ParseUUID_def hex_decode_hexw) (simp add: byte_string_def)
  have len: "length w = 2 * length b" if "hex_decode w = Some b" for w b
    using that by (induction w arbitrary: b rule: hex_decode.induct) (auto split: option.splits)
  assume s: "ParseUUID s = Inr v"
  then show "length v = 16" by (auto simp: ParseUUID_def split: option.splits if_splits)
  show "length s = 32 \<or> length s = 36"
    using s by (auto simp: ParseUUID_def dashed_def dest!: len split: option.splits if_splits)
qed (use assms in \<open>simp_all add: ParseUUID_FormatUUID length_FormatUUID\<close>)

theorem uuid_format_parse_witness:
  "ParseUUID (FormatUUID (replicate 16 (0x5A :: 8 word))) = Inr (replicate 16 0x5A) \<and>
   ParseUUID ''5A'' = Inl ErrInvalidUUIDLength \<and> ParseUUID ''5'' = Inl ErrUUIDHex"
proof (intro conjI)
  show "ParseUUID (FormatUUID (replicate 16 (0x5A :: 8 word))) = Inr (replicate 16 0x5A)"
    using uuid_format_parse [of "replicate 16 (0x5A :: 8 word)"] by simp
  show "ParseUUID ''5A'' = Inl ErrInvalidUUIDLength" by code_simp
  show "ParseUUID ''5'' = Inl ErrUUIDHex" by code_simp
qed

text \<open>
  C33. Every generated UUID has version 7, variant 10 and the 48-bit millisecond timestamp in
  front, and the strings of two UUIDs generated at different milliseconds sort like their
  times, whatever the random bytes are.
\<close>

theorem uuids_sort_by_time:
  assumes "0 \<le> s" "s < t" "t < 2 ^ 48"
  shows "yields (NewUUID s) (uuid_v7 s) \<and>
    yields (rnd_then (NewUUIDString s) (\<lambda>a. rnd_then (NewUUIDString t) (\<lambda>b. rnd_return (a, b))))
      (\<lambda>(a, b). length a = 36 \<and> length b = 36 \<and> (a, b) \<in> lexord char_less)"
proof
  have st: "s mod 2 ^ 48 < t mod 2 ^ 48" using assms by simp
  have y: "yields (NewUUIDString i) (\<lambda>a. \<exists>u. uuid_v7 i u \<and> a = FormatUUID u)" for i
    unfolding NewUUIDString_def
    by (rule yields_then [OF yields_NewUUID]) (rule yields_return, blast)
  show "yields (rnd_then (NewUUIDString s) (\<lambda>a. rnd_then (NewUUIDString t) (\<lambda>b. rnd_return (a, b))))
      (\<lambda>(a, b). length a = 36 \<and> length b = 36 \<and> (a, b) \<in> lexord char_less)"
    by (rule yields_then [OF y], rule yields_then [OF y], rule yields_return)
      (auto simp: FormatUUID_less [OF _ _ st] length_FormatUUID uuid_v7_def [THEN iffD1, THEN conjunct1])
qed (rule yields_NewUUID)

theorem uuids_sort_by_time_witness:
  "fst (NewUUIDString 1700000000000 (\<lambda>n. Some (n * 37 + 201))) =
     Returns (Some ''018bcfe5-6800-79ee-9338-5d82a7ccf116'') \<and>
   yields (rnd_then (NewUUIDString 5) (\<lambda>a. rnd_then (NewUUIDString 6) (\<lambda>b. rnd_return (a, b))))
      (\<lambda>(a, b). (a, b) \<in> lexord char_less)"
proof
  show "yields (rnd_then (NewUUIDString 5) (\<lambda>a. rnd_then (NewUUIDString 6) (\<lambda>b. rnd_return (a, b))))
      (\<lambda>(a, b). (a, b) \<in> lexord char_less)"
    by (rule yields_mono [OF conjunct2 [OF uuids_sort_by_time [of 5 6]]]) auto
qed code_simp

end
