(* ===== verification/GoRunes.thy ===== *)
theory GoRunes
  imports GoStrings
begin

text \<open>
  UTF-8 as Go's \<^verbatim>\<open>range\<close> over a string and \<^verbatim>\<open>[]rune(s)\<close> decode it: a byte that starts no valid
  encoding gives U+FFFD and has width 1. \<open>valid_utf8\<close> is \<^verbatim>\<open>utf8.ValidString\<close>.
\<close>

subsection \<open>Runes\<close>

definition cont_byte :: "char \<Rightarrow> bool" where
  "cont_byte c \<longleftrightarrow> 128 \<le> byte c \<and> byte c < 192"

text \<open>The rune at the front of a text that is not empty, and its width.\<close>

definition decode_rune :: "string \<Rightarrow> nat \<times> nat" where
  "decode_rune s =
     (let b = (\<lambda>i. byte (s ! i)); n = length s;
          ok = (\<lambda>k. k < n \<and> cont_byte (s ! k));
          bad = (0xFFFD, 1)
      in if b 0 < 0x80 then (b 0, 1)
         else if 0xC2 \<le> b 0 \<and> b 0 \<le> 0xDF then
           (if ok 1 then ((b 0 - 0xC0) * 64 + (b 1 - 0x80), 2) else bad)
         else if 0xE0 \<le> b 0 \<and> b 0 \<le> 0xEF then
           (if ok 1 \<and> ok 2 \<and> (b 0 = 0xE0 \<longrightarrow> 0xA0 \<le> b 1) \<and> (b 0 = 0xED \<longrightarrow> b 1 \<le> 0x9F)
            then ((b 0 - 0xE0) * 4096 + (b 1 - 0x80) * 64 + (b 2 - 0x80), 3) else bad)
         else if 0xF0 \<le> b 0 \<and> b 0 \<le> 0xF4 then
           (if ok 1 \<and> ok 2 \<and> ok 3 \<and> (b 0 = 0xF0 \<longrightarrow> 0x90 \<le> b 1) \<and> (b 0 = 0xF4 \<longrightarrow> b 1 \<le> 0x8F)
            then ((b 0 - 0xF0) * 262144 + (b 1 - 0x80) * 4096 + (b 2 - 0x80) * 64 + (b 3 - 0x80), 4)
            else bad)
         else bad)"

fun runes :: "string \<Rightarrow> nat list" where
  "runes [] = []"
| "runes (c # s) = (case decode_rune (c # s) of (r, w) \<Rightarrow> r # runes (drop (w - 1) s))"

fun valid_utf8 :: "string \<Rightarrow> bool" where
  "valid_utf8 [] = True"
| "valid_utf8 (c # s) = (case decode_rune (c # s) of (r, w) \<Rightarrow>
     \<not> (r = 0xFFFD \<and> w = 1) \<and> valid_utf8 (drop (w - 1) s))"

subsection \<open>ASCII texts\<close>

lemma decode_rune_ascii: "byte c < 128 \<Longrightarrow> decode_rune (c # s) = (byte c, 1)"
  by (simp add: decode_rune_def)

lemma runes_ascii: "list_all (\<lambda>c. byte c < 128) s \<Longrightarrow> runes s = map (\<lambda>c. byte c) s"
  by (induction s) (simp_all add: decode_rune_ascii)

lemma decode_rune_low:
  assumes "fst (decode_rune (c # s)) < 128"
  shows "byte c < 128"
proof (rule ccontr)
  assume "\<not> byte c < 128"
  moreover have "x = 0xE0 \<longrightarrow> 0xA0 \<le> y \<Longrightarrow> 0xE0 \<le> x \<Longrightarrow> 128 \<le> (x - 0xE0) * 4096 + (y - 0x80) * 64 + z"
    for x y z :: nat by (cases "x = 0xE0") auto
  moreover have "x = 0xF0 \<longrightarrow> 0x90 \<le> y \<Longrightarrow> 0xF0 \<le> x \<Longrightarrow>
      128 \<le> (x - 0xF0) * 262144 + (y - 0x80) * 4096 + z + w"
    for x y z w :: nat by (cases "x = 0xF0") auto
  moreover have "0xC2 \<le> x \<Longrightarrow> 128 \<le> (x - 0xC0) * 64 + y" for x y :: nat by simp
  ultimately have "128 \<le> fst (decode_rune (c # s))"
    unfolding decode_rune_def Let_def by (simp only: nth_Cons_0) (auto split: if_splits)
  with assms show False by simp
qed

lemma runes_low: "list_all (\<lambda>r. r < 128) (runes s) \<Longrightarrow> list_all (\<lambda>c. byte c < 128) s"
proof (induction s rule: runes.induct)
  case (2 c s)
  obtain r w where rw: "decode_rune (c # s) = (r, w)" by fastforce
  then have "r < 128" using "2.prems" by simp
  then have c: "byte c < 128" using rw decode_rune_low [of c s] by simp
  then have "w = 1" using rw decode_rune_ascii [of c s] by simp
  with rw c 2 show ?case by simp
qed simp

lemma valid_utf8_ascii: "list_all (\<lambda>c. byte c < 128) s \<Longrightarrow> valid_utf8 s"
  by (induction s) (simp_all add: decode_rune_ascii)

end
