(* ===== verification/KexValidator.thy ===== *)
theory KexValidator
  imports KexRandom GoRunes
begin

text \<open>
  \<^verbatim>\<open>kex-utils/pkg/kexvalidator/validator.go\<close>: length, pattern, domain and complexity checks of
  user input. A range over a Go string visits its runes (\<open>GoRunes\<close>). Go's own table answers \<^verbatim>\<open>unicode.IsUpper\<close> and its kin up to
  U+00FF and is written out; the range tables of the runes above it are a parameter.
\<close>

subsection \<open>Rune classes\<close>

definition ContainsRune :: "string \<Rightarrow> nat \<Rightarrow> bool" where
  "ContainsRune s r = list_ex (\<lambda>x. x = r) (runes s)"

record unicode_tables =
  ut_Upper :: "nat \<Rightarrow> bool"
  ut_Lower :: "nat \<Rightarrow> bool"
  ut_Letter :: "nat \<Rightarrow> bool"
  ut_Digit :: "nat \<Rightarrow> bool"

definition latin1 :: nat where
  "latin1 = 0xFF"

definition IsUpper :: "unicode_tables \<Rightarrow> nat \<Rightarrow> bool" where
  "IsUpper U r = (if r \<le> latin1 then 65 \<le> r \<and> r \<le> 90 \<or> 0xC0 \<le> r \<and> r \<le> 0xDE \<and> r \<noteq> 0xD7
                  else ut_Upper U r)"

definition IsLower :: "unicode_tables \<Rightarrow> nat \<Rightarrow> bool" where
  "IsLower U r = (if r \<le> latin1 then 97 \<le> r \<and> r \<le> 122 \<or> r = 0xB5 \<or> 0xDF \<le> r \<and> r \<noteq> 0xF7
                  else ut_Lower U r)"

definition IsLetter :: "unicode_tables \<Rightarrow> nat \<Rightarrow> bool" where
  "IsLetter U r = (if r \<le> latin1 then IsUpper U r \<or> IsLower U r \<or> r = 0xAA \<or> r = 0xBA
                   else ut_Letter U r)"

definition IsDigit :: "unicode_tables \<Rightarrow> nat \<Rightarrow> bool" where
  "IsDigit U r = (if r \<le> latin1 then 48 \<le> r \<and> r \<le> 57 else ut_Digit U r)"

subsection \<open>Anchored patterns\<close>

text \<open>
  The two patterns of the source are sequences of character classes between \<^verbatim>\<open>^\<close> and \<^verbatim>\<open>$\<close>:
  a class matched once, or at least \<open>n\<close> times. \<open>rx_full\<close> tries every split.
\<close>

datatype piece = One "nat \<Rightarrow> bool" | AtLeast nat "nat \<Rightarrow> bool"

fun rx_full :: "piece list \<Rightarrow> nat list \<Rightarrow> bool" where
  "rx_full [] s = (s = [])"
| "rx_full (One p # ps) [] = False"
| "rx_full (One p # ps) (c # s) = (p c \<and> rx_full ps s)"
| "rx_full (AtLeast (Suc n) p # ps) [] = False"
| "rx_full (AtLeast (Suc n) p # ps) (c # s) = (p c \<and> rx_full (AtLeast n p # ps) s)"
| "rx_full (AtLeast 0 p # ps) [] = rx_full ps []"
| "rx_full (AtLeast 0 p # ps) (c # s) = (rx_full ps (c # s) \<or> p c \<and> rx_full (AtLeast 0 p # ps) s)"

definition rune_in :: "string \<Rightarrow> nat \<Rightarrow> bool" where
  "rune_in cs r = list_ex (\<lambda>c. byte c = r) cs"

definition alpha :: "nat \<Rightarrow> bool" where
  "alpha r \<longleftrightarrow> 97 \<le> r \<and> r \<le> 122 \<or> 65 \<le> r \<and> r \<le> 90"

definition alnum :: "nat \<Rightarrow> bool" where
  "alnum r \<longleftrightarrow> alpha r \<or> 48 \<le> r \<and> r \<le> 57"

definition email_pattern :: "piece list" where
  "email_pattern =
     [AtLeast 1 (\<lambda>r. alnum r \<or> rune_in ''._%+-'' r), One (rune_in ''@''),
      AtLeast 1 (\<lambda>r. alnum r \<or> rune_in ''.-'' r), One (rune_in ''.''), AtLeast 2 alpha]"

definition username_pattern :: "piece list" where
  "username_pattern = [AtLeast 1 (\<lambda>r. alnum r \<or> rune_in ''_'' r)]"

type_synonym regex = "string \<Rightarrow> bool"

definition MatchString :: "piece list \<Rightarrow> regex" where
  "MatchString ps s = rx_full ps (runes s)"

subsection \<open>Errors\<close>

datatype validator_error =
    InputEmpty | TooShort nat int | TooLong nat int | PatternMismatch | InvalidCharacter nat
  | InvalidEmail | NotInWhitelist string | InBlacklist string | UsernameReserved string
  | TooFew string int | InvalidPattern

text \<open>The two length checks every validator makes.\<close>

definition length_error :: "int \<Rightarrow> int \<Rightarrow> nat \<Rightarrow> validator_error option" where
  "length_error mn mx n =
     (if 0 < mn \<and> int n < mn then Some (TooShort n mn)
      else if 0 < mx \<and> mx < int n then Some (TooLong n mx)
      else None)"

subsection \<open>The generic validator\<close>

record validator =
  va_MinLength :: int
  va_MaxLength :: int
  va_Regex :: "regex option"
  va_AllowEmpty :: bool
  va_SpecialChars :: string

fun first_invalid :: "unicode_tables \<Rightarrow> string \<Rightarrow> nat list \<Rightarrow> nat option" where
  "first_invalid U cs [] = None"
| "first_invalid U cs (r # rs) =
     (if \<not> ContainsRune cs r \<and> \<not> IsLetter U r \<and> \<not> IsDigit U r then Some r
      else first_invalid U cs rs)"

definition Validator_Validate :: "unicode_tables \<Rightarrow> validator \<Rightarrow> string \<Rightarrow> validator_error option" where
  "Validator_Validate U v input =
     (if input = [] then (if va_AllowEmpty v then None else Some InputEmpty)
      else case length_error (va_MinLength v) (va_MaxLength v) (length (runes input)) of
        Some err \<Rightarrow> Some err
      | None \<Rightarrow>
          if (case va_Regex v of None \<Rightarrow> False | Some re \<Rightarrow> \<not> re input) then Some PatternMismatch
          else if va_SpecialChars v \<noteq> []
          then map_option InvalidCharacter (first_invalid U (va_SpecialChars v) (runes input))
          else None)"

subsection \<open>Email addresses\<close>

record email_validator =
  ev_Regex :: regex
  ev_Blacklist :: "string list"
  ev_Whitelist :: "string list"

definition NewEmailValidator :: "string list \<Rightarrow> string list \<Rightarrow> email_validator" where
  "NewEmailValidator blacklist whitelist =
     \<lparr>ev_Regex = MatchString email_pattern, ev_Blacklist = blacklist, ev_Whitelist = whitelist\<rparr>"

definition Email_Validate :: "email_validator \<Rightarrow> string \<Rightarrow> validator_error option" where
  "Email_Validate ev email =
     (if \<not> ev_Regex ev email then Some InvalidEmail
      else let parts = Split (CHR ''@'') email in
        if length parts \<noteq> 2 then Some InvalidEmail
        else let domain = parts ! 1 in
          if ev_Whitelist ev \<noteq> [] \<and> \<not> list_ex (\<lambda>d. EqualFold domain d) (ev_Whitelist ev)
          then Some (NotInWhitelist domain)
          else if list_ex (\<lambda>d. EqualFold domain d) (ev_Blacklist ev)
          then Some (InBlacklist domain)
          else None)"

subsection \<open>User names\<close>

record username_validator =
  uv_MinLength :: int
  uv_MaxLength :: int
  uv_Regex :: "regex option"
  uv_AllowEmpty :: bool
  uv_ReservedNames :: "string list"

definition NewUsernameValidator :: "int \<Rightarrow> int \<Rightarrow> string list \<Rightarrow> username_validator" where
  "NewUsernameValidator minLen maxLen reserved =
     \<lparr>uv_MinLength = minLen, uv_MaxLength = maxLen, uv_Regex = Some (MatchString username_pattern),
      uv_AllowEmpty = False, uv_ReservedNames = reserved\<rparr>"

definition Username_Validate :: "username_validator \<Rightarrow> string \<Rightarrow> validator_error option" where
  "Username_Validate uv username =
     (if \<not> uv_AllowEmpty uv \<and> username = [] then Some InputEmpty
      else case length_error (uv_MinLength uv) (uv_MaxLength uv) (length (runes username)) of
        Some err \<Rightarrow> Some err
      | None \<Rightarrow>
          if (case uv_Regex uv of None \<Rightarrow> False | Some re \<Rightarrow> \<not> re username)
          then Some PatternMismatch
          else if list_ex (\<lambda>r. EqualFold username r) (uv_ReservedNames uv)
          then Some (UsernameReserved username)
          else None)"

subsection \<open>Passwords\<close>

record password_validator =
  pv_MinLength :: int
  pv_MaxLength :: int
  pv_MinUppercase :: int
  pv_MinLowercase :: int
  pv_MinDigits :: int
  pv_MinSpecialChars :: int
  pv_SpecialChars :: string
  pv_AllowEmpty :: bool

definition NewPasswordValidator :: "int \<Rightarrow> int \<Rightarrow> password_validator" where
  "NewPasswordValidator minLen maxLen =
     \<lparr>pv_MinLength = minLen, pv_MaxLength = maxLen, pv_MinUppercase = 1, pv_MinLowercase = 1,
      pv_MinDigits = 1, pv_MinSpecialChars = 0,
      pv_SpecialChars = ''!@#$%^&*()-_=+[]{}|;:,.<>?'', pv_AllowEmpty = False\<rparr>"

text \<open>The four counters of the loop over the runes, or the first rune of no kind.\<close>

type_synonym kind_counts = "int \<times> int \<times> int \<times> int"

fun count_kinds :: "unicode_tables \<Rightarrow> string \<Rightarrow> nat list \<Rightarrow> kind_counts \<Rightarrow>
    validator_error + kind_counts" where
  "count_kinds U cs [] n = Inr n"
| "count_kinds U cs (r # rs) (u, l, d, s) =
     (if IsUpper U r then count_kinds U cs rs (u + 1, l, d, s)
      else if IsLower U r then count_kinds U cs rs (u, l + 1, d, s)
      else if IsDigit U r then count_kinds U cs rs (u, l, d + 1, s)
      else if ContainsRune cs r then count_kinds U cs rs (u, l, d, s + 1)
      else Inl (InvalidCharacter r))"

definition Password_Validate :: "unicode_tables \<Rightarrow> password_validator \<Rightarrow> string \<Rightarrow>
    validator_error option" where
  "Password_Validate U pv password =
     (if \<not> pv_AllowEmpty pv \<and> password = [] then Some InputEmpty
      else case length_error (pv_MinLength pv) (pv_MaxLength pv) (length (runes password)) of
        Some err \<Rightarrow> Some err
      | None \<Rightarrow>
          (case count_kinds U (pv_SpecialChars pv) (runes password) (0, 0, 0, 0) of
             Inl err \<Rightarrow> Some err
           | Inr (u, l, d, s) \<Rightarrow>
               if u < pv_MinUppercase pv then Some (TooFew ''uppercase letter'' (pv_MinUppercase pv))
               else if l < pv_MinLowercase pv
               then Some (TooFew ''lowercase letter'' (pv_MinLowercase pv))
               else if d < pv_MinDigits pv then Some (TooFew ''digit'' (pv_MinDigits pv))
               else if s < pv_MinSpecialChars pv
               then Some (TooFew ''special character'' (pv_MinSpecialChars pv))
               else None))"

text \<open>\<^verbatim>\<open>regexp.Compile\<close> is a parameter: \<^term>\<open>None\<close> for an invalid pattern.\<close>

definition ValidateWithRegex :: "(string \<Rightarrow> regex option) \<Rightarrow> string \<Rightarrow> string \<Rightarrow>
    validator_error option" where
  "ValidateWithRegex compile input pattern =
     (case compile pattern of
        None \<Rightarrow> Some InvalidPattern
      | Some re \<Rightarrow> if \<not> re input then Some PatternMismatch else None)"

subsection \<open>Email addresses\<close>

lemma split_cons:
  "(\<exists>a b. c # s = a @ b \<and> Q a b) \<longleftrightarrow> Q [] (c # s) \<or> (\<exists>a b. s = a @ b \<and> Q (c # a) b)"
  unfolding Cons_eq_append_conv by blast

lemma rx_atleast:
  "rx_full (AtLeast n p # ps) s \<longleftrightarrow>
     (\<exists>a b. s = a @ b \<and> n \<le> length a \<and> list_all p a \<and> rx_full ps b)"
proof (induction s arbitrary: n)
  case Nil
  show ?case by (cases n) auto
next
  case (Cons c s)
  show ?case
  proof (cases n)
    case 0
    have "rx_full (AtLeast n p # ps) (c # s) \<longleftrightarrow>
        rx_full ps (c # s) \<or> p c \<and> (\<exists>a b. s = a @ b \<and> list_all p a \<and> rx_full ps b)"
      using Cons [of 0] 0 by simp
    also have "\<dots> \<longleftrightarrow> (\<exists>a b. c # s = a @ b \<and> list_all p a \<and> rx_full ps b)"
      unfolding split_cons by (simp, blast?)
    finally show ?thesis by (simp add: 0)
  next
    case (Suc m)
    have "rx_full (AtLeast n p # ps) (c # s) \<longleftrightarrow>
        p c \<and> (\<exists>a b. s = a @ b \<and> m \<le> length a \<and> list_all p a \<and> rx_full ps b)"
      using Cons [of m] Suc by simp
    also have "\<dots> \<longleftrightarrow> (\<exists>a b. c # s = a @ b \<and> Suc m \<le> length a \<and> list_all p a \<and> rx_full ps b)"
      unfolding split_cons by (simp, blast?)
    finally show ?thesis by (simp add: Suc)
  qed
qed

lemma rx_one: "rx_full (One p # ps) s \<longleftrightarrow> (\<exists>c b. s = c # b \<and> p c \<and> rx_full ps b)"
  by (cases s) auto

definition email_local :: "char \<Rightarrow> bool" where
  "email_local c \<longleftrightarrow> alnum (byte c) \<or> c \<in> set ''._%+-''"

definition email_label :: "char \<Rightarrow> bool" where
  "email_label c \<longleftrightarrow> alnum (byte c) \<or> c \<in> set ''.-''"

text \<open>A domain of the pattern: labels, a dot, and at least two letters.\<close>

definition email_domain :: "string \<Rightarrow> bool" where
  "email_domain dm \<longleftrightarrow> (\<exists>a b. dm = a @ CHR ''.'' # b \<and> a \<noteq> [] \<and> list_all email_label a \<and>
     2 \<le> length b \<and> list_all (\<lambda>c. alpha (byte c)) b)"

lemma rune_in_iff: "rune_in cs r \<longleftrightarrow> r \<in> (\<lambda>c. byte c) ` set cs"
  by (auto simp: rune_in_def list_ex_iff)

lemma rune_in_byte: "rune_in cs (byte c) \<longleftrightarrow> c \<in> set cs"
  by (auto simp: rune_in_iff)

lemma low_classes:
  "alnum r \<or> rune_in ''._%+-'' r \<Longrightarrow> r < 128" "alnum r \<or> rune_in ''.-'' r \<Longrightarrow> r < 128"
  "rune_in ''@'' r \<Longrightarrow> r < 128" "rune_in ''.'' r \<Longrightarrow> r < 128" "alpha r \<Longrightarrow> r < 128"
  by (auto simp: alnum_def alpha_def rune_in_iff)

definition email_split :: "('a \<Rightarrow> bool) \<Rightarrow> ('a \<Rightarrow> bool) \<Rightarrow> ('a \<Rightarrow> bool) \<Rightarrow> ('a \<Rightarrow> bool) \<Rightarrow> ('a \<Rightarrow> bool) \<Rightarrow>
    'a list \<Rightarrow> bool" where
  "email_split l at d dot a s \<longleftrightarrow> (\<exists>u x v y w. s = u @ x # v @ y # w \<and> 1 \<le> length u \<and>
     list_all l u \<and> at x \<and> 1 \<le> length v \<and> list_all d v \<and> dot y \<and> 2 \<le> length w \<and> list_all a w)"

lemma email_pattern_split:
  "rx_full email_pattern s \<longleftrightarrow> email_split (\<lambda>r. alnum r \<or> rune_in ''._%+-'' r) (rune_in ''@'')
     (\<lambda>r. alnum r \<or> rune_in ''.-'' r) (rune_in ''.'') alpha s"
  unfolding email_pattern_def rx_atleast rx_one email_split_def by (simp, blast)

lemma email_split_map:
  "email_split l at d dot a (map f s) \<longleftrightarrow>
     email_split (\<lambda>c. l (f c)) (\<lambda>c. at (f c)) (\<lambda>c. d (f c)) (\<lambda>c. dot (f c)) (\<lambda>c. a (f c)) s"
  (is "?L \<longleftrightarrow> ?R")
proof
  assume ?L
  then obtain u x v y w where "map f s = u @ x # v @ y # w" "1 \<le> length u" "list_all l u" "at x"
    "1 \<le> length v" "list_all d v" "dot y" "2 \<le> length w" "list_all a w"
    unfolding email_split_def by blast
  moreover from this(1) obtain u' x' v' y' w' where "s = u' @ x' # v' @ y' # w'" "u = map f u'"
    "x = f x'" "v = map f v'" "y = f y'" "w = map f w'"
    unfolding map_eq_append_conv map_eq_Cons_conv append_eq_map_conv Cons_eq_map_conv by blast
  ultimately show ?R
    unfolding email_split_def
    by (intro exI [of _ u'] exI [of _ x'] exI [of _ v'] exI [of _ y'] exI [of _ w'])
      (simp add: list_all_iff)
next
  assume ?R
  then obtain u x v y w where "s = u @ x # v @ y # w" "1 \<le> length u" "list_all (\<lambda>c. l (f c)) u"
    "at (f x)" "1 \<le> length v" "list_all (\<lambda>c. d (f c)) v" "dot (f y)" "2 \<le> length w"
    "list_all (\<lambda>c. a (f c)) w"
    unfolding email_split_def by blast
  then show ?L
    unfolding email_split_def
    by (intro exI [of _ "map f u"] exI [of _ "f x"] exI [of _ "map f v"] exI [of _ "f y"]
        exI [of _ "map f w"]) (auto simp: list_all_iff)
qed

lemma email_split_low:
  "email_split (\<lambda>r. alnum r \<or> rune_in ''._%+-'' r) (rune_in ''@'')
     (\<lambda>r. alnum r \<or> rune_in ''.-'' r) (rune_in ''.'') alpha s \<Longrightarrow> list_all (\<lambda>r. r < 128) s"
  unfolding email_split_def using low_classes by (auto simp: list_all_iff)

lemma email_match_iff:
  "MatchString email_pattern e \<longleftrightarrow> (\<exists>l dm. e = l @ CHR ''@'' # dm \<and> l \<noteq> [] \<and>
     list_all email_local l \<and> email_domain dm)"
proof -
  let ?sp = "\<lambda>s. email_split (\<lambda>r. alnum r \<or> rune_in ''._%+-'' r) (rune_in ''@'')
     (\<lambda>r. alnum r \<or> rune_in ''.-'' r) (rune_in ''.'') alpha s"
  let ?bs = "\<lambda>e. email_split email_local (\<lambda>c. c = CHR ''@'') email_label (\<lambda>c. c = CHR ''.'')
     (\<lambda>c. alpha (byte c)) e"
  have cls: "(\<lambda>c. alnum (byte c) \<or> rune_in ''._%+-'' (byte c)) = email_local"
    "(\<lambda>c. rune_in ''@'' (byte c)) = (\<lambda>c. c = CHR ''@'')"
    "(\<lambda>c. alnum (byte c) \<or> rune_in ''.-'' (byte c)) = email_label"
    "(\<lambda>c. rune_in ''.'' (byte c)) = (\<lambda>c. c = CHR ''.'')"
    by (auto simp: fun_eq_iff email_local_def email_label_def rune_in_byte)
  have bytes: "?sp (map (\<lambda>c. byte c) e) \<longleftrightarrow> ?bs e"
    unfolding email_split_map cls ..
  have "?sp (runes e) \<longleftrightarrow> ?bs e"
  proof
    assume sp: "?sp (runes e)"
    then have "runes e = map (\<lambda>c. byte c) e" by (intro runes_ascii runes_low email_split_low)
    with sp bytes show "?bs e" by simp
  next
    assume bs: "?bs e"
    then have "?sp (map (\<lambda>c. byte c) e)" by (simp only: bytes)
    moreover have "list_all (\<lambda>r. r < 128) (map (\<lambda>c. byte c) e)"
      by (rule email_split_low) fact
    then have "runes e = map (\<lambda>c. byte c) e" by (intro runes_ascii) (simp add: list_all_iff)
    ultimately show "?sp (runes e)" by simp
  qed
  also have "?bs e \<longleftrightarrow> (\<exists>l dm. e = l @ CHR ''@'' # dm \<and> l \<noteq> [] \<and>
     list_all email_local l \<and> email_domain dm)"
    unfolding email_split_def email_domain_def by (auto simp: Suc_le_eq)
  finally show ?thesis by (simp only: MatchString_def email_pattern_split)
qed

lemma email_parts:
  assumes "list_all email_local l" "email_domain dm"
  shows "Split (CHR ''@'') (l @ CHR ''@'' # dm) = [l, dm]"
proof -
  have "\<not> email_local (CHR ''@'')" "\<not> email_label (CHR ''@'')"
    by (simp_all add: email_local_def email_label_def alnum_def alpha_def)
  moreover have "CHR ''@'' \<notin> set b" if "list_all (\<lambda>c. alpha (byte c)) b" for b
    using that by (auto simp: list_all_iff alpha_def dest!: bspec)
  ultimately have "CHR ''@'' \<notin> set l" "CHR ''@'' \<notin> set dm"
    using assms unfolding email_domain_def by (auto simp: list_all_iff)
  then show ?thesis by (simp add: Split_append Split_no_sep)
qed

text \<open>
  The email validator accepts exactly the addresses \<open>local@domain\<close> with one at sign, a
  non-empty local part over its characters, a domain of labels that ends in a dot and at least
  two letters, whose domain equals an entry of the whitelist (when there is one) and no entry
  of the blacklist, up to letter case.
\<close>

theorem email_validation_exact:
  "Email_Validate (NewEmailValidator bl wl) e = None \<longleftrightarrow>
     (\<exists>l dm. e = l @ CHR ''@'' # dm \<and> l \<noteq> [] \<and> list_all email_local l \<and> email_domain dm \<and>
        (wl = [] \<or> list_ex (\<lambda>w. EqualFold dm w) wl) \<and> \<not> list_ex (\<lambda>b. EqualFold dm b) bl)"
proof (cases "MatchString email_pattern e")
  case False
  then have "\<not> (\<exists>l dm. e = l @ CHR ''@'' # dm \<and> l \<noteq> [] \<and> list_all email_local l \<and> email_domain dm)"
    unfolding email_match_iff .
  moreover have "Email_Validate (NewEmailValidator bl wl) e \<noteq> None"
    using False by (simp add: Email_Validate_def NewEmailValidator_def)
  ultimately show ?thesis by blast
next
  case True
  then obtain l dm where e: "e = l @ CHR ''@'' # dm" "l \<noteq> []" "list_all email_local l"
    "email_domain dm"
    unfolding email_match_iff by blast
  have uniq: "l' = l \<and> dm' = dm" if "e = l' @ CHR ''@'' # dm'" "list_all email_local l'"
    "email_domain dm'" for l' dm'
    using email_parts [OF that(2,3)] email_parts [OF e(3,4)] that(1) e(1) by simp
  have parts: "Split (CHR ''@'') e = [l, dm]"
    unfolding e(1) by (rule email_parts [OF e(3,4)])
  have dec: "Email_Validate (NewEmailValidator bl wl) e = None \<longleftrightarrow>
      (wl = [] \<or> list_ex (\<lambda>w. EqualFold dm w) wl) \<and> \<not> list_ex (\<lambda>b. EqualFold dm b) bl"
    using True parts by (simp add: Email_Validate_def NewEmailValidator_def)
  show ?thesis
  proof
    assume "Email_Validate (NewEmailValidator bl wl) e = None"
    then show "\<exists>l dm. e = l @ CHR ''@'' # dm \<and> l \<noteq> [] \<and> list_all email_local l \<and> email_domain dm \<and>
        (wl = [] \<or> list_ex (\<lambda>w. EqualFold dm w) wl) \<and> \<not> list_ex (\<lambda>b. EqualFold dm b) bl"
      unfolding dec using e by (elim conjE) (intro exI conjI)
  next
    assume "\<exists>l dm. e = l @ CHR ''@'' # dm \<and> l \<noteq> [] \<and> list_all email_local l \<and> email_domain dm \<and>
        (wl = [] \<or> list_ex (\<lambda>w. EqualFold dm w) wl) \<and> \<not> list_ex (\<lambda>b. EqualFold dm b) bl"
    then show "Email_Validate (NewEmailValidator bl wl) e = None"
      unfolding dec by (elim exE conjE) (drule uniq, assumption+, simp)
  qed
qed

text \<open>The counters of a password are the numbers of its runes of each kind.\<close>

lemma count_kinds_spec:
  "list_all (\<lambda>r. IsUpper U r \<or> IsLower U r \<or> IsDigit U r \<or> ContainsRune cs r) rs \<Longrightarrow>
     \<exists>u' l' d' s'. count_kinds U cs rs (u, l, d, s) = Inr (u', l', d', s') \<and>
       u \<le> u' \<and> l \<le> l' \<and> d \<le> d' \<and> s \<le> s' \<and>
       (list_ex (IsUpper U) rs \<longrightarrow> u < u') \<and>
       (list_ex (\<lambda>r. IsLower U r \<and> \<not> IsUpper U r) rs \<longrightarrow> l < l') \<and>
       (list_ex (\<lambda>r. IsDigit U r \<and> \<not> IsUpper U r \<and> \<not> IsLower U r) rs \<longrightarrow> d < d')"
proof (induction rs arbitrary: u l d s)
  case (Cons r rs)
  then have all: "list_all (\<lambda>r. IsUpper U r \<or> IsLower U r \<or> IsDigit U r \<or> ContainsRune cs r) rs"
    and r: "IsUpper U r \<or> IsLower U r \<or> IsDigit U r \<or> ContainsRune cs r" by simp_all
  let ?n = "if IsUpper U r then (u + 1, l, d, s) else if IsLower U r then (u, l + 1, d, s)
    else if IsDigit U r then (u, l, d + 1, s) else (u, l, d, s + 1)"
  obtain u1 l1 d1 s1 where n: "?n = (u1, l1, d1, s1)" by (metis prod_cases4)
  have "count_kinds U cs (r # rs) (u, l, d, s) = count_kinds U cs rs (u1, l1, d1, s1)"
    unfolding n [symmetric] using r by auto
  with Cons.IH [OF all, of u1 l1 d1 s1] n show ?case by (auto split: if_splits)
qed simp

lemma password_char_kinds:
  assumes "c \<in> set PasswordChars"
  shows "byte c < 128 \<and> (IsUpper U (byte c) \<or> IsLower U (byte c) \<or> IsDigit U (byte c) \<or>
    ContainsRune passwordSpecial (byte c))"
proof -
  have "runes passwordSpecial = map (\<lambda>c. byte c) passwordSpecial"
    by (rule runes_ascii) code_simp
  then have sp: "ContainsRune passwordSpecial (byte c)" if "c \<in> set passwordSpecial" for c
    using that by (auto simp: ContainsRune_def list_ex_iff)
  have "list_all (\<lambda>c. byte c < 128) PasswordChars" by code_simp
  moreover have "list_all (\<lambda>c. c \<notin> set passwordSpecial \<longrightarrow>
      65 \<le> byte c \<and> byte c \<le> 90 \<or> 97 \<le> byte c \<and> byte c \<le> 122 \<or> 48 \<le> byte c \<and> byte c \<le> 57) PasswordChars"
    by code_simp
  ultimately show ?thesis
    using assms sp by (fastforce simp: list_all_iff IsUpper_def IsLower_def IsDigit_def latin1_def)
qed

lemma password_kind_members:
  "c \<in> set passwordUpper \<Longrightarrow> IsUpper U (byte c)"
  "c \<in> set passwordLower \<Longrightarrow> IsLower U (byte c) \<and> \<not> IsUpper U (byte c)"
  "c \<in> set passwordDigits \<Longrightarrow> IsDigit U (byte c) \<and> \<not> IsUpper U (byte c) \<and> \<not> IsLower U (byte c)"
  by (auto simp: passwordUpper_def passwordLower_def passwordDigits_def IsUpper_def IsLower_def
      IsDigit_def latin1_def)

text \<open>
  The password generator and the password validator agree: every password that
  \<open>SecurePassword n\<close> returns, for \<open>n\<close> from 4 up and within the limits of the validator, is
  accepted by the validator with its default rules, whatever the Unicode tables say of the
  runes beyond Latin-1.
\<close>

theorem secure_passwords_are_accepted:
  assumes "4 \<le> n" "mn \<le> n" "mx \<le> 0 \<or> n \<le> mx"
  shows "yields (SecurePassword n) (\<lambda>s. Password_Validate U (NewPasswordValidator mn mx) s = None)"
proof (rule yields_mono [OF yields_SecurePassword [OF assms(1)]], elim conjE exE)
  fix s req
  assume len: "int (length s) = n" and sub: "set s \<subseteq> set PasswordChars"
    and req: "mset req \<subseteq># mset s" "list_all2 (\<lambda>c cs. c \<in> set cs) req
      [passwordLower, passwordUpper, passwordDigits, passwordSpecial]"
  have asc: "runes s = map (\<lambda>c. byte c) s"
    using sub password_char_kinds by (intro runes_ascii) (auto simp: list_all_iff)
  have all: "list_all (\<lambda>r. IsUpper U r \<or> IsLower U r \<or> IsDigit U r \<or>
      ContainsRune passwordSpecial r) (runes s)"
    unfolding asc list_all_iff using sub password_char_kinds by auto
  have "set s \<inter> set passwordUpper \<noteq> {}" "set s \<inter> set passwordLower \<noteq> {}"
    "set s \<inter> set passwordDigits \<noteq> {}"
    using list_all2_class_members [OF req] by simp_all
  then have ex: "list_ex (IsUpper U) (runes s)"
    "list_ex (\<lambda>r. IsLower U r \<and> \<not> IsUpper U r) (runes s)"
    "list_ex (\<lambda>r. IsDigit U r \<and> \<not> IsUpper U r \<and> \<not> IsLower U r) (runes s)"
    unfolding asc list_ex_iff using password_kind_members by fastforce+
  obtain u l d p where "count_kinds U passwordSpecial (runes s) (0, 0, 0, 0) = Inr (u, l, d, p)"
    "1 \<le> u" "1 \<le> l" "1 \<le> d" "0 \<le> p"
    using count_kinds_spec [OF all, of 0 0 0 0] ex by force
  moreover have "length_error mn mx (length (runes s)) = None"
    using assms len by (auto simp: length_error_def asc)
  moreover have "s \<noteq> []" using len assms(1) by auto
  moreover have "pv_SpecialChars (NewPasswordValidator mn mx) = passwordSpecial"
    by (simp add: NewPasswordValidator_def passwordSpecial_def)
  ultimately show "Password_Validate U (NewPasswordValidator mn mx) s = None"
    unfolding Password_Validate_def by (simp add: NewPasswordValidator_def)
qed

definition ascii_tables :: unicode_tables where
  "ascii_tables = \<lparr>ut_Upper = \<lambda>_. False, ut_Lower = \<lambda>_. False, ut_Letter = \<lambda>_. False,
     ut_Digit = \<lambda>_. False\<rparr>"

theorem secure_passwords_are_accepted_witness:
  "fst (SecurePassword 8 (\<lambda>n. Some (n * n + 7))) = Returns (Some ''hI1R{Gx4'') \<and>
   Password_Validate ascii_tables (NewPasswordValidator 8 64) ''hI1R{Gx4'' = None"
proof
  let ?e = "\<lambda>n. Some (n * n + 7) :: nat option"
  show run: "fst (SecurePassword 8 ?e) = Returns (Some ''hI1R{Gx4'')" by code_simp
  have "yields (SecurePassword 8)
      (\<lambda>s. Password_Validate ascii_tables (NewPasswordValidator 8 64) s = None)"
    by (rule secure_passwords_are_accepted) simp_all
  moreover have "reads ?e" by (simp add: reads_def)
  ultimately obtain s e' where "SecurePassword 8 ?e = (Returns (Some s), e')"
    "Password_Validate ascii_tables (NewPasswordValidator 8 64) s = None"
    by (rule yieldsE)
  with run show "Password_Validate ascii_tables (NewPasswordValidator 8 64) ''hI1R{Gx4'' = None"
    by simp
qed

end
