(* ===== verification/KexEncoding.thy ===== *)
theory KexEncoding
  imports GoStrings
begin

text \<open>
  \<^verbatim>\<open>kex-utils/pkg/kexencoding/base32.go\<close>, and the codecs of \<^verbatim>\<open>encoding/base32\<close> and
  \<^verbatim>\<open>encoding/base64\<close> that the sources use, without padding. A codec writes the bits of the data,
  most significant first, in groups of \<open>k\<close> bits (5 or 6), the last one filled with zeros. The
  decoders skip line breaks and ignore the left-over bits, and they differ in what they do with
  a left-over group: \<^verbatim>\<open>base64\<close> rejects a single left-over character; \<^verbatim>\<open>base32\<close> emits nothing
  for an incomplete quantum of 1, 3 or 6 characters and reports no error.
\<close>

subsection \<open>Bits\<close>

fun bits_of :: "nat \<Rightarrow> nat \<Rightarrow> bool list" where
  "bits_of 0 v = []"
| "bits_of (Suc k) v = odd (v div 2 ^ k) # bits_of k v"

fun val_of :: "bool list \<Rightarrow> nat" where
  "val_of [] = 0"
| "val_of (b # bs) = (if b then 2 ^ length bs else 0) + val_of bs"

fun chunks :: "nat \<Rightarrow> 'a list \<Rightarrow> 'a list list" where
  "chunks k xs = (if xs = [] \<or> k = 0 then [] else take k xs # chunks k (drop k xs))"

declare chunks.simps [simp del]

definition fill :: "nat \<Rightarrow> bool list \<Rightarrow> bool list" where
  "fill k c = c @ replicate (k - length c) False"

definition data_bits :: "bytes \<Rightarrow> bool list" where
  "data_bits data = concat (map (\<lambda>c. bits_of 8 (byte c)) data)"

definition whole_bytes :: "bool list \<Rightarrow> bytes" where
  "whole_bytes bits =
     map (\<lambda>c. char_of (val_of c)) (chunks 8 (take (length bits - length bits mod 8) bits))"

fun index_in :: "string \<Rightarrow> char \<Rightarrow> nat option" where
  "index_in [] c = None"
| "index_in (a # as) c = (if c = a then Some 0 else map_option Suc (index_in as c))"

text \<open>The digits of a text, its line breaks skipped; \<^term>\<open>None\<close> on a character outside the alphabet.\<close>

fun text_digits :: "string \<Rightarrow> string \<Rightarrow> nat list option" where
  "text_digits alph [] = Some []"
| "text_digits alph (c # s) =
     (if c = CHR 0x0A \<or> c = CHR 0x0D then text_digits alph s
      else (case index_in alph c of
              None \<Rightarrow> None
            | Some i \<Rightarrow> map_option ((#) i) (text_digits alph s)))"

definition radix_encode :: "string \<Rightarrow> nat \<Rightarrow> bytes \<Rightarrow> string" where
  "radix_encode alph k data =
     map (\<lambda>c. alph ! val_of (fill k c)) (chunks k (data_bits data))"

definition digit_bytes :: "nat \<Rightarrow> nat list \<Rightarrow> bytes" where
  "digit_bytes k ds = whole_bytes (concat (map (bits_of k) ds))"

subsection \<open>The codecs\<close>

definition base64_url :: string where
  "base64_url = ''ABCDEFGHIJKLMNOPQRSTUVWXYZabcdefghijklmnopqrstuvwxyz0123456789-_''"

definition base64_std :: string where
  "base64_std = ''ABCDEFGHIJKLMNOPQRSTUVWXYZabcdefghijklmnopqrstuvwxyz0123456789+/''"

definition base64_decode :: "string \<Rightarrow> string \<Rightarrow> bytes option" where
  "base64_decode alph s =
     (case text_digits alph s of
        None \<Rightarrow> None
      | Some ds \<Rightarrow> if length ds mod 4 = 1 then None else Some (digit_bytes 6 ds))"

definition RawURLEncode :: "bytes \<Rightarrow> string" where
  "RawURLEncode = radix_encode base64_url 6"

definition RawURLDecode :: "string \<Rightarrow> bytes option" where
  "RawURLDecode = base64_decode base64_url"

definition RawStdEncode :: "bytes \<Rightarrow> string" where
  "RawStdEncode = radix_encode base64_std 6"

definition RawStdDecode :: "string \<Rightarrow> bytes option" where
  "RawStdDecode = base64_decode base64_std"

text \<open>With padding: the text is filled with \<^verbatim>\<open>=\<close> to a multiple of four characters.\<close>

definition StdEncode :: "bytes \<Rightarrow> string" where
  "StdEncode data =
     (let s = RawStdEncode data in s @ replicate ((4 - length s mod 4) mod 4) (CHR ''=''))"

definition base32Alphabet :: string where
  "base32Alphabet = ''ABCDEFGHIJKLMNOPQRSTUVWXYZ234567''"

definition base32HexAlphabet :: string where
  "base32HexAlphabet = ''0123456789ABCDEFGHIJKLMNOPQRSTUV''"

definition base32_decode :: "string \<Rightarrow> string \<Rightarrow> bytes option" where
  "base32_decode alph s =
     (case text_digits alph s of
        None \<Rightarrow> None
      | Some ds \<Rightarrow>
          Some (digit_bytes 5
            (if length ds mod 8 \<in> {1, 3, 6} then take (length ds - length ds mod 8) ds else ds)))"

text \<open>
  \<^verbatim>\<open>strings.ToUpper\<close>, up to the non-ASCII runes of its result: the two runes whose upper case
  is ASCII (U+0131 and U+017F) are mapped; the upper case of every other non-ASCII rune is not
  ASCII, and the decoders reject it like the rune itself.
\<close>

fun ToUpper :: "string \<Rightarrow> string" where
  "ToUpper [] = []"
| "ToUpper [c] = [if is_lower_ascii c then char_of (byte c - 32) else c]"
| "ToUpper (c # d # s) =
     (if c = CHR 0xC4 \<and> d = CHR 0xB1 then CHR ''I'' # ToUpper s
      else if c = CHR 0xC5 \<and> d = CHR 0xBF then CHR ''S'' # ToUpper s
      else (if is_lower_ascii c then char_of (byte c - 32) else c) # ToUpper (d # s))"

definition TrimRightEq :: "string \<Rightarrow> string" where
  "TrimRightEq s = rev (dropWhile (\<lambda>c. c = CHR ''='') (rev s))"

definition Base32Encode :: "bytes \<Rightarrow> string" where
  "Base32Encode data = radix_encode base32Alphabet 5 data"

definition Base32Decode :: "string \<Rightarrow> bytes option" where
  "Base32Decode s = base32_decode base32Alphabet (TrimRightEq (ToUpper s))"

definition Base32HexEncode :: "bytes \<Rightarrow> string" where
  "Base32HexEncode data = radix_encode base32HexAlphabet 5 data"

definition Base32HexDecode :: "string \<Rightarrow> bytes option" where
  "Base32HexDecode s = base32_decode base32HexAlphabet (TrimRightEq (ToUpper s))"

subsection \<open>Round trip of the bit groups\<close>

lemma length_bits_of [simp]: "length (bits_of k v) = k"
  by (induction k) simp_all

lemma val_of_less: "val_of bs < 2 ^ length bs"
  by (induction bs) auto

lemma val_of_bits_of: "val_of (bits_of k v) = v mod 2 ^ k"
proof (induction k)
  case (Suc k)
  have "v mod 2 ^ Suc k = (v div 2 ^ k mod 2) * 2 ^ k + v mod 2 ^ k"
    using mod_mult2_eq [of v "2 ^ k" 2] by (simp add: mult.commute)
  with Suc show ?case by (simp add: odd_iff_mod_2_eq_one)
qed simp

lemma bits_of_add: "v < 2 ^ k \<Longrightarrow> j \<le> k \<Longrightarrow> bits_of j (a * 2 ^ k + v) = bits_of j v"
proof (induction j)
  case (Suc j)
  have "k = Suc j + (k - Suc j)" using Suc.prems(2) by simp
  then have "2 ^ k = (2 :: nat) ^ (Suc j + (k - Suc j))" by (rule arg_cong)
  then have "a * 2 ^ k + v = v + (2 * (a * 2 ^ (k - Suc j))) * 2 ^ j"
    by (simp only: power_add power_Suc mult.assoc mult.commute mult.left_commute add.commute)
  then have "(a * 2 ^ k + v) div 2 ^ j = 2 * (a * 2 ^ (k - Suc j)) + v div 2 ^ j"
    by (simp only: div_mult_self1 power_not_zero zero_neq_numeral not_False_eq_True
        zero_neq_numeral [symmetric])
  with Suc show ?case by simp
qed simp

lemma bits_of_val_of: "length bs = k \<Longrightarrow> bits_of k (val_of bs) = bs"
proof (induction bs arbitrary: k)
  case (Cons b bs)
  have lt: "val_of bs < 2 ^ length bs" by (rule val_of_less)
  have "bits_of (length bs) (val_of (b # bs)) = bs"
  proof (cases b)
    case True
    then show ?thesis using bits_of_add [OF lt order_refl, of 1] Cons.IH by simp
  qed (simp add: Cons.IH)
  moreover have "odd (val_of (b # bs) div 2 ^ length bs) = b"
  proof (cases b)
    case True
    have "(2 ^ length bs + val_of bs) div 2 ^ length bs = Suc (val_of bs div 2 ^ length bs)"
      using div_add_self1 [of "2 ^ length bs" "val_of bs"] by (simp del: div_add_self1)
    with True lt show ?thesis by simp
  qed (use lt in simp)
  ultimately show ?case using Cons.prems by auto
qed simp

lemma length_concat_const: "(\<And>x. x \<in> set xss \<Longrightarrow> length x = k) \<Longrightarrow> length (concat xss) = k * length xss"
  by (induction xss) simp_all

lemma length_data_bits [simp]: "length (data_bits data) = 8 * length data"
  by (induction data) (simp_all add: data_bits_def)

lemma chunks_append:
  "length xs = k \<Longrightarrow> k \<noteq> 0 \<Longrightarrow> chunks k (xs @ ys) = xs # chunks k ys"
  by (subst chunks.simps) auto

lemma chunks_data: "chunks 8 (data_bits data) = map (\<lambda>c. bits_of 8 (byte c)) data"
proof (induction data)
  case (Cons c data)
  have "data_bits (c # data) = bits_of 8 (byte c) @ data_bits data" by (simp add: data_bits_def)
  with Cons show ?case by (simp only: chunks_append length_bits_of) simp
qed (simp add: data_bits_def chunks.simps)

lemma whole_bytes_data:
  assumes "length z < 8"
  shows "whole_bytes (data_bits data @ z) = data"
proof -
  have "take (length (data_bits data @ z) - length (data_bits data @ z) mod 8) (data_bits data @ z)
      = data_bits data"
    using assms by simp
  then show ?thesis
    unfolding whole_bytes_def by (simp only: chunks_data)
      (simp add: comp_def val_of_bits_of del: bits_of.simps)
qed

lemma concat_fill:
  "0 < k \<Longrightarrow> \<exists>m < k. concat (map (fill k) (chunks k bs)) = bs @ replicate m False \<and>
     (length bs + m) mod k = 0"
proof (induction k bs rule: chunks.induct)
  case (1 k bs)
  show ?case
  proof (cases "bs = []")
    case False
    show ?thesis
    proof (cases "length bs \<le> k")
      case True
      then have "chunks k bs = [bs]" using False "1.prems" by (simp add: chunks.simps)
      then show ?thesis
        using True False "1.prems"
        by (intro exI [of _ "k - length bs"]) (simp add: fill_def)
    next
      case long: False
      then have f: "fill k (take k bs) = take k bs" by (simp add: fill_def)
      have c: "chunks k bs = take k bs # chunks k (drop k bs)"
        using False "1.prems" by (subst chunks.simps) simp
      obtain m where m: "m < k" "concat (map (fill k) (chunks k (drop k bs))) =
          drop k bs @ replicate m False" "(length (drop k bs) + m) mod k = 0"
        using "1.IH" False "1.prems" by auto
      have "(length bs + m) mod k = (length (drop k bs) + m + k) mod k" using long by simp
      then have "(length bs + m) mod k = 0" using m(3) by (simp only: mod_add_self2)
      with m(1,2) show ?thesis by (intro exI [of _ m]) (simp add: c f append_assoc [symmetric] del: append_assoc)
    qed
  qed (use "1.prems" in \<open>auto simp: chunks.simps\<close>)
qed

lemma length_chunk: "c \<in> set (chunks k xs) \<Longrightarrow> length c \<le> k"
  by (induction k xs rule: chunks.induct) (subst (asm) chunks.simps, auto split: if_splits)

lemma length_fill: "length c \<le> k \<Longrightarrow> length (fill k c) = k"
  by (simp add: fill_def)

definition digits_of :: "nat \<Rightarrow> bytes \<Rightarrow> nat list" where
  "digits_of k data = map (\<lambda>c. val_of (fill k c)) (chunks k (data_bits data))"

lemma radix_encode_digits: "radix_encode alph k data = map (\<lambda>d. alph ! d) (digits_of k data)"
  by (simp add: radix_encode_def digits_of_def)

lemma digits_of_less: "d \<in> set (digits_of k data) \<Longrightarrow> d < 2 ^ k"
proof -
  assume "d \<in> set (digits_of k data)"
  then obtain c where "c \<in> set (chunks k (data_bits data))" "d = val_of (fill k c)"
    by (auto simp: digits_of_def)
  with val_of_less [of "fill k c"] length_fill [OF length_chunk] show ?thesis by simp
qed

lemma bits_of_digits:
  assumes "0 < k"
  shows "\<exists>m < k. concat (map (bits_of k) (digits_of k data)) = data_bits data @ replicate m False \<and>
    k * length (digits_of k data) = 8 * length data + m"
proof -
  obtain m where m: "m < k" "concat (map (fill k) (chunks k (data_bits data))) =
      data_bits data @ replicate m False"
    using concat_fill [OF assms] by blast
  have eq: "map (bits_of k) (digits_of k data) = map (fill k) (chunks k (data_bits data))"
    by (auto simp: digits_of_def bits_of_val_of length_fill length_chunk)
  have "k * length (digits_of k data) = length (concat (map (bits_of k) (digits_of k data)))"
    by (subst length_concat_const [where k = k]) auto
  also have "\<dots> = 8 * length data + m" unfolding eq m(2) by simp
  finally show ?thesis using m eq by auto
qed

lemma digit_bytes_digits:
  assumes "0 < k" "k \<le> 8"
  shows "digit_bytes k (digits_of k data) = data"
proof -
  obtain m where "m < k" "concat (map (bits_of k) (digits_of k data)) =
      data_bits data @ replicate m False"
    using bits_of_digits [OF assms(1)] by blast
  with assms(2) show ?thesis by (simp add: digit_bytes_def whole_bytes_data)
qed

text \<open>An alphabet is good when it has no duplicates and no line breaks.\<close>

lemma index_in_nth: "distinct alph \<Longrightarrow> i < length alph \<Longrightarrow> index_in alph (alph ! i) = Some i"
proof (induction alph arbitrary: i)
  case (Cons a alph)
  then show ?case by (cases i) (auto dest: nth_mem)
qed simp

lemma text_digits_map:
  assumes "distinct alph" "CHR 0x0A \<notin> set alph" "CHR 0x0D \<notin> set alph"
    "\<And>d. d \<in> set ds \<Longrightarrow> d < length alph"
  shows "text_digits alph (map (\<lambda>d. alph ! d) ds) = Some ds"
  using assms(4)
proof (induction ds)
  case (Cons d ds)
  then have "d < length alph" by simp
  then have "alph ! d \<in> set alph" by simp
  then have "alph ! d \<noteq> CHR 0x0A" "alph ! d \<noteq> CHR 0x0D" using assms(2,3) by metis+
  with Cons index_in_nth [OF assms(1) \<open>d < length alph\<close>] show ?case by simp
qed simp

lemma alphabets:
  "distinct base64_url" "distinct base64_std" "distinct base32Alphabet" "distinct base32HexAlphabet"
  "length base64_url = 64" "length base64_std = 64" "length base32Alphabet = 32"
  "length base32HexAlphabet = 32"
  by (simp_all add: base64_url_def base64_std_def base32Alphabet_def base32HexAlphabet_def)

lemma no_line_breaks:
  "CHR 0x0A \<notin> set base64_url" "CHR 0x0D \<notin> set base64_url"
  "CHR 0x0A \<notin> set base64_std" "CHR 0x0D \<notin> set base64_std"
  "CHR 0x0A \<notin> set base32Alphabet" "CHR 0x0D \<notin> set base32Alphabet"
  "CHR 0x0A \<notin> set base32HexAlphabet" "CHR 0x0D \<notin> set base32HexAlphabet"
  by (simp_all add: base64_url_def base64_std_def base32Alphabet_def base32HexAlphabet_def)

lemma quantum6:
  fixes x n m :: nat
  assumes "m < 6" "6 * x = 8 * n + m"
  shows "x mod 4 \<noteq> 1"
proof
  assume "x mod 4 = 1"
  have "8 dvd 6 * x - m" using assms(2) by simp
  moreover obtain q where "x = 4 * q + 1" using \<open>x mod 4 = 1\<close> by (metis mult_div_mod_eq)
  ultimately have "8 dvd 8 * (3 * q) + (6 - m)" using assms(1) by (simp add: algebra_simps)
  then have "8 dvd 6 - m" by (metis dvd_add_right_iff dvd_triv_left)
  then show False using assms(1) by (auto dest: dvd_imp_le)
qed

lemma quantum5:
  fixes x n m :: nat
  assumes "m < 5" "5 * x = 8 * n + m"
  shows "x mod 8 \<noteq> 1" "x mod 8 \<noteq> 3" "x mod 8 \<noteq> 6"
proof -
  have "5 * x mod 8 = m" using assms by simp
  then have "5 * (x mod 8) mod 8 = m" by (simp add: mod_mult_right_eq)
  with assms(1) show "x mod 8 \<noteq> 1" "x mod 8 \<noteq> 3" "x mod 8 \<noteq> 6" by auto
qed

lemma base64_decode_encode:
  assumes "distinct alph" "CHR 0x0A \<notin> set alph" "CHR 0x0D \<notin> set alph" "length alph = 64"
  shows "base64_decode alph (radix_encode alph 6 data) = Some data"
proof -
  let ?ds = "digits_of 6 data"
  have "text_digits alph (radix_encode alph 6 data) = Some ?ds"
    unfolding radix_encode_digits
    by (rule text_digits_map [OF assms(1,2,3)]) (use digits_of_less [of _ 6] assms(4) in simp)
  moreover obtain m where "m < 6" "6 * length ?ds = 8 * length data + m"
    using bits_of_digits [of 6 data, OF zero_less_numeral] by (elim exE conjE) (rule that)
  then have "length ?ds mod 4 \<noteq> 1" by (rule quantum6)
  ultimately show ?thesis by (simp add: base64_decode_def digit_bytes_digits)
qed

lemma RawURLDecode_Encode [simp]: "RawURLDecode (RawURLEncode data) = Some data"
  unfolding RawURLDecode_def RawURLEncode_def
  by (intro base64_decode_encode) (simp_all add: alphabets no_line_breaks)

lemma RawStdDecode_Encode [simp]: "RawStdDecode (RawStdEncode data) = Some data"
  unfolding RawStdDecode_def RawStdEncode_def
  by (intro base64_decode_encode) (simp_all add: alphabets no_line_breaks)

lemma RawURLEncode_chars: "c \<in> set (RawURLEncode data) \<Longrightarrow> c \<in> set base64_url"
  using digits_of_less [of _ 6 data]
  by (auto simp: RawURLEncode_def radix_encode_digits alphabets in_set_conv_nth [of _ base64_url])

lemma RawStdEncode_chars: "c \<in> set (RawStdEncode data) \<Longrightarrow> c \<in> set base64_std"
  using digits_of_less [of _ 6 data]
  by (auto simp: RawStdEncode_def radix_encode_digits alphabets in_set_conv_nth [of _ base64_std])

lemma base32_decode_encode:
  assumes "distinct alph" "CHR 0x0A \<notin> set alph" "CHR 0x0D \<notin> set alph" "length alph = 32"
  shows "base32_decode alph (radix_encode alph 5 data) = Some data"
proof -
  let ?ds = "digits_of 5 data"
  have "text_digits alph (radix_encode alph 5 data) = Some ?ds"
    unfolding radix_encode_digits
    by (rule text_digits_map [OF assms(1,2,3)]) (use digits_of_less [of _ 5] assms(4) in simp)
  moreover obtain m where "m < 5" "5 * length ?ds = 8 * length data + m"
    using bits_of_digits [of 5 data, OF zero_less_numeral] by (elim exE conjE) (rule that)
  then have "length ?ds mod 8 \<noteq> 1" "length ?ds mod 8 \<noteq> 3" "length ?ds mod 8 \<noteq> 6"
    by (rule quantum5)+
  ultimately show ?thesis by (simp add: base32_decode_def digit_bytes_digits)
qed

subsection \<open>Case and padding\<close>

definition base32_char :: "char \<Rightarrow> bool" where
  "base32_char c \<longleftrightarrow> is_digit c \<or> is_upper_ascii c"

lemma base32_chars:
  "c \<in> set (Base32Encode data) \<Longrightarrow> base32_char c" "c \<in> set (Base32HexEncode data) \<Longrightarrow> base32_char c"
proof -
  have a: "list_all base32_char base32Alphabet" "list_all base32_char base32HexAlphabet"
    by (simp_all add: base32Alphabet_def base32HexAlphabet_def base32_char_def is_digit_def
        is_upper_ascii_def)
  show "base32_char c" if "c \<in> set (Base32Encode data)"
    using that a(1) digits_of_less [of _ 5 data]
    by (fastforce simp: Base32Encode_def radix_encode_digits list_all_length alphabets)
  show "base32_char c" if "c \<in> set (Base32HexEncode data)"
    using that a(2) digits_of_less [of _ 5 data]
    by (fastforce simp: Base32HexEncode_def radix_encode_digits list_all_length alphabets)
qed

lemma ToUpper_ascii:
  "list_all (\<lambda>c. byte c < 128) s \<Longrightarrow>
     ToUpper s = map (\<lambda>c. if is_lower_ascii c then char_of (byte c - 32) else c) s"
  by (induction s rule: ToUpper.induct) auto

lemma byte_set_bit5: "65 \<le> byte c \<Longrightarrow> byte c \<le> 90 \<Longrightarrow> byte (set_bit5 c) = byte c + 32"
proof (cases c)
  case (Char b0 b1 b2 b3 b4 b5 b6 b7)
  assume "65 \<le> byte c" "byte c \<le> 90"
  then show ?thesis unfolding Char
    by (cases b0; cases b1; cases b2; cases b3; cases b4; cases b5; cases b6; cases b7) simp_all
qed

lemma upper_of_either:
  assumes "base32_char c" "d = c \<or> d = lower_ascii c"
  shows "byte d < 128 \<and> (if is_lower_ascii d then char_of (byte d - 32) else d) = c"
  using assms
  by (auto simp: base32_char_def lower_ascii_def is_digit_def is_upper_ascii_def is_lower_ascii_def
      byte_set_bit5)

lemma ToUpper_either_case:
  assumes "list_all2 (\<lambda>d c. d = c \<or> d = lower_ascii c) t s" "list_all base32_char s"
  shows "ToUpper (t @ replicate n (CHR ''='')) = s @ replicate n (CHR ''='')"
proof -
  let ?u = "\<lambda>c. if is_lower_ascii c then char_of (byte c - 32) else c"
  have "list_all (\<lambda>c. byte c < 128) t \<and> map ?u t = s"
    using assms
  proof (induction rule: list_all2_induct)
    case (Cons d t c s)
    then show ?case using upper_of_either [of c d] by auto
  qed simp
  then show ?thesis
    by (subst ToUpper_ascii) (auto simp: list_all_iff is_lower_ascii_def map_replicate_const)
qed

lemma TrimRightEq_pad:
  assumes "CHR ''='' \<notin> set s"
  shows "TrimRightEq (s @ replicate n (CHR ''='')) = s"
proof -
  have "dropWhile (\<lambda>c. c = CHR ''='') (replicate n (CHR ''='') @ t) = dropWhile (\<lambda>c. c = CHR ''='') t"
    for t by (induction n) auto
  moreover have "dropWhile (\<lambda>c. c = CHR ''='') (rev s) = rev s"
    using assms by (cases "rev s") (simp_all, metis list.set_intros(1) set_rev)
  ultimately show ?thesis by (simp add: TrimRightEq_def)
qed

text \<open>
  Both Base32 codecs read back what they wrote, whatever letters of the text are in lower
  case and however many padding characters follow it. A text whose length leaves an
  incomplete group is not rejected: its last characters are dropped without an error.
\<close>

theorem base32_roundtrip:
  assumes "list_all2 (\<lambda>d c. d = c \<or> d = lower_ascii c) t (Base32Encode data)"
    and "list_all2 (\<lambda>d c. d = c \<or> d = lower_ascii c) u (Base32HexEncode data)"
  shows "Base32Decode (t @ replicate n (CHR ''='')) = Some data \<and>
    Base32HexDecode (u @ replicate n (CHR ''='')) = Some data \<and>
    Base32Decode ''MFRGGZDFA'' = Some ''abcde'' \<and> Base32Decode ''A'' = Some []"
proof (intro conjI)
  have "\<not> base32_char (CHR ''='')" by (simp add: base32_char_def is_digit_def is_upper_ascii_def)
  then have ne: "CHR ''='' \<notin> set (Base32Encode data)" "CHR ''='' \<notin> set (Base32HexEncode data)"
    using base32_chars by blast+
  have up: "ToUpper (t @ replicate n (CHR ''='')) = Base32Encode data @ replicate n (CHR ''='')"
    "ToUpper (u @ replicate n (CHR ''='')) = Base32HexEncode data @ replicate n (CHR ''='')"
    by (rule ToUpper_either_case [OF assms(1)], simp add: list_all_iff base32_chars)
      (rule ToUpper_either_case [OF assms(2)], simp add: list_all_iff base32_chars)
  have dec: "base32_decode base32Alphabet (Base32Encode data) = Some data"
    "base32_decode base32HexAlphabet (Base32HexEncode data) = Some data"
    unfolding Base32Encode_def Base32HexEncode_def
    by (intro base32_decode_encode; simp add: alphabets no_line_breaks)+
  show "Base32Decode (t @ replicate n (CHR ''='')) = Some data"
    by (simp only: Base32Decode_def up TrimRightEq_pad [OF ne(1)] dec)
  show "Base32HexDecode (u @ replicate n (CHR ''='')) = Some data"
    by (simp only: Base32HexDecode_def up TrimRightEq_pad [OF ne(2)] dec)
qed code_simp+

theorem base32_roundtrip_witness:
  "Base32Encode ''go'' = ''M5XQ'' \<and> Base32HexEncode ''go'' = ''CTNG'' \<and>
   Base32Decode ''m5Xq===='' = Some ''go''"
proof -
  have e: "Base32Encode ''go'' = ''M5XQ''" "Base32HexEncode ''go'' = ''CTNG''" by code_simp+
  have "Base32Decode (''m5Xq'' @ replicate 4 (CHR ''='')) = Some ''go''"
    by (rule conjunct1 [OF base32_roundtrip [of _ "''go''" "''CTNG''"]])
      (simp_all add: e lower_ascii_def is_upper_ascii_def)
  with e show ?thesis by (simp add: numeral_eq_Suc)
qed

end
