(* ===== verification/KexCrypto.thy ===== *)
theory KexCrypto
  imports KexRandom KexEncoding
begin

text \<open>
  \<^verbatim>\<open>kex-utils/pkg/crypto\<close>: the registry of cryptographic providers, the built-in SM2 and SM4-GCM
  providers, the signer, JWE in direct mode and Argon2id password hashes. The primitives of
  the \<^verbatim>\<open>gmsm\<close> and \<^verbatim>\<open>argon2\<close> modules are parameters, collected in a record; what is relied on
  is named in \<open>gmsm_laws\<close>. Keys are their encodings. A function that needs random bytes takes
  the stream of \<open>KexRandom\<close>. The \<^verbatim>\<open>context\<close> arguments are not used by the built-in providers.
\<close>

definition SGD_SM3_SM2 :: string where
  "SGD_SM3_SM2 = ''SGD_SM3_SM2''"

definition SGD_SM4_GCM :: string where
  "SGD_SM4_GCM = ''SGD_SM4_GCM''"

definition SM4BlockSize :: nat where
  "SM4BlockSize = 16"

definition SM4GCMNonceSize :: nat where
  "SM4GCMNonceSize = 12"

datatype crypto_error =
    ErrNoProvider string | WrongKeyType string | SM2SignFailed string | SM2VerifyFailed
  | SM4KeyLength nat | NonceLength nat | OutputTooShort | SealedTooShort | OpenFailed
  | JWEParts nat | JWEEncryptedKey | JWEBadIV | JWEBadCiphertext | JWEBadTag | JWETagLength nat
  | RandFailed

text \<open>The key material behind \<^verbatim>\<open>interface{}\<close>.\<close>

datatype crypto_key = SM2PrivateKey bytes | ECDSAPublicKey bytes | OtherKey string

record gmsm =
  gm_NewPrivateKey :: "bytes \<Rightarrow> bytes option"
  gm_PublicKey :: "bytes \<Rightarrow> bytes"
  gm_Sign :: "bytes \<Rightarrow> bytes \<Rightarrow> entropy \<Rightarrow> (string + bytes) \<times> entropy"
  gm_Verify :: "bytes \<Rightarrow> bytes \<Rightarrow> bytes \<Rightarrow> bool"
  gm_Seal :: "bytes \<Rightarrow> bytes \<Rightarrow> bytes \<Rightarrow> bytes \<Rightarrow> bytes"
  gm_Open :: "bytes \<Rightarrow> bytes \<Rightarrow> bytes \<Rightarrow> bytes \<Rightarrow> bytes option"
  gm_SM3 :: "bytes \<Rightarrow> bytes"

text \<open>
  What is relied on: a signature verifies under the public key of its private key; GCM adds a
  tag of 16 bytes, and opening under the same key, nonce and additional data gives the
  plaintext back.
\<close>

definition gmsm_laws :: "gmsm \<Rightarrow> bool" where
  "gmsm_laws G \<longleftrightarrow>
     (\<forall>k m e sig e'. gm_Sign G k m e = (Inr sig, e') \<longrightarrow> gm_Verify G (gm_PublicKey G k) m sig) \<and>
     (\<forall>k iv p aad. length (gm_Seal G k iv p aad) = length p + 16 \<and>
        gm_Open G k iv (gm_Seal G k iv p aad) aad = Some p)"

subsection \<open>Computations that draw random bytes\<close>

type_synonym 'a crnd = "entropy \<Rightarrow> (crypto_error + 'a) \<times> entropy"

definition crnd_return :: "'a \<Rightarrow> 'a crnd" where
  "crnd_return x = (\<lambda>e. (Inr x, e))"

definition crnd_fail :: "crypto_error \<Rightarrow> 'a crnd" where
  "crnd_fail err = (\<lambda>e. (Inl err, e))"

definition crnd_then :: "'a crnd \<Rightarrow> ('a \<Rightarrow> 'b crnd) \<Rightarrow> 'b crnd" where
  "crnd_then m f = (\<lambda>e. case m e of (Inl err, e') \<Rightarrow> (Inl err, e') | (Inr x, e') \<Rightarrow> f x e')"

text \<open>\<^verbatim>\<open>rand.Read\<close> of a fresh slice. (\<open>rand_Read\<close> never panics.)\<close>

definition random_bytes :: "nat \<Rightarrow> bytes crnd" where
  "random_bytes n = (\<lambda>e. case rand_Read n e of
      (Returns (Some b), e') \<Rightarrow> (Inr (byte_string b), e')
    | (_, e') \<Rightarrow> (Inl RandFailed, e'))"

subsection \<open>Providers and their registry\<close>

record sign_provider =
  sp_Algorithm :: string
  sp_Sign :: "string \<Rightarrow> string \<Rightarrow> crypto_key \<Rightarrow> bytes \<Rightarrow> string crnd"

record verify_provider =
  vp_Algorithm :: string
  vp_Verify :: "bytes \<Rightarrow> bytes \<Rightarrow> crypto_key \<Rightarrow> crypto_error option"

record content_encrypt_provider =
  ce_Algorithm :: string
  ce_Encrypt :: "bytes \<Rightarrow> bytes \<Rightarrow> bytes \<Rightarrow> bytes \<Rightarrow> crypto_error + bytes"

record content_decrypt_provider =
  cd_Algorithm :: string
  cd_Decrypt :: "bytes \<Rightarrow> bytes \<Rightarrow> bytes \<Rightarrow> bytes \<Rightarrow> crypto_error + bytes"

record provider_registry =
  pr_signers :: "string \<rightharpoonup> sign_provider"
  pr_verifiers :: "string \<rightharpoonup> verify_provider"
  pr_contentEnc :: "string \<rightharpoonup> content_encrypt_provider"
  pr_contentDec :: "string \<rightharpoonup> content_decrypt_provider"

definition NewProviderRegistry :: provider_registry where
  "NewProviderRegistry =
     \<lparr>pr_signers = \<lambda>_. None, pr_verifiers = \<lambda>_. None, pr_contentEnc = \<lambda>_. None,
      pr_contentDec = \<lambda>_. None\<rparr>"

definition RegisterSigner :: "string \<Rightarrow> sign_provider \<Rightarrow> provider_registry \<Rightarrow> provider_registry" where
  "RegisterSigner alg p r = r\<lparr>pr_signers := (pr_signers r)(alg \<mapsto> p)\<rparr>"

definition GetSigner :: "provider_registry \<Rightarrow> string \<Rightarrow> sign_provider option" where
  "GetSigner r alg = pr_signers r alg"

definition RegisterVerifier :: "string \<Rightarrow> verify_provider \<Rightarrow> provider_registry \<Rightarrow> provider_registry" where
  "RegisterVerifier alg p r = r\<lparr>pr_verifiers := (pr_verifiers r)(alg \<mapsto> p)\<rparr>"

definition GetVerifier :: "provider_registry \<Rightarrow> string \<Rightarrow> verify_provider option" where
  "GetVerifier r alg = pr_verifiers r alg"

definition RegisterContentEncryptor :: "string \<Rightarrow> content_encrypt_provider \<Rightarrow> provider_registry \<Rightarrow>
    provider_registry" where
  "RegisterContentEncryptor alg p r = r\<lparr>pr_contentEnc := (pr_contentEnc r)(alg \<mapsto> p)\<rparr>"

definition GetContentEncryptor :: "provider_registry \<Rightarrow> string \<Rightarrow> content_encrypt_provider option" where
  "GetContentEncryptor r alg = pr_contentEnc r alg"

definition RegisterContentDecryptor :: "string \<Rightarrow> content_decrypt_provider \<Rightarrow> provider_registry \<Rightarrow>
    provider_registry" where
  "RegisterContentDecryptor alg p r = r\<lparr>pr_contentDec := (pr_contentDec r)(alg \<mapsto> p)\<rparr>"

definition GetContentDecryptor :: "provider_registry \<Rightarrow> string \<Rightarrow> content_decrypt_provider option" where
  "GetContentDecryptor r alg = pr_contentDec r alg"

subsection \<open>JSON texts of the headers\<close>

text \<open>
  \<^verbatim>\<open>json.Marshal\<close> of a map with string values writes the keys in order. \<open>json_quote\<close> is its
  escaping of an ASCII string (the algorithm names, the token type and the key id).
\<close>

definition json_char :: "char \<Rightarrow> string" where
  "json_char c =
     (if c = CHR 0x22 then [CHR 0x5C, CHR 0x22]
      else if c = CHR 0x5C then [CHR 0x5C, CHR 0x5C]
      else if c = CHR 0x0A then [CHR 0x5C, CHR ''n'']
      else if c = CHR 0x0D then [CHR 0x5C, CHR ''r'']
      else if c = CHR 0x09 then [CHR 0x5C, CHR ''t'']
      else if c = CHR 0x08 then [CHR 0x5C, CHR ''b'']
      else if c = CHR 0x0C then [CHR 0x5C, CHR ''f'']
      else if byte c < 32 \<or> c \<in> set ''<>&'' then [CHR 0x5C, CHR ''u'', CHR ''0'', CHR ''0''] @ hex_encode [c]
      else [c])"

definition json_quote :: "string \<Rightarrow> string" where
  "json_quote s = [CHR 0x22] @ concat (map json_char s) @ [CHR 0x22]"

definition json_object :: "(string \<times> string) list \<Rightarrow> string" where
  "json_object kvs = ''{'' @ Join '','' (map (\<lambda>(k, v). json_quote k @ '':'' @ json_quote v) kvs) @ ''}''"

subsection \<open>The built-in providers\<close>

definition sm2_header :: "string \<Rightarrow> string \<Rightarrow> string" where
  "sm2_header keyID tokenType =
     json_object ([(''alg'', SGD_SM3_SM2)] @ (if keyID \<noteq> [] then [(''kid'', keyID)] else []) @
       [(''typ'', tokenType)])"

definition sm2SignProvider :: "gmsm \<Rightarrow> sign_provider" where
  "sm2SignProvider G =
     \<lparr>sp_Algorithm = SGD_SM3_SM2,
      sp_Sign = (\<lambda>keyID tokenType key payload. (case key of
          SM2PrivateKey priv \<Rightarrow>
            let headerB64 = RawURLEncode (sm2_header keyID tokenType);
                payloadB64 = RawURLEncode payload;
                signingInput = headerB64 @ ''.'' @ payloadB64
            in (\<lambda>e. case gm_Sign G priv signingInput e of
                  (Inl err, e') \<Rightarrow> (Inl (SM2SignFailed err), e')
                | (Inr sig, e') \<Rightarrow>
                    (Inr (headerB64 @ ''.'' @ payloadB64 @ ''.'' @ RawURLEncode sig), e'))
        | ECDSAPublicKey _ \<Rightarrow> crnd_fail (WrongKeyType ''*sm2.PrivateKey'')
        | OtherKey _ \<Rightarrow> crnd_fail (WrongKeyType ''*sm2.PrivateKey'')))\<rparr>"

definition sm2VerifyProvider :: "gmsm \<Rightarrow> verify_provider" where
  "sm2VerifyProvider G =
     \<lparr>vp_Algorithm = SGD_SM3_SM2,
      vp_Verify = (\<lambda>signingInput signature key. (case key of
          ECDSAPublicKey pub \<Rightarrow>
            if \<not> gm_Verify G pub signingInput signature then Some SM2VerifyFailed else None
        | SM2PrivateKey _ \<Rightarrow> Some (WrongKeyType ''*ecdsa.PublicKey'')
        | OtherKey _ \<Rightarrow> Some (WrongKeyType ''*ecdsa.PublicKey'')))\<rparr>"

text \<open>
  The block cipher and GCM are constructed from a key of the checked length, which cannot fail.
\<close>

definition sm4GCMEncrypt :: "gmsm \<Rightarrow> bytes \<Rightarrow> bytes \<Rightarrow> bytes \<Rightarrow> bytes \<Rightarrow> crypto_error + bytes" where
  "sm4GCMEncrypt G key iv plaintext aad =
     (if length key \<noteq> SM4BlockSize then Inl (SM4KeyLength (length key))
      else if length iv \<noteq> SM4GCMNonceSize then Inl (NonceLength (length iv))
      else Inr (gm_Seal G key iv plaintext aad))"

definition sm4GCMDecrypt :: "gmsm \<Rightarrow> bytes \<Rightarrow> bytes \<Rightarrow> bytes \<Rightarrow> bytes \<Rightarrow> crypto_error + bytes" where
  "sm4GCMDecrypt G key iv sealed aad =
     (if length key \<noteq> SM4BlockSize then Inl (SM4KeyLength (length key))
      else if length iv \<noteq> SM4GCMNonceSize then Inl (NonceLength (length iv))
      else if length sealed < 16 then Inl SealedTooShort
      else (case gm_Open G key iv sealed aad of None \<Rightarrow> Inl OpenFailed | Some p \<Rightarrow> Inr p))"

definition sm4_content_encryptor :: "gmsm \<Rightarrow> content_encrypt_provider" where
  "sm4_content_encryptor G = \<lparr>ce_Algorithm = SGD_SM4_GCM, ce_Encrypt = sm4GCMEncrypt G\<rparr>"

definition sm4_content_decryptor :: "gmsm \<Rightarrow> content_decrypt_provider" where
  "sm4_content_decryptor G = \<lparr>cd_Algorithm = SGD_SM4_GCM, cd_Decrypt = sm4GCMDecrypt G\<rparr>"

text \<open>\<^verbatim>\<open>DefaultRegistry\<close> after the package's \<^verbatim>\<open>init\<close>.\<close>

definition registry_init :: "gmsm \<Rightarrow> provider_registry \<Rightarrow> provider_registry" where
  "registry_init G r =
     RegisterContentDecryptor SGD_SM4_GCM (sm4_content_decryptor G)
      (RegisterContentEncryptor SGD_SM4_GCM (sm4_content_encryptor G)
       (RegisterVerifier SGD_SM3_SM2 (sm2VerifyProvider G)
        (RegisterSigner SGD_SM3_SM2 (sm2SignProvider G) r)))"

definition DefaultRegistry :: "gmsm \<Rightarrow> provider_registry" where
  "DefaultRegistry G = registry_init G NewProviderRegistry"

subsection \<open>The signer\<close>

record signer =
  sg_algorithm :: string
  sg_key :: crypto_key
  sg_keyID :: string
  sg_tokenType :: string

definition NewSigner :: "string \<Rightarrow> crypto_key \<Rightarrow> string \<Rightarrow> signer" where
  "NewSigner algorithm key keyID =
     \<lparr>sg_algorithm = algorithm, sg_key = key, sg_keyID = keyID, sg_tokenType = []\<rparr>"

definition SetTokenType :: "string \<Rightarrow> signer \<Rightarrow> signer" where
  "SetTokenType tokenType s = s\<lparr>sg_tokenType := tokenType\<rparr>"

definition tokenTypeOrDefault :: "signer \<Rightarrow> string" where
  "tokenTypeOrDefault s = (if sg_tokenType s \<noteq> [] then sg_tokenType s else ''JWT'')"

definition Signer_Sign :: "provider_registry \<Rightarrow> signer \<Rightarrow> bytes \<Rightarrow> string crnd" where
  "Signer_Sign R s payload =
     (case GetSigner R (sg_algorithm s) of
        Some provider \<Rightarrow>
          sp_Sign provider (sg_keyID s) (tokenTypeOrDefault s) (sg_key s) payload
      | None \<Rightarrow> crnd_fail (ErrNoProvider (sg_algorithm s)))"

definition SM3HashString :: "gmsm \<Rightarrow> string \<Rightarrow> bytes" where
  "SM3HashString G s = gm_SM3 G s"

definition SM3HashStringHex :: "gmsm \<Rightarrow> string \<Rightarrow> string" where
  "SM3HashStringHex G s = hex_encode (gm_SM3 G s)"

subsection \<open>JWE in direct mode\<close>

definition jwe_header :: string where
  "jwe_header = json_object [(''alg'', ''dir''), (''enc'', SGD_SM4_GCM)]"

text \<open>The compact form: ciphertext and tag of the sealed text, split before its last 16 bytes.\<close>

definition jwe_compact :: "string \<Rightarrow> bytes \<Rightarrow> bytes \<Rightarrow> string" where
  "jwe_compact headerB64 iv sealed =
     headerB64 @ ''..'' @ RawURLEncode iv @ ''.'' @
     RawURLEncode (take (length sealed - 16) sealed) @ ''.'' @
     RawURLEncode (drop (length sealed - 16) sealed)"

definition EncryptJWE :: "gmsm \<Rightarrow> provider_registry \<Rightarrow> bytes \<Rightarrow> bytes \<Rightarrow> string crnd" where
  "EncryptJWE G R plaintext key =
     (if length key \<noteq> SM4BlockSize then crnd_fail (SM4KeyLength (length key))
      else let headerB64 = RawURLEncode jwe_header in
        crnd_then (random_bytes SM4GCMNonceSize) (\<lambda>iv.
          case GetContentEncryptor R SGD_SM4_GCM of
            Some provider \<Rightarrow>
              (case ce_Encrypt provider key iv plaintext headerB64 of
                 Inl err \<Rightarrow> crnd_fail err
               | Inr sealed \<Rightarrow>
                   if length sealed < 16 then crnd_fail OutputTooShort
                   else crnd_return (jwe_compact headerB64 iv sealed))
          | None \<Rightarrow>
              crnd_return (jwe_compact headerB64 iv (gm_Seal G key iv plaintext headerB64))))"

definition DecryptJWE :: "gmsm \<Rightarrow> provider_registry \<Rightarrow> string \<Rightarrow> bytes \<Rightarrow> crypto_error + bytes" where
  "DecryptJWE G R compact key =
     (let parts = Split (CHR ''.'') compact in
      if length parts = 3 then Inr compact
      else if length key \<noteq> SM4BlockSize then Inl (SM4KeyLength (length key))
      else if length parts \<noteq> 5 then Inl (JWEParts (length parts))
      else if parts ! 1 \<noteq> [] then Inl JWEEncryptedKey
      else case RawURLDecode (parts ! 2) of
        None \<Rightarrow> Inl JWEBadIV
      | Some iv \<Rightarrow>
          if length iv \<noteq> SM4GCMNonceSize then Inl (NonceLength (length iv))
          else (case RawURLDecode (parts ! 3) of
            None \<Rightarrow> Inl JWEBadCiphertext
          | Some ct \<Rightarrow>
              (case RawURLDecode (parts ! 4) of
                None \<Rightarrow> Inl JWEBadTag
              | Some tag \<Rightarrow>
                  if length tag \<noteq> 16 then Inl (JWETagLength (length tag))
                  else (case GetContentDecryptor R SGD_SM4_GCM of
                    Some provider \<Rightarrow> cd_Decrypt provider key iv (ct @ tag) (parts ! 0)
                  | None \<Rightarrow> sm4GCMDecrypt G key iv (ct @ tag) (parts ! 0)))))"

subsection \<open>Argon2id password hashes\<close>

text \<open>
  The unsigned fields have 32 bits, the parallelism 8. \<^verbatim>\<open>argon2.IDKey\<close> is a parameter; the
  module documents that it panics on zero rounds or zero parallelism.
\<close>

record Argon2idParams =
  ar_Memory :: "32 word"
  ar_Iterations :: "32 word"
  ar_Parallelism :: "8 word"
  ar_SaltLength :: "32 word"
  ar_KeyLength :: "32 word"

definition DefaultArgon2idParams :: Argon2idParams where
  "DefaultArgon2idParams =
     \<lparr>ar_Memory = 64 * 1024, ar_Iterations = 3, ar_Parallelism = 2, ar_SaltLength = 16,
      ar_KeyLength = 32\<rparr>"

type_synonym id_key = "bytes \<Rightarrow> bytes \<Rightarrow> 32 word \<Rightarrow> 32 word \<Rightarrow> 8 word \<Rightarrow> 32 word \<Rightarrow> bytes"

datatype argon_error =
    ArgonFormat | ArgonAlgorithm string | ArgonVersion | ArgonParams | ArgonSalt | ArgonHash
  | ArgonRand

definition IDKey :: "id_key \<Rightarrow> bytes \<Rightarrow> bytes \<Rightarrow> Argon2idParams \<Rightarrow> bytes run" where
  "IDKey K pw salt p =
     (if ar_Iterations p = 0 then Panics ''argon2: number of rounds too small''
      else if ar_Parallelism p = 0 then Panics ''argon2: parallelism degree too low''
      else Returns (K pw salt (ar_Iterations p) (ar_Memory p) (ar_Parallelism p) (ar_KeyLength p)))"

definition format_word :: "'a::len word \<Rightarrow> string" where
  "format_word w = nat_digits (unat w)"

definition phc_string :: "Argon2idParams \<Rightarrow> bytes \<Rightarrow> bytes \<Rightarrow> string" where
  "phc_string p salt hash =
     ''$argon2id$v='' @ nat_digits 19 @ ''$m='' @ format_word (ar_Memory p) @ '',t='' @
     format_word (ar_Iterations p) @ '',p='' @ format_word (ar_Parallelism p) @ ''$'' @
     RawStdEncode salt @ ''$'' @ RawStdEncode hash"

definition Argon2idHash :: "id_key \<Rightarrow> string \<Rightarrow> Argon2idParams \<Rightarrow> entropy \<Rightarrow>
    (argon_error + string) run \<times> entropy" where
  "Argon2idHash K password p e =
     (case random_bytes (unat (ar_SaltLength p)) e of
        (Inl _, e') \<Rightarrow> (Returns (Inl ArgonRand), e')
      | (Inr salt, e') \<Rightarrow>
          (case IDKey K password salt p of
             Panics m \<Rightarrow> (Panics m, e')
           | Returns hash \<Rightarrow> (Returns (Inr (phc_string p salt hash)), e')))"

text \<open>
  \<^verbatim>\<open>fmt.Sscanf\<close> of a literal and of \<open>%d\<close>: white space before the number is skipped (a line
  break is an error), at least one digit, a value that fits the type, and the rest of the
  input is left. A signed number may have a sign.
\<close>

fun scan_space :: "nat \<Rightarrow> string \<Rightarrow> string option" where
  "scan_space 0 s = Some s"
| "scan_space (Suc n) s =
     (if take 1 s = [CHR 0x0A] \<or> take 2 s = [CHR 0x0D, CHR 0x0A] then None
      else (case strip_rune s of None \<Rightarrow> Some s | Some s' \<Rightarrow> scan_space n s'))"

definition scan_lit :: "string \<Rightarrow> string \<Rightarrow> string option" where
  "scan_lit lit s = (if HasPrefix s lit then Some (drop (length lit) s) else None)"

definition scan_digits :: "nat \<Rightarrow> string \<Rightarrow> (nat \<times> string) option" where
  "scan_digits bound s =
     (let ds = takeWhile is_digit s in
      if ds = [] then None
      else (case digits_val 0 ds of
              None \<Rightarrow> None
            | Some v \<Rightarrow> if v < bound then Some (v, drop (length ds) s) else None))"

definition scan_uint :: "nat \<Rightarrow> string \<Rightarrow> (nat \<times> string) option" where
  "scan_uint bound s = Option.bind (scan_space (length s) s) (scan_digits bound)"

definition scan_int :: "string \<Rightarrow> (int \<times> string) option" where
  "scan_int s = Option.bind (scan_space (length s) s) (\<lambda>s'.
     if take 1 s' = ''-'' then map_option (\<lambda>(v, r). (- int v, r)) (scan_digits (2 ^ 63 + 1) (drop 1 s'))
     else map_option (\<lambda>(v, r). (int v, r))
       (scan_digits (2 ^ 63) (if take 1 s' = ''+'' then drop 1 s' else s')))"

definition scan_version :: "string \<Rightarrow> int option" where
  "scan_version s = Option.bind (scan_lit ''v='' s) (\<lambda>s. map_option fst (scan_int s))"

definition scan_params :: "string \<Rightarrow> (32 word \<times> 32 word \<times> 8 word) option" where
  "scan_params s =
     Option.bind (scan_lit ''m='' s) (\<lambda>s.
     Option.bind (scan_uint (2 ^ 32) s) (\<lambda>(m, s).
     Option.bind (scan_lit '',t='' s) (\<lambda>s.
     Option.bind (scan_uint (2 ^ 32) s) (\<lambda>(t, s).
     Option.bind (scan_lit '',p='' s) (\<lambda>s.
     map_option (\<lambda>(p, s). (of_nat m, of_nat t, of_nat p)) (scan_uint (2 ^ 8) s))))))"

text \<open>The salt and key lengths that \<open>Argon2idVerify\<close> sets; the lengths wrap at 32 bits.\<close>

definition Argon2idVerify :: "id_key \<Rightarrow> string \<Rightarrow> string \<Rightarrow> (argon_error + bool) run" where
  "Argon2idVerify K password encodedHash =
     (let parts = Split (CHR ''$'') encodedHash in
      if length parts \<noteq> 6 then Returns (Inl ArgonFormat)
      else if parts ! 1 \<noteq> ''argon2id'' then Returns (Inl (ArgonAlgorithm (parts ! 1)))
      else case scan_version (parts ! 2) of
        None \<Rightarrow> Returns (Inl ArgonVersion)
      | Some version \<Rightarrow>
          (case scan_params (parts ! 3) of
            None \<Rightarrow> Returns (Inl ArgonParams)
          | Some (m, t, p) \<Rightarrow>
              (case RawStdDecode (parts ! 4) of
                None \<Rightarrow> Returns (Inl ArgonSalt)
              | Some salt \<Rightarrow>
                  (case RawStdDecode (parts ! 5) of
                    None \<Rightarrow> Returns (Inl ArgonHash)
                  | Some expected \<Rightarrow>
                      (case IDKey K password salt
                          \<lparr>ar_Memory = m, ar_Iterations = t, ar_Parallelism = p,
                           ar_SaltLength = of_nat (length salt),
                           ar_KeyLength = of_nat (length expected)\<rparr> of
                         Panics e \<Rightarrow> Panics e
                       | Returns hash \<Rightarrow> Returns (Inr (hash = expected)))))))"

subsection \<open>Round trips\<close>

lemma json_quote_ascii_test:
  "jwe_header = ''{'' @ [CHR 0x22] @ ''alg'' @ [CHR 0x22] @ '':'' @ [CHR 0x22] @ ''dir'' @ [CHR 0x22] @
     '','' @ [CHR 0x22] @ ''enc'' @ [CHR 0x22] @ '':'' @ [CHR 0x22] @ ''SGD_SM4_GCM'' @ [CHR 0x22] @ ''}''"
  by code_simp

lemma dot_not_in_base64 [simp]: "CHR ''.'' \<notin> set (RawURLEncode d)"
proof
  assume "CHR ''.'' \<in> set (RawURLEncode d)"
  then have "CHR ''.'' \<in> set base64_url" by (rule RawURLEncode_chars)
  then show False by (simp add: base64_url_def)
qed

lemma dollar_not_in_base64 [simp]: "CHR ''$'' \<notin> set (RawStdEncode d)"
proof
  assume "CHR ''$'' \<in> set (RawStdEncode d)"
  then have "CHR ''$'' \<in> set base64_std" by (rule RawStdEncode_chars)
  then show False by (simp add: base64_std_def)
qed

lemma split_jwe_compact:
  "Split (CHR ''.'') (jwe_compact (RawURLEncode h) iv sealed) =
     [RawURLEncode h, [], RawURLEncode iv, RawURLEncode (take (length sealed - 16) sealed),
      RawURLEncode (drop (length sealed - 16) sealed)]"
proof -
  have "jwe_compact (RawURLEncode h) iv sealed =
      RawURLEncode h @ CHR ''.'' # [] @ CHR ''.'' # RawURLEncode iv @ CHR ''.'' #
      RawURLEncode (take (length sealed - 16) sealed) @ CHR ''.'' #
      RawURLEncode (drop (length sealed - 16) sealed)"
    by (simp add: jwe_compact_def)
  then show ?thesis by (simp only: Split_append dot_not_in_base64 list.set empty_iff simp_thms Split_no_sep)
qed

lemma default_registry:
  "GetSigner (DefaultRegistry G) SGD_SM3_SM2 = Some (sm2SignProvider G)"
  "GetVerifier (DefaultRegistry G) SGD_SM3_SM2 = Some (sm2VerifyProvider G)"
  "GetContentEncryptor (DefaultRegistry G) SGD_SM4_GCM = Some (sm4_content_encryptor G)"
  "GetContentDecryptor (DefaultRegistry G) SGD_SM4_GCM = Some (sm4_content_decryptor G)"
  by (simp_all add: DefaultRegistry_def registry_init_def RegisterSigner_def GetSigner_def
      RegisterVerifier_def GetVerifier_def RegisterContentEncryptor_def GetContentEncryptor_def
      RegisterContentDecryptor_def GetContentDecryptor_def NewProviderRegistry_def)

lemma random_bytes_length: "random_bytes n e = (Inr b, e') \<Longrightarrow> length b = n"
  by (auto simp: random_bytes_def byte_string_def dest!: rand_Read_length
      split: prod.splits run.splits option.splits)

lemma gmsm_sealD:
  "gmsm_laws G \<Longrightarrow> length (gm_Seal G k iv p aad) = length p + 16"
  "gmsm_laws G \<Longrightarrow> gm_Open G k iv (gm_Seal G k iv p aad) aad = Some p"
  by (simp_all add: gmsm_laws_def)

lemma EncryptJWE_Inr:
  assumes "gmsm_laws G" "EncryptJWE G (DefaultRegistry G) p key e = (Inr c, e')"
  obtains iv where "length key = 16" "length iv = 12"
    "c = jwe_compact (RawURLEncode jwe_header) iv (gm_Seal G key iv p (RawURLEncode jwe_header))"
proof -
  have key: "length key = 16"
    using assms(2) by (auto simp: EncryptJWE_def crnd_fail_def SM4BlockSize_def split: if_splits)
  obtain iv e1 where iv: "random_bytes 12 e = (Inr iv, e1)"
    using assms(2) key
    by (cases "random_bytes 12 e", cases "fst (random_bytes 12 e)")
      (auto simp: EncryptJWE_def crnd_then_def SM4BlockSize_def SM4GCMNonceSize_def Let_def)
  have "length iv = 12" by (rule random_bytes_length [OF iv])
  moreover have "c = jwe_compact (RawURLEncode jwe_header) iv
      (gm_Seal G key iv p (RawURLEncode jwe_header))"
    using assms(2) key iv \<open>length iv = 12\<close> gmsm_sealD(1) [OF assms(1)]
    by (simp add: EncryptJWE_def crnd_then_def crnd_return_def SM4BlockSize_def SM4GCMNonceSize_def
        Let_def default_registry sm4_content_encryptor_def sm4GCMEncrypt_def)
  ultimately show thesis using that key by blast
qed

lemma DecryptJWE_compact:
  assumes "gmsm_laws G" "length key = 16" "length iv = 12"
  shows "DecryptJWE G (DefaultRegistry G)
     (jwe_compact (RawURLEncode h) iv (gm_Seal G key iv p (RawURLEncode h))) key = Inr p"
proof -
  let ?s = "gm_Seal G key iv p (RawURLEncode h)"
  have len: "length ?s = length p + 16" and op: "gm_Open G key iv ?s (RawURLEncode h) = Some p"
    using gmsm_sealD [OF assms(1)] by simp_all
  then show ?thesis
    unfolding DecryptJWE_def split_jwe_compact
    by (simp add: assms(2,3) default_registry sm4_content_decryptor_def sm4GCMDecrypt_def
        SM4BlockSize_def SM4GCMNonceSize_def Let_def)
qed

lemma strip_rune_digit: "is_digit c \<Longrightarrow> strip_rune (c # s) = None"
proof -
  assume c: "is_digit c"
  have "list_all (\<lambda>r. case r of [] \<Rightarrow> False | d # _ \<Rightarrow> \<not> is_digit d) space_runes" by code_simp
  then have "find (\<lambda>r. take (length r) (c # s) = r) space_runes = None"
    using c by (auto simp: find_None_iff list_all_iff take_Cons split: list.splits nat.splits)
  then show ?thesis by (simp add: strip_rune_def)
qed

lemma scan_space_digit: "is_digit c \<Longrightarrow> scan_space n (c # s) = Some (c # s)"
  by (cases n) (auto simp: strip_rune_digit is_digit_def)

lemma takeWhile_digits:
  assumes "list_all is_digit ds" "r = [] \<or> \<not> is_digit (hd r)"
  shows "takeWhile is_digit (ds @ r) = ds"
proof -
  have "takeWhile is_digit r = []" using assms(2) by (cases r) auto
  then show ?thesis using assms(1) by (simp add: takeWhile_append2 list_all_iff)
qed

lemma scan_space_digits: "scan_space m (nat_digits n @ r) = Some (nat_digits n @ r)"
proof -
  obtain c t where ct: "nat_digits n = c # t"
    using nat_digits_nonempty [of n] by (cases "nat_digits n") auto
  then have "is_digit c" using nat_digits_all_digits [of c n] by simp
  then show ?thesis unfolding ct append_Cons by (rule scan_space_digit)
qed

lemma scan_digits_digits:
  assumes "n < bound" "r = [] \<or> \<not> is_digit (hd r)"
  shows "scan_digits bound (nat_digits n @ r) = Some (n, r)"
proof -
  have "list_all is_digit (nat_digits n)" by (auto simp: list_all_iff nat_digits_all_digits)
  note tw = takeWhile_digits [OF this assms(2)]
  show ?thesis
    unfolding scan_digits_def tw Let_def digits_val_nat_digits using assms(1) by simp
qed

lemma scan_uint_digits:
  assumes "n < bound" "r = [] \<or> \<not> is_digit (hd r)"
  shows "scan_uint bound (nat_digits n @ r) = Some (n, r)"
  by (simp add: scan_uint_def scan_space_digits scan_digits_digits [OF assms])

lemma scan_version_19: "scan_version (''v='' @ nat_digits 19) = Some 19"
proof -
  have t: "take 1 (nat_digits 19 @ []) = [hd (nat_digits 19)]"
    by (simp add: take_Suc)
  have "scan_digits (2 ^ 63) (nat_digits 19 @ []) = Some (19, [])"
    by (rule scan_digits_digits) simp_all
  then have "scan_int (nat_digits 19 @ []) = Some (19, [])"
    unfolding scan_int_def scan_space_digits Option.bind.bind_lunit t
    using nat_digits_hd [of 19] by simp
  then show ?thesis by (simp add: scan_version_def scan_lit_def HasPrefix_iff)
qed

lemma scan_lit_prefix [simp]: "scan_lit l (l @ s) = Some s"
  by (simp add: scan_lit_def HasPrefix_iff)

lemma scan_params_format:
  "scan_params (''m='' @ format_word (m :: 32 word) @ '',t='' @ format_word (t :: 32 word) @ '',p='' @
     format_word (p :: 8 word)) = Some (m, t, p)"
proof -
  have b: "unat m < 2 ^ 32" "unat t < 2 ^ 32" "unat p < 2 ^ 8"
    using unsigned_less [of m] unsigned_less [of t] unsigned_less [of p] by simp_all
  have "scan_uint (2 ^ 8) (nat_digits (unat p)) = Some (unat p, [])"
    using scan_uint_digits [OF b(3), of "[]"] by simp
  moreover have "scan_uint (2 ^ 32) (nat_digits (unat m) @ '',t='' @ x) = Some (unat m, '',t='' @ x)" for x
    by (rule scan_uint_digits [OF b(1)]) (simp add: is_digit_def)
  moreover have "scan_uint (2 ^ 32) (nat_digits (unat t) @ '',p='' @ x) = Some (unat t, '',p='' @ x)" for x
    by (rule scan_uint_digits [OF b(2)]) (simp add: is_digit_def)
  ultimately show ?thesis
    unfolding scan_params_def format_word_def
    by (simp only: scan_lit_prefix Option.bind.bind_lunit prod.case option.map append_assoc
        of_nat_unat ucast_id)
qed

lemma dollar_not_in_digits: "CHR ''$'' \<notin> set (nat_digits n)"
  using nat_digits_all_digits [of "CHR ''$''" n] by (auto simp: is_digit_def)

lemma split_phc:
  "Split (CHR ''$'') (phc_string p salt hash) =
     [[], ''argon2id'', ''v='' @ nat_digits 19,
      ''m='' @ format_word (ar_Memory p) @ '',t='' @ format_word (ar_Iterations p) @ '',p='' @
        format_word (ar_Parallelism p), RawStdEncode salt, RawStdEncode hash]"
proof -
  let ?v = "''v='' @ nat_digits 19"
  let ?m = "''m='' @ format_word (ar_Memory p) @ '',t='' @ format_word (ar_Iterations p) @ '',p='' @
    format_word (ar_Parallelism p)"
  have eq: "phc_string p salt hash = [] @ CHR ''$'' # ''argon2id'' @ CHR ''$'' # ?v @ CHR ''$'' # ?m @
      CHR ''$'' # RawStdEncode salt @ CHR ''$'' # RawStdEncode hash"
    by (simp add: phc_string_def)
  have "CHR ''$'' \<notin> set ?v" "CHR ''$'' \<notin> set ?m" "CHR ''$'' \<notin> set ''argon2id''"
    using dollar_not_in_digits by (simp_all add: format_word_def)
  then show ?thesis
    unfolding eq
    by (simp only: Split_append Split_no_sep dollar_not_in_base64 list.set empty_iff simp_thms)
qed

lemma Argon2idVerify_parts:
  assumes "Split (CHR ''$'') h = [a, ''argon2id'', v, ps, st, hs]" "scan_version v = Some x"
    "scan_params ps = Some (m, t, p)" "RawStdDecode st = Some salt" "RawStdDecode hs = Some expected"
  shows "Argon2idVerify K pw h = (case IDKey K pw salt
      \<lparr>ar_Memory = m, ar_Iterations = t, ar_Parallelism = p, ar_SaltLength = of_nat (length salt),
       ar_KeyLength = of_nat (length expected)\<rparr> of
     Panics e \<Rightarrow> Panics e | Returns hash \<Rightarrow> Returns (Inr (hash = expected)))"
  using assms(2-) by (simp add: Argon2idVerify_def assms(1) Let_def)

text \<open>
  A password hash made by \<open>Argon2idHash\<close> is read back with the same salt and parameters:
  \<open>Argon2idVerify\<close> accepts the password it was made from, and any other one exactly when it
  derives the same key.
\<close>

theorem argon2_hash_verifies:
  assumes "\<And>pw salt m t p n. length (K pw salt m t p n) = unat n"
    and "Argon2idHash K pw p e = (Returns (Inr h), e')"
  shows "\<exists>salt. length salt = unat (ar_SaltLength p) \<and>
    (\<forall>pw'. Argon2idVerify K pw' h = Returns (Inr (
       K pw' salt (ar_Iterations p) (ar_Memory p) (ar_Parallelism p) (ar_KeyLength p) =
       K pw salt (ar_Iterations p) (ar_Memory p) (ar_Parallelism p) (ar_KeyLength p))))"
proof -
  obtain salt e1 where salt: "random_bytes (unat (ar_SaltLength p)) e = (Inr salt, e1)"
    using assms(2) by (auto simp: Argon2idHash_def split: prod.splits sum.splits)
  let ?k = "\<lambda>pw. K pw salt (ar_Iterations p) (ar_Memory p) (ar_Parallelism p) (ar_KeyLength p)"
  have h: "h = phc_string p salt (?k pw)" and pos: "ar_Iterations p \<noteq> 0" "ar_Parallelism p \<noteq> 0"
    using assms(2) salt by (auto simp: Argon2idHash_def IDKey_def split: if_splits)
  have "Argon2idVerify K pw' h = Returns (Inr (?k pw' = ?k pw))" for pw'
    unfolding h
    by (subst Argon2idVerify_parts [OF split_phc scan_version_19 scan_params_format RawStdDecode_Encode
          RawStdDecode_Encode]) (simp add: IDKey_def pos assms(1))
  then show ?thesis using random_bytes_length [OF salt] by blast
qed

definition toy_id_key :: id_key where
  "toy_id_key pw salt m t p n = take (unat n) (pw @ salt @ replicate (unat n) (CHR ''x''))"

definition toy_params :: Argon2idParams where
  "toy_params = \<lparr>ar_Memory = 8, ar_Iterations = 1, ar_Parallelism = 1, ar_SaltLength = 2,
     ar_KeyLength = 5\<rparr>"

theorem argon2_hash_verifies_witness:
  "fst (Argon2idHash toy_id_key ''abc'' toy_params (\<lambda>n. Some 65)) = Returns (Inr ''$argon2id$v=19$m=8,t=1,p=1$QUE$YWJjQUE'') \<and>
   Argon2idVerify toy_id_key ''abc'' ''$argon2id$v=19$m=8,t=1,p=1$QUE$YWJjQUE'' = Returns (Inr True)"
proof
  let ?e = "\<lambda>n. Some 65 :: nat option"
  show h: "fst (Argon2idHash toy_id_key ''abc'' toy_params ?e) = Returns (Inr ''$argon2id$v=19$m=8,t=1,p=1$QUE$YWJjQUE'')"
    by code_simp
  obtain e' where run: "Argon2idHash toy_id_key ''abc'' toy_params ?e = (Returns (Inr ''$argon2id$v=19$m=8,t=1,p=1$QUE$YWJjQUE''), e')"
    using h by (cases "Argon2idHash toy_id_key ''abc'' toy_params ?e") simp
  have len: "length (toy_id_key pw salt m t p n) = unat n" for pw salt m t p n
    by (simp add: toy_id_key_def)
  show "Argon2idVerify toy_id_key ''abc'' ''$argon2id$v=19$m=8,t=1,p=1$QUE$YWJjQUE'' = Returns (Inr True)"
    using argon2_hash_verifies [OF len run] by auto
qed

text \<open>
  Decrypting what \<open>EncryptJWE\<close> returns, with the built-in providers and the same key, gives
  the plaintext back; encryption succeeds only with a key of 16 bytes and writes five parts
  with an empty second one. A text of three parts is handed back as it is, with any key.
\<close>

theorem jwe_roundtrip:
  assumes "gmsm_laws G" "EncryptJWE G (DefaultRegistry G) p key e = (Inr c, e')"
  shows "DecryptJWE G (DefaultRegistry G) c key = Inr p \<and> length key = 16 \<and>
    length (Split (CHR ''.'') c) = 5 \<and> Split (CHR ''.'') c ! 1 = [] \<and>
    (length (Split (CHR ''.'') s) = 3 \<longrightarrow> DecryptJWE G (DefaultRegistry G) s k = Inr s)"
proof -
  obtain iv where iv: "length key = 16" "length iv = 12"
    "c = jwe_compact (RawURLEncode jwe_header) iv (gm_Seal G key iv p (RawURLEncode jwe_header))"
    by (rule EncryptJWE_Inr [OF assms])
  show ?thesis
    unfolding iv(3) split_jwe_compact DecryptJWE_compact [OF assms(1) iv(1,2)]
    by (simp add: iv(1) DecryptJWE_def Let_def)
qed

definition toy_gmsm :: gmsm where
  "toy_gmsm =
     \<lparr>gm_NewPrivateKey = (\<lambda>b. if length b = 32 then Some b else None), gm_PublicKey = (\<lambda>k. k),
      gm_Sign = (\<lambda>k m e. (Inr (k @ m), e)), gm_Verify = (\<lambda>k m sig. sig = k @ m),
      gm_Seal = (\<lambda>k iv p aad. p @ replicate 16 (CHR 0x00)),
      gm_Open = (\<lambda>k iv s aad. Some (take (length s - 16) s)), gm_SM3 = (\<lambda>m. m)\<rparr>"

lemma toy_gmsm_laws: "gmsm_laws toy_gmsm"
  by (simp add: gmsm_laws_def toy_gmsm_def)

theorem jwe_roundtrip_witness:
  "\<exists>c e'. EncryptJWE toy_gmsm (DefaultRegistry toy_gmsm) ''hi'' (replicate 16 (CHR ''k'')) (\<lambda>n. Some n)
       = (Inr c, e') \<and>
     DecryptJWE toy_gmsm (DefaultRegistry toy_gmsm) c (replicate 16 (CHR ''k'')) = Inr ''hi''"
proof -
  let ?run = "EncryptJWE toy_gmsm (DefaultRegistry toy_gmsm) ''hi'' (replicate 16 (CHR ''k'')) (\<lambda>n. Some n)"
  have "is_ok (fst ?run)" by code_simp
  then obtain c e' where "?run = (Inr c, e')" by (cases ?run) (auto simp: is_ok_iff)
  with jwe_roundtrip [OF toy_gmsm_laws this] show ?thesis by blast
qed

end
