(* ===== verification/Jwt.thy ===== *)
theory Jwt
  imports KexCrypto GoRunes
begin

text \<open>
  \<^verbatim>\<open>kex-utils/pkg/jwt/jwt.go\<close>: issuing and parsing of access and refresh tokens. SM2 signatures
  and SM4 encryption go through \<open>KexCrypto\<close>; for the other algorithms the JOSE module, the
  parser of PKCS #8 keys and the JSON codec of the claims are parameters, collected with the
  primitives and the provider registry in \<open>jose\<close>. A clock reading is in nanoseconds; the
  claims hold seconds.
\<close>

datatype jwt_error =
    ErrInvalidToken | ErrExpiredToken | ErrInvalidIssuer | ErrInvalidAudience
  | NoSM2Verifier | UnsupportedSignAlgorithm string | KeyEncoding string | InvalidKey string
  | WrongKeyKind string | EncKeyLength nat nat | UnsupportedContentEncryption string
  | JTIFailed | MarshalFailed | SignerFailed crypto_error | SignFailed
  | NestedSignFailed jwt_error | EncryptFailed | SM4Failed crypto_error

definition ModeJWS :: string where "ModeJWS = ''jws''"
definition ModeJWE :: string where "ModeJWE = ''jwe''"

text \<open>\<^verbatim>\<open>Extra\<close> is kept as its JSON text (empty when the field is absent).\<close>

record claims =
  cl_Issuer :: string
  cl_Subject :: string
  cl_Audience :: string
  cl_ExpiresAt :: int
  cl_NotBefore :: int
  cl_IssuedAt :: int
  cl_JWTID :: string
  cl_UserID :: string
  cl_TenantID :: string
  cl_Roles :: "string list"
  cl_TokenType :: string
  cl_Extra :: string

definition unix_seconds :: "timestamp \<Rightarrow> int" where
  "unix_seconds t = t div 1000000000"

definition isValid :: "timestamp \<Rightarrow> claims \<Rightarrow> bool" where
  "isValid now c =
     (let n = unix_seconds now in
      if n > cl_ExpiresAt c then False
      else if cl_NotBefore c > 0 \<and> n < cl_NotBefore c then False
      else True)"

subsection \<open>Keys and libraries\<close>

datatype std_key = RSAKey bytes | ECKey bytes | OtherPKCS8 bytes

text \<open>What is handed to the JOSE module as a key; a public key is named by its private key.\<close>

datatype jws_key = NilKey | HMACKey bytes | RSAPrivate bytes | ECDSAPrivate bytes
  | RSAPublic bytes | ECDSAPublic bytes

record jose =
  jo_gm :: gmsm
  jo_registry :: provider_registry
  jo_ParsePKCS8 :: "bytes \<Rightarrow> std_key option"
  jo_LookupSig :: "string \<Rightarrow> bool"
  jo_LookupEnc :: "string \<Rightarrow> bool"
  jo_Sign :: "string \<Rightarrow> jws_key \<Rightarrow> bytes \<Rightarrow> entropy \<Rightarrow> string option \<times> entropy"
  jo_Verify :: "string \<Rightarrow> jws_key \<Rightarrow> string \<Rightarrow> bytes option"
  jo_Encrypt :: "bytes \<Rightarrow> string \<Rightarrow> bytes \<Rightarrow> entropy \<Rightarrow> string option \<times> entropy"
  jo_Decrypt :: "bytes \<Rightarrow> string \<Rightarrow> bytes option"
  jo_Marshal :: "claims \<Rightarrow> bytes option"
  jo_Unmarshal :: "bytes \<Rightarrow> claims option"

record jwt_manager =
  jm_mode :: string
  jm_hmacKey :: bytes
  jm_stdSigner :: "std_key option"
  jm_sm2Priv :: "bytes option"
  jm_sm2Pub :: "bytes option"
  jm_encKey :: bytes
  jm_signAlgorithm :: string
  jm_contentEncryption :: string
  jm_issuer :: string
  jm_audience :: string
  jm_accessExpiry :: duration
  jm_refreshExpiry :: duration

type_synonym manager_option = "jwt_manager \<Rightarrow> jwt_manager"

definition WithIssuer :: "string \<Rightarrow> manager_option" where
  "WithIssuer issuer m = m\<lparr>jm_issuer := issuer\<rparr>"

definition WithAudience :: "string \<Rightarrow> manager_option" where
  "WithAudience audience m = m\<lparr>jm_audience := audience\<rparr>"

definition WithSignAlgorithm :: "string \<Rightarrow> manager_option" where
  "WithSignAlgorithm alg m = m\<lparr>jm_signAlgorithm := alg\<rparr>"

definition WithContentEncryption :: "string \<Rightarrow> manager_option" where
  "WithContentEncryption alg m = m\<lparr>jm_contentEncryption := alg\<rparr>"

subsection \<open>Algorithm names\<close>

definition isHMACAlgorithm :: "string \<Rightarrow> bool" where
  "isHMACAlgorithm alg \<longleftrightarrow> alg \<in> set [''HS256'', ''HS384'', ''HS512'']"

definition isRSAAlgorithm :: "string \<Rightarrow> bool" where
  "isRSAAlgorithm alg \<longleftrightarrow> alg \<in> set [''RS256'', ''RS384'', ''RS512'', ''PS256'', ''PS384'', ''PS512'']"

definition isECDSAAlgorithm :: "string \<Rightarrow> bool" where
  "isECDSAAlgorithm alg \<longleftrightarrow> alg \<in> set [''ES256'', ''ES384'', ''ES512'']"

definition isSM2Algorithm :: "string \<Rightarrow> bool" where
  "isSM2Algorithm alg \<longleftrightarrow> alg = SGD_SM3_SM2 \<or> EqualFold alg ''SM2'' \<or> EqualFold alg ''SM2-SM3''"

definition isSM4Encryption :: "string \<Rightarrow> bool" where
  "isSM4Encryption alg \<longleftrightarrow> alg = SGD_SM4_GCM \<or> EqualFold alg ''SM4-GCM'' \<or> EqualFold alg ''SM4''"

definition isStandardContentEncryption :: "string \<Rightarrow> bool" where
  "isStandardContentEncryption alg \<longleftrightarrow> alg \<in> set [''A128GCM'', ''A192GCM'', ''A256GCM'']"

definition resolveSignAlgorithm :: "jose \<Rightarrow> jwt_manager \<Rightarrow> string" where
  "resolveSignAlgorithm J m = (if jo_LookupSig J (jm_signAlgorithm m) then jm_signAlgorithm m else ''HS256'')"

definition resolveContentEncryption :: "jose \<Rightarrow> jwt_manager \<Rightarrow> string" where
  "resolveContentEncryption J m =
     (if jo_LookupEnc J (jm_contentEncryption m) then jm_contentEncryption m else ''A256GCM'')"

subsection \<open>Construction\<close>

definition initSM2Key :: "jose \<Rightarrow> string \<Rightarrow> jwt_manager \<Rightarrow> jwt_error + jwt_manager" where
  "initSM2Key J signKey m =
     (case RawURLDecode signKey of
        None \<Rightarrow> Inl (KeyEncoding ''sign_key'')
      | Some raw \<Rightarrow>
          (case gm_NewPrivateKey (jo_gm J) raw of
             None \<Rightarrow> Inl (InvalidKey ''SM2'')
           | Some priv \<Rightarrow>
               Inr (m\<lparr>jm_sm2Priv := Some priv, jm_sm2Pub := Some (gm_PublicKey (jo_gm J) priv)\<rparr>)))"

definition initRSAKey :: "jose \<Rightarrow> string \<Rightarrow> jwt_manager \<Rightarrow> jwt_error + jwt_manager" where
  "initRSAKey J signKey m =
     (case RawURLDecode signKey of
        None \<Rightarrow> Inl (KeyEncoding ''sign_key'')
      | Some keyBytes \<Rightarrow>
          (case jo_ParsePKCS8 J keyBytes of
             None \<Rightarrow> Inl (InvalidKey ''RSA'')
           | Some (RSAKey k) \<Rightarrow> Inr (m\<lparr>jm_stdSigner := Some (RSAKey k)\<rparr>)
           | Some _ \<Rightarrow> Inl (WrongKeyKind ''RSA'')))"

definition initECDSAKey :: "jose \<Rightarrow> string \<Rightarrow> jwt_manager \<Rightarrow> jwt_error + jwt_manager" where
  "initECDSAKey J signKey m =
     (case RawURLDecode signKey of
        None \<Rightarrow> Inl (KeyEncoding ''sign_key'')
      | Some keyBytes \<Rightarrow>
          (case jo_ParsePKCS8 J keyBytes of
             None \<Rightarrow> Inl (InvalidKey ''ECDSA'')
           | Some (ECKey k) \<Rightarrow> Inr (m\<lparr>jm_stdSigner := Some (ECKey k)\<rparr>)
           | Some _ \<Rightarrow> Inl (WrongKeyKind ''ECDSA'')))"

definition initSignKey :: "jose \<Rightarrow> string \<Rightarrow> jwt_manager \<Rightarrow> jwt_error + jwt_manager" where
  "initSignKey J signKey m =
     (if isSM2Algorithm (jm_signAlgorithm m) then initSM2Key J signKey m
      else if isRSAAlgorithm (jm_signAlgorithm m) then initRSAKey J signKey m
      else if isECDSAAlgorithm (jm_signAlgorithm m) then initECDSAKey J signKey m
      else if isHMACAlgorithm (jm_signAlgorithm m) then Inr (m\<lparr>jm_hmacKey := signKey\<rparr>)
      else Inl (UnsupportedSignAlgorithm (jm_signAlgorithm m)))"

definition initEncKeyLen :: "string \<Rightarrow> nat \<Rightarrow> jwt_manager \<Rightarrow> jwt_error + jwt_manager" where
  "initEncKeyLen encKey expected m =
     (case RawURLDecode encKey of
        None \<Rightarrow> Inl (KeyEncoding ''encryption_key'')
      | Some key \<Rightarrow>
          if length key \<noteq> expected then Inl (EncKeyLength expected (length key))
          else Inr (m\<lparr>jm_encKey := key\<rparr>))"

definition aes_key_length :: "string \<Rightarrow> nat option" where
  "aes_key_length alg =
     (if alg = ''A128GCM'' then Some 16 else if alg = ''A192GCM'' then Some 24
      else if alg = ''A256GCM'' then Some 32 else None)"

definition initAESKey :: "string \<Rightarrow> jwt_manager \<Rightarrow> jwt_error + jwt_manager" where
  "initAESKey encKey m =
     (case RawURLDecode encKey of
        None \<Rightarrow> Inl (KeyEncoding ''encryption_key'')
      | Some key \<Rightarrow>
          (case aes_key_length (jm_contentEncryption m) of
             None \<Rightarrow> Inl (UnsupportedContentEncryption (jm_contentEncryption m))
           | Some expected \<Rightarrow>
               if length key \<noteq> expected then Inl (EncKeyLength expected (length key))
               else Inr (m\<lparr>jm_encKey := key\<rparr>)))"

definition initEncKey :: "string \<Rightarrow> jwt_manager \<Rightarrow> jwt_error + jwt_manager" where
  "initEncKey encKey m =
     (if isSM4Encryption (jm_contentEncryption m) then initEncKeyLen encKey SM4BlockSize m
      else initAESKey encKey m)"

definition empty_manager :: "string \<Rightarrow> duration \<Rightarrow> duration \<Rightarrow> jwt_manager" where
  "empty_manager mode accessExpiry refreshExpiry =
     \<lparr>jm_mode = mode, jm_hmacKey = [], jm_stdSigner = None, jm_sm2Priv = None, jm_sm2Pub = None,
      jm_encKey = [], jm_signAlgorithm = ''HS256'', jm_contentEncryption = ''A256GCM'',
      jm_issuer = [], jm_audience = [], jm_accessExpiry = accessExpiry,
      jm_refreshExpiry = refreshExpiry\<rparr>"

definition NewManager :: "jose \<Rightarrow> string \<Rightarrow> string \<Rightarrow> string \<Rightarrow> duration \<Rightarrow> duration \<Rightarrow> manager_option list \<Rightarrow>
    jwt_error + jwt_manager" where
  "NewManager J mode signKey encKey accessExpiry refreshExpiry opts =
     and_then (initSignKey J signKey (fold (\<lambda>opt m. opt m) opts (empty_manager mode accessExpiry refreshExpiry)))
       (\<lambda>m. if mode = ModeJWE then initEncKey encKey m else Inr m)"

subsection \<open>Issuing\<close>

type_synonym 'a jrnd = "entropy \<Rightarrow> (jwt_error + 'a) \<times> entropy"

definition signingKey :: "jwt_manager \<Rightarrow> jws_key" where
  "signingKey m =
     (if jm_sm2Priv m \<noteq> None then NilKey
      else case jm_stdSigner m of
        Some (RSAKey k) \<Rightarrow> RSAPrivate k
      | Some (ECKey k) \<Rightarrow> ECDSAPrivate k
      | Some (OtherPKCS8 k) \<Rightarrow> NilKey
      | None \<Rightarrow> HMACKey (jm_hmacKey m))"

definition verificationKey :: "jwt_manager \<Rightarrow> jws_key" where
  "verificationKey m =
     (if jm_sm2Priv m \<noteq> None then NilKey
      else case jm_stdSigner m of
        Some (RSAKey k) \<Rightarrow> RSAPublic k
      | Some (ECKey k) \<Rightarrow> ECDSAPublic k
      | Some (OtherPKCS8 k) \<Rightarrow> NilKey
      | None \<Rightarrow> HMACKey (jm_hmacKey m))"

definition sm2_signing_key :: "jwt_manager \<Rightarrow> crypto_key" where
  "sm2_signing_key m =
     (case jm_sm2Priv m of Some k \<Rightarrow> SM2PrivateKey k | None \<Rightarrow> OtherKey ''nil *sm2.PrivateKey'')"

definition jwt_sign :: "jose \<Rightarrow> jwt_manager \<Rightarrow> bytes \<Rightarrow> string jrnd" where
  "jwt_sign J m payload = (\<lambda>e.
     if isSM2Algorithm (jm_signAlgorithm m) then
       (case Signer_Sign (jo_registry J)
               (SetTokenType ''JWT'' (NewSigner SGD_SM3_SM2 (sm2_signing_key m) '''')) payload e of
          (Inl err, e') \<Rightarrow> (Inl (SignerFailed err), e')
        | (Inr tok, e') \<Rightarrow> (Inr tok, e'))
     else
       (case jo_Sign J (resolveSignAlgorithm J m) (signingKey m) payload e of
          (None, e') \<Rightarrow> (Inl SignFailed, e')
        | (Some tok, e') \<Rightarrow> (Inr tok, e')))"

definition signThenEncrypt :: "jose \<Rightarrow> jwt_manager \<Rightarrow> bytes \<Rightarrow> string jrnd" where
  "signThenEncrypt J m payload = (\<lambda>e.
     case jwt_sign J m payload e of
       (Inl err, e') \<Rightarrow> (Inl (NestedSignFailed err), e')
     | (Inr inner, e') \<Rightarrow>
         if isSM4Encryption (jm_contentEncryption m) then
           (case EncryptJWE (jo_gm J) (jo_registry J) inner (jm_encKey m) e' of
              (Inl err, e2) \<Rightarrow> (Inl (SM4Failed err), e2)
            | (Inr tok, e2) \<Rightarrow> (Inr tok, e2))
         else
           (case jo_Encrypt J (jm_encKey m) (resolveContentEncryption J m) inner e' of
              (None, e2) \<Rightarrow> (Inl EncryptFailed, e2)
            | (Some tok, e2) \<Rightarrow> (Inr tok, e2)))"

definition issued_claims :: "jwt_manager \<Rightarrow> timestamp \<Rightarrow> string \<Rightarrow> string \<Rightarrow> string \<Rightarrow> string list \<Rightarrow> string \<Rightarrow>
    duration \<Rightarrow> claims" where
  "issued_claims m now jti userID tenantID roles tokenType expiry =
     \<lparr>cl_Issuer = jm_issuer m, cl_Subject = userID, cl_Audience = jm_audience m,
      cl_ExpiresAt = unix_seconds (now + expiry), cl_NotBefore = unix_seconds now,
      cl_IssuedAt = unix_seconds now, cl_JWTID = jti, cl_UserID = userID, cl_TenantID = tenantID,
      cl_Roles = roles, cl_TokenType = tokenType, cl_Extra = []\<rparr>"

definition generateToken :: "jose \<Rightarrow> jwt_manager \<Rightarrow> timestamp \<Rightarrow> string \<Rightarrow> string \<Rightarrow> string list \<Rightarrow> string \<Rightarrow>
    duration \<Rightarrow> string jrnd" where
  "generateToken J m now userID tenantID roles tokenType expiry = (\<lambda>e.
     case NewUUIDString (now div 1000000) e of
       (Returns (Some jti), e') \<Rightarrow>
         (case jo_Marshal J (issued_claims m now jti userID tenantID roles tokenType expiry) of
            None \<Rightarrow> (Inl MarshalFailed, e')
          | Some payload \<Rightarrow>
              if jm_mode m = ModeJWE then signThenEncrypt J m payload e' else jwt_sign J m payload e')
     | (_, e') \<Rightarrow> (Inl JTIFailed, e'))"

definition GenerateAccessToken :: "jose \<Rightarrow> jwt_manager \<Rightarrow> timestamp \<Rightarrow> string \<Rightarrow> string \<Rightarrow> string list \<Rightarrow>
    string jrnd" where
  "GenerateAccessToken J m now userID tenantID roles =
     generateToken J m now userID tenantID roles ''access'' (jm_accessExpiry m)"

definition GenerateRefreshToken :: "jose \<Rightarrow> jwt_manager \<Rightarrow> timestamp \<Rightarrow> string \<Rightarrow> string \<Rightarrow> string list \<Rightarrow>
    string jrnd" where
  "GenerateRefreshToken J m now userID tenantID roles =
     generateToken J m now userID tenantID roles ''refresh'' (jm_refreshExpiry m)"

subsection \<open>Parsing\<close>

definition validateClaims :: "jwt_manager \<Rightarrow> timestamp \<Rightarrow> claims \<Rightarrow> jwt_error option" where
  "validateClaims m now c =
     (if \<not> isValid now c then Some ErrExpiredToken
      else if jm_issuer m \<noteq> [] \<and> cl_Issuer c \<noteq> jm_issuer m then Some ErrInvalidIssuer
      else if jm_audience m \<noteq> [] \<and> cl_Audience c \<noteq> jm_audience m then Some ErrInvalidAudience
      else None)"

text \<open>The last steps of both parsers: decode the payload and check the claims.\<close>

definition claims_of_payload :: "jose \<Rightarrow> jwt_manager \<Rightarrow> timestamp \<Rightarrow> bytes \<Rightarrow> jwt_error + claims" where
  "claims_of_payload J m now payload =
     (case jo_Unmarshal J payload of
        None \<Rightarrow> Inl ErrInvalidToken
      | Some c \<Rightarrow> (case validateClaims m now c of Some err \<Rightarrow> Inl err | None \<Rightarrow> Inr c))"

definition sm2_verification_key :: "jwt_manager \<Rightarrow> crypto_key" where
  "sm2_verification_key m =
     (case jm_sm2Pub m of Some k \<Rightarrow> ECDSAPublicKey k | None \<Rightarrow> OtherKey ''nil *ecdsa.PublicKey'')"

definition verifySM2JWS :: "jose \<Rightarrow> jwt_manager \<Rightarrow> timestamp \<Rightarrow> string \<Rightarrow> jwt_error + claims" where
  "verifySM2JWS J m now tok =
     (let parts = Split (CHR ''.'') tok in
      if length parts \<noteq> 3 then Inl ErrInvalidToken
      else case RawURLDecode (parts ! 2) of
        None \<Rightarrow> Inl ErrInvalidToken
      | Some signature \<Rightarrow>
          (case GetVerifier (jo_registry J) SGD_SM3_SM2 of
             None \<Rightarrow> Inl NoSM2Verifier
           | Some verifier \<Rightarrow>
               (case vp_Verify verifier (parts ! 0 @ ''.'' @ parts ! 1) signature
                       (sm2_verification_key m) of
                  Some _ \<Rightarrow> Inl ErrInvalidToken
                | None \<Rightarrow>
                    (case RawURLDecode (parts ! 1) of
                       None \<Rightarrow> Inl ErrInvalidToken
                     | Some payload \<Rightarrow> claims_of_payload J m now payload))))"

definition parseAndVerify :: "jose \<Rightarrow> jwt_manager \<Rightarrow> timestamp \<Rightarrow> string \<Rightarrow> jwt_error + claims" where
  "parseAndVerify J m now tok =
     (if isSM2Algorithm (jm_signAlgorithm m) then verifySM2JWS J m now tok
      else case jo_Verify J (resolveSignAlgorithm J m) (verificationKey m) tok of
        None \<Rightarrow> Inl ErrInvalidToken
      | Some payload \<Rightarrow> claims_of_payload J m now payload)"

definition decryptThenParse :: "jose \<Rightarrow> jwt_manager \<Rightarrow> timestamp \<Rightarrow> string \<Rightarrow> jwt_error + claims" where
  "decryptThenParse J m now tok =
     (if isSM4Encryption (jm_contentEncryption m) then
        (case DecryptJWE (jo_gm J) (jo_registry J) tok (jm_encKey m) of
           Inl _ \<Rightarrow> Inl ErrInvalidToken
         | Inr inner \<Rightarrow> parseAndVerify J m now inner)
      else
        (case jo_Decrypt J (jm_encKey m) tok of
           None \<Rightarrow> Inl ErrInvalidToken
         | Some payload \<Rightarrow> parseAndVerify J m now payload))"

definition ParseToken :: "jose \<Rightarrow> jwt_manager \<Rightarrow> timestamp \<Rightarrow> string \<Rightarrow> jwt_error + claims" where
  "ParseToken J m now tok =
     (if jm_mode m = ModeJWE then decryptThenParse J m now tok else parseAndVerify J m now tok)"

subsection \<open>What the libraries promise\<close>

fun public_of :: "jws_key \<Rightarrow> jws_key" where
  "public_of (RSAPrivate k) = RSAPublic k"
| "public_of (ECDSAPrivate k) = ECDSAPublic k"
| "public_of k = k"

definition claims_utf8 :: "claims \<Rightarrow> bool" where
  "claims_utf8 c \<longleftrightarrow> list_all valid_utf8
     ([cl_Issuer c, cl_Subject c, cl_Audience c, cl_JWTID c, cl_UserID c, cl_TenantID c,
       cl_TokenType c] @ cl_Roles c) \<and> cl_Extra c = []"

text \<open>
  The registry holds the built-in providers; a JWS verifies, to its payload, under the public
  part of the key that signed it; a JWE decrypts under its key; the JSON of claims whose
  strings are valid UTF-8 decodes to them.
\<close>

definition jose_laws :: "jose \<Rightarrow> bool" where
  "jose_laws J \<longleftrightarrow> gmsm_laws (jo_gm J) \<and> jo_registry J = DefaultRegistry (jo_gm J) \<and>
     (\<forall>alg k p e t e'. jo_Sign J alg k p e = (Some t, e') \<longrightarrow> jo_Verify J alg (public_of k) t = Some p) \<and>
     (\<forall>key enc p e t e'. jo_Encrypt J key enc p e = (Some t, e') \<longrightarrow> jo_Decrypt J key t = Some p) \<and>
     (\<forall>c p. claims_utf8 c \<and> jo_Marshal J c = Some p \<longrightarrow> jo_Unmarshal J p = Some c)"

lemma jose_lawsD:
  assumes "jose_laws J"
  shows "gmsm_laws (jo_gm J)" "jo_registry J = DefaultRegistry (jo_gm J)"
    "jo_Sign J alg k p e = (Some t, e') \<Longrightarrow> jo_Verify J alg (public_of k) t = Some p"
    "jo_Encrypt J key enc p e = (Some t, e') \<Longrightarrow> jo_Decrypt J key t = Some p"
    "claims_utf8 c \<Longrightarrow> jo_Marshal J c = Some p \<Longrightarrow> jo_Unmarshal J p = Some c"
  using assms unfolding jose_laws_def by blast+

subsection \<open>Managers\<close>

text \<open>The options of the package; the fields are not exported, so there are no others.\<close>

inductive package_option :: "manager_option \<Rightarrow> bool" where
  "package_option (WithIssuer s)"
| "package_option (WithAudience s)"
| "package_option (WithSignAlgorithm s)"
| "package_option (WithContentEncryption s)"

definition enc_key_bytes :: "jwt_manager \<Rightarrow> nat option" where
  "enc_key_bytes m = (if isSM4Encryption (jm_contentEncryption m) then Some 16
     else aes_key_length (jm_contentEncryption m))"

text \<open>A manager has the keys of its algorithms, and in JWE mode a key of the right length.\<close>

definition sign_keys_ok :: "jose \<Rightarrow> jwt_manager \<Rightarrow> bool" where
  "sign_keys_ok J m \<longleftrightarrow>
     (if isSM2Algorithm (jm_signAlgorithm m)
      then \<exists>k. jm_sm2Priv m = Some k \<and> jm_sm2Pub m = Some (gm_PublicKey (jo_gm J) k)
      else jm_sm2Priv m = None \<and>
        (if isRSAAlgorithm (jm_signAlgorithm m) then \<exists>k. jm_stdSigner m = Some (RSAKey k)
         else if isECDSAAlgorithm (jm_signAlgorithm m) then \<exists>k. jm_stdSigner m = Some (ECKey k)
         else isHMACAlgorithm (jm_signAlgorithm m) \<and> jm_stdSigner m = None))"

definition manager_ok :: "jose \<Rightarrow> jwt_manager \<Rightarrow> bool" where
  "manager_ok J m \<longleftrightarrow> sign_keys_ok J m \<and>
     (jm_mode m = ModeJWE \<longrightarrow> enc_key_bytes m = Some (length (jm_encKey m)))"

lemma with_enc_key [simp]:
  "sign_keys_ok J (m\<lparr>jm_encKey := k\<rparr>) = sign_keys_ok J m"
  "enc_key_bytes (m\<lparr>jm_encKey := k\<rparr>) = enc_key_bytes m"
  by (simp_all add: sign_keys_ok_def enc_key_bytes_def)

definition no_keys :: "jwt_manager \<Rightarrow> bool" where
  "no_keys m \<longleftrightarrow> jm_stdSigner m = None \<and> jm_sm2Priv m = None"

lemma options_keep:
  assumes "list_all package_option opts"
  shows "no_keys m \<Longrightarrow> no_keys (fold (\<lambda>opt m. opt m) opts m)"
    and "jm_mode (fold (\<lambda>opt m. opt m) opts m) = jm_mode m"
proof -
  have one: "no_keys (opt m) = no_keys m \<and> jm_mode (opt m) = jm_mode m" if "package_option opt" for opt m
    using that by cases (simp_all add: no_keys_def WithIssuer_def WithAudience_def
        WithSignAlgorithm_def WithContentEncryption_def)
  show "no_keys m \<Longrightarrow> no_keys (fold (\<lambda>opt m. opt m) opts m)"
    using assms by (induction opts arbitrary: m) (simp_all add: one)
  show "jm_mode (fold (\<lambda>opt m. opt m) opts m) = jm_mode m"
    using assms by (induction opts arbitrary: m) (simp_all add: one)
qed

lemma initSignKey_Inr:
  assumes "initSignKey J k m = Inr m'" "no_keys m"
  shows "jm_mode m' = jm_mode m \<and> sign_keys_ok J m'"
  using assms
  by (auto simp: initSignKey_def initSM2Key_def initRSAKey_def initECDSAKey_def no_keys_def
      sign_keys_ok_def split: if_splits option.splits std_key.splits)

lemma initEncKey_Inr:
  assumes "initEncKey k m = Inr m'"
  shows "\<exists>key. RawURLDecode k = Some key \<and> m' = m\<lparr>jm_encKey := key\<rparr> \<and>
    enc_key_bytes m = Some (length key)"
  using assms
  by (auto simp: initEncKey_def initEncKeyLen_def initAESKey_def enc_key_bytes_def
      SM4BlockSize_def split: if_splits option.splits)

lemma NewManager_ok:
  assumes "NewManager J mode sk ek a r opts = Inr m" "list_all package_option opts"
  shows "manager_ok J m"
proof -
  let ?m0 = "fold (\<lambda>opt m. opt m) opts (empty_manager mode a r)"
  have keep: "no_keys ?m0" "jm_mode ?m0 = mode"
    using options_keep [OF assms(2), of "empty_manager mode a r"]
    by (simp_all add: no_keys_def empty_manager_def)
  obtain m1 where m1: "initSignKey J sk ?m0 = Inr m1"
    "(if mode = ModeJWE then initEncKey ek m1 else Inr m1) = Inr m"
    using assms(1) by (auto simp: NewManager_def)
  note s = initSignKey_Inr [OF m1(1) keep(1)]
  show ?thesis
  proof (cases "mode = ModeJWE")
    case True
    then have "initEncKey ek m1 = Inr m" using m1(2) by simp
    then obtain key where "m = m1\<lparr>jm_encKey := key\<rparr>" "enc_key_bytes m1 = Some (length key)"
      using initEncKey_Inr by blast
    with s show ?thesis by (simp add: manager_ok_def)
  next
    case False
    with m1(2) s keep(2) show ?thesis by (simp add: manager_ok_def)
  qed
qed

text \<open>
  \<open>NewManager\<close> returns a manager only for a supported signature algorithm, with a private
  key of the algorithm's kind, and in JWE mode only with a key of exactly 16, 24 or 32 bytes as
  the content encryption wants; every other length, and every other encryption, is an error.
  The secret of an HMAC algorithm is not checked at all: the empty secret is accepted.
\<close>

theorem manager_key_bounds:
  assumes "list_all package_option opts"
  shows "(NewManager J mode sk ek a r opts = Inr m \<longrightarrow> manager_ok J m) \<and>
    (NewManager J ModeJWE sk ek a r opts = Inr m \<longrightarrow>
       length (jm_encKey m) = 16 \<or> length (jm_encKey m) = 24 \<or> length (jm_encKey m) = 32) \<and>
    is_ok (NewManager J ModeJWS '''' ek a r [])"
proof (intro conjI impI)
  show "manager_ok J m" if "NewManager J mode sk ek a r opts = Inr m"
    by (rule NewManager_ok [OF that assms])
  show "is_ok (NewManager J ModeJWS '''' ek a r [])"
    by (simp add: NewManager_def empty_manager_def initSignKey_def isSM2Algorithm_def
        isRSAAlgorithm_def isECDSAAlgorithm_def isHMACAlgorithm_def SGD_SM3_SM2_def EqualFold_def
        ModeJWE_def ModeJWS_def)
next
  assume m: "NewManager J ModeJWE sk ek a r opts = Inr m"
  obtain m1 where "initEncKey ek m1 = Inr m"
    using m by (auto simp: NewManager_def)
  then obtain key where "m = m1\<lparr>jm_encKey := key\<rparr>" "enc_key_bytes m1 = Some (length key)"
    using initEncKey_Inr by blast
  then show "length (jm_encKey m) = 16 \<or> length (jm_encKey m) = 24 \<or> length (jm_encKey m) = 32"
    by (auto simp: enc_key_bytes_def aes_key_length_def split: if_splits)
qed

definition demo_key43 :: string where
  "demo_key43 = replicate 43 (CHR ''A'')"

definition demo_key22 :: string where
  "demo_key22 = replicate 22 (CHR ''A'')"

text \<open>A closed instance: one claim set with one payload, and transparent primitives.\<close>

definition demo_jose :: "claims \<Rightarrow> claims \<Rightarrow> jose" where
  "demo_jose c0 c1 =
     \<lparr>jo_gm = toy_gmsm, jo_registry = DefaultRegistry toy_gmsm,
      jo_ParsePKCS8 = (\<lambda>b. Some (RSAKey b)), jo_LookupSig = (\<lambda>_. True), jo_LookupEnc = (\<lambda>_. True),
      jo_Sign = (\<lambda>alg k p e. (Some (''S..'' @ p), e)),
      jo_Verify = (\<lambda>alg k t. if take 3 t = ''S..'' then Some (drop 3 t) else None),
      jo_Encrypt = (\<lambda>key enc p e. (Some (CHR ''E'' # p), e)),
      jo_Decrypt = (\<lambda>key t. if take 1 t = ''E'' then Some (drop 1 t) else None),
      jo_Marshal = (\<lambda>c. if c = c0 then Some ''c0'' else if c = c1 then Some ''c1'' else None),
      jo_Unmarshal = (\<lambda>p. if p = ''c0'' then Some c0 else if p = ''c1'' then Some c1 else None)\<rparr>"

lemma demo_jose_laws: "jose_laws (demo_jose c0 c1)"
  by (simp add: jose_laws_def demo_jose_def toy_gmsm_laws)

definition demo_options :: "manager_option list" where
  "demo_options = [WithIssuer ''qg'', WithSignAlgorithm ''sm2'', WithContentEncryption ''SM4'']"

definition demo_claims :: "string \<Rightarrow> int \<Rightarrow> claims" where
  "demo_claims ty ex =
     \<lparr>cl_Issuer = ''qg'', cl_Subject = ''u1'', cl_Audience = [], cl_ExpiresAt = ex,
      cl_NotBefore = 1700000000, cl_IssuedAt = 1700000000,
      cl_JWTID = ''018bcfe5-6800-7707-8707-070707070707'', cl_UserID = ''u1'', cl_TenantID = ''t1'',
      cl_Roles = [''admin''], cl_TokenType = ty, cl_Extra = []\<rparr>"

definition demo_env :: jose where
  "demo_env = demo_jose (demo_claims ''access'' 1700000900) (demo_claims ''refresh'' 1700086400)"

theorem manager_key_bounds_witness:
  "\<exists>m. NewManager demo_env ModeJWE demo_key43 demo_key22 900 86400 demo_options = Inr m \<and>
     length (jm_encKey m) = 16"
proof -
  let ?r = "NewManager demo_env ModeJWE demo_key43 demo_key22 900 86400 demo_options"
  have opts: "list_all package_option demo_options"
    by (simp add: demo_options_def package_option.intros)
  have "case ?r of Inl _ \<Rightarrow> False | Inr m \<Rightarrow> length (jm_encKey m) \<noteq> 24 \<and> length (jm_encKey m) \<noteq> 32"
    by code_simp
  then obtain m where "?r = Inr m" "length (jm_encKey m) \<noteq> 24" "length (jm_encKey m) \<noteq> 32"
    by (cases ?r) simp_all
  with manager_key_bounds [OF opts, of demo_env ModeJWE demo_key43 demo_key22 900 86400 m]
  show ?thesis by blast
qed

subsection \<open>Issued tokens parse\<close>

lemma utf8_uuid: "length u = 16 \<Longrightarrow> valid_utf8 (FormatUUID u)"
proof -
  have hexc: "list_all (\<lambda>c. byte c < 128) (hexw ws)" for ws
  proof (induction ws)
    case (Cons w ws)
    have "unat w < 256" using unsigned_less [of w] by simp
    then have "unat w div 16 < 16" by simp
    moreover have "byte (hex_char d) < 128" if "d < 16" for d using that by (simp add: hex_char_def)
    ultimately show ?case using Cons by (simp add: hex_byte)
  qed (simp add: hexw_def byte_string_def hex_encode_def)
  show "length u = 16 \<Longrightarrow> valid_utf8 (FormatUUID u)"
    by (rule valid_utf8_ascii) (simp add: FormatUUID_def hexc)
qed

lemma NewUUIDString_utf8: "NewUUIDString ms e = (Returns (Some s), e') \<Longrightarrow> valid_utf8 s"
proof -
  assume "NewUUIDString ms e = (Returns (Some s), e')"
  then show ?thesis
    by (auto simp: NewUUIDString_def NewUUID_def rnd_then_def rnd_return_def Let_def
        dest!: rand_Read_length intro!: utf8_uuid split: prod.splits run.splits option.splits)
qed

text \<open>The pair of keys of a manager, and the two layers of a token.\<close>

lemma public_of_signingKey: "public_of (signingKey m) = verificationKey m"
  by (simp add: signingKey_def verificationKey_def split: option.splits std_key.splits)

lemma Split_jws:
  "Split (CHR ''.'') (RawURLEncode h @ ''.'' @ RawURLEncode p @ ''.'' @ RawURLEncode s) =
     [RawURLEncode h, RawURLEncode p, RawURLEncode s]"
proof -
  have "RawURLEncode h @ ''.'' @ RawURLEncode p @ ''.'' @ RawURLEncode s =
      RawURLEncode h @ CHR ''.'' # RawURLEncode p @ CHR ''.'' # RawURLEncode s" by simp
  then show ?thesis by (simp only: Split_append Split_no_sep dot_not_in_base64 simp_thms)
qed

lemma sign_then_verify:
  assumes laws: "jose_laws J" and ok: "manager_ok J m" and s: "jwt_sign J m p e = (Inr tok, e')"
  shows "parseAndVerify J m now tok = claims_of_payload J m now p"
proof (cases "isSM2Algorithm (jm_signAlgorithm m)")
  case True
  then obtain k where k: "jm_sm2Priv m = Some k" "jm_sm2Pub m = Some (gm_PublicKey (jo_gm J) k)"
    using ok by (auto simp: manager_ok_def sign_keys_ok_def)
  let ?h = "RawURLEncode (sm2_header [] ''JWT'')" and ?p = "RawURLEncode p"
  obtain sig where sig: "gm_Sign (jo_gm J) k (?h @ ''.'' @ ?p) e = (Inr sig, e')"
    "tok = ?h @ ''.'' @ ?p @ ''.'' @ RawURLEncode sig"
    using s True k(1)
    by (auto simp: jwt_sign_def Signer_Sign_def NewSigner_def SetTokenType_def jose_lawsD(2) [OF laws]
        default_registry sm2SignProvider_def sm2_signing_key_def tokenTypeOrDefault_def Let_def
        split: prod.splits sum.splits)
  have "gm_Verify (jo_gm J) (gm_PublicKey (jo_gm J) k) (?h @ ''.'' @ ?p) sig"
    using jose_lawsD(1) [OF laws] sig(1) unfolding gmsm_laws_def by blast
  then have "verifySM2JWS J m now tok = claims_of_payload J m now p"
    unfolding verifySM2JWS_def sig(2) Split_jws
    by (simp add: Let_def jose_lawsD(2) [OF laws] default_registry sm2VerifyProvider_def
        sm2_verification_key_def k(2))
  with True show ?thesis by (simp add: parseAndVerify_def)
next
  case False
  then have "jo_Sign J (resolveSignAlgorithm J m) (signingKey m) p e = (Some tok, e')"
    using s by (auto simp: jwt_sign_def split: prod.splits option.splits)
  then have "jo_Verify J (resolveSignAlgorithm J m) (verificationKey m) tok = Some p"
    using jose_lawsD(3) [OF laws] public_of_signingKey by metis
  with False show ?thesis by (simp add: parseAndVerify_def)
qed

lemma encrypt_then_parse:
  assumes laws: "jose_laws J" and ok: "manager_ok J m"
    and s: "signThenEncrypt J m p e = (Inr tok, e')"
  shows "decryptThenParse J m now tok = claims_of_payload J m now p"
proof -
  obtain inner e1 where i: "jwt_sign J m p e = (Inr inner, e1)"
    using s by (auto simp: signThenEncrypt_def split: prod.splits sum.splits)
  note parsed = sign_then_verify [OF laws ok i, of now]
  show ?thesis
  proof (cases "isSM4Encryption (jm_contentEncryption m)")
    case True
    then have enc: "EncryptJWE (jo_gm J) (DefaultRegistry (jo_gm J)) inner (jm_encKey m) e1 = (Inr tok, e')"
      using s i by (auto simp: signThenEncrypt_def jose_lawsD(2) [OF laws] split: prod.splits sum.splits)
    have "DecryptJWE (jo_gm J) (DefaultRegistry (jo_gm J)) tok (jm_encKey m) = Inr inner"
      by (rule EncryptJWE_Inr [OF jose_lawsD(1) [OF laws] enc])
        (simp add: DecryptJWE_compact [OF jose_lawsD(1) [OF laws]])
    with True parsed show ?thesis by (simp add: decryptThenParse_def jose_lawsD(2) [OF laws])
  next
    case False
    then have "jo_Encrypt J (jm_encKey m) (resolveContentEncryption J m) inner e1 = (Some tok, e')"
      using s i by (auto simp: signThenEncrypt_def split: prod.splits option.splits)
    with False parsed jose_lawsD(4) [OF laws] show ?thesis by (simp add: decryptThenParse_def)
  qed
qed

lemma generateToken_parses:
  assumes laws: "jose_laws J" and ok: "manager_ok J m"
    and utf8: "list_all valid_utf8 (jm_issuer m # jm_audience m # u # t # roles)" "valid_utf8 ty"
    and g: "generateToken J m now u t roles ty d e = (Inr tok, e')"
    and later: "now \<le> later"
  shows "\<exists>jti. ParseToken J m later tok =
    (if unix_seconds later > unix_seconds (now + d) then Inl ErrExpiredToken
     else Inr (issued_claims m now jti u t roles ty d))"
proof -
  obtain jti e1 p where jti: "NewUUIDString (now div 1000000) e = (Returns (Some jti), e1)"
    and p: "jo_Marshal J (issued_claims m now jti u t roles ty d) = Some p"
    and tok: "(if jm_mode m = ModeJWE then signThenEncrypt J m p e1 else jwt_sign J m p e1) = (Inr tok, e')"
    using g by (auto simp: generateToken_def split: prod.splits run.splits option.splits)
  let ?c = "issued_claims m now jti u t roles ty d"
  have "claims_utf8 ?c"
    using utf8 NewUUIDString_utf8 [OF jti] by (simp add: claims_utf8_def issued_claims_def)
  then have un: "jo_Unmarshal J p = Some ?c" by (rule jose_lawsD(5) [OF laws _ p])
  have "ParseToken J m later tok = claims_of_payload J m later p"
    using tok sign_then_verify [OF laws ok] encrypt_then_parse [OF laws ok]
    by (simp add: ParseToken_def split: if_splits)
  moreover have "unix_seconds now \<le> unix_seconds later"
    unfolding unix_seconds_def by (rule zdiv_mono1 [OF later]) simp
  ultimately have "ParseToken J m later tok =
    (if unix_seconds later > unix_seconds (now + d) then Inl ErrExpiredToken else Inr ?c)"
    by (simp add: claims_of_payload_def un validateClaims_def isValid_def issued_claims_def Let_def)
  then show ?thesis by blast
qed

text \<open>
  C7. Every token a manager issues, in either mode and with any supported algorithm, parses
  with the same manager to the claims it was issued with, until the second of its expiry has
  passed, and is rejected as expired from then on. This holds for refresh tokens as for access
  tokens: nothing in the parser looks at the token type, so a refresh token is accepted
  wherever an access token is, for the refresh token's longer life.
\<close>

theorem issued_tokens_parse:
  assumes "jose_laws J" "NewManager J mode sk ek a r opts = Inr m" "list_all package_option opts"
    and "list_all valid_utf8 (jm_issuer m # jm_audience m # u # t # roles)"
    and "GenerateAccessToken J m now u t roles e = (Inr acc, e1)"
    and "GenerateRefreshToken J m now u t roles e1 = (Inr ref, e2)"
    and "now \<le> later"
  shows "\<exists>j1 j2.
    ParseToken J m later acc =
      (if unix_seconds later > unix_seconds (now + jm_accessExpiry m) then Inl ErrExpiredToken
       else Inr (issued_claims m now j1 u t roles ''access'' (jm_accessExpiry m))) \<and>
    ParseToken J m later ref =
      (if unix_seconds later > unix_seconds (now + jm_refreshExpiry m) then Inl ErrExpiredToken
       else Inr (issued_claims m now j2 u t roles ''refresh'' (jm_refreshExpiry m)))"
proof -
  note ok = NewManager_ok [OF assms(2,3)]
  have ty: "valid_utf8 ''access''" "valid_utf8 ''refresh''"
    by (rule valid_utf8_ascii, code_simp)+
  show ?thesis
    using generateToken_parses [OF assms(1) ok assms(4) ty(1)
        assms(5) [unfolded GenerateAccessToken_def] assms(7)]
      generateToken_parses [OF assms(1) ok assms(4) ty(2)
        assms(6) [unfolded GenerateRefreshToken_def] assms(7)]
    by blast
qed

theorem issued_tokens_parse_witness:
  "\<exists>m acc ref e1 e2.
     NewManager demo_env ModeJWE ''secret'' demo_key43 900000000000 86400000000000 [WithIssuer ''qg''] = Inr m \<and>
     GenerateAccessToken demo_env m 1700000000000000000 ''u1'' ''t1'' [''admin''] (\<lambda>n. Some 7) = (Inr acc, e1) \<and>
     GenerateRefreshToken demo_env m 1700000000000000000 ''u1'' ''t1'' [''admin''] e1 = (Inr ref, e2) \<and>
     ParseToken demo_env m 1700000901000000000 acc = Inl ErrExpiredToken \<and>
     (\<exists>c. ParseToken demo_env m 1700000901000000000 ref = Inr c \<and> cl_UserID c = ''u1'')"
proof -
  let ?new = "NewManager demo_env ModeJWE ''secret'' demo_key43 900000000000 86400000000000 [WithIssuer ''qg'']"
  let ?now = "1700000000000000000 :: int"
  have opts: "list_all package_option [WithIssuer ''qg'']" by (simp add: package_option.intros)
  have "case ?new of Inl _ \<Rightarrow> False | Inr m \<Rightarrow>
      list_all (\<lambda>c. byte c < 128) (jm_issuer m @ jm_audience m) \<and>
      jm_accessExpiry m = 900000000000 \<and> jm_refreshExpiry m = 86400000000000 \<and>
      is_ok (fst (GenerateAccessToken demo_env m ?now ''u1'' ''t1'' [''admin''] (\<lambda>n. Some 7))) \<and>
      is_ok (fst (GenerateRefreshToken demo_env m ?now ''u1'' ''t1'' [''admin'']
        (snd (GenerateAccessToken demo_env m ?now ''u1'' ''t1'' [''admin''] (\<lambda>n. Some 7)))))"
    by code_simp
  then obtain m where m: "?new = Inr m" "list_all (\<lambda>c. byte c < 128) (jm_issuer m @ jm_audience m)"
    "jm_accessExpiry m = 900000000000" "jm_refreshExpiry m = 86400000000000"
    "is_ok (fst (GenerateAccessToken demo_env m ?now ''u1'' ''t1'' [''admin''] (\<lambda>n. Some 7)))"
    "is_ok (fst (GenerateRefreshToken demo_env m ?now ''u1'' ''t1'' [''admin'']
       (snd (GenerateAccessToken demo_env m ?now ''u1'' ''t1'' [''admin''] (\<lambda>n. Some 7)))))"
    by (cases ?new) simp_all
  obtain acc e1 where acc: "GenerateAccessToken demo_env m ?now ''u1'' ''t1'' [''admin''] (\<lambda>n. Some 7) = (Inr acc, e1)"
    using m(5) by (cases "GenerateAccessToken demo_env m ?now ''u1'' ''t1'' [''admin''] (\<lambda>n. Some 7)")
      (auto simp: is_ok_iff)
  obtain ref e2 where ref: "GenerateRefreshToken demo_env m ?now ''u1'' ''t1'' [''admin''] e1 = (Inr ref, e2)"
    using m(6) acc by (cases "GenerateRefreshToken demo_env m ?now ''u1'' ''t1'' [''admin''] e1")
      (auto simp: is_ok_iff)
  have utf8: "list_all valid_utf8 (jm_issuer m # jm_audience m # ''u1'' # ''t1'' # [''admin''])"
    using m(2) by (simp add: valid_utf8_ascii del: valid_utf8.simps)
  have laws: "jose_laws demo_env" by (simp add: demo_env_def demo_jose_laws)
  have "?now \<le> 1700000901000000000" by simp
  from issued_tokens_parse [OF laws m(1) opts utf8 acc ref this] m acc ref show ?thesis
    by (auto simp: unix_seconds_def issued_claims_def)
qed

subsection \<open>What an accepted token shows\<close>

text \<open>The payload of a token whose signature verifies with the manager's key.\<close>

definition signed_payload :: "jose \<Rightarrow> jwt_manager \<Rightarrow> string \<Rightarrow> bytes \<Rightarrow> bool" where
  "signed_payload J m tok payload \<longleftrightarrow>
     (if isSM2Algorithm (jm_signAlgorithm m)
      then \<exists>h p s sig v. Split (CHR ''.'') tok = [h, p, s] \<and> RawURLDecode s = Some sig \<and>
        RawURLDecode p = Some payload \<and> GetVerifier (jo_registry J) SGD_SM3_SM2 = Some v \<and>
        vp_Verify v (h @ ''.'' @ p) sig (sm2_verification_key m) = None
      else jo_Verify J (resolveSignAlgorithm J m) (verificationKey m) tok = Some payload)"

lemma claims_of_payload_Inr:
  "claims_of_payload J m now p = Inr c \<longleftrightarrow> jo_Unmarshal J p = Some c \<and> validateClaims m now c = None"
  by (auto simp: claims_of_payload_def split: option.splits)

lemma parseAndVerify_Inr:
  "parseAndVerify J m now tok = Inr c \<longleftrightarrow>
     (\<exists>p. signed_payload J m tok p \<and> jo_Unmarshal J p = Some c \<and> validateClaims m now c = None)"
proof (cases "isSM2Algorithm (jm_signAlgorithm m)")
  case True
  have three: "length xs = 3 \<longleftrightarrow> (\<exists>a b c. xs = [a, b, c])" for xs :: "string list"
    by (auto simp: numeral_3_eq_3 length_Suc_conv)
  show ?thesis
    using True
    by (auto simp: parseAndVerify_def verifySM2JWS_def signed_payload_def claims_of_payload_Inr
        three Let_def split: if_splits option.splits)
next
  case False
  then show ?thesis
    by (auto simp: parseAndVerify_def signed_payload_def claims_of_payload_Inr split: option.splits)
qed

text \<open>
  C8. Whenever \<open>ParseToken\<close> returns claims, in either mode, the clock is between their
  not-before time (when it is positive) and their expiry, the issuer and the audience are the
  manager's where it has one, and they are the content of a payload whose signature verifies
  with the manager's key, of the token or of the text its decryption gave.
\<close>

theorem parsed_claims_are_signed_and_current:
  assumes "ParseToken J m now tok = Inr c"
  shows "unix_seconds now \<le> cl_ExpiresAt c \<and>
    (cl_NotBefore c \<le> 0 \<or> cl_NotBefore c \<le> unix_seconds now) \<and>
    (jm_issuer m = [] \<or> cl_Issuer c = jm_issuer m) \<and>
    (jm_audience m = [] \<or> cl_Audience c = jm_audience m) \<and>
    (\<exists>inner p. signed_payload J m inner p \<and> jo_Unmarshal J p = Some c \<and>
       (inner = tok \<or> jm_mode m = ModeJWE))"
proof -
  obtain inner where "parseAndVerify J m now inner = Inr c" "inner = tok \<or> jm_mode m = ModeJWE"
    using assms
    by (auto simp: ParseToken_def decryptThenParse_def split: if_splits option.splits sum.splits)
  then obtain p where "signed_payload J m inner p" "jo_Unmarshal J p = Some c"
    "validateClaims m now c = None" "inner = tok \<or> jm_mode m = ModeJWE"
    unfolding parseAndVerify_Inr by blast
  moreover from this(3) have "unix_seconds now \<le> cl_ExpiresAt c"
    "cl_NotBefore c \<le> 0 \<or> cl_NotBefore c \<le> unix_seconds now"
    "jm_issuer m = [] \<or> cl_Issuer c = jm_issuer m"
    "jm_audience m = [] \<or> cl_Audience c = jm_audience m"
    by (auto simp: validateClaims_def isValid_def Let_def split: if_splits)
  ultimately show ?thesis by blast
qed

text \<open>
  C27. A manager in JWE mode with SM4 encryption accepts a token that was never encrypted: a
  plain three-part JWS of its signing key, as a manager in JWS mode with the same keys issues
  it, parses to the same claims, because the decryption hands three-part texts through.
\<close>

theorem jwe_mode_accepts_plain_jws:
  assumes "isSM4Encryption (jm_contentEncryption m)" "jm_mode m = ModeJWE"
    and "length (Split (CHR ''.'') tok) = 3"
  shows "ParseToken J m now tok = ParseToken J (m\<lparr>jm_mode := ModeJWS\<rparr>) now tok"
proof -
  have "DecryptJWE (jo_gm J) (jo_registry J) tok (jm_encKey m) = Inr tok"
    using assms(3) by (simp add: DecryptJWE_def Let_def)
  moreover have "parseAndVerify J (m\<lparr>jm_mode := x\<rparr>) now tok = parseAndVerify J m now tok" for x
  proof -
    have v: "validateClaims (m\<lparr>jm_mode := x\<rparr>) = validateClaims m"
      by (simp add: validateClaims_def fun_eq_iff)
    have c: "claims_of_payload J (m\<lparr>jm_mode := x\<rparr>) = claims_of_payload J m"
      unfolding fun_eq_iff claims_of_payload_def v by simp
    have keys: "sm2_verification_key (m\<lparr>jm_mode := x\<rparr>) = sm2_verification_key m"
      "verificationKey (m\<lparr>jm_mode := x\<rparr>) = verificationKey m"
      "resolveSignAlgorithm J (m\<lparr>jm_mode := x\<rparr>) = resolveSignAlgorithm J m"
      by (simp_all add: sm2_verification_key_def verificationKey_def resolveSignAlgorithm_def
          split: option.split)
    show ?thesis unfolding parseAndVerify_def verifySM2JWS_def c keys by simp
  qed
  ultimately show ?thesis
    using assms(1,2) by (simp add: ParseToken_def decryptThenParse_def ModeJWE_def ModeJWS_def)
qed

theorem parsed_claims_are_signed_and_current_witness:
  "case NewManager demo_env ModeJWS ''secret'' '''' 900000000000 86400000000000 [] of
     Inl _ \<Rightarrow> False
   | Inr m \<Rightarrow> (\<exists>c p. ParseToken demo_env m 1700000000000000000 ''S..c0'' = Inr c \<and>
       signed_payload demo_env m ''S..c0'' p \<and> unix_seconds 1700000000000000000 \<le> cl_ExpiresAt c)"
proof -
  let ?new = "NewManager demo_env ModeJWS ''secret'' '''' 900000000000 86400000000000 []"
  have "case ?new of Inl _ \<Rightarrow> False | Inr m \<Rightarrow>
      jm_mode m \<noteq> ModeJWE \<and> is_ok (ParseToken demo_env m 1700000000000000000 ''S..c0'')"
    by code_simp
  then obtain m c where m: "?new = Inr m" "jm_mode m \<noteq> ModeJWE"
    "ParseToken demo_env m 1700000000000000000 ''S..c0'' = Inr c"
    by (auto simp: is_ok_iff split: sum.splits)
  from parsed_claims_are_signed_and_current [OF m(3)] m(2)
  obtain p where "signed_payload demo_env m ''S..c0'' p"
    "unix_seconds 1700000000000000000 \<le> cl_ExpiresAt c" by blast
  with m(1,3) show ?thesis by auto
qed

theorem jwe_mode_accepts_plain_jws_witness:
  "case NewManager demo_env ModeJWE ''secret'' demo_key22 900000000000 86400000000000
      [WithIssuer ''qg'', WithContentEncryption ''SM4''] of
     Inl _ \<Rightarrow> False
   | Inr m \<Rightarrow>
       (case GenerateAccessToken demo_env (m\<lparr>jm_mode := ModeJWS\<rparr>) 1700000000000000000 ''u1'' ''t1''
               [''admin''] (\<lambda>n. Some 7) of
          (Inl _, _) \<Rightarrow> False
        | (Inr tok, _) \<Rightarrow> is_ok (ParseToken demo_env m 1700000000000000000 tok))"
proof -
  let ?new = "NewManager demo_env ModeJWE ''secret'' demo_key22 900000000000 86400000000000
      [WithIssuer ''qg'', WithContentEncryption ''SM4'']"
  let ?gen = "\<lambda>m. GenerateAccessToken demo_env (m\<lparr>jm_mode := ModeJWS\<rparr>) 1700000000000000000 ''u1'' ''t1''
    [''admin''] (\<lambda>n. Some 7)"
  have "case ?new of Inl _ \<Rightarrow> False | Inr m \<Rightarrow>
      isSM4Encryption (jm_contentEncryption m) \<and> jm_mode m = ModeJWE \<and>
      (case fst (?gen m) of Inl _ \<Rightarrow> False | Inr tok \<Rightarrow>
         length (Split (CHR ''.'') tok) = 3 \<and>
         is_ok (ParseToken demo_env (m\<lparr>jm_mode := ModeJWS\<rparr>) 1700000000000000000 tok))"
    by code_simp
  then obtain m tok where m: "?new = Inr m" "isSM4Encryption (jm_contentEncryption m)"
    "jm_mode m = ModeJWE" "fst (?gen m) = Inr tok" "length (Split (CHR ''.'') tok) = 3"
    "is_ok (ParseToken demo_env (m\<lparr>jm_mode := ModeJWS\<rparr>) 1700000000000000000 tok)"
    by (auto split: sum.splits)
  obtain e where gen: "?gen m = (Inr tok, e)" using m(4) by (cases "?gen m") simp
  have "is_ok (ParseToken demo_env m 1700000000000000000 tok)"
    using jwe_mode_accepts_plain_jws [OF m(2,3,5), of demo_env 1700000000000000000] m(6) by simp
  with m(1) gen show ?thesis by simp
qed

end
