(* ===== verification/TenantTable.thy ===== *)
theory TenantTable
  imports Tenant GormTable
begin

text \<open>
  A repository's statements on a tenant-aware table: the statement gorm builds, as far as the
  tenant callbacks see it, and the condition on the tenant of a row that they leave, or their errors.
\<close>

definition create_statement :: "go_ctx \<Rightarrow> string \<Rightarrow> statement" where
  "create_statement ctx tenant =
     \<lparr>st_ctx = Some ctx, st_model_aware = True, st_dest = DPtr (DStruct True [(tenant_column, tenant)]),
      st_schema = Some [tenant_column], st_fields = [], st_selected = [], st_where = [], st_set = [], st_on_conflict = None,
      st_errors = []\<rparr>"

definition dest_tenant :: "statement \<Rightarrow> string" where
  "dest_tenant tx = (case st_dest tx of
       DPtr (DStruct _ r) \<Rightarrow> (case map_of r tenant_column of Some t \<Rightarrow> t | None \<Rightarrow> [])
     | _ \<Rightarrow> [])"

definition query_statement :: "go_ctx \<Rightarrow> statement" where
  "query_statement ctx =
     \<lparr>st_ctx = Some ctx, st_model_aware = True, st_dest = DPtr (DSlice True []),
      st_schema = Some [tenant_column], st_fields = [], st_selected = [], st_where = [], st_set = [], st_on_conflict = None,
      st_errors = []\<rparr>"

text \<open>An update of one row by a struct value that carries the tenant \<open>tenant\<close>.\<close>

definition update_statement :: "go_ctx \<Rightarrow> string \<Rightarrow> statement" where
  "update_statement ctx tenant =
     \<lparr>st_ctx = Some ctx, st_model_aware = True, st_dest = DPtr (DStruct True [(tenant_column, tenant)]),
      st_schema = Some [tenant_column], st_fields = [], st_selected = [], st_where = [], st_set = [], st_on_conflict = None,
      st_errors = []\<rparr>"

definition tenant_cond :: "bool \<Rightarrow> operation \<Rightarrow> statement \<Rightarrow> tenant_error list + (string \<Rightarrow> bool)" where
  "tenant_cond callbacks op tx =
     (if \<not> callbacks then Inr (\<lambda>_. True)
      else let tx = RegisterCallback op tx
           in if st_errors tx \<noteq> [] then Inl (st_errors tx)
              else Inr (\<lambda>t. row_matches (st_where tx) [(tenant_column, t)]))"

definition ctx_cond :: "go_ctx \<Rightarrow> tenant_error list + (string \<Rightarrow> bool)" where
  "ctx_cond ctx =
     (if FromContext ctx \<noteq> [] then Inr (\<lambda>t. t = FromContext ctx)
      else if IsBypassed ctx then Inr (\<lambda>_. True) else Inl [ErrTenantRequired])"

lemma tenant_cond_off [simp]: "tenant_cond False op tx = Inr (\<lambda>_. True)"
  by (simp add: tenant_cond_def)

lemma filtered_statement:
  "st_errors (applyTenantFilter ctx tx) =
     st_errors tx @ (if FromContext ctx = [] \<and> \<not> IsBypassed ctx then [ErrTenantRequired] else [])"
  "st_where (applyTenantFilter ctx tx) =
     st_where tx @ (if FromContext ctx = [] then [] else [(JoinAnd, col_eq tenant_column (FromContext ctx))])"
  by (simp_all add: applyTenantFilter_def AddError_def Let_def)

lemma filter_cond:
  assumes "st_errors tx = []" "st_where tx = []"
  shows "(if st_errors (applyTenantFilter ctx tx) \<noteq> [] then Inl (st_errors (applyTenantFilter ctx tx))
     else Inr (\<lambda>t. row_matches (st_where (applyTenantFilter ctx tx)) [(tenant_column, t)])) = ctx_cond ctx"
  by (simp add: filtered_statement assms ctx_cond_def col_eq_def)

lemma tenant_cond_query:
  assumes "op \<in> {OpQuery, OpDelete}"
  shows "tenant_cond True op (query_statement ctx) = ctx_cond ctx"
proof -
  have "RegisterCallback op (query_statement ctx) = applyTenantFilter ctx (query_statement ctx)"
    using assms by (auto simp: query_callback_def delete_callback_def scoped_def isTenantAwareType_def
        query_statement_def)
  moreover have "st_errors (query_statement ctx) = []" "st_where (query_statement ctx) = []"
    by (simp_all add: query_statement_def)
  ultimately show ?thesis
    using filter_cond [of "query_statement ctx" ctx] by (simp only: tenant_cond_def Let_def not_True_eq_False if_False)
qed

text \<open>A struct that carries a tenant is taken for a change of the tenant.\<close>

lemma tenant_cond_update:
  "tenant_cond True OpUpdate (update_statement ctx tenant) =
     (if tenant \<noteq> [] then Inl [ErrTenantIDImmutable] else ctx_cond ctx)"
proof -
  let ?u = "update_statement ctx tenant"
  have d: "dest_sets_tenant ?u \<longleftrightarrow> tenant \<noteq> []"
    by (simp add: dest_sets_tenant_def update_statement_def struct_sets_tenant_def has_tenant_column_def)
  have u: "st_ctx ?u = Some ctx" "isTenantAwareType ?u" "st_set ?u = []" "st_errors ?u = []"
    by (simp_all add: update_statement_def isTenantAwareType_def)
  have r: "RegisterCallback OpUpdate ?u =
      (if tenant \<noteq> [] then AddError ErrTenantIDImmutable ?u else applyTenantFilter ctx ?u)"
  proof (cases "tenant = []")
    case True
    then show ?thesis using d u by (simp add: update_callback_def scoped_def detectTenantIDMutation_def)
  next
    case False
    then show ?thesis
      using d u by (simp add: update_callback_def scoped_def detectTenantIDMutation_def AddError_def)
  qed
  have e: "st_errors ?u = []" "st_where ?u = []" by (simp_all add: update_statement_def)
  show ?thesis
  proof (cases "tenant = []")
    case True
    then show ?thesis
      unfolding tenant_cond_def Let_def r using filter_cond [OF e, of ctx]
      by (simp only: not_True_eq_False if_False simp_thms)
  next
    case False
    then show ?thesis unfolding tenant_cond_def Let_def r by (simp add: AddError_def e)
  qed
qed

end
