(* ===== verification/GoTime.thy ===== *)
theory GoTime
  imports GoStrings
begin

text \<open>
  Go's \<^verbatim>\<open>time.Time\<close> as the sources print and compare it: Unix seconds, nanoseconds within the
  second, and the offset of its location in seconds east of UTC. \<open>RFC3339\<close> is
  \<^verbatim>\<open>Format(time.RFC3339)\<close>: the wall clock of the location, with its offset, without the
  fraction of the second. Days are converted to the proleptic Gregorian calendar.
\<close>

record go_time =
  gt_unix :: int
  gt_nanos :: int
  gt_offset :: int

definition instant :: "go_time \<Rightarrow> int" where
  "instant t = gt_unix t * 1000000000 + gt_nanos t"

definition zero_time :: go_time where
  "zero_time = \<lparr>gt_unix = -62135596800, gt_nanos = 0, gt_offset = 0\<rparr>"

definition IsZero :: "go_time \<Rightarrow> bool" where
  "IsZero t \<longleftrightarrow> gt_unix t = -62135596800 \<and> gt_nanos t = 0"

text \<open>Year, month and day of a number of days since 1970-01-01 (eras of 400 years from March).\<close>

definition civil_date :: "int \<Rightarrow> int \<times> int \<times> int" where
  "civil_date days =
     (let z = days + 719468;
          era = z div 146097;
          doe = z mod 146097;
          yoe = (doe - doe div 1460 + doe div 36524 - doe div 146096) div 365;
          doy = doe - (365 * yoe + yoe div 4 - yoe div 100);
          mp = (5 * doy + 2) div 153;
          day = doy - (153 * mp + 2) div 5 + 1;
          month = (if mp < 10 then mp + 3 else mp - 9);
          year = yoe + era * 400 + (if month \<le> 2 then 1 else 0)
      in (year, month, day))"

definition pad :: "nat \<Rightarrow> int \<Rightarrow> string" where
  "pad w i =
     (let ds = nat_digits (nat \<bar>i\<bar>)
      in (if i < 0 then ''-'' else '''') @ replicate (w - length ds) (CHR ''0'') @ ds)"

definition zone_text :: "int \<Rightarrow> string" where
  "zone_text offset =
     (if offset = 0 then ''Z''
      else let zone = go_div offset 60
           in (if zone < 0 then ''-'' else ''+'') @ pad 2 (\<bar>zone\<bar> div 60) @ '':'' @ pad 2 (\<bar>zone\<bar> mod 60))"

definition RFC3339 :: "go_time \<Rightarrow> string" where
  "RFC3339 t =
     (let wall = gt_unix t + gt_offset t;
          sod = wall mod 86400
      in (case civil_date (wall div 86400) of (y, m, d) \<Rightarrow>
            pad 4 y @ ''-'' @ pad 2 m @ ''-'' @ pad 2 d @ ''T'' @ pad 2 (sod div 3600) @ '':'' @
            pad 2 (sod div 60 mod 60) @ '':'' @ pad 2 (sod mod 60) @ zone_text (gt_offset t)))"

definition time_at :: "int \<Rightarrow> int \<Rightarrow> go_time" where
  "time_at unix offset = \<lparr>gt_unix = unix, gt_nanos = 0, gt_offset = offset\<rparr>"

text \<open>Known dates: the zero time, and one instant in two locations.\<close>

lemma RFC3339_examples:
  "RFC3339 zero_time = ''0001-01-01T00:00:00Z''"
  "RFC3339 (time_at 1700000000 0) = ''2023-11-14T22:13:20Z''"
  "RFC3339 (time_at 1700000000 28800) = ''2023-11-15T06:13:20+08:00''"
  by code_simp+

lemma pad_no_bar: "CHR ''|'' \<notin> set (pad w i)"
proof -
  have "CHR ''|'' \<notin> set (nat_digits n)" for n
    using nat_digits_all_digits [of "CHR ''|''" n] by (auto simp: is_digit_def)
  then show ?thesis by (auto simp: pad_def Let_def)
qed

lemma RFC3339_no_bar: "CHR ''|'' \<notin> set (RFC3339 t)"
  by (simp add: RFC3339_def zone_text_def pad_no_bar Let_def split: prod.split)

text \<open>\<^verbatim>\<open>Format(time.RFC1123Z)\<close>: the day of the week (1970-01-01 was a Thursday), the wall clock, the
  offset.\<close>

definition weekdays :: "string list" where
  "weekdays = [''Sun'', ''Mon'', ''Tue'', ''Wed'', ''Thu'', ''Fri'', ''Sat'']"

definition months :: "string list" where
  "months = [''Jan'', ''Feb'', ''Mar'', ''Apr'', ''May'', ''Jun'', ''Jul'', ''Aug'', ''Sep'', ''Oct'', ''Nov'', ''Dec'']"

definition RFC1123Z :: "go_time \<Rightarrow> string" where
  "RFC1123Z t =
     (let wall = gt_unix t + gt_offset t;
          days = wall div 86400;
          sod = wall mod 86400;
          zone = go_div (gt_offset t) 60
      in (case civil_date days of (y, m, d) \<Rightarrow>
            weekdays ! nat ((days + 4) mod 7) @ '', '' @ pad 2 d @ '' '' @ months ! nat (m - 1) @ '' '' @
            pad 4 y @ '' '' @ pad 2 (sod div 3600) @ '':'' @ pad 2 (sod div 60 mod 60) @ '':'' @
            pad 2 (sod mod 60) @ '' '' @ (if zone < 0 then ''-'' else ''+'') @
            pad 2 (\<bar>zone\<bar> div 60) @ pad 2 (\<bar>zone\<bar> mod 60)))"

lemma RFC1123Z_examples:
  "RFC1123Z (time_at 1700000000 0) = ''Tue, 14 Nov 2023 22:13:20 +0000''"
  "RFC1123Z (time_at 1700000000 (- 16200)) = ''Tue, 14 Nov 2023 17:43:20 -0430''"
  by code_simp+

end
