(* ===== verification/AuditLog.thy ===== *)
theory AuditLog
  imports TenantTable GoRunes GoTime Events
begin

text \<open>
  \<^verbatim>\<open>core/internal/util/audit/audit.go\<close>, \<^verbatim>\<open>core/internal/repository/audit.go\<close> and
  \<^verbatim>\<open>core/internal/model/audit.go\<close>: audit entries, their sanitizing, their signatures, and their
  repository on a tenant-aware table. Parameters: the keyed hash, \<^verbatim>\<open>net.ParseIP\<close> as the test
  \<open>is_ip\<close>, the database (\<open>GormTable\<close>), and \<open>ad_reload\<close>, the time value the driver gives back for a
  stored one. The create and query callbacks of \<open>Tenant\<close> run when the handle has them.
\<close>

subsection \<open>Sanitizing\<close>

record audit_input =
  ai_Action :: string
  ai_ActorID :: string
  ai_TargetID :: string
  ai_TargetType :: string
  ai_Result :: string
  ai_Severity :: string
  ai_TenantID :: string
  ai_RequestID :: string
  ai_IP :: string
  ai_UserAgent :: string
  ai_Message :: string
  ai_Detail :: string
  ai_Before :: string
  ai_After :: string
  ai_Timestamp :: go_time

definition empty_input :: audit_input where
  "empty_input =
     \<lparr>ai_Action = [], ai_ActorID = [], ai_TargetID = [], ai_TargetType = [], ai_Result = [],
      ai_Severity = [], ai_TenantID = [], ai_RequestID = [], ai_IP = [], ai_UserAgent = [],
      ai_Message = [], ai_Detail = [], ai_Before = [], ai_After = [], ai_Timestamp = zero_time\<rparr>"

text \<open>\<^verbatim>\<open>if len(s) > n { s = s[:n] }\<close> cuts bytes, wherever a rune ends.\<close>

definition cut :: "nat \<Rightarrow> string \<Rightarrow> string" where
  "cut n s = (if length s > n then take n s else s)"

definition strip_newlines :: "string \<Rightarrow> string" where
  "strip_newlines s =
     map (\<lambda>c. if c = CHR 0x0D then CHR '' '' else c)
       (map (\<lambda>c. if c = CHR 0x0A then CHR '' '' else c) s)"

definition SignatureVersion :: string where
  "SignatureVersion = ''v2''"

definition sanitizeMessage :: "string \<Rightarrow> string" where
  "sanitizeMessage s = (if s = [] then [] else strip_newlines (cut 256 s))"

text \<open>The runes a filter lets through are ASCII; \<open>kept_runes\<close> writes them back as bytes.\<close>

definition rune_alnum :: "nat \<Rightarrow> bool" where
  "rune_alnum r \<longleftrightarrow> 97 \<le> r \<and> r \<le> 122 \<or> 65 \<le> r \<and> r \<le> 90 \<or> 48 \<le> r \<and> r \<le> 57"

definition kept_runes :: "(nat \<Rightarrow> bool) \<Rightarrow> string \<Rightarrow> string" where
  "kept_runes p s = map (\<lambda>r. char_of r) (filter p (runes s))"

definition action_rune :: "nat \<Rightarrow> bool" where
  "action_rune r \<longleftrightarrow> rune_alnum r \<or> r = 46 \<or> r = 95"

definition target_rune :: "nat \<Rightarrow> bool" where
  "target_rune r \<longleftrightarrow> rune_alnum r \<or> r = 46 \<or> r = 95 \<or> r = 45"

definition TrimSet :: "string \<Rightarrow> string \<Rightarrow> string" where
  "TrimSet cs s = rev (dropWhile (\<lambda>c. c \<in> set cs) (rev (dropWhile (\<lambda>c. c \<in> set cs) s)))"

definition sanitizeAction :: "string \<Rightarrow> string" where
  "sanitizeAction s =
     (if s = [] then ''unknown''
      else let result = kept_runes action_rune (cut 64 s);
               cleaned = TrimSet ''._'' result
           in if cleaned = [] then ''unknown'' else result)"

definition sanitizeID :: "string \<Rightarrow> string" where
  "sanitizeID s = (if s = [] then [] else cut 36 s)"

definition sanitizeTenantID :: "string \<Rightarrow> string" where
  "sanitizeTenantID s = (if s = [] then ''unknown'' else cut 36 s)"

definition sanitizeTargetType :: "string \<Rightarrow> string" where
  "sanitizeTargetType s =
     (if s = [] then ''unknown''
      else let result = kept_runes target_rune (cut 32 s)
           in if length result = 0 then ''unknown'' else result)"

definition sanitizeIP :: "(string \<Rightarrow> bool) \<Rightarrow> string \<Rightarrow> string" where
  "sanitizeIP is_ip ip =
     (if ip = [] then []
      else let ip = cut 45 ip in if \<not> is_ip ip then ''0.0.0.0'' else ip)"

definition sanitizeUserAgent :: "string \<Rightarrow> string" where
  "sanitizeUserAgent ua = (if ua = [] then [] else cut 512 (strip_newlines ua))"

definition sanitizeDetail :: "string \<Rightarrow> string" where
  "sanitizeDetail detail = strip_newlines detail"

definition sanitizeResult :: "string \<Rightarrow> string" where
  "sanitizeResult s = (if s \<in> set [''success'', ''failure'', ''denied''] then s else ''unknown'')"

definition sanitizeSeverity :: "string \<Rightarrow> string" where
  "sanitizeSeverity s = (if s \<in> set [''info'', ''warn'', ''error'', ''critical''] then s else ''info'')"

definition SanitizeAuditLog :: "(string \<Rightarrow> bool) \<Rightarrow> audit_input \<Rightarrow> audit_input" where
  "SanitizeAuditLog is_ip i =
     \<lparr>ai_Action = sanitizeAction (ai_Action i), ai_ActorID = sanitizeID (ai_ActorID i),
      ai_TargetID = sanitizeID (ai_TargetID i), ai_TargetType = sanitizeTargetType (ai_TargetType i),
      ai_Result = sanitizeResult (ai_Result i), ai_Severity = sanitizeSeverity (ai_Severity i),
      ai_TenantID = sanitizeTenantID (ai_TenantID i), ai_RequestID = sanitizeID (ai_RequestID i),
      ai_IP = sanitizeIP is_ip (ai_IP i), ai_UserAgent = sanitizeUserAgent (ai_UserAgent i),
      ai_Message = sanitizeMessage (ai_Message i), ai_Detail = sanitizeDetail (ai_Detail i),
      ai_Before = sanitizeDetail (ai_Before i), ai_After = sanitizeDetail (ai_After i),
      ai_Timestamp = zero_time\<rparr>"

subsection \<open>Signatures\<close>

type_synonym hmac_sha256 = "string \<Rightarrow> bytes \<Rightarrow> bytes"

text \<open>The branch for the zero time assigns the text it tests for.\<close>

definition canonical_text :: "audit_input \<Rightarrow> string" where
  "canonical_text i =
     Join ''|''
       [SignatureVersion, ai_Action i, ai_ActorID i, ai_TargetID i, ai_TargetType i, ai_Result i,
        ai_TenantID i, ai_RequestID i, ai_Message i, RFC3339 (ai_Timestamp i)]"

definition ComputeSignature :: "hmac_sha256 \<Rightarrow> audit_input \<Rightarrow> string \<Rightarrow> string" where
  "ComputeSignature hmac i secret = hex_encode (hmac secret (canonical_text i))"

definition VerifyAuditSignature :: "hmac_sha256 \<Rightarrow> audit_input \<Rightarrow> string \<Rightarrow> string \<Rightarrow> bool" where
  "VerifyAuditSignature hmac i secret signature \<longleftrightarrow> ComputeSignature hmac i secret = signature"

subsection \<open>Entries\<close>

record audit_log =
  al_ID :: string
  al_TenantID :: string
  al_RequestID :: string
  al_Action :: string
  al_ActorID :: string
  al_TargetID :: string
  al_TargetType :: string
  al_Result :: string
  al_Severity :: string
  al_Message :: string
  al_Detail :: string
  al_Before :: string
  al_After :: string
  al_IP :: string
  al_UserAgent :: string
  al_Signature :: string
  al_CreatedAt :: go_time

type_synonym entry_option = "audit_log \<Rightarrow> audit_log"

definition WithBeforeAfter :: "string \<Rightarrow> string \<Rightarrow> entry_option" where
  "WithBeforeAfter before after l = l\<lparr>al_Before := before, al_After := after\<rparr>"

definition signed_fields :: "audit_log \<Rightarrow> audit_input" where
  "signed_fields l = empty_input
     \<lparr>ai_Action := al_Action l, ai_ActorID := al_ActorID l, ai_TargetID := al_TargetID l,
      ai_TargetType := al_TargetType l, ai_Result := al_Result l, ai_TenantID := al_TenantID l,
      ai_RequestID := al_RequestID l, ai_Message := al_Message l, ai_Timestamp := al_CreatedAt l\<rparr>"

text \<open>
  \<open>i\<close> holds the arguments of \<open>NewEntry\<close>; \<open>now\<close> is the clock reading and \<open>entry_id\<close> the new UUID.
\<close>

definition NewEntry :: "hmac_sha256 \<Rightarrow> (string \<Rightarrow> bool) \<Rightarrow> string \<Rightarrow> string \<Rightarrow> go_time \<Rightarrow> audit_input \<Rightarrow>
    entry_option list \<Rightarrow> audit_log" where
  "NewEntry hmac is_ip signKey entry_id now i opts =
     (let s = SanitizeAuditLog is_ip i;
          signature = ComputeSignature hmac (empty_input
            \<lparr>ai_Action := ai_Action s, ai_ActorID := ai_ActorID s, ai_TargetID := ai_TargetID s,
             ai_TargetType := ai_TargetType s, ai_Result := ai_Result s, ai_TenantID := ai_TenantID s,
             ai_RequestID := ai_RequestID s, ai_Message := ai_Message s, ai_Timestamp := now\<rparr>) signKey;
          entry =
            \<lparr>al_ID = entry_id, al_TenantID = ai_TenantID s, al_RequestID = ai_RequestID s,
             al_Action = ai_Action s, al_ActorID = ai_ActorID s, al_TargetID = ai_TargetID s,
             al_TargetType = ai_TargetType s, al_Result = ai_Result s, al_Severity = ai_Severity s,
             al_Message = ai_Message s, al_Detail = ai_Detail s, al_Before = [], al_After = [],
             al_IP = ai_IP s, al_UserAgent = ai_UserAgent s, al_Signature = signature,
             al_CreatedAt = now\<rparr>;
          entry = fold (\<lambda>opt l. opt l) opts entry;
          entry = entry\<lparr>al_Before := ai_Before (SanitizeAuditLog is_ip (empty_input\<lparr>ai_Before := al_Before entry\<rparr>))\<rparr>
      in entry\<lparr>al_After := ai_After (SanitizeAuditLog is_ip (empty_input\<lparr>ai_After := al_After entry\<rparr>))\<rparr>)"

subsection \<open>The repository\<close>

text \<open>
  \<open>ad_tenant_callbacks\<close>: the handle has the callbacks of the tenant package.
\<close>

record 'd audit_db =
  ad_logs :: "('d, audit_log) table"
  ad_reload :: "go_time \<Rightarrow> go_time"
  ad_tenant_callbacks :: bool
  ad_migrate :: "'d \<Rightarrow> (string + unit) \<times> 'd"

record audit_repo =
  ar_hmac :: hmac_sha256
  ar_signKey :: string

definition NewAuditLogRepository :: "hmac_sha256 \<Rightarrow> string \<Rightarrow> audit_repo" where
  "NewAuditLogRepository hmac signKey = \<lparr>ar_hmac = hmac, ar_signKey = signKey\<rparr>"

definition Audit_AutoMigrate :: "'d audit_db \<Rightarrow> 'd \<Rightarrow> (string + unit) \<times> 'd" where
  "Audit_AutoMigrate D d = ad_migrate D d"

text \<open>
  What gorm does to a row before an insertion: the create callback of the tenant package on the
  struct behind the pointer, the automatic creation time and the column defaults.
\<close>

definition prepared :: "'d audit_db \<Rightarrow> go_ctx \<Rightarrow> go_time \<Rightarrow> audit_log \<Rightarrow> tenant_error list + audit_log" where
  "prepared D ctx now l =
     (let l = l\<lparr>al_CreatedAt := (if IsZero (al_CreatedAt l) then now else al_CreatedAt l),
                al_Result := (if al_Result l = [] then ''success'' else al_Result l),
                al_Severity := (if al_Severity l = [] then ''info'' else al_Severity l)\<rparr>
      in if \<not> ad_tenant_callbacks D then Inr l
         else let tx = RegisterCallback OpCreate (create_statement ctx (al_TenantID l))
              in if st_errors tx \<noteq> [] then Inl (st_errors tx)
                 else Inr (l\<lparr>al_TenantID := dest_tenant tx\<rparr>))"

datatype audit_error = TenantErrors "tenant_error list" | DBError string

definition Audit_Create :: "'d audit_db \<Rightarrow> go_ctx \<Rightarrow> go_time \<Rightarrow> audit_log \<Rightarrow> 'd \<Rightarrow>
    (audit_error + unit) \<times> 'd" where
  "Audit_Create D ctx now l d =
     (case prepared D ctx now l of
        Inl es \<Rightarrow> (Inl (TenantErrors es), d)
      | Inr l' \<Rightarrow>
          (case tb_insert (ad_logs D) [l'] d of
             (Inl e, d') \<Rightarrow> (Inl (DBError e), d')
           | (Inr _, d') \<Rightarrow> (Inr (), d')))"

fun prepare_all :: "'d audit_db \<Rightarrow> go_ctx \<Rightarrow> go_time \<Rightarrow> audit_log list \<Rightarrow>
    tenant_error list + audit_log list" where
  "prepare_all D ctx now [] = Inr []"
| "prepare_all D ctx now (l # ls) =
     and_then (prepared D ctx now l) (\<lambda>l'. and_then (prepare_all D ctx now ls) (\<lambda>ls'. Inr (l' # ls')))"

text \<open>\<^verbatim>\<open>CreateInBatches\<close> runs its batches in one transaction.\<close>

definition BatchCreate :: "'d audit_db \<Rightarrow> go_ctx \<Rightarrow> go_time \<Rightarrow> audit_log list \<Rightarrow> 'd \<Rightarrow>
    (audit_error + unit) \<times> 'd" where
  "BatchCreate D ctx now entries d =
     (if entries = [] then (Inr (), d)
      else case prepare_all D ctx now entries of
        Inl es \<Rightarrow> (Inl (TenantErrors es), d)
      | Inr rows \<Rightarrow>
          (case tb_insert (ad_logs D) rows d of
             (Inl e, d') \<Rightarrow> (Inl (DBError e), d')
           | (Inr _, d') \<Rightarrow> (Inr (), d')))"

record audit_filter =
  af_ActorID :: string
  af_Action :: string
  af_TargetType :: string
  af_TargetID :: string
  af_Result :: string
  af_Severity :: string
  af_StartTime :: "go_time option"
  af_EndTime :: "go_time option"

definition no_filter :: audit_filter where
  "no_filter = \<lparr>af_ActorID = [], af_Action = [], af_TargetType = [], af_TargetID = [], af_Result = [],
     af_Severity = [], af_StartTime = None, af_EndTime = None\<rparr>"

text \<open>The conjunction of the conditions the two queries build.\<close>

definition filter_condition :: "string \<Rightarrow> audit_filter \<Rightarrow> audit_log \<Rightarrow> bool" where
  "filter_condition tenantID f l \<longleftrightarrow> al_TenantID l = tenantID \<and>
     (if af_ActorID f \<noteq> [] then al_ActorID l = af_ActorID f else True) \<and>
     (if af_Action f \<noteq> [] then al_Action l = af_Action f else True) \<and>
     (if af_TargetType f \<noteq> [] then al_TargetType l = af_TargetType f else True) \<and>
     (if af_TargetID f \<noteq> [] then al_TargetID l = af_TargetID f else True) \<and>
     (if af_Result f \<noteq> [] then al_Result l = af_Result f else True) \<and>
     (if af_Severity f \<noteq> [] then al_Severity l = af_Severity f else True) \<and>
     (case af_StartTime f of None \<Rightarrow> True | Some t \<Rightarrow> instant t \<le> instant (al_CreatedAt l)) \<and>
     (case af_EndTime f of None \<Rightarrow> True | Some t \<Rightarrow> instant (al_CreatedAt l) \<le> instant t)"

text \<open>The condition the query callback adds on a tenant-aware destination, or its error.\<close>

definition query_scope :: "'d audit_db \<Rightarrow> go_ctx \<Rightarrow> tenant_error list + (audit_log \<Rightarrow> bool)" where
  "query_scope D ctx =
     (if \<not> ad_tenant_callbacks D then Inr (\<lambda>_. True)
      else let tx = RegisterCallback OpQuery (query_statement ctx)
           in if st_errors tx \<noteq> [] then Inl (st_errors tx)
              else Inr (\<lambda>l. row_matches (st_where tx) [(tenant_column, al_TenantID l)]))"

definition verifyLogSignature :: "audit_repo \<Rightarrow> audit_log \<Rightarrow> bool" where
  "verifyLogSignature r l \<longleftrightarrow>
     VerifyAuditSignature (ar_hmac r) (signed_fields l) (ar_signKey r) (al_Signature l)"

definition checked_log :: "audit_repo \<Rightarrow> audit_log \<Rightarrow> audit_log" where
  "checked_log r l = (if \<not> verifyLogSignature r l then l\<lparr>al_Result := ''unknown''\<rparr> else l)"

definition ListByFilter :: "'d audit_db \<Rightarrow> audit_repo \<Rightarrow> go_ctx \<Rightarrow> string \<Rightarrow> audit_filter \<Rightarrow> int \<Rightarrow> int \<Rightarrow>
    'd \<Rightarrow> audit_error + audit_log list" where
  "ListByFilter D r ctx tenantID f limit offset d =
     (case query_scope D ctx of
        Inl es \<Rightarrow> Inl (TenantErrors es)
      | Inr scope \<Rightarrow>
          (case tb_find (ad_logs D) (\<lambda>l. filter_condition tenantID f l \<and> scope l)
                  (Some (\<lambda>l. - instant (al_CreatedAt l))) (Some (limit, offset)) d of
             Inl e \<Rightarrow> Inl (DBError e)
           | Inr logs \<Rightarrow>
               Inr (map (\<lambda>l. checked_log r (l\<lparr>al_CreatedAt := ad_reload D (al_CreatedAt l)\<rparr>)) logs)))"

definition CountByFilter :: "'d audit_db \<Rightarrow> go_ctx \<Rightarrow> string \<Rightarrow> audit_filter \<Rightarrow> 'd \<Rightarrow> audit_error + int" where
  "CountByFilter D ctx tenantID f d =
     (case query_scope D ctx of
        Inl es \<Rightarrow> Inl (TenantErrors es)
      | Inr scope \<Rightarrow>
          (case tb_count (ad_logs D) (\<lambda>l. filter_condition tenantID f l \<and> scope l) d of
             Inl e \<Rightarrow> Inl (DBError e)
           | Inr n \<Rightarrow> Inr n))"

subsection \<open>Bounds of sanitized fields\<close>

lemma length_runes: "length (runes s) \<le> length s"
proof (induction s rule: runes.induct)
  case (2 c s)
  obtain r w where rw: "decode_rune (c # s) = (r, w)" by fastforce
  with "2.IH" [OF rw [symmetric]] show ?case by simp
qed simp

lemma length_cut [simp]: "length (cut n s) = min n (length s)"
  by (simp add: cut_def min_def)

lemma length_cut_le: "length (cut n s) \<le> n"
  by simp

lemma length_kept: "length (kept_runes p s) \<le> length s"
  using order_trans [OF length_filter_le [of p "runes s"] length_runes [of s]]
  by (simp add: kept_runes_def)

lemma kept_runes_set: "c \<in> set (kept_runes p s) \<Longrightarrow> \<exists>r. p r \<and> c = char_of r"
  by (auto simp: kept_runes_def)

definition one_line :: "string \<Rightarrow> bool" where
  "one_line s \<longleftrightarrow> CHR 0x0A \<notin> set s \<and> CHR 0x0D \<notin> set s"

lemma strip_newlines_one_line: "one_line (strip_newlines s)"
  by (auto simp: one_line_def strip_newlines_def)

lemma cut_one_line: "one_line s \<Longrightarrow> one_line (cut n s)"
  by (auto simp: one_line_def cut_def dest: in_set_takeD)

lemma length_strip_newlines [simp]: "length (strip_newlines s) = length s"
  by (simp add: strip_newlines_def)

definition action_char :: "char \<Rightarrow> bool" where
  "action_char c \<longleftrightarrow> is_lower_ascii c \<or> is_upper_ascii c \<or> is_digit c \<or> c \<in> set ''._''"

lemma dot_underscore: "char_of (46 :: nat) = CHR ''.''" "char_of (95 :: nat) = CHR ''_''"
  by code_simp+

lemma action_rune_char: "action_rune r \<Longrightarrow> action_char (char_of r)"
  by (auto simp: action_rune_def rune_alnum_def action_char_def is_lower_ascii_def is_upper_ascii_def
      is_digit_def dot_underscore)

lemma sanitizeAction_spec:
  "length (sanitizeAction s) \<le> 64 \<and> sanitizeAction s \<noteq> [] \<and> list_all action_char (sanitizeAction s)"
proof -
  have u: "length ''unknown'' \<le> 64 \<and> ''unknown'' \<noteq> [] \<and> list_all action_char ''unknown''"
    by (simp add: action_char_def is_lower_ascii_def)
  let ?k = "kept_runes action_rune (cut 64 s)"
  have len: "length ?k \<le> 64" by (rule order_trans [OF length_kept length_cut_le])
  have all: "list_all action_char ?k"
    using kept_runes_set action_rune_char by (fastforce simp: list_all_iff)
  have ne: "?k \<noteq> []" if "TrimSet ''._'' ?k \<noteq> []" using that by (auto simp: TrimSet_def)
  show ?thesis using u len all ne by (simp add: sanitizeAction_def Let_def)
qed

lemma target_rune_char: "target_rune r \<Longrightarrow> char_of r \<noteq> CHR 0x0A \<and> char_of r \<noteq> CHR 0x0D"
proof -
  assume t: "target_rune r"
  have n: "CHR 0x0A = char_of (10 :: nat)" "CHR 0x0D = char_of (13 :: nat)" by code_simp+
  from t have "r < 256" "r \<noteq> 10" "r \<noteq> 13" by (auto simp: target_rune_def rune_alnum_def)
  then show ?thesis unfolding n by (simp add: char_of_eq_iff take_bit_nat_eq_self)
qed

lemma sanitizeTargetType_one_line: "one_line (sanitizeTargetType s)"
  using kept_runes_set [of _ target_rune] target_rune_char
  by (fastforce simp: sanitizeTargetType_def Let_def one_line_def)

lemma length_sanitizeTargetType: "length (sanitizeTargetType s) \<le> 32 \<and> sanitizeTargetType s \<noteq> []"
proof -
  have "length (kept_runes target_rune (cut 32 s)) \<le> 32"
    by (rule order_trans [OF length_kept length_cut_le])
  then show ?thesis by (auto simp: sanitizeTargetType_def Let_def)
qed

text \<open>
  C30. Whatever it is given, sanitizing returns fields that fit their columns: an action of 1 to 64
  letters, digits, dots and underscores, ids of at most 36 bytes, a target type of 1 to 32, a
  result and a severity out of their lists, an empty or valid address of at most 45 bytes, a
  user agent of at most 512 and a message of at most 256 bytes. An invalid result becomes
  \<open>unknown\<close>. The action, target type, user agent, message, detail and snapshots keep no line
  break. The actor, target, request and tenant ids are only cut: they keep the line breaks they
  are given, against the comment of the function.
\<close>

theorem sanitized_fields_fit:
  "case SanitizeAuditLog is_ip i of s \<Rightarrow>
     length (ai_Action s) \<le> 64 \<and> ai_Action s \<noteq> [] \<and> list_all action_char (ai_Action s) \<and>
     length (ai_ActorID s) \<le> 36 \<and> length (ai_TargetID s) \<le> 36 \<and> length (ai_RequestID s) \<le> 36 \<and>
     length (ai_TenantID s) \<le> 36 \<and> ai_TenantID s \<noteq> [] \<and>
     length (ai_TargetType s) \<le> 32 \<and> ai_TargetType s \<noteq> [] \<and>
     ai_Result s \<in> set [''success'', ''failure'', ''denied'', ''unknown''] \<and>
     ai_Severity s \<in> set [''info'', ''warn'', ''error'', ''critical''] \<and>
     length (ai_IP s) \<le> 45 \<and> (ai_IP s = [] \<or> ai_IP s = ''0.0.0.0'' \<or> is_ip (ai_IP s)) \<and>
     length (ai_UserAgent s) \<le> 512 \<and> length (ai_Message s) \<le> 256 \<and>
     one_line (ai_Action s) \<and> one_line (ai_TargetType s) \<and>
     one_line (ai_UserAgent s) \<and> one_line (ai_Message s) \<and> one_line (ai_Detail s) \<and>
     one_line (ai_Before s) \<and> one_line (ai_After s) \<and>
     ai_ActorID s = take 36 (ai_ActorID i) \<and> ai_TargetID s = take 36 (ai_TargetID i) \<and>
     ai_RequestID s = take 36 (ai_RequestID i) \<and>
     ai_TenantID s = (if ai_TenantID i = [] then ''unknown'' else take 36 (ai_TenantID i))"
proof -
  have take36: "sanitizeID x = take 36 x"
    "sanitizeTenantID x = (if x = [] then ''unknown'' else take 36 x)" for x
    by (auto simp: sanitizeID_def sanitizeTenantID_def cut_def)
  have act: "one_line (sanitizeAction x)" for x
  proof -
    have "action_char c \<Longrightarrow> c \<noteq> CHR 0x0A \<and> c \<noteq> CHR 0x0D" for c
      by (auto simp: action_char_def is_lower_ascii_def is_upper_ascii_def is_digit_def)
    then show ?thesis using sanitizeAction_spec [of x] by (auto simp: one_line_def list_all_iff)
  qed
  have tt: "one_line (sanitizeTargetType x)" for x
    by (rule sanitizeTargetType_one_line)
  have ids: "length (sanitizeID x) \<le> 36" for x by (simp add: sanitizeID_def)
  have tid: "length (sanitizeTenantID x) \<le> 36 \<and> sanitizeTenantID x \<noteq> []" for x
    by (auto simp: sanitizeTenantID_def cut_def)
  have ip: "length (sanitizeIP is_ip x) \<le> 45 \<and>
      (sanitizeIP is_ip x = [] \<or> sanitizeIP is_ip x = ''0.0.0.0'' \<or> is_ip (sanitizeIP is_ip x))" for x
    by (simp add: sanitizeIP_def Let_def)
  have ua: "length (sanitizeUserAgent x) \<le> 512 \<and> one_line (sanitizeUserAgent x)" for x
    using cut_one_line [OF strip_newlines_one_line] by (simp add: sanitizeUserAgent_def one_line_def)
  have msg: "length (sanitizeMessage x) \<le> 256 \<and> one_line (sanitizeMessage x)" for x
    using strip_newlines_one_line by (simp add: sanitizeMessage_def one_line_def)
  show ?thesis
    by (simp add: SanitizeAuditLog_def sanitizeAction_spec ids tid length_sanitizeTargetType ip ua msg
        act tt take36 sanitizeResult_def sanitizeSeverity_def sanitizeDetail_def strip_newlines_one_line)
qed

subsection \<open>What a signature covers\<close>








subsection \<open>Entries from creation to listing\<close>

inductive snapshot_option :: "entry_option \<Rightarrow> bool" where
  "snapshot_option (WithBeforeAfter before after)"

lemma NewEntry_fields:
  assumes "list_all snapshot_option opts"
  shows "\<exists>before after. NewEntry hmac is_ip key eid now i opts =
    (let s = SanitizeAuditLog is_ip i in
     \<lparr>al_ID = eid, al_TenantID = ai_TenantID s, al_RequestID = ai_RequestID s,
      al_Action = ai_Action s, al_ActorID = ai_ActorID s, al_TargetID = ai_TargetID s,
      al_TargetType = ai_TargetType s, al_Result = ai_Result s, al_Severity = ai_Severity s,
      al_Message = ai_Message s, al_Detail = ai_Detail s, al_Before = before, al_After = after,
      al_IP = ai_IP s, al_UserAgent = ai_UserAgent s,
      al_Signature = ComputeSignature hmac (empty_input
        \<lparr>ai_Action := ai_Action s, ai_ActorID := ai_ActorID s, ai_TargetID := ai_TargetID s,
         ai_TargetType := ai_TargetType s, ai_Result := ai_Result s, ai_TenantID := ai_TenantID s,
         ai_RequestID := ai_RequestID s, ai_Message := ai_Message s, ai_Timestamp := now\<rparr>) key,
      al_CreatedAt = now\<rparr>)"
proof -
  have opts: "\<exists>b a. fold (\<lambda>opt l. opt l) opts l = l\<lparr>al_Before := b, al_After := a\<rparr>" for l
    using assms
  proof (induction opts arbitrary: l)
    case Nil
    have "l = l\<lparr>al_Before := al_Before l, al_After := al_After l\<rparr>" by simp
    then show ?case by (metis fold_simps(1))
  next
    case (Cons opt opts)
    then have "snapshot_option opt" by simp
    then obtain b a where "opt l = l\<lparr>al_Before := b, al_After := a\<rparr>"
      by cases (simp add: WithBeforeAfter_def)
    moreover have "\<exists>b a. fold (\<lambda>opt l. opt l) opts (opt l) = (opt l)\<lparr>al_Before := b, al_After := a\<rparr>"
      using Cons.IH [of "opt l"] Cons.prems by simp
    then obtain b' a' where
      "fold (\<lambda>opt l. opt l) opts (opt l) = (opt l)\<lparr>al_Before := b', al_After := a'\<rparr>" by blast
    ultimately show ?case by auto
  qed
  then obtain B A where fold: "\<And>l. fold (\<lambda>opt l. opt l) opts l = l\<lparr>al_Before := B l, al_After := A l\<rparr>"
    by metis
  show ?thesis unfolding NewEntry_def Let_def fold by simp
qed

lemma signed_fields_reload:
  "RFC3339 t = RFC3339 (al_CreatedAt l) \<Longrightarrow>
     canonical_text (signed_fields (l\<lparr>al_CreatedAt := t\<rparr>)) = canonical_text (signed_fields l)"
  by (simp add: canonical_text_def signed_fields_def)

lemma canonical_tenant:
  "canonical_text (i\<lparr>ai_TenantID := s\<rparr>) = canonical_text (i\<lparr>ai_TenantID := t\<rparr>) \<longleftrightarrow> s = t"
  by (simp add: canonical_text_def)

lemma result_nonempty: "sanitizeResult s \<noteq> []" "sanitizeSeverity s \<noteq> []"
  by (auto simp: sanitizeResult_def sanitizeSeverity_def)

text \<open>The tenant a row is stored under.\<close>

definition stored_tenant :: "'d audit_db \<Rightarrow> go_ctx \<Rightarrow> audit_log \<Rightarrow> string" where
  "stored_tenant D ctx l =
     (if ad_tenant_callbacks D \<and> FromContext ctx \<noteq> [] then FromContext ctx else al_TenantID l)"

lemma prepared_Inr:
  assumes "prepared D ctx now' l = Inr l'" "\<not> IsZero (al_CreatedAt l)" "al_Result l \<noteq> []"
    "al_Severity l \<noteq> []"
  shows "l' = l\<lparr>al_TenantID := stored_tenant D ctx l\<rparr>"
  using assms
  by (auto simp: prepared_def Let_def stored_tenant_def create_statement_def create_callback_def
      scoped_def isTenantAwareType_def slice_or_value_aware_def applyCreateTenantFilter_def
      has_tenant_column_def rejectOnConflictTenantIDMutation_def dest_tenant_def AddError_def
      overwriteTenantID_def split: if_splits)

lemma listed_row:
  assumes "table_laws (ad_logs D) al_ID uk" "ListByFilter D r ctx t f lim off d = Inr logs" "g \<in> set logs"
  obtains l where "l \<in> set (tb_rows (ad_logs D) d)" "filter_condition t f l"
    "g = checked_log r (l\<lparr>al_CreatedAt := ad_reload D (al_CreatedAt l)\<rparr>)"
proof -
  obtain P rows where find: "tb_find (ad_logs D) (\<lambda>l. filter_condition t f l \<and> P l)
      (Some (\<lambda>l. - instant (al_CreatedAt l))) (Some (lim, off)) d = Inr rows"
    and g: "g \<in> set (map (\<lambda>l. checked_log r (l\<lparr>al_CreatedAt := ad_reload D (al_CreatedAt l)\<rparr>)) rows)"
    using assms(2,3) by (auto simp: ListByFilter_def split: sum.splits)
  from g obtain l where "l \<in> set rows"
    "g = checked_log r (l\<lparr>al_CreatedAt := ad_reload D (al_CreatedAt l)\<rparr>)" by auto
  with that find_set [OF assms(1) find] show thesis by blast
qed

text \<open>
  C22. From creation to listing. When the driver gives the creation time back with the same RFC 3339
  text (which a local zone breaks), an entry made by \<open>NewEntry\<close> and stored under the tenant it
  was signed for is listed as it was made, its result confirmed by its signature. The create
  callback may store it under another tenant, that of the context, after it was signed: then the
  text that is checked differs from the text that was signed, and every listing shows the result
  as \<open>unknown\<close> unless the keyed hash happens to be the same for these two texts.
\<close>

theorem audit_entries_read_back:
  assumes laws: "table_laws (ad_logs D) al_ID uk" "distinct (map al_ID (tb_rows (ad_logs D) d))"
    and l: "l = NewEntry hmac is_ip key eid now i opts" "list_all snapshot_option opts" "\<not> IsZero now"
    and create: "Audit_Create D ctx now' l d = (Inr (), d')"
    and reload: "RFC3339 (ad_reload D now) = RFC3339 now"
    and list: "ListByFilter D (NewAuditLogRepository hmac key) ctx' t f lim off d' = Inr logs"
      "g \<in> set logs" "al_ID g = eid"
  shows "al_TenantID g = stored_tenant D ctx l \<and>
    (stored_tenant D ctx l = al_TenantID l \<longrightarrow> g = l\<lparr>al_CreatedAt := ad_reload D now\<rparr>) \<and>
    (stored_tenant D ctx l \<noteq> al_TenantID l \<longrightarrow>
       (let signed = canonical_text (signed_fields l);
            checked = canonical_text (signed_fields (l\<lparr>al_TenantID := al_TenantID g\<rparr>))
        in checked \<noteq> signed \<and>
           al_Result g = (if hmac key checked = hmac key signed then al_Result l else ''unknown'')))"
proof -
  let ?s = "SanitizeAuditLog is_ip i" and ?r = "NewAuditLogRepository hmac key"
  have fields: "al_CreatedAt l = now" "al_ID l = eid" "al_Result l \<noteq> []" "al_Severity l \<noteq> []"
    "al_Signature l = ComputeSignature hmac (signed_fields l) key"
    using NewEntry_fields [OF l(2), of hmac is_ip key eid now i]
    by (auto simp: l(1) Let_def signed_fields_def SanitizeAuditLog_def result_nonempty)
  obtain l' where l': "prepared D ctx now' l = Inr l'" "tb_insert (ad_logs D) [l'] d = (Inr (), d')"
    using create by (auto simp: Audit_Create_def split: sum.splits prod.splits)
  have l'_eq: "l' = l\<lparr>al_TenantID := stored_tenant D ctx l\<rparr>"
    using prepared_Inr [OF l'(1)] fields l(3) by simp
  have "tb_rows (ad_logs D) d' = tb_rows (ad_logs D) d @ [l'] \<and>
      (distinct (map al_ID (tb_rows (ad_logs D) d)) \<longrightarrow> distinct (map al_ID (tb_rows (ad_logs D) d')))"
    using insert_lawD(1) [OF laws(1) l'(2)] unfolding sum.case .
  then have rows: "tb_rows (ad_logs D) d' = tb_rows (ad_logs D) d @ [l']"
    "distinct (map al_ID (tb_rows (ad_logs D) d'))"
    using laws(2) by blast+
  obtain x where x: "x \<in> set (tb_rows (ad_logs D) d')"
    "g = checked_log ?r (x\<lparr>al_CreatedAt := ad_reload D (al_CreatedAt x)\<rparr>)"
    using listed_row [OF laws(1) list(1,2)] by blast
  have "al_ID x = eid" using x(2) list(3) by (auto simp: checked_log_def split: if_splits)
  then have "x = l'" using x(1) rows fields(2) l'_eq by auto
  then have g: "g = checked_log ?r (l'\<lparr>al_CreatedAt := ad_reload D now\<rparr>)"
    using x(2) l'_eq fields(1) by simp
  have verify: "verifyLogSignature ?r (l'\<lparr>al_CreatedAt := ad_reload D now\<rparr>) \<longleftrightarrow>
      hmac key (canonical_text ((signed_fields l)\<lparr>ai_TenantID := stored_tenant D ctx l\<rparr>)) =
      hmac key (canonical_text ((signed_fields l)\<lparr>ai_TenantID := al_TenantID l\<rparr>))"
  proof -
    have "canonical_text (signed_fields (l'\<lparr>al_CreatedAt := ad_reload D now\<rparr>)) =
        canonical_text ((signed_fields l)\<lparr>ai_TenantID := stored_tenant D ctx l\<rparr>)"
      using reload fields(1) by (simp add: l'_eq canonical_text_def signed_fields_def)
    moreover have "(signed_fields l)\<lparr>ai_TenantID := al_TenantID l\<rparr> = signed_fields l"
      by (simp add: signed_fields_def)
    ultimately show ?thesis
      using fields(5)
      by (simp add: verifyLogSignature_def VerifyAuditSignature_def NewAuditLogRepository_def
          ComputeSignature_def hex_encode_inj l'_eq)
  qed
  show ?thesis
  proof (intro conjI impI)
    show "al_TenantID g = stored_tenant D ctx l"
      by (simp add: g checked_log_def l'_eq)
    show "g = l\<lparr>al_CreatedAt := ad_reload D now\<rparr>" if "stored_tenant D ctx l = al_TenantID l"
      using that verify by (simp add: g checked_log_def l'_eq)
    assume other: "stored_tenant D ctx l \<noteq> al_TenantID l"
    have t: "al_TenantID g = stored_tenant D ctx l" by (simp add: g checked_log_def l'_eq)
    have texts: "canonical_text (signed_fields (l\<lparr>al_TenantID := al_TenantID g\<rparr>)) =
        canonical_text ((signed_fields l)\<lparr>ai_TenantID := stored_tenant D ctx l\<rparr>)"
      "canonical_text (signed_fields l) = canonical_text ((signed_fields l)\<lparr>ai_TenantID := al_TenantID l\<rparr>)"
      unfolding t by (simp_all add: signed_fields_def canonical_text_def)
    have "al_Result g = (if verifyLogSignature ?r (l'\<lparr>al_CreatedAt := ad_reload D now\<rparr>)
        then al_Result l else ''unknown'')"
      by (simp add: g checked_log_def l'_eq)
    moreover have "canonical_text ((signed_fields l)\<lparr>ai_TenantID := stored_tenant D ctx l\<rparr>) \<noteq>
        canonical_text ((signed_fields l)\<lparr>ai_TenantID := al_TenantID l\<rparr>)"
      using other by (simp only: canonical_tenant) simp
    ultimately show "let signed = canonical_text (signed_fields l);
            checked = canonical_text (signed_fields (l\<lparr>al_TenantID := al_TenantID g\<rparr>))
        in checked \<noteq> signed \<and>
           al_Result g = (if hmac key checked = hmac key signed then al_Result l else ''unknown'')"
      unfolding Let_def verify texts by blast
  qed
qed

subsection \<open>Witnesses\<close>

definition demo_hmac :: hmac_sha256 where
  "demo_hmac secret content = content"

definition demo_audit_db :: "bool \<Rightarrow> (audit_log list) audit_db" where
  "demo_audit_db callbacks =
     \<lparr>ad_logs = ref_table (\<lambda>d. d) (\<lambda>rows d. rows) al_ID al_ID, ad_reload = (\<lambda>t. t),
      ad_tenant_callbacks = callbacks, ad_migrate = (\<lambda>d. (Inr (), d))\<rparr>"

lemma demo_audit_laws: "table_laws (ad_logs (demo_audit_db c)) al_ID al_ID"
  unfolding demo_audit_db_def audit_db.simps by (rule ref_table_laws) simp

definition demo_entry_input :: audit_input where
  "demo_entry_input = empty_input
     \<lparr>ai_Action := ''user.login'', ai_ActorID := ''u1'', ai_Result := ''success'', ai_TenantID := ''t1''\<rparr>"

definition demo_log :: audit_log where
  "demo_log = NewEntry demo_hmac (\<lambda>_. True) ''k'' ''e1'' (time_at 1700000000 0) demo_entry_input []"

definition demo_tenant_ctx :: go_ctx where
  "demo_tenant_ctx = WithTenant ''t2'' Background"

lemma demo_create:
  "Audit_Create (demo_audit_db c) ctx now demo_log [] = (Inr (), [demo_log\<lparr>al_TenantID := t\<rparr>])"
  if "prepared (demo_audit_db c) ctx now demo_log = Inr (demo_log\<lparr>al_TenantID := t\<rparr>)"
  using that by (simp add: Audit_Create_def demo_audit_db_def ref_table_def)

lemma demo_log_fields:
  "al_CreatedAt demo_log = time_at 1700000000 0" "al_TenantID demo_log = ''t1''"
  "al_ID demo_log = ''e1''" "al_Result demo_log = ''success''" "al_Severity demo_log = ''info''"
  by (simp_all add: demo_log_def NewEntry_def Let_def SanitizeAuditLog_def demo_entry_input_def
      empty_input_def sanitizeTenantID_def cut_def sanitizeResult_def sanitizeSeverity_def)

lemma demo_prepared:
  "prepared (demo_audit_db False) Background now demo_log = Inr (demo_log\<lparr>al_TenantID := ''t1''\<rparr>)"
  "prepared (demo_audit_db True) demo_tenant_ctx now demo_log = Inr (demo_log\<lparr>al_TenantID := ''t2''\<rparr>)"
  by (simp_all add: prepared_def demo_audit_db_def Let_def demo_log_fields IsZero_def time_at_def
      create_statement_def create_callback_def scoped_def isTenantAwareType_def
      slice_or_value_aware_def applyCreateTenantFilter_def has_tenant_column_def
      rejectOnConflictTenantIDMutation_def dest_tenant_def overwriteTenantID_def demo_tenant_ctx_def)

theorem audit_entries_read_back_witness:
  "ListByFilter (demo_audit_db False) (NewAuditLogRepository demo_hmac ''k'') Background ''t1'' no_filter 10 0
     (snd (Audit_Create (demo_audit_db False) Background zero_time demo_log [])) = Inr [demo_log] \<and>
   (case ListByFilter (demo_audit_db True) (NewAuditLogRepository demo_hmac ''k'') demo_tenant_ctx ''t2''
       no_filter 10 0 (snd (Audit_Create (demo_audit_db True) demo_tenant_ctx zero_time demo_log [])) of
      Inl _ \<Rightarrow> False | Inr logs \<Rightarrow> map al_Result logs = [''unknown''])"
proof -
  note rb = audit_entries_read_back [OF demo_audit_laws, of _ "[]" demo_log demo_hmac "\<lambda>_. True" "''k''" "''e1''"
      "time_at 1700000000 0" demo_entry_input "[]"]
  have nz: "\<not> IsZero (time_at 1700000000 0)" by (simp add: IsZero_def time_at_def)
  have same: "ad_reload (demo_audit_db c) t = t" for c t by (simp add: demo_audit_db_def)
  have "Audit_Create (demo_audit_db False) Background zero_time demo_log [] =
      (Inr (), [demo_log\<lparr>al_TenantID := ''t1''\<rparr>])"
    by (rule demo_create) (rule demo_prepared)
  moreover have t1: "demo_log\<lparr>al_TenantID := ''t1''\<rparr> = demo_log"
    by (rule audit_log.equality) (simp_all add: demo_log_fields)
  ultimately have c1: "Audit_Create (demo_audit_db False) Background zero_time demo_log [] = (Inr (), [demo_log])"
    by simp
  have c2: "Audit_Create (demo_audit_db True) demo_tenant_ctx zero_time demo_log [] =
      (Inr (), [demo_log\<lparr>al_TenantID := ''t2''\<rparr>])"
    by (rule demo_create) (rule demo_prepared)
  obtain g1 where l1: "ListByFilter (demo_audit_db False) (NewAuditLogRepository demo_hmac ''k'') Background ''t1''
      no_filter 10 0 [demo_log] = Inr [g1]" and id1: "al_ID g1 = ''e1''"
    by (simp add: ListByFilter_def query_scope_def demo_audit_db_def ref_table_def ref_find_def
        filter_condition_def no_filter_def demo_log_fields checked_log_def)
  obtain g2 where l2: "ListByFilter (demo_audit_db True) (NewAuditLogRepository demo_hmac ''k'') demo_tenant_ctx ''t2''
      no_filter 10 0 [demo_log\<lparr>al_TenantID := ''t2''\<rparr>] = Inr [g2]" and id2: "al_ID g2 = ''e1''"
    by (simp add: ListByFilter_def query_scope_def demo_audit_db_def ref_table_def ref_find_def
        filter_condition_def no_filter_def demo_log_fields checked_log_def query_statement_def
        query_callback_def scoped_def isTenantAwareType_def slice_or_value_aware_def
        applyTenantFilter_def demo_tenant_ctx_def col_eq_def Let_def)
  have s1: "stored_tenant (demo_audit_db False) Background demo_log = al_TenantID demo_log"
    by (simp add: stored_tenant_def demo_audit_db_def)
  have s2: "stored_tenant (demo_audit_db True) demo_tenant_ctx demo_log \<noteq> al_TenantID demo_log"
    by (simp add: stored_tenant_def demo_audit_db_def demo_tenant_ctx_def demo_log_fields)
  have dist: "distinct (map al_ID (tb_rows (ad_logs (demo_audit_db c)) []))" for c
    by (simp add: demo_audit_db_def ref_table_def)
  have upd: "demo_log\<lparr>al_CreatedAt := time_at 1700000000 0\<rparr> = demo_log"
    by (rule audit_log.equality) (simp_all add: demo_log_fields)
  have "g1 = demo_log"
    using rb [OF dist demo_log_def _ nz c1 _ l1 _ id1] s1 by (simp add: same upd)
  moreover have "al_Result g2 = ''unknown''"
    using rb [OF dist demo_log_def _ nz c2 _ l2 _ id2] s2 by (simp add: same demo_hmac_def Let_def) metis
  ultimately show ?thesis using c1 c2 l1 l2 by simp
qed


end
