(* ===== verification/PluginSdk.thy ===== *)
theory PluginSdk
  imports GoStrings "HOL-Library.List_Lexorder" "HOL-Library.Char_ord" "HOL-Library.Product_Lexorder"
begin

text \<open>
  The shared part of the plugin systems (\<^verbatim>\<open>kex-utils/pkg/kexpluginsdk\<close>): the registry of
  factories by name and the shared HTTP transport and client, together with the pieces of
  \<^verbatim>\<open>net/http\<close> and \<^verbatim>\<open>net/url\<close> that the plugins use on top of them.

  A registry is the list of its entries; the name of a factory is the function the operations
  take (Go's method \<^verbatim>\<open>Name\<close>). The lock of the registry makes every operation atomic, so each
  is one definition. \<^verbatim>\<open>Range\<close> visits the entries of a Go map, in the order \<open>ord\<close>. The locale
  \<open>method_listing\<close> is what the three \<^verbatim>\<open>Methods\<close> functions share.
\<close>

subsection \<open>The registry\<close>

type_synonym 'f registry = "(string \<times> 'f) list"

definition NewRegistry :: "'f registry" where
  "NewRegistry = []"

text \<open>The panic message ends in the quoted name, which is left out here.\<close>

definition duplicate_panic :: string where
  "duplicate_panic = ''kexpluginsdk: duplicate factory ''"

definition Register :: "('f \<Rightarrow> string) \<Rightarrow> 'f registry \<Rightarrow> 'f \<Rightarrow> 'f registry run" where
  "Register nm r f =
     (case map_of r (nm f) of
        Some _ \<Rightarrow> Panics duplicate_panic
      | None \<Rightarrow> Returns (alist_put (nm f) f r))"

definition Registry_Get :: "'f registry \<Rightarrow> string \<Rightarrow> 'f option" where
  "Registry_Get r name = map_of r name"

definition Registry_Has :: "'f registry \<Rightarrow> string \<Rightarrow> bool" where
  "Registry_Has r name = (map_of r name \<noteq> None)"

definition Registry_Len :: "'f registry \<Rightarrow> nat" where
  "Registry_Len r = length r"

fun range_entries :: "(string \<Rightarrow> 'f \<Rightarrow> 's \<Rightarrow> bool \<times> 's) \<Rightarrow> (string \<times> 'f) list \<Rightarrow> 's \<Rightarrow> 's" where
  "range_entries fn [] s = s"
| "range_entries fn ((name, f) # es) s =
     (case fn name f s of (go, s') \<Rightarrow> if go then range_entries fn es s' else s')"

type_synonym 'f map_order = "(string \<times> 'f) list \<Rightarrow> (string \<times> 'f) list"

definition Range :: "'f map_order \<Rightarrow> 'f registry \<Rightarrow> (string \<Rightarrow> 'f \<Rightarrow> 's \<Rightarrow> bool \<times> 's) \<Rightarrow> 's \<Rightarrow> 's" where
  "Range ord r fn s = range_entries fn (ord r) s"

text \<open>The registrations of the \<^verbatim>\<open>init\<close> functions of the compiled-in packages, one after another.\<close>

fun register_all :: "('f \<Rightarrow> string) \<Rightarrow> 'f list \<Rightarrow> 'f registry \<Rightarrow> 'f registry run" where
  "register_all nm [] r = Returns r"
| "register_all nm (f # fs) r =
     (case Register nm r f of
        Panics m \<Rightarrow> Panics m
      | Returns r' \<Rightarrow> register_all nm fs r')"

lemma alist_put_new: "map_of m k = None \<Longrightarrow> alist_put k v m = m @ [(k, v)]"
  by (induction m) (auto split: if_splits)

lemma register_all_eq:
  "register_all nm fs r =
     (if distinct (map nm fs) \<and> (\<forall>f \<in> set fs. map_of r (nm f) = None)
      then Returns (r @ map (\<lambda>f. (nm f, f)) fs) else Panics duplicate_panic)"
proof (induction fs arbitrary: r)
  case (Cons f fs)
  then show ?case
    by (auto simp: Register_def alist_put_new map_add_def split: option.splits) (metis imageI)+
qed simp

lemma register_all_new:
  "register_all nm fs NewRegistry =
     (if distinct (map nm fs) then Returns (map (\<lambda>f. (nm f, f)) fs) else Panics duplicate_panic)"
  by (simp add: register_all_eq NewRegistry_def)

lemma range_collect:
  "range_entries (\<lambda>n f out. (True, out @ rows n f)) es out = out @ concat (map (\<lambda>(n, f). rows n f) es)"
  by (induction es arbitrary: out) auto

text \<open>
  A listing of the registry: \<open>rows n f\<close> are the descriptors of one factory, \<open>key\<close> what they
  are sorted by, \<open>owner\<close> the factory name in a descriptor. The laws make the sorted list
  independent of the order of the map.
\<close>

locale method_listing =
  fixes rows :: "string \<Rightarrow> 'f \<Rightarrow> 'm list" and key :: "'m \<Rightarrow> 'k::linorder" and owner :: "'m \<Rightarrow> string"
  assumes owner_rows: "m \<in> set (rows n f) \<Longrightarrow> owner m = n"
    and owner_key: "key m = key m' \<Longrightarrow> owner m = owner m'"
    and key_rows: "m \<in> set (rows n f) \<Longrightarrow> m' \<in> set (rows n f) \<Longrightarrow> key m = key m' \<Longrightarrow> m = m'"
begin

definition listing :: "'f map_order \<Rightarrow> 'f registry \<Rightarrow> 'm list" where
  "listing ord r = sort_key key (Range ord r (\<lambda>n f out. (True, out @ rows n f)) [])"

lemma key_inj:
  assumes "distinct (map fst r)"
  shows "inj_on key (set (concat (map (\<lambda>(n, f). rows n f) r)))"
proof (rule inj_onI)
  fix m m'
  assume "m \<in> set (concat (map (\<lambda>(n, f). rows n f) r))" "m' \<in> set (concat (map (\<lambda>(n, f). rows n f) r))"
    and k: "key m = key m'"
  then obtain n f n' f' where m: "(n, f) \<in> set r" "m \<in> set (rows n f)"
    and m': "(n', f') \<in> set r" "m' \<in> set (rows n' f')" by auto
  have "n = n'" using owner_key [OF k] owner_rows m(2) m'(2) by metis
  moreover from this have "f = f'" using m(1) m'(1) assms by (metis map_of_is_SomeI option.inject)
  ultimately show "m = m'" using key_rows m(2) m'(2) k by blast
qed

lemma listing_order_independent:
  assumes "key_order ord" "distinct (map fst r)"
  shows "listing ord r = listing (\<lambda>es. es) r"
proof -
  let ?c = "\<lambda>es. concat (map (\<lambda>(n, f). rows n f) es)"
  have m: "mset (?c (ord r)) = mset (?c r)"
    using assms(1) by (simp add: key_order_def mset_concat sum_mset_sum_list [symmetric])
  then have s: "set (?c (ord r)) = set (?c r)" by (metis set_mset_mset)
  have "sort_key key (?c (ord r)) = sort_key key (?c r)"
  proof (rule sort_key_inj_key_eq)
    show "mset (?c (ord r)) = mset (sort_key key (?c r))" using m by (simp only: mset_sort)
    show "inj_on key (set (?c (ord r)))" unfolding s by (rule key_inj [OF assms(2)])
    show "sorted (map key (sort_key key (?c r)))" by (rule sorted_sort_key)
  qed
  then show ?thesis by (simp add: listing_def Range_def range_collect)
qed

lemma set_listing: "set (listing (\<lambda>es. es) r) = (\<Union>(n, f)\<in>set r. set (rows n f))"
  by (auto simp: listing_def Range_def range_collect)

lemma sorted_listing: "sorted (map key (listing ord r))"
  by (simp add: listing_def)

end

subsection \<open>The shared HTTP client\<close>

record transport =
  MaxIdleConns :: int
  MaxIdleConnsPerHost :: int
  IdleConnTimeout :: duration

definition newSharedTransport :: transport where
  "newSharedTransport =
     \<lparr>MaxIdleConns = 100, MaxIdleConnsPerHost = 10, IdleConnTimeout = 90 * 1000000000\<rparr>"

text \<open>
  \<open>cl_transport = None\<close> is the default transport of \<^verbatim>\<open>net/http\<close>; \<open>cl_bearer\<close> is the token that
  an \<^verbatim>\<open>oauth2.Transport\<close> around it adds to every request.
\<close>

record plugin_client =
  cl_timeout :: duration
  cl_transport :: "transport option"
  cl_bearer :: "string option"

definition SharedHTTPClient :: plugin_client where
  "SharedHTTPClient =
     \<lparr>cl_timeout = 10 * 1000000000, cl_transport = Some newSharedTransport, cl_bearer = None\<rparr>"

definition default_client :: plugin_client where
  "default_client = \<lparr>cl_timeout = 10 * 1000000000, cl_transport = None, cl_bearer = None\<rparr>"

record http_call =
  hc_method :: string
  hc_url :: string
  hc_headers :: "(string \<times> string) list"
  hc_body :: string

text \<open>\<open>ha_read\<close> is the error with which reading the body ends early.\<close>

record http_answer =
  ha_status :: int
  ha_body :: bytes
  ha_read :: "string option"

text \<open>
  The network: \<open>bad_request u\<close> is the error of \<^verbatim>\<open>http.NewRequestWithContext\<close> for the URL \<open>u\<close>,
  \<open>http_do\<close> what \<^verbatim>\<open>client.Do\<close> gives.
\<close>

record http_env =
  bad_request :: "string \<Rightarrow> string option"
  http_do :: "plugin_client \<Rightarrow> http_call \<Rightarrow> string + http_answer"

subsection \<open>Forms\<close>

text \<open>\<^verbatim>\<open>url.QueryEscape\<close>, \<^verbatim>\<open>url.Values.Set\<close> and \<^verbatim>\<open>url.Values.Encode\<close>.\<close>

definition hex_upper :: "nat \<Rightarrow> char" where
  "hex_upper d = char_of (if d < 10 then 48 + d else 55 + d)"

definition query_safe :: "char \<Rightarrow> bool" where
  "query_safe c \<longleftrightarrow> is_digit c \<or> is_upper_ascii c \<or> is_lower_ascii c \<or> c \<in> set ''-_.~''"

fun QueryEscape :: "string \<Rightarrow> string" where
  "QueryEscape [] = []"
| "QueryEscape (c # s) =
     (if query_safe c then [c] else if c = CHR '' '' then ''+''
      else [CHR ''%'', hex_upper (byte c div 16), hex_upper (byte c mod 16)]) @ QueryEscape s"

type_synonym form = "(string \<times> string) list"

definition form_set :: "string \<Rightarrow> string \<Rightarrow> form \<Rightarrow> form" where
  "form_set k v form = alist_put k v form"

definition form_encode :: "form \<Rightarrow> string" where
  "form_encode form =
     Join ''&'' (map (\<lambda>(k, v). QueryEscape k @ ''='' @ QueryEscape v) (sort_key fst form))"

text \<open>What \<^verbatim>\<open>url.ParseQuery\<close> of the receiver reads back.\<close>

definition hex_upper_val :: "char \<Rightarrow> nat" where
  "hex_upper_val c = (if is_digit c then byte c - 48 else byte c - 55)"

fun QueryUnescape :: "string \<Rightarrow> string" where
  "QueryUnescape (a # b # c # s) =
     (if a = CHR ''%'' then char_of (16 * hex_upper_val b + hex_upper_val c) # QueryUnescape s
      else (if a = CHR ''+'' then CHR '' '' else a) # QueryUnescape (b # c # s))"
| "QueryUnescape (a # s) = (if a = CHR ''+'' then CHR '' '' else a) # QueryUnescape s"
| "QueryUnescape [] = []"

lemma QueryUnescape_plain:
  "a \<noteq> CHR ''%'' \<Longrightarrow> QueryUnescape (a # s) = (if a = CHR ''+'' then CHR '' '' else a) # QueryUnescape s"
  by (cases s rule: remdups_adj.cases) simp_all

lemma hex_upper_val_hex: "d < 16 \<Longrightarrow> hex_upper_val (hex_upper d) = d"
  by (auto simp: hex_upper_val_def hex_upper_def is_digit_def)

lemma query_safe_plain: "query_safe c \<Longrightarrow> c \<noteq> CHR ''%'' \<and> c \<noteq> CHR ''+''"
  by (auto simp: query_safe_def is_digit_def is_upper_ascii_def is_lower_ascii_def)

lemma QueryUnescape_Escape: "QueryUnescape (QueryEscape s) = s"
proof (induction s)
  case (Cons c s)
  have "16 * (byte c div 16) + byte c mod 16 = byte c" by simp
  moreover have "byte c div 16 < 16" using byte_bound [of c] by linarith
  ultimately have "char_of (16 * hex_upper_val (hex_upper (byte c div 16)) +
      hex_upper_val (hex_upper (byte c mod 16))) = c"
    by (simp add: hex_upper_val_hex)
  with Cons query_safe_plain [of c] show ?case
    by (simp add: QueryUnescape_plain del: QueryUnescape.simps) (simp add: QueryUnescape_plain)
qed simp

end
