(* ===== verification/Captcha.thy ===== *)
theory Captcha
  imports PluginSdk
begin

text \<open>
  The captcha plugins (\<^verbatim>\<open>plugin/captcha\<close>): the registry with \<^verbatim>\<open>New\<close>, \<^verbatim>\<open>Methods\<close> and \<^verbatim>\<open>Validate\<close>, and
  the providers GeeTest, reCAPTCHA and Turnstile with their factories. The network, the JSON
  decoder at the three types it is used at, and HMAC-SHA256 are parameters.
\<close>

subsection \<open>Providers\<close>

record captcha_config =
  cc_TenantID :: string
  cc_Name :: string
  cc_Extra :: "string \<Rightarrow> string option"

text \<open>\<^verbatim>\<open>cfg.Extra[k]\<close>: a missing key reads as the empty text.\<close>

definition extra :: "(string \<Rightarrow> string option) \<Rightarrow> string \<Rightarrow> string" where
  "extra m k = (case m k of None \<Rightarrow> '''' | Some v \<Rightarrow> v)"

datatype captcha_error =
    CaptchaEmptyName
  | CaptchaUnknownProvider string
  | EmptyToken string
  | InvalidTokenJson string
  | IncompleteResult
  | GeetestValidate string
  | GeetestDecode string
  | SiteverifyBuild string
  | SiteverifyRequest string
  | SiteverifyStatus int
  | SiteverifyDecode string
  | ChallengeFailed string

record geetest_result =
  LotNumber :: string
  CaptchaOutput :: string
  PassToken :: string
  GenTime :: string

record siteverify_response =
  sv_Success :: bool
  sv_ChallengeTS :: string
  sv_Hostname :: string
  sv_ErrorCodes :: "string list"

record captcha_env = http_env +
  token_json :: "bytes \<Rightarrow> string + geetest_result"
  validate_json :: "bytes \<Rightarrow> string + string \<times> string"
  siteverify_json :: "http_answer \<Rightarrow> string + siteverify_response"
  hmac_sha256 :: "string \<Rightarrow> bytes \<Rightarrow> bytes"

record geetest_provider =
  gp_captchaID :: string
  gp_privateKey :: string
  gp_host :: string
  gp_client :: "plugin_client option"

record recaptcha_provider =
  rp_secret :: string
  rp_sitekey :: string
  rp_endpoint :: string
  rp_scriptURL :: string
  rp_client :: "plugin_client option"

record turnstile_provider =
  tp_secret :: string
  tp_sitekey :: string
  tp_client :: "plugin_client option"

definition form_headers :: "(string \<times> string) list" where
  "form_headers = [(''Content-Type'', ''application/x-www-form-urlencoded'')]"

definition form_post :: "string \<Rightarrow> form \<Rightarrow> http_call" where
  "form_post u form =
     \<lparr>hc_method = ''POST'', hc_url = u, hc_headers = form_headers, hc_body = form_encode form\<rparr>"

definition client_or_default :: "plugin_client option \<Rightarrow> plugin_client" where
  "client_or_default c = (case c of None \<Rightarrow> default_client | Some c \<Rightarrow> c)"

subsection \<open>GeeTest\<close>

definition GeetestKey :: string where "GeetestKey = ''geetest''"
definition geetestVersion :: string where "geetestVersion = ''1.0.0''"
definition geetestV4Host :: string where "geetestV4Host = ''https://gcaptcha4.geetest.com''"
definition geetestSDK :: string where "geetestSDK = ''quotagate-golang:v'' @ geetestVersion"

definition hostOrDefault :: "geetest_provider \<Rightarrow> string" where
  "hostOrDefault p = (if gp_host p \<noteq> '''' then gp_host p else geetestV4Host)"

definition geetest_PublicConfig :: "geetest_provider \<Rightarrow> (string \<times> string) list" where
  "geetest_PublicConfig p = [(''captcha_id'', gp_captchaID p)]"

definition hmacHex :: "('e) captcha_env_scheme \<Rightarrow> string \<Rightarrow> string \<Rightarrow> string" where
  "hmacHex env key msg = hex_encode (hmac_sha256 env key msg)"

text \<open>\<^verbatim>\<open>do\<close>: body, status and the error of sending or of reading the body.\<close>

definition geetest_do ::
    "('e) captcha_env_scheme \<Rightarrow> geetest_provider \<Rightarrow> http_call \<Rightarrow> string + bytes \<times> int" where
  "geetest_do env p req =
     (case http_do env (client_or_default (gp_client p)) req of
        Inl e \<Rightarrow> Inl e
      | Inr a \<Rightarrow> (case ha_read a of Some e \<Rightarrow> Inl e | None \<Rightarrow> Inr (ha_body a, ha_status a)))"

definition geetest_post ::
    "('e) captcha_env_scheme \<Rightarrow> geetest_provider \<Rightarrow> string \<Rightarrow> form \<Rightarrow> string + bytes \<times> int" where
  "geetest_post env p u form =
     (case bad_request env u of
        Some e \<Rightarrow> Inl e
      | None \<Rightarrow> geetest_do env p (form_post u form))"

definition geetest_form :: "('e) captcha_env_scheme \<Rightarrow> geetest_provider \<Rightarrow> geetest_result \<Rightarrow> form" where
  "geetest_form env p r =
     form_set ''sdk'' geetestSDK
      (form_set ''sign_token'' (hmacHex env (gp_privateKey p) (LotNumber r))
      (form_set ''captcha_output'' (CaptchaOutput r)
      (form_set ''gen_time'' (GenTime r)
      (form_set ''pass_token'' (PassToken r)
      (form_set ''lot_number'' (LotNumber r)
      (form_set ''captcha_id'' (gp_captchaID p) []))))))"

definition Geetest_Validate ::
    "('e) captcha_env_scheme \<Rightarrow> geetest_provider \<Rightarrow> geetest_result \<Rightarrow> captcha_error + bool" where
  "Geetest_Validate env p r =
     (if LotNumber r = '''' \<or> CaptchaOutput r = '''' \<or> PassToken r = '''' \<or> GenTime r = ''''
      then Inl IncompleteResult
      else case geetest_post env p (hostOrDefault p @ ''/validate'') (geetest_form env p r) of
          Inl e \<Rightarrow> Inl (GeetestValidate e)
        | Inr (raw, status) \<Rightarrow>
            if status \<noteq> 200 then Inr False
            else case validate_json env raw of
                Inl e \<Rightarrow> Inl (GeetestDecode e)
              | Inr (st, res) \<Rightarrow> Inr (st = ''success'' \<and> res = ''success''))"

definition Geetest_Verify ::
    "('e) captcha_env_scheme \<Rightarrow> geetest_provider \<Rightarrow> string \<Rightarrow> string \<Rightarrow> captcha_error + bool" where
  "Geetest_Verify env p token remoteIP =
     (if token = '''' then Inl (EmptyToken GeetestKey)
      else case token_json env token of
          Inl e \<Rightarrow> Inl (InvalidTokenJson e)
        | Inr r \<Rightarrow> Geetest_Validate env p r)"

definition GeetestFactory_New :: "captcha_config \<Rightarrow> geetest_provider" where
  "GeetestFactory_New cfg =
     \<lparr>gp_captchaID = extra (cc_Extra cfg) ''captcha_id'', gp_privateKey = extra (cc_Extra cfg) ''private_key'',
      gp_host = '''', gp_client = Some SharedHTTPClient\<rparr>"

subsection \<open>Turnstile and the shared verification call\<close>

definition TurnstileKey :: string where "TurnstileKey = ''turnstile''"
definition turnstileVersion :: string where "turnstileVersion = ''1.0.0''"
definition turnstileSiteverify :: string where
  "turnstileSiteverify = ''https://challenges.cloudflare.com/turnstile/v0/siteverify''"

definition siteverify_form :: "string \<Rightarrow> string \<Rightarrow> string \<Rightarrow> form" where
  "siteverify_form secret token remoteIP =
     (let form = form_set ''response'' token (form_set ''secret'' secret [])
      in if remoteIP \<noteq> '''' then form_set ''remoteip'' remoteIP form else form)"

definition postSiteverify ::
    "('e) captcha_env_scheme \<Rightarrow> plugin_client option \<Rightarrow> string \<Rightarrow> string \<Rightarrow> string \<Rightarrow> string \<Rightarrow>
     captcha_error + bool" where
  "postSiteverify env client endpoint secret token remoteIP =
     (case bad_request env endpoint of
        Some e \<Rightarrow> Inl (SiteverifyBuild e)
      | None \<Rightarrow>
         (case http_do env (client_or_default client)
                 (form_post endpoint (siteverify_form secret token remoteIP)) of
            Inl e \<Rightarrow> Inl (SiteverifyRequest e)
          | Inr resp \<Rightarrow>
              if ha_status resp \<noteq> 200 then Inl (SiteverifyStatus (ha_status resp))
              else case siteverify_json env resp of
                  Inl e \<Rightarrow> Inl (SiteverifyDecode e)
                | Inr out \<Rightarrow>
                    if \<not> sv_Success out then Inl (ChallengeFailed (Join '','' (sv_ErrorCodes out)))
                    else Inr True))"

definition Turnstile_Verify ::
    "('e) captcha_env_scheme \<Rightarrow> turnstile_provider \<Rightarrow> string \<Rightarrow> string \<Rightarrow> captcha_error + bool" where
  "Turnstile_Verify env p token remoteIP =
     (if token = '''' then Inl (EmptyToken TurnstileKey)
      else postSiteverify env (tp_client p) turnstileSiteverify (tp_secret p) token remoteIP)"

definition turnstile_PublicConfig :: "turnstile_provider \<Rightarrow> (string \<times> string) list" where
  "turnstile_PublicConfig p = [(''sitekey'', tp_sitekey p)]"

definition TurnstileFactory_New :: "captcha_config \<Rightarrow> turnstile_provider" where
  "TurnstileFactory_New cfg =
     \<lparr>tp_secret = extra (cc_Extra cfg) ''secret'', tp_sitekey = extra (cc_Extra cfg) ''sitekey'',
      tp_client = Some SharedHTTPClient\<rparr>"

subsection \<open>reCAPTCHA\<close>

definition RecaptchaKey :: string where "RecaptchaKey = ''recaptcha''"
definition recaptchaVersion :: string where "recaptchaVersion = ''1.0.0''"
definition recaptchaHostGoogle :: string where "recaptchaHostGoogle = ''www.google.com''"
definition recaptchaHostNet :: string where "recaptchaHostNet = ''www.recaptcha.net''"
definition recaptchaSiteverifyPath :: string where
  "recaptchaSiteverifyPath = ''/recaptcha/api/siteverify''"
definition recaptchaScriptPath :: string where "recaptchaScriptPath = ''/recaptcha/api.js''"

definition recaptchaHost :: "string \<Rightarrow> string" where
  "recaptchaHost domain =
     (if domain \<in> {'''', ''google'', ''google.com'', recaptchaHostGoogle} then recaptchaHostGoogle
      else if domain \<in> {''recaptcha.net'', ''recaptchanet'', recaptchaHostNet} then recaptchaHostNet
      else if HasPrefix domain ''http://'' \<or> HasPrefix domain ''https://''
      then takeWhile (\<lambda>c. c \<noteq> CHR ''/'') (TrimPrefix (TrimPrefix domain ''https://'') ''http://'')
      else domain)"

definition RecaptchaEndpoint :: "string \<Rightarrow> string" where
  "RecaptchaEndpoint domain = ''https://'' @ recaptchaHost domain @ recaptchaSiteverifyPath"

definition RecaptchaScriptURL :: "string \<Rightarrow> string" where
  "RecaptchaScriptURL domain = ''https://'' @ recaptchaHost domain @ recaptchaScriptPath"

definition Recaptcha_Verify ::
    "('e) captcha_env_scheme \<Rightarrow> recaptcha_provider \<Rightarrow> string \<Rightarrow> string \<Rightarrow> captcha_error + bool" where
  "Recaptcha_Verify env p token remoteIP =
     (if token = '''' then Inl (EmptyToken RecaptchaKey)
      else postSiteverify env (rp_client p) (rp_endpoint p) (rp_secret p) token remoteIP)"

definition recaptcha_PublicConfig :: "recaptcha_provider \<Rightarrow> (string \<times> string) list" where
  "recaptcha_PublicConfig p = [(''sitekey'', rp_sitekey p), (''script'', rp_scriptURL p)]"

definition RecaptchaFactory_New :: "captcha_config \<Rightarrow> recaptcha_provider" where
  "RecaptchaFactory_New cfg =
     (let domain = extra (cc_Extra cfg) ''domain'' in
      \<lparr>rp_secret = extra (cc_Extra cfg) ''secret'', rp_sitekey = extra (cc_Extra cfg) ''sitekey'',
       rp_endpoint = RecaptchaEndpoint domain, rp_scriptURL = RecaptchaScriptURL domain,
       rp_client = Some SharedHTTPClient\<rparr>)"

subsection \<open>Factories and the registry\<close>

datatype captcha_provider =
    GeetestProvider geetest_provider
  | RecaptchaProvider recaptcha_provider
  | TurnstileProvider turnstile_provider

text \<open>The name, version and type that a provider reports.\<close>

fun provider_Name :: "captcha_provider \<Rightarrow> string" where
  "provider_Name (GeetestProvider _) = GeetestKey"
| "provider_Name (RecaptchaProvider _) = RecaptchaKey"
| "provider_Name (TurnstileProvider _) = TurnstileKey"

fun provider_Version :: "captcha_provider \<Rightarrow> string" where
  "provider_Version (GeetestProvider _) = geetestVersion"
| "provider_Version (RecaptchaProvider _) = recaptchaVersion"
| "provider_Version (TurnstileProvider _) = turnstileVersion"

text \<open>The capabilities, and the method sets that \<^verbatim>\<open>reflect.Type.Implements\<close> looks at.\<close>

definition CapVerifier :: string where "CapVerifier = ''verifier''"
definition CapPublicConfig :: string where "CapPublicConfig = ''public-config''"

datatype capability_iface = Verifier | PublicConfigProvider

definition capabilityIface :: "string \<Rightarrow> capability_iface option" where
  "capabilityIface = [CapVerifier \<mapsto> Verifier, CapPublicConfig \<mapsto> PublicConfigProvider]"

text \<open>The \<^verbatim>\<open>Verify\<close> and \<^verbatim>\<open>PublicConfig\<close> methods, dispatched on the type of the provider.\<close>

fun Verify :: "('e) captcha_env_scheme \<Rightarrow> captcha_provider \<Rightarrow>
    string \<Rightarrow> string \<Rightarrow> captcha_error + bool" where
  "Verify env (GeetestProvider p) = Geetest_Verify env p"
| "Verify env (RecaptchaProvider p) = Recaptcha_Verify env p"
| "Verify env (TurnstileProvider p) = Turnstile_Verify env p"

fun PublicConfig :: "captcha_provider \<Rightarrow> (string \<times> string) list" where
  "PublicConfig (GeetestProvider p) = geetest_PublicConfig p"
| "PublicConfig (RecaptchaProvider p) = recaptcha_PublicConfig p"
| "PublicConfig (TurnstileProvider p) = turnstile_PublicConfig p"

text \<open>
  A factory, with the interfaces that its providers implement given by \<open>implements\<close>; the
  type of provider is left open, so that the registry is the source's for any factories.
\<close>

record 'p captcha_factory =
  cf_Name :: string
  cf_Type :: string
  cf_Version :: string
  cf_Capabilities :: "string list"
  cf_New :: "captcha_config \<Rightarrow> captcha_error + 'p option"

definition GeetestFactory :: "captcha_provider captcha_factory" where
  "GeetestFactory =
     \<lparr>cf_Name = GeetestKey, cf_Type = GeetestKey, cf_Version = geetestVersion,
      cf_Capabilities = [CapVerifier, CapPublicConfig],
      cf_New = (\<lambda>cfg. Inr (Some (GeetestProvider (GeetestFactory_New cfg))))\<rparr>"

definition RecaptchaFactory :: "captcha_provider captcha_factory" where
  "RecaptchaFactory =
     \<lparr>cf_Name = RecaptchaKey, cf_Type = RecaptchaKey, cf_Version = recaptchaVersion,
      cf_Capabilities = [CapVerifier, CapPublicConfig],
      cf_New = (\<lambda>cfg. Inr (Some (RecaptchaProvider (RecaptchaFactory_New cfg))))\<rparr>"

definition TurnstileFactory :: "captcha_provider captcha_factory" where
  "TurnstileFactory =
     \<lparr>cf_Name = TurnstileKey, cf_Type = TurnstileKey, cf_Version = turnstileVersion,
      cf_Capabilities = [CapVerifier, CapPublicConfig],
      cf_New = (\<lambda>cfg. Inr (Some (TurnstileProvider (TurnstileFactory_New cfg))))\<rparr>"

text \<open>The assertions \<^verbatim>\<open>var _ captcha.Verifier = ...\<close>: each of the three types has both methods.\<close>

fun implements :: "captcha_provider \<Rightarrow> capability_iface \<Rightarrow> bool" where
  "implements (GeetestProvider _) iface = (iface \<in> {Verifier, PublicConfigProvider})"
| "implements (RecaptchaProvider _) iface = (iface \<in> {Verifier, PublicConfigProvider})"
| "implements (TurnstileProvider _) iface = (iface \<in> {Verifier, PublicConfigProvider})"

type_synonym 'p captcha_registry = "'p captcha_factory registry"

definition Captcha_New :: "'p captcha_registry \<Rightarrow> captcha_config \<Rightarrow> captcha_error + 'p option" where
  "Captcha_New r cfg =
     (if cc_Name cfg = '''' then Inl CaptchaEmptyName
      else case Registry_Get r (cc_Name cfg) of
          None \<Rightarrow> Inl (CaptchaUnknownProvider (cc_Name cfg))
        | Some f \<Rightarrow> cf_New f cfg)"

record captcha_method =
  cm_Name :: string
  cm_Type :: string
  cm_Version :: string

definition captcha_rows :: "string \<Rightarrow> 'p captcha_factory \<Rightarrow> captcha_method list" where
  "captcha_rows name f = [\<lparr>cm_Name = name, cm_Type = cf_Type f, cm_Version = cf_Version f\<rparr>]"

definition Captcha_Methods :: "'p captcha_factory map_order \<Rightarrow> 'p captcha_registry \<Rightarrow> captcha_method list" where
  "Captcha_Methods ord r =
     sort_key cm_Name (Range ord r (\<lambda>name f out. (True, out @ captcha_rows name f)) [])"

text \<open>
  \<^verbatim>\<open>Validate\<close>: a problem names the factory and what is wrong with it. A factory that returns a
  nil provider without an error makes \<^verbatim>\<open>reflect.TypeOf(inst).Implements\<close> panic.
\<close>

datatype problem =
    NewFailed string captcha_error
  | UnknownCapability string string
  | NotImplemented string string

definition zero_config :: "string \<Rightarrow> captcha_config" where
  "zero_config name = \<lparr>cc_TenantID = '''', cc_Name = name, cc_Extra = Map.empty\<rparr>"

definition nil_type_panic :: string where
  "nil_type_panic = ''invalid memory address or nil pointer dereference''"

fun check_caps ::
    "('p \<Rightarrow> capability_iface \<Rightarrow> bool) \<Rightarrow> string \<Rightarrow> 'p option \<Rightarrow> string list \<Rightarrow> problem list run" where
  "check_caps impl name inst [] = Returns []"
| "check_caps impl name inst (cap # caps) =
     (case capabilityIface cap of
        None \<Rightarrow>
          (case check_caps impl name inst caps of
             Panics m \<Rightarrow> Panics m
           | Returns ps \<Rightarrow> Returns (UnknownCapability name cap # ps))
      | Some iface \<Rightarrow>
          (case inst of
             None \<Rightarrow> Panics nil_type_panic
           | Some p \<Rightarrow>
               (case check_caps impl name inst caps of
                  Panics m \<Rightarrow> Panics m
                | Returns ps \<Rightarrow> Returns ((if impl p iface then [] else [NotImplemented name cap]) @ ps))))"

definition probe_factory ::
    "('p \<Rightarrow> capability_iface \<Rightarrow> bool) \<Rightarrow> string \<Rightarrow> 'p captcha_factory \<Rightarrow> problem list run" where
  "probe_factory impl name f =
     (case cf_New f (zero_config name) of
        Inl e \<Rightarrow> Returns [NewFailed name e]
      | Inr inst \<Rightarrow> check_caps impl name inst (cf_Capabilities f))"

text \<open>The callback keeps the problems so far, or the panic that ends the whole call.\<close>

definition probe_step ::
    "('p \<Rightarrow> capability_iface \<Rightarrow> bool) \<Rightarrow> string \<Rightarrow> 'p captcha_factory \<Rightarrow> problem list run \<Rightarrow>
     bool \<times> problem list run" where
  "probe_step impl name f acc =
     (case acc of
        Panics m \<Rightarrow> (False, Panics m)
      | Returns problems \<Rightarrow>
          (case probe_factory impl name f of
             Panics m \<Rightarrow> (False, Panics m)
           | Returns ps \<Rightarrow> (True, Returns (problems @ ps))))"

definition Captcha_Validate ::
    "('p \<Rightarrow> capability_iface \<Rightarrow> bool) \<Rightarrow> 'p captcha_factory map_order \<Rightarrow> 'p captcha_registry \<Rightarrow>
     problem list run" where
  "Captcha_Validate impl ord r = Range ord r (probe_step impl) (Returns [])"

text \<open>The factories that the packages \<^verbatim>\<open>standard\<close> and \<^verbatim>\<open>china\<close> register from their \<^verbatim>\<open>init\<close> functions.\<close>

definition compiled_in :: "captcha_provider captcha_factory list" where
  "compiled_in = [GeetestFactory, RecaptchaFactory, TurnstileFactory]"

definition captcha_DefaultRegistry :: "captcha_provider captcha_registry run" where
  "captcha_DefaultRegistry = register_all cf_Name compiled_in NewRegistry"

subsection \<open>Correctness\<close>

interpretation captcha_listing: method_listing captcha_rows cm_Name cm_Name
  by unfold_locales (auto simp: captcha_rows_def)

lemma Captcha_Methods_listing: "Captcha_Methods = captcha_listing.listing"
  by (simp add: fun_eq_iff Captcha_Methods_def captcha_listing.listing_def)

text \<open>The seven fields of a GeeTest form, as the receiver reads them.\<close>

lemma geetest_form_fields:
  "map_of (geetest_form env p r) =
     [''captcha_id'' \<mapsto> gp_captchaID p, ''lot_number'' \<mapsto> LotNumber r, ''pass_token'' \<mapsto> PassToken r,
      ''gen_time'' \<mapsto> GenTime r, ''captcha_output'' \<mapsto> CaptchaOutput r,
      ''sign_token'' \<mapsto> hmacHex env (gp_privateKey p) (LotNumber r), ''sdk'' \<mapsto> geetestSDK]"
  by (rule ext) (simp add: geetest_form_def form_set_def)

lemma siteverify_form_fields:
  "map_of (siteverify_form secret token ip) =
     [''secret'' \<mapsto> secret, ''response'' \<mapsto> token] ++ (if ip = '''' then Map.empty else [''remoteip'' \<mapsto> ip])"
  by (rule ext) (simp add: siteverify_form_def form_set_def Let_def)

lemma postSiteverify_True:
  "postSiteverify env c u secret token ip = Inr b \<longleftrightarrow>
     b \<and> bad_request env u = None \<and>
     (\<exists>a out. http_do env (client_or_default c) (form_post u (siteverify_form secret token ip)) = Inr a \<and>
        ha_status a = 200 \<and> siteverify_json env a = Inr out \<and> sv_Success out)"
  by (auto simp: postSiteverify_def split: option.splits sum.splits)

lemma Geetest_Verify_True:
  "Geetest_Verify env p token ip = Inr True \<longleftrightarrow>
     (\<exists>r a. token \<noteq> '''' \<and> token_json env token = Inr r \<and>
        LotNumber r \<noteq> '''' \<and> CaptchaOutput r \<noteq> '''' \<and> PassToken r \<noteq> '''' \<and> GenTime r \<noteq> '''' \<and>
        bad_request env (hostOrDefault p @ ''/validate'') = None \<and>
        http_do env (client_or_default (gp_client p))
          (form_post (hostOrDefault p @ ''/validate'') (geetest_form env p r)) = Inr a \<and>
        ha_read a = None \<and> ha_status a = 200 \<and>
        validate_json env (ha_body a) = Inr (''success'', ''success''))"
  by (auto simp: Geetest_Verify_def Geetest_Validate_def geetest_post_def geetest_do_def
      split: option.splits sum.splits if_splits prod.splits)

text \<open>
  \<open>answered env c u fs P\<close>: the service at \<open>u\<close> was sent a form whose fields are \<open>fs\<close> and
  answered 200 with a body that satisfies \<open>P\<close>.
\<close>

definition answered ::
    "('e) captcha_env_scheme \<Rightarrow> plugin_client option \<Rightarrow> string \<Rightarrow> (string \<Rightarrow> string option) \<Rightarrow>
     (http_answer \<Rightarrow> bool) \<Rightarrow> bool" where
  "answered env c u fs P \<longleftrightarrow>
     (\<exists>form a. map_of form = fs \<and> bad_request env u = None \<and>
        http_do env (client_or_default c) (form_post u form) = Inr a \<and> ha_status a = 200 \<and> P a)"

definition siteverify_fields :: "string \<Rightarrow> string \<Rightarrow> string \<Rightarrow> string \<Rightarrow> string option" where
  "siteverify_fields secret token ip =
     [''secret'' \<mapsto> secret, ''response'' \<mapsto> token] ++ (if ip = '''' then Map.empty else [''remoteip'' \<mapsto> ip])"

definition geetest_fields ::
    "('e) captcha_env_scheme \<Rightarrow> geetest_provider \<Rightarrow> geetest_result \<Rightarrow> string \<Rightarrow> string option" where
  "geetest_fields env p r =
     [''captcha_id'' \<mapsto> gp_captchaID p, ''lot_number'' \<mapsto> LotNumber r, ''pass_token'' \<mapsto> PassToken r,
      ''gen_time'' \<mapsto> GenTime r, ''captcha_output'' \<mapsto> CaptchaOutput r,
      ''sign_token'' \<mapsto> hmacHex env (gp_privateKey p) (LotNumber r), ''sdk'' \<mapsto> geetestSDK]"

lemma postSiteverify_answered:
  assumes "postSiteverify env c u secret token ip = Inr b"
  shows "b \<and> answered env c u (siteverify_fields secret token ip)
           (\<lambda>a. \<exists>out. siteverify_json env a = Inr out \<and> sv_Success out)"
  using assms siteverify_form_fields [of secret token ip]
  unfolding postSiteverify_True answered_def siteverify_fields_def by blast

lemma Geetest_answered:
  assumes "Geetest_Verify env p token ip = Inr True"
  shows "\<exists>r. token_json env token = Inr r \<and> LotNumber r \<noteq> '''' \<and>
           answered env (gp_client p) (hostOrDefault p @ ''/validate'') (geetest_fields env p r)
             (\<lambda>a. validate_json env (ha_body a) = Inr (''success'', ''success''))"
  using assms geetest_form_fields [of env p] unfolding Geetest_Verify_True answered_def geetest_fields_def
  by blast

fun service_passed :: "('e) captcha_env_scheme \<Rightarrow> captcha_provider \<Rightarrow> string \<Rightarrow> string \<Rightarrow> bool" where
  "service_passed env (GeetestProvider g) token ip =
     (\<exists>r. token_json env token = Inr r \<and> LotNumber r \<noteq> '''' \<and>
        answered env (gp_client g) (hostOrDefault g @ ''/validate'') (geetest_fields env g r)
          (\<lambda>a. validate_json env (ha_body a) = Inr (''success'', ''success'')))"
| "service_passed env (RecaptchaProvider q) token ip =
     answered env (rp_client q) (rp_endpoint q) (siteverify_fields (rp_secret q) token ip)
       (\<lambda>a. \<exists>out. siteverify_json env a = Inr out \<and> sv_Success out)"
| "service_passed env (TurnstileProvider t) token ip =
     answered env (tp_client t) turnstileSiteverify (siteverify_fields (tp_secret t) token ip)
       (\<lambda>a. \<exists>out. siteverify_json env a = Inr out \<and> sv_Success out)"

text \<open>C35. A captcha provider lets a token pass only when its service, asked with this token (GeeTest: with
  the solved result in it, signed by the private key), answered 200 and said success; the empty
  token never passes and is never sent. The two siteverify providers never answer \<^verbatim>\<open>false\<close> without
  an error, GeeTest does whenever its service does not answer 200.\<close>

theorem captcha_pass_is_a_service_answer:
  assumes "Verify env p token ip = Inr b"
  shows "token \<noteq> '''' \<and> (if b then service_passed env p token ip else \<exists>g. p = GeetestProvider g)"
proof -
  have t: "token \<noteq> ''''"
    using assms by (cases p) (auto simp: Geetest_Verify_def Recaptcha_Verify_def Turnstile_Verify_def)
  show ?thesis
  proof (cases p)
    case (GeetestProvider g)
    then show ?thesis using t Geetest_answered [of env g token ip] assms by (cases b) simp_all
  next
    case (RecaptchaProvider q)
    then have "postSiteverify env (rp_client q) (rp_endpoint q) (rp_secret q) token ip = Inr b"
      using t assms by (simp add: Recaptcha_Verify_def)
    then show ?thesis using t RecaptchaProvider postSiteverify_answered by fastforce
  next
    case (TurnstileProvider q)
    then have "postSiteverify env (tp_client q) turnstileSiteverify (tp_secret q) token ip = Inr b"
      using t assms by (simp add: Turnstile_Verify_def)
    then show ?thesis using t TurnstileProvider postSiteverify_answered by fastforce
  qed
qed

text \<open>A Turnstile provider as the factory makes it, and a service that answers success.\<close>

definition demo_captcha_env :: captcha_env where
  "demo_captcha_env =
     \<lparr>bad_request = (\<lambda>u. None),
      http_do = (\<lambda>c req. Inr \<lparr>ha_status = 200, ha_body = hc_body req, ha_read = None\<rparr>),
      token_json = (\<lambda>b. Inl ''syntax error''), validate_json = (\<lambda>b. Inl ''syntax error''),
      siteverify_json = (\<lambda>a. Inr \<lparr>sv_Success = Contains (ha_body a) ''response=good'',
        sv_ChallengeTS = '''', sv_Hostname = '''', sv_ErrorCodes = [''invalid-input-response'']\<rparr>),
      hmac_sha256 = (\<lambda>k m. k @ m)\<rparr>"

definition demo_turnstile :: captcha_provider where
  "demo_turnstile = TurnstileProvider (TurnstileFactory_New (zero_config ''turnstile''))"

theorem captcha_pass_is_a_service_answer_witness:
  "Verify demo_captcha_env demo_turnstile ''good'' '''' = Inr True \<and>
   service_passed demo_captcha_env demo_turnstile ''good'' '''' \<and>
   Verify demo_captcha_env demo_turnstile ''bad'' '''' = Inl (ChallengeFailed ''invalid-input-response'')"
proof -
  have 1: "Verify demo_captcha_env demo_turnstile ''good'' '''' = Inr True" by code_simp
  have 2: "Verify demo_captcha_env demo_turnstile ''bad'' '''' = Inl (ChallengeFailed ''invalid-input-response'')"
    by code_simp
  from captcha_pass_is_a_service_answer [OF 1] 1 2 show ?thesis by simp
qed

lemma probe_compiled_in: "f \<in> set compiled_in \<Longrightarrow> probe_factory implements n f = Returns []"
  by (auto simp: compiled_in_def GeetestFactory_def RecaptchaFactory_def TurnstileFactory_def
      probe_factory_def capabilityIface_def CapVerifier_def CapPublicConfig_def)

lemma range_probe:
  "list_all (\<lambda>(n, f). probe_factory impl n f = Returns []) es \<Longrightarrow>
   range_entries (probe_step impl) es (Returns ps) = Returns ps"
  by (induction es) (auto simp: probe_step_def)

lemma default_captcha_registry:
  "captcha_DefaultRegistry = Returns (map (\<lambda>f. (cf_Name f, f)) compiled_in)"
  unfolding captcha_DefaultRegistry_def register_all_new
  by (simp add: compiled_in_def GeetestFactory_def RecaptchaFactory_def TurnstileFactory_def
      GeetestKey_def RecaptchaKey_def TurnstileKey_def)

text \<open>The three captcha factories register without a clash, \<^verbatim>\<open>Validate\<close> finds no problem with
  them and \<^verbatim>\<open>Methods\<close> lists them by name, whatever the order in which the registry map is
  visited; \<^verbatim>\<open>New\<close> gives, for each of the three names, a provider of that name.\<close>

theorem captcha_registry_is_wired:
  assumes "key_order ord"
  shows "\<exists>r. captcha_DefaultRegistry = Returns r \<and>
           Captcha_Validate implements ord r = Returns [] \<and>
           map cm_Name (Captcha_Methods ord r) = [''geetest'', ''recaptcha'', ''turnstile''] \<and>
           (\<forall>cfg. case Captcha_New r cfg of
              Inl e \<Rightarrow> cc_Name cfg \<notin> {''geetest'', ''recaptcha'', ''turnstile''}
            | Inr p \<Rightarrow> map_option provider_Name p = Some (cc_Name cfg))"
proof -
  let ?r = "map (\<lambda>f. (cf_Name f, f)) compiled_in"
  have "list_all (\<lambda>(n, f). probe_factory implements n f = Returns []) (ord ?r)"
    using assms probe_compiled_in by (auto simp: list_all_iff)
  then have v: "Captcha_Validate implements ord ?r = Returns []"
    by (simp add: Captcha_Validate_def Range_def range_probe)
  have d: "distinct (map fst ?r)"
    by (simp add: compiled_in_def GeetestFactory_def RecaptchaFactory_def TurnstileFactory_def
        GeetestKey_def RecaptchaKey_def TurnstileKey_def)
  have e: "Captcha_Methods ord ?r = Captcha_Methods (\<lambda>es. es) ?r"
    unfolding Captcha_Methods_listing by (rule captcha_listing.listing_order_independent [OF assms d])
  have c: "map cm_Name (Captcha_Methods (\<lambda>es. es) ?r) = [''geetest'', ''recaptcha'', ''turnstile'']"
    by code_simp
  have m: "map cm_Name (Captcha_Methods ord ?r) = [''geetest'', ''recaptcha'', ''turnstile'']"
    by (simp only: e c)
  have "\<forall>cfg. case Captcha_New ?r cfg of
              Inl e \<Rightarrow> cc_Name cfg \<notin> {''geetest'', ''recaptcha'', ''turnstile''}
            | Inr p \<Rightarrow> map_option provider_Name p = Some (cc_Name cfg)"
    by (simp add: Captcha_New_def Registry_Get_def compiled_in_def GeetestFactory_def RecaptchaFactory_def
        TurnstileFactory_def GeetestKey_def RecaptchaKey_def TurnstileKey_def)
  then show ?thesis by (intro exI conjI) (rule default_captcha_registry v m | assumption)+
qed

theorem captcha_registry_is_wired_witness:
  "\<exists>r. captcha_DefaultRegistry = Returns r \<and> Captcha_Validate implements rev r = Returns [] \<and>
     map cm_Name (Captcha_Methods rev r) = [''geetest'', ''recaptcha'', ''turnstile'']"
proof -
  obtain r where "captcha_DefaultRegistry = Returns r" "Captcha_Validate implements rev r = Returns []"
    "map cm_Name (Captcha_Methods rev r) = [''geetest'', ''recaptcha'', ''turnstile'']"
    using captcha_registry_is_wired [OF key_order_rev] by (elim exE conjE)
  then show ?thesis by (intro exI conjI)
qed

end
