(* ===== verification/IdentityPlugin.thy ===== *)
theory IdentityPlugin
  imports PluginSdk KexCrypto
begin

text \<open>
  The local identity plugins (\<^verbatim>\<open>plugin/identity\<close>): the registry with its capability-aware
  lookups, the factories, and the password provider. The WebAuthn and QR-code providers are
  used by the factories but their types are not in the repository, so the three facets are type
  parameters. A facet is an interface value: \<open>None\<close> is the nil interface, \<open>Some None\<close> an
  interface that holds a nil pointer.
\<close>

subsection \<open>The password provider\<close>

record identity =
  id_UserID :: string
  id_Provider :: string
  id_Metadata :: "(string \<times> string) list"

datatype identity_error = ErrInvalidCredentials | ErrMissingCredentials | HashError argon_error

datatype password_provider = PasswordProvider

type_synonym credentials = "string \<Rightarrow> string option"

text \<open>The receiver may be a nil pointer; neither method reads it.\<close>

definition Password_Name :: "password_provider option \<Rightarrow> string" where
  "Password_Name p = ''password''"

definition Authenticate ::
    "id_key \<Rightarrow> password_provider option \<Rightarrow> credentials \<Rightarrow> (identity_error + identity) run" where
  "Authenticate K p credentials =
     (case credentials ''password_hash'' of
        None \<Rightarrow> Returns (Inl ErrMissingCredentials)
      | Some passwordHash \<Rightarrow>
     (case credentials ''password'' of
        None \<Rightarrow> Returns (Inl ErrMissingCredentials)
      | Some password \<Rightarrow>
     (case credentials ''user_id'' of
        None \<Rightarrow> Returns (Inl ErrMissingCredentials)
      | Some userID \<Rightarrow>
     (case Argon2idVerify K password passwordHash of
        Panics m \<Rightarrow> Panics m
      | Returns (Inl err) \<Rightarrow> Returns (Inl (HashError err))
      | Returns (Inr match) \<Rightarrow>
          if \<not> match then Returns (Inl ErrInvalidCredentials)
          else Returns (Inr \<lparr>id_UserID = userID, id_Provider = Password_Name p, id_Metadata = []\<rparr>)))))"

subsection \<open>Factories\<close>

record ('a, 'c, 'd) identity_factory =
  if_Name :: string
  if_Capabilities :: "string list"
  if_New :: "'a option \<times> 'c option \<times> 'd option \<times> string option"

type_synonym ('w, 'q) platform_factory =
  "(password_provider option, 'w option, 'q option) identity_factory"

definition NewPasswordFactory :: "password_provider option \<Rightarrow> ('w, 'q) platform_factory" where
  "NewPasswordFactory p =
     \<lparr>if_Name = ''password'', if_Capabilities = [''authenticator''], if_New = (Some p, None, None, None)\<rparr>"

definition NewWebAuthnFactory :: "'w option \<Rightarrow> ('w, 'q) platform_factory" where
  "NewWebAuthnFactory p =
     \<lparr>if_Name = ''webauthn'', if_Capabilities = [''challenge''], if_New = (None, Some p, None, None)\<rparr>"

definition NewQRCodeFactory :: "'q option \<Rightarrow> ('w, 'q) platform_factory" where
  "NewQRCodeFactory p =
     \<lparr>if_Name = ''qrcode'', if_Capabilities = [''delegated''], if_New = (None, None, Some p, None)\<rparr>"

subsection \<open>The registry\<close>

type_synonym ('a, 'c, 'd) identity_registry = "('a, 'c, 'd) identity_factory registry"

definition GetAuthenticator :: "('a, 'c, 'd) identity_registry \<Rightarrow> string \<Rightarrow> 'a option" where
  "GetAuthenticator r name =
     (case Registry_Get r name of None \<Rightarrow> None | Some f \<Rightarrow> (case if_New f of (a, _, _, _) \<Rightarrow> a))"

definition GetChallenger :: "('a, 'c, 'd) identity_registry \<Rightarrow> string \<Rightarrow> 'c option" where
  "GetChallenger r name =
     (case Registry_Get r name of None \<Rightarrow> None | Some f \<Rightarrow> (case if_New f of (_, c, _, _) \<Rightarrow> c))"

definition GetDelegator :: "('a, 'c, 'd) identity_registry \<Rightarrow> string \<Rightarrow> 'd option" where
  "GetDelegator r name =
     (case Registry_Get r name of None \<Rightarrow> None | Some f \<Rightarrow> (case if_New f of (_, _, d, _) \<Rightarrow> d))"

record identity_method =
  im_Name :: string
  im_Type :: string

definition identity_rows :: "string \<Rightarrow> ('a, 'c, 'd) identity_factory \<Rightarrow> identity_method list" where
  "identity_rows name f = map (\<lambda>cap. \<lparr>im_Name = name, im_Type = cap\<rparr>) (if_Capabilities f)"

definition name_then_type :: "identity_method \<Rightarrow> string \<times> string" where
  "name_then_type m = (im_Name m, im_Type m)"

definition Identity_Methods ::
    "('a, 'c, 'd) identity_factory map_order \<Rightarrow> ('a, 'c, 'd) identity_registry \<Rightarrow> identity_method list" where
  "Identity_Methods ord r =
     sort_key name_then_type (Range ord r (\<lambda>name f out. (True, out @ identity_rows name f)) [])"

subsection \<open>Correctness\<close>

interpretation identity_listing: method_listing identity_rows name_then_type im_Name
  by unfold_locales (auto simp: identity_rows_def name_then_type_def)

lemma Identity_Methods_listing: "Identity_Methods = identity_listing.listing"
  by (simp add: fun_eq_iff Identity_Methods_def identity_listing.listing_def)

text \<open>The password provider, given a hash that \<^verbatim>\<open>Argon2idHash\<close> made of a password, authenticates
  the claimed user exactly for passwords that derive the stored key, the original one among
  them, and rejects all others as invalid credentials; without one of the three credentials it
  reports them missing.\<close>

theorem password_login_exact:
  assumes "\<And>pw salt m t p n. length (K pw salt m t p n) = unat n"
    and "Argon2idHash K pw p e = (Returns (Inr h), e')"
  shows "\<exists>same_key. same_key pw \<and>
    (\<forall>c pw' uid. c ''password_hash'' = Some h \<longrightarrow> c ''password'' = Some pw' \<longrightarrow> c ''user_id'' = Some uid \<longrightarrow>
       Authenticate K prov c = Returns (if same_key pw'
         then Inr \<lparr>id_UserID = uid, id_Provider = ''password'', id_Metadata = []\<rparr>
         else Inl ErrInvalidCredentials)) \<and>
    (\<forall>c. list_ex (\<lambda>k. c k = None) [''password_hash'', ''password'', ''user_id''] \<longrightarrow>
       Authenticate K prov c = Returns (Inl ErrMissingCredentials))"
proof -
  obtain salt where v: "\<And>pw'. Argon2idVerify K pw' h = Returns (Inr (
       K pw' salt (ar_Iterations p) (ar_Memory p) (ar_Parallelism p) (ar_KeyLength p) =
       K pw salt (ar_Iterations p) (ar_Memory p) (ar_Parallelism p) (ar_KeyLength p)))"
    using argon2_hash_verifies [OF assms] by blast
  show ?thesis
    by (rule exI [of _ "\<lambda>pw'. K pw' salt (ar_Iterations p) (ar_Memory p) (ar_Parallelism p) (ar_KeyLength p) =
         K pw salt (ar_Iterations p) (ar_Memory p) (ar_Parallelism p) (ar_KeyLength p)"])
      (auto simp: Authenticate_def v Password_Name_def split: option.splits)
qed

definition demo_credentials :: "string \<Rightarrow> string \<Rightarrow> credentials" where
  "demo_credentials h pw = [''password_hash'' \<mapsto> h, ''password'' \<mapsto> pw, ''user_id'' \<mapsto> ''u1'']"

theorem password_login_exact_witness:
  "\<exists>h. fst (Argon2idHash toy_id_key ''abc'' toy_params (\<lambda>n. Some 65)) = Returns (Inr h) \<and>
     Authenticate toy_id_key None (demo_credentials h ''abc'') =
       Returns (Inr \<lparr>id_UserID = ''u1'', id_Provider = ''password'', id_Metadata = []\<rparr>)"
proof -
  let ?e = "\<lambda>n. Some 65 :: nat option"
  let ?h = "''$argon2id$v=19$m=8,t=1,p=1$QUE$YWJjQUE''"
  have h: "fst (Argon2idHash toy_id_key ''abc'' toy_params ?e) = Returns (Inr ?h)" by code_simp
  obtain e' where run: "Argon2idHash toy_id_key ''abc'' toy_params ?e = (Returns (Inr ?h), e')"
    using h by (cases "Argon2idHash toy_id_key ''abc'' toy_params ?e") simp
  have len: "length (toy_id_key pw salt m t p n) = unat n" for pw salt m t p n
    by (simp add: toy_id_key_def)
  have c: "demo_credentials ?h ''abc'' ''password_hash'' = Some ?h"
    "demo_credentials ?h ''abc'' ''password'' = Some ''abc''"
    "demo_credentials ?h ''abc'' ''user_id'' = Some ''u1''"
    by (simp_all add: demo_credentials_def)
  obtain same_key where s: "same_key ''abc''" and a: "\<forall>c pw' uid. c ''password_hash'' = Some ?h \<longrightarrow>
      c ''password'' = Some pw' \<longrightarrow> c ''user_id'' = Some uid \<longrightarrow>
      Authenticate toy_id_key None c = Returns (if same_key pw'
         then Inr \<lparr>id_UserID = uid, id_Provider = ''password'', id_Metadata = []\<rparr>
         else Inl ErrInvalidCredentials)"
    using password_login_exact [OF len run, of None] by (elim exE conjE)
  have "Authenticate toy_id_key None (demo_credentials ?h ''abc'') =
      Returns (Inr \<lparr>id_UserID = ''u1'', id_Provider = ''password'', id_Metadata = []\<rparr>)"
    using a [rule_format, OF c] s by (simp only: if_True)
  with h show ?thesis by (intro exI conjI)
qed
text \<open>
  The lookups hand out the facet of the registered factory, and only that one. A factory made
  around a nil provider still gives a facet: the nil tests of the lookups do not see it.
\<close>

lemma identity_lookups:
  assumes "register_all if_Name [NewPasswordFactory p, NewWebAuthnFactory w, NewQRCodeFactory q] NewRegistry
             = Returns r"
  shows "GetAuthenticator r n = (if n = ''password'' then Some p else None)"
    "GetChallenger r n = (if n = ''webauthn'' then Some w else None)"
    "GetDelegator r n = (if n = ''qrcode'' then Some q else None)"
  using assms
  by (auto simp: register_all_new NewPasswordFactory_def NewWebAuthnFactory_def NewQRCodeFactory_def
      GetAuthenticator_def GetChallenger_def GetDelegator_def Registry_Get_def split: if_splits)

lemma identity_methods_sorted:
  assumes "key_order ord"
    and "register_all if_Name [NewPasswordFactory p, NewWebAuthnFactory w, NewQRCodeFactory q] NewRegistry
             = Returns r"
  shows "map name_then_type (Identity_Methods ord r) =
    [(''password'', ''authenticator''), (''qrcode'', ''delegated''), (''webauthn'', ''challenge'')]"
proof -
  have r: "r = [(''password'', NewPasswordFactory p), (''webauthn'', NewWebAuthnFactory w),
      (''qrcode'', NewQRCodeFactory q)]"
    using assms(2) by (auto simp: register_all_new NewPasswordFactory_def NewWebAuthnFactory_def
        NewQRCodeFactory_def split: if_splits)
  have e: "Identity_Methods ord r = Identity_Methods (\<lambda>es. es) r"
    unfolding Identity_Methods_listing
    by (rule identity_listing.listing_order_independent [OF assms(1)]) (simp add: r)
  have s: "sort_key name_then_type (Range (\<lambda>es. es) r (\<lambda>name f out. (True, out @ identity_rows name f)) []) =
    [\<lparr>im_Name = ''password'', im_Type = ''authenticator''\<rparr>, \<lparr>im_Name = ''qrcode'', im_Type = ''delegated''\<rparr>,
     \<lparr>im_Name = ''webauthn'', im_Type = ''challenge''\<rparr>]"
    unfolding r by code_simp
  show ?thesis by (subst e) (simp only: Identity_Methods_def s, simp add: name_then_type_def)
qed

end
