(* ===== verification/Sso.thy ===== *)
theory Sso
  imports PluginSdk
begin

text \<open>
  The contract of the third-party identity providers (\<^verbatim>\<open>plugin/sso\<close>): configurations, assertions,
  sentinel errors and the provider registry, and the GitHub provider. The network, the JSON
  decoder at its two types and the \<^verbatim>\<open>golang.org/x/oauth2\<close> module are parameters.
\<close>

subsection \<open>Types\<close>

datatype json = JNull | JBool bool | JNum string | JStr string | JArr "json list" | JObj "(string \<times> json) list"

datatype sso_sentinel =
    ErrTicketNotFound | ErrTicketExpired | ErrTicketConflict | ErrTicketAlreadyScanned
  | ErrStateNotFound | ErrExchangeFailed | ErrProviderUnavailable

text \<open>\<open>SsoError m\<close> is a plain error, \<open>SsoWrapped m s\<close> one that wraps the sentinel \<open>s\<close>; the detail of
  the underlying error in the message is left out.\<close>

datatype sso_error = SsoError string | SsoWrapped string sso_sentinel

definition error_is :: "sso_error \<Rightarrow> sso_sentinel \<Rightarrow> bool" where
  "error_is e s = (case e of SsoError _ \<Rightarrow> False | SsoWrapped _ s' \<Rightarrow> s = s')"

datatype Flow = FlowRedirect | FlowQR

type_synonym LinkMode = string

definition LinkModeCreate :: LinkMode where "LinkModeCreate = ''create''"
definition LinkModeBindOnly :: LinkMode where "LinkModeBindOnly = ''bind_only''"

record sso_config =
  sc_TenantID :: string
  sc_Name :: string
  sc_ClientID :: string
  sc_ClientSecret :: string
  sc_RedirectURL :: string
  sc_LinkMode :: LinkMode
  sc_Scopes :: "string list"
  sc_Extra :: "string \<Rightarrow> string option"

text \<open>\<^verbatim>\<open>cfg.Extra[k]\<close>: a missing key reads as the empty text.\<close>

definition sso_extra :: "sso_config \<Rightarrow> string \<Rightarrow> string" where
  "sso_extra cfg k = (case sc_Extra cfg k of None \<Rightarrow> '''' | Some v \<Rightarrow> v)"

type_synonym claims_map = "string \<Rightarrow> json option"

record assertion =
  as_Provider :: string
  as_Subject :: string
  as_UnionID :: string
  as_Username :: string
  as_DisplayName :: string
  as_Email :: string
  as_EmailVerified :: bool
  as_Phone :: string
  as_CountryCode :: string
  as_AvatarURL :: string
  as_Raw :: claims_map

subsection \<open>The registry\<close>

record 'p sso_factory =
  sf_Name :: string
  sf_Flow :: Flow
  sf_New :: "sso_config \<Rightarrow> sso_error + 'p"

type_synonym 'p sso_registry = "'p sso_factory registry"

definition Sso_Register :: "'p sso_registry \<Rightarrow> 'p sso_factory \<Rightarrow> 'p sso_registry run" where
  "Sso_Register r f = Register sf_Name r f"

definition Sso_New :: "'p sso_registry \<Rightarrow> sso_config \<Rightarrow> sso_error + 'p" where
  "Sso_New r cfg =
     (if sc_Name cfg = '''' then Inl (SsoError ''sso: ProviderConfig.Name is empty'')
      else if sc_TenantID cfg = '''' then Inl (SsoError ''sso: ProviderConfig.TenantID is empty'')
      else case Registry_Get r (sc_Name cfg) of
          None \<Rightarrow> Inl (SsoError ''sso: unknown provider'')
        | Some f \<Rightarrow> sf_New f cfg)"

definition Sso_Has :: "'p sso_registry \<Rightarrow> string \<Rightarrow> bool" where
  "Sso_Has r name = Registry_Has r name"

record sso_method =
  sm_Name :: string
  sm_Flow :: string

definition sso_rows :: "string \<Rightarrow> 'p sso_factory \<Rightarrow> sso_method list" where
  "sso_rows name f = [\<lparr>sm_Name = name, sm_Flow = (if sf_Flow f = FlowQR then ''qr'' else ''redirect'')\<rparr>]"

definition Sso_Methods :: "'p sso_factory map_order \<Rightarrow> 'p sso_registry \<Rightarrow> sso_method list" where
  "Sso_Methods ord r = sort_key sm_Name (Range ord r (\<lambda>name f out. (True, out @ sso_rows name f)) [])"

interpretation sso_listing: method_listing sso_rows sm_Name sm_Name
  by unfold_locales (auto simp: sso_rows_def)

lemma Sso_Methods_listing: "Sso_Methods = sso_listing.listing"
  by (simp add: fun_eq_iff Sso_Methods_def sso_listing.listing_def)

subsection \<open>OAuth2\<close>

record oauth2_config =
  oc_ClientID :: string
  oc_ClientSecret :: string
  oc_RedirectURL :: string
  oc_Scopes :: "string list"
  oc_AuthURL :: string
  oc_TokenURL :: string

text \<open>A token: the access token and the entry \<open>id_token\<close> of the token response.\<close>

record oauth2_token =
  ot_AccessToken :: string
  ot_IDToken :: "json option"

definition AccessTypeOnline :: string where "AccessTypeOnline = ''online''"
definition AccessTypeOffline :: string where "AccessTypeOffline = ''offline''"

text \<open>
  The module: \<open>oa_AuthCodeURL\<close>, \<open>oa_Exchange\<close> (\<open>None\<close> is an error), and the bearer token that a
  token source hands out.
\<close>

record oauth2 =
  oa_AuthCodeURL :: "oauth2_config \<Rightarrow> string \<Rightarrow> string \<Rightarrow> string"
  oa_Exchange :: "oauth2_config \<Rightarrow> string \<Rightarrow> oauth2_token option"
  oa_TokenSource :: "oauth2_config \<Rightarrow> oauth2_token \<Rightarrow> string"

text \<open>A GET request; \<open>None\<close> when the request cannot be built or sent.\<close>

definition http_get ::
    "('e) http_env_scheme \<Rightarrow> plugin_client \<Rightarrow> (string \<times> string) list \<Rightarrow> string \<Rightarrow> http_answer option" where
  "http_get env c headers u =
     (case bad_request env u of
        Some _ \<Rightarrow> None
      | None \<Rightarrow>
         (case http_do env c \<lparr>hc_method = ''GET'', hc_url = u, hc_headers = headers, hc_body = ''''\<rparr> of
            Inl _ \<Rightarrow> None
          | Inr a \<Rightarrow> Some a))"

subsection \<open>GitHub\<close>

record github_user =
  gh_Login :: string
  gh_ID :: int
  gh_NodeID :: string
  gh_AvatarURL :: string
  gh_HTMLURL :: string
  gh_Name :: string
  gh_Company :: string
  gh_Location :: string
  gh_Email :: string
  gh_Bio :: string
  gh_PublicRepos :: int
  gh_Followers :: int
  gh_Following :: int
  gh_CreatedAt :: string
  gh_UpdatedAt :: string

record github_email =
  ge_Email :: string
  ge_Primary :: bool
  ge_Verified :: bool
  ge_Visibility :: string

record github_env = http_env +
  gh_oauth2 :: oauth2
  user_json :: "http_answer \<Rightarrow> string + github_user"
  emails_json :: "http_answer \<Rightarrow> string + github_email list"

definition githubAPIBase :: string where "githubAPIBase = ''https://api.github.com''"

record github_provider =
  ghp_config :: oauth2_config
  ghp_apiBase :: string

definition or_default :: "string \<Rightarrow> string \<Rightarrow> string" where
  "or_default v d = (if v = '''' then d else v)"

definition githubFactory_New :: "sso_config \<Rightarrow> sso_error + github_provider" where
  "githubFactory_New cfg =
     (if sc_ClientID cfg = '''' \<or> sc_ClientSecret cfg = ''''
      then Inl (SsoError ''sso/github: ClientID and ClientSecret are required'')
      else
        (let scopes = (if sc_Scopes cfg = [] then [''user:email'', ''read:user''] else sc_Scopes cfg);
             authURL = or_default (sso_extra cfg ''github_auth_url'') ''https://github.com/login/oauth/authorize'';
             tokenURL = or_default (sso_extra cfg ''github_token_url'')
               ''https://github.com/login/oauth/access_token'';
             apiBase = or_default (sso_extra cfg ''github_api_base'') githubAPIBase
         in Inr \<lparr>ghp_config = \<lparr>oc_ClientID = sc_ClientID cfg, oc_ClientSecret = sc_ClientSecret cfg,
                   oc_RedirectURL = sc_RedirectURL cfg, oc_Scopes = scopes, oc_AuthURL = authURL,
                   oc_TokenURL = tokenURL\<rparr>,
                 ghp_apiBase = apiBase\<rparr>))"

definition Github_BeginAuth ::
    "('e) github_env_scheme \<Rightarrow> github_provider \<Rightarrow> string \<Rightarrow> string \<Rightarrow> sso_error + string" where
  "Github_BeginAuth env p state pkceVerifier =
     Inr (oa_AuthCodeURL (gh_oauth2 env) (ghp_config p) state AccessTypeOnline)"

definition github_client :: "string \<Rightarrow> plugin_client" where
  "github_client bearer =
     \<lparr>cl_timeout = 10 * 1000000000, cl_transport = Some newSharedTransport, cl_bearer = Some bearer\<rparr>"

definition fetchGitHubUser ::
    "('e) github_env_scheme \<Rightarrow> github_provider \<Rightarrow> string \<Rightarrow> sso_error + github_user" where
  "fetchGitHubUser env p bearer =
     (case http_get env (github_client bearer) [] (ghp_apiBase p @ ''/user'') of
        None \<Rightarrow> Inl (SsoWrapped ''sso/github: fetch /user'' ErrProviderUnavailable)
      | Some resp \<Rightarrow>
          if ha_status resp \<noteq> 200 then Inl (SsoWrapped ''sso/github: /user returned'' ErrProviderUnavailable)
          else case user_json env resp of
              Inl _ \<Rightarrow> Inl (SsoWrapped ''sso/github: decode /user'' ErrProviderUnavailable)
            | Inr u \<Rightarrow> Inr u)"

text \<open>The two loops over the addresses: the primary verified one and the first verified one, up to
  the first primary verified one; and the first primary one.\<close>

fun verified_emails :: "github_email list \<Rightarrow> string \<Rightarrow> string \<Rightarrow> string \<times> string" where
  "verified_emails [] primaryVerified anyVerified = (primaryVerified, anyVerified)"
| "verified_emails (e # es) primaryVerified anyVerified =
     (if \<not> ge_Verified e then verified_emails es primaryVerified anyVerified
      else if ge_Primary e then (ge_Email e, anyVerified)
      else verified_emails es primaryVerified (if anyVerified = '''' then ge_Email e else anyVerified))"

fun primary_email :: "github_email list \<Rightarrow> string \<Rightarrow> string" where
  "primary_email [] anyPrimary = anyPrimary"
| "primary_email (e # es) anyPrimary =
     primary_email es (if ge_Primary e \<and> anyPrimary = '''' then ge_Email e else anyPrimary)"

definition pick_email :: "github_email list \<Rightarrow> string \<times> bool" where
  "pick_email emails =
     (case verified_emails emails '''' '''' of
        (primaryVerified, anyVerified) \<Rightarrow>
          if primaryVerified \<noteq> '''' then (primaryVerified, True)
          else if anyVerified \<noteq> '''' then (anyVerified, True)
          else (primary_email emails '''', False))"

definition fetchPrimaryEmail ::
    "('e) github_env_scheme \<Rightarrow> github_provider \<Rightarrow> string \<Rightarrow> sso_error + string \<times> bool" where
  "fetchPrimaryEmail env p bearer =
     (case http_get env (github_client bearer) [] (ghp_apiBase p @ ''/user/emails'') of
        None \<Rightarrow> Inl (SsoWrapped ''sso/github: fetch /user/emails'' ErrProviderUnavailable)
      | Some resp \<Rightarrow>
          if ha_status resp \<noteq> 200
          then Inl (SsoWrapped ''sso/github: /user/emails returned'' ErrProviderUnavailable)
          else case emails_json env resp of
              Inl _ \<Rightarrow> Inl (SsoWrapped ''sso/github: decode /user/emails'' ErrProviderUnavailable)
            | Inr emails \<Rightarrow> Inr (pick_email emails))"

text \<open>A number of \<^verbatim>\<open>Raw\<close> is a Go \<^verbatim>\<open>int\<close>; it is kept as its decimal text.\<close>

definition github_raw :: "github_user \<Rightarrow> claims_map" where
  "github_raw u =
     [''login'' \<mapsto> JStr (gh_Login u), ''id'' \<mapsto> JNum (FormatInt (gh_ID u)), ''node_id'' \<mapsto> JStr (gh_NodeID u),
      ''html_url'' \<mapsto> JStr (gh_HTMLURL u), ''company'' \<mapsto> JStr (gh_Company u),
      ''location'' \<mapsto> JStr (gh_Location u), ''bio'' \<mapsto> JStr (gh_Bio u),
      ''public_repos'' \<mapsto> JNum (FormatInt (gh_PublicRepos u)),
      ''followers'' \<mapsto> JNum (FormatInt (gh_Followers u)), ''following'' \<mapsto> JNum (FormatInt (gh_Following u)),
      ''created_at'' \<mapsto> JStr (gh_CreatedAt u), ''updated_at'' \<mapsto> JStr (gh_UpdatedAt u)]"

definition github_assertion :: "github_user \<Rightarrow> bool \<Rightarrow> assertion" where
  "github_assertion u emailVerified =
     \<lparr>as_Provider = ''github'', as_Subject = FormatInt (gh_ID u), as_UnionID = '''',
      as_Username = gh_Login u, as_DisplayName = gh_Name u, as_Email = gh_Email u,
      as_EmailVerified = emailVerified, as_Phone = '''', as_CountryCode = '''',
      as_AvatarURL = gh_AvatarURL u, as_Raw = github_raw u\<rparr>"

definition Github_CompleteAuth ::
    "('e) github_env_scheme \<Rightarrow> github_provider \<Rightarrow> string \<Rightarrow> string \<Rightarrow> sso_error + assertion" where
  "Github_CompleteAuth env p code pkceVerifier =
     (case oa_Exchange (gh_oauth2 env) (ghp_config p) code of
        None \<Rightarrow> Inl (SsoWrapped ''sso/github: exchange code'' ErrExchangeFailed)
      | Some token \<Rightarrow>
         (let src = oa_TokenSource (gh_oauth2 env) (ghp_config p) token in
          case fetchGitHubUser env p src of
            Inl e \<Rightarrow> Inl e
          | Inr ghUser \<Rightarrow>
              if gh_Email ghUser = ''''
              then (case fetchPrimaryEmail env p src of
                      Inl _ \<Rightarrow> Inr (github_assertion ghUser False)
                    | Inr (email, verified) \<Rightarrow>
                        Inr (github_assertion (ghUser\<lparr>gh_Email := email\<rparr>) verified))
              else Inr (github_assertion ghUser False)))"

subsection \<open>Which address GitHub's provider takes\<close>

lemma nat_digits_no_minus: "CHR ''-'' # s \<noteq> nat_digits n"
  using nat_digits_hd [of n] by (metis list.sel(1))

lemma FormatInt_inj: "FormatInt i = FormatInt j \<longleftrightarrow> i = j"
proof
  have d: "nat_digits m = nat_digits n \<Longrightarrow> m = n" for m n
    by (metis digits_val_nat_digits option.inject)
  assume "FormatInt i = FormatInt j"
  then show "i = j"
    using d [of "nat i" "nat j"] d [of "nat (- i)" "nat (- j)"] nat_digits_no_minus
    by (auto simp: FormatInt_def split: if_splits) metis+
qed simp

lemma verified_emails_spec:
  assumes "verified_emails es '''' av = (pv, av')"
  shows "(pv \<noteq> '''' \<longrightarrow> (\<exists>e\<in>set es. ge_Verified e \<and> ge_Primary e \<and> ge_Email e = pv)) \<and>
         (av' \<noteq> av \<longrightarrow> av = '''' \<and> (\<exists>e\<in>set es. ge_Verified e \<and> ge_Email e = av'))"
  using assms
proof (induction es arbitrary: av)
  case (Cons e es)
  then show ?case by (cases "ge_Verified e"; cases "ge_Primary e") (fastforce split: if_splits)+
qed simp

lemma verified_emails_primary:
  assumes "list_all (\<lambda>e. ge_Email e \<noteq> '''') es" "list_ex (\<lambda>e. ge_Verified e \<and> ge_Primary e) es"
  shows "fst (verified_emails es '''' av) \<noteq> ''''"
  using assms by (induction es arbitrary: av) auto

lemma verified_emails_any:
  assumes "list_all (\<lambda>e. ge_Email e \<noteq> '''') es" "list_ex ge_Verified es"
  shows "fst (verified_emails es '''' av) \<noteq> '''' \<or> snd (verified_emails es '''' av) \<noteq> ''''"
proof -
  have keep: "av \<noteq> '''' \<Longrightarrow> list_all (\<lambda>e. ge_Email e \<noteq> '''') es \<Longrightarrow> snd (verified_emails es '''' av) \<noteq> ''''"
    for av es by (induction es arbitrary: av) auto
  show ?thesis using assms by (induction es arbitrary: av) (auto simp: keep)
qed

lemma primary_email_listed:
  "primary_email es m \<noteq> m \<Longrightarrow> \<exists>e\<in>set es. ge_Primary e \<and> ge_Email e = primary_email es m"
proof (induction es arbitrary: m)
  case (Cons e es)
  show ?case
  proof (cases "ge_Primary e \<and> m = ''''")
    case True
    then show ?thesis using Cons by (cases "primary_email es (ge_Email e) = ge_Email e") auto
  next
    case False
    then have "primary_email (e # es) m = primary_email es m" by auto
    then show ?thesis using Cons by auto
  qed
qed simp

lemma pick_email_verified:
  assumes "pick_email es = (m, True)"
  shows "m \<noteq> '''' \<and> (\<exists>e\<in>set es. ge_Verified e \<and> ge_Email e = m)"
  using assms verified_emails_spec [of es "''''"]
  by (auto simp: pick_email_def split: prod.splits if_splits)

lemma pick_email_best:
  assumes "list_all (\<lambda>e. ge_Email e \<noteq> '''') es" "pick_email es = (m, v)"
  shows "v = list_ex ge_Verified es"
    and "list_ex (\<lambda>e. ge_Verified e \<and> ge_Primary e) es \<Longrightarrow>
         \<exists>e\<in>set es. ge_Verified e \<and> ge_Primary e \<and> ge_Email e = m"
    and "m \<noteq> '''' \<Longrightarrow> \<not> v \<Longrightarrow> \<exists>e\<in>set es. ge_Primary e \<and> ge_Email e = m"
proof -
  obtain pv av where pa: "verified_emails es '''' '''' = (pv, av)" by fastforce
  note spec = verified_emails_spec [OF pa]
  show v: "v = list_ex ge_Verified es"
    using verified_emails_any [OF assms(1), of "''''"] spec assms(2) pa
    by (auto simp: pick_email_def list_ex_iff split: if_splits)
  show "list_ex (\<lambda>e. ge_Verified e \<and> ge_Primary e) es \<Longrightarrow>
         \<exists>e\<in>set es. ge_Verified e \<and> ge_Primary e \<and> ge_Email e = m"
    using verified_emails_primary [OF assms(1), of "''''"] spec assms(2) pa
    by (auto simp: pick_email_def)
  show "m \<noteq> '''' \<Longrightarrow> \<not> v \<Longrightarrow> \<exists>e\<in>set es. ge_Primary e \<and> ge_Email e = m"
    using primary_email_listed [of es "''''"] assms(2) pa
    by (auto simp: pick_email_def split: if_splits)
qed

text \<open>The answer of \<^verbatim>\<open>/user/emails\<close>.\<close>

definition listed_emails :: "('e) github_env_scheme \<Rightarrow> github_provider \<Rightarrow> string \<Rightarrow> github_email list option" where
  "listed_emails env p src =
     (case http_get env (github_client src) [] (ghp_apiBase p @ ''/user/emails'') of
        None \<Rightarrow> None
      | Some resp \<Rightarrow> if ha_status resp \<noteq> 200 then None
                     else (case emails_json env resp of Inl _ \<Rightarrow> None | Inr es \<Rightarrow> Some es))"

lemma fetchPrimaryEmail_listed:
  "fetchPrimaryEmail env p src = Inr mv \<longleftrightarrow> (\<exists>es. listed_emails env p src = Some es \<and> mv = pick_email es)"
  by (auto simp: fetchPrimaryEmail_def listed_emails_def split: option.splits sum.splits)

definition github_email_rule :: "github_email list option \<Rightarrow> github_user \<Rightarrow> assertion \<Rightarrow> bool" where
  "github_email_rule listed u a \<longleftrightarrow>
    (if gh_Email u \<noteq> '''' then as_Email a = gh_Email u \<and> \<not> as_EmailVerified a
     else case listed of
        None \<Rightarrow> as_Email a = '''' \<and> \<not> as_EmailVerified a
      | Some es \<Rightarrow>
          (as_EmailVerified a \<longrightarrow> as_Email a \<noteq> '''' \<and> (\<exists>e\<in>set es. ge_Verified e \<and> ge_Email e = as_Email a)) \<and>
          (list_all (\<lambda>e. ge_Email e \<noteq> '''') es \<longrightarrow> as_EmailVerified a = list_ex ge_Verified es \<and>
             (list_ex (\<lambda>e. ge_Verified e \<and> ge_Primary e) es \<longrightarrow>
                (\<exists>e\<in>set es. ge_Verified e \<and> ge_Primary e \<and> ge_Email e = as_Email a))))"

text \<open>A GitHub login asserts the user whose profile the exchanged token reads: its numeric id as
  subject, and no other id has that subject. The address counts as verified only when the profile
  hides it and the account's list carries it as verified; of a list without empty addresses a
  primary verified one is taken when there is one, and an unverified one only when the list has
  no verified address.\<close>

theorem github_assertion_email:
  assumes "Github_CompleteAuth env p code v = Inr a"
  shows "\<exists>token u. oa_Exchange (gh_oauth2 env) (ghp_config p) code = Some token \<and>
    fetchGitHubUser env p (oa_TokenSource (gh_oauth2 env) (ghp_config p) token) = Inr u \<and>
    as_Provider a = ''github'' \<and> (\<forall>i. as_Subject a = FormatInt i \<longleftrightarrow> i = gh_ID u) \<and>
    github_email_rule (listed_emails env p (oa_TokenSource (gh_oauth2 env) (ghp_config p) token)) u a"
proof -
  obtain token where t: "oa_Exchange (gh_oauth2 env) (ghp_config p) code = Some token"
    using assms by (auto simp: Github_CompleteAuth_def split: option.splits)
  let ?src = "oa_TokenSource (gh_oauth2 env) (ghp_config p) token"
  obtain u where u: "fetchGitHubUser env p ?src = Inr u"
    using assms t by (auto simp: Github_CompleteAuth_def Let_def split: sum.splits)
  have a: "a = (if gh_Email u = '''' then (case fetchPrimaryEmail env p ?src of
        Inl _ \<Rightarrow> github_assertion u False
      | Inr (email, verified) \<Rightarrow> github_assertion (u\<lparr>gh_Email := email\<rparr>) verified)
      else github_assertion u False)"
    using assms t u by (auto simp: Github_CompleteAuth_def Let_def split: sum.splits prod.splits if_splits)
  have s: "as_Provider a = ''github''" "as_Subject a = FormatInt i \<longleftrightarrow> i = gh_ID u" for i
    by (auto simp: a github_assertion_def FormatInt_inj split: sum.splits prod.splits)
  show ?thesis
  proof (intro exI conjI)
    show "github_email_rule (listed_emails env p ?src) u a"
    proof (cases "gh_Email u = ''''")
      case True
      show ?thesis
      proof (cases "listed_emails env p ?src")
        case None
        then have "\<And>mv. fetchPrimaryEmail env p ?src \<noteq> Inr mv" by (simp add: fetchPrimaryEmail_listed)
        then show ?thesis using True None
          by (cases "fetchPrimaryEmail env p ?src") (auto simp: a github_assertion_def github_email_rule_def)
      next
        case (Some es)
        obtain m v where mv: "pick_email es = (m, v)" by fastforce
        with Some have "fetchPrimaryEmail env p ?src = Inr (m, v)" by (simp add: fetchPrimaryEmail_listed)
        then have "as_Email a = m" "as_EmailVerified a = v" using True by (simp_all add: a github_assertion_def)
        then show ?thesis using True Some pick_email_verified [of es m] pick_email_best [of es m v] mv
          by (auto simp: github_email_rule_def)
      qed
    qed (simp add: a github_assertion_def github_email_rule_def)
  qed (rule t u s allI)+
qed

definition demo_user :: github_user where
  "demo_user = \<lparr>gh_Login = ''octo'', gh_ID = 58, gh_NodeID = '''', gh_AvatarURL = '''', gh_HTMLURL = '''',
     gh_Name = ''Octo'', gh_Company = '''', gh_Location = '''', gh_Email = '''', gh_Bio = '''',
     gh_PublicRepos = 8, gh_Followers = 3, gh_Following = 0, gh_CreatedAt = '''', gh_UpdatedAt = ''''\<rparr>"

definition demo_emails :: "github_email list" where
  "demo_emails =
     [\<lparr>ge_Email = ''old@x.io'', ge_Primary = True, ge_Verified = False, ge_Visibility = ''''\<rparr>,
      \<lparr>ge_Email = ''octo@x.io'', ge_Primary = False, ge_Verified = True, ge_Visibility = ''''\<rparr>]"

definition demo_oauth2 :: oauth2 where
  "demo_oauth2 =
     \<lparr>oa_AuthCodeURL = (\<lambda>c state t. oc_AuthURL c @ ''?state='' @ state),
      oa_Exchange = (\<lambda>c code. if code = ''code'' then Some \<lparr>ot_AccessToken = ''tok'', ot_IDToken = None\<rparr> else None),
      oa_TokenSource = (\<lambda>c t. ot_AccessToken t)\<rparr>"

definition demo_github_env :: github_env where
  "demo_github_env =
     \<lparr>bad_request = (\<lambda>u. None),
      http_do = (\<lambda>c req. Inr \<lparr>ha_status = (if cl_bearer c = Some ''tok'' then 200 else 401),
                   ha_body = hc_url req, ha_read = None\<rparr>),
      gh_oauth2 = demo_oauth2,
      user_json = (\<lambda>a. if ha_body a = ''https://api.github.com/user'' then Inr demo_user else Inl ''syntax''),
      emails_json = (\<lambda>a. if ha_body a = ''https://api.github.com/user/emails'' then Inr demo_emails
                          else Inl ''syntax'')\<rparr>"

definition demo_github :: "sso_error + github_provider" where
  "demo_github = githubFactory_New
     \<lparr>sc_TenantID = ''t1'', sc_Name = ''github'', sc_ClientID = ''cid'', sc_ClientSecret = ''cs'',
      sc_RedirectURL = ''https://q/cb'', sc_LinkMode = LinkModeCreate, sc_Scopes = [], sc_Extra = Map.empty\<rparr>"

theorem github_assertion_email_witness:
  "\<exists>p a. demo_github = Inr p \<and> Github_CompleteAuth demo_github_env p ''code'' '''' = Inr a \<and>
     as_Subject a = ''58'' \<and> as_Email a = ''octo@x.io'' \<and> as_EmailVerified a \<and>
     (\<forall>i. as_Subject a = FormatInt i \<longleftrightarrow> i = gh_ID demo_user)"
proof -
  define p where "p = projr demo_github"
  define a where "a = projr (Github_CompleteAuth demo_github_env p ''code'' '''')"
  have 1: "demo_github = Inr p" unfolding p_def by code_simp
  have 2: "Github_CompleteAuth demo_github_env p ''code'' '''' = Inr a"
  proof -
    have "\<not> isl (Github_CompleteAuth demo_github_env p ''code'' '''')" unfolding p_def by code_simp
    then show ?thesis unfolding a_def by (rule sum.collapse(2) [symmetric])
  qed
  have 3: "as_Subject a = ''58''" unfolding a_def p_def by code_simp
  have 4: "as_Email a = ''octo@x.io''" unfolding a_def p_def by code_simp
  have 5: "as_EmailVerified a" unfolding a_def p_def by code_simp
  have u: "fetchGitHubUser demo_github_env p b = (if b = ''tok'' then Inr demo_user else fetchGitHubUser demo_github_env p b)" for b
    by (cases "b = ''tok''") (simp, unfold p_def, code_simp, simp)
  have t: "oa_TokenSource (gh_oauth2 demo_github_env) (ghp_config p) tk = ot_AccessToken tk" for tk
    by (simp add: demo_github_env_def demo_oauth2_def)
  have e: "oa_Exchange (gh_oauth2 demo_github_env) (ghp_config p) ''code'' =
      Some \<lparr>ot_AccessToken = ''tok'', ot_IDToken = None\<rparr>"
    by (simp add: demo_github_env_def demo_oauth2_def)
  from github_assertion_email [OF 2] have "\<forall>i. as_Subject a = FormatInt i \<longleftrightarrow> i = gh_ID demo_user"
    unfolding t e using u [of "''tok''"] by auto
  with 1 2 3 4 5 show ?thesis by blast
qed

end
