(* ===== verification/SsoOidc.thy ===== *)
theory SsoOidc
  imports Sso KexEncoding
begin

text \<open>
  The generic OpenID Connect provider (\<^verbatim>\<open>plugin/sso/standard/oidc.go\<close>): endpoint resolution with
  the discovery cache, the authorization URL, the code exchange, the verification of the id_token
  against the provider's key set, the UserInfo request, and the merge of the claims into an
  assertion. Parameters are the network, \<^verbatim>\<open>golang.org/x/oauth2\<close>, the JSON decoder at its types, and
  the \<^verbatim>\<open>jwx\<close> module: \<open>jwt_parse\<close> is \<^verbatim>\<open>jwt.Parse\<close> with the options listed in \<open>parse_opts\<close> and keys
  given as a set or as one key with an algorithm.
\<close>

subsection \<open>Parameters\<close>

record oidc_discovery =
  od_AuthorizationEndpoint :: string
  od_TokenEndpoint :: string
  od_UserinfoEndpoint :: string
  od_JWKSURI :: string
  od_Issuer :: string

type_synonym jwk = string
type_synonym public_key = string
type_synonym sig_alg = string

record parse_opts =
  po_Audience :: string
  po_Issuer :: "string option"
  po_AcceptableSkew :: duration

datatype key_source = WithKeySet "jwk list" | WithKey sig_alg public_key

record oidc_env = http_env +
  oe_oauth2 :: oauth2
  claims_stream :: "http_answer \<Rightarrow> string + claims_map"
  claims_json :: "bytes \<Rightarrow> string + claims_map"
  alg_json :: "bytes \<Rightarrow> string + string"
  discovery_json :: "http_answer \<Rightarrow> string + oidc_discovery"
  jwk_parse :: "bytes \<Rightarrow> string + jwk list"
  jwk_export :: "jwk \<Rightarrow> public_key option"
  LookupSignatureAlgorithm :: "string \<Rightarrow> sig_alg option"
  jwt_parse :: "parse_opts \<Rightarrow> key_source \<Rightarrow> string \<Rightarrow> bool"

record oidc_provider =
  op_clientID :: string
  op_clientSecret :: string
  op_redirectURL :: string
  op_scopes :: "string list"
  op_name :: string
  op_issuer :: string
  op_authURL :: string
  op_tokenURL :: string
  op_userinfoURL :: string
  op_jwksURL :: string
  op_client :: plugin_client

definition oidcFactory_New :: "sso_config \<Rightarrow> sso_error + oidc_provider" where
  "oidcFactory_New cfg =
     (if sc_ClientID cfg = '''' \<or> sc_ClientSecret cfg = ''''
      then Inl (SsoError ''sso/oidc: ClientID and ClientSecret are required'')
      else
        (let scopes = (if sc_Scopes cfg = [] then [''openid'', ''email'', ''profile''] else sc_Scopes cfg)
         in Inr \<lparr>op_clientID = sc_ClientID cfg, op_clientSecret = sc_ClientSecret cfg,
              op_redirectURL = sc_RedirectURL cfg, op_scopes = scopes, op_name = '''',
              op_issuer = sso_extra cfg ''issuer'', op_authURL = sso_extra cfg ''auth_url'',
              op_tokenURL = sso_extra cfg ''token_url'', op_userinfoURL = sso_extra cfg ''userinfo_url'',
              op_jwksURL = sso_extra cfg ''jwks_url'', op_client = SharedHTTPClient\<rparr>))"

definition defaultOIDCSkew :: duration where
  "defaultOIDCSkew = 5 * 60 * 1000000000"

definition Oidc_Name :: "oidc_provider \<Rightarrow> string" where
  "Oidc_Name p = (if op_name p \<noteq> '''' then op_name p else ''oidc'')"

subsection \<open>Discovery\<close>

definition discoveryCacheTTL :: duration where
  "discoveryCacheTTL = 3600 * 1000000000"

text \<open>The cache: for an issuer, a document and when it expires.\<close>

type_synonym disc_cache = "string \<Rightarrow> (oidc_discovery \<times> timestamp) option"

definition TrimRight :: "char \<Rightarrow> string \<Rightarrow> string" where
  "TrimRight c s = rev (dropWhile (\<lambda>d. d = c) (rev s))"

definition accept_json :: "(string \<times> string) list" where
  "accept_json = [(''Accept'', ''application/json'')]"

definition discovery_url :: "string \<Rightarrow> string" where
  "discovery_url issuer = TrimRight (CHR ''/'') issuer @ ''/.well-known/openid-configuration''"

definition issuer_mismatch :: "oidc_discovery \<Rightarrow> string \<Rightarrow> bool" where
  "issuer_mismatch d issuer \<longleftrightarrow>
     (od_Issuer d \<noteq> '''' \<and> issuer \<noteq> '''' \<and> \<not> EqualFold (od_Issuer d) (TrimRight (CHR ''/'') issuer) \<and>
      od_Issuer d \<noteq> issuer) \<and> od_Issuer d \<noteq> TrimRight (CHR ''/'') issuer"

text \<open>\<open>now\<close> is the time of the lookup, \<open>later\<close> the time of the entry.\<close>

definition fetchDiscovery ::
    "('e) oidc_env_scheme \<Rightarrow> timestamp \<Rightarrow> timestamp \<Rightarrow> string \<Rightarrow> disc_cache \<Rightarrow>
     (sso_error + oidc_discovery) \<times> disc_cache" where
  "fetchDiscovery env now later issuer cache =
     (case (case cache issuer of None \<Rightarrow> None | Some (d, exp) \<Rightarrow> if now < exp then Some d else None) of
        Some d \<Rightarrow> (Inr d, cache)
      | None \<Rightarrow>
         (case http_get env SharedHTTPClient accept_json (discovery_url issuer) of
            None \<Rightarrow> (Inl (SsoWrapped ''sso/oidc: discovery'' ErrProviderUnavailable), cache)
          | Some resp \<Rightarrow>
              if ha_status resp \<noteq> 200
              then (Inl (SsoWrapped ''sso/oidc: discovery returned'' ErrProviderUnavailable), cache)
              else case discovery_json env resp of
                  Inl _ \<Rightarrow> (Inl (SsoWrapped ''sso/oidc: decode discovery'' ErrProviderUnavailable), cache)
                | Inr d \<Rightarrow>
                    if issuer_mismatch d issuer
                    then (Inl (SsoError ''sso/oidc: discovered issuer != configured''), cache)
                    else (Inr d, cache(issuer \<mapsto> (d, wrap64 (later + discoveryCacheTTL))))))"

record endpoints =
  ep_auth :: string
  ep_token :: string
  ep_userinfo :: string
  ep_jwks :: string

definition resolveEndpoints ::
    "('e) oidc_env_scheme \<Rightarrow> timestamp \<Rightarrow> timestamp \<Rightarrow> oidc_provider \<Rightarrow> disc_cache \<Rightarrow>
     (sso_error + endpoints) \<times> disc_cache" where
  "resolveEndpoints env now later p cache =
     (let auth = op_authURL p; token = op_tokenURL p; userinfo = op_userinfoURL p; jwks = op_jwksURL p in
      if auth \<noteq> '''' \<and> token \<noteq> '''' \<and> (userinfo \<noteq> '''' \<and> jwks \<noteq> '''' \<or> op_issuer p = '''')
      then (Inr \<lparr>ep_auth = auth, ep_token = token, ep_userinfo = userinfo, ep_jwks = jwks\<rparr>, cache)
      else if op_issuer p = ''''
      then (Inl (SsoError ''sso/oidc: set issuer (for discovery) or auth_url+token_url+jwks_url in Extra''), cache)
      else case fetchDiscovery env now later (op_issuer p) cache of
          (Inl err, cache) \<Rightarrow> (Inl err, cache)
        | (Inr d, cache) \<Rightarrow>
            (let auth = or_default auth (od_AuthorizationEndpoint d);
                 token = or_default token (od_TokenEndpoint d);
                 userinfo = or_default userinfo (od_UserinfoEndpoint d);
                 jwks = or_default jwks (od_JWKSURI d)
             in if token = '''' \<or> jwks = ''''
                then (Inl (SsoError ''sso/oidc: discovery missing token/jwks endpoint''), cache)
                else (Inr \<lparr>ep_auth = auth, ep_token = token, ep_userinfo = userinfo, ep_jwks = jwks\<rparr>, cache)))"

definition oidc_oauth2_config :: "oidc_provider \<Rightarrow> string \<Rightarrow> string \<Rightarrow> oauth2_config" where
  "oidc_oauth2_config p auth token =
     \<lparr>oc_ClientID = op_clientID p, oc_ClientSecret = op_clientSecret p, oc_RedirectURL = op_redirectURL p,
      oc_Scopes = op_scopes p, oc_AuthURL = auth, oc_TokenURL = token\<rparr>"

definition Oidc_BeginAuth ::
    "('e) oidc_env_scheme \<Rightarrow> timestamp \<Rightarrow> timestamp \<Rightarrow> oidc_provider \<Rightarrow> string \<Rightarrow> string \<Rightarrow> disc_cache \<Rightarrow>
     (sso_error + string) \<times> disc_cache" where
  "Oidc_BeginAuth env now later p state pkceVerifier cache =
     (case resolveEndpoints env now later p cache of
        (Inl err, cache) \<Rightarrow> (Inl err, cache)
      | (Inr ep, cache) \<Rightarrow>
          if ep_auth ep = '''' \<or> ep_token ep = ''''
          then (Inl (SsoError ''sso/oidc: auth/token endpoint not resolvable''), cache)
          else (Inr (oa_AuthCodeURL (oe_oauth2 env) (oidc_oauth2_config p (ep_auth ep) (ep_token ep))
                      state AccessTypeOffline), cache))"

subsection \<open>Verification of the id_token\<close>

definition loadJWKS :: "('e) oidc_env_scheme \<Rightarrow> string \<Rightarrow> sso_error + jwk list" where
  "loadJWKS env u =
     (case http_get env SharedHTTPClient accept_json u of
        None \<Rightarrow> Inl (SsoWrapped ''sso/oidc: fetch jwks'' ErrProviderUnavailable)
      | Some resp \<Rightarrow>
          if ha_status resp \<noteq> 200 then Inl (SsoWrapped ''sso/oidc: jwks returned'' ErrProviderUnavailable)
          else if ha_read resp \<noteq> None then Inl (SsoWrapped ''sso/oidc: read jwks'' ErrProviderUnavailable)
          else case jwk_parse env (ha_body resp) of
              Inl _ \<Rightarrow> Inl (SsoWrapped ''sso/oidc: parse jwks'' ErrProviderUnavailable)
            | Inr ks \<Rightarrow> Inr ks)"

definition tokenAlg :: "('e) oidc_env_scheme \<Rightarrow> string \<Rightarrow> sig_alg option" where
  "tokenAlg env raw =
     (let parts = Split (CHR ''.'') raw in
      if length parts \<noteq> 3 then None
      else case RawURLDecode (parts ! 0) of
          None \<Rightarrow> None
        | Some b \<Rightarrow> (case alg_json env b of
              Inl _ \<Rightarrow> None
            | Inr alg \<Rightarrow> if alg = '''' then None else LookupSignatureAlgorithm env alg))"

definition token_opts :: "string \<Rightarrow> string \<Rightarrow> parse_opts" where
  "token_opts issuer clientID =
     \<lparr>po_Audience = clientID, po_Issuer = (if issuer \<noteq> '''' then Some issuer else None),
      po_AcceptableSkew = defaultOIDCSkew\<rparr>"

fun try_keys :: "('e) oidc_env_scheme \<Rightarrow> parse_opts \<Rightarrow> string \<Rightarrow> jwk list \<Rightarrow> bool" where
  "try_keys env opts rawID [] = False"
| "try_keys env opts rawID (key # ks) =
     (case jwk_export env key of
        None \<Rightarrow> try_keys env opts rawID ks
      | Some rawPub \<Rightarrow>
          (case tokenAlg env rawID of
             None \<Rightarrow> try_keys env opts rawID ks
           | Some alg \<Rightarrow>
               if jwt_parse env opts (WithKey alg rawPub) rawID then True
               else try_keys env opts rawID ks))"

definition verifyIDToken ::
    "('e) oidc_env_scheme \<Rightarrow> string \<Rightarrow> string \<Rightarrow> string \<Rightarrow> string \<Rightarrow> sso_error option" where
  "verifyIDToken env rawID jwksURL issuer clientID =
     (case loadJWKS env jwksURL of
        Inl err \<Rightarrow> Some err
      | Inr ks \<Rightarrow>
         (let opts = token_opts issuer clientID in
          if jwt_parse env opts (WithKeySet ks) rawID then None
          else if try_keys env opts rawID ks then None
          else Some (SsoError ''no JWKS key verified the id_token signature'')))"

definition decodeJWTClaims :: "('e) oidc_env_scheme \<Rightarrow> string \<Rightarrow> string + claims_map" where
  "decodeJWTClaims env raw =
     (let parts = Split (CHR ''.'') raw in
      if length parts \<noteq> 3 then Inl ''malformed JWT (want 3 parts)''
      else case RawURLDecode (parts ! 1) of
          None \<Rightarrow> Inl ''decode payload''
        | Some payload \<Rightarrow> (case claims_json env payload of
              Inl _ \<Rightarrow> Inl ''unmarshal payload''
            | Inr m \<Rightarrow> Inr m))"

subsection \<open>Completing a login\<close>

definition fetchUserInfo ::
    "('e) oidc_env_scheme \<Rightarrow> oidc_provider \<Rightarrow> string \<Rightarrow> string \<Rightarrow> sso_error + claims_map" where
  "fetchUserInfo env p accessToken userinfoURL =
     (case http_get env (op_client p) ((''Authorization'', ''Bearer '' @ accessToken) # accept_json) userinfoURL of
        None \<Rightarrow> Inl (SsoWrapped ''sso/oidc: userinfo'' ErrProviderUnavailable)
      | Some resp \<Rightarrow>
          if ha_status resp \<noteq> 200 then Inl (SsoWrapped ''sso/oidc: userinfo returned'' ErrProviderUnavailable)
          else case claims_stream env resp of
              Inl _ \<Rightarrow> Inl (SsoWrapped ''sso/oidc: decode userinfo'' ErrProviderUnavailable)
            | Inr m \<Rightarrow> Inr m)"

text \<open>A Go type assertion to \<^verbatim>\<open>string\<close> or \<^verbatim>\<open>bool\<close> with its zero value where it fails.\<close>

definition as_text :: "json option \<Rightarrow> string" where
  "as_text v = (case v of Some (JStr s) \<Rightarrow> s | _ \<Rightarrow> '''')"

definition as_flag :: "json option \<Rightarrow> bool" where
  "as_flag v = (case v of Some (JBool b) \<Rightarrow> b | _ \<Rightarrow> False)"

definition claimStr :: "claims_map \<Rightarrow> string \<Rightarrow> string" where
  "claimStr claims key = as_text (claims key)"

text \<open>The token's \<^verbatim>\<open>id_token\<close> verified and decoded; no token gives no claims.\<close>

definition id_claims ::
    "('e) oidc_env_scheme \<Rightarrow> oidc_provider \<Rightarrow> string \<Rightarrow> string \<Rightarrow> sso_error + claims_map" where
  "id_claims env p jwksURL rawID =
     (if rawID = '''' then Inr Map.empty
      else if jwksURL = ''''
      then Inl (SsoError ''sso/oidc: id_token present but no jwks_uri to verify it'')
      else case verifyIDToken env rawID jwksURL (op_issuer p) (op_clientID p) of
          Some _ \<Rightarrow> Inl (SsoWrapped ''sso/oidc: verify id_token'' ErrExchangeFailed)
        | None \<Rightarrow>
            (case decodeJWTClaims env rawID of
               Inl _ \<Rightarrow> Inl (SsoWrapped ''sso/oidc: decode id_token claims'' ErrExchangeFailed)
             | Inr m \<Rightarrow> Inr m))"

definition userinfo_claims ::
    "('e) oidc_env_scheme \<Rightarrow> oidc_provider \<Rightarrow> string \<Rightarrow> string \<Rightarrow> claims_map" where
  "userinfo_claims env p accessToken userinfoURL =
     (if userinfoURL = '''' then Map.empty
      else case fetchUserInfo env p accessToken userinfoURL of
          Inl _ \<Rightarrow> Map.empty
        | Inr m \<Rightarrow> m)"

definition oidc_assertion :: "string \<Rightarrow> claims_map \<Rightarrow> claims_map \<Rightarrow> sso_error + assertion" where
  "oidc_assertion provider idClaims uiClaims =
     (let claims = idClaims ++ uiClaims;
          subject = as_text (claims ''sub'');
          subject = (if subject = '''' then as_text (idClaims ''sub'') else subject)
      in if subject = '''' then Inl (SsoError ''sso/oidc: no subject (sub) in id_token or userinfo'')
         else
          (let emailVerified = as_flag (claims ''email_verified'');
               email = (if claims ''email_verified'' \<noteq> None \<and> \<not> emailVerified then ''''
                        else as_text (claims ''email''));
               username = claimStr claims ''preferred_username'';
               username = (if username \<noteq> '''' then username
                           else if email \<noteq> '''' then hd (SplitN2 (CHR ''@'') email) else subject);
               displayName = or_default (claimStr claims ''name'') username
           in Inr \<lparr>as_Provider = provider, as_Subject = subject, as_UnionID = '''', as_Username = username,
                as_DisplayName = displayName, as_Email = email, as_EmailVerified = emailVerified,
                as_Phone = '''', as_CountryCode = '''', as_AvatarURL = as_text (claims ''picture''),
                as_Raw = claims\<rparr>))"

definition Oidc_CompleteAuth ::
    "('e) oidc_env_scheme \<Rightarrow> timestamp \<Rightarrow> timestamp \<Rightarrow> oidc_provider \<Rightarrow> string \<Rightarrow> string \<Rightarrow> disc_cache \<Rightarrow>
     (sso_error + assertion) \<times> disc_cache" where
  "Oidc_CompleteAuth env now later p code pkceVerifier cache =
     (case resolveEndpoints env now later p cache of
        (Inl err, cache) \<Rightarrow> (Inl err, cache)
      | (Inr ep, cache) \<Rightarrow>
          (case oa_Exchange (oe_oauth2 env) (oidc_oauth2_config p (op_authURL p) (ep_token ep)) code of
             None \<Rightarrow> (Inl (SsoWrapped ''sso/oidc: exchange code'' ErrExchangeFailed), cache)
           | Some token \<Rightarrow>
               (case id_claims env p (ep_jwks ep) (as_text (ot_IDToken token)) of
                  Inl err \<Rightarrow> (Inl err, cache)
                | Inr idClaims \<Rightarrow>
                    (oidc_assertion (Oidc_Name p) idClaims
                       (userinfo_claims env p (ot_AccessToken token) (ep_userinfo ep)), cache))))"

subsection \<open>The registered providers\<close>

datatype sso_provider = GithubProvider github_provider | OidcProvider oidc_provider

definition githubFactory :: "sso_provider sso_factory" where
  "githubFactory =
     \<lparr>sf_Name = ''github'', sf_Flow = FlowRedirect,
      sf_New = (\<lambda>cfg. map_sum (\<lambda>e. e) GithubProvider (githubFactory_New cfg))\<rparr>"

definition oidcFactory :: "sso_provider sso_factory" where
  "oidcFactory =
     \<lparr>sf_Name = ''oidc'', sf_Flow = FlowRedirect,
      sf_New = (\<lambda>cfg. map_sum (\<lambda>e. e) OidcProvider (oidcFactory_New cfg))\<rparr>"

definition sso_DefaultRegistry :: "sso_provider sso_registry run" where
  "sso_DefaultRegistry = register_all sf_Name [githubFactory, oidcFactory] NewRegistry"

subsection \<open>Correctness\<close>

lemma try_keys_iff:
  "try_keys env opts raw ks \<longleftrightarrow>
     (\<exists>key \<in> set ks. \<exists>pub alg. jwk_export env key = Some pub \<and> tokenAlg env raw = Some alg \<and>
        jwt_parse env opts (WithKey alg pub) raw)"
  by (induction ks) (auto split: option.splits)

text \<open>
  \<open>id_token_proven env p u raw\<close>: the key set at \<open>u\<close> was read, and \<^verbatim>\<open>jwx\<close> accepted the token with
  it, or with one of its keys and the algorithm of the token's header, for the provider's
  client as audience and its issuer when one is configured.
\<close>

definition id_token_proven :: "('e) oidc_env_scheme \<Rightarrow> oidc_provider \<Rightarrow> string \<Rightarrow> string \<Rightarrow> bool" where
  "id_token_proven env p u raw \<longleftrightarrow>
     (\<exists>ks src. loadJWKS env u = Inr ks \<and> jwt_parse env (token_opts (op_issuer p) (op_clientID p)) src raw \<and>
        (src = WithKeySet ks \<or> (\<exists>key\<in>set ks. \<exists>pub alg. jwk_export env key = Some pub \<and>
           tokenAlg env raw = Some alg \<and> src = WithKey alg pub)))"

lemma verifyIDToken_iff:
  "verifyIDToken env raw u (op_issuer p) (op_clientID p) = None \<longleftrightarrow> id_token_proven env p u raw"
  by (auto simp: verifyIDToken_def id_token_proven_def try_keys_iff Let_def split: sum.splits if_splits)

lemma id_claims_Inr:
  "id_claims env p u raw = Inr m \<longleftrightarrow>
     (if raw = '''' then m = Map.empty
      else u \<noteq> '''' \<and> id_token_proven env p u raw \<and> decodeJWTClaims env raw = Inr m)"
  by (auto simp: id_claims_def verifyIDToken_iff [symmetric] split: option.splits sum.splits)

lemma Oidc_CompleteAuth_Inr:
  assumes "Oidc_CompleteAuth env now later p code v cache = (Inr a, cache')"
  obtains ep token ids where
    "resolveEndpoints env now later p cache = (Inr ep, cache')"
    "oa_Exchange (oe_oauth2 env) (oidc_oauth2_config p (op_authURL p) (ep_token ep)) code = Some token"
    "id_claims env p (ep_jwks ep) (as_text (ot_IDToken token)) = Inr ids"
    "oidc_assertion (Oidc_Name p) ids (userinfo_claims env p (ot_AccessToken token) (ep_userinfo ep)) = Inr a"
proof -
  obtain ep c where ep: "resolveEndpoints env now later p cache = (Inr ep, c)"
    using assms by (auto simp: Oidc_CompleteAuth_def split: prod.splits sum.splits)
  obtain token where t: "oa_Exchange (oe_oauth2 env) (oidc_oauth2_config p (op_authURL p) (ep_token ep)) code = Some token"
    using assms ep by (auto simp: Oidc_CompleteAuth_def split: option.splits)
  obtain ids where i: "id_claims env p (ep_jwks ep) (as_text (ot_IDToken token)) = Inr ids"
    using assms ep t by (auto simp: Oidc_CompleteAuth_def split: sum.splits)
  show thesis using that ep t i assms by (simp add: Oidc_CompleteAuth_def)
qed

lemma as_flag_iff: "as_flag v \<longleftrightarrow> v = Some (JBool True)"
  by (auto simp: as_flag_def split: option.splits json.splits)

lemma oidc_assertion_Inr:
  assumes "oidc_assertion prov ids ui = Inr a"
  shows "as_Provider a = prov" "as_Subject a \<noteq> ''''" "as_Raw a = ids ++ ui"
    "as_Subject a = (if as_text ((ids ++ ui) ''sub'') \<noteq> '''' then as_text ((ids ++ ui) ''sub'')
                     else as_text (ids ''sub''))"
    "as_EmailVerified a = ((ids ++ ui) ''email_verified'' = Some (JBool True))"
    "as_Email a = (if (ids ++ ui) ''email_verified'' \<in> {None, Some (JBool True)}
                   then as_text ((ids ++ ui) ''email'') else '''')"
proof -
  define c where "c = ids ++ ui"
  note a = assms [unfolded oidc_assertion_def Let_def as_flag_iff, folded c_def]
  show "as_Provider a = prov" "as_Subject a \<noteq> ''''" "as_Raw a = ids ++ ui"
    "as_Subject a = (if as_text ((ids ++ ui) ''sub'') \<noteq> '''' then as_text ((ids ++ ui) ''sub'')
                     else as_text (ids ''sub''))"
    "as_EmailVerified a = ((ids ++ ui) ''email_verified'' = Some (JBool True))"
    unfolding c_def [symmetric] using a by (auto split: if_splits)
  show "as_Email a = (if (ids ++ ui) ''email_verified'' \<in> {None, Some (JBool True)}
                   then as_text ((ids ++ ui) ''email'') else '''')"
    unfolding c_def [symmetric] using a
    by (cases "c ''email_verified'' = None"; cases "c ''email_verified'' = Some (JBool True)") (auto split: if_splits)
qed

text \<open>C12. An OIDC login that completes exchanged the code. When the token response has an id_token,
  that was proven against the provider's key set and audience, and its issuer when one is
  configured; when it has none, the login rests on the UserInfo answer alone. In both cases the
  subject is the UserInfo answer's \<^verbatim>\<open>sub\<close> whenever that is a non-empty text, and only otherwise
  the one of the id_token, against the comment in the code; the two are not compared. An address
  is asserted only when \<^verbatim>\<open>email_verified\<close> is absent or true, and as verified only when it is true.\<close>

theorem oidc_assertion_sources:
  assumes "Oidc_CompleteAuth env now later p code v cache = (Inr a, cache')"
  shows "\<exists>ep token ids.
    fst (resolveEndpoints env now later p cache) = Inr ep \<and>
    oa_Exchange (oe_oauth2 env) (oidc_oauth2_config p (op_authURL p) (ep_token ep)) code = Some token \<and>
    (let raw = as_text (ot_IDToken token);
         ui = userinfo_claims env p (ot_AccessToken token) (ep_userinfo ep)
     in (if raw = '''' then ids = Map.empty
         else id_token_proven env p (ep_jwks ep) raw \<and> decodeJWTClaims env raw = Inr ids) \<and>
        as_Subject a \<noteq> '''' \<and>
        as_Subject a = (if as_text (ui ''sub'') \<noteq> '''' then as_text (ui ''sub'') else as_text (ids ''sub'')) \<and>
        (as_Email a \<noteq> '''' \<longrightarrow> (ids ++ ui) ''email_verified'' \<in> {None, Some (JBool True)}) \<and>
        as_EmailVerified a = ((ids ++ ui) ''email_verified'' = Some (JBool True)))"
proof -
  obtain ep token ids where s:
    "resolveEndpoints env now later p cache = (Inr ep, cache')"
    "oa_Exchange (oe_oauth2 env) (oidc_oauth2_config p (op_authURL p) (ep_token ep)) code = Some token"
    "id_claims env p (ep_jwks ep) (as_text (ot_IDToken token)) = Inr ids"
    "oidc_assertion (Oidc_Name p) ids (userinfo_claims env p (ot_AccessToken token) (ep_userinfo ep)) = Inr a"
    by (rule Oidc_CompleteAuth_Inr [OF assms])
  define ui where "ui = userinfo_claims env p (ot_AccessToken token) (ep_userinfo ep)"
  note f = oidc_assertion_Inr [OF s(4), folded ui_def]
  have sub: "as_Subject a = (if as_text (ui ''sub'') \<noteq> '''' then as_text (ui ''sub'') else as_text (ids ''sub''))"
    using f(4) by (cases "ui ''sub''") (auto simp: map_add_def as_text_def split: if_splits)
  have mail: "as_Email a \<noteq> '''' \<longrightarrow> (ids ++ ui) ''email_verified'' \<in> {None, Some (JBool True)}"
    using f(6) by metis
  have r: "fst (resolveEndpoints env now later p cache) = Inr ep" using s(1) by simp
  have i: "if as_text (ot_IDToken token) = '''' then ids = Map.empty
      else id_token_proven env p (ep_jwks ep) (as_text (ot_IDToken token)) \<and>
        decodeJWTClaims env (as_text (ot_IDToken token)) = Inr ids"
    using s(3) unfolding id_claims_Inr by (simp split: if_splits)
  show ?thesis
    unfolding Let_def
    by (rule exI [of _ ep], rule exI [of _ token], rule exI [of _ ids], fold ui_def)
      (intro conjI r s(2) i f(2,5) sub mail)
qed

text \<open>A token of Alice, accepted by the key set, and a UserInfo endpoint that names Mallory.\<close>

definition text_claims :: "(string \<times> string) list \<Rightarrow> claims_map" where
  "text_claims kvs = map_option JStr \<circ> map_of kvs"

definition demo_oidc_env :: oidc_env where
  "demo_oidc_env =
     \<lparr>bad_request = (\<lambda>u. None),
      http_do = (\<lambda>c req. Inr \<lparr>ha_status = 200, ha_body = hc_url req, ha_read = None\<rparr>),
      oe_oauth2 = demo_oauth2\<lparr>oa_Exchange := (\<lambda>c code.
        Some \<lparr>ot_AccessToken = ''tok'', ot_IDToken = Some (JStr ''e30.e30.AA'')\<rparr>)\<rparr>,
      claims_stream = (\<lambda>a. Inr (text_claims [(''sub'', ''mallory''), (''email'', ''m@x.io'')])),
      claims_json = (\<lambda>b. if b = ''{}'' then Inr (text_claims [(''sub'', ''alice''), (''email'', ''a@x.io'')])
                         else Inl ''syntax''),
      alg_json = (\<lambda>b. Inr ''RS256''),
      discovery_json = (\<lambda>a. Inr \<lparr>od_AuthorizationEndpoint = ''https://i/a'', od_TokenEndpoint = ''https://i/t'',
        od_UserinfoEndpoint = ''https://i/u'', od_JWKSURI = ''https://i/k'', od_Issuer = ''https://i''\<rparr>),
      jwk_parse = (\<lambda>b. if b = ''https://i/k'' then Inr [''key''] else Inl ''syntax''),
      jwk_export = (\<lambda>k. None), LookupSignatureAlgorithm = (\<lambda>s. Some s),
      jwt_parse = (\<lambda>opts src raw. po_Audience opts = ''cid'' \<and> po_Issuer opts = Some ''https://i/'' \<and>
        src = WithKeySet [''key''] \<and> raw = ''e30.e30.AA'')\<rparr>"

definition demo_oidc :: oidc_provider where
  "demo_oidc = projr (oidcFactory_New
     \<lparr>sc_TenantID = ''t1'', sc_Name = ''oidc'', sc_ClientID = ''cid'', sc_ClientSecret = ''cs'',
      sc_RedirectURL = ''https://q/cb'', sc_LinkMode = LinkModeCreate, sc_Scopes = [],
      sc_Extra = [''issuer'' \<mapsto> ''https://i/'']\<rparr>)"

definition demo_login :: "(sso_error + assertion) \<times> disc_cache" where
  "demo_login = Oidc_CompleteAuth demo_oidc_env 0 0 demo_oidc ''code'' '''' Map.empty"

theorem oidc_assertion_sources_witness:
  "\<exists>a. fst demo_login = Inr a \<and> as_Subject a = ''mallory'' \<and>
     (\<exists>u. id_token_proven demo_oidc_env demo_oidc u ''e30.e30.AA'') \<and>
     (case decodeJWTClaims demo_oidc_env ''e30.e30.AA'' of Inl _ \<Rightarrow> False | Inr m \<Rightarrow> as_text (m ''sub'') = ''alice'')"
proof -
  define a where "a = projr (fst demo_login)"
  have "\<not> isl (fst demo_login)" by code_simp
  then have a: "fst demo_login = Inr a" unfolding a_def by (rule sum.collapse(2) [symmetric])
  have s: "as_Subject a = ''mallory''" unfolding a_def by code_simp
  have d: "case decodeJWTClaims demo_oidc_env ''e30.e30.AA'' of Inl _ \<Rightarrow> False | Inr m \<Rightarrow> as_text (m ''sub'') = ''alice''"
    by code_simp
  obtain c where l: "Oidc_CompleteAuth demo_oidc_env 0 0 demo_oidc ''code'' '''' Map.empty = (Inr a, c)"
    using a by (cases demo_login) (simp add: demo_login_def)
  have ex: "oa_Exchange (oe_oauth2 demo_oidc_env) c code =
      Some \<lparr>ot_AccessToken = ''tok'', ot_IDToken = Some (JStr ''e30.e30.AA'')\<rparr>" for c code
    by (simp add: demo_oidc_env_def)
  have raw: "as_text (ot_IDToken \<lparr>ot_AccessToken = ''tok'', ot_IDToken = Some (JStr ''e30.e30.AA'')\<rparr>) = ''e30.e30.AA''"
    by (simp add: as_text_def)
  from oidc_assertion_sources [OF l, unfolded ex Let_def] show ?thesis
  proof (elim exE conjE)
    fix ep token ids
    assume e: "Some \<lparr>ot_AccessToken = ''tok'', ot_IDToken = Some (JStr ''e30.e30.AA'')\<rparr> = Some token"
      and p: "if as_text (ot_IDToken token) = '''' then ids = Map.empty
         else id_token_proven demo_oidc_env demo_oidc (ep_jwks ep) (as_text (ot_IDToken token)) \<and>
           decodeJWTClaims demo_oidc_env (as_text (ot_IDToken token)) = Inr ids"
    have t: "token = \<lparr>ot_AccessToken = ''tok'', ot_IDToken = Some (JStr ''e30.e30.AA'')\<rparr>" using e by simp
    have "id_token_proven demo_oidc_env demo_oidc (ep_jwks ep) ''e30.e30.AA''"
      using p unfolding t raw by simp
    with a s d show ?thesis by blast
  qed
qed

text \<open>A document that the network gives for an issuer and that names it.\<close>

definition discovered :: "('e) oidc_env_scheme \<Rightarrow> string \<Rightarrow> oidc_discovery \<Rightarrow> bool" where
  "discovered env issuer d \<longleftrightarrow>
     (\<exists>resp. http_get env SharedHTTPClient accept_json (discovery_url issuer) = Some resp \<and>
        ha_status resp = 200 \<and> discovery_json env resp = Inr d) \<and>
     (od_Issuer d = '''' \<or> issuer = '''' \<or> od_Issuer d = issuer \<or>
      EqualFold (od_Issuer d) (TrimRight (CHR ''/'') issuer))"

text \<open>The lookups of a process, in the order in which they hold the lock last.\<close>

type_synonym 'e lookup = "'e oidc_env_scheme \<times> timestamp \<times> timestamp \<times> string"

fun run_lookups :: "'e lookup list \<Rightarrow> disc_cache \<Rightarrow> disc_cache" where
  "run_lookups [] cache = cache"
| "run_lookups ((env, now, later, issuer) # ls) cache =
     run_lookups ls (snd (fetchDiscovery env now later issuer cache))"

definition cached_from :: "'e lookup list \<Rightarrow> disc_cache \<Rightarrow> bool" where
  "cached_from ls cache \<longleftrightarrow>
     (\<forall>issuer d exp. cache issuer = Some (d, exp) \<longrightarrow>
        (\<exists>env now later. (env, now, later, issuer) \<in> set ls \<and> discovered env issuer d \<and>
           exp = wrap64 (later + discoveryCacheTTL)))"

lemma fetchDiscovery_cases:
  "(\<exists>err. fetchDiscovery env now later issuer cache = (Inl err, cache)) \<or>
   (\<exists>d exp. fetchDiscovery env now later issuer cache = (Inr d, cache) \<and>
      cache issuer = Some (d, exp) \<and> now < exp) \<or>
   (\<exists>d. fetchDiscovery env now later issuer cache =
        (Inr d, cache(issuer \<mapsto> (d, wrap64 (later + discoveryCacheTTL)))) \<and> discovered env issuer d)"
  by (auto simp: fetchDiscovery_def discovered_def issuer_mismatch_def
      split: option.splits sum.splits if_splits prod.splits)

lemma cached_from_step:
  assumes "cached_from ls cache"
  shows "cached_from (ls @ [(env, now, later, issuer)]) (snd (fetchDiscovery env now later issuer cache))"
proof -
  have keep: "cached_from (ls @ [(env, now, later, issuer)]) cache"
    using assms unfolding cached_from_def set_append by blast
  from fetchDiscovery_cases [of env now later issuer cache] show ?thesis
  proof (elim disjE exE conjE)
    fix d
    assume f: "fetchDiscovery env now later issuer cache =
        (Inr d, cache(issuer \<mapsto> (d, wrap64 (later + discoveryCacheTTL))))"
      and d: "discovered env issuer d"
    show ?thesis
      unfolding f snd_conv cached_from_def
    proof (intro allI impI)
      fix i' d' exp'
      assume c: "(cache(issuer \<mapsto> (d, wrap64 (later + discoveryCacheTTL)))) i' = Some (d', exp')"
      show "\<exists>env' now' later'. (env', now', later', i') \<in> set (ls @ [(env, now, later, issuer)]) \<and>
          discovered env' i' d' \<and> exp' = wrap64 (later' + discoveryCacheTTL)"
      proof (cases "i' = issuer")
        case True
        then have "d' = d" "exp' = wrap64 (later + discoveryCacheTTL)" using c by simp_all
        with True d show ?thesis by (intro exI [of _ env] exI [of _ now] exI [of _ later]) simp
      next
        case False
        then have "cache i' = Some (d', exp')" using c by simp
        with keep show ?thesis unfolding cached_from_def by blast
      qed
    qed
  qed (simp_all add: keep)
qed

lemma cached_from_run: "cached_from ls0 cache \<Longrightarrow> cached_from (ls0 @ ls) (run_lookups ls cache)"
proof (induction ls arbitrary: ls0 cache)
  case (Cons l ls)
  obtain env now later issuer where l: "l = (env, now, later, issuer)" by (cases l)
  show ?case
    using Cons.IH [OF cached_from_step [OF Cons.prems, of env now later issuer]] by (simp add: l)
qed simp

text \<open>Whatever lookups a process has made, a discovery document that a lookup returns was given by
  the network for this very issuer, names it (up to letter case and trailing slashes) when it
  names an issuer at all, and was fetched by this lookup or by an earlier one less than an hour
  before.\<close>

theorem discovery_documents_fresh_and_matching:
  assumes "fst (fetchDiscovery env now later issuer (run_lookups ls Map.empty)) = Inr d"
  shows "discovered env issuer d \<or>
    (\<exists>env' now' later'. (env', now', later', issuer) \<in> set ls \<and> discovered env' issuer d \<and>
       now < wrap64 (later' + discoveryCacheTTL))"
proof -
  define cache where "cache = run_lookups ls Map.empty"
  have c: "cached_from ls cache"
    unfolding cache_def using cached_from_run [of "[]" Map.empty ls] by (simp add: cached_from_def)
  from fetchDiscovery_cases [of env now later issuer cache] show ?thesis
  proof (elim disjE exE conjE)
    fix d' exp
    assume "fetchDiscovery env now later issuer cache = (Inr d', cache)"
      and e: "cache issuer = Some (d', exp)" "now < exp"
    with assms have d: "d' = d" by (simp add: cache_def)
    obtain env' now' later' where "(env', now', later', issuer) \<in> set ls" "discovered env' issuer d"
      "exp = wrap64 (later' + discoveryCacheTTL)"
      using c e(1) d unfolding cached_from_def by blast
    with e(2) show ?thesis by blast
  qed (use assms in \<open>auto simp: cache_def [symmetric]\<close>)
qed

theorem discovery_documents_fresh_and_matching_witness:
  "\<exists>d. fst (fetchDiscovery demo_oidc_env 7 8 ''https://i/''
        (run_lookups [(demo_oidc_env, 1, 2, ''https://i/'')] Map.empty)) = Inr d \<and>
     discovered demo_oidc_env ''https://i/'' d"
proof -
  define r where "r = fst (fetchDiscovery demo_oidc_env 7 8 ''https://i/''
      (run_lookups [(demo_oidc_env, 1, 2, ''https://i/'')] Map.empty))"
  have "\<not> isl r" unfolding r_def by code_simp
  then have r: "r = Inr (projr r)" by (rule sum.collapse(2) [symmetric])
  from discovery_documents_fresh_and_matching [OF r [unfolded r_def]]
  have "discovered demo_oidc_env ''https://i/'' (projr r)" unfolding r_def by auto
  with r show ?thesis unfolding r_def by blast
qed

end
