(* ===== verification/WebAuthnRepo.thy ===== *)
theory WebAuthnRepo
  imports TenantTable "HOL-Library.Word"
begin

text \<open>
  \<^verbatim>\<open>core/internal/model/webauthn_credential.go\<close> and \<^verbatim>\<open>core/internal/repository/webauthn.go\<close>: passkey
  credentials and their repository, on a tenant-aware table (\<open>TenantTable\<close>). Times are nanoseconds
  counted from Go's zero time. \<open>new_id\<close> is the identifier that \<^verbatim>\<open>random.MustUUIDString\<close> draws (its
  package is not in the repository). \<^verbatim>\<open>First\<close> takes one of the rows that satisfy its condition.
\<close>

subsection \<open>The credential\<close>

record credential =
  wc_ID :: string
  wc_TenantID :: string
  wc_UserID :: string
  wc_CredentialID :: bytes
  wc_PublicKey :: bytes
  wc_AttestationType :: string
  wc_AAGUID :: bytes
  wc_SignCount :: "32 word"
  wc_Name :: string
  wc_Transports :: string
  wc_CreatedAt :: timestamp
  wc_UpdatedAt :: timestamp
  wc_LastUsedAt :: "timestamp option"
  wc_UserPresent :: bool
  wc_UserVerified :: bool
  wc_BackupEligible :: bool
  wc_BackupState :: bool
  wc_Attachment :: string

datatype webauthn_error =
    ErrCredentialNotFound
  | WTenantErrors "tenant_error list"
  | WDBError string

record 'd webauthn_db =
  wd_table :: "('d, credential) table"
  wd_tenant_callbacks :: bool
  wd_migrate :: "'d \<Rightarrow> (string + unit) \<times> 'd"

definition Wa_AutoMigrate :: "'d webauthn_db \<Rightarrow> 'd \<Rightarrow> (string + unit) \<times> 'd" where
  "Wa_AutoMigrate D d = wd_migrate D d"

subsection \<open>Operations\<close>

text \<open>The create callback on the struct, and gorm's automatic times.\<close>

definition prepared_credential ::
    "'d webauthn_db \<Rightarrow> go_ctx \<Rightarrow> timestamp \<Rightarrow> credential \<Rightarrow> tenant_error list + credential" where
  "prepared_credential D ctx now c =
     (let c = c\<lparr>wc_CreatedAt := (if wc_CreatedAt c = 0 then now else wc_CreatedAt c),
                wc_UpdatedAt := (if wc_UpdatedAt c = 0 then now else wc_UpdatedAt c)\<rparr>
      in if \<not> wd_tenant_callbacks D then Inr c
         else let tx = RegisterCallback OpCreate (create_statement ctx (wc_TenantID c))
              in if st_errors tx \<noteq> [] then Inl (st_errors tx)
                 else Inr (c\<lparr>wc_TenantID := dest_tenant tx\<rparr>))"

definition Wa_Create ::
    "'d webauthn_db \<Rightarrow> go_ctx \<Rightarrow> timestamp \<Rightarrow> string \<Rightarrow> credential \<Rightarrow> 'd \<Rightarrow> (webauthn_error + unit) \<times> 'd" where
  "Wa_Create D ctx now new_id cred d =
     (let cred = (if wc_ID cred = [] then cred\<lparr>wc_ID := new_id\<rparr> else cred) in
      case prepared_credential D ctx now cred of
        Inl es \<Rightarrow> (Inl (WTenantErrors es), d)
      | Inr c \<Rightarrow>
          (case tb_insert (wd_table D) [c] d of
             (Inl e, d') \<Rightarrow> (Inl (WDBError e), d')
           | (Inr _, d') \<Rightarrow> (Inr (), d')))"

text \<open>The query, update and delete callbacks as a condition on the row.\<close>

definition query_rows :: "'d webauthn_db \<Rightarrow> operation \<Rightarrow> go_ctx \<Rightarrow> tenant_error list + (credential \<Rightarrow> bool)" where
  "query_rows D op ctx =
     map_sum (\<lambda>e. e) (\<lambda>P c. P (wc_TenantID c)) (tenant_cond (wd_tenant_callbacks D) op (query_statement ctx))"

definition first_where ::
    "'d webauthn_db \<Rightarrow> go_ctx \<Rightarrow> (credential \<Rightarrow> bool) \<Rightarrow> 'd \<Rightarrow> webauthn_error + credential" where
  "first_where D ctx P d =
     (case query_rows D OpQuery ctx of
        Inl es \<Rightarrow> Inl (WTenantErrors es)
      | Inr scope \<Rightarrow>
          (case tb_find (wd_table D) (\<lambda>c. P c \<and> scope c) None (Some (1, 0)) d of
             Inl e \<Rightarrow> Inl (WDBError e)
           | Inr [] \<Rightarrow> Inl ErrCredentialNotFound
           | Inr (c # _) \<Rightarrow> Inr c))"

definition FindByCredentialID ::
    "'d webauthn_db \<Rightarrow> go_ctx \<Rightarrow> bytes \<Rightarrow> 'd \<Rightarrow> webauthn_error + credential" where
  "FindByCredentialID D ctx credentialID d = first_where D ctx (\<lambda>c. wc_CredentialID c = credentialID) d"

definition FindByUserIDAndCredentialID ::
    "'d webauthn_db \<Rightarrow> go_ctx \<Rightarrow> string \<Rightarrow> bytes \<Rightarrow> 'd \<Rightarrow> webauthn_error + credential" where
  "FindByUserIDAndCredentialID D ctx userID credentialID d =
     first_where D ctx (\<lambda>c. wc_UserID c = userID \<and> wc_CredentialID c = credentialID) d"

definition Wa_FindByID :: "'d webauthn_db \<Rightarrow> go_ctx \<Rightarrow> string \<Rightarrow> 'd \<Rightarrow> webauthn_error + credential" where
  "Wa_FindByID D ctx cid d = first_where D ctx (\<lambda>c. wc_ID c = cid) d"

definition ListByUserID ::
    "'d webauthn_db \<Rightarrow> go_ctx \<Rightarrow> string \<Rightarrow> 'd \<Rightarrow> webauthn_error + credential list" where
  "ListByUserID D ctx userID d =
     (case query_rows D OpQuery ctx of
        Inl es \<Rightarrow> Inl (WTenantErrors es)
      | Inr scope \<Rightarrow>
          (case tb_find (wd_table D) (\<lambda>c. wc_UserID c = userID \<and> scope c)
                  (Some (\<lambda>c. - wc_CreatedAt c)) None d of
             Inl e \<Rightarrow> Inl (WDBError e)
           | Inr cs \<Rightarrow> Inr cs))"

text \<open>\<^verbatim>\<open>Updates\<close> with a struct writes its non-zero fields, and the automatic update time.\<close>

definition nonzero :: "'a list \<Rightarrow> 'a list \<Rightarrow> 'a list" where
  "nonzero new old = (if new = [] then old else new)"

definition write_nonzero :: "timestamp \<Rightarrow> credential \<Rightarrow> credential \<Rightarrow> credential" where
  "write_nonzero now new old =
     \<lparr>wc_ID = nonzero (wc_ID new) (wc_ID old), wc_TenantID = nonzero (wc_TenantID new) (wc_TenantID old),
      wc_UserID = nonzero (wc_UserID new) (wc_UserID old),
      wc_CredentialID = nonzero (wc_CredentialID new) (wc_CredentialID old),
      wc_PublicKey = nonzero (wc_PublicKey new) (wc_PublicKey old),
      wc_AttestationType = nonzero (wc_AttestationType new) (wc_AttestationType old),
      wc_AAGUID = nonzero (wc_AAGUID new) (wc_AAGUID old),
      wc_SignCount = (if wc_SignCount new = 0 then wc_SignCount old else wc_SignCount new),
      wc_Name = nonzero (wc_Name new) (wc_Name old),
      wc_Transports = nonzero (wc_Transports new) (wc_Transports old),
      wc_CreatedAt = (if wc_CreatedAt new = 0 then wc_CreatedAt old else wc_CreatedAt new),
      wc_UpdatedAt = now,
      wc_LastUsedAt = (if wc_LastUsedAt new = None then wc_LastUsedAt old else wc_LastUsedAt new),
      wc_UserPresent = (wc_UserPresent new \<or> wc_UserPresent old),
      wc_UserVerified = (wc_UserVerified new \<or> wc_UserVerified old),
      wc_BackupEligible = (wc_BackupEligible new \<or> wc_BackupEligible old),
      wc_BackupState = (wc_BackupState new \<or> wc_BackupState old),
      wc_Attachment = nonzero (wc_Attachment new) (wc_Attachment old)\<rparr>"

definition affected :: "(string + int) \<times> 'd \<Rightarrow> (webauthn_error + unit) \<times> 'd" where
  "affected r = (case r of
       (Inl e, d) \<Rightarrow> (Inl (WDBError e), d)
     | (Inr n, d) \<Rightarrow> (if n = 0 then Inl ErrCredentialNotFound else Inr (), d))"

definition Wa_Update ::
    "'d webauthn_db \<Rightarrow> go_ctx \<Rightarrow> timestamp \<Rightarrow> credential \<Rightarrow> 'd \<Rightarrow> (webauthn_error + unit) \<times> 'd" where
  "Wa_Update D ctx now cred d =
     (case tenant_cond (wd_tenant_callbacks D) OpUpdate (update_statement ctx (wc_TenantID cred)) of
        Inl es \<Rightarrow> (Inl (WTenantErrors es), d)
      | Inr scope \<Rightarrow>
          affected (tb_update (wd_table D) (\<lambda>c. wc_ID c = wc_ID cred \<and> scope (wc_TenantID c))
            (write_nonzero now cred) d))"

definition delete_where ::
    "'d webauthn_db \<Rightarrow> go_ctx \<Rightarrow> (credential \<Rightarrow> bool) \<Rightarrow> 'd \<Rightarrow> (webauthn_error + unit) \<times> 'd" where
  "delete_where D ctx P d =
     (case query_rows D OpDelete ctx of
        Inl es \<Rightarrow> (Inl (WTenantErrors es), d)
      | Inr scope \<Rightarrow> affected (tb_delete (wd_table D) (\<lambda>c. P c \<and> scope c) d))"

definition Wa_Delete :: "'d webauthn_db \<Rightarrow> go_ctx \<Rightarrow> string \<Rightarrow> 'd \<Rightarrow> (webauthn_error + unit) \<times> 'd" where
  "Wa_Delete D ctx cid d = delete_where D ctx (\<lambda>c. wc_ID c = cid) d"

definition DeleteByUserID :: "'d webauthn_db \<Rightarrow> go_ctx \<Rightarrow> string \<Rightarrow> 'd \<Rightarrow> (webauthn_error + unit) \<times> 'd" where
  "DeleteByUserID D ctx userID d = delete_where D ctx (\<lambda>c. wc_UserID c = userID) d"

text \<open>
  The lookup and the update are two statements; \<open>between\<close> is what other clients do to the database
  in between. The result is the stored count, the warning and the error.
\<close>

definition save_count ::
    "'d webauthn_db \<Rightarrow> go_ctx \<Rightarrow> timestamp \<Rightarrow> credential \<Rightarrow> 32 word \<Rightarrow> bool \<Rightarrow> 'd \<Rightarrow>
     (32 word \<times> bool \<times> webauthn_error option) \<times> 'd" where
  "save_count D ctx now cred newSignCount warning d =
     (case Wa_Update D ctx now (cred\<lparr>wc_SignCount := newSignCount\<rparr>) d of
        (Inl e, d') \<Rightarrow> ((wc_SignCount cred, False, Some e), d')
      | (Inr _, d') \<Rightarrow> ((wc_SignCount cred, warning, None), d'))"

definition VerifyAndIncrementSignCount ::
    "'d webauthn_db \<Rightarrow> go_ctx \<Rightarrow> timestamp \<Rightarrow> ('d \<Rightarrow> 'd) \<Rightarrow> bytes \<Rightarrow> 32 word \<Rightarrow> 'd \<Rightarrow>
     (32 word \<times> bool \<times> webauthn_error option) \<times> 'd" where
  "VerifyAndIncrementSignCount D ctx now between credentialID newSignCount d =
     (case first_where D ctx (\<lambda>c. wc_CredentialID c = credentialID) d of
        Inl e \<Rightarrow> ((0, False, Some e), d)
      | Inr cred \<Rightarrow>
          if newSignCount < wc_SignCount cred
          then ((wc_SignCount cred, False, Some ErrCredentialNotFound), d)
          else if newSignCount = wc_SignCount cred
          then save_count D ctx now cred newSignCount True (between d)
          else save_count D ctx now cred newSignCount False (between d))"

subsection \<open>Correctness\<close>

text \<open>The rows that a context may see.\<close>

definition visible :: "'d webauthn_db \<Rightarrow> go_ctx \<Rightarrow> credential \<Rightarrow> bool" where
  "visible D ctx c \<longleftrightarrow> (if \<not> wd_tenant_callbacks D then True
     else if FromContext ctx \<noteq> [] then wc_TenantID c = FromContext ctx else IsBypassed ctx)"

lemma query_rows_visible:
  assumes "op \<in> {OpQuery, OpDelete}"
  shows "query_rows D op ctx =
    (if wd_tenant_callbacks D \<and> FromContext ctx = [] \<and> \<not> IsBypassed ctx then Inl [ErrTenantRequired]
     else Inr (visible D ctx))"
proof (cases "wd_tenant_callbacks D")
  case True
  then have t: "wd_tenant_callbacks D = True" by simp
  show ?thesis
    unfolding query_rows_def t tenant_cond_query [OF assms] visible_def ctx_cond_def
    by (simp add: fun_eq_iff)
next
  case False
  then show ?thesis by (simp add: query_rows_def visible_def fun_eq_iff)
qed

lemma first_where_Inr:
  assumes "table_laws (wd_table D) pk uk" "first_where D ctx P d = Inr c"
  shows "c \<in> set (tb_rows (wd_table D) d) \<and> P c \<and> visible D ctx c"
proof -
  obtain scope rs where s: "query_rows D OpQuery ctx = Inr scope"
    and f: "tb_find (wd_table D) (\<lambda>c. P c \<and> scope c) None (Some (1, 0)) d = Inr (c # rs)"
    using assms(2) by (auto simp: first_where_def split: sum.splits list.splits)
  then have "scope = visible D ctx" by (simp add: query_rows_visible split: if_splits)
  then show ?thesis using find_set [OF assms(1) f] by auto
qed

text \<open>
  With the tenant callbacks an update by the struct of a stored credential is refused, since
  the struct carries its tenant.
\<close>

lemma Update_of_tenant_credential:
  assumes "wd_tenant_callbacks D" "wc_TenantID c \<noteq> []"
  shows "Wa_Update D ctx now c d = (Inl (WTenantErrors [ErrTenantIDImmutable]), d)"
proof -
  have t: "wd_tenant_callbacks D = True" using assms(1) by simp
  show ?thesis unfolding Wa_Update_def t tenant_cond_update using assms(2) by simp
qed

text \<open>C36. On a database handle with the tenant callbacks, and credentials that belong to tenants, the sign
  count check never succeeds and never stores a count: every call ends with an error and leaves
  the database as the other clients made it, so the counter that is to reveal cloned
  authenticators stays at its first value.\<close>

theorem tenant_callbacks_block_sign_counts:
  assumes "table_laws (wd_table D) wc_ID uk" "wd_tenant_callbacks D"
    and "list_all (\<lambda>c. wc_TenantID c \<noteq> []) (tb_rows (wd_table D) d)"
    and "VerifyAndIncrementSignCount D ctx now between cid n d = ((stored, warning, err), d')"
  shows "err \<noteq> None \<and> (d' = d \<or> d' = between d)"
proof (cases "first_where D ctx (\<lambda>c. wc_CredentialID c = cid) d")
  case (Inl e)
  then show ?thesis using assms(4) by (auto simp: VerifyAndIncrementSignCount_def)
next
  case (Inr c)
  then have "wc_TenantID c \<noteq> []"
    using first_where_Inr [OF assms(1) Inr] assms(3) by (auto simp: list_all_iff)
  then have "save_count D ctx now c n w e = ((wc_SignCount c, False,
      Some (WTenantErrors [ErrTenantIDImmutable])), e)" for w e
    using Update_of_tenant_credential [OF assms(2), of "c\<lparr>wc_SignCount := n\<rparr>" ctx now e]
    by (simp add: save_count_def)
  then show ?thesis using assms(4) Inr by (auto simp: VerifyAndIncrementSignCount_def split: if_splits)
qed

definition demo_credential :: credential where
  "demo_credential = \<lparr>wc_ID = ''c1'', wc_TenantID = ''t1'', wc_UserID = ''u1'', wc_CredentialID = ''key'',
     wc_PublicKey = ''pub'', wc_AttestationType = ''none'', wc_AAGUID = [], wc_SignCount = 3, wc_Name = [],
     wc_Transports = [], wc_CreatedAt = 5, wc_UpdatedAt = 5, wc_LastUsedAt = None, wc_UserPresent = True,
     wc_UserVerified = False, wc_BackupEligible = False, wc_BackupState = False, wc_Attachment = []\<rparr>"

definition demo_webauthn_db :: "bool \<Rightarrow> (credential list) webauthn_db" where
  "demo_webauthn_db callbacks =
     \<lparr>wd_table = ref_table (\<lambda>d. d) (\<lambda>rows d. rows) wc_ID (\<lambda>c. (wc_TenantID c, wc_CredentialID c)),
      wd_tenant_callbacks = callbacks, wd_migrate = (\<lambda>d. (Inr (), d))\<rparr>"

lemma demo_webauthn_laws:
  "table_laws (wd_table (demo_webauthn_db c)) wc_ID (\<lambda>c. (wc_TenantID c, wc_CredentialID c))"
  unfolding demo_webauthn_db_def webauthn_db.simps by (rule ref_table_laws) simp

definition demo_verify :: "bool \<Rightarrow> (credential list \<Rightarrow> credential list) \<Rightarrow>
    (32 word \<times> bool \<times> webauthn_error option) \<times> credential list" where
  "demo_verify callbacks between =
     VerifyAndIncrementSignCount (demo_webauthn_db callbacks) (WithTenant ''t1'' Background) 9 between
       ''key'' 4 [demo_credential]"

theorem tenant_callbacks_block_sign_counts_witness:
  "fst (demo_verify True (\<lambda>d. d)) = (3, False, Some (WTenantErrors [ErrTenantIDImmutable])) \<and>
   snd (demo_verify True (\<lambda>d. d)) = [demo_credential]"
proof -
  have 1: "fst (demo_verify True (\<lambda>d. d)) = (3, False, Some (WTenantErrors [ErrTenantIDImmutable]))"
    by code_simp
  obtain d' where d': "VerifyAndIncrementSignCount (demo_webauthn_db True) (WithTenant ''t1'' Background) 9
      (\<lambda>d. d) ''key'' 4 [demo_credential] = ((3, False, Some (WTenantErrors [ErrTenantIDImmutable])), d')"
    using 1 by (cases "demo_verify True (\<lambda>d. d)") (simp add: demo_verify_def)
  have "list_all (\<lambda>c. wc_TenantID c \<noteq> []) (tb_rows (wd_table (demo_webauthn_db True)) [demo_credential])"
    by code_simp
  from tenant_callbacks_block_sign_counts [OF demo_webauthn_laws _ this d'] d' 1
  show ?thesis by (simp add: demo_verify_def demo_webauthn_db_def)
qed

text \<open>
  Without the callbacks: the two statements of two calls with the same count, from the
  authenticator and from its clone, can interleave so that both succeed without a warning.
\<close>

theorem sign_count_check_is_not_atomic:
  "fst (demo_verify False (\<lambda>d. d)) = (3, False, None) \<and>
   fst (demo_verify False (\<lambda>d. snd (demo_verify False (\<lambda>d. d)))) = (3, False, None)"
  by (rule conjI; code_simp)

lemma Update_without_callbacks:
  assumes "table_laws (wd_table D) pk uk" "\<not> wd_tenant_callbacks D" "Wa_Update D ctx now c d = (r, d')"
  shows "(r = Inr () \<longrightarrow> tb_rows (wd_table D) d' =
        map (\<lambda>x. if wc_ID x = wc_ID c then write_nonzero now c x else x) (tb_rows (wd_table D) d)) \<and>
      (r \<noteq> Inr () \<longrightarrow> tb_rows (wd_table D) d' = tb_rows (wd_table D) d)"
proof -
  have u: "Wa_Update D ctx now c d =
      affected (tb_update (wd_table D) (\<lambda>x. wc_ID x = wc_ID c) (write_nonzero now c) d)"
    using assms(2) by (simp add: Wa_Update_def)
  obtain q e where q: "tb_update (wd_table D) (\<lambda>x. wc_ID x = wc_ID c) (write_nonzero now c) d = (q, e)"
    by fastforce
  from update_lawD [OF assms(1) q]
  show ?thesis
  proof (cases q)
    case (Inr n)
    have l: "tb_rows (wd_table D) e =
        map (\<lambda>x. if wc_ID x = wc_ID c then write_nonzero now c x else x) (tb_rows (wd_table D) d)"
      "n = int (length (filter (\<lambda>x. wc_ID x = wc_ID c) (tb_rows (wd_table D) d)))"
      using update_lawD [OF assms(1) q] Inr by simp_all
    show ?thesis
    proof (cases "n = 0")
      case True
      then have "\<forall>x\<in>set (tb_rows (wd_table D) d). wc_ID x \<noteq> wc_ID c"
        using l(2) by (simp add: filter_empty_conv)
      then have "tb_rows (wd_table D) e = tb_rows (wd_table D) d"
        unfolding l(1) by (simp add: map_idI)
      then show ?thesis using assms(3) u q Inr True by (auto simp: affected_def)
    next
      case False
      then show ?thesis using assms(3) u q Inr l(1) by (auto simp: affected_def)
    qed
  qed (use assms(3) u q in \<open>auto simp: affected_def\<close>)
qed

text \<open>Without the tenant callbacks and without other clients: a count below the stored one is refused
  and changes nothing; otherwise the call either fails and changes nothing, or stores the count
  in that credential alone and warns exactly when it has not grown, so that a stored count never
  falls.\<close>

theorem sign_count_verdict:
  assumes "table_laws (wd_table D) wc_ID uk" "\<not> wd_tenant_callbacks D"
    and "distinct (map wc_ID (tb_rows (wd_table D) d))"
    and "VerifyAndIncrementSignCount D ctx now (\<lambda>d. d) cid n d = ((stored, warning, err), d')"
    and "err = None \<or> stored \<noteq> 0"
  shows "\<exists>c \<in> set (tb_rows (wd_table D) d). wc_CredentialID c = cid \<and> stored = wc_SignCount c \<and>
    (if n < stored then err = Some ErrCredentialNotFound \<and> d' = d
     else if err = None
     then warning = (n = stored) \<and>
       tb_rows (wd_table D) d' = map (\<lambda>x. if wc_ID x = wc_ID c
         then write_nonzero now (c\<lparr>wc_SignCount := n\<rparr>) x else x) (tb_rows (wd_table D) d) \<and>
       list_all2 (\<lambda>x y. wc_ID x = wc_ID y \<and> wc_SignCount x \<le> wc_SignCount y)
         (tb_rows (wd_table D) d) (tb_rows (wd_table D) d')
     else tb_rows (wd_table D) d' = tb_rows (wd_table D) d)"
proof -
  obtain c where f: "first_where D ctx (\<lambda>c. wc_CredentialID c = cid) d = Inr c"
    using assms(4,5) by (cases "first_where D ctx (\<lambda>c. wc_CredentialID c = cid) d")
      (auto simp: VerifyAndIncrementSignCount_def)
  then have c: "c \<in> set (tb_rows (wd_table D) d)" "wc_CredentialID c = cid"
    using first_where_Inr [OF assms(1) f] by simp_all
  let ?n = "c\<lparr>wc_SignCount := n\<rparr>"
  obtain r e where u: "Wa_Update D ctx now ?n d = (r, e)" by fastforce
  note up = Update_without_callbacks [OF assms(1,2) u]
  have st: "stored = wc_SignCount c"
    using assms(4) f by (auto simp: VerifyAndIncrementSignCount_def save_count_def split: if_splits prod.splits sum.splits)
  show ?thesis
  proof (cases "n < stored")
    case True
    then show ?thesis using assms(4) f c st
      by (intro bexI [OF _ c(1)]) (auto simp: VerifyAndIncrementSignCount_def)
  next
    case False
    then have s: "save_count D ctx now c n (n = stored) d = ((stored, warning, err), d')"
      using assms(4) f st by (auto simp: VerifyAndIncrementSignCount_def split: if_splits)
    show ?thesis
    proof (cases r)
      case (Inl er)
      then show ?thesis using s u up c st False
        by (intro bexI [OF _ c(1)]) (auto simp: save_count_def)
    next
      case (Inr x)
      then have e: "err = None" "warning = (n = stored)" "d' = e" using s u by (auto simp: save_count_def)
      have rows: "tb_rows (wd_table D) d' =
          map (\<lambda>x. if wc_ID x = wc_ID c then write_nonzero now ?n x else x) (tb_rows (wd_table D) d)"
        using up Inr e(3) by simp
      have same: "x = c" if "x \<in> set (tb_rows (wd_table D) d)" "wc_ID x = wc_ID c" for x
        using assms(3) c(1) that by (meson distinct_map inj_onD)
      have m: "list_all2 (\<lambda>x y. wc_ID x = wc_ID y \<and> wc_SignCount x \<le> wc_SignCount y)
         (tb_rows (wd_table D) d) (tb_rows (wd_table D) d')"
        unfolding rows list_all2_map2
        by (rule list.rel_refl_strong) (use same False st in
            \<open>auto simp: write_nonzero_def nonzero_def not_less\<close>)
      show ?thesis
        by (rule bexI [OF _ c(1)]) (use c(2) st False e(1,2) rows m in simp)
    qed
  qed
qed

theorem sign_count_verdict_witness:
  "\<exists>c'. demo_verify False (\<lambda>d. d) = ((3, False, None), [c']) \<and> wc_SignCount c' = 4 \<and> wc_ID c' = ''c1''"
proof -
  have 1: "fst (demo_verify False (\<lambda>d. d)) = (3, False, None)" by code_simp
  obtain d' where d': "VerifyAndIncrementSignCount (demo_webauthn_db False) (WithTenant ''t1'' Background) 9
      (\<lambda>d. d) ''key'' 4 [demo_credential] = ((3, False, None), d')"
    using 1 by (cases "demo_verify False (\<lambda>d. d)") (simp add: demo_verify_def)
  have rows: "tb_rows (wd_table (demo_webauthn_db False)) d = d" for d
    by (simp add: demo_webauthn_db_def ref_table_def)
  have "\<not> wd_tenant_callbacks (demo_webauthn_db False)" by (simp add: demo_webauthn_db_def)
  from sign_count_verdict [OF demo_webauthn_laws this _ d', unfolded rows]
  have "d' = [write_nonzero 9 (demo_credential\<lparr>wc_SignCount := 4\<rparr>) demo_credential]"
    by (simp add: demo_credential_def)
  then show ?thesis
    using d' by (simp add: demo_verify_def write_nonzero_def nonzero_def demo_credential_def)
qed

end
