(* ===== verification/KexSmtp.thy ===== *)
theory KexSmtp
  imports KexRandom KexEncoding GoRunes GoTime
begin

text \<open>
  \<^verbatim>\<open>kex-utils/pkg/kexsmtp\<close>: messages and their MIME text, one SMTP delivery with its retries, and the
  SES variant. The connection to the server is a parameter over a state of the outside
  world: dialling, and one command of \<^verbatim>\<open>net/smtp\<close> at a time, each of which may fail. What
  was sent on which connection is recorded. The connection pool is theory \<open>SmtpPool\<close>.
\<close>

subsection \<open>Messages\<close>

type_synonym ContentType = string

definition ContentTypeTextPlain :: ContentType where "ContentTypeTextPlain = ''text/plain''"
definition ContentTypeTextHTML :: ContentType where "ContentTypeTextHTML = ''text/html''"

record attachment =
  at_Filename :: string
  at_ContentType :: string
  at_Data :: bytes

record mail =
  ml_From :: string
  ml_To :: "string list"
  ml_Cc :: "string list"
  ml_Bcc :: "string list"
  ml_Subject :: string
  ml_Body :: string
  ml_ContentType :: ContentType
  ml_Attachments :: "attachment list"
  ml_ReplyTo :: string

datatype mail_sentinel =
    ErrMailerClosed | ErrInvalidMessage | ErrSendFailed | ErrProviderError | ErrNilClient
  | ErrAuthFailed | ErrConnectionFailed

text \<open>An error: a sentinel, the error of a call to the outside, or the context's error, under texts.\<close>

datatype mail_error = MailSentinel mail_sentinel | Outside string | CtxError string | Wrapped string mail_error

fun mail_is :: "mail_error \<Rightarrow> mail_sentinel \<Rightarrow> bool" where
  "mail_is (MailSentinel s) t = (s = t)"
| "mail_is (Wrapped _ e) t = mail_is e t"
| "mail_is (Outside _) t = False"
| "mail_is (CtxError _) t = False"

text \<open>A nil message is \<open>None\<close>.\<close>

definition ValidateMessage :: "mail option \<Rightarrow> mail_error option" where
  "ValidateMessage msg =
     (case msg of
        None \<Rightarrow> Some (MailSentinel ErrInvalidMessage)
      | Some m \<Rightarrow>
          if ml_To m = [] \<and> ml_Cc m = [] \<and> ml_Bcc m = [] then Some (MailSentinel ErrInvalidMessage)
          else if ml_Subject m = [] \<and> ml_Body m = [] \<and> ml_Attachments m = []
          then Some (MailSentinel ErrInvalidMessage)
          else None)"

definition collectRecipients :: "mail \<Rightarrow> string list" where
  "collectRecipients m = ml_To m @ ml_Cc m @ ml_Bcc m"

subsection \<open>Random texts\<close>

text \<open>\<^verbatim>\<open>hex.EncodeToString\<close> of random bytes; \<open>nano\<close> is the reading of the clock used when there are none.\<close>

definition rand_bytes :: "nat \<Rightarrow> entropy \<Rightarrow> bytes option \<times> entropy" where
  "rand_bytes n e = (case rand_Read n e of
       (Returns (Some bs), e') \<Rightarrow> (Some (map (\<lambda>b. char_of (unat b)) bs), e')
     | (_, e') \<Rightarrow> (None, e'))"

definition randomBoundary :: "int \<Rightarrow> entropy \<Rightarrow> string \<times> entropy" where
  "randomBoundary nano e = (case rand_bytes 16 e of
       (None, e') \<Rightarrow> (''boundary-'' @ FormatInt nano, e')
     | (Some b, e') \<Rightarrow> (''----=_Part_'' @ hex_encode b, e'))"

text \<open>The bytes without randomness: the clock is read anew for each.\<close>

definition time_bytes :: "(nat \<Rightarrow> int) \<Rightarrow> nat \<Rightarrow> bytes" where
  "time_bytes clock n = map (\<lambda>i. char_of (nat (clock i div 2 ^ (8 * i) mod 256))) [0..<n]"

definition RandomString :: "(nat \<Rightarrow> int) \<Rightarrow> nat \<Rightarrow> entropy \<Rightarrow> string \<times> entropy" where
  "RandomString clock n e = (case rand_bytes ((n + 1) div 2) e of
       (None, e') \<Rightarrow> (take n (hex_encode (time_bytes clock ((n + 1) div 2))), e')
     | (Some b, e') \<Rightarrow> (take n (hex_encode b), e'))"

definition GenerateMessageID :: "int \<Rightarrow> (nat \<Rightarrow> int) \<Rightarrow> string \<Rightarrow> entropy \<Rightarrow> string \<times> entropy" where
  "GenerateMessageID nano clock host e =
     (let host = (if host = [] then ''localhost'' else host) in
      case RandomString clock 8 e of
        (r, e') \<Rightarrow> (''<'' @ FormatInt nano @ ''.'' @ r @ ''@'' @ host @ ''>'', e'))"

subsection \<open>Quoted-printable text\<close>

text \<open>
  The writer of \<^verbatim>\<open>mime/quotedprintable\<close>: what was flushed, the current line, and whether the last byte
  was a carriage return whose line break is written. Lines hold at most 76 bytes.
\<close>

record qp_state =
  qp_out :: string
  qp_line :: string
  qp_cr :: bool

definition crlf :: string where
  "crlf = [CHR 0x0D, CHR 0x0A]"

definition qp_crlf :: "qp_state \<Rightarrow> qp_state" where
  "qp_crlf w = w\<lparr>qp_out := qp_out w @ qp_line w @ crlf, qp_line := []\<rparr>"

definition qp_soft :: "qp_state \<Rightarrow> qp_state" where
  "qp_soft w = qp_crlf (w\<lparr>qp_line := qp_line w @ ''=''\<rparr>)"

definition upper_hex :: "nat \<Rightarrow> char" where
  "upper_hex d = char_of (if d < 10 then 48 + d else 55 + d)"

definition qp_encode :: "char \<Rightarrow> qp_state \<Rightarrow> qp_state" where
  "qp_encode b w =
     (let w = (if 75 - length (qp_line w) < 3 then qp_soft w else w)
      in w\<lparr>qp_line := qp_line w @ [CHR ''='', upper_hex (byte b div 16), upper_hex (byte b mod 16)]\<rparr>)"

definition qp_white :: "char \<Rightarrow> bool" where
  "qp_white b \<longleftrightarrow> b = CHR '' '' \<or> b = CHR 0x09"

definition qp_check_last :: "qp_state \<Rightarrow> qp_state" where
  "qp_check_last w =
     (if qp_line w = [] then w
      else let b = last (qp_line w) in
        if qp_white b then qp_encode b (w\<lparr>qp_line := butlast (qp_line w)\<rparr>) else w)"

definition qp_literal :: "char \<Rightarrow> bool" where
  "qp_literal b \<longleftrightarrow> 33 \<le> byte b \<and> byte b \<le> 126 \<and> b \<noteq> CHR ''='' \<or> qp_white b"

definition qp_write :: "char \<Rightarrow> qp_state \<Rightarrow> qp_state" where
  "qp_write b w =
     (if b = CHR 0x0A \<or> b = CHR 0x0D then
        (if qp_cr w \<and> b = CHR 0x0A then w\<lparr>qp_cr := False\<rparr>
         else let w = qp_crlf (qp_check_last w)
              in if b = CHR 0x0D then w\<lparr>qp_cr := True\<rparr> else w)
      else if qp_literal b then
        (let w = (if length (qp_line w) = 75 then qp_soft w else w)
         in w\<lparr>qp_line := qp_line w @ [b], qp_cr := False\<rparr>)
      else qp_encode b w)"

definition quoted_printable :: "string \<Rightarrow> string" where
  "quoted_printable s =
     (let w = qp_check_last (fold qp_write s \<lparr>qp_out = [], qp_line = [], qp_cr = False\<rparr>)
      in qp_out w @ qp_line w)"

subsection \<open>The MIME text\<close>

definition mimeEncodeHeader :: "string \<Rightarrow> string" where
  "mimeEncodeHeader s =
     (if list_ex (\<lambda>r. 127 < r) (runes s) then ''=?UTF-8?B?'' @ StdEncode s @ ''?='' else s)"

definition header_line :: "string \<Rightarrow> string \<Rightarrow> string" where
  "header_line name v = name @ '': '' @ v @ crlf"

definition quoted :: "string \<Rightarrow> string" where
  "quoted s = [CHR 0x22] @ s @ [CHR 0x22]"

text \<open>The lines of 76 characters of an attachment.\<close>

fun wrap76 :: "nat \<Rightarrow> string \<Rightarrow> string" where
  "wrap76 0 s = []"
| "wrap76 (Suc n) s = (if s = [] then [] else take 76 s @ crlf @ wrap76 n (drop 76 s))"

definition attachment_part :: "string \<Rightarrow> attachment \<Rightarrow> string" where
  "attachment_part boundary att =
     ''--'' @ boundary @ crlf @ header_line ''Content-Type'' (at_ContentType att) @
     header_line ''Content-Disposition'' (''attachment; filename='' @ quoted (at_Filename att)) @
     header_line ''Content-Transfer-Encoding'' ''base64'' @ crlf @
     (let encoded = StdEncode (at_Data att) in wrap76 (length encoded) encoded)"

definition message_headers :: "string \<Rightarrow> mail \<Rightarrow> string \<Rightarrow> go_time \<Rightarrow> string" where
  "message_headers from m messageID now =
     header_line ''From'' from @ header_line ''To'' (Join '', '' (ml_To m)) @
     (if ml_Cc m \<noteq> [] then header_line ''Cc'' (Join '', '' (ml_Cc m)) else []) @
     header_line ''Subject'' (mimeEncodeHeader (ml_Subject m)) @ header_line ''MIME-Version'' ''1.0'' @
     header_line ''Date'' (RFC1123Z now) @ header_line ''Message-Id'' messageID @
     (if ml_ReplyTo m \<noteq> [] then header_line ''Reply-To'' (ml_ReplyTo m) else [])"

definition text_headers :: "mail \<Rightarrow> string" where
  "text_headers m =
     (let contentType = (if ml_ContentType m = [] then ContentTypeTextPlain else ml_ContentType m)
      in header_line ''Content-Type'' (contentType @ ''; charset='' @ quoted ''utf-8'') @
         header_line ''Content-Transfer-Encoding'' ''quoted-printable'' @ crlf)"

text \<open>
  \<open>now\<close> is the time of the date line, \<open>nano\<close> the clock reading of the boundary. Writing to a buffer
  does not fail, so there is no error.
\<close>

definition BuildMessageBody ::
    "string \<Rightarrow> mail \<Rightarrow> string \<Rightarrow> go_time \<Rightarrow> int \<Rightarrow> entropy \<Rightarrow> bytes \<times> entropy" where
  "BuildMessageBody from m messageID now nano e =
     (let hasAttachments = ml_Attachments m \<noteq> [];
          (boundary, e') = (if hasAttachments then randomBoundary nano e else ([], e))
      in (message_headers from m messageID now @
          (if hasAttachments
           then header_line ''Content-Type'' (''multipart/mixed; boundary='' @ quoted boundary) @ crlf @
                ''--'' @ boundary @ crlf
           else []) @
          text_headers m @ quoted_printable (ml_Body m) @ crlf @
          concat (map (attachment_part boundary) (ml_Attachments m)) @
          (if hasAttachments then ''--'' @ boundary @ ''--'' @ crlf else []), e'))"

subsection \<open>Configuration\<close>

datatype TLSMode = TLSModeNone | TLSModeSTARTTLS | TLSModeTLS

record smtp_config =
  mc_Host :: string
  mc_Port :: int
  mc_Username :: string
  mc_Password :: string
  mc_From :: string
  mc_TLSMode :: TLSMode
  mc_LocalName :: string

definition smtp_addr :: "smtp_config \<Rightarrow> string" where
  "smtp_addr c = mc_Host c @ '':'' @ FormatInt (mc_Port c)"

text \<open>A mailer without a pool; \<open>ss_pooled\<close> tells whether one was attached.\<close>

record standard_smtp =
  ss_config :: smtp_config
  ss_addr :: string
  ss_pooled :: bool
  ss_closed :: bool

definition defaulted :: "smtp_config \<Rightarrow> smtp_config" where
  "defaulted c =
     (let c = (if mc_Port c = 0 then c\<lparr>mc_Port := 587\<rparr> else c)
      in if mc_From c = [] then c\<lparr>mc_From := mc_Username c\<rparr> else c)"

definition NewStandardSMTP :: "smtp_config \<Rightarrow> mail_error + standard_smtp" where
  "NewStandardSMTP config =
     (if mc_Host config = [] then Inl (MailSentinel ErrConnectionFailed)
      else Inr \<lparr>ss_config = defaulted config, ss_addr = smtp_addr (defaulted config), ss_pooled = False,
             ss_closed = False\<rparr>)"

record ses_config =
  es_Username :: string
  es_Password :: string
  es_Region :: string
  es_From :: string

definition NewSESSMTP :: "ses_config \<Rightarrow> mail_error + standard_smtp" where
  "NewSESSMTP config =
     (if es_Username config = [] \<or> es_Password config = [] then Inl (MailSentinel ErrAuthFailed)
      else
        (let region = (if es_Region config = [] then ''us-east-1'' else es_Region config) in
         if es_From config = [] then Inl (MailSentinel ErrInvalidMessage)
         else NewStandardSMTP
           \<lparr>mc_Host = ''email-smtp.'' @ region @ ''.amazonaws.com'', mc_Port = 465,
            mc_Username = es_Username config, mc_Password = es_Password config, mc_From = es_From config,
            mc_TLSMode = TLSModeTLS, mc_LocalName = []\<rparr>))"

text \<open>The placeholder for the API variant.\<close>

definition NewSES :: "mail_error + unit" where
  "NewSES = Inl (Wrapped ''kexsmtp: SES API adapter requires AWS SDK, use NewSESSMTP() instead''
     (MailSentinel ErrProviderError))"

subsection \<open>The connection\<close>

text \<open>
  One call of \<^verbatim>\<open>net/smtp\<close>, \<^verbatim>\<open>crypto/tls\<close> or \<^verbatim>\<open>net\<close> on a connection. \<open>CmdAuth\<close> carries user, password and
  host.
\<close>

datatype smtp_cmd =
    CmdHandshake string | CmdNewClient string | CmdStartTLS string | CmdAuth string string string
  | CmdMail string | CmdRcpt string | CmdData | CmdWrite bytes | CmdCloseData
  | CmdNoop | CmdQuit | CmdClose

record ('w, 'c) smtp_net =
  sn_dial :: "duration \<Rightarrow> string \<Rightarrow> 'w \<Rightarrow> (string + 'c) \<times> 'w"
  sn_cmd :: "'c \<Rightarrow> smtp_cmd \<Rightarrow> 'w \<Rightarrow> string option \<times> 'w"
  sn_wait :: "duration \<Rightarrow> 'w \<Rightarrow> string option \<times> 'w"  \<comment> \<open>a timer, or the context's error\<close>

text \<open>The state of a run, with the commands so far and whether each succeeded.\<close>

record ('w, 'c) mail_run =
  mr_world :: 'w
  mr_log :: "('c \<times> smtp_cmd \<times> bool) list"

definition issue :: "('w, 'c) smtp_net \<Rightarrow> 'c \<Rightarrow> smtp_cmd \<Rightarrow> ('w, 'c) mail_run \<Rightarrow> string option \<times> ('w, 'c) mail_run" where
  "issue N c cmd st =
     (case sn_cmd N c cmd (mr_world st) of
        (e, w) \<Rightarrow> (e, \<lparr>mr_world = w, mr_log = mr_log st @ [(c, cmd, e = None)]\<rparr>))"

text \<open>A command whose error ends the call: \<open>undo\<close> is what is done first, \<open>wrap\<close> the error returned.\<close>

definition require ::
    "('w, 'c) smtp_net \<Rightarrow> 'c \<Rightarrow> smtp_cmd \<Rightarrow> (('w, 'c) mail_run \<Rightarrow> ('w, 'c) mail_run) \<Rightarrow> (string \<Rightarrow> mail_error) \<Rightarrow>
     (('w, 'c) mail_run \<Rightarrow> (mail_error + 'a) \<times> ('w, 'c) mail_run) \<Rightarrow> ('w, 'c) mail_run \<Rightarrow>
     (mail_error + 'a) \<times> ('w, 'c) mail_run" where
  "require N c cmd undo wrap next_step st =
     (case issue N c cmd st of
        (Some e, st) \<Rightarrow> (Inl (wrap e), undo st)
      | (None, st) \<Rightarrow> next_step st)"

definition close_conn :: "('w, 'c) smtp_net \<Rightarrow> 'c \<Rightarrow> ('w, 'c) mail_run \<Rightarrow> ('w, 'c) mail_run" where
  "close_conn N c st = snd (issue N c CmdClose st)"

definition wrapped :: "string \<Rightarrow> string \<Rightarrow> mail_error" where
  "wrapped text e = Wrapped text (Outside e)"

definition auth_step ::
    "('w, 'c) smtp_net \<Rightarrow> smtp_config \<Rightarrow> 'c \<Rightarrow> ('w, 'c) mail_run \<Rightarrow> (mail_error + 'c) \<times> ('w, 'c) mail_run" where
  "auth_step N cfg c st =
     (if mc_Username cfg \<noteq> [] \<and> mc_Password cfg \<noteq> []
      then require N c (CmdAuth (mc_Username cfg) (mc_Password cfg) (mc_Host cfg)) (close_conn N c)
             (\<lambda>_. Wrapped [] (MailSentinel ErrAuthFailed)) (\<lambda>st. (Inr c, st)) st
      else (Inr c, st))"

definition starttls_step ::
    "('w, 'c) smtp_net \<Rightarrow> smtp_config \<Rightarrow> 'c \<Rightarrow> ('w, 'c) mail_run \<Rightarrow> (mail_error + 'c) \<times> ('w, 'c) mail_run" where
  "starttls_step N cfg c st =
     (if mc_TLSMode cfg = TLSModeSTARTTLS
      then require N c (CmdStartTLS (mc_Host cfg)) (close_conn N c) (wrapped ''starttls failed'')
             (auth_step N cfg c) st
      else auth_step N cfg c st)"

definition greet_step ::
    "('w, 'c) smtp_net \<Rightarrow> smtp_config \<Rightarrow> 'c \<Rightarrow> ('w, 'c) mail_run \<Rightarrow> (mail_error + 'c) \<times> ('w, 'c) mail_run" where
  "greet_step N cfg c st =
     require N c (CmdNewClient (mc_Host cfg)) (close_conn N c) (wrapped ''failed to create smtp client'')
       (starttls_step N cfg c) st"

text \<open>\<^verbatim>\<open>dial\<close>, of a mailer and, apart from its count, of a pool.\<close>

definition dial_timeout :: duration where
  "dial_timeout = 30 * 1000000000"

definition smtp_dial ::
    "('w, 'c) smtp_net \<Rightarrow> smtp_config \<Rightarrow> string \<Rightarrow> ('w, 'c) mail_run \<Rightarrow> (mail_error + 'c) \<times> ('w, 'c) mail_run" where
  "smtp_dial N cfg addr st =
     (case sn_dial N dial_timeout addr (mr_world st) of
        (Inl e, w) \<Rightarrow> (Inl (wrapped ''failed to connect'' e), st\<lparr>mr_world := w\<rparr>)
      | (Inr c, w) \<Rightarrow>
          (let st = st\<lparr>mr_world := w\<rparr> in
           if mc_TLSMode cfg = TLSModeTLS
           then require N c (CmdHandshake (mc_Host cfg)) (close_conn N c) (wrapped ''tls handshake failed'')
                  (greet_step N cfg c) st
           else greet_step N cfg c st))"

subsection \<open>Sending\<close>

record send_result =
  sr_MessageID :: string
  sr_SentAt :: timestamp

text \<open>The operations of an attached pool, as the mailer uses them.\<close>

record ('w, 'c) pool_ops =
  po_get :: "('w, 'c) mail_run \<Rightarrow> (mail_error + 'c) \<times> ('w, 'c) mail_run"
  po_put :: "'c \<Rightarrow> bool \<Rightarrow> ('w, 'c) mail_run \<Rightarrow> ('w, 'c) mail_run"

definition drop_conn ::
    "('w, 'c) pool_ops option \<Rightarrow> 'c \<Rightarrow> ('w, 'c) mail_run \<Rightarrow> ('w, 'c) mail_run" where
  "drop_conn pool c st = (case pool of None \<Rightarrow> st | Some p \<Rightarrow> po_put p c True st)"

fun rcpt_all ::
    "('w, 'c) smtp_net \<Rightarrow> ('w, 'c) pool_ops option \<Rightarrow> 'c \<Rightarrow> string list \<Rightarrow>
     (('w, 'c) mail_run \<Rightarrow> (mail_error + 'a) \<times> ('w, 'c) mail_run) \<Rightarrow> ('w, 'c) mail_run \<Rightarrow>
     (mail_error + 'a) \<times> ('w, 'c) mail_run" where
  "rcpt_all N pool c [] next_step st = next_step st"
| "rcpt_all N pool c (r # rs) next_step st =
     require N c (CmdRcpt r) (drop_conn pool c) (wrapped ''failed to set recipient'')
       (rcpt_all N pool c rs next_step) st"

text \<open>The connection goes back to the pool, or is quit.\<close>

definition finish_send ::
    "('w, 'c) smtp_net \<Rightarrow> ('w \<Rightarrow> timestamp) \<Rightarrow> ('w, 'c) pool_ops option \<Rightarrow> 'c \<Rightarrow> string \<Rightarrow> ('w, 'c) mail_run \<Rightarrow>
     (mail_error + send_result) \<times> ('w, 'c) mail_run" where
  "finish_send N clock pool c messageID st =
     (let st = (case pool of Some p \<Rightarrow> po_put p c False st | None \<Rightarrow> snd (issue N c CmdQuit st))
      in (Inr \<lparr>sr_MessageID = messageID, sr_SentAt = clock (mr_world st)\<rparr>, st))"

definition transfer ::
    "('w, 'c) smtp_net \<Rightarrow> ('w \<Rightarrow> timestamp) \<Rightarrow> ('w, 'c) pool_ops option \<Rightarrow> string \<Rightarrow> mail \<Rightarrow> bytes \<Rightarrow> string \<Rightarrow> 'c \<Rightarrow>
     ('w, 'c) mail_run \<Rightarrow> (mail_error + send_result) \<times> ('w, 'c) mail_run" where
  "transfer N clock pool from m body messageID c =
     require N c (CmdMail from) (drop_conn pool c) (wrapped ''failed to set sender'')
       (rcpt_all N pool c (collectRecipients m)
         (require N c CmdData (drop_conn pool c) (wrapped ''failed to open data'')
           (require N c (CmdWrite body) (\<lambda>st. drop_conn pool c (snd (issue N c CmdCloseData st)))
               (wrapped ''failed to write message'')
             (require N c CmdCloseData (drop_conn pool c) (wrapped ''failed to close data'')
               (finish_send N clock pool c messageID)))))"

definition sendOnce ::
    "('w, 'c) smtp_net \<Rightarrow> ('w \<Rightarrow> timestamp) \<Rightarrow> ('w, 'c) pool_ops option \<Rightarrow> standard_smtp \<Rightarrow> string \<Rightarrow> mail \<Rightarrow> bytes \<Rightarrow>
     string \<Rightarrow> ('w, 'c) mail_run \<Rightarrow> (mail_error + send_result) \<times> ('w, 'c) mail_run" where
  "sendOnce N clock pool s from m body messageID st =
     (case pool of
        Some p \<Rightarrow>
          (case po_get p st of
             (Inl e, st) \<Rightarrow> (Inl (Wrapped ''failed to get connection'' e), st)
           | (Inr c, st) \<Rightarrow> transfer N clock pool from m body messageID c st)
      | None \<Rightarrow>
          (case smtp_dial N (ss_config s) (ss_addr s) st of
             (Inl e, st) \<Rightarrow> (Inl e, st)
           | (Inr c, st) \<Rightarrow>
               (case transfer N clock pool from m body messageID c st of
                  (r, st) \<Rightarrow> (r, close_conn N c st))))"

definition isNonRetryableError :: "mail_error \<Rightarrow> bool" where
  "isNonRetryableError e \<longleftrightarrow> mail_is e ErrAuthFailed \<or> mail_is e ErrInvalidMessage"

definition smtp_maxRetries :: nat where "smtp_maxRetries = 3"

definition send_failed :: "mail_error \<Rightarrow> mail_error" where
  "send_failed e = Wrapped ''kexsmtp: send failed after 3 attempts'' e"

text \<open>
  The loop: \<open>left\<close> attempts remain, \<open>try_once\<close> is one of them, \<open>lastErr\<close> the error of the one before.
\<close>

fun attempts ::
    "('w, 'c) smtp_net \<Rightarrow> (('w, 'c) mail_run \<Rightarrow> (mail_error + 'a) \<times> ('w, 'c) mail_run) \<Rightarrow> nat \<Rightarrow> mail_error \<Rightarrow>
     ('w, 'c) mail_run \<Rightarrow> (mail_error + 'a) \<times> ('w, 'c) mail_run" where
  "attempts N try_once 0 lastErr st = (Inl (send_failed lastErr), st)"
| "attempts N try_once (Suc left) lastErr st =
     (let attempt = smtp_maxRetries - Suc left;
          (waited, w) = (if 0 < attempt
             then sn_wait N (int (attempt * attempt) * 1000000000) (mr_world st) else (None, mr_world st));
          st = st\<lparr>mr_world := w\<rparr>
      in case waited of
           Some e \<Rightarrow> (Inl (CtxError e), st)
         | None \<Rightarrow>
             (case try_once st of
                (Inr r, st) \<Rightarrow> (Inr r, st)
              | (Inl e, st) \<Rightarrow>
                  if isNonRetryableError e then (Inl (send_failed e), st)
                  else attempts N try_once left e st))"

text \<open>The clock readings and random bytes of a call: for the identifier, the date and the boundary.\<close>

record send_inputs =
  si_id_nano :: int
  si_id_clock :: "nat \<Rightarrow> int"
  si_date :: go_time
  si_boundary_nano :: int
  si_entropy :: entropy

definition Smtp_Send ::
    "('w, 'c) smtp_net \<Rightarrow> ('w \<Rightarrow> timestamp) \<Rightarrow> ('w, 'c) pool_ops option \<Rightarrow> standard_smtp \<Rightarrow> send_inputs \<Rightarrow>
     mail option \<Rightarrow> ('w, 'c) mail_run \<Rightarrow> (mail_error + send_result) \<times> ('w, 'c) mail_run" where
  "Smtp_Send N clock pool s inp msg st =
     (if ss_closed s then (Inl (MailSentinel ErrMailerClosed), st)
      else case ValidateMessage msg of
          Some e \<Rightarrow> (Inl e, st)
        | None \<Rightarrow>
           (let m = the msg;
                from = (if ml_From m = [] then mc_From (ss_config s) else ml_From m);
                (messageID, e) = GenerateMessageID (si_id_nano inp) (si_id_clock inp) (mc_Host (ss_config s)) (si_entropy inp);
                (body, e) = BuildMessageBody from m messageID (si_date inp) (si_boundary_nano inp) e
            in attempts N (sendOnce N clock pool s from m body messageID) smtp_maxRetries
                 (MailSentinel ErrSendFailed) st))"

definition Smtp_Ping ::
    "('w, 'c) smtp_net \<Rightarrow> standard_smtp \<Rightarrow> ('w, 'c) mail_run \<Rightarrow> mail_error option \<times> ('w, 'c) mail_run" where
  "Smtp_Ping N s st =
     (if ss_closed s then (Some (MailSentinel ErrMailerClosed), st)
      else case sn_dial N (10 * 1000000000) (ss_addr s) (mr_world st) of
          (Inl e, w) \<Rightarrow> (Some (wrapped ''kexsmtp: ping failed'' e), st\<lparr>mr_world := w\<rparr>)
        | (Inr c, w) \<Rightarrow>
            (case issue N c (CmdNewClient (mc_Host (ss_config s))) (st\<lparr>mr_world := w\<rparr>) of
               (Some e, st) \<Rightarrow> (Some (wrapped ''kexsmtp: ping failed'' e), close_conn N c st)
             | (None, st) \<Rightarrow>
                 (case issue N c CmdNoop st of
                    (Some e, st) \<Rightarrow> (Some (wrapped ''kexsmtp: ping failed'' e), close_conn N c (close_conn N c st))
                  | (None, st) \<Rightarrow> (None, close_conn N c (close_conn N c (snd (issue N c CmdQuit st)))))))"

subsection \<open>What a sending puts on the wire\<close>

definition is_mail :: "'c \<times> smtp_cmd \<times> bool \<Rightarrow> bool" where
  "is_mail x = (case x of (_, CmdMail _, _) \<Rightarrow> True | _ \<Rightarrow> False)"

definition mails :: "('c \<times> smtp_cmd \<times> bool) list \<Rightarrow> nat" where
  "mails l = length (filter is_mail l)"

definition in_transaction :: "smtp_cmd \<Rightarrow> bool" where
  "in_transaction cmd = (case cmd of CmdMail _ \<Rightarrow> True | CmdRcpt _ \<Rightarrow> True | CmdData \<Rightarrow> True
     | CmdWrite _ \<Rightarrow> True | CmdCloseData \<Rightarrow> True | _ \<Rightarrow> False)"

definition quiet :: "('c \<times> smtp_cmd \<times> bool) list \<Rightarrow> bool" where
  "quiet l = list_all (\<lambda>(_, cmd, _). \<not> in_transaction cmd) l"

text \<open>A pool's own commands are no part of a mail transaction.\<close>

definition quiet_pool :: "('w, 'c) pool_ops \<Rightarrow> bool" where
  "quiet_pool p \<longleftrightarrow>
     (\<forall>st r st'. po_get p st = (r, st') \<longrightarrow> (\<exists>l. mr_log st' = mr_log st @ l \<and> quiet l)) \<and>
     (\<forall>c b st. \<exists>l. mr_log (po_put p c b st) = mr_log st @ l \<and> quiet l)"

definition tx_log :: "'c \<Rightarrow> string \<Rightarrow> string list \<Rightarrow> bytes \<Rightarrow> ('c \<times> smtp_cmd \<times> bool) list" where
  "tx_log c from rcpts body =
     [(c, CmdMail from, True)] @ map (\<lambda>r. (c, CmdRcpt r, True)) rcpts @
     [(c, CmdData, True), (c, CmdWrite body, True), (c, CmdCloseData, True)]"

lemma mails_simps [simp]: "mails [] = 0" "mails (a @ b) = mails a + mails b"
  by (simp_all add: mails_def)

lemma quiet_simps [simp]: "quiet []" "quiet (a @ b) = (quiet a \<and> quiet b)"
  by (simp_all add: quiet_def)

lemma mails_Cons [simp]: "mails ((c, cmd, b) # l) = (case cmd of CmdMail _ \<Rightarrow> 1 | _ \<Rightarrow> 0) + mails l"
  by (cases cmd) (simp_all add: mails_def is_mail_def)

lemma quiet_mails: "quiet l \<Longrightarrow> mails l = 0"
  by (auto simp: quiet_def mails_def list_all_iff is_mail_def in_transaction_def filter_empty_conv
      split: smtp_cmd.splits)

text \<open>\<open>grows n f\<close>: \<open>f\<close> only adds to the record, with at most \<open>n\<close> MAIL commands.\<close>

definition grows :: "nat \<Rightarrow> (('w, 'c) mail_run \<Rightarrow> 'a \<times> ('w, 'c) mail_run) \<Rightarrow> bool" where
  "grows n f \<longleftrightarrow> (\<forall>st r st'. f st = (r, st') \<longrightarrow> (\<exists>l. mr_log st' = mr_log st @ l \<and> mails l \<le> n))"

lemma growsI:
  "(\<And>st r st'. f st = (r, st') \<Longrightarrow> \<exists>l. mr_log st' = mr_log st @ l \<and> mails l \<le> n) \<Longrightarrow> grows n f"
  by (simp add: grows_def)

lemma growsD: "grows n f \<Longrightarrow> f st = (r, st') \<Longrightarrow> \<exists>l. mr_log st' = mr_log st @ l \<and> mails l \<le> n"
  by (simp add: grows_def)

lemma issue_log: "issue N c cmd st = (e, st') \<Longrightarrow> mr_log st' = mr_log st @ [(c, cmd, e = None)]"
  by (auto simp: issue_def split: prod.splits)

lemma grows_issue: "(\<And>f. cmd \<noteq> CmdMail f) \<Longrightarrow> grows 0 (issue N c cmd)"
  by (rule growsI, drule issue_log) (auto split: smtp_cmd.splits)

lemma grows_require:
  assumes "grows n k" "\<And>st. \<exists>l. mr_log (undo st) = mr_log st @ l \<and> mails l = 0"
  shows "grows (n + (case cmd of CmdMail _ \<Rightarrow> 1 | _ \<Rightarrow> 0)) (require N c cmd undo wrap k)"
proof (rule growsI)
  fix st r st'
  assume r: "require N c cmd undo wrap k st = (r, st')"
  obtain e st1 where i: "issue N c cmd st = (e, st1)" by fastforce
  note l1 = issue_log [OF i]
  show "\<exists>l. mr_log st' = mr_log st @ l \<and> mails l \<le> n + (case cmd of CmdMail _ \<Rightarrow> 1 | _ \<Rightarrow> 0)"
  proof (cases e)
    case None
    then have "k st1 = (r, st')" using r i by (simp add: require_def)
    from growsD [OF assms(1) this] l1 show ?thesis by auto
  next
    case (Some x)
    then have "st' = undo st1" using r i by (simp add: require_def)
    with assms(2) [of st1] l1 show ?thesis by auto
  qed
qed

lemma undo_close: "\<exists>l. mr_log (close_conn N c st) = mr_log st @ l \<and> mails l = 0"
  using issue_log [of N c CmdClose st] by (cases "issue N c CmdClose st") (auto simp: close_conn_def)

lemma undo_drop:
  assumes "\<And>p. pool = Some p \<Longrightarrow> quiet_pool p"
  shows "\<exists>l. mr_log (drop_conn pool c st) = mr_log st @ l \<and> mails l = 0"
proof (cases pool)
  case (Some p)
  then obtain l where "mr_log (po_put p c True st) = mr_log st @ l" "quiet l"
    using assms [OF Some] unfolding quiet_pool_def by blast
  with Some show ?thesis by (auto simp: drop_conn_def dest: quiet_mails)
qed (simp add: drop_conn_def)

lemma undo_drop_data:
  assumes "\<And>p. pool = Some p \<Longrightarrow> quiet_pool p"
  shows "\<exists>l. mr_log (drop_conn pool c (snd (issue N c CmdCloseData st))) = mr_log st @ l \<and> mails l = 0"
proof -
  obtain e st1 where i: "issue N c CmdCloseData st = (e, st1)" by fastforce
  from undo_drop [OF assms] obtain l where "mr_log (drop_conn pool c st1) = mr_log st1 @ l" "mails l = 0" by blast
  with i issue_log [OF i] show ?thesis by auto
qed

lemma grows_rcpt_all:
  assumes "grows n k" "\<And>p. pool = Some p \<Longrightarrow> quiet_pool p"
  shows "grows n (rcpt_all N pool c rs k)"
proof (induction rs)
  case Nil
  show ?case using assms(1) by (simp add: grows_def)
next
  case (Cons r rs)
  have "rcpt_all N pool c (r # rs) k = require N c (CmdRcpt r) (drop_conn pool c)
      (wrapped ''failed to set recipient'') (rcpt_all N pool c rs k)" by (rule ext) simp
  then show ?case
    using grows_require [OF Cons.IH undo_drop [OF assms(2)], where cmd = "CmdRcpt r"] by simp
qed

lemma grows_finish:
  assumes "\<And>p. pool = Some p \<Longrightarrow> quiet_pool p"
  shows "grows 0 (finish_send N clock pool c mid)"
proof (rule growsI)
  fix st r st'
  assume "finish_send N clock pool c mid st = (r, st')"
  then have st': "st' = (case pool of Some p \<Rightarrow> po_put p c False st | None \<Rightarrow> snd (issue N c CmdQuit st))"
    by (simp add: finish_send_def Let_def)
  show "\<exists>l. mr_log st' = mr_log st @ l \<and> mails l \<le> 0"
  proof (cases pool)
    case None
    then show ?thesis using issue_log [of N c CmdQuit st] st' by (cases "issue N c CmdQuit st") auto
  next
    case (Some p)
    then obtain l where "mr_log (po_put p c False st) = mr_log st @ l" "quiet l"
      using assms [OF Some] unfolding quiet_pool_def by blast
    with Some st' show ?thesis by (auto dest: quiet_mails)
  qed
qed

lemma grows_transfer:
  assumes q: "\<And>p. pool = Some p \<Longrightarrow> quiet_pool p"
  shows "grows 1 (transfer N clock pool from m body mid c)"
proof -
  note u = undo_drop [OF q]
  have 1: "grows 0 (require N c CmdCloseData (drop_conn pool c) (wrapped ''failed to close data'')
      (finish_send N clock pool c mid))"
    using grows_require [OF grows_finish [OF q] u, where cmd = CmdCloseData] by simp
  have 2: "grows 0 (require N c (CmdWrite body) (\<lambda>st. drop_conn pool c (snd (issue N c CmdCloseData st)))
      (wrapped ''failed to write message'') (require N c CmdCloseData (drop_conn pool c)
        (wrapped ''failed to close data'') (finish_send N clock pool c mid)))"
    using grows_require [OF 1 undo_drop_data [OF q], where cmd = "CmdWrite body"] by simp
  note 3 = grows_require [OF 2 u, where cmd = CmdData and N = N and c = c and wrap = "wrapped ''failed to open data''"]
  note 4 = grows_rcpt_all [OF 3 q, where N = N and c = c and rs = "collectRecipients m"]
  show ?thesis
    unfolding transfer_def
    using grows_require [OF 4 u, where cmd = "CmdMail from"] by simp
qed

lemma grows_auth: "grows 0 (auth_step N cfg c)"
proof -
  have r: "grows 0 (\<lambda>st. (Inr c, st))" by (simp add: grows_def)
  have "grows 0 (require N c (CmdAuth a b d) (close_conn N c) wrap (\<lambda>st. (Inr c, st)))" for a b d wrap
    using grows_require [OF r undo_close, where cmd = "CmdAuth a b d"] by simp
  with r show ?thesis by (auto simp: auth_step_def grows_def)
qed

lemma grows_dial: "grows 0 (smtp_dial N cfg addr)"
proof -
  have "grows 0 (require N c (CmdStartTLS h) (close_conn N c) wrap (auth_step N cfg c))" for c h wrap
    using grows_require [OF grows_auth undo_close, where cmd = "CmdStartTLS h"] by simp
  then have s: "grows 0 (starttls_step N cfg c)" for c
    using grows_auth [of N cfg c] by (auto simp: starttls_step_def grows_def)
  have g: "grows 0 (greet_step N cfg c)" for c
    using grows_require [OF s undo_close, where cmd = "CmdNewClient (mc_Host cfg)"]
    by (simp add: greet_step_def grows_def)
  have h: "grows 0 (require N c (CmdHandshake h) (close_conn N c) wrap (greet_step N cfg c))" for c h wrap
    using grows_require [OF g undo_close, where cmd = "CmdHandshake h"] by simp
  show ?thesis
  proof (rule growsI)
    fix st r st'
    assume d: "smtp_dial N cfg addr st = (r, st')"
    obtain x w where x: "sn_dial N dial_timeout addr (mr_world st) = (x, w)" by fastforce
    show "\<exists>l. mr_log st' = mr_log st @ l \<and> mails l \<le> 0"
    proof (cases x)
      case (Inl e)
      then show ?thesis using d x by (auto simp: smtp_dial_def)
    next
      case (Inr c)
      then have "(if mc_TLSMode cfg = TLSModeTLS
           then require N c (CmdHandshake (mc_Host cfg)) (close_conn N c) (wrapped ''tls handshake failed'')
                  (greet_step N cfg c) (st\<lparr>mr_world := w\<rparr>)
           else greet_step N cfg c (st\<lparr>mr_world := w\<rparr>)) = (r, st')"
        using d x by (simp add: smtp_dial_def Let_def)
      then show ?thesis using growsD [OF h] growsD [OF g] by (fastforce split: if_splits)
    qed
  qed
qed

lemma require_ok:
  assumes "require N c cmd undo wrap k st = (Inr r, st')"
  shows "\<exists>st1. mr_log st1 = mr_log st @ [(c, cmd, True)] \<and> k st1 = (Inr r, st')"
proof -
  obtain e st1 where i: "issue N c cmd st = (e, st1)" by fastforce
  with assms have "e = None" "k st1 = (Inr r, st')" by (auto simp: require_def split: option.splits)
  with issue_log [OF i] show ?thesis by auto
qed

lemma rcpt_all_ok:
  "rcpt_all N pool c rs k st = (Inr r, st') \<Longrightarrow>
     \<exists>st1. mr_log st1 = mr_log st @ map (\<lambda>x. (c, CmdRcpt x, True)) rs \<and> k st1 = (Inr r, st')"
proof (induction rs arbitrary: st)
  case (Cons x rs)
  from require_ok [OF Cons.prems [unfolded rcpt_all.simps]] obtain st1
    where "mr_log st1 = mr_log st @ [(c, CmdRcpt x, True)]" "rcpt_all N pool c rs k st1 = (Inr r, st')" by blast
  with Cons.IH [of st1] show ?case by auto
qed auto

lemma finish_send_ok:
  assumes q: "\<And>p. pool = Some p \<Longrightarrow> quiet_pool p" and f: "finish_send N clock pool c mid st = (r, st')"
  shows "\<exists>l. mr_log st' = mr_log st @ l \<and> quiet l"
proof (cases pool)
  case None
  then have "st' = snd (issue N c CmdQuit st)" using f by (simp add: finish_send_def Let_def)
  then show ?thesis using issue_log [of N c CmdQuit st]
    by (cases "issue N c CmdQuit st") (auto simp: quiet_def in_transaction_def)
next
  case (Some p)
  then have "st' = po_put p c False st" using f by (simp add: finish_send_def Let_def)
  then show ?thesis using q [OF Some] unfolding quiet_pool_def by blast
qed

lemma transfer_ok:
  assumes q: "\<And>p. pool = Some p \<Longrightarrow> quiet_pool p"
    and t: "transfer N clock pool from m body mid c st = (Inr r, st')"
  shows "\<exists>post. mr_log st' = mr_log st @ tx_log c from (collectRecipients m) body @ post \<and> quiet post"
proof -
  from require_ok [OF t [unfolded transfer_def]] obtain st1 where 1: "mr_log st1 = mr_log st @ [(c, CmdMail from, True)]"
    and t1: "rcpt_all N pool c (collectRecipients m)
         (require N c CmdData (drop_conn pool c) (wrapped ''failed to open data'')
           (require N c (CmdWrite body) (\<lambda>st. drop_conn pool c (snd (issue N c CmdCloseData st)))
               (wrapped ''failed to write message'')
             (require N c CmdCloseData (drop_conn pool c) (wrapped ''failed to close data'')
               (finish_send N clock pool c mid)))) st1 = (Inr r, st')" by blast
  from rcpt_all_ok [OF t1] obtain st2 where
    2: "mr_log st2 = mr_log st1 @ map (\<lambda>x. (c, CmdRcpt x, True)) (collectRecipients m)"
    and t2: "require N c CmdData (drop_conn pool c) (wrapped ''failed to open data'')
           (require N c (CmdWrite body) (\<lambda>st. drop_conn pool c (snd (issue N c CmdCloseData st)))
               (wrapped ''failed to write message'')
             (require N c CmdCloseData (drop_conn pool c) (wrapped ''failed to close data'')
               (finish_send N clock pool c mid))) st2 = (Inr r, st')" by blast
  from require_ok [OF t2] obtain st3 where 3: "mr_log st3 = mr_log st2 @ [(c, CmdData, True)]"
    and t3: "require N c (CmdWrite body) (\<lambda>st. drop_conn pool c (snd (issue N c CmdCloseData st)))
               (wrapped ''failed to write message'')
             (require N c CmdCloseData (drop_conn pool c) (wrapped ''failed to close data'')
               (finish_send N clock pool c mid)) st3 = (Inr r, st')" by blast
  from require_ok [OF t3] obtain st4 where 4: "mr_log st4 = mr_log st3 @ [(c, CmdWrite body, True)]"
    and t4: "require N c CmdCloseData (drop_conn pool c) (wrapped ''failed to close data'')
               (finish_send N clock pool c mid) st4 = (Inr r, st')" by blast
  from require_ok [OF t4] obtain st5 where 5: "mr_log st5 = mr_log st4 @ [(c, CmdCloseData, True)]"
    and t5: "finish_send N clock pool c mid st5 = (Inr r, st')" by blast
  from finish_send_ok [OF q t5] 1 2 3 4 5 show ?thesis by (auto simp: tx_log_def)
qed

lemma quiet_close: "quiet [(c, CmdClose, b)]"
  by (simp add: quiet_def in_transaction_def)

lemma close_conn_log: "\<exists>b. mr_log (close_conn N c st) = mr_log st @ [(c, CmdClose, b)]"
  using issue_log [of N c CmdClose st] by (cases "issue N c CmdClose st") (auto simp: close_conn_def)

text \<open>The two ways to a connection: where it comes from, and what follows the transfer.\<close>

lemma sendOnce_cases:
  assumes q: "\<And>p. pool = Some p \<Longrightarrow> quiet_pool p"
    and s: "sendOnce N clock pool s from m body mid st = (r, st')"
  shows "(\<exists>l. isl r \<and> mr_log st' = mr_log st @ l \<and> mails l = 0) \<or>
    (\<exists>c l st1 st2 post. mr_log st1 = mr_log st @ l \<and> mails l = 0 \<and>
       transfer N clock pool from m body mid c st1 = (r, st2) \<and> mr_log st' = mr_log st2 @ post \<and> quiet post)"
proof (cases pool)
  case None
  obtain d st1 where d: "smtp_dial N (ss_config s) (ss_addr s) st = (d, st1)" by fastforce
  from growsD [OF grows_dial d] obtain l where l: "mr_log st1 = mr_log st @ l" "mails l = 0" by auto
  show ?thesis
  proof (cases d)
    case (Inl e)
    then show ?thesis using None s d l by (auto simp: sendOnce_def)
  next
    case (Inr c)
    obtain r2 st2 where t: "transfer N clock pool from m body mid c st1 = (r2, st2)" by fastforce
    then have "r = r2" "st' = close_conn N c st2" using None s d Inr by (auto simp: sendOnce_def)
    then show ?thesis using t l close_conn_log [of N c st2] quiet_close by fast
  qed
next
  case (Some p)
  obtain d st1 where d: "po_get p st = (d, st1)" by fastforce
  with q [OF Some] obtain l where l: "mr_log st1 = mr_log st @ l" "mails l = 0"
    unfolding quiet_pool_def using quiet_mails by blast
  show ?thesis
  proof (cases d)
    case (Inl e)
    then show ?thesis using Some s d l by (auto simp: sendOnce_def)
  next
    case (Inr c)
    then have "transfer N clock pool from m body mid c st1 = (r, st')" using Some s d by (auto simp: sendOnce_def)
    moreover have "mr_log st' = mr_log st' @ []" by simp
    ultimately show ?thesis using l quiet_simps(1) by blast
  qed
qed

lemma grows_sendOnce:
  assumes q: "\<And>p. pool = Some p \<Longrightarrow> quiet_pool p"
  shows "grows 1 (sendOnce N clock pool s sender m body mid)"
proof (rule growsI)
  fix st r st'
  assume s: "sendOnce N clock pool s sender m body mid st = (r, st')"
  consider l where "mr_log st' = mr_log st @ l" "mails l = 0"
    | c l st1 st2 post where "mr_log st1 = mr_log st @ l" "mails l = 0"
        "transfer N clock pool sender m body mid c st1 = (r, st2)" "mr_log st' = mr_log st2 @ post" "quiet post"
    using sendOnce_cases [OF q s] by blast
  then show "\<exists>l. mr_log st' = mr_log st @ l \<and> mails l \<le> 1"
  proof cases
    case 2
    from growsD [OF grows_transfer [OF q] 2(3)] 2 show ?thesis by (auto dest: quiet_mails)
  qed auto
qed

lemma sendOnce_ok:
  assumes q: "\<And>p. pool = Some p \<Longrightarrow> quiet_pool p"
    and s: "sendOnce N clock pool s from m body mid st = (Inr r, st')"
  shows "\<exists>pre c post. mr_log st' = mr_log st @ pre @ tx_log c from (collectRecipients m) body @ post \<and> quiet post"
proof -
  from sendOnce_cases [OF q s] obtain c l st1 st2 post where 1: "mr_log st1 = mr_log st @ l"
    and t: "transfer N clock pool from m body mid c st1 = (Inr r, st2)"
    and 2: "mr_log st' = mr_log st2 @ post" "quiet post" by auto
  from transfer_ok [OF q t] obtain p where
    p: "mr_log st2 = mr_log st1 @ tx_log c from (collectRecipients m) body @ p" "quiet p" by blast
  have "mr_log st' = mr_log st @ l @ tx_log c from (collectRecipients m) body @ p @ post \<and> quiet (p @ post)"
    using 1 2 p by simp
  then show ?thesis by blast
qed

lemma grows_attempts:
  assumes "grows 1 try_once"
  shows "grows left (attempts N try_once left e)"
proof (induction left arbitrary: e)
  case (Suc left)
  show ?case
  proof (rule growsI)
    fix st r st'
    assume a: "attempts N try_once (Suc left) e st = (r, st')"
    define attempt where "attempt = smtp_maxRetries - Suc left"
    obtain d w where d: "(if 0 < attempt then sn_wait N (int (attempt * attempt) * 1000000000) (mr_world st)
        else (None, mr_world st)) = (d, w)" by fastforce
    obtain q st1 where q: "try_once (st\<lparr>mr_world := w\<rparr>) = (q, st1)" by fastforce
    from growsD [OF assms q] obtain l where l: "mr_log st1 = mr_log st @ l" "mails l \<le> 1" by auto
    have "mr_log st' = mr_log st \<or> st' = st1 \<or> (\<exists>e'. attempts N try_once left e' st1 = (r, st'))"
    proof (cases d)
      case None
      then have u: "attempts N try_once (Suc left) e st = (case (q, st1) of (Inr r, st) \<Rightarrow> (Inr r, st)
        | (Inl e, st) \<Rightarrow> if isNonRetryableError e then (Inl (send_failed e), st) else attempts N try_once left e st)"
        using d q unfolding attempts.simps attempt_def [symmetric] by (simp del: of_nat_mult)
      show ?thesis using a unfolding u by (auto split: sum.splits if_splits)
    next
      case (Some x)
      then have "attempts N try_once (Suc left) e st = (Inl (CtxError x), st\<lparr>mr_world := w\<rparr>)"
        using d unfolding attempts.simps attempt_def [symmetric] by (simp del: of_nat_mult)
      then show ?thesis using a by auto
    qed
    then consider "mr_log st' = mr_log st" | "st' = st1" | e' where "attempts N try_once left e' st1 = (r, st')" by blast
    then show "\<exists>l. mr_log st' = mr_log st @ l \<and> mails l \<le> Suc left"
    proof cases
      case 3
      from growsD [OF Suc.IH this] l show ?thesis by auto
    qed (use l in auto)
  qed
qed (simp add: grows_def)

lemma attempts_ok:
  assumes g: "grows n try_once"
  shows "attempts N try_once left e st = (Inr r, st') \<Longrightarrow>
     \<exists>l st1. mr_log st1 = mr_log st @ l \<and> try_once st1 = (Inr r, st')"
proof (induction left arbitrary: e st)
  case (Suc left)
  define attempt where "attempt = smtp_maxRetries - Suc left"
  obtain d w where d: "(if 0 < attempt then sn_wait N (int (attempt * attempt) * 1000000000) (mr_world st)
      else (None, mr_world st)) = (d, w)" by fastforce
  obtain q st1 where q: "try_once (st\<lparr>mr_world := w\<rparr>) = (q, st1)" by fastforce
  from growsD [OF g q] obtain l where l: "mr_log st1 = mr_log st @ l" by auto
  from Suc.prems d q consider "q = Inr r" "st1 = st'" | e' where "attempts N try_once left e' st1 = (Inr r, st')"
    by (auto simp: attempt_def [symmetric] Let_def split: option.splits sum.splits if_splits)
  then show ?case
  proof cases
    case 1
    then have "mr_log (st\<lparr>mr_world := w\<rparr>) = mr_log st @ [] \<and> try_once (st\<lparr>mr_world := w\<rparr>) = (Inr r, st')"
      using q by simp
    then show ?thesis by blast
  next
    case 2
    from Suc.IH [OF this] l show ?thesis by fastforce
  qed
qed simp

text \<open>Sender and text of a message, as a sending computes them.\<close>

definition sent_from :: "standard_smtp \<Rightarrow> mail \<Rightarrow> string" where
  "sent_from s m = (if ml_From m = [] then mc_From (ss_config s) else ml_From m)"

definition sent_body :: "standard_smtp \<Rightarrow> send_inputs \<Rightarrow> mail \<Rightarrow> bytes" where
  "sent_body s inp m =
     (case GenerateMessageID (si_id_nano inp) (si_id_clock inp) (mc_Host (ss_config s)) (si_entropy inp) of
        (messageID, e) \<Rightarrow>
          fst (BuildMessageBody (sent_from s m) m messageID (si_date inp) (si_boundary_nano inp) e))"

lemma BuildMessageBody_ignores_Bcc:
  "BuildMessageBody from (m\<lparr>ml_Bcc := b\<rparr>) mid now nano e = BuildMessageBody from m mid now nano e"
  by (simp add: BuildMessageBody_def message_headers_def text_headers_def Let_def)

lemma sent_body_ignores_Bcc: "sent_body s inp (m\<lparr>ml_Bcc := b\<rparr>) = sent_body s inp m"
  by (simp add: sent_body_def sent_from_def BuildMessageBody_ignores_Bcc cong: if_cong)

lemma Smtp_Send_valid:
  assumes "\<not> ss_closed s" "ValidateMessage msg = None" "msg = Some m"
  shows "\<exists>mid. Smtp_Send N clock pool s inp msg st =
    attempts N (sendOnce N clock pool s (sent_from s m) m (sent_body s inp m) mid) smtp_maxRetries
      (MailSentinel ErrSendFailed) st"
  using assms by (cases "GenerateMessageID (si_id_nano inp) (si_id_clock inp) (mc_Host (ss_config s)) (si_entropy inp)")
    (auto simp: Smtp_Send_def sent_body_def sent_from_def Let_def split: prod.splits)

text \<open>
  C38. A sending opens at most three mail transactions. When it reports success, the last one is
  complete: MAIL with the sender, RCPT for every To, Cc and Bcc address in this order, DATA, the text
  and its end, every command accepted, and no mail command after it. The text is the one of the
  message without its Bcc list, so blind recipients receive the message and are named nowhere in it.
\<close>

theorem mail_transactions:
  assumes "\<And>p. pool = Some p \<Longrightarrow> quiet_pool p"
    and "Smtp_Send N clock pool s inp msg st = (r, st')"
  shows "\<exists>l. mr_log st' = mr_log st @ l \<and> mails l \<le> 3 \<and>
    (isl r \<or> (\<exists>m pre c post. msg = Some m \<and> quiet post \<and>
       l = pre @ tx_log c (sent_from s m) (ml_To m @ ml_Cc m @ ml_Bcc m) (sent_body s inp (m\<lparr>ml_Bcc := []\<rparr>)) @ post))"
proof (cases "ss_closed s \<or> ValidateMessage msg \<noteq> None")
  case True
  then have "isl r \<and> mr_log st' = mr_log st @ []"
    using assms(2) by (auto simp: Smtp_Send_def split: option.splits if_splits)
  then show ?thesis using mails_simps(1) by (metis zero_le)
next
  case False
  then obtain m where m: "msg = Some m" by (cases msg) (auto simp: ValidateMessage_def)
  from False Smtp_Send_valid [OF _ _ m] obtain mid where
    a: "attempts N (sendOnce N clock pool s (sent_from s m) m (sent_body s inp m) mid) smtp_maxRetries
      (MailSentinel ErrSendFailed) st = (r, st')" using assms(2) by (metis (no_types))
  note g = grows_sendOnce [OF assms(1), where N = N and clock = clock and s = s and sender = "sent_from s m"
    and m = m and body = "sent_body s inp m" and mid = mid]
  from growsD [OF grows_attempts [OF g] a] obtain l where l: "mr_log st' = mr_log st @ l" "mails l \<le> 3"
    by (auto simp: smtp_maxRetries_def)
  show ?thesis
  proof (cases r)
    case (Inr x)
    from attempts_ok [OF g a [unfolded Inr]] obtain l1 st1 where 1: "mr_log st1 = mr_log st @ l1"
      and t: "sendOnce N clock pool s (sent_from s m) m (sent_body s inp m) mid st1 = (Inr x, st')" by blast
    from sendOnce_ok [OF assms(1) t] obtain p c post where
      "mr_log st' = mr_log st1 @ p @ tx_log c (sent_from s m) (collectRecipients m) (sent_body s inp m) @ post"
      and q: "quiet post" by blast
    with 1 l have "l = (l1 @ p) @ tx_log c (sent_from s m) (ml_To m @ ml_Cc m @ ml_Bcc m)
        (sent_body s inp (m\<lparr>ml_Bcc := []\<rparr>)) @ post"
      by (simp add: collectRecipients_def sent_body_ignores_Bcc)
    with l q m show ?thesis by blast
  qed (use l in auto)
qed

text \<open>An equation for evaluation that stops at an ASCII byte.\<close>

lemma runes_code [code]:
  "runes [] = []"
  "runes (c # s) = (if byte c < 128 then byte c # runes s
     else (case decode_rune (c # s) of (r, w) \<Rightarrow> r # runes (drop (w - 1) s)))"
  by (simp_all add: decode_rune_ascii)

text \<open>A server that refuses its second command, and a pool of one connection.\<close>

definition example_net :: "(nat, nat) smtp_net" where
  "example_net = \<lparr>sn_dial = (\<lambda>_ _ w. (Inr 1, w)),
     sn_cmd = (\<lambda>_ _ w. (if w = 1 then Some ''450'' else None, Suc w)), sn_wait = (\<lambda>_ w. (None, w))\<rparr>"

definition example_pool :: "(nat, nat) pool_ops" where
  "example_pool = \<lparr>po_get = (\<lambda>st. (Inr 1, st)), po_put = (\<lambda>_ _ st. st)\<rparr>"

definition example_mailer :: standard_smtp where
  "example_mailer = \<lparr>ss_config = \<lparr>mc_Host = ''h'', mc_Port = 587, mc_Username = ''u'', mc_Password = ''p'',
     mc_From = ''f'', mc_TLSMode = TLSModeNone, mc_LocalName = []\<rparr>, ss_addr = ''h:587'', ss_pooled = True,
     ss_closed = False\<rparr>"

definition example_mail :: mail where
  "example_mail = \<lparr>ml_From = [], ml_To = [''t''], ml_Cc = [], ml_Bcc = [''b''], ml_Subject = ''hi'', ml_Body = ''x'',
     ml_ContentType = [], ml_Attachments = [], ml_ReplyTo = []\<rparr>"

definition example_inputs :: send_inputs where
  "example_inputs = \<lparr>si_id_nano = 5, si_id_clock = (\<lambda>_. 5), si_date = \<lparr>gt_unix = 0, gt_nanos = 0, gt_offset = 0\<rparr>, si_boundary_nano = 5, si_entropy = (\<lambda>_. None)\<rparr>"

definition example_run :: "(mail_error + send_result) \<times> (nat, nat) mail_run" where
  "example_run = Smtp_Send example_net (\<lambda>w. 0) (Some example_pool) example_mailer example_inputs
     (Some example_mail) \<lparr>mr_world = 0, mr_log = []\<rparr>"

theorem mail_transactions_witness:
  "\<not> isl (fst example_run) \<and> mails (mr_log (snd example_run)) = 2 \<and>
   (\<exists>pre post. mr_log (snd example_run) =
      pre @ tx_log 1 ''f'' [''t'', ''b''] (sent_body example_mailer example_inputs example_mail) @ post)"
proof (intro conjI)
  show ok: "\<not> isl (fst example_run)" by code_simp
  show "mails (mr_log (snd example_run)) = 2" by code_simp
  have run: "Smtp_Send example_net (\<lambda>w. 0) (Some example_pool) example_mailer example_inputs
     (Some example_mail) \<lparr>mr_world = 0, mr_log = []\<rparr> = (fst example_run, snd example_run)"
    by (simp add: example_run_def)
  have q: "quiet_pool p" if "Some example_pool = Some p" for p
    using that by (auto simp: quiet_pool_def example_pool_def)
  have c: "list_all (\<lambda>(c, _). c = 1) (mr_log (snd example_run))" by code_simp
  have f: "sent_from example_mailer example_mail = ''f''" by code_simp
  have b: "sent_body example_mailer example_inputs (example_mail\<lparr>ml_Bcc := []\<rparr>) =
      sent_body example_mailer example_inputs example_mail" by (rule sent_body_ignores_Bcc)
  obtain pre c post where l: "mr_log (snd example_run) =
      pre @ tx_log c ''f'' [''t'', ''b''] (sent_body example_mailer example_inputs example_mail) @ post"
    using mail_transactions [OF q run] ok unfolding b [symmetric] f [symmetric] by (auto simp: example_mail_def)
  from l c have "c = 1" by (simp add: tx_log_def)
  with l show "\<exists>pre post. mr_log (snd example_run) =
      pre @ tx_log 1 ''f'' [''t'', ''b''] (sent_body example_mailer example_inputs example_mail) @ post" by blast
qed

text \<open>
  A probe speaks plain SMTP whatever the TLS mode: it never shakes hands, so a server that expects
  TLS first cannot answer it.
\<close>

definition plain_log :: "('c \<times> smtp_cmd \<times> bool) list \<Rightarrow> bool" where
  "plain_log l = list_all (\<lambda>(_, cmd, _). \<forall>h. cmd \<noteq> CmdHandshake h \<and> cmd \<noteq> CmdStartTLS h) l"

lemma ping_never_handshakes:
  assumes "Smtp_Ping N s st = (r, st')"
  shows "\<exists>l. mr_log st' = mr_log st @ l \<and> plain_log l"
proof (cases "ss_closed s")
  case False
  obtain x w where x: "sn_dial N (10 * 1000000000) (ss_addr s) (mr_world st) = (x, w)" by fastforce
  show ?thesis
  proof (cases x)
    case (Inr c)
    define st0 where "st0 = st\<lparr>mr_world := w\<rparr>"
    obtain e1 st1 where 1: "issue N c (CmdNewClient (mc_Host (ss_config s))) st0 = (e1, st1)" by fastforce
    obtain e2 st2 where 2: "issue N c CmdNoop st1 = (e2, st2)" by fastforce
    obtain e3 st3 where 3: "issue N c CmdQuit st2 = (e3, st3)" by fastforce
    have cl: "\<exists>l. mr_log (close_conn N c z) = mr_log z @ l \<and> plain_log l" for z
      using close_conn_log [of N c z] by (auto simp: plain_log_def)
    have cl2: "\<exists>l. mr_log (close_conn N c (close_conn N c z)) = mr_log z @ l \<and> plain_log l" for z
      using cl [of z] cl [of "close_conn N c z"] by (auto simp: plain_log_def)
    have "st' \<in> {close_conn N c st1, close_conn N c (close_conn N c st2), close_conn N c (close_conn N c st3)}"
      using assms False x Inr 1 2 3 by (auto simp: Smtp_Ping_def st0_def [symmetric] split: option.splits)
    moreover have "mr_log st1 = mr_log st @ [(c, CmdNewClient (mc_Host (ss_config s)), e1 = None)]"
      "mr_log st2 = mr_log st1 @ [(c, CmdNoop, e2 = None)]" "mr_log st3 = mr_log st2 @ [(c, CmdQuit, e3 = None)]"
      using issue_log [OF 1] issue_log [OF 2] issue_log [OF 3] by (simp_all add: st0_def)
    ultimately show ?thesis using cl [of st1] cl2 [of st2] cl2 [of st3] by (auto simp: plain_log_def)
  qed (use assms False x in \<open>auto simp: Smtp_Ping_def plain_log_def\<close>)
qed (use assms in \<open>auto simp: Smtp_Ping_def plain_log_def\<close>)

text \<open>An ASCII subject reaches the headers as it is, so one with a line break adds a header.\<close>

lemma mimeEncodeHeader_ascii: "list_all (\<lambda>r. r \<le> 127) (runes s) \<Longrightarrow> mimeEncodeHeader s = s"
  by (auto simp: mimeEncodeHeader_def list_all_iff list_ex_iff)

lemma subject_adds_a_header:
  "header_line ''Subject'' (mimeEncodeHeader (''x'' @ crlf @ ''Bcc: y'')) =
     header_line ''Subject'' ''x'' @ header_line ''Bcc'' ''y''"
proof -
  have "mimeEncodeHeader (''x'' @ crlf @ ''Bcc: y'') = ''x'' @ crlf @ ''Bcc: y''"
    by code_simp
  then show ?thesis by (simp add: header_line_def)
qed

end
