(* ===== verification/MailMime.thy ===== *)
theory MailMime
  imports KexSmtp "HOL-Library.Sublist"
begin

text \<open>
  What a receiver reads from the text that \<open>BuildMessageBody\<close> of \<open>KexSmtp\<close> writes: the quoted-printable
  body and the base64 attachments decode to what was given, and no part contains the delimiter.
\<close>

subsection \<open>The receiver\<close>

definition unhex :: "char \<Rightarrow> nat" where
  "unhex a = (if 65 \<le> byte a then byte a - 55 else byte a - 48)"

text \<open>The decoder of RFC 2045 on texts without white space before line breaks.\<close>

fun qp_decode :: "string \<Rightarrow> string" where
  "qp_decode (c # a # b # s) =
     (if c = CHR ''='' then
        (if a = CHR 0x0D \<and> b = CHR 0x0A then qp_decode s
         else char_of (16 * unhex a + unhex b) # qp_decode s)
      else c # qp_decode (a # b # s))"
| "qp_decode [a, b] = [a, b]"
| "qp_decode [a] = [a]"
| "qp_decode [] = []"

text \<open>Line breaks as they travel.\<close>

definition to_crlf :: "string \<Rightarrow> string" where
  "to_crlf s = concat (map (\<lambda>c. if c = CHR 0x0A then crlf else [c]) s)"

fun net_text :: "bool \<Rightarrow> string \<Rightarrow> string" where
  "net_text cr [] = []"
| "net_text cr (c # s) =
     (if c = CHR 0x0A then (if cr then net_text False s else crlf @ net_text False s)
      else if c = CHR 0x0D then crlf @ net_text True s
      else c # net_text (cr \<and> \<not> qp_literal c) s)"

lemma net_text_lf: "CHR 0x0D \<notin> set s \<Longrightarrow> net_text False s = to_crlf s"
  by (induction s) (auto simp: to_crlf_def)

lemma net_text_crlf: "CHR 0x0D \<notin> set s \<Longrightarrow> net_text False (to_crlf s) = to_crlf s"
  by (induction s) (auto simp: to_crlf_def crlf_def)

subsection \<open>Quoted-printable bodies\<close>

definition decodes :: "string \<Rightarrow> string \<Rightarrow> bool" where
  "decodes u s \<longleftrightarrow> (\<forall>t. qp_decode (u @ t) = s @ qp_decode t)"

lemma decodes_append: "decodes u s \<Longrightarrow> decodes v t \<Longrightarrow> decodes (u @ v) (s @ t)"
  by (simp add: decodes_def)

lemma decodes_Nil: "decodes [] []"
  by (simp add: decodes_def)

lemma decodes_literal: "c \<noteq> CHR ''='' \<Longrightarrow> decodes [c] [c]"
proof (unfold decodes_def, intro allI)
  fix t assume "c \<noteq> CHR ''=''"
  then show "qp_decode ([c] @ t) = [c] @ qp_decode t"
    by (cases t rule: qp_decode.cases) simp_all
qed

lemma decodes_crlf: "decodes crlf crlf"
  using decodes_append [OF decodes_literal decodes_literal, of "CHR 0x0D" "CHR 0x0A"] by (simp add: crlf_def)

lemma decodes_soft: "decodes (''='' @ crlf) []"
  by (simp add: decodes_def crlf_def)

lemma unhex_upper: "d < 16 \<Longrightarrow> unhex (upper_hex d) = d"
  by (simp add: unhex_def upper_hex_def)

lemma upper_hex_no: "d < 16 \<Longrightarrow> byte (upper_hex d) \<noteq> 13"
  by (simp add: upper_hex_def)

lemma decodes_hex: "decodes [CHR ''='', upper_hex (byte b div 16), upper_hex (byte b mod 16)] [b]"
proof -
  have "byte b < 256" by (rule nat_of_char_less_256) 
  then have d: "byte b div 16 < 16" "byte b mod 16 < 16" by (simp_all add: less_mult_imp_div_less)
  have "upper_hex (byte b div 16) \<noteq> CHR 0x0D" using upper_hex_no [OF d(1)] by auto
  then show ?thesis by (simp add: decodes_def unhex_upper [OF d(1)] unhex_upper [OF d(2)] mult.commute)
qed

text \<open>
  The writer has taken \<open>s\<close>: what is flushed and the line decode to it, and so does the line without
  a white space at its end.
\<close>

definition line_ok :: "string \<Rightarrow> string \<Rightarrow> bool" where
  "line_ok l v \<longleftrightarrow> decodes l v \<and>
     (l \<noteq> [] \<and> qp_white (last l) \<longrightarrow> (\<exists>v'. decodes (butlast l) v' \<and> v = v' @ [last l]))"

definition written :: "qp_state \<Rightarrow> string \<Rightarrow> bool" where
  "written w s \<longleftrightarrow> (\<exists>u v. decodes (qp_out w) u \<and> line_ok (qp_line w) v \<and> s = u @ v)"

lemma line_ok_Nil: "line_ok [] []"
  by (simp add: line_ok_def decodes_Nil)

lemma line_ok_snoc: "line_ok l v \<Longrightarrow> c \<noteq> CHR ''='' \<Longrightarrow> line_ok (l @ [c]) (v @ [c])"
  using decodes_append [OF _ decodes_literal] by (auto simp: line_ok_def)

lemma line_ok_hex:
  assumes "decodes l v"
  shows "line_ok (l @ [CHR ''='', upper_hex (byte b div 16), upper_hex (byte b mod 16)]) (v @ [b])"
proof -
  have "byte b < 256" by (rule nat_of_char_less_256)
  then have "\<not> qp_white (upper_hex (byte b mod 16))" 
    by (auto simp: qp_white_def upper_hex_def dest!: arg_cong [where f = "of_char :: char \<Rightarrow> nat"])
  then show ?thesis using decodes_append [OF assms decodes_hex] by (simp add: line_ok_def)
qed

lemma written_crlf: "written w s \<Longrightarrow> written (qp_crlf w) (s @ crlf)"
  unfolding written_def qp_crlf_def line_ok_def
  using decodes_append [OF decodes_append decodes_crlf] decodes_Nil by fastforce

lemma written_soft: "written w s \<Longrightarrow> written (qp_soft w) s"
  unfolding written_def qp_crlf_def qp_soft_def line_ok_def
  using decodes_append [OF decodes_append decodes_soft] decodes_Nil by fastforce

lemma written_hex:
  assumes "decodes (qp_out w) u" "decodes (qp_line w) v"
  shows "written (w\<lparr>qp_line := qp_line w @ [CHR ''='', upper_hex (byte b div 16), upper_hex (byte b mod 16)]\<rparr>)
    ((u @ v) @ [b])"
  unfolding written_def using assms(1) line_ok_hex [OF assms(2), of b] by auto

lemma written_encode: "written w s \<Longrightarrow> written (qp_encode b w) (s @ [b])"
proof -
  define w' where "w' = (if 75 - length (qp_line w) < 3 then qp_soft w else w)"
  assume "written w s"
  then have "written w' s" by (simp add: w'_def written_soft)
  then obtain u v where u: "decodes (qp_out w') u" "decodes (qp_line w') v" "s = u @ v"
    unfolding written_def line_ok_def by blast
  show ?thesis using written_hex [OF u(1,2), of b] u(3) unfolding qp_encode_def Let_def w'_def by simp
qed

lemma written_check_last: "written w s \<Longrightarrow> written (qp_check_last w) s"
proof (cases "qp_line w \<noteq> [] \<and> qp_white (last (qp_line w))")
  case True
  assume "written w s"
  then obtain u v where 1: "decodes (qp_out w) u" "line_ok (qp_line w) v" "s = u @ v" by (auto simp: written_def)
  with True obtain v' where v': "decodes (butlast (qp_line w)) v'" "v = v' @ [last (qp_line w)]"
    by (auto simp: line_ok_def)
  let ?l = "butlast (qp_line w)"
  define w' where "w' = (if 75 - length ?l < 3 then qp_soft (w\<lparr>qp_line := ?l\<rparr>) else w\<lparr>qp_line := ?l\<rparr>)"
  have "\<exists>u2 v2. decodes (qp_out w') u2 \<and> decodes (qp_line w') v2 \<and> u @ v' = u2 @ v2"
  proof (cases "75 - length ?l < 3")
    case True
    then have "w' = qp_soft (w\<lparr>qp_line := ?l\<rparr>)" by (simp add: w'_def)
    then have "decodes (qp_out w') (u @ v') \<and> decodes (qp_line w') []"
      using decodes_append [OF 1(1) decodes_append [OF v'(1) decodes_soft]]
      by (simp add: qp_soft_def qp_crlf_def decodes_Nil)
    moreover have "u @ v' = (u @ v') @ []" by simp
    ultimately show ?thesis by blast
  next
    case False
    then have "w' = w\<lparr>qp_line := ?l\<rparr>" by (simp add: w'_def)
    with 1(1) v'(1) show ?thesis by auto
  qed
  then obtain u2 v2 where 2: "decodes (qp_out w') u2" "decodes (qp_line w') v2" "u @ v' = u2 @ v2" by blast
  have "qp_check_last w = w'\<lparr>qp_line := qp_line w' @
      [CHR ''='', upper_hex (byte (last (qp_line w)) div 16), upper_hex (byte (last (qp_line w)) mod 16)]\<rparr>"
    using True unfolding qp_check_last_def qp_encode_def Let_def w'_def by simp
  moreover have "s = (u2 @ v2) @ [last (qp_line w)]" unfolding 2(3) [symmetric] 1(3) v'(2) by simp
  ultimately show ?thesis using written_hex [OF 2(1,2)] by simp
qed (auto simp: qp_check_last_def)

lemma written_literal:
  assumes "written w s" "c \<noteq> CHR ''=''"
  shows "written (w\<lparr>qp_line := qp_line w @ [c], qp_cr := b\<rparr>) (s @ [c])"
proof -
  from assms(1) obtain u v where "decodes (qp_out w) u" "line_ok (qp_line w) v" "s = u @ v"
    unfolding written_def by blast
  then have "decodes (qp_out w) u \<and> line_ok (qp_line w @ [c]) (v @ [c]) \<and> s @ [c] = u @ v @ [c]"
    using line_ok_snoc [OF _ assms(2)] by simp
  then show ?thesis unfolding written_def by auto
qed

lemma written_cr: "written (w\<lparr>qp_cr := b\<rparr>) s = written w s"
  by (simp add: written_def)

lemma qp_encode_cr [simp]: "qp_cr (qp_encode b w) = qp_cr w"
  by (simp add: qp_encode_def qp_soft_def qp_crlf_def Let_def)

lemma qp_check_last_cr [simp]: "qp_cr (qp_check_last w) = qp_cr w"
  by (simp add: qp_check_last_def Let_def)

lemma written_fold: "written w s \<Longrightarrow> written (fold qp_write t w) (s @ net_text (qp_cr w) t)"
proof (induction t arbitrary: w s)
  case (Cons c t)
  consider (drop) "c = CHR 0x0A" "qp_cr w" | (lf) "c = CHR 0x0A" "\<not> qp_cr w" | (cr) "c = CHR 0x0D"
    | (lit) "qp_literal c" "c \<noteq> CHR 0x0A" "c \<noteq> CHR 0x0D"
    | (enc) "\<not> qp_literal c" "c \<noteq> CHR 0x0A" "c \<noteq> CHR 0x0D" by blast
  then show ?case
  proof cases
    case drop
    then have w: "fold qp_write (c # t) w = fold qp_write t (w\<lparr>qp_cr := False\<rparr>)" by (simp add: qp_write_def)
    show ?thesis using Cons.IH [of "w\<lparr>qp_cr := False\<rparr>" s] Cons.prems drop unfolding w by (simp add: written_cr)
  next
    case lf
    then have w: "fold qp_write (c # t) w = fold qp_write t (qp_crlf (qp_check_last w))"
      by (simp add: qp_write_def Let_def)
    have "qp_cr (qp_crlf (qp_check_last w)) = qp_cr w" by (simp add: qp_crlf_def)
    then show ?thesis using Cons.IH [OF written_crlf [OF written_check_last [OF Cons.prems]]] lf
      unfolding w by simp
  next
    case cr
    then have w: "fold qp_write (c # t) w = fold qp_write t ((qp_crlf (qp_check_last w))\<lparr>qp_cr := True\<rparr>)"
      by (simp add: qp_write_def Let_def)
    show ?thesis using Cons.IH [of "(qp_crlf (qp_check_last w))\<lparr>qp_cr := True\<rparr>" "s @ crlf"]
        written_crlf [OF written_check_last [OF Cons.prems]] cr unfolding w by (simp add: written_cr)
  next
    case lit
    let ?w = "if length (qp_line w) = 75 then qp_soft w else w"
    have w: "qp_write c w = ?w\<lparr>qp_line := qp_line ?w @ [c], qp_cr := False\<rparr>"
      using lit by (simp add: qp_write_def Let_def)
    have "written ?w s" using Cons.prems by (simp add: written_soft)
    moreover have "c \<noteq> CHR ''=''" using lit by (auto simp: qp_literal_def qp_white_def)
    ultimately have "written (qp_write c w) (s @ [c])" unfolding w by (rule written_literal)
    from Cons.IH [OF this] lit show ?thesis by (simp add: w)
  next
    case enc
    then have w: "qp_write c w = qp_encode c w" by (simp add: qp_write_def)
    show ?thesis using Cons.IH [OF written_encode [OF Cons.prems]] enc by (simp add: w)
  qed
qed simp

lemma qp_decode_quoted_printable: "qp_decode (quoted_printable s) = net_text False s"
proof -
  let ?w = "fold qp_write s \<lparr>qp_out = [], qp_line = [], qp_cr = False\<rparr>"
  have "written \<lparr>qp_out = [], qp_line = [], qp_cr = False\<rparr> []"
    by (simp add: written_def decodes_Nil line_ok_Nil)
  from written_check_last [OF written_fold [OF this, of s]] have "written (qp_check_last ?w) (net_text False s)" by simp
  then obtain u v where "decodes (qp_out (qp_check_last ?w)) u" "decodes (qp_line (qp_check_last ?w)) v"
      "net_text False s = u @ v" unfolding written_def line_ok_def by blast
  moreover from this have "qp_decode ((qp_out (qp_check_last ?w) @ qp_line (qp_check_last ?w)) @ []) = (u @ v) @ []"
    using decodes_append unfolding decodes_def by (metis qp_decode.simps(4))
  ultimately show ?thesis by (simp add: quoted_printable_def Let_def)
qed

subsection \<open>Delimiters\<close>

text \<open>An equals sign is followed by something that is neither an underscore nor white.\<close>

fun eq_ok :: "string \<Rightarrow> bool" where
  "eq_ok [] = True"
| "eq_ok (c # s) = ((c = CHR ''='' \<longrightarrow> s \<noteq> [] \<and> hd s \<noteq> CHR ''_'' \<and> \<not> qp_white (hd s)) \<and> eq_ok s)"

lemma eq_ok_append: "eq_ok u \<Longrightarrow> eq_ok v \<Longrightarrow> eq_ok (u @ v)"
  by (induction u) auto

lemma eq_ok_butlast: "eq_ok (s @ [b]) \<Longrightarrow> qp_white b \<Longrightarrow> eq_ok s"
  by (induction s) (auto simp: hd_append split: if_splits)

lemma eq_ok_no_delimiter: "eq_ok (a @ ''=_'' @ b) \<Longrightarrow> False"
  by (induction a) auto

lemma eq_ok_not_sublist: "eq_ok u \<Longrightarrow> \<not> sublist (x @ ''=_'' @ y) u"
  using eq_ok_no_delimiter [of "_ @ x" "y @ _"] by (auto simp: sublist_def)

lemma eq_ok_crlf: "eq_ok crlf" "eq_ok (''='' @ crlf)"
  by (simp_all add: crlf_def qp_white_def)

lemma upper_hex_plain: "d < 16 \<Longrightarrow> upper_hex d \<noteq> CHR ''_'' \<and> upper_hex d \<noteq> CHR ''='' \<and> \<not> qp_white (upper_hex d)"
  by (auto simp: qp_white_def upper_hex_def dest!: arg_cong [where f = "of_char :: char \<Rightarrow> nat"])

lemma eq_ok_hex: "eq_ok [CHR ''='', upper_hex (byte b div 16), upper_hex (byte b mod 16)]"
proof -
  have "byte b < 256" by (rule nat_of_char_less_256)
  then show ?thesis using upper_hex_plain [of "byte b div 16"] upper_hex_plain [of "byte b mod 16"]
    by (simp add: less_mult_imp_div_less)
qed

definition tamed :: "qp_state \<Rightarrow> bool" where
  "tamed w \<longleftrightarrow> eq_ok (qp_out w) \<and> eq_ok (qp_line w)"

lemma tamed_crlf: "tamed w \<Longrightarrow> tamed (qp_crlf w)"
  by (simp add: tamed_def qp_crlf_def eq_ok_append eq_ok_crlf)

lemma tamed_soft: "tamed w \<Longrightarrow> tamed (qp_soft w)"
  using eq_ok_append [OF _ eq_ok_append [OF _ eq_ok_crlf(2)]] by (simp add: tamed_def qp_soft_def qp_crlf_def)

lemma tamed_encode: "tamed w \<Longrightarrow> tamed (qp_encode b w)"
proof -
  define w' where "w' = (if 75 - length (qp_line w) < 3 then qp_soft w else w)"
  assume "tamed w"
  then have "tamed w'" by (simp add: w'_def tamed_soft)
  then show ?thesis unfolding qp_encode_def Let_def w'_def [symmetric]
    by (simp add: tamed_def eq_ok_append eq_ok_hex del: eq_ok.simps)
qed

lemma tamed_check_last: "tamed w \<Longrightarrow> tamed (qp_check_last w)"
proof (cases "qp_line w \<noteq> [] \<and> qp_white (last (qp_line w))")
  case True
  assume "tamed w"
  then have "tamed (w\<lparr>qp_line := butlast (qp_line w)\<rparr>)"
    using True eq_ok_butlast [of "butlast (qp_line w)" "last (qp_line w)"] by (simp add: tamed_def)
  from tamed_encode [OF this] show ?thesis using True by (simp add: qp_check_last_def Let_def)
qed (auto simp: qp_check_last_def)

lemma tamed_cr: "tamed (w\<lparr>qp_cr := b\<rparr>) = tamed w"
  by (simp add: tamed_def)

lemma tamed_write: "tamed w \<Longrightarrow> tamed (qp_write c w)"
proof -
  define w' where "w' = (if length (qp_line w) = 75 then qp_soft w else w)"
  assume t: "tamed w"
  then have "tamed w'" by (simp add: w'_def tamed_soft)
  then have "tamed (w'\<lparr>qp_line := qp_line w' @ [c], qp_cr := False\<rparr>)" if "qp_literal c"
    using that eq_ok_append [of "qp_line w'" "[c]"] by (auto simp: tamed_def qp_literal_def qp_white_def)
  then show ?thesis using t tamed_crlf [OF tamed_check_last [OF t]] tamed_encode [OF t, of c]
    unfolding qp_write_def Let_def w'_def [symmetric] by (simp add: tamed_cr)
qed

lemma eq_ok_quoted_printable: "eq_ok (quoted_printable s)"
proof -
  have "tamed (fold qp_write s w)" if "tamed w" for w
    using that by (induction s arbitrary: w) (simp_all add: tamed_write)
  then have "tamed (qp_check_last (fold qp_write s \<lparr>qp_out = [], qp_line = [], qp_cr = False\<rparr>))"
    by (intro tamed_check_last) (simp add: tamed_def)
  then show ?thesis by (simp add: quoted_printable_def Let_def tamed_def eq_ok_append)
qed

subsection \<open>Attachments\<close>

lemma filter_wrap76: "length s \<le> n \<Longrightarrow> filter (\<lambda>c. c \<notin> set crlf) (wrap76 n s) = filter (\<lambda>c. c \<notin> set crlf) s"
proof (induction n s rule: wrap76.induct)
  case (2 n s)
  then have "length (drop 76 s) \<le> n" by (cases s) auto
  with 2 have "filter (\<lambda>c. c \<notin> set crlf) (wrap76 (Suc n) s) = filter (\<lambda>c. c \<notin> set crlf) (take 76 s @ drop 76 s)"
    if "s \<noteq> []" using that by (simp add: filter_append crlf_def del: append_take_drop_id)
  then show ?case by (cases s) auto
qed simp

lemma set_wrap76: "set (wrap76 n s) \<subseteq> set s \<union> set crlf"
  by (induction n s rule: wrap76.induct) (auto dest: in_set_takeD in_set_dropD)

lemma StdEncode_chars: "set (StdEncode data) \<subseteq> insert (CHR ''='') (set base64_std)"
  using RawStdEncode_chars by (auto simp: StdEncode_def Let_def)

lemma base64_std_no: "CHR ''_'' \<notin> set base64_std" "CHR ''='' \<notin> set base64_std" "set base64_std \<inter> set crlf = {}"
  by (simp_all add: base64_std_def crlf_def)

lemma attachment_recovered:
  "RawStdDecode (filter (\<lambda>c. c \<notin> set crlf \<and> c \<noteq> CHR ''='')
     (wrap76 (length (StdEncode data)) (StdEncode data))) = Some data"
proof -
  have "filter (\<lambda>c. c \<notin> set crlf \<and> c \<noteq> CHR ''='') (wrap76 (length (StdEncode data)) (StdEncode data)) =
      filter (\<lambda>c. c \<noteq> CHR ''='') (filter (\<lambda>c. c \<notin> set crlf) (wrap76 (length (StdEncode data)) (StdEncode data)))"
    by (simp add: conj_commute)
  also have "\<dots> = filter (\<lambda>c. c \<noteq> CHR ''='' \<and> c \<notin> set crlf) (StdEncode data)"
    by (simp add: filter_wrap76 conj_commute)
  also have "\<dots> = filter (\<lambda>c. c \<noteq> CHR ''='' \<and> c \<notin> set crlf) (RawStdEncode data)"
    by (simp add: StdEncode_def Let_def)
  also have "\<dots> = RawStdEncode data"
  proof (rule filter_True, intro ballI)
    fix c assume "c \<in> set (RawStdEncode data)"
    from RawStdEncode_chars [OF this] show "c \<noteq> CHR ''='' \<and> c \<notin> set crlf" using base64_std_no(2,3) by blast
  qed
  finally show ?thesis by simp
qed

lemma attachment_no_underscore: "CHR ''_'' \<notin> set (wrap76 n (StdEncode data))"
  using set_wrap76 [of n "StdEncode data"] StdEncode_chars [of data] base64_std_no(1) by (auto simp: crlf_def)

lemma randomBoundary_shape:
  "rand_bytes 16 e = (Some b, e') \<Longrightarrow> \<exists>x y. ''--'' @ fst (randomBoundary nano e) = x @ ''=_'' @ y"
  by (rule exI [of _ "''------''"], rule exI [of _ "''Part_'' @ hex_encode b"]) (simp add: randomBoundary_def)

subsection \<open>Properties\<close>

text \<open>
  C0. The body of a message is received as it was given: decoding its quoted-printable text yields the
  body with its line breaks as CRLF, whether it was given with LF or CRLF line breaks.
\<close>

theorem mail_body_roundtrip:
  assumes "CHR 0x0D \<notin> set body"
  shows "qp_decode (quoted_printable body) = to_crlf body \<and>
    qp_decode (quoted_printable (to_crlf body)) = to_crlf body"
  by (simp add: qp_decode_quoted_printable net_text_lf [OF assms] net_text_crlf [OF assms])

theorem mail_body_roundtrip_witness:
  "qp_decode (quoted_printable (''1+1=2'' @ [CHR 0xC3, CHR 0xA9, CHR '' '', CHR 0x0A])) =
     ''1+1=2'' @ [CHR 0xC3, CHR 0xA9, CHR '' ''] @ crlf \<and>
   quoted_printable (''1+1=2'' @ [CHR 0xC3, CHR 0xA9, CHR '' '', CHR 0x0A]) = ''1+1=3D2=C3=A9=20'' @ crlf"
proof
  have "CHR 0x0D \<notin> set (''1+1=2'' @ [CHR 0xC3, CHR 0xA9, CHR '' '', CHR 0x0A])" by simp
  from conjunct1 [OF mail_body_roundtrip [OF this]]
  show "qp_decode (quoted_printable (''1+1=2'' @ [CHR 0xC3, CHR 0xA9, CHR '' '', CHR 0x0A])) =
     ''1+1=2'' @ [CHR 0xC3, CHR 0xA9, CHR '' ''] @ crlf" by (simp add: to_crlf_def)
qed code_simp

text \<open>
  C39. A part of a message cannot end early. As long as the system has random bytes for the boundary,
  its delimiter line occurs neither in the quoted-printable text of any body nor in the base64 lines
  of any attachment, whatever they contain; and the base64 lines decode to the attachment.
\<close>

theorem mail_parts_are_delimited:
  assumes "rand_bytes 16 e = (Some b, e')"
  shows "\<not> sublist (''--'' @ fst (randomBoundary nano e)) (quoted_printable body) \<and>
    \<not> sublist (''--'' @ fst (randomBoundary nano e)) (wrap76 (length (StdEncode data)) (StdEncode data)) \<and>
    RawStdDecode (filter (\<lambda>c. c \<notin> set crlf \<and> c \<noteq> CHR ''='')
      (wrap76 (length (StdEncode data)) (StdEncode data))) = Some data"
proof -
  obtain x y where x: "''--'' @ fst (randomBoundary nano e) = x @ ''=_'' @ y"
    using randomBoundary_shape [OF assms] by blast
  have "CHR ''_'' \<in> set z" if "sublist (x @ ''=_'' @ y) z" for z using set_mono_sublist [OF that] by simp
  then show ?thesis unfolding x
    using eq_ok_not_sublist [OF eq_ok_quoted_printable] attachment_no_underscore attachment_recovered by blast
qed

text \<open>Without random bytes the boundary is the clock reading, which a body can contain.\<close>

lemma fallback_boundary_in_body:
  "sublist (''--'' @ fst (randomBoundary 5 (\<lambda>_. None))) (quoted_printable ''--boundary-5'')"
  by code_simp

theorem mail_parts_are_delimited_witness:
  "\<not> sublist (''--'' @ fst (randomBoundary 5 (\<lambda>n. Some n))) (quoted_printable ''--boundary-5'') \<and>
   fst (randomBoundary 5 (\<lambda>n. Some n)) = ''----=_Part_000102030405060708090a0b0c0d0e0f''"
proof
  have "fst (rand_bytes 16 (\<lambda>n. Some n)) \<noteq> None" by code_simp
  then obtain b e' where "rand_bytes 16 (\<lambda>n. Some n) = (Some b, e')" by (metis option.exhaust prod.collapse)
  from mail_parts_are_delimited [OF this]
  show "\<not> sublist (''--'' @ fst (randomBoundary 5 (\<lambda>n. Some n))) (quoted_printable ''--boundary-5'')" by blast
qed code_simp

end
