(* ===== verification/SmtpPool.thy ===== *)
theory SmtpPool
  imports KexSmtp "HOL-Library.Multiset"
begin

text \<open>
  \<^verbatim>\<open>kex-utils/pkg/kexsmtp/conn_pool.go\<close>: the channel of idle connections and the count of active ones.
  A call is a sequence of actions, each atomic. \<^verbatim>\<open>Get\<close>: the look at the closed flag, the look at the
  channel, the look at the count, the probe of a connection it took (with, when it fails, its
  subtraction from the count), the dialling, the second look. \<^verbatim>\<open>Put\<close>: the look at the closed flag, the
  send, or the quit and the count. \<^verbatim>\<open>Close\<close>: the flag, the channel, and each connection left in it.
  Calls interleave as the relation \<open>conn_step\<close>.
\<close>

subsection \<open>The pool\<close>

text \<open>
  \<open>cp_pool\<close> is the content of the channel, oldest first, \<open>cp_maxIdle\<close> its capacity, \<open>cp_pool_closed\<close>
  whether it was closed; \<open>cp_closed\<close> is the flag of the pool.
\<close>

record 'c conn_pool =
  cp_config :: smtp_config
  cp_addr :: string
  cp_pool :: "'c list"
  cp_activeCount :: int
  cp_maxIdle :: int
  cp_maxActive :: int
  cp_closed :: bool
  cp_pool_closed :: bool

definition add_active :: "int \<Rightarrow> 'c conn_pool \<Rightarrow> 'c conn_pool" where
  "add_active k p = p\<lparr>cp_activeCount := wrap64 (cp_activeCount p + k)\<rparr>"

text \<open>\<^verbatim>\<open>dialNew\<close> is the \<^verbatim>\<open>dial\<close> of a mailer and counts the connection.\<close>

definition dialNew ::
    "('w, 'c) smtp_net \<Rightarrow> 'c conn_pool \<times> ('w, 'c) mail_run \<Rightarrow>
     (mail_error + 'c) \<times> 'c conn_pool \<times> ('w, 'c) mail_run" where
  "dialNew N s =
     (case s of (p, st) \<Rightarrow>
        (case smtp_dial N (cp_config p) (cp_addr p) st of
           (Inl e, st) \<Rightarrow> (Inl e, p, st)
         | (Inr c, st) \<Rightarrow> (Inr c, add_active 1 p, st)))"

text \<open>The connections made in advance.\<close>

fun preheat ::
    "('w, 'c) smtp_net \<Rightarrow> nat \<Rightarrow> 'c conn_pool \<times> ('w, 'c) mail_run \<Rightarrow> 'c conn_pool \<times> ('w, 'c) mail_run" where
  "preheat N 0 s = s"
| "preheat N (Suc n) s =
     preheat N n
       (case dialNew N s of
          (Inl _, s) \<Rightarrow> s
        | (Inr c, p, st) \<Rightarrow> (add_active 1 (p\<lparr>cp_pool := cp_pool p @ [c]\<rparr>), st))"

definition NewConnPool ::
    "('w, 'c) smtp_net \<Rightarrow> smtp_config \<Rightarrow> int \<Rightarrow> int \<Rightarrow> ('w, 'c) mail_run \<Rightarrow>
     'c conn_pool \<times> ('w, 'c) mail_run" where
  "NewConnPool N config maxIdle maxActive st =
     (let maxIdle = (if maxIdle \<le> 0 then 5 else maxIdle);
          maxActive = (if maxActive \<le> 0 then 20 else maxActive)
      in preheat N (nat (maxIdle div 2))
           (\<lparr>cp_config = config, cp_addr = smtp_addr config, cp_pool = [], cp_activeCount = 0,
             cp_maxIdle = maxIdle, cp_maxActive = maxActive, cp_closed = False, cp_pool_closed = False\<rparr>, st))"

definition NewStandardSMTPWithPool ::
    "('w, 'c) smtp_net \<Rightarrow> smtp_config \<Rightarrow> int \<Rightarrow> int \<Rightarrow> ('w, 'c) mail_run \<Rightarrow>
     (mail_error + standard_smtp \<times> 'c conn_pool) \<times> ('w, 'c) mail_run" where
  "NewStandardSMTPWithPool N config maxIdle maxActive st =
     (case NewStandardSMTP config of
        Inl e \<Rightarrow> (Inl e, st)
      | Inr s \<Rightarrow>
          (case NewConnPool N config maxIdle maxActive st of
             (p, st) \<Rightarrow> (Inr (s\<lparr>ss_pooled := True\<rparr>, p), st)))"

subsection \<open>Getting a connection\<close>

text \<open>Where a call of \<^verbatim>\<open>Get\<close> stands.\<close>

datatype 'c getting =
    Looking             \<comment> \<open>at the first \<^verbatim>\<open>select\<close>\<close>
  | Counting            \<comment> \<open>before the look at the count\<close>
  | Probing 'c          \<comment> \<open>took this connection from the channel\<close>
  | Dialling
  | Waiting             \<comment> \<open>at the second \<^verbatim>\<open>select\<close>\<close>
  | Got 'c
  | GetFailed mail_error
  | NilClient           \<comment> \<open>received nil from the closed channel; \<^verbatim>\<open>Noop\<close> on it panics\<close>

text \<open>A receive from a channel that is closed and empty gives nil.\<close>

definition look :: "'c conn_pool \<Rightarrow> 'c getting option \<times> 'c conn_pool" where
  "look p = (case cp_pool p of
       c # cs \<Rightarrow> (Some (Probing c), p\<lparr>cp_pool := cs\<rparr>)
     | [] \<Rightarrow> (if cp_pool_closed p then Some NilClient else None, p))"

definition get_enter :: "'c conn_pool \<Rightarrow> 'c getting" where
  "get_enter p = (if cp_closed p then GetFailed (MailSentinel ErrMailerClosed) else Looking)"

definition get_look :: "'c conn_pool \<Rightarrow> 'c getting \<times> 'c conn_pool" where
  "get_look p = (case look p of (Some g, p) \<Rightarrow> (g, p) | (None, p) \<Rightarrow> (Counting, p))"

definition get_count :: "'c conn_pool \<Rightarrow> 'c getting" where
  "get_count p = (if cp_activeCount p < cp_maxActive p then Dialling else Waiting)"

definition get_probe ::
    "('w, 'c) smtp_net \<Rightarrow> 'c \<Rightarrow> 'c conn_pool \<times> ('w, 'c) mail_run \<Rightarrow>
     'c getting \<times> 'c conn_pool \<times> ('w, 'c) mail_run" where
  "get_probe N c s =
     (case s of (p, st) \<Rightarrow>
        (case issue N c CmdNoop st of
           (Some _, st) \<Rightarrow> (Dialling, add_active (- 1) p, snd (issue N c CmdQuit st))
         | (None, st) \<Rightarrow> (Got c, p, st)))"

definition get_dial ::
    "('w, 'c) smtp_net \<Rightarrow> 'c conn_pool \<times> ('w, 'c) mail_run \<Rightarrow>
     'c getting \<times> 'c conn_pool \<times> ('w, 'c) mail_run" where
  "get_dial N s = (case dialNew N s of (Inl e, s) \<Rightarrow> (GetFailed e, s) | (Inr c, s) \<Rightarrow> (Got c, s))"

text \<open>
  The second look: with \<open>cancelled\<close> the \<^verbatim>\<open>select\<close> takes the branch of a context that is done, with its
  error, which it may do also when a connection is there. \<open>None\<close>: it keeps waiting.
\<close>

definition get_wait :: "string option \<Rightarrow> 'c conn_pool \<Rightarrow> ('c getting \<times> 'c conn_pool) option" where
  "get_wait cancelled p =
     (case cancelled of
        Some e \<Rightarrow> Some (GetFailed (CtxError e), p)
      | None \<Rightarrow> (case look p of (Some g, p) \<Rightarrow> Some (g, p) | (None, _) \<Rightarrow> None))"

text \<open>A call that runs alone: \<open>None\<close> when it waits for ever, \<open>cancelled\<close> as above.\<close>

fun get_run ::
    "('w, 'c) smtp_net \<Rightarrow> string option \<Rightarrow> nat \<Rightarrow> 'c getting \<Rightarrow> 'c conn_pool \<times> ('w, 'c) mail_run \<Rightarrow>
     ((mail_error + 'c) run \<times> 'c conn_pool \<times> ('w, 'c) mail_run) option" where
  "get_run N cancelled n (Got c) s = Some (Returns (Inr c), s)"
| "get_run N cancelled n (GetFailed e) s = Some (Returns (Inl e), s)"
| "get_run N cancelled n NilClient s = Some (Panics ''nil pointer'', s)"
| "get_run N cancelled 0 g s = None"
| "get_run N cancelled (Suc n) Looking (p, st) =
     (case get_look p of (g, p) \<Rightarrow> get_run N cancelled n g (p, st))"
| "get_run N cancelled (Suc n) Counting (p, st) = get_run N cancelled n (get_count p) (p, st)"
| "get_run N cancelled (Suc n) (Probing c) s =
     (case get_probe N c s of (g, s) \<Rightarrow> get_run N cancelled n g s)"
| "get_run N cancelled (Suc n) Dialling s =
     (case get_dial N s of (g, s) \<Rightarrow> get_run N cancelled n g s)"
| "get_run N cancelled (Suc n) Waiting (p, st) =
     (case get_wait cancelled p of
        None \<Rightarrow> None
      | Some (g, p) \<Rightarrow> get_run N cancelled n g (p, st))"

definition Pool_Get ::
    "('w, 'c) smtp_net \<Rightarrow> string option \<Rightarrow> 'c conn_pool \<times> ('w, 'c) mail_run \<Rightarrow>
     ((mail_error + 'c) run \<times> 'c conn_pool \<times> ('w, 'c) mail_run) option" where
  "Pool_Get N cancelled s = get_run N cancelled 5 (get_enter (fst s)) s"

text \<open>Five actions are enough: a call that runs alone is stuck only where it waits.\<close>

lemma Pool_Get_blocked:
  assumes "Pool_Get N cancelled (p, st) = None"
  shows "cancelled = None \<and> cp_pool p = [] \<and> \<not> cp_closed p \<and> cp_maxActive p \<le> cp_activeCount p"
  using assms
  by (auto simp: Pool_Get_def get_enter_def get_look_def get_count_def look_def get_wait_def get_probe_def get_dial_def numeral_eq_Suc
      split: list.splits if_splits option.splits prod.splits sum.splits)

subsection \<open>Giving it back\<close>

definition quit_conn ::
    "('w, 'c) smtp_net \<Rightarrow> 'c \<Rightarrow> 'c conn_pool \<times> ('w, 'c) mail_run \<Rightarrow> 'c conn_pool \<times> ('w, 'c) mail_run" where
  "quit_conn N c s = (case s of (p, st) \<Rightarrow> (add_active (- 1) p, snd (issue N c CmdQuit st)))"

text \<open>
  The send into the channel, after the look at the closed flag; the channel may be closed by then.
  \<open>None\<close> is the default branch, when the channel is full.
\<close>

definition put_send :: "'c \<Rightarrow> 'c conn_pool \<Rightarrow> 'c conn_pool option run" where
  "put_send c p =
     (if cp_pool_closed p then Panics ''send on closed channel''
      else if int (length (cp_pool p)) < cp_maxIdle p then Returns (Some (p\<lparr>cp_pool := cp_pool p @ [c]\<rparr>))
      else Returns None)"

definition Pool_Put ::
    "('w, 'c) smtp_net \<Rightarrow> 'c option \<Rightarrow> bool \<Rightarrow> 'c conn_pool \<times> ('w, 'c) mail_run \<Rightarrow>
     ('c conn_pool \<times> ('w, 'c) mail_run) run" where
  "Pool_Put N client forceClose s =
     (case client of
        None \<Rightarrow> Returns s
      | Some c \<Rightarrow>
          if forceClose \<or> cp_closed (fst s) then Returns (quit_conn N c s)
          else (case put_send c (fst s) of
              Panics e \<Rightarrow> Panics e
            | Returns (Some p) \<Rightarrow> Returns (p, snd s)
            | Returns None \<Rightarrow> Returns (quit_conn N c s)))"

text \<open>\<^verbatim>\<open>Close\<close> quits the idle connections; those handed out are quit when they come back.\<close>

definition Pool_Close ::
    "('w, 'c) smtp_net \<Rightarrow> 'c conn_pool \<times> ('w, 'c) mail_run \<Rightarrow> 'c conn_pool \<times> ('w, 'c) mail_run" where
  "Pool_Close N s =
     (case s of (p, st) \<Rightarrow>
        if cp_closed p then (p, st)
        else fold (quit_conn N) (cp_pool p) (p\<lparr>cp_closed := True, cp_pool_closed := True, cp_pool := []\<rparr>, st))"

text \<open>\<^verbatim>\<open>Close\<close> of a mailer, with its pool when it has one.\<close>

definition Smtp_Close ::
    "('w, 'c) smtp_net \<Rightarrow> standard_smtp \<times> 'c conn_pool option \<Rightarrow> ('w, 'c) mail_run \<Rightarrow>
     (standard_smtp \<times> 'c conn_pool option) \<times> ('w, 'c) mail_run" where
  "Smtp_Close N m st =
     (case m of (s, pool) \<Rightarrow>
        if ss_closed s then (m, st)
        else case pool of
            None \<Rightarrow> ((s\<lparr>ss_closed := True\<rparr>, None), st)
          | Some p \<Rightarrow> (case Pool_Close N (p, st) of (p, st) \<Rightarrow> ((s\<lparr>ss_closed := True\<rparr>, Some p), st)))"

subsection \<open>Interleaved calls\<close>

text \<open>
  The calls on the way: a \<^verbatim>\<open>Get\<close>, with its connection until that is put back; a \<^verbatim>\<open>Put\<close> between its look
  at the closed flag and its send; a call that is about to quit a connection or has done so and is
  about to count it off, which is \<^verbatim>\<open>Close\<close> when its flag says so; a \<^verbatim>\<open>Close\<close> that is about to close the
  channel or to take the next connection out of it.
\<close>

datatype 'c call =
    InGet "'c getting"
  | InPut 'c
  | PutPanicked 'c
  | Quitting 'c bool
  | Leaving 'c bool
  | Closing
  | Draining

text \<open>
  \<open>put_quit\<close> is a \<^verbatim>\<open>Put\<close> with \<^verbatim>\<open>forceClose\<close> or to a closed pool; \<open>elsewhere\<close> is what mailers and the
  outside do meanwhile. A \<^verbatim>\<open>Close\<close> that finds the flag set returns and changes nothing.
\<close>

inductive conn_step ::
    "('w, 'c) smtp_net \<Rightarrow> 'c conn_pool \<times> ('w, 'c) mail_run \<times> 'c call multiset \<Rightarrow>
     'c conn_pool \<times> ('w, 'c) mail_run \<times> 'c call multiset \<Rightarrow> bool" for N where
  enter: "conn_step N (p, st, M) (p, st, add_mset (InGet (get_enter p)) M)"
| look_first: "get_look p = (g, p') \<Longrightarrow>
     conn_step N (p, st, add_mset (InGet Looking) M) (p', st, add_mset (InGet g) M)"
| count: "conn_step N (p, st, add_mset (InGet Counting) M) (p, st, add_mset (InGet (get_count p)) M)"
| probe: "get_probe N c (p, st) = (g, p', st') \<Longrightarrow>
     conn_step N (p, st, add_mset (InGet (Probing c)) M) (p', st', add_mset (InGet g) M)"
| dial: "get_dial N (p, st) = (g, p', st') \<Longrightarrow>
     conn_step N (p, st, add_mset (InGet Dialling) M) (p', st', add_mset (InGet g) M)"
| wait: "get_wait cancelled p = Some (g, p') \<Longrightarrow>
     conn_step N (p, st, add_mset (InGet Waiting) M) (p', st, add_mset (InGet g) M)"
| failed: "conn_step N (p, st, add_mset (InGet (GetFailed e)) M) (p, st, M)"
| put_quit: "conn_step N (p, st, add_mset (InGet (Got c)) M) (p, st, add_mset (Quitting c False) M)"
| put_look: "\<not> cp_closed p \<Longrightarrow>
     conn_step N (p, st, add_mset (InGet (Got c)) M) (p, st, add_mset (InPut c) M)"
| put_sent: "put_send c p = Returns (Some p') \<Longrightarrow> conn_step N (p, st, add_mset (InPut c) M) (p', st, M)"
| put_full: "put_send c p = Returns None \<Longrightarrow>
     conn_step N (p, st, add_mset (InPut c) M) (p, st, add_mset (Quitting c False) M)"
| put_panic: "put_send c p = Panics e \<Longrightarrow>
     conn_step N (p, st, add_mset (InPut c) M) (p, st, add_mset (PutPanicked c) M)"
| quit: "conn_step N (p, st, add_mset (Quitting c b) M) (p, snd (issue N c CmdQuit st), add_mset (Leaving c b) M)"
| leave: "conn_step N (p, st, add_mset (Leaving c b) M)
     (add_active (- 1) p, st, if b then add_mset Draining M else M)"
| close: "\<not> cp_closed p \<Longrightarrow> conn_step N (p, st, M) (p\<lparr>cp_closed := True\<rparr>, st, add_mset Closing M)"
| close_channel: "conn_step N (p, st, add_mset Closing M) (p\<lparr>cp_pool_closed := True\<rparr>, st, add_mset Draining M)"
| drain: "cp_pool p = c # cs \<Longrightarrow>
     conn_step N (p, st, add_mset Draining M) (p\<lparr>cp_pool := cs\<rparr>, st, add_mset (Quitting c True) M)"
| drained: "cp_pool p = [] \<Longrightarrow> conn_step N (p, st, add_mset Draining M) (p, st, M)"
| elsewhere: "conn_step N (p, st, M) (p, st', M)"

inductive_cases conn_stepE: "conn_step N s s'"

text \<open>The connections that are open: idle, or held by a call.\<close>

fun holds :: "'c call \<Rightarrow> bool" where
  "holds (InGet (Probing c)) = True"
| "holds (InGet (Got c)) = True"
| "holds (InPut c) = True"
| "holds (PutPanicked c) = True"
| "holds (Quitting c b) = True"
| "holds (Leaving c b) = True"
| "holds _ = False"

definition conns :: "'c conn_pool \<Rightarrow> 'c call multiset \<Rightarrow> nat" where
  "conns p M = length (cp_pool p) + size (filter_mset holds M)"

lemma conns_add [simp]: "conns p (add_mset x M) = conns p M + (if holds x then 1 else 0)"
  by (simp add: conns_def)

lemma wrap64_plus: "wrap64 (wrap64 a + k) = wrap64 (a + k)" "wrap64 (k + wrap64 a) = wrap64 (k + a)"
  "wrap64 (wrap64 a - k) = wrap64 (a - k)"
proof -
  show 1: "wrap64 (wrap64 a + k) = wrap64 (a + k)" for k
    by (simp add: wrap64_def mod_simps) (simp add: mod_simps algebra_simps)
  show "wrap64 (k + wrap64 a) = wrap64 (k + a)" using 1 [of k] by (simp add: add.commute)
  show "wrap64 (wrap64 a - k) = wrap64 (a - k)" using 1 [of "- k"] by simp
qed

text \<open>The count is that of \<open>n\<close> open connections and \<open>k\<close> that were counted twice.\<close>

definition counted :: "int \<Rightarrow> nat \<Rightarrow> int \<Rightarrow> 'c conn_pool \<Rightarrow> bool" where
  "counted k n m p \<longleftrightarrow> cp_activeCount p = wrap64 (int n + k) \<and> cp_maxActive p = m"

lemma counted_add:
  "counted k n m p \<Longrightarrow> counted k (Suc n) m (add_active 1 p)"
  "counted k (Suc n) m p \<Longrightarrow> counted k n m (add_active (- 1) p)"
  "counted k n m (p\<lparr>cp_pool := l\<rparr>) = counted k n m p"
  by (auto simp: counted_def add_active_def wrap64_plus algebra_simps)

lemma add_active_pool [simp]:
  "cp_pool (add_active k p) = cp_pool p" "cp_closed (add_active k p) = cp_closed p"
  "cp_pool_closed (add_active k p) = cp_pool_closed p"
  by (simp_all add: add_active_def)

lemma look_cases:
  "look p = (g, p') \<Longrightarrow> (\<exists>c cs. cp_pool p = c # cs \<and> g = Some (Probing c) \<and> p' = p\<lparr>cp_pool := cs\<rparr>) \<or>
     cp_pool p = [] \<and> p' = p \<and> (g = None \<or> g = Some NilClient)"
  by (auto simp: look_def split: list.splits if_splits)

lemma dialNew_cases:
  "dialNew N (p, st) = (r, p', st') \<Longrightarrow> (\<exists>e. r = Inl e \<and> p' = p) \<or> (\<exists>c. r = Inr c \<and> p' = add_active 1 p)"
  by (auto simp: dialNew_def split: prod.splits sum.splits)

lemma conn_step_counted:
  assumes "conn_step N s s'" "s = (p, st, M)" "s' = (p', st', M')" "counted k (conns p M) m p"
  shows "counted k (conns p' M') m p'"
  using assms
proof (induction rule: conn_step.induct)
  case (enter q r L)
  then show ?case by (auto simp: get_enter_def)
next
  case (look_first q g q' r L)
  obtain x q2 where x: "look q = (x, q2)" by fastforce
  from look_cases [OF this] show ?case using look_first x
    by (auto simp: get_look_def conns_def counted_add)
next
  case (count q r L)
  then show ?case by (auto simp: get_count_def)
next
  case (probe c q r g q' r' L)
  then show ?case using counted_add(2) [of k "conns p L" m p]
    by (auto simp: get_probe_def conns_def split: prod.splits option.splits)
next
  case (dial q r g q' r' L)
  obtain x q2 r2 where x: "dialNew N (q, r) = (x, q2, r2)" using prod_cases3 by blast
  from dialNew_cases [OF this] show ?case using dial x counted_add(1) [of k "conns p L" m p]
    by (auto simp: get_dial_def conns_def)
next
  case (wait x q g q' r L)
  obtain y q2 where y: "look q = (y, q2)" by fastforce
  from look_cases [OF this] show ?case using wait y
    by (auto simp: get_wait_def conns_def counted_add split: option.splits)
next
  case (put_sent c q q' r L)
  then show ?case by (auto simp: put_send_def conns_def counted_add(3) split: if_splits)
next
  case (leave q r c b L)
  then show ?case using counted_add(2) [of k "conns p L" m p] by (auto simp: conns_def)
next
  case (drain q c cs r L)
  then show ?case by (auto simp: conns_def counted_add(3))
qed (auto simp: counted_def conns_def)

text \<open>A pool without connections whose count has reached the limit.\<close>

definition wedged :: "int \<Rightarrow> int \<Rightarrow> 'c conn_pool \<Rightarrow> 'c call multiset \<Rightarrow> bool" where
  "wedged k m p M \<longleftrightarrow> conns p M = 0 \<and> InGet Dialling \<notin># M \<and> counted k (conns p M) m p \<and>
     m \<le> k \<and> in_int64 k"

lemma conn_step_wedged:
  assumes "conn_step N s s'" "s = (p, st, M)" "s' = (p', st', M')" "wedged k m p M"
  shows "wedged k m p' M'"
proof -
  have "counted k (conns p M) m p" using assms(4) unfolding wedged_def by blast
  from conn_step_counted [OF assms(1-3) this] have count: "counted k (conns p' M') m p'" .
  have z: "conns p M = 0" using assms(4) unfolding wedged_def by blast
  then have empty: "cp_pool p = []" by (simp add: conns_def)
  have full: "\<not> cp_activeCount p < cp_maxActive p" using assms(4) unfolding wedged_def z by (simp add: counted_def)
  have "conns p' M' = 0 \<and> InGet Dialling \<notin># M'"
    using assms(1-3) empty full assms(4)
    by cases (auto simp: wedged_def conns_def get_enter_def get_look_def get_count_def look_def
        get_wait_def put_send_def split: if_splits option.splits)
  with count assms(4) show ?thesis by (simp add: wedged_def)
qed

text \<open>What holds after the preheating: every connection is idle, and counted twice.\<close>

lemma preheat_counted:
  "preheat N n (p, st) = (p', st') \<Longrightarrow> counted (int (length (cp_pool p))) (length (cp_pool p)) m p \<Longrightarrow>
     counted (int (length (cp_pool p'))) (length (cp_pool p')) m p' \<and>
     length (cp_pool p') \<le> length (cp_pool p) + n"
proof (induction n arbitrary: p st)
  case (Suc n)
  obtain r q st1 where d: "dialNew N (p, st) = (r, q, st1)" using prod_cases3 by blast
  show ?case
  proof (cases r)
    case (Inl e)
    then have "preheat N n (p, st1) = (p', st')" using Suc.prems(1) d dialNew_cases [OF d] by simp
    from Suc.IH [OF this Suc.prems(2)] show ?thesis by simp
  next
    case (Inr c)
    let ?p = "add_active 1 (add_active 1 p\<lparr>cp_pool := cp_pool p @ [c]\<rparr>)"
    have "preheat N n (?p, st1) = (p', st')" using Suc.prems(1) d dialNew_cases [OF d] Inr by simp
    moreover have "counted (int (length (cp_pool ?p))) (length (cp_pool ?p)) m ?p"
      using Suc.prems(2) by (simp add: counted_def add_active_def wrap64_plus algebra_simps)
    ultimately show ?thesis using Suc.IH by fastforce
  qed
qed simp

lemma NewConnPool_counted:
  assumes "NewConnPool N cfg mi ma st = (p, st')"
  shows "counted (int (length (cp_pool p))) (length (cp_pool p)) (if ma \<le> 0 then 20 else ma) p \<and>
    int (length (cp_pool p)) \<le> max 2 (mi div 2)"
proof -
  let ?mi = "if mi \<le> 0 then 5 else mi" and ?ma = "if ma \<le> 0 then 20 else ma"
  let ?p = "\<lparr>cp_config = cfg, cp_addr = smtp_addr cfg, cp_pool = [], cp_activeCount = 0, cp_maxIdle = ?mi,
     cp_maxActive = ?ma, cp_closed = False, cp_pool_closed = False\<rparr>"
  have "preheat N (nat (?mi div 2)) (?p, st) = (p, st')" using assms unfolding NewConnPool_def Let_def .
  moreover have "counted (int (length (cp_pool ?p))) (length (cp_pool ?p)) ?ma ?p"
    by (simp add: counted_def in_int64_def)
  ultimately have "counted (int (length (cp_pool p))) (length (cp_pool p)) ?ma p \<and>
      length (cp_pool p) \<le> nat (?mi div 2)" using preheat_counted by fastforce
  then show ?thesis by (auto split: if_splits)
qed

text \<open>
  C40. The pool counts a preheated connection twice and never corrects it: in every run its count is the
  number of open connections plus the number of those made in advance. So when at least as many
  were made in advance as may be active, the pool ends for good once its connections are gone: then
  no call of \<open>Get\<close> dials any more, and no later state has a connection.
\<close>

theorem preheated_connections_wedge_the_pool:
  assumes "NewConnPool N cfg mi ma st0 = (p0, st1)" "mi < 2 ^ 63"
    and "(conn_step N)\<^sup>*\<^sup>* (p0, st1, {#}) (p, st, M)"
  shows "cp_activeCount p = wrap64 (int (conns p M) + int (length (cp_pool p0))) \<and>
    (cp_maxActive p \<le> int (length (cp_pool p0)) \<and> conns p M = 0 \<and> InGet Dialling \<notin># M \<longrightarrow>
       (\<forall>p' st' M'. (conn_step N)\<^sup>*\<^sup>* (p, st, M) (p', st', M') \<longrightarrow> conns p' M' = 0 \<and> InGet Dialling \<notin># M'))"
proof (intro conjI impI allI)
  let ?k = "int (length (cp_pool p0))" and ?m = "if ma \<le> 0 then 20 else ma"
  note new = NewConnPool_counted [OF assms(1)]
  have k: "in_int64 ?k" using new assms(2) by (auto simp: in_int64_def)
  have "case s of (p, st, M) \<Rightarrow> counted ?k (conns p M) ?m p" if "(conn_step N)\<^sup>*\<^sup>* (p0, st1, {#}) s" for s
    using that
  proof induction
    case base
    show ?case using new by (simp add: conns_def)
  next
    case (step s s')
    then show ?case using conn_step_counted by (cases s; cases s') fastforce
  qed
  from this [OF assms(3)] have c: "counted ?k (conns p M) ?m p" by simp
  then show "cp_activeCount p = wrap64 (int (conns p M) + ?k)" by (simp add: counted_def)
  fix p' st' M'
  assume w: "cp_maxActive p \<le> ?k \<and> conns p M = 0 \<and> InGet Dialling \<notin># M"
  then have "wedged ?k ?m p M" using c k by (simp add: wedged_def counted_def)
  assume "(conn_step N)\<^sup>*\<^sup>* (p, st, M) (p', st', M')"
  then have "case (p', st', M') of (p, st, M) \<Rightarrow> wedged ?k ?m p M"
  proof induction
    case base
    show ?case using \<open>wedged ?k ?m p M\<close> by simp
  next
    case (step s s')
    then show ?case using conn_step_wedged by (cases s; cases s') fastforce
  qed
  then show "conns p' M' = 0" "InGet Dialling \<notin># M'" by (simp_all add: wedged_def)
qed

text \<open>A server that takes two connections and answers no probe; a pool of four idle and two active ones.\<close>

definition flaky_net :: "(nat, nat) smtp_net" where
  "flaky_net = \<lparr>sn_dial = (\<lambda>_ _ w. (if w < 2 then Inr w else Inl ''refused'', Suc w)),
     sn_cmd = (\<lambda>_ cmd w. (if cmd = CmdNoop then Some ''421'' else None, w)), sn_wait = (\<lambda>_ w. (None, w))\<rparr>"

definition plain_config :: smtp_config where
  "plain_config = \<lparr>mc_Host = ''h'', mc_Port = 25, mc_Username = [], mc_Password = [], mc_From = ''f'',
     mc_TLSMode = TLSModeNone, mc_LocalName = []\<rparr>"

definition flaky_pool :: "nat list \<Rightarrow> int \<Rightarrow> nat conn_pool" where
  "flaky_pool l n = \<lparr>cp_config = plain_config, cp_addr = ''h:25'', cp_pool = l, cp_activeCount = n,
     cp_maxIdle = 4, cp_maxActive = 2, cp_closed = False, cp_pool_closed = False\<rparr>"

definition greeted :: "(nat \<times> smtp_cmd \<times> bool) list" where
  "greeted = [(0, CmdNewClient ''h'', True), (1, CmdNewClient ''h'', True)]"

definition dropped :: "nat \<Rightarrow> (nat \<times> smtp_cmd \<times> bool) list" where
  "dropped c = [(c, CmdNoop, False), (c, CmdQuit, True)]"

lemma flaky_new:
  "NewConnPool flaky_net plain_config 4 2 \<lparr>mr_world = 0, mr_log = []\<rparr> =
     (flaky_pool [0, 1] 4, \<lparr>mr_world = 2, mr_log = greeted\<rparr>)"
  by code_simp

text \<open>One call that loses the idle connection and cannot make another.\<close>

lemma flaky_get:
  assumes "\<not> cp_closed q" "get_look q = (Probing c, q1)" "get_probe flaky_net c (q1, r) = (Dialling, q2, r2)"
    "get_dial flaky_net (q2, r2) = (GetFailed e, q3, r3)"
  shows "(conn_step flaky_net)\<^sup>*\<^sup>* (q, r, {#}) (q3, r3, {#})"
proof -
  have 0: "conn_step flaky_net (q, r, {#}) (q, r, {#InGet Looking#})"
    using conn_step.enter [of flaky_net q r "{#}"] assms(1) by (simp add: get_enter_def)
  have 1: "conn_step flaky_net (q, r, {#InGet Looking#}) (q1, r, {#InGet (Probing c)#})"
    by (rule conn_step.look_first [OF assms(2)])
  have 2: "conn_step flaky_net (q1, r, {#InGet (Probing c)#}) (q2, r2, {#InGet Dialling#})"
    by (rule conn_step.probe [OF assms(3)])
  have 3: "conn_step flaky_net (q2, r2, {#InGet Dialling#}) (q3, r3, {#InGet (GetFailed e)#})"
    by (rule conn_step.dial [OF assms(4)])
  have 4: "conn_step flaky_net (q3, r3, {#InGet (GetFailed e)#}) (q3, r3, {#})" by (rule conn_step.failed)
  note step = converse_rtranclp_into_rtranclp [of "conn_step flaky_net"]
  show ?thesis by (rule step [OF 0 step [OF 1 step [OF 2 step [OF 3 r_into_rtranclp [of "conn_step flaky_net", OF 4]]]]])
qed

theorem preheated_connections_wedge_the_pool_witness:
  "(conn_step flaky_net)\<^sup>*\<^sup>* (flaky_pool [0, 1] 4, \<lparr>mr_world = 2, mr_log = greeted\<rparr>, {#})
     (flaky_pool [] 2, \<lparr>mr_world = 4, mr_log = greeted @ dropped 0 @ dropped 1\<rparr>, {#}) \<and>
   (\<nexists>p' st' M'. (conn_step flaky_net)\<^sup>*\<^sup>*
      (flaky_pool [] 2, \<lparr>mr_world = 4, mr_log = greeted @ dropped 0 @ dropped 1\<rparr>, {#}) (p', st', M') \<and>
      0 < conns p' M')"
proof -
  have "(conn_step flaky_net)\<^sup>*\<^sup>* (flaky_pool [0, 1] 4, \<lparr>mr_world = 2, mr_log = greeted\<rparr>, {#})
      (flaky_pool [1] 3, \<lparr>mr_world = 3, mr_log = greeted @ dropped 0\<rparr>, {#})"
    by (rule flaky_get [of _ 0 "flaky_pool [1] 4" _ "flaky_pool [1] 3" "\<lparr>mr_world = 2, mr_log = greeted @ dropped 0\<rparr>"
        "Wrapped ''failed to connect'' (Outside ''refused'')"]) code_simp+
  also have "(conn_step flaky_net)\<^sup>*\<^sup>* (flaky_pool [1] 3, \<lparr>mr_world = 3, mr_log = greeted @ dropped 0\<rparr>, {#})
      (flaky_pool [] 2, \<lparr>mr_world = 4, mr_log = greeted @ dropped 0 @ dropped 1\<rparr>, {#})"
    by (rule flaky_get [of _ 1 "flaky_pool [] 3" _ "flaky_pool [] 2"
        "\<lparr>mr_world = 3, mr_log = greeted @ dropped 0 @ dropped 1\<rparr>"
        "Wrapped ''failed to connect'' (Outside ''refused'')"]) code_simp+
  finally have run: "(conn_step flaky_net)\<^sup>*\<^sup>* (flaky_pool [0, 1] 4, \<lparr>mr_world = 2, mr_log = greeted\<rparr>, {#})
      (flaky_pool [] 2, \<lparr>mr_world = 4, mr_log = greeted @ dropped 0 @ dropped 1\<rparr>, {#})" .
  show ?thesis
    using run conjunct2 [OF preheated_connections_wedge_the_pool [OF flaky_new _ run]]
    by (auto simp: flaky_pool_def conns_def)
qed

subsection \<open>The limit, and closing\<close>

text \<open>
  The look at the count and the dialling are two actions, so two calls make two connections where one
  may be active.
\<close>

lemma begin_dial:
  assumes "\<not> cp_closed p" "\<not> cp_pool_closed p" "cp_pool p = []" "cp_activeCount p < cp_maxActive p"
  shows "(conn_step N)\<^sup>*\<^sup>* (p, st, M) (p, st, add_mset (InGet Dialling) M)"
proof -
  have "conn_step N (p, st, M) (p, st, add_mset (InGet Looking) M)"
    using conn_step.enter [of N p st M] assms(1) by (simp add: get_enter_def)
  moreover have "conn_step N (p, st, add_mset (InGet Looking) M) (p, st, add_mset (InGet Counting) M)"
    by (rule conn_step.look_first) (simp add: get_look_def look_def assms)
  moreover have "conn_step N (p, st, add_mset (InGet Counting) M) (p, st, add_mset (InGet Dialling) M)"
    using conn_step.count [of N p st M] assms(4) by (simp add: get_count_def)
  ultimately show ?thesis by (meson r_into_rtranclp rtranclp_trans)
qed

lemma limit_can_be_exceeded:
  defines "p \<equiv> (flaky_pool [] 0)\<lparr>cp_maxActive := 1\<rparr>" and "st \<equiv> \<lparr>mr_world = 0, mr_log = []\<rparr>"
  shows "\<exists>p' st'. (conn_step flaky_net)\<^sup>*\<^sup>* (p, st, {#}) (p', st', {#InGet (Got 1), InGet (Got 0)#}) \<and>
    cp_maxActive p' = 1 \<and> cp_activeCount p' = 2"
proof -
  let ?st1 = "\<lparr>mr_world = 1, mr_log = [(0, CmdNewClient ''h'', True)]\<rparr>"
  have e: "(conn_step flaky_net)\<^sup>*\<^sup>* (p, st, M) (p, st, add_mset (InGet Dialling) M)" for M
    by (rule begin_dial) (simp_all add: p_def flaky_pool_def)
  have d1: "get_dial flaky_net (p, st) = (Got 0, p\<lparr>cp_activeCount := 1\<rparr>, ?st1)"
    unfolding p_def st_def by code_simp
  have d2: "get_dial flaky_net (p\<lparr>cp_activeCount := 1\<rparr>, ?st1) =
      (Got 1, p\<lparr>cp_activeCount := 2\<rparr>, \<lparr>mr_world = 2, mr_log = greeted\<rparr>)"
    unfolding p_def by code_simp
  note step = converse_rtranclp_into_rtranclp [of "conn_step flaky_net"]
  have "(conn_step flaky_net)\<^sup>*\<^sup>* (p, st, {#})
      (p\<lparr>cp_activeCount := 2\<rparr>, \<lparr>mr_world = 2, mr_log = greeted\<rparr>, {#InGet (Got 1), InGet (Got 0)#})"
  proof (rule rtranclp_trans [OF e], rule rtranclp_trans [OF e], rule step [OF conn_step.dial [OF d1]])
    have s: "conn_step flaky_net (p\<lparr>cp_activeCount := 1\<rparr>, ?st1, add_mset (InGet Dialling) {#InGet (Got 0)#})
        (p\<lparr>cp_activeCount := 2\<rparr>, \<lparr>mr_world = 2, mr_log = greeted\<rparr>, add_mset (InGet (Got 1)) {#InGet (Got 0)#})"
      by (rule conn_step.dial [OF d2])
    show "(conn_step flaky_net)\<^sup>*\<^sup>* (p\<lparr>cp_activeCount := 1\<rparr>, ?st1, {#InGet (Got 0), InGet Dialling#})
        (p\<lparr>cp_activeCount := 2\<rparr>, \<lparr>mr_world = 2, mr_log = greeted\<rparr>, {#InGet (Got 1), InGet (Got 0)#})"
      using r_into_rtranclp [of "conn_step flaky_net", OF s] by (simp add: add_mset_commute)
  qed
  moreover have "cp_maxActive (p\<lparr>cp_activeCount := 2\<rparr>) = 1" "cp_activeCount (p\<lparr>cp_activeCount := 2\<rparr>) = 2"
    by (simp_all add: p_def)
  ultimately show ?thesis by blast
qed

text \<open>Closing a pool makes the calls on the way panic: a \<^verbatim>\<open>Get\<close> at either \<^verbatim>\<open>select\<close> and a \<^verbatim>\<open>Put\<close> that is about to send.\<close>

lemma close_panics_calls_on_the_way:
  assumes "Pool_Close N (p, st) = (p', st')" "\<not> cp_closed p"
  shows "get_look p' = (NilClient, p') \<and> get_wait None p' = Some (NilClient, p') \<and>
    put_send c p' = Panics ''send on closed channel''"
proof -
  have keep: "fold (quit_conn N) cs (q, r) = (q', r') \<Longrightarrow>
      cp_pool_closed q' = cp_pool_closed q \<and> cp_pool q' = cp_pool q"
    for cs q r q' r'
  proof (induction cs arbitrary: q r)
    case (Cons x cs)
    then show ?case using Cons.IH [of "add_active (- 1) q"] by (simp add: quit_conn_def [of N x])
  qed simp
  have "cp_pool_closed p' \<and> cp_pool p' = []"
    using keep [of "cp_pool p" "p\<lparr>cp_closed := True, cp_pool_closed := True, cp_pool := []\<rparr>" st p' st'] assms by (simp add: Pool_Close_def)
  then show ?thesis by (simp add: get_look_def get_wait_def look_def put_send_def)
qed

subsection \<open>The commands of a pool\<close>

text \<open>They are no part of a mail transaction, which is what \<open>mail_transactions\<close> asks of a pool.\<close>

definition quietly :: "(('w, 'c) mail_run \<Rightarrow> 'a \<times> ('w, 'c) mail_run) \<Rightarrow> bool" where
  "quietly f \<longleftrightarrow> (\<forall>st r st'. f st = (r, st') \<longrightarrow> (\<exists>l. mr_log st' = mr_log st @ l \<and> quiet l))"

lemma quietlyD: "quietly f \<Longrightarrow> f st = (r, st') \<Longrightarrow> \<exists>l. mr_log st' = mr_log st @ l \<and> quiet l"
  by (simp add: quietly_def)

lemma quietly_result: "quietly (\<lambda>st. (x, st))"
  by (simp add: quietly_def)

lemma quiet_issue: "issue N c cmd st = (e, st') \<Longrightarrow> \<not> in_transaction cmd \<Longrightarrow>
    \<exists>l. mr_log st' = mr_log st @ l \<and> quiet l"
  using issue_log [of N c cmd st e st'] by (simp add: quiet_def)

lemma quietly_require:
  assumes "quietly k" "\<not> in_transaction cmd"
  shows "quietly (require N c cmd (close_conn N c) wrap k)"
  unfolding quietly_def
proof (intro allI impI)
  fix st r st'
  assume r: "require N c cmd (close_conn N c) wrap k st = (r, st')"
  obtain e st1 where i: "issue N c cmd st = (e, st1)" by fastforce
  from quiet_issue [OF i assms(2)] obtain l where l: "mr_log st1 = mr_log st @ l" "quiet l" by blast
  have "\<exists>l. mr_log st' = mr_log st1 @ l \<and> quiet l"
  proof (cases e)
    case None
    with r i have "k st1 = (r, st')" by (simp add: require_def)
    from quietlyD [OF assms(1) this] show ?thesis .
  next
    case (Some x)
    with r i have "st' = close_conn N c st1" by (simp add: require_def)
    with close_conn_log [of N c st1] quiet_close show ?thesis by auto
  qed
  with l show "\<exists>l. mr_log st' = mr_log st @ l \<and> quiet l" by auto
qed

lemma quietly_dial: "quietly (smtp_dial N cfg addr)"
proof -
  have "quietly (require N c (CmdAuth x y z) (close_conn N c) w (\<lambda>st. (Inr c, st)))" for c x y z w
    by (rule quietly_require [OF quietly_result]) (simp add: in_transaction_def)
  then have a: "quietly (auth_step N cfg c)" for c
    using quietly_result [of "Inr c"] by (auto simp: auth_step_def quietly_def)
  have "quietly (require N c (CmdStartTLS x) (close_conn N c) w (auth_step N cfg c))" for c x w
    by (rule quietly_require [OF a]) (simp add: in_transaction_def)
  then have s: "quietly (starttls_step N cfg c)" for c
    using a [of c] by (auto simp: starttls_step_def quietly_def)
  have "quietly (require N c (CmdNewClient x) (close_conn N c) w (starttls_step N cfg c))" for c x w
    by (rule quietly_require [OF s]) (simp add: in_transaction_def)
  then have g: "quietly (greet_step N cfg c)" for c by (auto simp: greet_step_def quietly_def)
  have h: "quietly (require N c (CmdHandshake t) (close_conn N c) w (greet_step N cfg c))" for c t w
    by (rule quietly_require [OF g]) (simp add: in_transaction_def)
  show ?thesis unfolding quietly_def smtp_dial_def Let_def
    using quietlyD [OF h] quietlyD [OF g]
    by (auto split: prod.splits sum.splits if_splits) fastforce+
qed

lemma get_run_quiet:
  "get_run N cancelled n g (p, st) = Some (r, p', st') \<Longrightarrow> \<exists>l. mr_log st' = mr_log st @ l \<and> quiet l"
proof (induction n arbitrary: g p st)
  case (Suc n)
  show ?case
  proof (cases g)
    case (Probing c)
    obtain e st1 where i: "issue N c CmdNoop st = (e, st1)" by fastforce
    obtain e2 st2 where j: "issue N c CmdQuit st1 = (e2, st2)" by fastforce
    obtain l where l: "mr_log st1 = mr_log st @ l" "quiet l"
      using quiet_issue [OF i] by (auto simp: in_transaction_def)
    obtain l2 where l2: "mr_log st2 = mr_log st1 @ l2" "quiet l2"
      using quiet_issue [OF j] by (auto simp: in_transaction_def)
    have "(\<exists>g2 p2. get_run N cancelled n g2 (p2, st1) = Some (r, p', st')) \<or>
        (\<exists>g2 p2. get_run N cancelled n g2 (p2, st2) = Some (r, p', st'))"
      using Suc.prems Probing i j by (cases e) (auto simp: get_probe_def simp del: get_run.simps(1))
    then show ?thesis using Suc.IH l l2 by (metis append.assoc quiet_simps(2))
  next
    case Dialling
    obtain x st1 where d: "smtp_dial N (cp_config p) (cp_addr p) st = (x, st1)" by fastforce
    from quietlyD [OF quietly_dial d] obtain l where l: "mr_log st1 = mr_log st @ l" "quiet l" by blast
    have "\<exists>g2 p2. get_run N cancelled n g2 (p2, st1) = Some (r, p', st')"
      using Suc.prems Dialling d
      by (cases x) (auto simp: get_dial_def dialNew_def simp del: get_run.simps(1,2))
    then show ?thesis using Suc.IH l by (metis append.assoc quiet_simps(2))
  next
    case Looking
    then have "\<exists>g2 p2. get_run N cancelled n g2 (p2, st) = Some (r, p', st')"
      using Suc.prems by (auto split: prod.splits)
    then show ?thesis using Suc.IH by blast
  next
    case Counting
    then show ?thesis using Suc by simp
  next
    case Waiting
    then have "\<exists>g2 p2. get_run N cancelled n g2 (p2, st) = Some (r, p', st')"
      using Suc.prems by (auto split: option.splits)
    then show ?thesis using Suc.IH by blast
  qed (use Suc.prems in auto)
next
  case 0
  then show ?case by (cases g) auto
qed

lemma pool_commands_are_quiet:
  "Pool_Get N cancelled (p, st) = Some (r, p', st') \<Longrightarrow> \<exists>l. mr_log st' = mr_log st @ l \<and> quiet l"
  "Pool_Put N client force (p, st) = Returns (p', st') \<Longrightarrow> \<exists>l. mr_log st' = mr_log st @ l \<and> quiet l"
proof -
  assume "Pool_Get N cancelled (p, st) = Some (r, p', st')"
  then show "\<exists>l. mr_log st' = mr_log st @ l \<and> quiet l"
    using get_run_quiet by (fastforce simp: Pool_Get_def)
next
  have q: "\<exists>l. mr_log (snd (issue N c CmdQuit st)) = mr_log st @ l \<and> quiet l" for c
    using quiet_issue [of N c CmdQuit st] by (cases "issue N c CmdQuit st") (auto simp: in_transaction_def)
  have n: "\<exists>l. mr_log st = mr_log st @ l \<and> quiet l" by simp
  assume "Pool_Put N client force (p, st) = Returns (p', st')"
  then have "st' = st \<or> (\<exists>c. st' = snd (issue N c CmdQuit st))"
    by (auto simp: Pool_Put_def put_send_def quit_conn_def split: option.splits if_splits run.splits)
  then show "\<exists>l. mr_log st' = mr_log st @ l \<and> quiet l" using q n by blast
qed

end
