(* ===== verification/SendGrid.thy ===== *)
theory SendGrid
  imports KexSmtp
begin

text \<open>
  \<^verbatim>\<open>kex-utils/pkg/kexsmtp/sendgrid.go\<close>: a mailer that posts the message to the SendGrid API. The HTTP
  client and the JSON encoder are parameters.
\<close>

subsection \<open>The payload\<close>

record sg_email =
  se_Email :: string
  se_Name :: string

record sg_personalization =
  sp_To :: "sg_email list"
  sp_Cc :: "sg_email list"
  sp_Bcc :: "sg_email list"
  sp_Subject :: string

record sg_content =
  sc_Type :: string
  sc_Value :: string

record sg_attachment =
  sa_Content :: string
  sa_Filename :: string
  sa_Type :: string
  sa_Disposition :: string

record sg_mail =
  sm_Personalizations :: "sg_personalization list"
  sm_From :: sg_email
  sm_ReplyTo :: "sg_email option"
  sm_Subject :: string
  sm_Content :: "sg_content list"
  sm_Attachments :: "sg_attachment list"

record send_grid =
  sg_APIKey :: string
  sg_From :: string
  sg_FromName :: string
  sg_closed :: bool

definition NewSendGrid :: "string \<Rightarrow> string \<Rightarrow> string \<Rightarrow> mail_error + send_grid" where
  "NewSendGrid apiKey from fromName =
     (if apiKey = [] then Inl (MailSentinel ErrAuthFailed)
      else Inr \<lparr>sg_APIKey = apiKey, sg_From = from, sg_FromName = fromName, sg_closed = False\<rparr>)"

definition sg_address :: "string \<Rightarrow> sg_email" where
  "sg_address a = \<lparr>se_Email = a, se_Name = []\<rparr>"

definition sg_attach :: "attachment \<Rightarrow> sg_attachment" where
  "sg_attach a = \<lparr>sa_Content = StdEncode (at_Data a), sa_Filename = at_Filename a,
     sa_Type = at_ContentType a, sa_Disposition = ''attachment''\<rparr>"

definition sg_payload :: "send_grid \<Rightarrow> mail \<Rightarrow> sg_mail" where
  "sg_payload s m =
     \<lparr>sm_Personalizations = [\<lparr>sp_To = map sg_address (ml_To m), sp_Cc = map sg_address (ml_Cc m),
        sp_Bcc = map sg_address (ml_Bcc m), sp_Subject = ml_Subject m\<rparr>],
      sm_From = \<lparr>se_Email = (if ml_From m = [] then sg_From s else ml_From m), se_Name = sg_FromName s\<rparr>,
      sm_ReplyTo = (if ml_ReplyTo m \<noteq> [] then Some (sg_address (ml_ReplyTo m)) else None),
      sm_Subject = ml_Subject m,
      sm_Content = [\<lparr>sc_Type = (if ml_ContentType m = [] then ContentTypeTextPlain else ml_ContentType m),
        sc_Value = ml_Body m\<rparr>],
      sm_Attachments = map sg_attach (ml_Attachments m)\<rparr>"

subsection \<open>Requests\<close>

text \<open>A request: method, URL, headers, body. An answer: the status and the header \<^verbatim>\<open>X-Message-Id\<close>.\<close>

record sg_request =
  gr_Method :: string
  gr_URL :: string
  gr_Header :: "(string \<times> string) list"
  gr_Body :: bytes

record 'w sg_env =
  gv_marshal :: "sg_mail \<Rightarrow> string + bytes"
  gv_request :: "sg_request \<Rightarrow> string option"     \<comment> \<open>the error of \<^verbatim>\<open>NewRequestWithContext\<close>\<close>
  gv_do :: "sg_request \<Rightarrow> 'w \<Rightarrow> (string + int \<times> string) \<times> 'w"
  gv_clock :: "'w \<Rightarrow> timestamp"

definition sg_bearer :: "send_grid \<Rightarrow> string \<times> string" where
  "sg_bearer s = (''Authorization'', ''Bearer '' @ sg_APIKey s)"

definition sg_post :: "send_grid \<Rightarrow> bytes \<Rightarrow> sg_request" where
  "sg_post s payload =
     \<lparr>gr_Method = ''POST'', gr_URL = ''https://api.sendgrid.com/v3/mail/send'',
      gr_Header = [sg_bearer s, (''Content-Type'', ''application/json'')], gr_Body = payload\<rparr>"

definition sg_status_error :: "string \<Rightarrow> int \<Rightarrow> mail_error" where
  "sg_status_error what status = Wrapped (what @ FormatInt status) (MailSentinel ErrProviderError)"

definition SendGrid_Send ::
    "'w sg_env \<Rightarrow> send_grid \<Rightarrow> send_inputs \<Rightarrow> mail option \<Rightarrow> 'w \<Rightarrow> (mail_error + send_result) \<times> 'w" where
  "SendGrid_Send E s inp msg w =
     (if sg_closed s then (Inl (MailSentinel ErrMailerClosed), w)
      else case ValidateMessage msg of
          Some e \<Rightarrow> (Inl e, w)
        | None \<Rightarrow>
           (case gv_marshal E (sg_payload s (the msg)) of
              Inl e \<Rightarrow> (Inl (wrapped ''kexsmtp: failed to marshal sendgrid payload'' e), w)
            | Inr payload \<Rightarrow>
               (case gv_request E (sg_post s payload) of
                  Some e \<Rightarrow> (Inl (wrapped ''kexsmtp: failed to create request'' e), w)
                | None \<Rightarrow>
                   (case gv_do E (sg_post s payload) w of
                      (Inl e, w) \<Rightarrow> (Inl (wrapped ''kexsmtp: sendgrid request failed'' e), w)
                    | (Inr (status, mid), w) \<Rightarrow>
                        if 400 \<le> status then (Inl (sg_status_error ''kexsmtp: sendgrid returned status '' status), w)
                        else
                          (Inr \<lparr>sr_MessageID = (if mid = []
                               then fst (GenerateMessageID (si_id_nano inp) (si_id_clock inp) ''sendgrid.net''
                                      (si_entropy inp))
                               else mid), sr_SentAt = gv_clock E w\<rparr>, w)))))"

definition SendGrid_Ping :: "'w sg_env \<Rightarrow> send_grid \<Rightarrow> 'w \<Rightarrow> mail_error option \<times> 'w" where
  "SendGrid_Ping E s w =
     (let req = \<lparr>gr_Method = ''GET'', gr_URL = ''https://api.sendgrid.com/v3/user/profile'',
            gr_Header = [sg_bearer s], gr_Body = []\<rparr>
      in if sg_closed s then (Some (MailSentinel ErrMailerClosed), w)
         else case gv_request E req of
             Some e \<Rightarrow> (Some (wrapped ''kexsmtp: ping failed'' e), w)
           | None \<Rightarrow>
              (case gv_do E req w of
                 (Inl e, w) \<Rightarrow> (Some (wrapped ''kexsmtp: ping failed'' e), w)
               | (Inr (status, _), w) \<Rightarrow>
                   (if 400 \<le> status then Some (sg_status_error ''kexsmtp: ping returned status '' status) else None, w)))"

definition SendGrid_Close :: "send_grid \<Rightarrow> send_grid" where
  "SendGrid_Close s = s\<lparr>sg_closed := True\<rparr>"

subsection \<open>Lemmas\<close>

text \<open>A success is one answer below 400 to the request with the payload of the message.\<close>

lemma sendgrid_success:
  assumes "SendGrid_Send E s inp msg w = (Inr r, w')"
  shows "\<exists>m payload status mid. msg = Some m \<and> \<not> sg_closed s \<and> ValidateMessage msg = None \<and>
    gv_marshal E (sg_payload s m) = Inr payload \<and>
    gv_do E (sg_post s payload) w = (Inr (status, mid), w') \<and> status < 400"
proof (cases msg)
  case None
  then show ?thesis using assms by (simp add: SendGrid_Send_def ValidateMessage_def split: if_splits)
next
  case (Some m)
  then show ?thesis using assms
    by (simp add: SendGrid_Send_def split: if_splits option.splits sum.splits prod.splits)
qed

text \<open>Everyone a message is for is named in the payload once per entry, and nobody else.\<close>

lemma sendgrid_recipients:
  "concat (map (\<lambda>p. map se_Email (sp_To p @ sp_Cc p @ sp_Bcc p)) (sm_Personalizations (sg_payload s m))) =
     collectRecipients m"
  by (simp add: sg_payload_def collectRecipients_def sg_address_def comp_def)

lemma sendgrid_attachments:
  "map (\<lambda>a. RawStdDecode (filter (\<lambda>c. c \<noteq> CHR ''='') (sa_Content a))) (sm_Attachments (sg_payload s m)) =
     map (Some \<circ> at_Data) (ml_Attachments m)"
proof -
  have "RawStdDecode (filter (\<lambda>c. c \<noteq> CHR ''='') (StdEncode data)) = Some data" for data
  proof -
    have "CHR ''='' \<notin> set (RawStdEncode data)" using RawStdEncode_chars by (auto simp: base64_std_def)
    then have "filter (\<lambda>c. c \<noteq> CHR ''='') (RawStdEncode data) = RawStdEncode data"
      by (intro filter_True) auto
    then show ?thesis by (simp add: StdEncode_def Let_def)
  qed
  then show ?thesis by (simp add: sg_payload_def sg_attach_def comp_def)
qed

text \<open>A closed mailer asks nothing of the network.\<close>

lemma sendgrid_closed: "sg_closed s \<Longrightarrow> snd (SendGrid_Send E s inp msg w) = w \<and> snd (SendGrid_Ping E s w) = w"
  by (simp add: SendGrid_Send_def SendGrid_Ping_def)

end
