(* ===== verification/SwiftbusRedis.thy ===== *)
theory SwiftbusRedis
  imports Swiftbus
begin

text \<open>
  \<^verbatim>\<open>kex-utils/pkg/kexswiftbus/redis_store.go\<close>: the message store on Redis publish/subscribe. A subscription
  is a \<^verbatim>\<open>PubSub\<close> of the Redis client, a Go channel and the goroutine \<^verbatim>\<open>consume\<close> that carries messages from
  one to the other; what Redis hands to the goroutine is an input. Subscriptions are numbered in the
  order they were made. A send on a closed channel is \<open>None\<close>.
\<close>

section \<open>The store\<close>

text \<open>
  Where a goroutine is: before the first \<^verbatim>\<open>select\<close>, in \<^verbatim>\<open>ReceiveTimeout\<close>, in the second \<^verbatim>\<open>select\<close> with a
  message, or returned.
\<close>

datatype consuming = AtTop | Receiving | Sending "string message" | Returned

text \<open>\<open>rc_got\<close> and \<open>rc_taken\<close> record what the goroutine got from Redis and what the reader took.\<close>

record redis_subscription =
  rc_topic :: string
  rc_channel :: string        \<comment> \<open>the name subscribed at Redis\<close>
  rc_buf :: "string message list"
  rc_chan_closed :: bool
  rc_ps_closed :: bool
  rc_ctx_done :: bool
  rc_phase :: consuming
  rc_got :: "string message list"
  rc_taken :: "string message list"

text \<open>\<open>rd_subClients\<close> are the numbers of the keys of the map, \<open>rd_errors\<close> the calls of the handler.\<close>

record redis_bus_store =
  rd_subs :: "redis_subscription list"
  rd_subClients :: "nat list"
  rd_closed :: bool
  rd_closeCh :: bool
  rd_prefix :: string
  rd_onError :: bool
  rd_errors :: "(string \<times> string) list"

datatype redis_store_option = WithRedisPrefix string | WithErrorHandler

fun apply_option :: "redis_store_option \<Rightarrow> redis_bus_store \<Rightarrow> redis_bus_store" where
  "apply_option (WithRedisPrefix p) s = s\<lparr>rd_prefix := p\<rparr>"
| "apply_option WithErrorHandler s = s\<lparr>rd_onError := True\<rparr>"

text \<open>\<open>client\<close> tells whether there is one.\<close>

definition NewRedisBusStore :: "bool \<Rightarrow> redis_store_option list \<Rightarrow> bus_error + redis_bus_store" where
  "NewRedisBusStore client opts =
     (if \<not> client then Inl ErrNilClient
      else Inr (fold apply_option opts
        \<lparr>rd_subs = [], rd_subClients = [], rd_closed = False, rd_closeCh = False, rd_prefix = [],
         rd_onError = False, rd_errors = []\<rparr>))"

definition channelName :: "redis_bus_store \<Rightarrow> string \<Rightarrow> string" where
  "channelName s topic = (if rd_prefix s \<noteq> [] then rd_prefix s @ '':'' @ topic else topic)"

text \<open>A payload: a string, bytes, or something for the JSON encoder.\<close>

datatype 'j payload = PString string | PBytes string | PValue 'j

definition encodePayload :: "('j \<Rightarrow> string + string) \<Rightarrow> 'j payload \<Rightarrow> string + string" where
  "encodePayload json_Marshal p =
     (case p of PString v \<Rightarrow> Inr v | PBytes v \<Rightarrow> Inr v | PValue v \<Rightarrow> json_Marshal v)"

datatype redis_publish_error = StoreErr bus_error | MarshalErr string | RedisErr string

text \<open>\<open>publish\<close> is the command of the Redis client, with channel and message.\<close>

definition RedisBus_Publish ::
    "('j \<Rightarrow> string + string) \<Rightarrow> (string \<Rightarrow> string \<Rightarrow> 'w \<Rightarrow> string option \<times> 'w) \<Rightarrow> 'j payload message \<Rightarrow>
     redis_bus_store \<Rightarrow> 'w \<Rightarrow> redis_publish_error option \<times> 'w" where
  "RedisBus_Publish json_Marshal publish m s w =
     (if rd_closed s then (Some (StoreErr ErrStoreClosed), w)
      else case encodePayload json_Marshal (msg_Payload m) of
          Inl e \<Rightarrow> (Some (MarshalErr e), w)
        | Inr payload \<Rightarrow> (case publish (channelName s (msg_Topic m)) payload w of (e, w) \<Rightarrow> (map_option RedisErr e, w)))"

definition RedisBus_Subscribe :: "string \<Rightarrow> redis_bus_store \<Rightarrow> (bus_error + nat) \<times> redis_bus_store" where
  "RedisBus_Subscribe topic s =
     (if rd_closed s then (Inl ErrStoreClosed, s)
      else (let i = length (rd_subs s) in
        (Inr i, s\<lparr>rd_subs := rd_subs s @ [\<lparr>rc_topic = topic, rc_channel = channelName s topic, rc_buf = [],
             rc_chan_closed = False, rc_ps_closed = False, rc_ctx_done = False, rc_phase = AtTop,
             rc_got = [], rc_taken = []\<rparr>],
           rd_subClients := rd_subClients s @ [i]\<rparr>)))"

definition on_sub :: "nat \<Rightarrow> (redis_subscription \<Rightarrow> redis_subscription) \<Rightarrow> redis_bus_store \<Rightarrow> redis_bus_store" where
  "on_sub i f s = s\<lparr>rd_subs := (rd_subs s)[i := f (rd_subs s ! i)]\<rparr>"

text \<open>The topic is not used. Every channel belongs to one entry, so the order of the map does not matter.\<close>

definition RedisBus_Unsubscribe ::
    "string \<Rightarrow> nat \<Rightarrow> redis_bus_store \<Rightarrow> ((bus_error + unit) \<times> redis_bus_store) option" where
  "RedisBus_Unsubscribe topic ch s =
     (if ch \<in> set (rd_subClients s) then
        (if rc_chan_closed (rd_subs s ! ch) then None
         else Some (Inr (), (on_sub ch (\<lambda>g. g\<lparr>rc_ps_closed := True, rc_chan_closed := True\<rparr>) s)
                \<lparr>rd_subClients := remove1 ch (rd_subClients s)\<rparr>))
      else Some (Inl ErrTopicNotFound, s))"

text \<open>\<^verbatim>\<open>Close\<close> up to \<^verbatim>\<open>wg.Wait\<close>, which returns once every goroutine has.\<close>

definition close_pubsubs :: "nat list \<Rightarrow> redis_bus_store \<Rightarrow> redis_bus_store" where
  "close_pubsubs is s = fold (\<lambda>i. on_sub i (\<lambda>g. g\<lparr>rc_ps_closed := True\<rparr>)) is s"

definition RedisBus_Close :: "redis_bus_store \<Rightarrow> redis_bus_store" where
  "RedisBus_Close s =
     (if rd_closed s then s
      else (close_pubsubs (rd_subClients s) (s\<lparr>rd_closed := True\<rparr>))\<lparr>rd_subClients := [], rd_closeCh := True\<rparr>)"

definition redis_wait_returns :: "redis_bus_store \<Rightarrow> bool" where
  "redis_wait_returns s \<longleftrightarrow> list_all (\<lambda>g. rc_phase g = Returned) (rd_subs s)"

section \<open>The goroutine\<close>

text \<open>
  What \<^verbatim>\<open>ReceiveTimeout\<close> gives: a message, a confirmation, an error as a value, or one of three kinds of
  returned errors: cancelled, deadline exceeded, any other.
\<close>

datatype pubsub_event =
    PsMessage string | PsSubscription | PsError string | PsCanceled | PsDeadline | PsFailed string

datatype consume_input = Look | Receive pubsub_event | PickSend | PickClose | PickDone

definition consume_return :: "redis_subscription \<Rightarrow> redis_subscription" where
  "consume_return g = g\<lparr>rc_phase := Returned, rc_ps_closed := True\<rparr>"

definition report :: "string \<Rightarrow> string \<Rightarrow> redis_bus_store \<Rightarrow> redis_bus_store" where
  "report topic e s = (if rd_onError s then s\<lparr>rd_errors := rd_errors s @ [(topic, e)]\<rparr> else s)"

definition redis_message :: "string \<Rightarrow> string \<Rightarrow> string message" where
  "redis_message topic payload =
     \<lparr>msg_ID = [], msg_Topic = topic, msg_Payload = payload, msg_Timestamp = 0, msg_Metadata = []\<rparr>"

definition consume_event :: "nat \<Rightarrow> pubsub_event \<Rightarrow> redis_bus_store \<Rightarrow> redis_bus_store" where
  "consume_event i ev s =
     (let topic = rc_topic (rd_subs s ! i) in
      case ev of
        PsCanceled \<Rightarrow> on_sub i consume_return s
      | PsDeadline \<Rightarrow> on_sub i (\<lambda>g. g\<lparr>rc_phase := AtTop\<rparr>) s
      | PsFailed e \<Rightarrow> on_sub i consume_return (report topic e s)
      | PsMessage p \<Rightarrow> (let m = redis_message topic p in
          on_sub i (\<lambda>g. g\<lparr>rc_phase := Sending m, rc_got := rc_got g @ [m]\<rparr>) s)
      | PsSubscription \<Rightarrow> on_sub i (\<lambda>g. g\<lparr>rc_phase := AtTop\<rparr>) s
      | PsError e \<Rightarrow> on_sub i (\<lambda>g. g\<lparr>rc_phase := AtTop\<rparr>) (report topic e s))"

definition consume_send :: "nat \<Rightarrow> string message \<Rightarrow> redis_bus_store \<Rightarrow> redis_bus_store option" where
  "consume_send i m s =
     (let g = rd_subs s ! i in
      if rc_chan_closed g then None
      else if length (rc_buf g) < chan_cap
        then Some (on_sub i (\<lambda>g. g\<lparr>rc_buf := rc_buf g @ [m], rc_phase := AtTop\<rparr>) s)
      else Some s)"

text \<open>One step of goroutine \<open>i\<close>; a case that is not ready, or belongs to another phase, leaves it waiting.\<close>

definition consume_step :: "nat \<Rightarrow> consume_input \<Rightarrow> redis_bus_store \<Rightarrow> redis_bus_store option" where
  "consume_step i inp s =
     (if \<not> i < length (rd_subs s) then Some s
      else (let g = rd_subs s ! i in
        case rc_phase g of
          AtTop \<Rightarrow>
            Some (if inp \<noteq> Look then s
                  else if rd_closeCh s \<or> rc_ctx_done g then on_sub i consume_return s
                  else on_sub i (\<lambda>g. g\<lparr>rc_phase := Receiving\<rparr>) s)
        | Receiving \<Rightarrow> Some (case inp of Receive ev \<Rightarrow> consume_event i ev s | _ \<Rightarrow> s)
        | Sending m \<Rightarrow>
            (case inp of
               PickSend \<Rightarrow> consume_send i m s
             | PickClose \<Rightarrow> Some (if rd_closeCh s then on_sub i consume_return s else s)
             | PickDone \<Rightarrow> Some (if rc_ctx_done g then on_sub i consume_return s else s)
             | _ \<Rightarrow> Some s)
        | Returned \<Rightarrow> Some s))"

text \<open>The reader of a channel.\<close>

definition redis_recv :: "nat \<Rightarrow> redis_bus_store \<Rightarrow> string message received \<times> redis_bus_store" where
  "redis_recv i s =
     (let g = rd_subs s ! i in
      case rc_buf g of
        m # ms \<Rightarrow> (Got m, on_sub i (\<lambda>g. g\<lparr>rc_buf := ms, rc_taken := rc_taken g @ [m]\<rparr>) s)
      | [] \<Rightarrow> (if rc_chan_closed g then Closed else Blocked, s))"

section \<open>Runs\<close>

text \<open>The operations, the readers and the goroutines interleave; \<open>None\<close> is a crash.\<close>

inductive redis_bus_step :: "redis_bus_store option \<Rightarrow> redis_bus_store option \<Rightarrow> bool" where
  subscribe: "RedisBus_Subscribe topic s = (r, s') \<Longrightarrow> redis_bus_step (Some s) (Some s')"
| unsubscribe: "redis_bus_step (Some s) (map_option snd (RedisBus_Unsubscribe topic ch s))"
| close: "redis_bus_step (Some s) (Some (RedisBus_Close s))"
| consume: "redis_bus_step (Some s) (consume_step i inp s)"
| recv: "i < length (rd_subs s) \<Longrightarrow> redis_bus_step (Some s) (Some (snd (redis_recv i s)))"
| ctx_done: "i < length (rd_subs s) \<Longrightarrow>
    redis_bus_step (Some s) (Some (on_sub i (\<lambda>g. g\<lparr>rc_ctx_done := True\<rparr>) s))"

text \<open>
  What the goroutine got is what the reader took, then what is buffered, then what it is about to send;
  a goroutine that returned may have given up one message.
\<close>

definition in_hand :: "redis_subscription \<Rightarrow> string message list" where
  "in_hand g = (case rc_phase g of Sending m \<Rightarrow> [m] | _ \<Rightarrow> [])"

definition carried :: "redis_subscription \<Rightarrow> bool" where
  "carried g \<longleftrightarrow>
     (\<exists>rest. rc_got g = rc_taken g @ rc_buf g @ rest \<and>
        (if rc_phase g = Returned then length rest \<le> 1 else rest = in_hand g)) \<and>
     length (rc_buf g) \<le> chan_cap \<and> (\<forall>m \<in> set (rc_got g). msg_Topic m = rc_topic g)"

definition redis_inv :: "redis_bus_store \<Rightarrow> bool" where
  "redis_inv s \<longleftrightarrow> list_all carried (rd_subs s) \<and> distinct (rd_subClients s) \<and>
     (\<forall>i \<in> set (rd_subClients s). i < length (rd_subs s) \<and> \<not> rc_chan_closed (rd_subs s ! i))"

lemma on_sub_simps [simp]:
  "length (rd_subs (on_sub i f s)) = length (rd_subs s)" "rd_subClients (on_sub i f s) = rd_subClients s"
  "rd_closed (on_sub i f s) = rd_closed s" "rd_closeCh (on_sub i f s) = rd_closeCh s"
  by (simp_all add: on_sub_def)

lemma report_simps [simp]:
  "rd_subs (report t e s) = rd_subs s" "rd_subClients (report t e s) = rd_subClients s"
  "rd_closeCh (report t e s) = rd_closeCh s"
  by (simp_all add: report_def)

lemma inv_on_sub:
  assumes "redis_inv s" "i < length (rd_subs s) \<Longrightarrow> carried (f (rd_subs s ! i))"
    "\<And>g. rc_chan_closed (f g) = rc_chan_closed g"
  shows "redis_inv (on_sub i f s)"
proof -
  have "carried (rd_subs (on_sub i f s) ! j)" if "j < length (rd_subs s)" for j
    using that assms(1,2) by (cases "j = i") (auto simp: on_sub_def redis_inv_def list_all_length)
  moreover have "rc_chan_closed (rd_subs (on_sub i f s) ! j) = rc_chan_closed (rd_subs s ! j)"
    if "j < length (rd_subs s)" for j
    using that assms(3) by (cases "j = i") (auto simp: on_sub_def)
  ultimately show ?thesis using assms(1) by (auto simp: redis_inv_def list_all_length)
qed

lemma inv_report: "redis_inv (report t e s) = redis_inv s"
  by (simp add: redis_inv_def)

lemma carried_return: "carried g \<Longrightarrow> carried (consume_return g)"
  by (auto simp: carried_def consume_return_def in_hand_def split: if_splits consuming.splits)

lemma carried_idle:
  "carried g \<Longrightarrow> in_hand g = [] \<Longrightarrow> rc_phase g \<noteq> Returned \<Longrightarrow> ph = AtTop \<or> ph = Receiving \<Longrightarrow>
     carried (g\<lparr>rc_phase := ph\<rparr>)"
  by (auto simp: carried_def in_hand_def)

lemma carried_message:
  "carried g \<Longrightarrow> rc_phase g = Receiving \<Longrightarrow> m = redis_message (rc_topic g) p \<Longrightarrow>
     carried (g\<lparr>rc_phase := Sending m, rc_got := rc_got g @ [m]\<rparr>)"
  by (auto simp: carried_def in_hand_def redis_message_def)

lemma carried_send:
  "carried g \<Longrightarrow> rc_phase g = Sending m \<Longrightarrow> length (rc_buf g) < chan_cap \<Longrightarrow>
     carried (g\<lparr>rc_buf := rc_buf g @ [m], rc_phase := AtTop\<rparr>)"
  by (auto simp: carried_def in_hand_def)

lemma carried_recv: "carried g \<Longrightarrow> rc_buf g = m # ms \<Longrightarrow> carried (g\<lparr>rc_buf := ms, rc_taken := rc_taken g @ [m]\<rparr>)"
  by (auto simp: carried_def in_hand_def split: consuming.splits)

lemma inv_carried: "redis_inv s \<Longrightarrow> i < length (rd_subs s) \<Longrightarrow> carried (rd_subs s ! i)"
  by (simp add: redis_inv_def list_all_length)

lemma inv_return: "redis_inv s \<Longrightarrow> redis_inv (on_sub i consume_return s)"
  by (rule inv_on_sub) (simp_all add: inv_carried carried_return, simp add: consume_return_def)

lemma inv_event:
  assumes "redis_inv s" "i < length (rd_subs s)" "rc_phase (rd_subs s ! i) = Receiving"
  shows "redis_inv (consume_event i ev s)"
proof -
  note c = inv_carried [OF assms(1,2)]
  have top: "redis_inv (on_sub i (\<lambda>g. g\<lparr>rc_phase := AtTop\<rparr>) s)"
    by (rule inv_on_sub [OF assms(1)]) (use c assms(3) in \<open>simp_all add: carried_idle in_hand_def\<close>)
  show ?thesis
  proof (cases ev)
    case (PsMessage p)
    have "redis_inv (on_sub i (\<lambda>g. g\<lparr>rc_phase := Sending (redis_message (rc_topic (rd_subs s ! i)) p),
        rc_got := rc_got g @ [redis_message (rc_topic (rd_subs s ! i)) p]\<rparr>) s)"
      by (rule inv_on_sub [OF assms(1)]) (use carried_message [OF c assms(3) refl] in simp_all)
    then show ?thesis by (simp add: consume_event_def PsMessage Let_def)
  next
    case (PsError e)
    have "redis_inv (on_sub i (\<lambda>g. g\<lparr>rc_phase := AtTop\<rparr>) (report (rc_topic (rd_subs s ! i)) e s))"
      by (rule inv_on_sub) (use assms(1) c assms(3) in \<open>simp_all add: inv_report carried_idle in_hand_def\<close>)
    then show ?thesis by (simp add: consume_event_def PsError)
  qed (use top inv_return assms(1) in \<open>simp_all add: consume_event_def inv_report\<close>)
qed

lemma inv_consume:
  assumes "redis_inv s" "consume_step i inp s = Some s'"
  shows "redis_inv s'"
proof (cases "i < length (rd_subs s)")
  case True
  note c = inv_carried [OF assms(1) True]
  show ?thesis
  proof (cases "rc_phase (rd_subs s ! i)")
    case AtTop
    have "redis_inv (on_sub i (\<lambda>g. g\<lparr>rc_phase := Receiving\<rparr>) s)"
      by (rule inv_on_sub [OF assms(1)]) (use c AtTop in \<open>simp_all add: carried_idle in_hand_def\<close>)
    then show ?thesis using assms True AtTop inv_return by (auto simp: consume_step_def Let_def split: if_splits)
  next
    case Receiving
    then show ?thesis using assms True inv_event [OF assms(1) True Receiving]
      by (auto simp: consume_step_def Let_def split: consume_input.splits)
  next
    case (Sending m)
    have "redis_inv (on_sub i (\<lambda>g. g\<lparr>rc_buf := rc_buf g @ [m], rc_phase := AtTop\<rparr>) s)"
      if "length (rc_buf (rd_subs s ! i)) < chan_cap"
      by (rule inv_on_sub [OF assms(1)]) (use carried_send [OF c Sending that] in simp_all)
    then show ?thesis using assms True Sending inv_return
      by (auto simp: consume_step_def consume_send_def Let_def split: consume_input.splits if_splits)
  qed (use assms True in \<open>simp add: consume_step_def\<close>)
qed (use assms in \<open>simp add: consume_step_def\<close>)

lemma carried_ps_closed:
  "carried (g\<lparr>rc_ps_closed := b\<rparr>) = carried g" "carried (g\<lparr>rc_chan_closed := b\<rparr>) = carried g"
  "carried (g\<lparr>rc_ctx_done := b\<rparr>) = carried g"
  by (simp_all add: carried_def in_hand_def)

lemma inv_close_pubsubs:
  "redis_inv s \<Longrightarrow> redis_inv (close_pubsubs is s) \<and> rd_subClients (close_pubsubs is s) = rd_subClients s"
proof (induction "is" arbitrary: s)
  case (Cons i xs)
  have "redis_inv (on_sub i (\<lambda>g. g\<lparr>rc_ps_closed := True\<rparr>) s)"
    by (rule inv_on_sub [OF Cons.prems]) (simp_all add: carried_ps_closed inv_carried Cons.prems)
  from Cons.IH [OF this] show ?case by (simp add: close_pubsubs_def)
qed (simp add: close_pubsubs_def)

lemma inv_step:
  assumes "redis_bus_step (Some s) (Some s')" "redis_inv s"
  shows "redis_inv s'"
  using assms(1)
proof cases
  case (subscribe topic r)
  then show ?thesis using assms(2)
    by (auto simp: RedisBus_Subscribe_def Let_def redis_inv_def carried_def in_hand_def nth_append less_SucI split: if_splits)
next
  case (unsubscribe topic ch)
  show ?thesis
  proof (cases "ch \<in> set (rd_subClients s)")
    case True
    then have lt: "ch < length (rd_subs s)" and s': "s' = (on_sub ch (\<lambda>g. g\<lparr>rc_ps_closed := True, rc_chan_closed := True\<rparr>) s)
        \<lparr>rd_subClients := remove1 ch (rd_subClients s)\<rparr>"
      using unsubscribe assms(2) by (auto simp: RedisBus_Unsubscribe_def redis_inv_def split: if_splits)
    have d: "distinct (rd_subClients s)" using assms(2) by (simp add: redis_inv_def)
    have "carried (rd_subs s' ! j)" if "j < length (rd_subs s)" for j
      using inv_carried [OF assms(2) that] lt
      by (cases "j = ch") (auto simp: s' on_sub_def carried_ps_closed)
    moreover have "\<not> rc_chan_closed (rd_subs s' ! j) \<and> j < length (rd_subs s)" if "j \<in> set (rd_subClients s')" for j
      using that d assms(2) by (cases "j = ch") (auto simp: s' on_sub_def redis_inv_def)
    ultimately show ?thesis using d by (auto simp: redis_inv_def list_all_length s' dest: notin_set_remove1)
  qed (use unsubscribe assms(2) in \<open>simp add: RedisBus_Unsubscribe_def\<close>)
next
  case close
  have "redis_inv (s\<lparr>rd_closed := True\<rparr>)" using assms(2) by (simp add: redis_inv_def)
  from inv_close_pubsubs [OF this] show ?thesis using close assms(2)
    by (auto simp: RedisBus_Close_def redis_inv_def)
next
  case (consume i inp)
  then show ?thesis using inv_consume [OF assms(2)] by metis
next
  case (recv i)
  note c = inv_carried [OF assms(2) recv(2)]
  show ?thesis
  proof (cases "rc_buf (rd_subs s ! i)")
    case (Cons m ms)
    have "redis_inv (on_sub i (\<lambda>g. g\<lparr>rc_buf := ms, rc_taken := rc_taken g @ [m]\<rparr>) s)"
      by (rule inv_on_sub [OF assms(2)]) (use carried_recv [OF c Cons] in simp_all)
    then show ?thesis using recv Cons by (simp add: redis_recv_def Let_def)
  qed (use recv assms(2) in \<open>simp add: redis_recv_def\<close>)
next
  case (ctx_done i)
  have "redis_inv (on_sub i (\<lambda>g. g\<lparr>rc_ctx_done := True\<rparr>) s)"
    by (rule inv_on_sub [OF assms(2)]) (simp_all add: carried_ps_closed inv_carried assms(2))
  then show ?thesis using ctx_done by simp
qed

lemma None_stuck: "redis_bus_step\<^sup>*\<^sup>* None x \<Longrightarrow> x = None"
  by (induction rule: rtranclp_induct) (auto elim: redis_bus_step.cases)

lemma inv_run:
  assumes "redis_bus_step\<^sup>*\<^sup>* (Some s0) (Some s)" "redis_inv s0"
  shows "redis_inv s"
proof -
  have "x = None \<or> redis_inv (the x)" if "redis_bus_step\<^sup>*\<^sup>* (Some s0) x" for x
    using that
  proof induction
    case (step x y)
    show ?case
    proof (cases x)
      case None
      with step(2) show ?thesis by (auto elim: redis_bus_step.cases)
    next
      case (Some s1)
      then have "redis_inv s1" using step by auto
      then show ?thesis using step(2) inv_step [of s1] Some by (cases y) auto
    qed
  qed (simp add: assms(2))
  from this [OF assms(1)] show ?thesis by simp
qed

lemma new_redis_inv: "NewRedisBusStore client opts = Inr s0 \<Longrightarrow> redis_inv s0"
proof -
  have "rd_subs (fold apply_option opts s) = rd_subs s \<and> rd_subClients (fold apply_option opts s) = rd_subClients s"
    for s
  proof (induction opts arbitrary: s)
    case (Cons opt opts)
    then show ?case by (cases opt) simp_all
  qed simp
  then show "NewRedisBusStore client opts = Inr s0 \<Longrightarrow> redis_inv s0"
    by (auto simp: NewRedisBusStore_def redis_inv_def split: if_splits)
qed

section \<open>Properties\<close>

text \<open>Runs as lists of operations.\<close>

datatype redis_op =
  OpSubscribe string | OpUnsubscribe nat | OpClose | OpConsume nat consume_input | OpRecv nat

definition redis_do :: "redis_op \<Rightarrow> redis_bus_store \<Rightarrow> redis_bus_store option" where
  "redis_do op s = (case op of
       OpSubscribe t \<Rightarrow> Some (snd (RedisBus_Subscribe t s))
     | OpUnsubscribe i \<Rightarrow> map_option snd (RedisBus_Unsubscribe [] i s)
     | OpClose \<Rightarrow> Some (RedisBus_Close s)
     | OpConsume i inp \<Rightarrow> consume_step i inp s
     | OpRecv i \<Rightarrow> Some (if i < length (rd_subs s) then snd (redis_recv i s) else s))"

fun redis_run :: "redis_op list \<Rightarrow> redis_bus_store option \<Rightarrow> redis_bus_store option" where
  "redis_run [] x = x"
| "redis_run (op # ops) x = redis_run ops (case x of None \<Rightarrow> None | Some s \<Rightarrow> redis_do op s)"

lemma redis_do_steps: "redis_bus_step\<^sup>*\<^sup>* (Some s) (redis_do op s)"
  using redis_bus_step.intros by (cases op) (auto simp: redis_do_def prod_eq_iff intro!: r_into_rtranclp)

lemma redis_run_steps: "redis_bus_step\<^sup>*\<^sup>* x (redis_run ops x)"
proof (induction ops arbitrary: x)
  case (Cons op ops)
  show ?case
  proof (cases x)
    case None
    then show ?thesis using Cons.IH [of None] by simp
  next
    case (Some s)
    then show ?thesis using rtranclp_trans [OF redis_do_steps Cons.IH] by simp
  qed
qed simp

text \<open>
  C37. Until the goroutine of a subscription returns, nothing that Redis handed to it is lost or
  reordered: what its reader took, what is buffered and the message it is about to send are, in this
  order, exactly what it received, all with the topic subscribed to. A goroutine that returned gave
  up one message at most, the last. At most 64 messages are buffered.
\<close>

theorem redis_messages_carried_in_order:
  assumes "NewRedisBusStore client opts = Inr s0" "redis_bus_step\<^sup>*\<^sup>* (Some s0) (Some s)" "i < length (rd_subs s)"
  shows "\<exists>rest. rc_got (rd_subs s ! i) = rc_taken (rd_subs s ! i) @ rc_buf (rd_subs s ! i) @ rest \<and>
    (if rc_phase (rd_subs s ! i) = Returned then length rest \<le> 1 else rest = in_hand (rd_subs s ! i)) \<and>
    length (rc_buf (rd_subs s ! i)) \<le> 64 \<and>
    (\<forall>m \<in> set (rc_got (rd_subs s ! i)). msg_Topic m = rc_topic (rd_subs s ! i))"
  using inv_carried [OF inv_run [OF assms(2) new_redis_inv [OF assms(1)]] assms(3)]
  unfolding carried_def chan_cap_def by blast

definition demo_redis_ops :: "redis_op list" where
  "demo_redis_ops = [OpSubscribe ''t'', OpConsume 0 Look, OpConsume 0 (Receive (PsMessage ''a'')),
     OpConsume 0 PickSend, OpRecv 0, OpConsume 0 Look, OpConsume 0 (Receive (PsMessage ''b''))]"

definition demo_redis_store :: redis_bus_store where
  "demo_redis_store = the (redis_run demo_redis_ops
     (Some (projr (NewRedisBusStore True [WithRedisPrefix ''p'', WithErrorHandler]))))"

theorem redis_messages_carried_in_order_witness:
  "rc_channel (rd_subs demo_redis_store ! 0) = ''p:t'' \<and>
   rc_taken (rd_subs demo_redis_store ! 0) = [redis_message ''t'' ''a''] \<and>
   rc_got (rd_subs demo_redis_store ! 0) = rc_taken (rd_subs demo_redis_store ! 0) @ [redis_message ''t'' ''b'']"
proof -
  let ?s0 = "projr (NewRedisBusStore True [WithRedisPrefix ''p'', WithErrorHandler])"
  have n: "NewRedisBusStore True [WithRedisPrefix ''p'', WithErrorHandler] = Inr ?s0"
    by (simp add: NewRedisBusStore_def)
  have "redis_run demo_redis_ops (Some ?s0) \<noteq> None" by code_simp
  then have "redis_run demo_redis_ops (Some ?s0) = Some demo_redis_store"
    by (auto simp: demo_redis_store_def)
  then have r: "redis_bus_step\<^sup>*\<^sup>* (Some ?s0) (Some demo_redis_store)"
    using redis_run_steps [of "Some ?s0" demo_redis_ops] by simp
  have l: "0 < length (rd_subs demo_redis_store)" by code_simp
  have c: "rc_channel (rd_subs demo_redis_store ! 0) = ''p:t''"
    "rc_taken (rd_subs demo_redis_store ! 0) = [redis_message ''t'' ''a'']"
    "rc_buf (rd_subs demo_redis_store ! 0) = []"
    "rc_phase (rd_subs demo_redis_store ! 0) = Sending (redis_message ''t'' ''b'')" by code_simp+
  then have "in_hand (rd_subs demo_redis_store ! 0) = [redis_message ''t'' ''b'']" by (simp add: in_hand_def)
  with redis_messages_carried_in_order [OF n r l] c show ?thesis by auto
qed

text \<open>
  Unsubscribing closes the channel while the goroutine may be about to send on it: the process
  crashes.
\<close>

lemma unsubscribe_can_crash:
  "redis_bus_step\<^sup>*\<^sup>* (Some (projr (NewRedisBusStore True []))) None"
proof -
  have "redis_run [OpSubscribe ''t'', OpConsume 0 Look, OpConsume 0 (Receive (PsMessage ''a'')), OpUnsubscribe 0,
      OpConsume 0 PickSend] (Some (projr (NewRedisBusStore True []))) = None" by code_simp
  then show ?thesis using redis_run_steps by metis
qed

text \<open>
  Closing the store closes no channel, unlike \<open>MemoryStore_Close\<close>: a reader of an empty channel stays
  blocked.
\<close>

lemma map_on_sub: "(\<And>g. f (h g) = f g) \<Longrightarrow> map f (rd_subs (on_sub i h s)) = map f (rd_subs s)"
  by (cases "i < length (rd_subs s)") (simp_all add: on_sub_def map_update list_update_beyond list_update_same_conv)

lemma map_close_pubsubs:
  "(\<And>g b. f (g\<lparr>rc_ps_closed := b\<rparr>) = f g) \<Longrightarrow> map f (rd_subs (close_pubsubs is s)) = map f (rd_subs s)"
  by (induction "is" arbitrary: s) (simp_all add: close_pubsubs_def map_on_sub)

lemma redis_close_leaves_channels_open:
  "map (\<lambda>g. (rc_buf g, rc_chan_closed g)) (rd_subs (RedisBus_Close s)) =
     map (\<lambda>g. (rc_buf g, rc_chan_closed g)) (rd_subs s)"
  by (simp add: RedisBus_Close_def map_close_pubsubs)

text \<open>
  After \<^verbatim>\<open>Close\<close> every goroutine returns after at most three of its own steps, so \<^verbatim>\<open>Close\<close> returns as soon
  as each pending \<^verbatim>\<open>ReceiveTimeout\<close> has.
\<close>

definition steps_left :: "redis_subscription \<Rightarrow> nat" where
  "steps_left g = (case rc_phase g of AtTop \<Rightarrow> 1 | Receiving \<Rightarrow> 3 | Sending _ \<Rightarrow> 2 | Returned \<Rightarrow> 0)"

lemma closed_consumers_return:
  assumes "rd_closeCh s" "consume_step i inp s = Some s'" "i < length (rd_subs s)"
  shows "s' = s \<or> steps_left (rd_subs s' ! i) < steps_left (rd_subs s ! i)"
proof -
  have r: "steps_left (rd_subs (on_sub i consume_return t) ! i) = 0" if "length (rd_subs t) = length (rd_subs s)" for t
    using that assms(3) by (simp add: on_sub_def consume_return_def steps_left_def)
  show ?thesis
  proof (cases "rc_phase (rd_subs s ! i)")
    case AtTop
    then show ?thesis using assms r [of s]
      by (auto simp: consume_step_def Let_def steps_left_def split: if_splits)
  next
    case Receiving
    then show ?thesis using assms r [of s] r [of "report _ _ s"]
      by (auto simp: consume_step_def Let_def steps_left_def consume_event_def on_sub_def consume_return_def report_def
          split: consume_input.splits pubsub_event.splits if_splits)
  next
    case (Sending m)
    then show ?thesis using assms r [of s]
      by (auto simp: consume_step_def consume_send_def Let_def steps_left_def on_sub_def consume_return_def
          split: consume_input.splits if_splits)
  qed (use assms in \<open>simp add: consume_step_def\<close>)
qed

end
