(* ===== verification/KexAvatar.thy ===== *)
theory KexAvatar
  imports Complex_Main GoRunes KexEncoding "HOL-Library.Word"
begin

unbundle bit_operations_syntax

text \<open>
  \<^verbatim>\<open>kex-utils/pkg/kexavatar/identicon.go\<close>: pictures made of an identifier. The image is its rows of pixels;
  the float64 operations of the colours and the PNG encoder are parameters.
\<close>

subsection \<open>Configuration\<close>

definition DefaultGridWidth :: int where "DefaultGridWidth = 24"
definition DefaultGrid :: int where "DefaultGrid = 5"
definition DefaultPadding :: int where "DefaultPadding = DefaultGridWidth div 2"
definition DefaultSize :: int where "DefaultSize = DefaultGridWidth * DefaultGrid + DefaultPadding * 2"

definition Base64Prefix :: string where "Base64Prefix = ''data:image/png;base64,''"

record identicon =
  ic_size :: int
  ic_grid :: int
  ic_width :: int
  ic_padding :: int

datatype identicon_option = WithSize int | WithGrid int

fun apply_identicon_option :: "identicon_option \<Rightarrow> identicon \<Rightarrow> identicon" where
  "apply_identicon_option (WithSize n) i = (if n > 0 then i\<lparr>ic_size := n\<rparr> else i)"
| "apply_identicon_option (WithGrid n) i = (if n > 0 then i\<lparr>ic_grid := n\<rparr> else i)"

definition NewIdenticon :: "identicon_option list \<Rightarrow> identicon" where
  "NewIdenticon opts =
     (let i = fold apply_identicon_option opts \<lparr>ic_size = 0, ic_grid = DefaultGrid, ic_width = 0, ic_padding = 0\<rparr>
      in if ic_size i = 0
         then i\<lparr>ic_size := DefaultSize, ic_width := DefaultGridWidth, ic_padding := DefaultPadding\<rparr>
         else (let width = ic_size i div ic_grid i; padding = width div 2
               in i\<lparr>ic_size := width * ic_grid i + padding * 2, ic_width := width, ic_padding := padding\<rparr>))"

subsection \<open>Hash and pattern\<close>

definition xorshift :: "64 word \<Rightarrow> 64 word" where
  "xorshift h = h XOR drop_bit 33 h"

definition hashID :: "int \<Rightarrow> 64 word" where
  "hashID ident = (let h = word_of_int ident;
     h = xorshift h; h = h * 0xff51afd7ed558ccd;
     h = xorshift h; h = h * 0xc4ceb9fe1a85ec53
     in xorshift h)"

text \<open>One bit of the hash, set in column \<open>dx\<close> and its mirror.\<close>

definition set_mirrored :: "nat \<Rightarrow> bool \<Rightarrow> bool list \<Rightarrow> bool list" where
  "set_mirrored dx b row =
     (let row = row[dx := b]; mirrorX = length row - 1 - dx
      in if mirrorX \<noteq> dx then row[mirrorX := b] else row)"

definition pattern_row :: "64 word \<Rightarrow> nat \<Rightarrow> nat \<Rightarrow> bool list" where
  "pattern_row hash grid y =
     (let mid = grid div 2
      in fold (\<lambda>dx. set_mirrored dx (drop_bit (y * (mid + 1) + dx) hash AND 1 = 1)) [0..<mid + 1]
           (replicate grid False))"

definition generatePattern :: "identicon \<Rightarrow> int \<Rightarrow> bool list list" where
  "generatePattern i ident =
     (let grid = nat (ic_grid i) in map (pattern_row (hashID ident) grid) [0..<grid])"

subsection \<open>Colours\<close>

record rgba =
  cl_R :: "8 word"
  cl_G :: "8 word"
  cl_B :: "8 word"
  cl_A :: "8 word"

text \<open>The operations of float64; \<open>fl_byte x\<close> is \<^verbatim>\<open>uint8(math.Round(x))\<close>, \<open>fl_lit\<close> the value of a literal.\<close>

record 'f floats =
  fl_int :: "int \<Rightarrow> 'f"
  fl_lit :: "string \<Rightarrow> 'f"
  fl_add :: "'f \<Rightarrow> 'f \<Rightarrow> 'f"
  fl_sub :: "'f \<Rightarrow> 'f \<Rightarrow> 'f"
  fl_mul :: "'f \<Rightarrow> 'f \<Rightarrow> 'f"
  fl_div :: "'f \<Rightarrow> 'f \<Rightarrow> 'f"
  fl_mod :: "'f \<Rightarrow> 'f \<Rightarrow> 'f"
  fl_less :: "'f \<Rightarrow> 'f \<Rightarrow> bool"
  fl_eq :: "'f \<Rightarrow> 'f \<Rightarrow> bool"
  fl_byte :: "'f \<Rightarrow> 8 word"

definition hueToRGB :: "'f floats \<Rightarrow> 'f \<Rightarrow> 'f \<Rightarrow> 'f \<Rightarrow> 'f" where
  "hueToRGB F p q h =
     (let n = fl_int F; h = fl_mod F h (n 360);
          h = (if fl_less F h (n 0) then fl_add F h (n 360) else h)
      in if fl_less F h (n 60) then fl_add F p (fl_div F (fl_mul F (fl_sub F q p) h) (n 60))
         else if fl_less F h (n 180) then q
         else if fl_less F h (n 240)
           then fl_add F p (fl_div F (fl_mul F (fl_sub F q p) (fl_sub F (n 240) h)) (n 60))
         else p)"

definition hslToRGB :: "'f floats \<Rightarrow> 'f \<Rightarrow> 'f \<Rightarrow> 'f \<Rightarrow> rgba" where
  "hslToRGB F h s l =
     (let n = fl_int F;
          (r, g, b) =
            (if fl_eq F s (n 0) then (l, l, l)
             else (let q = (if fl_less F l (fl_lit F ''0.5'') then fl_mul F l (fl_add F (n 1) s)
                            else fl_sub F (fl_add F l s) (fl_mul F l s));
                       p = fl_sub F (fl_mul F (n 2) l) q
                   in (hueToRGB F p q (fl_add F h (n 120)), hueToRGB F p q h,
                       hueToRGB F p q (fl_sub F h (n 120)))));
          channel = (\<lambda>x. fl_byte F (fl_mul F x (n 255)))
      in \<lparr>cl_R = channel r, cl_G = channel g, cl_B = channel b, cl_A = 255\<rparr>)"

text \<open>A component: \<open>base\<close> and hundredths of a number.\<close>

definition hundredths :: "'f floats \<Rightarrow> string \<Rightarrow> int \<Rightarrow> 'f" where
  "hundredths F base k = fl_add F (fl_lit F base) (fl_div F (fl_int F k) (fl_lit F ''100.0''))"

definition deterministicColor :: "'f floats \<Rightarrow> int \<Rightarrow> rgba" where
  "deterministicColor F ident =
     (let hash = hashID ident
      in hslToRGB F (fl_int F (uint (hash mod 360))) (hundredths F ''0.5'' (uint (drop_bit 8 hash mod 30)))
           (hundredths F ''0.4'' (uint (drop_bit 16 hash mod 20))))"

definition formatHexColor :: "rgba \<Rightarrow> string" where
  "formatHexColor c = ''#'' @ hex_encode (map (\<lambda>w. char_of (unat w)) [cl_R c, cl_G c, cl_B c])"

subsection \<open>Drawing\<close>

type_synonym image = "rgba list list"

text \<open>\<^verbatim>\<open>SetRGBA\<close> ignores points outside the image.\<close>

definition SetRGBA :: "int \<Rightarrow> int \<Rightarrow> rgba \<Rightarrow> image \<Rightarrow> image" where
  "SetRGBA x y c img =
     (if 0 \<le> y \<and> nat y < length img \<and> 0 \<le> x then img[nat y := (img ! nat y)[nat x := c]] else img)"

text \<open>A rectangle by its smallest and largest coordinates.\<close>

definition fillRect :: "int \<Rightarrow> int \<Rightarrow> int \<Rightarrow> int \<Rightarrow> rgba \<Rightarrow> image \<Rightarrow> image" where
  "fillRect x0 y0 x1 y1 c img =
     fold (\<lambda>y. fold (\<lambda>x. SetRGBA x y c) [x0..x1 - 1]) [y0..y1 - 1] img"

definition white :: rgba where
  "white = \<lparr>cl_R = 255, cl_G = 255, cl_B = 255, cl_A = 255\<rparr>"

definition blank_image :: "int \<Rightarrow> image" where
  "blank_image n = replicate (nat n) (replicate (nat n) \<lparr>cl_R = 0, cl_G = 0, cl_B = 0, cl_A = 0\<rparr>)"

text \<open>The cells in the order of the loops.\<close>

definition cells :: "nat \<Rightarrow> (nat \<times> nat) list" where
  "cells grid = concat (map (\<lambda>y. map (\<lambda>x. (x, y)) [0..<grid]) [0..<grid])"

definition draw_cell :: "identicon \<Rightarrow> bool list list \<Rightarrow> rgba \<Rightarrow> nat \<times> nat \<Rightarrow> image \<Rightarrow> image" where
  "draw_cell i pattern c xy img =
     (case xy of (x, y) \<Rightarrow>
        if pattern ! y ! x
        then fillRect (ic_padding i + int x * ic_width i) (ic_padding i + int y * ic_width i)
               (ic_padding i + (int x + 1) * ic_width i) (ic_padding i + (int y + 1) * ic_width i) c img
        else img)"

definition generateImage :: "'f floats \<Rightarrow> identicon \<Rightarrow> int \<Rightarrow> image" where
  "generateImage F i ident =
     fold (draw_cell i (generatePattern i ident) (deterministicColor F ident)) (cells (nat (ic_grid i)))
       (fillRect 0 0 (ic_size i) (ic_size i) white (blank_image (ic_size i)))"

subsection \<open>Encodings\<close>

definition Identicon_Generate ::
    "(image \<Rightarrow> string + bytes) \<Rightarrow> 'f floats \<Rightarrow> identicon \<Rightarrow> int \<Rightarrow> string + bytes" where
  "Identicon_Generate png_Encode F i ident = png_Encode (generateImage F i ident)"

definition Identicon_GenerateBase64 ::
    "(image \<Rightarrow> string + bytes) \<Rightarrow> 'f floats \<Rightarrow> identicon \<Rightarrow> int \<Rightarrow> string + string" where
  "Identicon_GenerateBase64 png_Encode F i ident =
     (case Identicon_Generate png_Encode F i ident of Inl e \<Rightarrow> Inl e | Inr data \<Rightarrow> Inr (StdEncode data))"

definition GenerateBase64WithPrefix ::
    "(image \<Rightarrow> string + bytes) \<Rightarrow> 'f floats \<Rightarrow> identicon \<Rightarrow> int \<Rightarrow> string + string" where
  "GenerateBase64WithPrefix png_Encode F i ident =
     (case Identicon_GenerateBase64 png_Encode F i ident of Inl e \<Rightarrow> Inl e | Inr t \<Rightarrow> Inr (Base64Prefix @ t))"

definition attr :: "string \<Rightarrow> string \<Rightarrow> string" where
  "attr name v = name @ ''='' @ [CHR 0x22] @ v @ [CHR 0x22]"

definition svg_open :: "int \<Rightarrow> int \<Rightarrow> int \<Rightarrow> string" where
  "svg_open box w h =
     ''<svg '' @ attr ''xmlns'' ''http://www.w3.org/2000/svg'' @ '' '' @
     attr ''viewBox'' (''0 0 '' @ FormatInt box @ '' '' @ FormatInt box) @ '' '' @
     attr ''width'' (FormatInt w) @ '' '' @ attr ''height'' (FormatInt h) @ ''>''"

definition svg_cell :: "string \<Rightarrow> nat \<times> nat \<Rightarrow> string" where
  "svg_cell color xy = (case xy of (x, y) \<Rightarrow>
     ''<rect '' @ attr ''x'' (FormatInt (int x)) @ '' '' @ attr ''y'' (FormatInt (int y)) @ '' '' @
     attr ''width'' ''1'' @ '' '' @ attr ''height'' ''1'' @ '' '' @ attr ''fill'' color @ ''/>'')"

definition GenerateSVG :: "'f floats \<Rightarrow> identicon \<Rightarrow> int \<Rightarrow> string" where
  "GenerateSVG F i ident =
     (let color = formatHexColor (deterministicColor F ident); pattern = generatePattern i ident
      in svg_open (ic_grid i) (ic_size i) (ic_size i) @
         ''<rect '' @ attr ''width'' (FormatInt (ic_grid i)) @ '' '' @ attr ''height'' (FormatInt (ic_grid i)) @ '' '' @
         attr ''fill'' ''#ffffff'' @ ''/>'' @
         concat (map (svg_cell color) (filter (\<lambda>(x, y). pattern ! y ! x) (cells (nat (ic_grid i))))) @ ''</svg>'')"

definition SVGBase64Prefix :: string where "SVGBase64Prefix = ''data:image/svg+xml;base64,''"

definition GenerateSVGBase64 :: "'f floats \<Rightarrow> identicon \<Rightarrow> int \<Rightarrow> string" where
  "GenerateSVGBase64 F i ident = SVGBase64Prefix @ StdEncode (GenerateSVG F i ident)"

text \<open>The functions of the package use the default configuration; those with \<^verbatim>\<open>Must\<close> panic on an error.\<close>

definition must_avatar :: "string + 'a \<Rightarrow> 'a run" where
  "must_avatar r = (case r of Inl e \<Rightarrow> Panics e | Inr v \<Rightarrow> Returns v)"

definition MustGenerate :: "(image \<Rightarrow> string + bytes) \<Rightarrow> 'f floats \<Rightarrow> int \<Rightarrow> bytes run" where
  "MustGenerate png_Encode F ident = must_avatar (Identicon_Generate png_Encode F (NewIdenticon []) ident)"

definition MustGenerateBase64 :: "(image \<Rightarrow> string + bytes) \<Rightarrow> 'f floats \<Rightarrow> int \<Rightarrow> string run" where
  "MustGenerateBase64 png_Encode F ident = must_avatar (Identicon_GenerateBase64 png_Encode F (NewIdenticon []) ident)"

definition MustGenerateBase64WithPrefix :: "(image \<Rightarrow> string + bytes) \<Rightarrow> 'f floats \<Rightarrow> int \<Rightarrow> string run" where
  "MustGenerateBase64WithPrefix png_Encode F ident =
     must_avatar (GenerateBase64WithPrefix png_Encode F (NewIdenticon []) ident)"

subsection \<open>The hash is a bijection\<close>

lemma xorshift_twice: "xorshift (xorshift h) = h"
  by (rule bit_word_eqI) (auto simp: xorshift_def bit_simps)

lemma xorshift_inj: "inj xorshift"
  by (rule inj_on_inverseI [where g = xorshift]) (rule xorshift_twice)

lemma mult_inj: "c * d = 1 \<Longrightarrow> inj (\<lambda>h :: 64 word. h * c)"
  by (rule inj_on_inverseI [where g = "\<lambda>h. h * d"]) (simp add: mult.assoc)

lemma hash_injective:
  assumes "in_int64 a" "in_int64 b" "hashID a = hashID b"
  shows "a = b"
proof -
  have i: "inj (\<lambda>h :: 64 word. h * 0xff51afd7ed558ccd)" by (rule mult_inj [where d = "0x4f74430c22a54005"]) simp
  have j: "inj (\<lambda>h :: 64 word. h * 0xc4ceb9fe1a85ec53)" by (rule mult_inj [where d = "0x9cb4b2f8129337db"]) simp
  have "(word_of_int a :: 64 word) = word_of_int b"
    using assms(3) unfolding hashID_def Let_def
    by (simp only: inj_eq [OF xorshift_inj] inj_eq [OF i] inj_eq [OF j])
  from arg_cong [OF this, of sint] have "signed_take_bit 63 a = signed_take_bit 63 b"
    by (simp add: sint_sbintrunc')
  then show ?thesis using assms(1,2) by (simp add: in_int64_def signed_take_bit_int_eq_self)
qed

subsection \<open>Patterns are symmetric\<close>

definition mirrored :: "'a list \<Rightarrow> bool" where
  "mirrored row \<longleftrightarrow> rev row = row"

lemma mirrored_nth: "mirrored row \<Longrightarrow> x < length row \<Longrightarrow> row ! (length row - 1 - x) = row ! x"
  unfolding mirrored_def by (metis diff_Suc_1' diff_diff_left diff_less length_greater_0_conv length_rev less_nat_zero_code
      list.size(3) plus_1_eq_Suc rev_nth zero_less_Suc add.commute One_nat_def)

lemma length_set_mirrored [simp]: "length (set_mirrored d b row) = length row"
  by (simp add: set_mirrored_def Let_def)

lemma mirrored_set: "mirrored row \<Longrightarrow> d < length row \<Longrightarrow> mirrored (set_mirrored d b row)"
proof -
  assume m: "mirrored row" and d: "d < length row"
  let ?n = "length row" and ?e = "length row - 1 - d"
  have e: "?e < ?n" using d by simp
  have r: "set_mirrored d b row = row[d := b, ?e := b]"
    by (cases "?e = d") (simp_all add: set_mirrored_def Let_def)
  have "rev (row[d := b, ?e := b]) = (rev row)[?n - 1 - ?e := b, ?n - 1 - d := b]"
    using d e by (cases "?e = d") (simp_all add: rev_update, simp add: list_update_swap)
  also have "\<dots> = row[d := b, ?e := b]"
    using m d by (cases "?e = d") (simp_all add: mirrored_def list_update_swap)
  finally show ?thesis by (simp add: r mirrored_def)
qed

lemma fold_mirrored:
  "mirrored row \<Longrightarrow> list_all (\<lambda>d. d < length row) ds \<Longrightarrow>
     mirrored (fold (\<lambda>d. set_mirrored d (f d)) ds row) \<and> length (fold (\<lambda>d. set_mirrored d (f d)) ds row) = length row"
  by (induction ds arbitrary: row) (simp_all add: mirrored_set)

lemma pattern_row_mirrored: "mirrored (pattern_row hash grid y) \<and> length (pattern_row hash grid y) = grid"
proof (cases grid)
  case (Suc g)
  have m: "mirrored (replicate grid False)" by (simp add: mirrored_def)
  have l: "list_all (\<lambda>d. d < length (replicate grid False)) [0..<grid div 2 + 1]" using Suc by (auto simp: list_all_iff)
  have "mirrored (fold (\<lambda>d. set_mirrored d (f d)) [0..<grid div 2 + 1] (replicate grid False)) \<and>
      length (fold (\<lambda>d. set_mirrored d (f d)) [0..<grid div 2 + 1] (replicate grid False)) = grid" for f
    using fold_mirrored [OF m l, of f] by (simp only: length_replicate)
  then show ?thesis unfolding pattern_row_def Let_def .
qed (simp add: pattern_row_def set_mirrored_def mirrored_def)

lemma pattern_symmetric:
  assumes "x < nat (ic_grid i)" "y < nat (ic_grid i)"
  shows "generatePattern i ident ! y ! (nat (ic_grid i) - 1 - x) = generatePattern i ident ! y ! x"
  using assms mirrored_nth [of "pattern_row (hashID ident) (nat (ic_grid i)) y" x] pattern_row_mirrored
  by (simp add: generatePattern_def Let_def)

subsection \<open>What is drawn\<close>

definition pixel :: "image \<Rightarrow> int \<Rightarrow> int \<Rightarrow> rgba" where
  "pixel img x y = img ! nat y ! nat x"

definition square :: "int \<Rightarrow> image \<Rightarrow> bool" where
  "square n img \<longleftrightarrow> length img = nat n \<and> (\<forall>row \<in> set img. length row = nat n)"

lemma square_SetRGBA: "square n img \<Longrightarrow> square n (SetRGBA x y c img)"
  by (auto simp: square_def SetRGBA_def dest!: set_update_subset_insert [THEN subsetD])

lemma pixel_SetRGBA:
  assumes "square n img" "0 \<le> px" "px < n" "0 \<le> py" "py < n"
  shows "pixel (SetRGBA x y c img) px py = (if px = x \<and> py = y then c else pixel img px py)"
  using assms by (auto simp: square_def SetRGBA_def pixel_def nth_list_update nat_eq_iff)

lemma fold_fill:
  assumes "\<And>a img. a \<in> set xs \<Longrightarrow> square n img \<Longrightarrow>
    square n (f a img) \<and> pixel (f a img) px py = (if P a then c else pixel img px py)"
  shows "square n img \<Longrightarrow> square n (fold f xs img) \<and>
    pixel (fold f xs img) px py = (if \<exists>a \<in> set xs. P a then c else pixel img px py)"
  using assms
proof (induction xs arbitrary: img)
  case (Cons a xs)
  from Cons.prems(2) [of a img] Cons.prems(1)
  have a: "square n (f a img)" "pixel (f a img) px py = (if P a then c else pixel img px py)" by auto
  from Cons.IH [OF a(1)] Cons.prems(2) a(2) show ?case by auto
qed simp

lemma pixel_fillRect:
  assumes "square n img" "0 \<le> px" "px < n" "0 \<le> py" "py < n"
  shows "square n (fillRect x0 y0 x1 y1 c img) \<and> pixel (fillRect x0 y0 x1 y1 c img) px py =
    (if x0 \<le> px \<and> px < x1 \<and> y0 \<le> py \<and> py < y1 then c else pixel img px py)"
proof -
  have row: "square n (fold (\<lambda>x. SetRGBA x y c) [x0..x1 - 1] im) \<and>
      pixel (fold (\<lambda>x. SetRGBA x y c) [x0..x1 - 1] im) px py =
        (if \<exists>x \<in> set [x0..x1 - 1]. px = x \<and> py = y then c else pixel im px py)" if "square n im" for y im
    by (rule fold_fill [OF _ that]) (simp add: square_SetRGBA pixel_SetRGBA [OF _ assms(2-5)])
  have "square n (fold (\<lambda>y. fold (\<lambda>x. SetRGBA x y c) [x0..x1 - 1]) [y0..y1 - 1] img) \<and>
      pixel (fold (\<lambda>y. fold (\<lambda>x. SetRGBA x y c) [x0..x1 - 1]) [y0..y1 - 1] img) px py =
        (if \<exists>y \<in> set [y0..y1 - 1]. \<exists>x \<in> set [x0..x1 - 1]. px = x \<and> py = y then c else pixel img px py)"
    by (rule fold_fill [OF _ assms(1)]) (rule row)
  then show ?thesis by (auto simp: fillRect_def)
qed

text \<open>The pixel lies in cell \<open>(x, y)\<close>.\<close>

definition in_cell :: "identicon \<Rightarrow> int \<Rightarrow> int \<Rightarrow> nat \<times> nat \<Rightarrow> bool" where
  "in_cell i px py xy = (case xy of (x, y) \<Rightarrow>
     ic_padding i + int x * ic_width i \<le> px \<and> px < ic_padding i + (int x + 1) * ic_width i \<and>
     ic_padding i + int y * ic_width i \<le> py \<and> py < ic_padding i + (int y + 1) * ic_width i)"

lemma pixel_generateImage:
  assumes "0 \<le> px" "px < ic_size i" "0 \<le> py" "py < ic_size i"
  shows "square (ic_size i) (generateImage F i ident) \<and> pixel (generateImage F i ident) px py =
    (if \<exists>(x, y) \<in> set (cells (nat (ic_grid i))). generatePattern i ident ! y ! x \<and> in_cell i px py (x, y)
     then deterministicColor F ident else white)"
proof -
  let ?img = "fillRect 0 0 (ic_size i) (ic_size i) white (blank_image (ic_size i))"
  have "square (ic_size i) (blank_image (ic_size i))" by (simp add: square_def blank_image_def)
  from pixel_fillRect [OF this assms, of 0 0 "ic_size i" "ic_size i" white]
  have img: "square (ic_size i) ?img" "pixel ?img px py = white" using assms by auto
  have "square (ic_size i) (generateImage F i ident) \<and> pixel (generateImage F i ident) px py =
    (if \<exists>xy \<in> set (cells (nat (ic_grid i))). generatePattern i ident ! snd xy ! fst xy \<and> in_cell i px py xy
     then deterministicColor F ident else pixel ?img px py)"
    unfolding generateImage_def
    by (rule fold_fill [OF _ img(1)])
      (auto simp: draw_cell_def in_cell_def pixel_fillRect [OF _ assms] split: prod.splits)
  then show ?thesis by (auto simp: img(2) split: if_splits)
qed

lemma set_cells: "set (cells n) = {(x, y). x < n \<and> y < n}"
  by (auto simp: cells_def)

text \<open>
  Every cell lies in the image, except for a grid of its own without a size: then the size is the one
  of the default grid.
\<close>

definition fits :: "identicon \<Rightarrow> bool" where
  "fits i \<longleftrightarrow> 0 < ic_grid i \<and> ic_size i = ic_width i * ic_grid i + ic_padding i * 2"

lemma options_grid: "0 < ic_grid i \<Longrightarrow> 0 < ic_grid (fold apply_identicon_option opts i)"
proof (induction opts arbitrary: i)
  case (Cons opt opts)
  then show ?case by (cases opt) simp_all
qed simp

lemma options_size:
  "0 \<le> ic_size i \<Longrightarrow> 0 < ic_size i \<or> (\<exists>n. 0 < n \<and> WithSize n \<in> set opts) \<Longrightarrow>
     0 < ic_size (fold apply_identicon_option opts i)"
proof (induction opts arbitrary: i)
  case (Cons opt opts)
  show ?case
  proof (cases opt)
    case (WithSize n)
    then have "0 \<le> ic_size (apply_identicon_option opt i)"
      "0 < ic_size (apply_identicon_option opt i) \<or> (\<exists>n. 0 < n \<and> WithSize n \<in> set opts)"
      using Cons.prems by auto
    from Cons.IH [OF this] show ?thesis by simp
  next
    case (WithGrid n)
    then have "ic_size (apply_identicon_option opt i) = ic_size i" by simp
    with Cons.IH [of "apply_identicon_option opt i"] Cons.prems WithGrid show ?thesis by auto
  qed
qed auto

lemma NewIdenticon_fits:
  assumes "ic_grid (NewIdenticon opts) = 5 \<or> (\<exists>n. 0 < n \<and> WithSize n \<in> set opts)"
  shows "fits (NewIdenticon opts)"
proof -
  let ?i = "fold apply_identicon_option opts \<lparr>ic_size = 0, ic_grid = DefaultGrid, ic_width = 0, ic_padding = 0\<rparr>"
  have g: "0 < ic_grid ?i" by (rule options_grid) (simp add: DefaultGrid_def)
  show ?thesis
  proof (cases "ic_size ?i = 0")
    case True
    then have "\<not> (\<exists>n. 0 < n \<and> WithSize n \<in> set opts)" using options_size [of "\<lparr>ic_size = 0, ic_grid = DefaultGrid, ic_width = 0, ic_padding = 0\<rparr>" opts] by fastforce
    with assms have "ic_grid (NewIdenticon opts) = 5" by blast
    with True show ?thesis
      by (simp add: fits_def NewIdenticon_def Let_def DefaultSize_def DefaultGridWidth_def DefaultGrid_def
          DefaultPadding_def)
  qed (use g in \<open>simp add: fits_def NewIdenticon_def Let_def\<close>)
qed

lemma grid_without_size_is_cut:
  "ic_size (NewIdenticon [WithGrid 7]) <
     ic_padding (NewIdenticon [WithGrid 7]) + 6 * ic_width (NewIdenticon [WithGrid 7])"
  by code_simp

lemma in_cell_mirror:
  assumes "fits i" "x < nat (ic_grid i)"
  shows "in_cell i (ic_size i - 1 - px) py (x, y) = in_cell i px py (nat (ic_grid i) - 1 - x, y)"
proof -
  have "int (nat (ic_grid i) - 1 - x) = ic_grid i - 1 - int x" using assms(2) by simp
  then show ?thesis using assms(1) by (simp add: in_cell_def fits_def algebra_simps) linarith
qed

text \<open>
  A pixel of the picture has the colour of the identifier exactly when it lies in a cell whose bit of
  the hash is set, and is white otherwise; and the picture equals its mirror image, for every
  identifier, grid and size. This needs the size of the picture to be that of its cells, which
  holds for the default grid and whenever a size is given.
\<close>

theorem identicon_is_its_mirror_image:
  assumes "ic_grid (NewIdenticon opts) = 5 \<or> (\<exists>n. 0 < n \<and> WithSize n \<in> set opts)"
    and "0 \<le> px" "px < ic_size (NewIdenticon opts)" "0 \<le> py" "py < ic_size (NewIdenticon opts)"
  defines "i \<equiv> NewIdenticon opts"
  shows "pixel (generateImage F i ident) px py =
      (if \<exists>x y. x < nat (ic_grid i) \<and> y < nat (ic_grid i) \<and> generatePattern i ident ! y ! x \<and> in_cell i px py (x, y)
       then deterministicColor F ident else white) \<and>
    pixel (generateImage F i ident) (ic_size i - 1 - px) py = pixel (generateImage F i ident) px py"
proof -
  let ?g = "nat (ic_grid i)"
  define hit where "hit = (\<lambda>px. \<exists>x y. x < ?g \<and> y < ?g \<and> generatePattern i ident ! y ! x \<and> in_cell i px py (x, y))"
  have f: "fits i" using NewIdenticon_fits [OF assms(1)] by (simp add: i_def)
  have px: "pixel (generateImage F i ident) q py = (if hit q then deterministicColor F ident else white)"
    if "0 \<le> q" "q < ic_size i" for q
    using pixel_generateImage [of q i py F ident] that assms(4,5) by (auto simp: i_def [symmetric] set_cells hit_def)
  have half: "hit (ic_size i - 1 - q)" if "hit q" for q
  proof -
    from that obtain x y where x: "x < ?g" "y < ?g" "generatePattern i ident ! y ! x" "in_cell i q py (x, y)"
      unfolding hit_def by blast
    have "?g - 1 - x < ?g" "?g - 1 - (?g - 1 - x) = x" using x(1) by simp_all
    then have "in_cell i (ic_size i - 1 - q) py (?g - 1 - x, y)" "generatePattern i ident ! y ! (?g - 1 - x)"
      using in_cell_mirror [OF f, of "?g - 1 - x"] pattern_symmetric [OF x(1,2)] x by simp_all
    then show ?thesis unfolding hit_def using x(2) \<open>?g - 1 - x < ?g\<close> by blast
  qed
  have "hit (ic_size i - 1 - px) = hit px" using half [of px] half [of "ic_size i - 1 - px"] by auto
  moreover have "0 \<le> px" "px < ic_size i" using assms(2,3) by (simp_all add: i_def)
  ultimately show ?thesis using px [of px] px [of "ic_size i - 1 - px"] by (simp add: hit_def)
qed

definition exact_floats :: "rat floats" where
  "exact_floats = \<lparr>fl_int = of_int, fl_lit = (\<lambda>s. if s = ''0.5'' then 1 / 2 else if s = ''0.4'' then 2 / 5 else 100),
     fl_add = (+), fl_sub = (-), fl_mul = (*), fl_div = (/),
     fl_mod = (\<lambda>x y. x - y * of_int \<lfloor>x / y\<rfloor>), fl_less = (<), fl_eq = (=), fl_byte = (\<lambda>x. word_of_int (round x))\<rparr>"

theorem identicon_is_its_mirror_image_witness:
  "pixel (generateImage exact_floats (NewIdenticon [WithGrid 3, WithSize 9]) 1) 8 2 =
     pixel (generateImage exact_floats (NewIdenticon [WithGrid 3, WithSize 9]) 1) 2 2 \<and>
   generatePattern (NewIdenticon [WithGrid 3, WithSize 9]) 1 ! 0 = [False, False, False]"
proof
  have "ic_size (NewIdenticon [WithGrid 3, WithSize 9]) = 11" by code_simp
  then show "pixel (generateImage exact_floats (NewIdenticon [WithGrid 3, WithSize 9]) 1) 8 2 =
     pixel (generateImage exact_floats (NewIdenticon [WithGrid 3, WithSize 9]) 1) 2 2"
    using conjunct2 [OF identicon_is_its_mirror_image [of "[WithGrid 3, WithSize 9]" 2 2 exact_floats 1]] by simp
qed code_simp

text \<open>The hash has 64 bits: rows whose bits lie beyond them are white.\<close>

lemma high_rows_are_blank:
  assumes "64 \<le> y * (grid div 2 + 1)"
  shows "pattern_row hash grid y = replicate grid False"
proof -
  have z: "drop_bit (y * (grid div 2 + 1) + dx) hash = 0" for dx
    using assms by (intro bit_word_eqI) (auto simp: bit_simps dest: bit_imp_le_length)
  have u: "(replicate n False)[k := False] = replicate n False" for n k
    by (cases "k < n") (simp_all add: list_update_same_conv list_update_beyond)
  have "fold (\<lambda>dx. set_mirrored dx False) ds (replicate n False) = replicate n False" for ds n
    by (induction ds) (simp_all add: set_mirrored_def Let_def u)
  then show ?thesis unfolding pattern_row_def Let_def z by (simp del: upt_Suc)
qed

end
