(* ===== verification/AvatarText.thy ===== *)
theory AvatarText
  imports KexAvatar PluginSdk
begin

text \<open>
  \<^verbatim>\<open>kex-utils/pkg/kexavatar/initial.go\<close> and \<^verbatim>\<open>gravatar.go\<close>: a letter on a coloured square, and the address
  of a picture at Gravatar. The hash functions and the case mappings of Unicode are parameters.
\<close>

subsection \<open>Runes as bytes\<close>

definition cont :: "nat \<Rightarrow> char" where
  "cont n = char_of (128 + n mod 64)"

text \<open>\<^verbatim>\<open>WriteRune\<close> of a decoded rune.\<close>

definition encode_rune :: "nat \<Rightarrow> string" where
  "encode_rune r =
     (if r < 128 then [char_of r]
      else if r < 2048 then [char_of (192 + r div 64), cont r]
      else if r < 65536 then [char_of (224 + r div 4096), cont (r div 64), cont r]
      else [char_of (240 + r div 262144), cont (r div 4096), cont (r div 64), cont r])"

subsection \<open>Initials\<close>

definition InitialDefaultSize :: int where "InitialDefaultSize = 120"
definition InitialDefaultFontSize :: int where "InitialDefaultFontSize = 48"

record initial_avatar =
  ia_size :: int
  ia_fontSize :: int

datatype initial_option = InitialWithSize int | InitialWithFontSize int

fun apply_initial_option :: "initial_option \<Rightarrow> initial_avatar \<Rightarrow> initial_avatar" where
  "apply_initial_option (InitialWithSize n) a = (if n > 0 then a\<lparr>ia_size := n\<rparr> else a)"
| "apply_initial_option (InitialWithFontSize n) a = (if n > 0 then a\<lparr>ia_fontSize := n\<rparr> else a)"

definition NewInitialAvatar :: "initial_option list \<Rightarrow> initial_avatar" where
  "NewInitialAvatar opts =
     (let a = fold apply_initial_option opts \<lparr>ia_size = InitialDefaultSize, ia_fontSize = InitialDefaultFontSize\<rparr>;
          limit = go_div (wrap64 (ia_size a * 2)) 3
      in if ia_fontSize a > limit then a\<lparr>ia_fontSize := limit\<rparr> else a)"

text \<open>The case mappings, SHA-256 and float64.\<close>

record 'f text_env =
  te_upper :: "string \<Rightarrow> string"
  te_lower :: "string \<Rightarrow> string"
  te_sha256 :: "bytes \<Rightarrow> bytes"
  te_md5 :: "bytes \<Rightarrow> bytes"
  te_floats :: "'f floats"

definition extractInitial :: "'f text_env \<Rightarrow> string \<Rightarrow> string" where
  "extractInitial E name =
     (let name = TrimSpace name
      in if name = [] then ''?'' else te_upper E (encode_rune (fst (decode_rune name))))"

definition initialColor :: "'f text_env \<Rightarrow> string \<Rightarrow> string" where
  "initialColor E name =
     (let hash = te_sha256 E (te_lower E (TrimSpace name));
          h = push_bit 8 (word_of_nat (byte (hash ! 0))) OR (word_of_nat (byte (hash ! 1)) :: 64 word);
          F = te_floats E
      in formatHexColor (hslToRGB F (fl_int F (uint (h mod 360)))
           (hundredths F ''0.55'' (uint (drop_bit 8 h mod 20)))
           (hundredths F ''0.45'' (uint (drop_bit 16 h mod 15)))))"

definition escape_rune :: "nat \<Rightarrow> string" where
  "escape_rune r =
     (if r = 38 then ''&amp;'' else if r = 60 then ''&lt;'' else if r = 62 then ''&gt;''
      else if r = 34 then ''&quot;'' else if r = 39 then ''&apos;'' else encode_rune r)"

definition escapeSVG :: "string \<Rightarrow> string" where
  "escapeSVG s = concat (map escape_rune (runes s))"

definition svg_box :: "initial_avatar \<Rightarrow> string" where
  "svg_box a = svg_open (ia_size a) (ia_size a) (ia_size a)"

definition svg_text :: "initial_avatar \<Rightarrow> string" where
  "svg_text a =
     ''<text '' @ attr ''x'' ''50%'' @ '' '' @ attr ''y'' ''54%'' @ '' '' @ attr ''dominant-baseline'' ''middle'' @ '' '' @
     attr ''alignment-baseline'' ''middle'' @ '' '' @ attr ''text-anchor'' ''middle'' @ '' '' @
     attr ''font-family'' ''system-ui,-apple-system,sans-serif'' @ '' '' @
     attr ''font-size'' (FormatInt (ia_fontSize a)) @ '' '' @ attr ''font-weight'' ''600'' @ '' '' @
     attr ''fill'' ''#ffffff'' @ ''>''"

definition Initial_Generate :: "'f text_env \<Rightarrow> initial_avatar \<Rightarrow> string \<Rightarrow> string" where
  "Initial_Generate E a name =
     svg_box a @ ''<rect '' @ attr ''width'' (FormatInt (ia_size a)) @ '' '' @
     attr ''height'' (FormatInt (ia_size a)) @ '' '' @ attr ''fill'' (initialColor E name) @ ''/>'' @
     svg_text a @ escapeSVG (extractInitial E name) @ ''</text></svg>''"

definition Initial_GenerateBase64 :: "'f text_env \<Rightarrow> initial_avatar \<Rightarrow> string \<Rightarrow> string" where
  "Initial_GenerateBase64 E a name = SVGBase64Prefix @ StdEncode (Initial_Generate E a name)"

definition GenerateInitial :: "'f text_env \<Rightarrow> string \<Rightarrow> string" where
  "GenerateInitial E name = Initial_Generate E (NewInitialAvatar []) name"

definition GenerateInitialBase64 :: "'f text_env \<Rightarrow> string \<Rightarrow> string" where
  "GenerateInitialBase64 E name = Initial_GenerateBase64 E (NewInitialAvatar []) name"

subsection \<open>Gravatar\<close>

type_synonym GravatarDefault = string

definition GravatarDefaultIdenticon :: GravatarDefault where "GravatarDefaultIdenticon = ''identicon''"
definition GravatarDefaultMP :: GravatarDefault where "GravatarDefaultMP = ''mp''"
definition GravatarDefaultMonsterID :: GravatarDefault where "GravatarDefaultMonsterID = ''monsterid''"
definition GravatarDefaultWavatar :: GravatarDefault where "GravatarDefaultWavatar = ''wavatar''"
definition GravatarDefaultRetro :: GravatarDefault where "GravatarDefaultRetro = ''retro''"
definition GravatarDefaultRoboHash :: GravatarDefault where "GravatarDefaultRoboHash = ''robohash''"
definition GravatarDefaultBlank :: GravatarDefault where "GravatarDefaultBlank = ''blank''"
definition GravatarDefault404 :: GravatarDefault where "GravatarDefault404 = ''404''"

type_synonym GravatarRating = string

definition GravatarRatingG :: GravatarRating where "GravatarRatingG = ''g''"
definition GravatarRatingPG :: GravatarRating where "GravatarRatingPG = ''pg''"
definition GravatarRatingR :: GravatarRating where "GravatarRatingR = ''r''"
definition GravatarRatingX :: GravatarRating where "GravatarRatingX = ''x''"

record gravatar_params =
  gp_size :: int
  gp_defaultImage :: GravatarDefault
  gp_rating :: GravatarRating
  gp_forceDefault :: bool

datatype gravatar_option =
    GravatarWithSize int | GravatarWithDefault GravatarDefault | GravatarWithRating GravatarRating
  | GravatarForceDefault

fun apply_gravatar_option :: "gravatar_option \<Rightarrow> gravatar_params \<Rightarrow> gravatar_params" where
  "apply_gravatar_option (GravatarWithSize n) p = (if n > 0 then p\<lparr>gp_size := n\<rparr> else p)"
| "apply_gravatar_option (GravatarWithDefault d) p = p\<lparr>gp_defaultImage := d\<rparr>"
| "apply_gravatar_option (GravatarWithRating r) p = p\<lparr>gp_rating := r\<rparr>"
| "apply_gravatar_option GravatarForceDefault p = p\<lparr>gp_forceDefault := True\<rparr>"

definition gravatarHash :: "'f text_env \<Rightarrow> string \<Rightarrow> string" where
  "gravatarHash E email = hex_encode (te_md5 E (te_lower E (TrimSpace email)))"

definition gravatar_values :: "gravatar_params \<Rightarrow> form" where
  "gravatar_values p =
     (let values = form_set ''s'' (FormatInt (gp_size p)) [];
          values = (if gp_defaultImage p \<noteq> [] then form_set ''d'' (gp_defaultImage p) values else values);
          values = (if gp_rating p \<noteq> [] then form_set ''r'' (gp_rating p) values else values)
      in if gp_forceDefault p then form_set ''f'' ''y'' values else values)"

definition GravatarURL :: "'f text_env \<Rightarrow> string \<Rightarrow> gravatar_option list \<Rightarrow> string" where
  "GravatarURL E email opts =
     (let p = fold apply_gravatar_option opts
            \<lparr>gp_size = 120, gp_defaultImage = GravatarDefaultIdenticon, gp_rating = GravatarRatingPG, gp_forceDefault = False\<rparr>
      in ''https://www.gravatar.com/avatar/'' @ gravatarHash E email @ ''?'' @ form_encode (gravatar_values p))"

subsection \<open>What the text of a letter can contain\<close>

lemma fst_if: "(c \<Longrightarrow> P (fst x)) \<Longrightarrow> (\<not> c \<Longrightarrow> P (fst y)) \<Longrightarrow> P (fst (if c then x else y))"
  by simp

lemma decode_rune_bound: "fst (decode_rune s) < 4194304"
proof -
  have "byte c < 256" for c by (rule nat_of_char_less_256)
  then have b: "byte (s ! k) \<le> 255" for k by (simp add: less_Suc_eq_le [symmetric])
  have l1: "byte (s ! 0) < 4194304" using b [of 0] by linarith
  have l2: "(byte (s ! 0) - 0xC0) * 64 + (byte (s ! 1) - 0x80) < 4194304" using b [of 0] b [of 1] by linarith
  have l3: "(byte (s ! 0) - 0xE0) * 4096 + (byte (s ! 1) - 0x80) * 64 + (byte (s ! 2) - 0x80) < 4194304"
    using b [of 0] b [of 1] b [of 2] by linarith
  have l4: "(byte (s ! 0) - 0xF0) * 262144 + (byte (s ! 1) - 0x80) * 4096 + (byte (s ! 2) - 0x80) * 64 +
      (byte (s ! 3) - 0x80) < 4194304"
    if "cont_byte (s ! 1)" "cont_byte (s ! 2)" "cont_byte (s ! 3)"
    using b [of 0] that unfolding cont_byte_def by linarith
  show ?thesis unfolding decode_rune_def Let_def
    by (intro fst_if [where P = "\<lambda>n. n < 4194304"]; unfold fst_conv;
        (rule l1 | rule l2 | rule l3 | (elim conjE, rule l4; assumption) | simp))
qed

lemma runes_bound: "r \<in> set (runes s) \<Longrightarrow> r < 4194304"
proof (induction s rule: runes.induct)
  case (2 c s)
  obtain x w where d: "decode_rune (c # s) = (x, w)" by fastforce
  then have "x < 4194304" using decode_rune_bound [of "c # s"] by simp
  with d 2 show ?case by auto
qed simp

lemma byte_cont: "byte (cont n) = 128 + n mod 64"
proof -
  have "128 + n mod 64 < 256" using mod_less_divisor [of 64 n] by linarith
  then show ?thesis by (simp add: cont_def)
qed

lemma encode_rune_bytes:
  assumes "r < 4194304" "128 \<le> r" "c \<in> set (encode_rune r)"
  shows "128 \<le> byte c"
proof -
  have lead: "128 \<le> byte (char_of n :: char)" if "128 \<le> n" "n < 256" for n :: nat
    using that by simp
  have "r < 2048 \<Longrightarrow> 192 + r div 64 < 256" "r < 65536 \<Longrightarrow> 224 + r div 4096 < 256" "240 + r div 262144 < 256"
    using assms(1) by linarith+
  then have l: "r < 2048 \<Longrightarrow> 128 \<le> byte (char_of (192 + r div 64) :: char)"
    "r < 65536 \<Longrightarrow> 128 \<le> byte (char_of (224 + r div 4096) :: char)"
    "128 \<le> byte (char_of (240 + r div 262144) :: char)"
    by (intro lead; simp)+
  have n: "\<not> r < 128" using assms(2) by simp
  consider "r < 2048" | "\<not> r < 2048" "r < 65536" | "\<not> r < 2048" "\<not> r < 65536" by blast
  then have "c \<in> {char_of (192 + r div 64), char_of (224 + r div 4096), char_of (240 + r div 262144)} \<and> 128 \<le> byte c \<or>
      (\<exists>n. c = cont n)"
    by cases (use assms(3) l n in \<open>auto simp only: encode_rune_def if_True if_False list.set insert_iff empty_iff\<close>)
  then show ?thesis by (auto simp: byte_cont)
qed

lemma escape_rune_no_markup:
  assumes "r < 4194304" "c \<in> set (escape_rune r)"
  shows "byte c \<notin> {34, 39, 60, 62}"
proof (cases "128 \<le> r")
  case True
  then have "c \<in> set (encode_rune r)" using assms(2) by (simp add: escape_rune_def)
  from encode_rune_bytes [OF assms(1) True this] show ?thesis by auto
next
  case False
  then have "encode_rune r = [char_of r]" "byte (char_of r :: char) = r" by (simp_all add: encode_rune_def)
  then show ?thesis using assms(2) False by (auto simp: escape_rune_def split: if_splits)
qed

lemma escapeSVG_no_markup: "c \<in> set (escapeSVG s) \<Longrightarrow> byte c \<notin> {34, 39, 60, 62}"
  using escape_rune_no_markup runes_bound by (fastforce simp: escapeSVG_def)

text \<open>A name cannot end the text element of its picture.\<close>

lemma initial_text_has_no_markup:
  "\<exists>pre t. Initial_Generate E a name = pre @ svg_text a @ t @ ''</text></svg>'' \<and> CHR ''<'' \<notin> set t"
proof -
  have "CHR ''<'' \<notin> set (escapeSVG (extractInitial E name))" using escapeSVG_no_markup by fastforce
  then show ?thesis unfolding Initial_Generate_def by (metis append.assoc)
qed

text \<open>The hash of a colour has 16 bits, so what is taken from bit 16 on, the lightness, never varies.\<close>

lemma initial_lightness_is_constant:
  "drop_bit 16 (push_bit 8 (word_of_nat (byte a)) OR (word_of_nat (byte b) :: 64 word)) = 0"
proof -
  have "\<not> bit (byte c) n" if "8 \<le> n" for c :: char and n
  proof -
    have "byte c < 2 ^ 8" using nat_of_char_less_256 [of c] by simp
    also have "(2 :: nat) ^ 8 \<le> 2 ^ n" using that by (intro power_increasing) simp_all
    finally show ?thesis by (simp add: bit_iff_odd)
  qed
  then show ?thesis by (intro bit_word_eqI) (auto simp: bit_simps)
qed

end
