(* ===== verification/Spec2Isabelle.thy ===== *)
theory Spec2Isabelle
  imports RoleRegistry AbacRule Policy Authz Boot Middleware Tenant Signer Ssrf Dispatcher Swiftbus SwiftBadger SwiftRedis WebhookPool EventBus TxBus SwiftbusRace WebhookService KexValidator Jwt AuditLog Captcha IdentityPlugin SsoOidc WebAuthnRepo MailMime SmtpPool SendGrid SwiftbusRedis AvatarText
begin

text \<open>
  QuotaGate is a Go service (\<^verbatim>\<open>core\<close>) with a library of its own (\<^verbatim>\<open>kex-utils\<close>). This development
  models its server side: authorization, tenant isolation, tokens, webhooks, audit, login
  plugins and the stores and utilities they use. Each definition is a translation of the Go code
  it is named after; a Go function keeps its name, with the type in front where a name occurs
  twice (\<open>Sso_New\<close>, \<open>Captcha_New\<close>). Paths below are relative to \<^verbatim>\<open>src\<close>.

  \<^bold>\<open>How the code is rendered.\<close> A struct is a record with the struct's fields in order, under a
  prefix of its own; an enumeration of string constants is a type synonym of strings with its
  constants, one of error values a datatype. A Go string is its byte sequence. A method takes
  the state it may change and returns the new one. \<open>(v, err)\<close> results are a sum, \<open>Inl\<close> the error.
  A run-time panic is a value (\<open>Panics\<close>, or \<open>None\<close> where the text says so). 64-bit integers and
  durations are integers with the wrap-around written out (\<open>wrap64\<close>), the unsigned parameters of
  Argon2id and the bytes of UUIDs are words. \<^verbatim>\<open>range\<close> over a Go map takes the order as a parameter and
  the theorems hold for every order (\<open>key_order\<close>). Time, random draws and the answers of the
  network are arguments or streams. A critical section is one step; what a call does outside of one
  is a step of its own wherever calls interleave.

  \<^bold>\<open>Third-party code\<close> (Casbin, GORM and the database, Badger, Redis, the JOSE and gmsm modules,
  Argon2, oauth2, jwx) and the JSON codec at the types it is used at are parameters, collected in
  records of the calls the sources make. What is relied on is a named predicate (\<open>casbin_laws\<close>,
  \<open>executor_law\<close>, \<open>database_law\<close>, \<open>table_laws\<close>, \<open>commit_merges\<close>, \<open>badger_laws\<close>, \<open>redis_laws\<close>,
  \<open>gmsm_laws\<close>, \<open>jose_laws\<close>, \<open>ip_text_law\<close>) of documented behaviour, and each is shown to hold of a reference instance, on which the theorems
  that assume it are applied.

  \<^bold>\<open>Shared theories.\<close> \<open>Prelude\<close> (types, sequencing, 64-bit arithmetic, map orders), \<open>Models\<close>
  (persisted records), \<open>GoStrings\<close>, \<open>GoNet\<close>, \<open>GoRunes\<close>, \<open>GoTime\<close> (the standard library as the sources
  use it), \<open>ReqContext\<close> (the values in a request context), \<open>GormTable\<close> (the statements of a
  repository on a table, with their effect on the rows), \<open>TenantTable\<close> (the same under the tenant callbacks).

  \<^bold>\<open>Authorization.\<close> \<open>RoleRegistry\<close> (\<^verbatim>\<open>core/internal/authz/rolegistry.go\<close>): loading expands role
  inheritance to its transitive closure per domain and fails exactly on a cycle. \<open>AbacRule\<close>
  (\<^verbatim>\<open>abac_validator.go\<close>): lexer, parser and constant-truth check; the parser accepts exactly the
  grammar, given as an inductive relation. \<open>Policy\<close> (\<^verbatim>\<open>policy.go\<close>): the bootstrap tables. \<open>Authz\<close>
  (\<^verbatim>\<open>authz.go\<close>, \<^verbatim>\<open>model.go\<close>): the manager over the Casbin enforcers; rebuilding installs exactly the
  rules of registry and assignments, and assignments, revocations and events from other
  instances keep cache and enforcer in step. \<open>Boot\<close> (\<^verbatim>\<open>boot/authz.go\<close>): its bring-up. \<open>Errors\<close>
  (\<^verbatim>\<open>core/internal/errors\<close>) and \<open>Middleware\<close> (\<^verbatim>\<open>core/internal/middleware\<close>, the chain of
  \<^verbatim>\<open>router/router.go\<close>): a request reaches a protected handler only after authentication, limits and
  an allowing policy. \<open>Tenant\<close> (\<^verbatim>\<open>core/internal/tenant\<close>): the GORM callbacks over statements
  whose conditions are joined with AND or OR; statements without an OR touch only rows of the tenant
  of their context, and updates that write columns by their names never change the tenant of a row.
  The forms that escape (an OR, a Go field name, a pointer to a map, \<^verbatim>\<open>Save\<close>, an array) have theorems.

  \<^bold>\<open>Events and webhooks.\<close> \<open>Events\<close>, \<open>Signer\<close> (\<^verbatim>\<open>event/signer.go\<close>: signed headers verify, verified ones
  are fresh and authentic), \<open>Ssrf\<close> (\<^verbatim>\<open>kexssrf\<close>: only unblocked addresses are dialled), \<open>Dispatcher\<close>
  (\<^verbatim>\<open>event/dispatcher.go\<close>: every request sent is checked and signed; retries are bounded),
  \<open>WebhookRepo\<close> (\<^verbatim>\<open>repository/webhook.go\<close>: the outbox and its leases), \<open>WebhookWorker\<close> and
  \<open>WebhookPool\<close> (\<^verbatim>\<open>core/internal/worker\<close>: one worker, and the interleaving of the statements and
  deliveries of many as the relation \<open>pool_step\<close>: a completed entry has a recorded delivery the
  endpoint accepted), \<open>EventBus\<close> (\<^verbatim>\<open>event/bus.go\<close>, \<^verbatim>\<open>publisher.go\<close>, \<^verbatim>\<open>util/tx\<close>) and \<open>TxBus\<close> (the same over
  two handles of one database, as \<open>tx_step\<close>: the transactional bus writes the outbox through the
  caller's transaction, so the entries are there exactly after its commit, and what the worker
  delivers of them is the stored event), \<open>WebhookService\<close> (\<^verbatim>\<open>service/webhook.go\<close>). \<open>Swiftbus\<close> (\<^verbatim>\<open>kexswiftbus\<close>): channels, the in-memory store
  and the bus with its goroutines as the relations \<open>store_step\<close> and \<open>bus_step\<close>, where a publish is one
  step; \<open>SwiftbusRace\<close> takes a publish apart into the copy of the subscribers under the lock and the
  sends after it (\<open>racing_step\<close>). \<open>SwiftbusRedis\<close>
  (\<^verbatim>\<open>redis_store.go\<close>): the store on Redis, whose goroutines carry messages in order (\<open>redis_bus_step\<close>).

  \<^bold>\<open>Stores.\<close> \<open>Swiftdb\<close> (interface and JSON helpers of \<^verbatim>\<open>kexswiftdb\<close>) with its providers \<open>SwiftBadger\<close> and
  \<open>SwiftRedis\<close>: the read-modify-write helpers refine one atomic step.

  \<^bold>\<open>Cryptography and input.\<close> \<open>KexRandom\<close>, \<open>KexEncoding\<close>, \<open>KexCrypto\<close>, \<open>KexValidator\<close> (packages of the
  same names; generators as functions of a stream of draws, \<open>yields\<close> their contract; codecs with
  round trips). \<open>Jwt\<close> (\<^verbatim>\<open>kex-utils/pkg/jwt\<close>): issued tokens parse, parsed claims were signed and are
  current. \<open>AuditLog\<close> (\<^verbatim>\<open>util/audit\<close>, \<^verbatim>\<open>repository/audit.go\<close>): sanitizing, signatures, the repository.

  \<^bold>\<open>Plugins.\<close> \<open>PluginSdk\<close> (\<^verbatim>\<open>kexpluginsdk\<close>): the registry of factories. \<open>Captcha\<close> (\<^verbatim>\<open>core/plugin/captcha\<close>),
  \<open>IdentityPlugin\<close> (\<^verbatim>\<open>core/plugin/identity\<close>), \<open>Sso\<close> (\<^verbatim>\<open>core/plugin/sso\<close>, GitHub) and \<open>SsoOidc\<close> (OpenID
  Connect): an answer of a provider rests on the network answers it names. \<open>WebAuthnRepo\<close>
  (\<^verbatim>\<open>repository/webauthn.go\<close>): what a sign-count check decides and stores.

  \<^bold>\<open>Mail.\<close> \<open>KexSmtp\<close> (\<^verbatim>\<open>kexsmtp\<close>): messages, their MIME text and a sending as a sequence of SMTP commands,
  each of which may fail; a sending opens at most three transactions and a successful one
  completes the last. \<open>MailMime\<close>: what a receiver decodes from the text. \<open>SmtpPool\<close> (\<^verbatim>\<open>conn_pool.go\<close>): calls
  that share a pool interleave as the relation \<open>conn_step\<close>; the count of a pool is its open
  connections plus those made in advance. \<open>SendGrid\<close> (\<^verbatim>\<open>sendgrid.go\<close>): the payload and its request.

  \<^bold>\<open>Pictures.\<close> \<open>KexAvatar\<close> (\<^verbatim>\<open>kexavatar/identicon.go\<close>): the hash of an identifier and the symmetric picture
  it is drawn as. \<open>AvatarText\<close> (\<^verbatim>\<open>initial.go\<close>, \<^verbatim>\<open>gravatar.go\<close>): a name cannot leave its text element.

  \<^bold>\<open>Interfaces.\<close> \<open>message_store\<close> (what the bus needs of a store, interpreted on \<open>MemoryStore\<close>),
  \<open>kv_store\<close> (what the JSON helpers need, proved of both stores under the laws of their database and
  interpreted on the reference ones), \<open>outbox_writer\<close> (what the transactional bus needs, interpreted
  on the webhook repository), \<open>method_listing\<close> (the sorted listing of a registry, interpreted on
  the captcha, identity and SSO registries).

  \<^bold>\<open>Bounds.\<close> The ABAC parser has the fuel \<open>parse_fuel\<close>, four times the length of the rule plus 12;
  \<open>parse_fuel_suffices\<close> shows that it is never used up. The cursor loops of the Redis scans take a
  fuel; \<open>scan_keys_returns\<close> shows that they return as soon as it covers the pages of the server.
  The stripping of white space is bounded by the length of the text, which is enough because each
  step shortens it. Retry loops have the bounds of the code.

  \<^bold>\<open>Not modelled.\<close> Log lines, metrics and comments. The wiring of the process (\<^verbatim>\<open>boot\<close> apart from
  authorization, \<^verbatim>\<open>cmd\<close>): it opens sockets, files and databases and calls the components above in
  a fixed order. The persisted structs without operations (billing, gateway, growth, analytics,
  sync and most of \<^verbatim>\<open>core/internal/model\<close>), whose repositories and services are not in the
  repository, and the payment and relay plugin interfaces, which have no implementation. The
  providers for WebAuthn and QR codes, which the sources name but do not contain. The mock SSO
  provider, a test double. The utilities \<^verbatim>\<open>kexdatabase\<close> and \<^verbatim>\<open>kextls\<close>, which configure drivers.
  The front end.
\<close>

end
